(* ===== verification/Prelude.thy ===== *)
theory Prelude
  imports Complex_Main "HOL-Library.Multiset" "HOL-Library.Code_Target_Numeral"
begin

text \<open>
  Shared vocabulary of the development: JavaScript's insertion-ordered \<open>Map\<close>
  as an association list, optional values and their \<open>||\<close> defaults, stable
  sorting as \<open>Array.prototype.sort\<close> performs it, and the list lemmas that the
  components use. The collections \<open>jm\<close> and \<open>model\<close> gather the facts
  that carry the component proofs.
\<close>

named_theorems jm \<open>facts about insertion-ordered maps\<close>
named_theorems model \<open>defining equations that the component proofs unfold\<close>

section \<open>Optional values\<close>

text \<open>\<open>opt_or a b\<close> is \<open>a ?? b\<close> on optional values.\<close>

definition opt_or :: "'a option \<Rightarrow> 'a option \<Rightarrow> 'a option" where
  "opt_or a b = (case a of None \<Rightarrow> b | Some _ \<Rightarrow> a)"

lemma opt_or_simps [simp]:
  "opt_or None b = b" "opt_or (Some x) b = Some x" "opt_or a None = a"
  by (auto simp: opt_or_def split: option.splits)

lemma opt_or_idem [simp]: "opt_or a a = a"
  by (cases a) auto

lemma opt_or_assoc: "opt_or (opt_or a b) c = opt_or a (opt_or b c)"
  by (cases a) auto

lemma opt_or_eq_None [simp]: "opt_or a b = None \<longleftrightarrow> a = None \<and> b = None"
  by (cases a) auto

text \<open>\<open>xs ?? []\<close> for an optional array.\<close>

definition list_or :: "'a list option \<Rightarrow> 'a list" where
  "list_or x = (case x of None \<Rightarrow> [] | Some xs \<Rightarrow> xs)"

lemma list_or_simps [simp]: "list_or None = []" "list_or (Some xs) = xs"
  by (auto simp: list_or_def)

text \<open>The results of the model's fallible operations.\<close>

type_synonym ('e, 'a) result = "'e + 'a"

definition bind_r :: "('e, 'a) result \<Rightarrow> ('a \<Rightarrow> ('e, 'b) result) \<Rightarrow> ('e, 'b) result" where
  "bind_r x f = (case x of Inl e \<Rightarrow> Inl e | Inr a \<Rightarrow> f a)"

lemma bind_r_simps [simp]: "bind_r (Inl e) f = Inl e" "bind_r (Inr a) f = f a"
  by (auto simp: bind_r_def)

lemma bind_r_Inr: "bind_r x f = Inr b \<longleftrightarrow> (\<exists>a. x = Inr a \<and> f a = Inr b)"
  by (cases x) auto

lemma bind_r_Inl: "bind_r x f = Inl e \<longleftrightarrow> x = Inl e \<or> (\<exists>a. x = Inr a \<and> f a = Inl e)"
  by (cases x) auto

fun map_r :: "('a \<Rightarrow> ('e, 'b) result) \<Rightarrow> 'a list \<Rightarrow> ('e, 'b list) result" where
  "map_r f [] = Inr []"
| "map_r f (x # xs) = bind_r (f x) (\<lambda>y. bind_r (map_r f xs) (\<lambda>ys. Inr (y # ys)))"

lemma map_r_Inr: "map_r f xs = Inr ys \<Longrightarrow> list_all2 (\<lambda>x y. f x = Inr y) xs ys"
  by (induction xs arbitrary: ys) (auto simp: bind_r_Inr)

lemma map_r_cong: "(\<And>x. x \<in> set xs \<Longrightarrow> f x = g x) \<Longrightarrow> map_r f xs = map_r g xs"
  by (induction xs) auto

lemma map_r_all_Inr: "(\<And>x. x \<in> set xs \<Longrightarrow> f x = Inr (g x)) \<Longrightarrow> map_r f xs = Inr (map g xs)"
  by (induction xs) auto

section \<open>Insertion-ordered maps\<close>

text \<open>
  A JavaScript \<open>Map\<close> (and a plain object used as a dictionary) iterates over its
  keys in the order of their first insertion; \<open>set\<close> on a present key keeps the
  key's place. The model is an association list with distinct keys.
\<close>

type_synonym ('k, 'v) jmap = "('k \<times> 'v) list"

definition jm_get :: "('k, 'v) jmap \<Rightarrow> 'k \<Rightarrow> 'v option" where
  "jm_get m k = map_of m k"

fun jm_set :: "'k \<Rightarrow> 'v \<Rightarrow> ('k, 'v) jmap \<Rightarrow> ('k, 'v) jmap" where
  "jm_set k v [] = [(k, v)]"
| "jm_set k v ((k', v') # m) = (if k = k' then (k, v) # m else (k', v') # jm_set k v m)"

definition jm_delete :: "'k \<Rightarrow> ('k, 'v) jmap \<Rightarrow> ('k, 'v) jmap" where
  "jm_delete k m = filter (\<lambda>(k', _). k' \<noteq> k) m"

definition jm_keys :: "('k, 'v) jmap \<Rightarrow> 'k list" where
  "jm_keys m = map fst m"

definition jm_values :: "('k, 'v) jmap \<Rightarrow> 'v list" where
  "jm_values m = map snd m"

definition jm_has :: "('k, 'v) jmap \<Rightarrow> 'k \<Rightarrow> bool" where
  "jm_has m k \<longleftrightarrow> jm_get m k \<noteq> None"

definition jm_inv :: "('k, 'v) jmap \<Rightarrow> bool" where
  "jm_inv m \<longleftrightarrow> distinct (map fst m)"

text \<open>\<open>jm_of kvs\<close> is \<open>new Map(kvs)\<close> and \<open>Object.fromEntries(kvs)\<close>.\<close>

definition jm_of :: "('k \<times> 'v) list \<Rightarrow> ('k, 'v) jmap" where
  "jm_of kvs = fold (\<lambda>(k, v). jm_set k v) kvs []"

lemma jm_get_Nil [simp, jm]: "jm_get [] k = None"
  by (simp add: jm_get_def)

lemma jm_get_Cons [simp]: "jm_get ((a, b) # m) k = (if k = a then Some b else jm_get m k)"
  by (simp add: jm_get_def)

lemma jm_get_set [simp, jm]: "jm_get (jm_set k v m) k' = (if k' = k then Some v else jm_get m k')"
  by (induction k v m rule: jm_set.induct) auto

lemma jm_get_None: "jm_get m k = None \<longleftrightarrow> k \<notin> set (map fst m)"
  by (simp add: jm_get_def map_of_eq_None_iff)

lemma jm_get_delete [simp, jm]: "jm_get (jm_delete k m) k' = (if k' = k then None else jm_get m k')"
  by (induction m) (auto simp: jm_delete_def)

lemma jm_keys_set: "set (map fst (jm_set k v m)) = insert k (set (map fst m))"
  by (induction k v m rule: jm_set.induct) auto

lemma jm_keys_set_present: "k \<in> set (map fst m) \<Longrightarrow> map fst (jm_set k v m) = map fst m"
  by (induction k v m rule: jm_set.induct) auto

lemma jm_set_fresh: "k \<notin> set (map fst m) \<Longrightarrow> jm_set k v m = m @ [(k, v)]"
  by (induction k v m rule: jm_set.induct) auto

lemma jm_inv_Nil [simp, jm]: "jm_inv []"
  by (simp add: jm_inv_def)

lemma jm_inv_set [simp, jm]: "jm_inv m \<Longrightarrow> jm_inv (jm_set k v m)"
  by (induction k v m rule: jm_set.induct) (auto simp: jm_inv_def jm_keys_set simp del: set_map)

lemma jm_inv_delete [simp, jm]: "jm_inv m \<Longrightarrow> jm_inv (jm_delete k m)"
  by (induction m) (auto simp: jm_inv_def jm_delete_def)

lemma jm_get_in: "jm_inv m \<Longrightarrow> jm_get m k = Some v \<longleftrightarrow> (k, v) \<in> set m"
  by (auto simp: jm_get_def jm_inv_def)

lemma jm_get_in_set: "jm_get m k = Some v \<Longrightarrow> (k, v) \<in> set m"
  by (auto simp: jm_get_def dest: map_of_SomeD)

lemma jm_set_pairs: "jm_inv m \<Longrightarrow> set (jm_set k v m) = insert (k, v) {p \<in> set m. fst p \<noteq> k}"
  by (induction k v m rule: jm_set.induct) (auto simp: jm_inv_def)

lemma jm_set_member: "p \<in> set (jm_set k v m) \<Longrightarrow> p = (k, v) \<or> p \<in> set m"
  by (induction k v m rule: jm_set.induct) (auto split: if_splits)

lemma jm_delete_pairs: "set (jm_delete k m) = {p \<in> set m. fst p \<noteq> k}"
  by (auto simp: jm_delete_def)

lemma jm_keys_delete: "map fst (jm_delete k m) = filter (\<lambda>x. x \<noteq> k) (map fst m)"
  by (induction m) (auto simp: jm_delete_def)

lemma jm_length_delete: "jm_inv m \<Longrightarrow> k \<in> set (map fst m) \<Longrightarrow> length (jm_delete k m) = length m - 1"
proof (induction m)
  case (Cons p m)
  show ?case
  proof (cases "fst p = k")
    case True
    with Cons.prems have "k \<notin> fst ` set m" by (auto simp: jm_inv_def)
    then have "\<forall>q \<in> set m. fst q \<noteq> k" by force
    with True have "jm_delete k (p # m) = m"
      by (auto simp: jm_delete_def filter_id_conv split: prod.splits)
    then show ?thesis by simp
  next
    case False
    with Cons have "length (jm_delete k m) = length m - 1" by (auto simp: jm_inv_def)
    with False Cons.prems show ?thesis by (cases m) (auto simp: jm_delete_def split: prod.splits)
  qed
qed simp

lemma jm_length_set: "length (jm_set k v m) = (if k \<in> set (map fst m) then length m else Suc (length m))"
  by (induction k v m rule: jm_set.induct) auto

lemma jm_inv_of [simp, jm]: "jm_inv (jm_of kvs)"
proof -
  have "jm_inv m \<Longrightarrow> jm_inv (fold (\<lambda>(k, v). jm_set k v) kvs m)" for m
    by (induction kvs arbitrary: m) auto
  then show ?thesis by (simp add: jm_of_def)
qed

lemma jm_of_keys: "set (map fst (jm_of kvs)) = set (map fst kvs)"
proof -
  have "set (map fst (fold (\<lambda>(k, v). jm_set k v) kvs m)) = set (map fst m) \<union> set (map fst kvs)" for m :: "('a, 'b) jmap"
  proof (induction kvs arbitrary: m)
    case (Cons p kvs)
    obtain k v where "p = (k, v)" by fastforce
    with Cons.IH[of "jm_set k v m"] show ?case by (simp add: jm_keys_set del: set_map)
  qed simp
  then show ?thesis by (simp add: jm_of_def del: set_map)
qed

text \<open>
  What a client of a \<open>Map\<close> relies on. The lookups, the bookkeeping of the size
  and the order of the keys are proved once from these laws.
\<close>

locale js_map =
  fixes empty :: "'m" and get :: "'m \<Rightarrow> 'k \<Rightarrow> 'v option" and put :: "'k \<Rightarrow> 'v \<Rightarrow> 'm \<Rightarrow> 'm"
    and remove :: "'k \<Rightarrow> 'm \<Rightarrow> 'm" and entries :: "'m \<Rightarrow> ('k \<times> 'v) list" and invar :: "'m \<Rightarrow> bool"
  assumes get_empty: "get empty k = None"
    and get_put: "get (put k v m) k' = (if k' = k then Some v else get m k')"
    and get_remove: "get (remove k m) k' = (if k' = k then None else get m k')"
    and invar_empty: "invar empty"
    and invar_put: "invar m \<Longrightarrow> invar (put k v m)"
    and invar_remove: "invar m \<Longrightarrow> invar (remove k m)"
    and get_entries: "invar m \<Longrightarrow> get m k = Some v \<longleftrightarrow> (k, v) \<in> set (entries m)"
    and keys_distinct: "invar m \<Longrightarrow> distinct (map fst (entries m))"
begin

lemma put_twice: "get (put k v' (put k v m)) = get (put k v' m)"
  by (rule ext) (simp add: get_put)

lemma put_remove_comm: "k \<noteq> j \<Longrightarrow> get (put k v (remove j m)) = get (remove j (put k v m))"
  by (rule ext) (simp add: get_put get_remove)

lemma entries_put: "invar m \<Longrightarrow> set (entries (put k v m)) = insert (k, v) {p \<in> set (entries m). fst p \<noteq> k}"
proof (rule set_eqI)
  fix p :: "'k \<times> 'v" assume m: "invar m"
  obtain a b where p: "p = (a, b)" by fastforce
  have "p \<in> set (entries (put k v m)) \<longleftrightarrow> get (put k v m) a = Some b"
    using m p by (simp add: get_entries invar_put)
  also have "\<dots> \<longleftrightarrow> (a = k \<and> b = v) \<or> (a \<noteq> k \<and> (a, b) \<in> set (entries m))"
    using m by (auto simp: get_put get_entries)
  finally show "p \<in> set (entries (put k v m)) \<longleftrightarrow> p \<in> insert (k, v) {p \<in> set (entries m). fst p \<noteq> k}"
    using p by auto
qed

lemma entries_remove: "invar m \<Longrightarrow> set (entries (remove k m)) = {p \<in> set (entries m). fst p \<noteq> k}"
proof (rule set_eqI)
  fix p :: "'k \<times> 'v" assume m: "invar m"
  obtain a b where p: "p = (a, b)" by fastforce
  have "p \<in> set (entries (remove k m)) \<longleftrightarrow> get (remove k m) a = Some b"
    using m p by (simp add: get_entries invar_remove)
  also have "\<dots> \<longleftrightarrow> a \<noteq> k \<and> (a, b) \<in> set (entries m)"
    using m by (auto simp: get_remove get_entries)
  finally show "p \<in> set (entries (remove k m)) \<longleftrightarrow> p \<in> {p \<in> set (entries m). fst p \<noteq> k}"
    using p by auto
qed

end

interpretation jmap: js_map "[]" jm_get jm_set jm_delete "\<lambda>m. m" jm_inv
proof unfold_locales
  show "jm_inv m \<Longrightarrow> distinct (map fst m)" for m :: "('a, 'b) jmap"
    by (simp add: jm_inv_def)
qed (simp_all add: jm_get_in)

section \<open>Stable sorting\<close>

text \<open>
  \<open>Array.prototype.sort\<close> is stable, so sorting by a comparator that subtracts keys
  is insertion sort by the key. Descending order sorts by the negated key.
\<close>

definition sort_desc :: "('a \<Rightarrow> 'k::{linordered_ab_group_add}) \<Rightarrow> 'a list \<Rightarrow> 'a list" where
  "sort_desc f xs = sort_key (\<lambda>x. - f x) xs"

lemma mset_sort_desc [simp]: "mset (sort_desc f xs) = mset xs"
  by (simp add: sort_desc_def)

lemma set_sort_desc [simp]: "set (sort_desc f xs) = set xs"
  by (simp add: sort_desc_def)

lemma length_sort_desc [simp]: "length (sort_desc f xs) = length xs"
  by (simp add: sort_desc_def)

lemma sorted_sort_desc: "sorted_wrt (\<ge>) (map f (sort_desc f xs))"
proof -
  have "sorted (map (\<lambda>x. - f x) (sort_desc f xs))" by (simp add: sort_desc_def)
  then show ?thesis by (simp add: sorted_wrt_map)
qed

lemma sort_desc_stable: "filter (\<lambda>y. f y = k) (sort_desc f xs) = filter (\<lambda>y. f y = k) xs"
proof -
  have "filter (\<lambda>y. - f y = - k) (sort_key (\<lambda>x. - f x) xs) = filter (\<lambda>y. - f y = - k) xs"
    by (rule sort_key_stable)
  then show ?thesis by (simp add: sort_desc_def)
qed

section \<open>Lists\<close>

text \<open>\<open>[...new Set(xs)]\<close>: the first occurrence of every value, in order.\<close>

definition uniq :: "'a list \<Rightarrow> 'a list" where
  "uniq xs = rev (remdups (rev xs))"

lemma set_uniq [simp]: "set (uniq xs) = set xs"
  by (simp add: uniq_def)

lemma distinct_uniq [simp]: "distinct (uniq xs)"
  by (simp add: uniq_def)

lemma uniq_distinct: "distinct xs \<Longrightarrow> uniq xs = xs"
  by (simp add: uniq_def distinct_remdups_id)

lemma find_Some_in: "find P xs = Some x \<Longrightarrow> x \<in> set xs \<and> P x"
  by (auto simp: find_Some_iff)

end
