(* ===== verification/JsText.thy ===== *)
theory JsText
  imports Prelude "HOL-Library.List_Lexorder"
begin

text \<open>
  JavaScript strings: sequences of UTF-16 code units, so \<open>length\<close>, \<open>slice\<close> and
  indices count what the source's \<open>.length\<close> counts. Literals are written
  \<open>js ''abc''\<close>; Cyrillic literals are written as their code units. The string
  methods the source uses are defined here: \<open>trim\<close>, \<open>startsWith\<close>,
  \<open>includes\<close>, \<open>indexOf\<close>, \<open>split\<close>, \<open>join\<close>, \<open>replaceAll\<close>, \<open>Number\<close> and
  \<open>String\<close> on decimal digits, and \<open>Buffer.byteLength\<close>.
\<close>

type_synonym jstring = "nat list"

definition js :: "string \<Rightarrow> jstring" where
  "js s = map of_char s"

lemma js_simps [simp]:
  "js [] = []" "js (c # s) = of_char c # js s"
  by (simp_all add: js_def)

section \<open>Character classes\<close>

definition in_range :: "nat \<Rightarrow> nat \<Rightarrow> nat \<Rightarrow> bool" where
  "in_range a b c \<longleftrightarrow> a \<le> c \<and> c \<le> b"

definition is_digit :: "nat \<Rightarrow> bool" where
  "is_digit c \<longleftrightarrow> in_range 48 57 c"

definition is_upper :: "nat \<Rightarrow> bool" where
  "is_upper c \<longleftrightarrow> in_range 65 90 c"

definition is_lower :: "nat \<Rightarrow> bool" where
  "is_lower c \<longleftrightarrow> in_range 97 122 c"

text \<open>\<open>[a-f\d]\<close>, and \<open>[a-f\d]\<close> with the flag \<open>i\<close>.\<close>

definition is_hex_lower :: "nat \<Rightarrow> bool" where
  "is_hex_lower c \<longleftrightarrow> is_digit c \<or> in_range 97 102 c"

definition is_hex :: "nat \<Rightarrow> bool" where
  "is_hex c \<longleftrightarrow> is_hex_lower c \<or> in_range 65 70 c"

text \<open>\<open>\w\<close> and \<open>\s\<close>.\<close>

definition is_word :: "nat \<Rightarrow> bool" where
  "is_word c \<longleftrightarrow> is_digit c \<or> is_upper c \<or> is_lower c \<or> c = 95"

definition is_space :: "nat \<Rightarrow> bool" where
  "is_space c \<longleftrightarrow> in_range 9 13 c \<or> c = 32 \<or> c = 160 \<or> c = 5760 \<or> in_range 8192 8202 c
     \<or> c \<in> {8232, 8233, 8239, 8287, 12288, 65279}"

definition ascii_lower :: "nat \<Rightarrow> nat" where
  "ascii_lower c = (if is_upper c then c + 32 else c)"

lemmas char_class_defs = in_range_def is_digit_def is_upper_def is_lower_def is_hex_lower_def
  is_hex_def is_word_def ascii_lower_def

lemma ascii_lower_idem [simp]: "ascii_lower (ascii_lower c) = ascii_lower c"
  by (auto simp: char_class_defs)

lemma is_hex_ascii_lower: "is_hex c \<Longrightarrow> is_hex_lower (ascii_lower c)"
  by (auto simp: char_class_defs)

lemma is_hex_lower_hex: "is_hex_lower c \<Longrightarrow> is_hex c"
  by (simp add: is_hex_def)

lemma ascii_lower_hex_lower: "is_hex_lower c \<Longrightarrow> ascii_lower c = c"
  by (auto simp: char_class_defs)

section \<open>String methods\<close>

definition starts_with :: "jstring \<Rightarrow> jstring \<Rightarrow> bool" where
  "starts_with s p \<longleftrightarrow> take (length p) s = p"

definition ends_with :: "jstring \<Rightarrow> jstring \<Rightarrow> bool" where
  "ends_with s p \<longleftrightarrow> starts_with (rev s) (rev p)"

lemma starts_with_append [simp]: "starts_with (p @ s) p"
  by (simp add: starts_with_def)

lemma starts_withE: "starts_with s p \<Longrightarrow> s = p @ drop (length p) s"
  by (metis append_take_drop_id starts_with_def)

text \<open>\<open>s.indexOf(p)\<close>: \<open>None\<close> stands for \<open>-1\<close>.\<close>

fun index_of :: "jstring \<Rightarrow> jstring \<Rightarrow> nat option" where
  "index_of [] p = (if p = [] then Some 0 else None)"
| "index_of (c # s) p = (if starts_with (c # s) p then Some 0 else map_option Suc (index_of s p))"

definition includes_str :: "jstring \<Rightarrow> jstring \<Rightarrow> bool" where
  "includes_str s p \<longleftrightarrow> index_of s p \<noteq> None"

lemma index_of_Some: "index_of s p = Some i \<Longrightarrow> \<exists>t. s = take i s @ p @ t"
proof (induction s p arbitrary: i rule: index_of.induct)
  case (1 p)
  then show ?case by (auto split: if_splits)
next
  case (2 c s p)
  show ?case
  proof (cases "starts_with (c # s) p")
    case True
    with 2 have "i = 0" by simp
    with True show ?thesis by (auto dest: starts_withE)
  next
    case False
    with 2 obtain j where "index_of s p = Some j" "i = Suc j" by auto
    with 2(1) False show ?thesis by auto
  qed
qed

lemma includes_append: "includes_str (a @ p @ b) p"
proof (induction a)
  case Nil
  have "starts_with (p @ b) p" by simp
  then show ?case by (cases "p @ b") (auto simp: includes_str_def)
next
  case (Cons x a)
  then show ?case by (auto simp: includes_str_def)
qed

lemma includes_iff: "includes_str s p \<longleftrightarrow> (\<exists>a b. s = a @ p @ b)"
proof
  assume "includes_str s p"
  then show "\<exists>a b. s = a @ p @ b" unfolding includes_str_def by (metis index_of_Some not_None_eq)
qed (auto simp: includes_append)

definition trim_start :: "jstring \<Rightarrow> jstring" where
  "trim_start s = dropWhile is_space s"

definition trim :: "jstring \<Rightarrow> jstring" where
  "trim s = rev (trim_start (rev (trim_start s)))"

lemma dropWhile_rev_dropWhile:
  "dropWhile P (rev (dropWhile P (rev (dropWhile P s)))) = rev (dropWhile P (rev (dropWhile P s)))"
proof (cases "dropWhile P s")
  case Nil
  then show ?thesis by (simp only: rev.simps dropWhile.simps)
next
  case (Cons x xs)
  then have x: "\<not> P x" using dropWhile_eq_Cons_conv[of P s x xs] by auto
  have "rev (dropWhile P (rev (x # xs))) = x # rev (dropWhile P (rev xs))"
    using x by (simp add: dropWhile_append)
  with Cons x show ?thesis by simp
qed

lemma trim_idem: "trim (trim s) = trim s"
  by (simp add: trim_def trim_start_def dropWhile_rev_dropWhile)

text \<open>\<open>s.split(c)\<close> for a separator of one code unit.\<close>

fun split_char :: "nat \<Rightarrow> jstring \<Rightarrow> jstring list" where
  "split_char c [] = [[]]"
| "split_char c (x # s) =
     (if x = c then [] # split_char c s
      else (case split_char c s of [] \<Rightarrow> [[x]] | p # ps \<Rightarrow> (x # p) # ps))"

fun join :: "jstring \<Rightarrow> jstring list \<Rightarrow> jstring" where
  "join sep [] = []"
| "join sep [s] = s"
| "join sep (s # t # ss) = s @ sep @ join sep (t # ss)"

lemma split_char_ne [simp]: "split_char c s \<noteq> []"
  by (induction c s rule: split_char.induct) (auto split: list.splits)

lemma join_cons: "ss \<noteq> [] \<Longrightarrow> join sep (s # ss) = s @ sep @ join sep ss"
  by (cases ss) auto

lemma join_split_char: "join [c] (split_char c s) = s"
proof (induction c s rule: split_char.induct)
  case (2 c x s)
  show ?case
  proof (cases "x = c")
    case True
    with 2 show ?thesis by (simp add: join_cons)
  next
    case False
    obtain p ps where p: "split_char c s = p # ps" by (meson neq_Nil_conv split_char_ne)
    with 2 False have "join [c] (p # ps) = s" by simp
    then have "join [c] ((x # p) # ps) = x # s" by (cases ps) auto
    with False p show ?thesis by simp
  qed
qed simp

lemma split_char_no_sep: "\<forall>p \<in> set (split_char c s). c \<notin> set p"
proof (induction c s rule: split_char.induct)
  case (2 c x s)
  then show ?case by (cases "x = c") (auto split: list.splits)
qed simp

lemma split_char_single: "c \<notin> set s \<Longrightarrow> split_char c s = [s]"
  by (induction s) auto

lemma split_char_append: "c \<notin> set p \<Longrightarrow> split_char c (p @ c # s) = p # split_char c s"
  by (induction p) auto

lemma split_join: "ps \<noteq> [] \<Longrightarrow> \<forall>p \<in> set ps. c \<notin> set p \<Longrightarrow> split_char c (join [c] ps) = ps"
proof (induction ps rule: induct_list012)
  case (3 p q ps)
  then show ?case by (simp add: split_char_append)
qed (auto simp: split_char_single)

text \<open>\<open>s.replaceAll(p, r)\<close> for literal strings; the pattern is not empty.\<close>

function replace_all :: "jstring \<Rightarrow> jstring \<Rightarrow> jstring \<Rightarrow> jstring" where
  "replace_all p r [] = []"
| "replace_all p r (c # s) =
     (if p \<noteq> [] \<and> starts_with (c # s) p then r @ replace_all p r (drop (length p) (c # s))
      else c # replace_all p r s)"
  by pat_completeness auto
termination
proof (relation "measure (\<lambda>(p, r, s). length s)", goal_cases)
  case (2 p r c s)
  then show ?case by (cases p) auto
qed auto

section \<open>Decimal numbers\<close>

text \<open>\<open>Number(s)\<close> for a string of decimal digits, and \<open>String(n)\<close>.\<close>

definition num_of :: "jstring \<Rightarrow> nat" where
  "num_of s = foldl (\<lambda>n c. 10 * n + (c - 48)) 0 s"

fun to_dec :: "nat \<Rightarrow> jstring" where
  "to_dec n = (if n < 10 then [48 + n] else to_dec (n div 10) @ [48 + n mod 10])"

declare to_dec.simps [simp del]

lemma num_of_snoc: "num_of (s @ [c]) = 10 * num_of s + (c - 48)"
  by (simp add: num_of_def)

lemma num_of_to_dec: "num_of (to_dec n) = n"
proof (induction n rule: to_dec.induct)
  case (1 n)
  show ?case
  proof (cases "n < 10")
    case True
    then show ?thesis by (simp add: to_dec.simps[of n] num_of_def)
  next
    case False
    with 1 show ?thesis by (simp add: to_dec.simps[of n] num_of_snoc)
  qed
qed

lemma to_dec_digits: "list_all is_digit (to_dec n)"
proof (induction n rule: to_dec.induct)
  case (1 n)
  show ?case
  proof (cases "n < 10")
    case True
    then show ?thesis by (simp add: to_dec.simps[of n] is_digit_def in_range_def)
  next
    case False
    with 1 show ?thesis by (simp add: to_dec.simps[of n] is_digit_def in_range_def)
  qed
qed

lemma to_dec_ne [simp]: "to_dec n \<noteq> []"
  by (subst to_dec.simps) simp

lemma to_dec_inj: "to_dec m = to_dec n \<longleftrightarrow> m = n"
  by (metis num_of_to_dec)

section \<open>Bytes\<close>

text \<open>
  \<open>Buffer.byteLength(s)\<close>: the UTF-8 length. A surrogate pair takes four bytes,
  a lone surrogate is written as U+FFFD in three.
\<close>

fun byte_length :: "jstring \<Rightarrow> nat" where
  "byte_length [] = 0"
| "byte_length [c] = (if c < 128 then 1 else if c < 2048 then 2 else 3)"
| "byte_length (c # d # s) =
     (if in_range 55296 56319 c \<and> in_range 56320 57343 d then 4 + byte_length s
      else (if c < 128 then 1 else if c < 2048 then 2 else 3) + byte_length (d # s))"

lemma byte_length_ge: "length s \<le> byte_length s"
  by (induction s rule: byte_length.induct) auto

lemma byte_length_ascii: "\<forall>c \<in> set s. c < 128 \<Longrightarrow> byte_length s = length s"
  by (induction s rule: byte_length.induct) (auto simp: in_range_def)

end
