(* ===== verification/Regex.thy ===== *)
theory Regex
  imports JsText
begin

text \<open>
  JavaScript regular expressions. A pattern of the source is a value of \<open>rx\<close>; the
  matcher lists the ways a pattern matches at a position in the order in which
  JavaScript's backtracking matcher tries them, so the head of the list is the match the
  source sees. A position keeps the text before it (reversed), the text after it and the
  captures. The flag \<open>i\<close> is written into the character classes, the flag \<open>m\<close> into
  the anchors; \<open>RCp\<close> is a class of code points, for patterns with the flag \<open>u\<close>.
\<close>

datatype rx =
    REmpty
  | RCh "nat \<Rightarrow> bool"
  | RCp "nat \<Rightarrow> bool"
  | RSeq rx rx
  | RAlt rx rx
  | RStar bool rx
  | RGroup nat rx
  | RBol
  | REol
  | RBolM
  | RWordB
  | RLook bool rx

type_synonym caps = "(nat \<times> jstring) list"
type_synonym mstate = "jstring \<times> jstring \<times> caps"

definition rest_of :: "mstate \<Rightarrow> jstring" where
  "rest_of st = fst (snd st)"

primrec groups :: "rx \<Rightarrow> nat list" where
  "groups REmpty = []"
| "groups (RCh p) = []"
| "groups (RCp p) = []"
| "groups (RSeq a b) = groups a @ groups b"
| "groups (RAlt a b) = groups a @ groups b"
| "groups (RStar g a) = groups a"
| "groups (RGroup n a) = n # groups a"
| "groups RBol = []"
| "groups REol = []"
| "groups RBolM = []"
| "groups RWordB = []"
| "groups (RLook b a) = groups a"

definition clear_caps :: "nat list \<Rightarrow> mstate \<Rightarrow> mstate" where
  "clear_caps gs st = (case st of (pre, post, cs) \<Rightarrow> (pre, post, filter (\<lambda>(n, _). n \<notin> set gs) cs))"

definition word_at :: "jstring \<Rightarrow> bool" where
  "word_at s = (case s of [] \<Rightarrow> False | c # _ \<Rightarrow> is_word c)"

text \<open>The next code point: its value, its code units and what follows.\<close>

definition next_cp :: "jstring \<Rightarrow> (nat \<times> jstring \<times> jstring) option" where
  "next_cp s =
     (case s of
        [] \<Rightarrow> None
      | c # t \<Rightarrow>
          (case t of
             [] \<Rightarrow> Some (c, [c], [])
           | d # u \<Rightarrow>
               if in_range 55296 56319 c \<and> in_range 56320 57343 d
               then Some (65536 + (c - 55296) * 1024 + (d - 56320), [c, d], u)
               else Some (c, [c], d # u)))"

lemma next_cp_parts: "next_cp s = Some (cp, used, rest) \<Longrightarrow> s = used @ rest"
  by (auto simp: next_cp_def split: list.splits if_splits)

text \<open>
  The repetition of \<open>f\<close>: an iteration that consumes nothing is not tried again, so the
  length of the rest bounds the iterations.
\<close>

primrec rx_iter :: "bool \<Rightarrow> (mstate \<Rightarrow> mstate list) \<Rightarrow> nat \<Rightarrow> mstate \<Rightarrow> mstate list" where
  "rx_iter g f 0 st = [st]"
| "rx_iter g f (Suc n) st =
     (let more = concat (map (rx_iter g f n)
        (filter (\<lambda>t. length (rest_of t) < length (rest_of st)) (f st)))
      in if g then more @ [st] else st # more)"

primrec rx_match :: "rx \<Rightarrow> mstate \<Rightarrow> mstate list" where
  "rx_match REmpty st = [st]"
| "rx_match (RCh p) st =
     (case st of (pre, post, cs) \<Rightarrow>
       (case post of [] \<Rightarrow> [] | c # post' \<Rightarrow> if p c then [(c # pre, post', cs)] else []))"
| "rx_match (RCp p) st =
     (case st of (pre, post, cs) \<Rightarrow>
       (case next_cp post of
          None \<Rightarrow> []
        | Some (cp, used, post') \<Rightarrow> if p cp then [(rev used @ pre, post', cs)] else []))"
| "rx_match (RSeq a b) st = concat (map (rx_match b) (rx_match a st))"
| "rx_match (RAlt a b) st = rx_match a st @ rx_match b st"
| "rx_match (RStar g a) st =
     rx_iter g (\<lambda>t. rx_match a (clear_caps (groups a) t)) (length (rest_of st)) st"
| "rx_match (RGroup n a) st =
     map (\<lambda>t. case t of (pre', post', cs') \<Rightarrow>
            (pre', post', (n, take (length (rest_of st) - length post') (rest_of st)) # cs'))
       (rx_match a st)"
| "rx_match RBol st = (if fst st = [] then [st] else [])"
| "rx_match REol st = (if rest_of st = [] then [st] else [])"
| "rx_match RBolM st =
     (case fst st of [] \<Rightarrow> [st] | c # _ \<Rightarrow> if c \<in> {10, 13, 8232, 8233} then [st] else [])"
| "rx_match RWordB st = (if word_at (fst st) \<noteq> word_at (rest_of st) then [st] else [])"
| "rx_match (RLook pos a) st =
     (case rx_match a st of
        [] \<Rightarrow> if pos then [] else [st]
      | t # _ \<Rightarrow> if pos then [(fst st, rest_of st, snd (snd t))] else [])"

section \<open>Derived patterns\<close>

definition RNone :: rx where
  "RNone = RCh (\<lambda>_. False)"

definition ROpt :: "rx \<Rightarrow> rx" where
  "ROpt a = RAlt a REmpty"

definition RPlus :: "rx \<Rightarrow> rx" where
  "RPlus a = RSeq a (RStar True a)"

primrec RTimes :: "nat \<Rightarrow> rx \<Rightarrow> rx" where
  "RTimes 0 a = REmpty"
| "RTimes (Suc n) a = RSeq a (RTimes n a)"

text \<open>\<open>a{0,n}\<close> and \<open>a{m,n}\<close>, \<open>a{m,}\<close>.\<close>

primrec RUpTo :: "nat \<Rightarrow> rx \<Rightarrow> rx" where
  "RUpTo 0 a = REmpty"
| "RUpTo (Suc n) a = ROpt (RSeq a (RUpTo n a))"

definition RRep :: "nat \<Rightarrow> nat \<Rightarrow> rx \<Rightarrow> rx" where
  "RRep m n a = RSeq (RTimes m a) (RUpTo (n - m) a)"

definition RAtLeast :: "nat \<Rightarrow> rx \<Rightarrow> rx" where
  "RAtLeast m a = RSeq (RTimes m a) (RStar True a)"

text \<open>A literal, case sensitive, and a literal under the flag \<open>i\<close> (ASCII and Cyrillic).\<close>

definition fold_case :: "nat \<Rightarrow> nat" where
  "fold_case c = (if is_upper c then c + 32 else if in_range 1040 1071 c then c + 32
     else if in_range 1024 1039 c then c + 80 else c)"

fun RLit :: "jstring \<Rightarrow> rx" where
  "RLit [] = REmpty"
| "RLit [c] = RCh (\<lambda>d. d = c)"
| "RLit (c # s) = RSeq (RCh (\<lambda>d. d = c)) (RLit s)"

fun RLitI :: "jstring \<Rightarrow> rx" where
  "RLitI [] = REmpty"
| "RLitI [c] = RCh (\<lambda>d. fold_case d = fold_case c)"
| "RLitI (c # s) = RSeq (RCh (\<lambda>d. fold_case d = fold_case c)) (RLitI s)"

fun RSeqs :: "rx list \<Rightarrow> rx" where
  "RSeqs [] = REmpty"
| "RSeqs [a] = a"
| "RSeqs (a # as) = RSeq a (RSeqs as)"

fun RAlts :: "rx list \<Rightarrow> rx" where
  "RAlts [] = RCh (\<lambda>_. False)"
| "RAlts [a] = a"
| "RAlts (a # as) = RAlt a (RAlts as)"

abbreviation RDigit :: rx where
  "RDigit \<equiv> RCh is_digit"

abbreviation RSpace :: rx where
  "RSpace \<equiv> RCh is_space"

abbreviation RSpaces :: rx where
  "RSpaces \<equiv> RStar True (RCh is_space)"

text \<open>The dot: any code unit but a line terminator.\<close>

definition RDot :: rx where
  "RDot = RCh (\<lambda>c. c \<notin> {10, 13, 8232, 8233})"

section \<open>exec, test and replace\<close>

record rx_found =
  f_index :: nat
  f_text :: jstring
  f_after :: jstring
  f_caps :: caps

definition cap :: "rx_found \<Rightarrow> nat \<Rightarrow> jstring option" where
  "cap f n = map_of (f_caps f) n"

fun rx_from :: "rx \<Rightarrow> jstring \<Rightarrow> jstring \<Rightarrow> rx_found option" where
  "rx_from r pre [] =
     (case rx_match r (pre, [], []) of
        [] \<Rightarrow> None
      | (pre', post', cs) # _ \<Rightarrow> Some \<lparr>f_index = length pre, f_text = [], f_after = post', f_caps = cs\<rparr>)"
| "rx_from r pre (c # post) =
     (case rx_match r (pre, c # post, []) of
        [] \<Rightarrow> rx_from r (c # pre) post
      | (pre', post', cs) # _ \<Rightarrow>
          Some \<lparr>f_index = length pre, f_text = take (length (c # post) - length post') (c # post),
            f_after = post', f_caps = cs\<rparr>)"

definition rx_exec :: "rx \<Rightarrow> jstring \<Rightarrow> rx_found option" where
  "rx_exec r s = rx_from r [] s"

definition rx_test :: "rx \<Rightarrow> jstring \<Rightarrow> bool" where
  "rx_test r s \<longleftrightarrow> rx_exec r s \<noteq> None"

text \<open>\<open>exec(s)?.[n]\<close>, \<open>None\<close> for a group that did not take part.\<close>

definition rx_cap :: "rx \<Rightarrow> nat \<Rightarrow> jstring \<Rightarrow> jstring option" where
  "rx_cap r n s = (case rx_exec r s of None \<Rightarrow> None | Some f \<Rightarrow> cap f n)"

text \<open>\<open>s.replace(r, t)\<close> without and with the flag \<open>g\<close>; \<open>t\<close> sees the match.\<close>

definition rx_replace1 :: "rx \<Rightarrow> (rx_found \<Rightarrow> jstring) \<Rightarrow> jstring \<Rightarrow> jstring" where
  "rx_replace1 r t s =
     (case rx_exec r s of
        None \<Rightarrow> s
      | Some f \<Rightarrow> take (f_index f) s @ t f @ f_after f)"

text \<open>
  The global form scans on after each match; after an empty match it moves one code
  unit forward, so the length of the text bounds the matches.
\<close>

fun rx_replace_from :: "nat \<Rightarrow> rx \<Rightarrow> (rx_found \<Rightarrow> jstring) \<Rightarrow> jstring \<Rightarrow> jstring \<Rightarrow> jstring" where
  "rx_replace_from 0 r t pre s = s"
| "rx_replace_from (Suc n) r t pre s =
     (case rx_from r pre s of
        None \<Rightarrow> s
      | Some f \<Rightarrow>
          (let gap = take (f_index f - length pre) s;
               pre' = rev (f_text f) @ rev gap @ pre
           in gap @ t f @
              (if f_text f = []
               then (case f_after f of [] \<Rightarrow> [] | c # rest \<Rightarrow> c # rx_replace_from n r t (c # pre') rest)
               else rx_replace_from n r t pre' (f_after f))))"

definition rx_replace :: "rx \<Rightarrow> (rx_found \<Rightarrow> jstring) \<Rightarrow> jstring \<Rightarrow> jstring" where
  "rx_replace r t s = rx_replace_from (Suc (length s)) r t [] s"

text \<open>\<open>s.split(r)\<close> for a pattern that never matches the empty string.\<close>

fun rx_split_from :: "nat \<Rightarrow> rx \<Rightarrow> jstring \<Rightarrow> jstring \<Rightarrow> jstring list" where
  "rx_split_from 0 r pre s = [s]"
| "rx_split_from (Suc n) r pre s =
     (case rx_from r pre s of
        None \<Rightarrow> [s]
      | Some f \<Rightarrow>
          (let gap = take (f_index f - length pre) s
           in gap # rx_split_from n r (rev (f_text f) @ rev gap @ pre) (f_after f)))"

definition rx_split :: "rx \<Rightarrow> jstring \<Rightarrow> jstring list" where
  "rx_split r s = rx_split_from (length s) r [] s"

section \<open>The matcher stays inside the text\<close>

definition same_text :: "mstate \<Rightarrow> mstate \<Rightarrow> bool" where
  "same_text s t \<longleftrightarrow> rev (fst t) @ rest_of t = rev (fst s) @ rest_of s \<and> length (rest_of t) \<le> length (rest_of s)"

lemma same_text_refl [simp]: "same_text s s"
  by (simp add: same_text_def)

lemma same_text_trans: "same_text s t \<Longrightarrow> same_text t u \<Longrightarrow> same_text s u"
  by (simp add: same_text_def)

lemma same_text_clear [simp]: "same_text s (clear_caps gs t) = same_text s t"
  "same_text (clear_caps gs s) t = same_text s t"
  by (auto simp: same_text_def clear_caps_def rest_of_def split: prod.splits)

lemma rx_iter_same_text:
  assumes "\<And>s t. t \<in> set (f s) \<Longrightarrow> same_text s t"
  shows "t \<in> set (rx_iter g f n s) \<Longrightarrow> same_text s t"
proof (induction n arbitrary: s t)
  case (Suc n)
  then consider "t = s" | u where "u \<in> set (f s)" "t \<in> set (rx_iter g f n u)"
    by (auto simp: Let_def split: if_splits)
  then show ?case
  proof cases
    case 2
    then show ?thesis using assms Suc.IH same_text_trans by blast
  qed simp
qed simp

lemma rx_match_same_text: "t \<in> set (rx_match r s) \<Longrightarrow> same_text s t"
proof (induction r arbitrary: s t)
  case (RCp p)
  then show ?case
    by (auto simp: same_text_def rest_of_def split: option.splits if_splits
        dest!: next_cp_parts[OF sym])
next
  case (RSeq a b)
  from RSeq.prems obtain u where "u \<in> set (rx_match a s)" "t \<in> set (rx_match b u)" by auto
  then show ?case using RSeq.IH same_text_trans by blast
next
  case (RStar g a)
  show ?case
    by (rule rx_iter_same_text[OF _ RStar.prems[unfolded rx_match.simps]]) (auto dest: RStar.IH)
next
  case (RGroup n a)
  from RGroup.prems obtain u where u: "u \<in> set (rx_match a s)"
    and "fst t = fst u" "rest_of t = rest_of u"
    by (auto simp: rest_of_def)
  with RGroup.IH[OF u] show ?case by (simp add: same_text_def)
next
  case (RLook b a)
  then show ?case by (auto simp: same_text_def rest_of_def split: list.splits if_splits)
qed (auto simp: same_text_def rest_of_def split: prod.splits list.splits if_splits)

text \<open>The text before a match, the match and the text after it make up the input.\<close>

lemma rx_from_parts:
  "rx_from r pre s = Some f \<Longrightarrow>
     length pre \<le> f_index f \<and> take (f_index f - length pre) s @ f_text f @ f_after f = s"
proof (induction r pre s rule: rx_from.induct)
  case (1 r pre)
  then show ?case
    by (auto split: list.splits)
      (metis list.set_intros(1) rx_match_same_text same_text_def rest_of_def fst_conv
        snd_conv le_zero_eq length_0_conv list.size(3))
next
  case (2 r pre c post)
  show ?case
  proof (cases "rx_match r (pre, c # post, [])")
    case Nil
    with 2 have *: "length pre < f_index f"
        "take (f_index f - Suc (length pre)) post @ f_text f @ f_after f = post" by auto
    then have "f_index f - length pre = Suc (f_index f - Suc (length pre))" by simp
    with * show ?thesis by simp
  next
    case (Cons t ts)
    obtain pre' post' cs where t: "t = (pre', post', cs)" by (cases t)
    from Cons t have "same_text (pre, c # post, []) (pre', post', cs)"
      by (intro rx_match_same_text[of _ r]) auto
    then have st: "rev pre' @ post' = rev pre @ c # post" "length post' \<le> length (c # post)"
      by (auto simp: same_text_def rest_of_def)
    have "drop (length (rev pre' @ post') - length post') (rev pre' @ post') = post'" by simp
    with st have "drop (length (c # post) - length post') (c # post) = post'"
      by (simp add: add.commute del: append_assoc)
    then have "take (length (c # post) - length post') (c # post) @ post' = c # post"
      by (metis append_take_drop_id)
    with Cons t 2(2) show ?thesis by auto
  qed
qed

end
