(* ===== verification/Contracts.thy ===== *)
theory Contracts
  imports Regex
begin

text \<open>
  The data of \<open>contracts.ts\<close> and \<open>errors.ts\<close>: works, their variants, sources, requests
  and resolved content, one record field per property; an optional property is an
  \<open>option\<close>. \<open>WorkDetails\<close> extends \<open>Work\<close> with optional chapters and is the same
  record. Numbers that the code only compares are rationals. The record \<open>runtime\<close>
  collects what the JavaScript runtime supplies and the source does not define: Unicode
  tables, SHA-256, the WHATWG URL parser and its serialiser.
\<close>

section \<open>The runtime\<close>

text \<open>
  A parsed URL. \<open>u_search\<close> is the raw query without \<open>?\<close>; a non-empty hash and query
  are kept without their leading marks.
\<close>

record url =
  u_protocol :: jstring
  u_username :: jstring
  u_password :: jstring
  u_hostname :: jstring
  u_port :: jstring
  u_pathname :: jstring
  u_search :: jstring
  u_hash :: jstring

record runtime =
  rt_lower :: "jstring \<Rightarrow> jstring"
  rt_nfkd :: "jstring \<Rightarrow> jstring"
  rt_nfc :: "jstring \<Rightarrow> jstring"
  rt_mark :: "nat \<Rightarrow> bool"
  rt_punct :: "nat \<Rightarrow> bool"
  rt_symbol :: "nat \<Rightarrow> bool"
  rt_letter :: "nat \<Rightarrow> bool"
  rt_latin :: "nat \<Rightarrow> bool"
  rt_cyrillic :: "nat \<Rightarrow> bool"
  rt_cjk :: "nat \<Rightarrow> bool"
  rt_hangul :: "nat \<Rightarrow> bool"
  rt_sha256 :: "jstring \<Rightarrow> jstring"
  rt_url :: "jstring \<Rightarrow> url option"
  rt_url_at :: "jstring \<Rightarrow> url \<Rightarrow> url option"
  rt_href :: "url \<Rightarrow> jstring"
  rt_form_parse :: "jstring \<Rightarrow> (jstring \<times> jstring) list"
  rt_form_text :: "(jstring \<times> jstring) list \<Rightarrow> jstring"

text \<open>\<open>url.searchParams\<close> after a mutation writes the query back.\<close>

definition url_params :: "runtime \<Rightarrow> url \<Rightarrow> (jstring \<times> jstring) list" where
  "url_params rt u = rt_form_parse rt (u_search u)"

definition url_with_params :: "runtime \<Rightarrow> (jstring \<times> jstring) list \<Rightarrow> url \<Rightarrow> url" where
  "url_with_params rt ps u = u\<lparr>u_search := rt_form_text rt ps\<rparr>"

text \<open>\<open>url.origin\<close>: equal origins have equal schemes, hosts and ports.\<close>

type_synonym origin = "jstring \<times> jstring \<times> jstring"

definition url_origin :: "url \<Rightarrow> origin" where
  "url_origin u = (u_protocol u, u_hostname u, u_port u)"

text \<open>
  The documented behaviour of the WHATWG URL API that the proofs use: serialising and
  parsing again returns the same URL, and so do its query parameters.
\<close>

definition url_roundtrip :: "runtime \<Rightarrow> bool" where
  "url_roundtrip rt \<longleftrightarrow>
     (\<forall>s u ps. rt_url rt s = Some u \<longrightarrow>
        rt_url rt (rt_href rt u) = Some u \<and>
        rt_url rt (rt_href rt (u\<lparr>u_hash := []\<rparr>)) = Some (u\<lparr>u_hash := []\<rparr>) \<and>
        rt_url rt (rt_href rt (u\<lparr>u_search := rt_form_text rt ps, u_hash := []\<rparr>)) =
          Some (u\<lparr>u_search := rt_form_text rt ps, u_hash := []\<rparr>))
   \<and> (\<forall>ps. rt_form_parse rt (rt_form_text rt ps) = ps)"

section \<open>Works and variants\<close>

definition maxMessageBytes :: nat where
  "maxMessageBytes = 16 * 1024 * 1024"

datatype category = AnyCategory | Games | Movies | Tv | Anime | Software | Books | Manga

datatype transport = Torrent | Video | Book | MangaPages | File

datatype translation_type = Dub | Subtitles

datatype publication_kind = Full | Patch | Fix | OptionalPart | ArchivePart | Upload

datatype ad_status = AdUnknown | AdReported | AdClean

record author_note =
  n_text :: jstring
  n_url :: jstring
  n_author :: "jstring option"

record facets =
  f_episode :: "jstring option"
  f_season :: "jstring option"
  f_translation :: "jstring option"

record variant =
  v_id :: jstring
  v_sourceId :: jstring
  v_sourceName :: jstring
  v_title :: jstring
  v_url :: jstring
  v_transport :: transport
  v_magnet :: "jstring option"
  v_downloadUrl :: "jstring option"
  v_infoHash :: "jstring option"
  v_size :: "rat option"
  v_seeders :: "rat option"
  v_publishedAt :: "jstring option"
  v_duration :: "rat option"
  v_version :: "jstring option"
  v_edition :: "jstring option"
  v_cooperative :: "bool option"
  v_translation :: "jstring option"
  v_translationType :: "translation_type option"
  v_languages :: "jstring list option"
  v_quality :: "jstring option"
  v_facets :: "facets option"
  v_episode :: "jstring option"
  v_season :: "jstring option"
  v_player :: "jstring option"
  v_author :: "jstring option"
  v_publicationKind :: "publication_kind option"
  v_needsInspection :: "bool option"
  v_adStatus :: "ad_status option"
  v_notes :: "author_note list option"

record book_chapter =
  c_id :: jstring
  c_title :: jstring
  c_url :: jstring
  c_number :: "rat option"
  c_volume :: "rat option"

record work =
  w_id :: jstring
  w_title :: jstring
  w_category :: category
  w_url :: "jstring option"
  w_cover :: "jstring option"
  w_description :: "jstring option"
  w_year :: "rat option"
  w_aliases :: "jstring list option"
  w_identifiers :: "(jstring, jstring) jmap option"
  w_notes :: "author_note list option"
  w_variants :: "variant list"
  w_chapters :: "book_chapter list option"

text \<open>A variant and a work with their required properties only.\<close>

definition new_variant :: "jstring \<Rightarrow> jstring \<Rightarrow> jstring \<Rightarrow> jstring \<Rightarrow> jstring \<Rightarrow> transport \<Rightarrow> variant" where
  "new_variant i source name title url transport =
     \<lparr>v_id = i, v_sourceId = source, v_sourceName = name, v_title = title, v_url = url,
      v_transport = transport, v_magnet = None, v_downloadUrl = None, v_infoHash = None,
      v_size = None, v_seeders = None, v_publishedAt = None, v_duration = None,
      v_version = None, v_edition = None, v_cooperative = None, v_translation = None,
      v_translationType = None, v_languages = None, v_quality = None, v_facets = None,
      v_episode = None, v_season = None, v_player = None, v_author = None,
      v_publicationKind = None, v_needsInspection = None, v_adStatus = None, v_notes = None\<rparr>"

definition new_work :: "jstring \<Rightarrow> jstring \<Rightarrow> category \<Rightarrow> variant list \<Rightarrow> work" where
  "new_work i title category variants =
     \<lparr>w_id = i, w_title = title, w_category = category, w_url = None, w_cover = None,
      w_description = None, w_year = None, w_aliases = None, w_identifiers = None,
      w_notes = None, w_variants = variants, w_chapters = None\<rparr>"

section \<open>Sources, requests and resolved content\<close>

record search_request =
  r_query :: jstring
  r_category :: category
  r_sources :: "jstring list option"
  r_language :: "jstring option"

datatype setting_type = TextSetting | PasswordSetting | BooleanSetting | SelectSetting

datatype setting_value = SText jstring | SBool bool

record source_setting =
  s_name :: jstring
  s_label :: jstring
  s_type :: setting_type
  s_value :: "setting_value option"
  s_options :: "(jstring \<times> jstring) list option"
  s_configured :: "bool option"
  s_advanced :: "bool option"

record source_health =
  h_message :: jstring
  h_checkedAt :: jstring
  h_code :: "jstring option"
  h_url :: "jstring option"

record source =
  src_id :: jstring
  src_name :: jstring
  src_url :: jstring
  src_categories :: "category list"
  src_enabled :: bool
  src_requiresLogin :: "bool option"
  src_authorizationSetting :: "jstring option"
  src_health :: "source_health option"
  src_settings :: "source_setting list option"

record selection =
  sel_episode :: "jstring option"
  sel_season :: "jstring option"
  sel_translationId :: "jstring option"
  sel_player :: "jstring option"
  sel_captureId :: "jstring option"

datatype resolver = Direct | YtDlp | Browser

record audio_track =
  at_title :: jstring
  at_type :: "jstring option"
  at_language :: "jstring option"
  at_codec :: "jstring option"
  at_channels :: "rat option"

record resolved =
  rs_kind :: transport
  rs_resolver :: "resolver option"
  rs_url :: "jstring option"
  rs_torrentData :: "jstring option"
  rs_headers :: "(jstring, jstring) jmap option"
  rs_audioUrl :: "jstring option"
  rs_audioTrack :: "audio_track option"
  rs_proxyUrl :: "jstring option"
  rs_subtitles :: "(jstring \<times> jstring \<times> jstring option) list option"
  rs_selection :: "selection option"
  rs_title :: "jstring option"
  rs_translation :: "jstring option"
  rs_quality :: "jstring option"

text \<open>
  Errors as values: \<open>Failed\<close> is a plain \<open>Error\<close> with its message, \<open>Content\<close> a
  \<open>ContentError\<close> with its code and optional URL, \<open>Aborted\<close> and \<open>TimedOut\<close> the
  reasons of an aborted signal.
\<close>

datatype error =
    Failed jstring
  | Content jstring jstring "jstring option"
  | Aborted
  | TimedOut

definition error_code :: "error \<Rightarrow> jstring option" where
  "error_code e = (case e of Content c _ _ \<Rightarrow> Some c | _ \<Rightarrow> None)"

definition error_url :: "error \<Rightarrow> jstring option" where
  "error_url e = (case e of Content _ _ u \<Rightarrow> u | _ \<Rightarrow> None)"

section \<open>JavaScript truth values\<close>

text \<open>An optional string or number is false when it is absent, empty or zero.\<close>

definition truthy :: "jstring option \<Rightarrow> bool" where
  "truthy s = (case s of None \<Rightarrow> False | Some t \<Rightarrow> t \<noteq> [])"

definition truthy_num :: "rat option \<Rightarrow> bool" where
  "truthy_num n = (case n of None \<Rightarrow> False | Some q \<Rightarrow> q \<noteq> 0)"

definition or_empty :: "jstring option \<Rightarrow> jstring" where
  "or_empty s = (case s of None \<Rightarrow> [] | Some t \<Rightarrow> t)"

definition num_or_zero :: "rat option \<Rightarrow> rat" where
  "num_or_zero n = (case n of None \<Rightarrow> 0 | Some q \<Rightarrow> q)"

lemma truthy_simps [simp]: "truthy None = False" "truthy (Some t) = (t \<noteq> [])"
  by (simp_all add: truthy_def)

lemma truthy_num_simps [simp]: "truthy_num None = False" "truthy_num (Some q) = (q \<noteq> 0)"
  by (simp_all add: truthy_num_def)

lemma or_empty_simps [simp]: "or_empty None = []" "or_empty (Some t) = t"
  by (simp_all add: or_empty_def)

lemma num_or_zero_simps [simp]: "num_or_zero None = 0" "num_or_zero (Some q) = q"
  by (simp_all add: num_or_zero_def)

end
