(* ===== verification/SearchQuery.thy ===== *)
theory SearchQuery
  imports Contracts
begin

text \<open>
  \<open>search-query.ts\<close>: the normal form of titles, the parsing of a query with a trailing
  year, and the test whether the names of a work answer a query. Unicode lower casing,
  normal forms and general categories come from \<open>runtime\<close>.
\<close>

record search_query =
  q_title :: jstring
  q_words :: "jstring list"
  q_year :: "nat option"

section \<open>normalizeTitle\<close>

text \<open>\<open>/\b(?:[a-z]\.){2,}[a-z]?\.?/g\<close>\<close>

definition abbreviation_rx :: rx where
  "abbreviation_rx = RSeqs [RWordB, RAtLeast 2 (RSeq (RCh is_lower) (RCh (\<lambda>c. c = 46))),
     ROpt (RCh is_lower), ROpt (RCh (\<lambda>c. c = 46))]"

definition squeeze_spaces :: "jstring \<Rightarrow> jstring" where
  "squeeze_spaces s = trim (rx_replace (RPlus RSpace) (\<lambda>_. js '' '') s)"

definition normalizeTitle :: "runtime \<Rightarrow> jstring \<Rightarrow> jstring" where
  "normalizeTitle rt value =
     (let plain = rx_replace (RPlus (RCp (rt_mark rt))) (\<lambda>_. []) (rt_nfkd rt (rt_lower rt value));
          joined = rx_replace abbreviation_rx (\<lambda>f. filter (\<lambda>c. c \<noteq> 46) (f_text f)) plain;
          words = rx_replace (RPlus (RCp (\<lambda>c. rt_punct rt c \<or> rt_symbol rt c))) (\<lambda>_. js '' '') joined
      in squeeze_spaces words)"

section \<open>searchQuery\<close>

definition year_rx :: rx where
  "year_rx = RAlt (RSeqs [RLit (js ''19''), RDigit, RDigit]) (RSeqs [RLit (js ''20''), RDigit, RDigit])"

text \<open>\<open>/^(.*\p{L}.*?)\s+\(?(19\d{2}|20\d{2})\)?[!.]?$/u\<close>\<close>

definition dot_cp :: rx where
  "dot_cp = RCp (\<lambda>c. c \<notin> {10, 13, 8232, 8233})"

definition query_rx :: "runtime \<Rightarrow> rx" where
  "query_rx rt = RSeqs [RBol,
     RGroup 1 (RSeqs [RStar True dot_cp, RCp (rt_letter rt), RStar False dot_cp]),
     RPlus RSpace, ROpt (RLit (js ''('')), RGroup 2 year_rx, ROpt (RLit (js '')'')),
     ROpt (RCh (\<lambda>c. c = 33 \<or> c = 46)), REol]"

definition searchQuery :: "runtime \<Rightarrow> jstring \<Rightarrow> search_query" where
  "searchQuery rt value =
     (let found = rx_exec (query_rx rt) (trim value);
          title = (case found of None \<Rightarrow> trim value
                   | Some f \<Rightarrow> (case cap f 1 of None \<Rightarrow> trim value | Some t \<Rightarrow> t))
      in \<lparr>q_title = title,
          q_words = filter (\<lambda>w. w \<noteq> []) (split_char 32 (normalizeTitle rt title)),
          q_year = (case found of None \<Rightarrow> None | Some f \<Rightarrow> map_option num_of (cap f 2))\<rparr>)"

section \<open>Matching a query\<close>

definition queryYearMatches :: "runtime \<Rightarrow> search_query \<Rightarrow> jstring list \<Rightarrow> rat option \<Rightarrow> bool" where
  "queryYearMatches rt q names year =
     (case q_year q of
        None \<Rightarrow> True
      | Some y \<Rightarrow> y = 0 \<or> year = Some (of_nat y)
          \<or> list_ex (\<lambda>name. to_dec y \<in> set (split_char 32 (normalizeTitle rt name))) names)"

text \<open>The code points of a string, for a class tested anywhere or everywhere in it.\<close>

fun code_points :: "jstring \<Rightarrow> nat list" where
  "code_points [] = []"
| "code_points [c] = [c]"
| "code_points (c # d # s) =
     (if in_range 55296 56319 c \<and> in_range 56320 57343 d
      then (65536 + (c - 55296) * 1024 + (d - 56320)) # code_points s
      else c # code_points (d # s))"

definition word_matches :: "runtime \<Rightarrow> jstring \<Rightarrow> jstring \<Rightarrow> bool" where
  "word_matches rt normalized word =
     (if list_ex (rt_cjk rt) (code_points word) then includes_str normalized word
      else list_ex (\<lambda>candidate. candidate = word
             \<or> (4 \<le> length (code_points word) \<and> list_all (rt_cyrillic rt) (code_points word)
                \<and> starts_with candidate word))
           (split_char 32 normalized))"

definition queryMatches :: "runtime \<Rightarrow> search_query \<Rightarrow> jstring list \<Rightarrow> rat option \<Rightarrow> bool" where
  "queryMatches rt q names year =
     (if \<not> queryYearMatches rt q names year then False
      else list_ex (\<lambda>name. list_all (word_matches rt (normalizeTitle rt name)) (q_words q)) names)"

section \<open>Facts\<close>

lemma searchQuery_words:
  "w \<in> set (q_words (searchQuery rt v)) \<Longrightarrow> w \<noteq> [] \<and> 32 \<notin> set w"
  by (auto simp: searchQuery_def Let_def dest: split_char_no_sep[rule_format])

lemma queryYearMatches_mono:
  "queryYearMatches rt q names y \<Longrightarrow> set names \<subseteq> set names' \<Longrightarrow> queryYearMatches rt q names' y"
  by (auto simp: queryYearMatches_def list_ex_iff split: option.splits)

lemma queryMatches_mono:
  "queryMatches rt q names y \<Longrightarrow> set names \<subseteq> set names' \<Longrightarrow> queryMatches rt q names' y"
  by (auto simp: queryMatches_def list_ex_iff split: if_splits dest: queryYearMatches_mono)

lemma queryMatches_year: "queryMatches rt q names y \<Longrightarrow> queryYearMatches rt q names y"
  by (simp add: queryMatches_def split: if_splits)

lemma normalizeTitle_trimmed: "trim (normalizeTitle rt v) = normalizeTitle rt v"
  by (simp add: normalizeTitle_def squeeze_spaces_def Let_def trim_idem)

end
