(* ===== verification/Variants.thy ===== *)
theory Variants
  imports SearchQuery
begin

text \<open>
  The part of \<open>results.ts\<close> on single works: merging notes, variants and metadata of the
  same publication, episode facets, language codes and the ranking of the variants of a
  work. Scores are counted in fiftieths, so that the resolution bonus
  \<open>min(44, lines / 50)\<close> is exact; the source adds it in floating point.
\<close>

section \<open>Merging\<close>

definition variantKey :: "variant \<Rightarrow> jstring" where
  "variantKey v = v_sourceId v @ js '':'' @ v_id v"

definition isUserUpload :: "work \<Rightarrow> bool" where
  "isUserUpload w \<longleftrightarrow> list_all (\<lambda>v. v_publicationKind v = Some Upload) (w_variants w)"

definition note_key :: "author_note \<Rightarrow> jstring \<times> jstring \<times> jstring option" where
  "note_key n = (n_text n, n_url n, n_author n)"

definition mergeNotes :: "author_note list option list \<Rightarrow> author_note list" where
  "mergeNotes gs = jm_values (jm_of (map (\<lambda>n. (note_key n, n)) (concat (map list_or gs))))"

text \<open>\<open>{...previous, ...defined fields of v, notes}\<close>\<close>

definition merge_variant :: "variant \<Rightarrow> variant \<Rightarrow> variant" where
  "merge_variant p v =
     \<lparr>v_id = v_id v, v_sourceId = v_sourceId v, v_sourceName = v_sourceName v, v_title = v_title v,
      v_url = v_url v, v_transport = v_transport v, v_magnet = opt_or (v_magnet v) (v_magnet p),
      v_downloadUrl = opt_or (v_downloadUrl v) (v_downloadUrl p),
      v_infoHash = opt_or (v_infoHash v) (v_infoHash p), v_size = opt_or (v_size v) (v_size p),
      v_seeders = opt_or (v_seeders v) (v_seeders p),
      v_publishedAt = opt_or (v_publishedAt v) (v_publishedAt p),
      v_duration = opt_or (v_duration v) (v_duration p), v_version = opt_or (v_version v) (v_version p),
      v_edition = opt_or (v_edition v) (v_edition p),
      v_cooperative = opt_or (v_cooperative v) (v_cooperative p),
      v_translation = opt_or (v_translation v) (v_translation p),
      v_translationType = opt_or (v_translationType v) (v_translationType p),
      v_languages = opt_or (v_languages v) (v_languages p), v_quality = opt_or (v_quality v) (v_quality p),
      v_facets = opt_or (v_facets v) (v_facets p), v_episode = opt_or (v_episode v) (v_episode p),
      v_season = opt_or (v_season v) (v_season p), v_player = opt_or (v_player v) (v_player p),
      v_author = opt_or (v_author v) (v_author p),
      v_publicationKind = opt_or (v_publicationKind v) (v_publicationKind p),
      v_needsInspection = opt_or (v_needsInspection v) (v_needsInspection p),
      v_adStatus = opt_or (v_adStatus v) (v_adStatus p),
      v_notes = Some (mergeNotes [v_notes p, v_notes v])\<rparr>"

definition add_variant :: "variant \<Rightarrow> (jstring, variant) jmap \<Rightarrow> (jstring, variant) jmap" where
  "add_variant v m = jm_set (variantKey v)
     (case jm_get m (variantKey v) of None \<Rightarrow> v | Some p \<Rightarrow> merge_variant p v) m"

definition mergeVariants :: "variant list \<Rightarrow> variant list" where
  "mergeVariants vs = jm_values (fold add_variant vs [])"

definition merge_identifiers :: "(jstring, jstring) jmap option \<Rightarrow> (jstring, jstring) jmap option \<Rightarrow> (jstring, jstring) jmap" where
  "merge_identifiers a b = fold (\<lambda>(k, v). jm_set k v) (list_or b) (list_or a)"

definition mergeWorkMetadata :: "work option \<Rightarrow> work \<Rightarrow> work" where
  "mergeWorkMetadata current i =
     \<lparr>w_id = w_id i, w_title = w_title i, w_category = w_category i,
       w_url = opt_or (w_url i) (case current of None \<Rightarrow> None | Some c \<Rightarrow> w_url c),
       w_cover = opt_or (w_cover i) (case current of None \<Rightarrow> None | Some c \<Rightarrow> w_cover c),
       w_description = opt_or (w_description i) (case current of None \<Rightarrow> None | Some c \<Rightarrow> w_description c),
       w_year = opt_or (w_year i) (case current of None \<Rightarrow> None | Some c \<Rightarrow> w_year c),
       w_aliases = Some (uniq ((case current of None \<Rightarrow> [] | Some c \<Rightarrow> list_or (w_aliases c)) @ list_or (w_aliases i))),
       w_identifiers = Some (merge_identifiers (case current of None \<Rightarrow> None | Some c \<Rightarrow> w_identifiers c) (w_identifiers i)),
       w_notes = Some (mergeNotes [case current of None \<Rightarrow> None | Some c \<Rightarrow> w_notes c, w_notes i]),
       w_variants = w_variants i,
       w_chapters = opt_or (w_chapters i) (case current of None \<Rightarrow> None | Some c \<Rightarrow> w_chapters c)\<rparr>"

section \<open>Episode facets and languages\<close>

text \<open>\<open>String(Number(s))\<close> for \<open>\d+\<close> and \<open>\d+\.\d+\<close>, exact below \<open>2^53\<close>.\<close>

definition canon_number :: "jstring \<Rightarrow> jstring" where
  "canon_number s =
     (let whole = takeWhile (\<lambda>c. c \<noteq> 46) s;
          fraction = rev (dropWhile (\<lambda>c. c = 48) (rev (drop (Suc (length whole)) s)))
      in if fraction = [] then to_dec (num_of whole) else to_dec (num_of whole) @ [46] @ fraction)"

definition decimal_rx :: rx where
  "decimal_rx = RSeq (RPlus RDigit) (ROpt (RSeq (RCh (\<lambda>c. c = 46)) (RPlus RDigit)))"

text \<open>\<open>/^s(\d+)e(\d+(?:\.\d+)?)$/i\<close>\<close>

definition explicit_rx :: rx where
  "explicit_rx = RSeqs [RBol, RLitI (js ''s''), RGroup 1 (RPlus RDigit), RLitI (js ''e''),
     RGroup 2 decimal_rx, REol]"

text \<open>\<open>a || b\<close> on optional strings.\<close>

definition str_or :: "jstring option \<Rightarrow> jstring option \<Rightarrow> jstring option" where
  "str_or a b = (if truthy a then a else b)"

definition episodeFacets :: "variant \<Rightarrow> jstring option \<times> jstring option" where
  "episodeFacets v =
     (let explicit = rx_exec explicit_rx (or_empty (v_episode v));
          episode = str_or (case explicit of None \<Rightarrow> None | Some f \<Rightarrow> cap f 2) (v_episode v);
          season = str_or (case explicit of None \<Rightarrow> None | Some f \<Rightarrow> cap f 1) (v_season v)
      in (if truthy episode \<and> rx_test (RSeqs [RBol, decimal_rx, REol]) (or_empty episode)
          then Some (canon_number (or_empty episode)) else episode,
          if truthy season \<and> list_all is_digit (or_empty season)
          then Some (to_dec (num_of (or_empty season))) else season))"

definition known_languages :: "(jstring \<times> jstring) list" where
  "known_languages =
     [(js ''rus'', js ''ru''), (js ''russian'', js ''ru''),
      ([1088, 1091, 1089, 1089, 1082, 1080, 1081], js ''ru''),
      (js ''eng'', js ''en''), (js ''english'', js ''en''),
      ([1072, 1085, 1075, 1083, 1080, 1081, 1089, 1082, 1080, 1081], js ''en''),
      (js ''jpn'', js ''ja''), (js ''japanese'', js ''ja''),
      ([1103, 1087, 1086, 1085, 1089, 1082, 1080, 1081], js ''ja''),
      (js ''ukr'', js ''uk''), (js ''ukrainian'', js ''uk''),
      ([1091, 1082, 1088, 1072, 1080, 1085, 1089, 1082, 1080, 1081], js ''uk''),
      (js ''zho'', js ''zh''), (js ''chi'', js ''zh''), (js ''chinese'', js ''zh''),
      ([1082, 1080, 1090, 1072, 1081, 1089, 1082, 1080, 1081], js ''zh''),
      (js ''kor'', js ''ko''), (js ''korean'', js ''ko''),
      ([1082, 1086, 1088, 1077, 1081, 1089, 1082, 1080, 1081], js ''ko''),
      (js ''deu'', js ''de''), (js ''ger'', js ''de''), (js ''german'', js ''de''),
      (js ''fra'', js ''fr''), (js ''fre'', js ''fr''), (js ''french'', js ''fr''),
      (js ''spa'', js ''es''), (js ''spanish'', js ''es'')]"

text \<open>\<open>/^[a-z]{2,3}(?:-[a-z\d]{2,8})*$/\<close>\<close>

definition language_tag :: "jstring \<Rightarrow> bool" where
  "language_tag s =
     (case split_char 45 s of
        [] \<Rightarrow> False
      | p # ps \<Rightarrow> in_range 2 3 (length p) \<and> list_all is_lower p
          \<and> list_all (\<lambda>q. in_range 2 8 (length q) \<and> list_all (\<lambda>c. is_lower c \<or> is_digit c) q) ps)"

definition languageCode :: "runtime \<Rightarrow> jstring \<Rightarrow> jstring" where
  "languageCode rt value =
     (let language = map (\<lambda>c. if c = 95 then 45 else c) (rt_lower rt (trim value))
      in case map_of known_languages language of
           Some code \<Rightarrow> code
         | None \<Rightarrow> if language_tag language then hd (split_char 45 language) else trim value)"

section \<open>Ranking\<close>

text \<open>
  \<open>/^(?:(?:dub words|dub(?:bed)?|subtitles?)(?:\s+[|:]?\s*|\s*[|:]\s*))+/i\<close>, with the Russian words for
  voice-over, dubbing and subtitles.
\<close>

definition studio_rx :: rx where
  "studio_rx =
     (let mark = RCh (\<lambda>c. c = 124 \<or> c = 58) in
      RSeq RBol (RPlus (RSeq
       (RAlts [RLitI [1086, 1079, 1074, 1091, 1095, 1082, 1072], RLitI [1076, 1091, 1073, 1083, 1103, 1078],
          RLitI [1089, 1091, 1073, 1090, 1080, 1090, 1088, 1099],
          RSeq (RLitI (js ''dub'')) (ROpt (RLitI (js ''bed''))),
          RSeq (RLitI (js ''subtitle'')) (ROpt (RLitI (js ''s'')))])
       (RAlt (RSeqs [RPlus RSpace, ROpt mark, RSpaces]) (RSeqs [RSpaces, mark, RSpaces])))))"

definition studio_of :: "variant \<Rightarrow> jstring option" where
  "studio_of v = map_option (\<lambda>t. trim (rx_replace1 studio_rx (\<lambda>_. []) t)) (v_translation v)"

text \<open>\<open>/\b(\d{3,4})[pi]\b/i\<close>, \<open>/\b(\d{3,4})[pi]?\b/i\<close>\<close>

definition pi_rx :: rx where
  "pi_rx = RCh (\<lambda>c. fold_case c = 112 \<or> fold_case c = 105)"

definition quality_rx :: rx where
  "quality_rx = RSeqs [RWordB, RGroup 1 (RRep 3 4 RDigit), pi_rx, RWordB]"

definition resolution_rx :: rx where
  "resolution_rx = RSeqs [RWordB, RGroup 1 (RRep 3 4 RDigit), ROpt pi_rx, RWordB]"

definition quality_of :: "variant \<Rightarrow> jstring option" where
  "quality_of v = str_or (v_quality v)
     (if v_transport v = Torrent then map_option f_text (rx_exec quality_rx (v_title v)) else None)"

text \<open>The season that a release with a MAL or Shikimori identifier proves for all its variants.\<close>

definition proven_season :: "variant list \<Rightarrow> work option \<Rightarrow> jstring option" where
  "proven_season vs w =
     (let seasons = uniq (filter (\<lambda>s. s \<noteq> []) (map or_empty (map (snd \<circ> episodeFacets) vs)))
      in case w of
           None \<Rightarrow> None
         | Some x \<Rightarrow>
             if w_category x = Anime
                \<and> (truthy (jm_get (list_or (w_identifiers x)) (js ''mal''))
                   \<or> truthy (jm_get (list_or (w_identifiers x)) (js ''shikimori'')))
                \<and> length seasons = 1
             then Some (hd seasons) else None)"

definition prepare_variant :: "runtime \<Rightarrow> jstring option \<Rightarrow> (jstring, jstring) jmap \<Rightarrow> variant
    \<Rightarrow> (jstring, jstring) jmap \<times> variant" where
  "prepare_variant rt season studios v =
     (let (episode, own) = episodeFacets v;
          studio = studio_of v;
          key = normalizeTitle rt (or_empty studio);
          studios' = (if truthy studio \<and> \<not> jm_has studios key then jm_set key (or_empty studio) studios
                      else studios);
          quality = quality_of v
      in (studios',
          v\<lparr>v_quality := (if truthy quality then quality else v_quality v),
            v_languages := map_option (\<lambda>ls. uniq (filter (\<lambda>l. l \<noteq> []) (map (languageCode rt) ls))) (v_languages v),
            v_facets := Some \<lparr>f_episode = episode,
              f_season = (if season = Some (js ''1'') then Some []
                          else str_or own (if truthy episode then season else None)),
              f_translation = (if truthy studio then jm_get studios' key else v_translation v)\<rparr>\<rparr>))"

fun prepare_all :: "runtime \<Rightarrow> jstring option \<Rightarrow> (jstring, jstring) jmap \<Rightarrow> variant list \<Rightarrow> variant list" where
  "prepare_all rt season studios [] = []"
| "prepare_all rt season studios (v # vs) =
     (case prepare_variant rt season studios v of
        (studios', v') \<Rightarrow> v' # prepare_all rt season studios' vs)"

definition cam_rx :: rx where
  "cam_rx = RSeqs [RWordB, RAlts [RLitI (js ''cam''), RLitI (js ''hdcam''), RLitI (js ''telesync''), RLitI (js ''tsrip'')], RWordB]"

definition web_rx :: rx where
  "web_rx =
     (let sep = ROpt (RCh (\<lambda>c. c = 32 \<or> c = 46 \<or> c = 45)) in
      RSeqs [RWordB,
       RAlts [RSeqs [RLitI (js ''web''), sep, RLitI (js ''dl'')], RLitI (js ''bluray''),
         RSeqs [RLitI (js ''blu''), sep, RLitI (js ''ray'')], RLitI (js ''remux'')],
       RWordB])"

definition score :: "jstring option \<Rightarrow> variant \<Rightarrow> int" where
  "score preferred v =
     (let label = (if truthy (v_quality v) then or_empty (v_quality v) else v_title v);
          quality = or_empty (v_quality v);
          languages = list_or (v_languages v)
      in (if v_publicationKind v \<in> {Some Patch, Some Fix} then - 5000 else 0)
       + (if v_adStatus v = Some AdReported then - 4000 else 0)
       + (if rx_test cam_rx label then - 3000 else 0)
       + (if v_publicationKind v = Some Full then 1500 else 0)
       + (if v_cooperative v = Some True then 750 else 0)
       + (if v_adStatus v = Some AdClean then 500 else 0)
       + (if rx_test web_rx label then 500 else 0)
       + (if truthy preferred \<and> languages \<noteq> []
          then (if or_empty preferred \<in> set languages then 2000 else - 500) else 0)
       + (if map fold_case quality = js ''4k'' then 2200
          else if map fold_case quality = js ''2k'' then 1500
          else (case rx_cap resolution_rx 1 quality of
                  None \<Rightarrow> 0
                | Some digits \<Rightarrow> min 2200 (int (num_of digits)))))"

definition seeders :: "variant \<Rightarrow> rat" where
  "seeders v = max 0 (num_or_zero (v_seeders v))"

text \<open>The torrents of a run of equal scores take the run's torrent places by their seeders.\<close>

fun fill_torrents :: "variant list \<Rightarrow> variant list \<Rightarrow> variant list" where
  "fill_torrents [] ts = []"
| "fill_torrents (v # vs) ts =
     (if v_transport v = Torrent
      then (case ts of [] \<Rightarrow> v # fill_torrents vs [] | t # ts' \<Rightarrow> t # fill_torrents vs ts')
      else v # fill_torrents vs ts)"

definition order_run :: "variant list \<Rightarrow> variant list" where
  "order_run vs = fill_torrents vs (sort_desc seeders (filter (\<lambda>v. v_transport v = Torrent) vs))"

function order_runs :: "(variant \<Rightarrow> int) \<Rightarrow> variant list \<Rightarrow> variant list" where
  "order_runs f [] = []"
| "order_runs f (v # vs) =
     order_run (v # takeWhile (\<lambda>u. f u = f v) vs) @ order_runs f (dropWhile (\<lambda>u. f u = f v) vs)"
  by pat_completeness auto
termination
  by (relation "measure (\<lambda>(f, vs). length vs)") (auto simp: le_imp_less_Suc length_dropWhile_le)

definition preferred_language :: "runtime \<Rightarrow> jstring option \<Rightarrow> jstring option" where
  "preferred_language rt language =
     (if truthy language then Some (languageCode rt (or_empty language)) else None)"

definition prepare_variants :: "runtime \<Rightarrow> variant list \<Rightarrow> work option \<Rightarrow> variant list" where
  "prepare_variants rt variants w = prepare_all rt (proven_season variants w) [] variants"

definition rankVariants :: "runtime \<Rightarrow> variant list \<Rightarrow> jstring option \<Rightarrow> work option \<Rightarrow> variant list" where
  "rankVariants rt variants language w =
     (let by = score (preferred_language rt language)
      in order_runs by (sort_desc by (prepare_variants rt variants w)))"

section \<open>Facts on merging\<close>

lemma variantKey_merge [simp]: "variantKey (merge_variant p v) = variantKey v"
  by (simp add: merge_variant_def variantKey_def)

text \<open>Every entry of the map of publications stands under its own key.\<close>

definition keyed :: "(jstring, variant) jmap \<Rightarrow> bool" where
  "keyed m \<longleftrightarrow> jm_inv m \<and> (\<forall>(k, v) \<in> set m. k = variantKey v)"

lemma keyed_Nil [simp]: "keyed []"
  by (simp add: keyed_def)

lemma keyed_add_variant: "keyed m \<Longrightarrow> keyed (add_variant v m)"
  by (auto simp: keyed_def add_variant_def jm_set_pairs split: option.splits)

lemma keys_add_variant: "set (map fst (add_variant v m)) = insert (variantKey v) (set (map fst m))"
  by (simp add: add_variant_def jm_keys_set del: set_map)

lemma keyed_values: "keyed m \<Longrightarrow> map variantKey (jm_values m) = map fst m"
  by (auto simp: keyed_def jm_values_def)

lemma fold_add_variant:
  "keyed m \<Longrightarrow> keyed (fold add_variant vs m)
     \<and> set (map fst (fold add_variant vs m)) = variantKey ` set vs \<union> set (map fst m)"
  by (induction vs arbitrary: m) (auto simp: keyed_add_variant keys_add_variant simp del: set_map)

lemma mergeVariants_keys:
  "distinct (map variantKey (mergeVariants vs))"
  "variantKey ` set (mergeVariants vs) = variantKey ` set vs"
proof -
  let ?m = "fold add_variant vs []"
  have m: "keyed ?m" "set (map fst ?m) = variantKey ` set vs"
    using fold_add_variant[of "[]" vs] by auto
  then have k: "map variantKey (mergeVariants vs) = map fst ?m"
    by (simp add: mergeVariants_def keyed_values)
  from m(1) show "distinct (map variantKey (mergeVariants vs))"
    by (simp add: k keyed_def jm_inv_def)
  from m(2) show "variantKey ` set (mergeVariants vs) = variantKey ` set vs"
    by (metis k set_map)
qed

text \<open>Publications with different keys are not changed by a merge.\<close>

lemma fold_add_distinct:
  "distinct (map variantKey vs) \<Longrightarrow> variantKey ` set vs \<inter> set (map fst m) = {} \<Longrightarrow> keyed m \<Longrightarrow>
     fold add_variant vs m = m @ map (\<lambda>v. (variantKey v, v)) vs"
proof (induction vs arbitrary: m)
  case (Cons v vs)
  then have "jm_get m (variantKey v) = None" by (auto simp: jm_get_None simp del: set_map)
  with Cons.prems have "add_variant v m = m @ [(variantKey v, v)]"
    by (auto simp: add_variant_def jm_set_fresh)
  with Cons show ?case by (auto simp: keyed_add_variant dest: keyed_add_variant[of m v])
qed simp

lemma mergeVariants_distinct: "distinct (map variantKey vs) \<Longrightarrow> mergeVariants vs = vs"
  by (simp add: mergeVariants_def fold_add_distinct jm_values_def comp_def)

lemma mergeVariants_idem: "mergeVariants (mergeVariants vs) = mergeVariants vs"
  by (intro mergeVariants_distinct mergeVariants_keys)

section \<open>Facts on ranking\<close>

abbreviation is_torrent :: "variant \<Rightarrow> bool" where
  "is_torrent v \<equiv> v_transport v = Torrent"

lemma prepare_variant_keeps:
  assumes "prepare_variant rt season studios v = (studios', v')"
  shows "variantKey v' = variantKey v \<and> v_transport v' = v_transport v \<and> v_seeders v' = v_seeders v
     \<and> v_title v' = v_title v \<and> v_url v' = v_url v"
  using assms by (auto simp: prepare_variant_def variantKey_def Let_def split: prod.splits)

lemma prepare_all_keys: "map variantKey (prepare_all rt season studios vs) = map variantKey vs"
  by (induction vs arbitrary: studios) (auto split: prod.splits dest: prepare_variant_keeps)

lemma fill_torrents_spec:
  "length ts = length (filter is_torrent vs) \<Longrightarrow> list_all is_torrent ts \<Longrightarrow>
     filter is_torrent (fill_torrents vs ts) = ts
   \<and> filter (Not \<circ> is_torrent) (fill_torrents vs ts) = filter (Not \<circ> is_torrent) vs
   \<and> map is_torrent (fill_torrents vs ts) = map is_torrent vs"
  by (induction vs ts rule: fill_torrents.induct) (auto split: list.splits)

lemma mset_filter_split: "mset xs = mset (filter P xs) + mset (filter (Not \<circ> P) xs)"
  by (induction xs) auto

lemma order_run_spec:
  "filter is_torrent (order_run vs) = sort_desc seeders (filter is_torrent vs)"
  "filter (Not \<circ> is_torrent) (order_run vs) = filter (Not \<circ> is_torrent) vs"
  "map is_torrent (order_run vs) = map is_torrent vs"
  using fill_torrents_spec[of "sort_desc seeders (filter is_torrent vs)" vs]
  by (simp_all add: order_run_def list_all_iff)

lemma mset_order_run [simp]: "mset (order_run vs) = mset vs"
  by (metis mset_filter_split mset_sort_desc order_run_spec(1,2))

lemma length_order_run [simp]: "length (order_run vs) = length vs"
  by (metis mset_order_run size_mset)

lemma set_order_run [simp]: "set (order_run vs) = set vs"
  by (metis mset_order_run set_mset_mset)

lemma order_run_const: "\<forall>v \<in> set vs. f v = c \<Longrightarrow> map f (order_run vs) = map f vs"
proof -
  assume a: "\<forall>v \<in> set vs. f v = c"
  then have "map f (order_run vs) = replicate (length (order_run vs)) c"
    by (intro replicate_eqI) auto
  moreover from a have "map f vs = replicate (length vs) c"
    by (intro replicate_eqI) auto
  ultimately show ?thesis by simp
qed

lemma order_runs_basic:
  "mset (order_runs f vs) = mset vs \<and> map f (order_runs f vs) = map f vs
   \<and> map is_torrent (order_runs f vs) = map is_torrent vs"
proof (induction f vs rule: order_runs.induct)
  case (2 f v vs)
  let ?run = "v # takeWhile (\<lambda>u. f u = f v) vs"
  let ?rest = "dropWhile (\<lambda>u. f u = f v) vs"
  have parts: "?run @ ?rest = v # vs" by simp
  have "map f (order_run ?run) = map f ?run"
    by (rule order_run_const[of _ _ "f v"]) (auto dest: set_takeWhileD)
  with 2 have "mset (order_runs f (v # vs)) = mset (?run @ ?rest)"
    "map f (order_runs f (v # vs)) = map f (?run @ ?rest)"
    "map is_torrent (order_runs f (v # vs)) = map is_torrent (?run @ ?rest)"
    by (simp_all only: order_runs.simps map_append mset_append mset_order_run order_run_spec)
  then show ?case by (simp only: parts)
qed simp

lemma filter_dropWhile_sorted:
  assumes "sorted_wrt (\<ge>) (map f (v # vs))"
  shows "\<forall>u \<in> set (dropWhile (\<lambda>u. f u = f v) vs). f u \<noteq> (f v :: 'k::linorder)"
proof (cases "dropWhile (\<lambda>u. f u = f v) vs")
  case (Cons w ws)
  then have w: "f w \<noteq> f v" using dropWhile_eq_Cons_conv[of "\<lambda>u. f u = f v" vs w ws] by simp
  define ts where "ts = takeWhile (\<lambda>u. f u = f v) vs"
  have "vs = ts @ w # ws" unfolding ts_def Cons[symmetric] by (rule takeWhile_dropWhile_id[symmetric])
  from assms[unfolded this] have "f w \<le> f v" "\<forall>u \<in> set ws. f u \<le> f w"
    by (simp_all add: sorted_wrt_append)
  with w have "f w < f v" "\<forall>u \<in> set ws. f u < f v" by auto
  with Cons show ?thesis by auto
next
  case Nil
  then show ?thesis by (simp only: list.set(1)) simp
qed

lemma order_runs_filter:
  "sorted_wrt (\<ge>) (map f vs) \<Longrightarrow>
     filter (\<lambda>v. f v = k) (order_runs f vs) = order_run (filter (\<lambda>v. f v = k) vs)"
proof (induction f vs rule: order_runs.induct)
  case (2 f v vs)
  let ?run = "v # takeWhile (\<lambda>u. f u = f v) vs"
  let ?rest = "dropWhile (\<lambda>u. f u = f v) vs"
  have run: "\<forall>u \<in> set ?run. f u = f v" by (auto dest: set_takeWhileD)
  then have orun: "\<forall>u \<in> set (order_run ?run). f u = f v" unfolding set_order_run .
  have "v # vs = ?run @ ?rest" by simp
  then have parts: "filter P (v # vs) = filter P ?run @ filter P ?rest" for P
    unfolding filter_append[symmetric] by (rule arg_cong)
  from 2(2) have "sorted_wrt (\<ge>) (map f (?run @ ?rest))" by simp
  then have s: "sorted_wrt (\<ge>) (map f ?rest)" unfolding map_append sorted_wrt_append by (elim conjE)
  have same: "filter (\<lambda>u. f u = k) (order_runs f (v # vs)) =
      filter (\<lambda>u. f u = k) (order_run ?run) @ order_run (filter (\<lambda>u. f u = k) ?rest)"
    using 2(1)[OF s] by simp
  show ?case
  proof (cases "k = f v")
    case True
    have "filter (\<lambda>u. f u = k) ?rest = []"
      unfolding True by (rule filter_False[OF filter_dropWhile_sorted[OF 2(2)]])
    moreover have "filter (\<lambda>u. f u = k) ?run = ?run" "filter (\<lambda>u. f u = k) (order_run ?run) = order_run ?run"
      by (rule filter_True, use run True in blast) (rule filter_True, use orun True in blast)
    ultimately show ?thesis by (simp only: parts same) (simp add: order_run_def)
  next
    case False
    have "filter (\<lambda>u. f u = k) ?run = []" "filter (\<lambda>u. f u = k) (order_run ?run) = []"
      by (rule filter_False, use run False in blast) (rule filter_False, use orun False in blast)
    then show ?thesis by (simp only: parts same append_Nil)
  qed
qed (simp add: order_run_def)

lemma rank_merge_keys:
  "distinct (map variantKey (rankVariants rt (mergeVariants vs) language w))"
  "variantKey ` set (rankVariants rt (mergeVariants vs) language w) = variantKey ` set vs"
proof -
  let ?ms = "mergeVariants vs"
  have "mset (rankVariants rt ?ms language w) = mset (prepare_variants rt ?ms w)"
    by (simp add: rankVariants_def Let_def order_runs_basic)
  then have m: "mset (map variantKey (rankVariants rt ?ms language w)) = mset (map variantKey ?ms)"
    by (metis mset_map prepare_all_keys prepare_variants_def)
  then show "distinct (map variantKey (rankVariants rt ?ms language w))"
    by (metis mergeVariants_keys(1) mset_eq_imp_distinct_iff)
  from m show "variantKey ` set (rankVariants rt ?ms language w) = variantKey ` set vs"
    by (metis set_map set_mset_mset mergeVariants_keys(2))
qed

text \<open>
  Merging and ranking the variants of a work loses and invents nothing: the result has
  exactly the publications of the input, each once.
\<close>

theorem rank_merge_complete:
  "distinct (map variantKey (rankVariants rt (mergeVariants vs) language w))
   \<and> variantKey ` set (rankVariants rt (mergeVariants vs) language w) = variantKey ` set vs"
  by (simp only: rank_merge_keys simp_thms)

text \<open>
  C9: the order of ranked variants. Scores never increase along the list; among variants
  of one score the torrents stand in the order of their seeders (stable), and everything
  that is not a torrent keeps its place and its input order.
\<close>

theorem rankVariants_order:
  "sorted_wrt (\<ge>) (map (score (preferred_language rt language)) (rankVariants rt vs language w))
   \<and> map (\<lambda>v. v_transport v = Torrent) (rankVariants rt vs language w) =
       map (\<lambda>v. v_transport v = Torrent)
         (sort_desc (score (preferred_language rt language)) (prepare_variants rt vs w))
   \<and> filter (\<lambda>v. score (preferred_language rt language) v = s \<and> v_transport v = Torrent)
         (rankVariants rt vs language w) =
       sort_desc seeders (filter (\<lambda>v. score (preferred_language rt language) v = s \<and> v_transport v = Torrent)
         (prepare_variants rt vs w))
   \<and> filter (\<lambda>v. score (preferred_language rt language) v = s \<and> v_transport v \<noteq> Torrent)
         (rankVariants rt vs language w) =
       filter (\<lambda>v. score (preferred_language rt language) v = s \<and> v_transport v \<noteq> Torrent)
         (prepare_variants rt vs w)"
proof -
  let ?score = "score (preferred_language rt language)"
  let ?prepared = "prepare_variants rt vs w"
  have out: "rankVariants rt vs language w = order_runs ?score (sort_desc ?score ?prepared)"
    by (simp add: rankVariants_def Let_def)
  have run: "filter (\<lambda>v. ?score v = s) (order_runs ?score (sort_desc ?score ?prepared)) =
      order_run (filter (\<lambda>v. ?score v = s) ?prepared)"
    by (simp add: order_runs_filter sorted_sort_desc sort_desc_stable)
  have both: "filter (\<lambda>v. ?score v = s \<and> P v) xs = filter P (filter (\<lambda>v. ?score v = s) xs)"
    for P :: "variant \<Rightarrow> bool" and xs
    by (simp add: conj_commute)
  show ?thesis
    using order_run_spec(1,2)[of "filter (\<lambda>v. ?score v = s) ?prepared"]
    unfolding out both[of is_torrent] both[of "\<lambda>v. \<not> is_torrent v"] run
    by (simp add: order_runs_basic sorted_sort_desc comp_def)
qed

end
