(* ===== verification/SampleRuntime.thy ===== *)
theory SampleRuntime
  imports Contracts
begin

text \<open>
  A concrete runtime for the witnesses: ASCII case folding and classes, a URL parser for
  \<open>scheme://user@host/path?query#hash\<close> and \<open>scheme:path?query#hash\<close>, form encoding of
  parameters, and a digest that keeps the first 64 code units. It satisfies the documented laws of
  the WHATWG URL API (\<open>sample_roundtrip\<close>), so the hypotheses of the properties can hold.
\<close>

definition split_at :: "nat \<Rightarrow> jstring \<Rightarrow> jstring \<times> jstring" where
  "split_at c s = (takeWhile (\<lambda>d. d \<noteq> c) s, drop 1 (dropWhile (\<lambda>d. d \<noteq> c) s))"

definition sample_url :: "jstring \<Rightarrow> url option" where
  "sample_url s =
     (let (a, hash) = split_at 35 s; (b, query) = split_at 63 a; (scheme, rest) = split_at 58 b
      in if 58 \<notin> set b then None
         else if take 2 rest = [47, 47]
         then (let (authority, path) = split_at 47 (drop 2 rest);
                   (user, host) = (if 64 \<in> set authority then split_at 64 authority else ([], authority))
               in if host = [] \<or> 64 \<in> set host \<or> (64 \<in> set authority \<and> user = []) then None
                  else Some \<lparr>u_protocol = scheme @ [58], u_username = user, u_password = [],
                         u_hostname = host, u_port = [], u_pathname = 47 # path,
                         u_search = query, u_hash = hash\<rparr>)
         else Some \<lparr>u_protocol = scheme @ [58], u_username = [], u_password = [], u_hostname = [],
                u_port = [], u_pathname = rest, u_search = query, u_hash = hash\<rparr>)"

definition sample_href :: "url \<Rightarrow> jstring" where
  "sample_href u = u_protocol u
     @ (if u_hostname u = [] then u_pathname u
        else [47, 47] @ (if u_username u = [] then [] else u_username u @ [64]) @ u_hostname u @ u_pathname u)
     @ (if u_search u = [] then [] else 63 # u_search u)
     @ (if u_hash u = [] then [] else 35 # u_hash u)"

text \<open>Letters, digits, \<open>_\<close> and \<open>-\<close> stand for themselves; all else is shifted past the separators.\<close>

definition form_char :: "nat \<Rightarrow> nat" where
  "form_char c = (if is_word c \<or> c = 45 then c else c + 128)"

definition form_unchar :: "nat \<Rightarrow> nat" where
  "form_unchar c = (if c < 128 then c else c - 128)"

lemma form_unchar_char [simp]: "form_unchar (form_char c) = c"
  by (simp add: form_unchar_def form_char_def char_class_defs)

lemma form_char_separators [simp]: "form_char c \<noteq> 61" "form_char c \<noteq> 38" "form_char c \<noteq> 35"
  by (simp_all add: form_char_def char_class_defs)

definition form_pair :: "jstring \<times> jstring \<Rightarrow> jstring" where
  "form_pair p = map form_char (fst p) @ [61] @ map form_char (snd p)"

definition form_unpair :: "jstring \<Rightarrow> jstring \<times> jstring" where
  "form_unpair s = (map form_unchar (fst (split_at 61 s)), map form_unchar (snd (split_at 61 s)))"

definition sample_form_text :: "(jstring \<times> jstring) list \<Rightarrow> jstring" where
  "sample_form_text ps = join [38] (map form_pair ps)"

definition sample_form_parse :: "jstring \<Rightarrow> (jstring \<times> jstring) list" where
  "sample_form_parse s = (if s = [] then [] else map form_unpair (split_char 38 s))"

definition sample_runtime :: runtime where
  "sample_runtime =
     \<lparr>rt_lower = map ascii_lower, rt_nfkd = (\<lambda>s. s), rt_nfc = (\<lambda>s. s), rt_mark = (\<lambda>_. False),
      rt_punct = (\<lambda>c. in_range 33 47 c \<or> in_range 58 64 c), rt_symbol = (\<lambda>c. c = 43 \<or> c = 60),
      rt_letter = (\<lambda>c. is_lower c \<or> is_upper c), rt_latin = (\<lambda>c. is_lower c \<or> is_upper c),
      rt_cyrillic = in_range 1024 1279, rt_cjk = in_range 12352 40959, rt_hangul = in_range 44032 55203,
      rt_sha256 = take 64, rt_url = sample_url, rt_url_at = (\<lambda>s b. sample_url s),
      rt_href = sample_href, rt_form_parse = sample_form_parse, rt_form_text = sample_form_text\<rparr>"

lemma split_at_append: "c \<notin> set a \<Longrightarrow> split_at c (a @ c # b) = (a, b)"
  by (induction a) (auto simp: split_at_def)

lemma split_at_none: "c \<notin> set a \<Longrightarrow> split_at c a = (a, [])"
  by (induction a) (auto simp: split_at_def)

lemma split_at_opt: "c \<notin> set a \<Longrightarrow> split_at c (a @ (if b = [] then [] else c # b)) = (a, b)"
  by (simp add: split_at_append split_at_none)

lemma split_at_fst: "c \<notin> set (fst (split_at c s))"
  by (auto simp: split_at_def dest: set_takeWhileD)

lemma split_at_subset: "set (fst (split_at c s)) \<subseteq> set s" "set (snd (split_at c s)) \<subseteq> set s"
  using set_takeWhileD[of _ _ s] set_dropWhileD[of _ _ s] set_drop_subset[of 1 "dropWhile (\<lambda>d. d \<noteq> c) s"]
  unfolding split_at_def fst_conv snd_conv by blast+

lemma form_roundtrip: "sample_form_parse (sample_form_text ps) = ps"
proof (cases ps)
  case (Cons p qs)
  have pair: "form_unpair (form_pair p) = p" for p
  proof -
    have "61 \<notin> set (map form_char (fst p))" by (auto simp: eq_commute[of 61])
    then show ?thesis
      by (simp add: form_pair_def form_unpair_def split_at_append comp_def)
  qed
  have ne: "join [38] (map form_pair ps) \<noteq> []"
    using Cons by (cases qs) (auto simp: form_pair_def)
  have "split_char 38 (join [38] (map form_pair ps)) = map form_pair ps"
    by (rule split_join) (use Cons in \<open>auto simp: form_pair_def\<close>)
  with ne pair show ?thesis
    by (simp add: sample_form_text_def sample_form_parse_def map_idI)
qed (simp add: sample_form_text_def sample_form_parse_def)

lemma form_text_no_hash: "35 \<notin> set (sample_form_text ps)"
proof (induction ps rule: induct_list012)
  case (3 p q ps)
  then show ?case by (auto simp: sample_form_text_def form_pair_def)
qed (auto simp: sample_form_text_def form_pair_def)

text \<open>The shape of what the sample parser returns; every such URL is read back.\<close>

definition sample_shape :: "url \<Rightarrow> bool" where
  "sample_shape u \<longleftrightarrow> (\<exists>scheme. u_protocol u = scheme @ [58] \<and> {35, 63, 58} \<inter> set scheme = {})
     \<and> u_password u = [] \<and> u_port u = [] \<and> 35 \<notin> set (u_search u) \<and> {35, 63} \<inter> set (u_pathname u) = {}
     \<and> (if u_hostname u = [] then u_username u = [] \<and> take 2 (u_pathname u) \<noteq> [47, 47]
        else {35, 63, 47, 64} \<inter> set (u_hostname u) = {} \<and> {35, 63, 47, 64} \<inter> set (u_username u) = {}
          \<and> (\<exists>p. u_pathname u = 47 # p))"

lemma sample_shape_roundtrip:
  assumes "sample_shape u"
  shows "sample_url (sample_href u) = Some u"
proof -
  obtain scheme where sc: "u_protocol u = scheme @ [58]" "{35, 63, 58} \<inter> set scheme = {}"
    using assms by (auto simp: sample_shape_def)
  define body where "body = (if u_hostname u = [] then u_pathname u
        else [47, 47] @ (if u_username u = [] then [] else u_username u @ [64]) @ u_hostname u @ u_pathname u)"
  have body: "{35, 63} \<inter> set body = {}"
    using assms by (auto simp: sample_shape_def body_def split: if_splits)
  have 1: "split_at 35 (sample_href u) = (scheme @ 58 # body @ (if u_search u = [] then [] else 63 # u_search u), u_hash u)"
    using split_at_opt[of 35 "scheme @ 58 # body @ (if u_search u = [] then [] else 63 # u_search u)" "u_hash u"]
      sc body assms by (auto simp: sample_href_def body_def[symmetric] sample_shape_def)
  have 2: "split_at 63 (scheme @ 58 # body @ (if u_search u = [] then [] else 63 # u_search u)) = (scheme @ 58 # body, u_search u)"
    using split_at_opt[of 63 "scheme @ 58 # body" "u_search u"] sc body by auto
  have 3: "split_at 58 (scheme @ 58 # body) = (scheme, body)" using sc by (simp add: split_at_append)
  show ?thesis
  proof (cases "u_hostname u = []")
    case True
    with assms have "take 2 body \<noteq> [47, 47]" by (auto simp: sample_shape_def body_def)
    with True assms sc 1 2 3 show ?thesis
      by (simp add: sample_url_def sample_shape_def body_def)
  next
    case False
    with assms obtain p where p: "u_pathname u = 47 # p" by (auto simp: sample_shape_def)
    let ?auth = "(if u_username u = [] then [] else u_username u @ [64]) @ u_hostname u"
    have body': "body = 47 # 47 # ?auth @ 47 # p" using False p by (simp add: body_def)
    have 4: "split_at 47 (?auth @ 47 # p) = (?auth, p)"
      using assms False by (intro split_at_append) (auto simp: sample_shape_def)
    have 5: "(if 64 \<in> set ?auth then split_at 64 ?auth else ([], ?auth)) = (u_username u, u_hostname u)"
      using assms False split_at_append[of 64 "u_username u" "u_hostname u"] by (auto simp: sample_shape_def)
    have "take 2 body = [47, 47]" "drop 2 body = ?auth @ 47 # p" by (simp_all add: body')
    moreover have "64 \<notin> set (u_hostname u)" "64 \<in> set ?auth \<longrightarrow> u_username u \<noteq> []"
      using assms False by (auto simp: sample_shape_def)
    ultimately show ?thesis
      using 1 2 3 4 5 False assms sc p by (auto simp: sample_url_def sample_shape_def)
  qed
qed

lemma sample_url_shape:
  assumes "sample_url s = Some u"
  shows "sample_shape u"
proof -
  obtain a hash where a: "split_at 35 s = (a, hash)" by fastforce
  obtain b query where b: "split_at 63 a = (b, query)" by fastforce
  obtain scheme rest where c: "split_at 58 b = (scheme, rest)" by fastforce
  have sa: "35 \<notin> set a" using split_at_fst[of 35 s] a by simp
  have sb: "63 \<notin> set b" "set b \<subseteq> set a" "set query \<subseteq> set a"
    using split_at_fst[of 63 a] split_at_subset[of 63 a] b by auto
  have sch: "58 \<notin> set scheme" "set scheme \<subseteq> set b" "set rest \<subseteq> set b"
    using split_at_fst[of 58 b] split_at_subset[of 58 b] c by auto
  show ?thesis
  proof (cases "take 2 rest = [47, 47]")
    case False
    with assms a b c have "u = \<lparr>u_protocol = scheme @ [58], u_username = [], u_password = [], u_hostname = [],
                u_port = [], u_pathname = rest, u_search = query, u_hash = hash\<rparr>"
      by (auto simp: sample_url_def split: if_splits)
    with False sa sb sch show ?thesis by (auto simp: sample_shape_def)
  next
    case True
    obtain authority path where d: "split_at 47 (drop 2 rest) = (authority, path)" by fastforce
    have sd: "47 \<notin> set authority" "set authority \<subseteq> set rest" "set path \<subseteq> set rest"
      using split_at_fst[of 47 "drop 2 rest"] split_at_subset[of 47 "drop 2 rest"] d set_drop_subset[of 2 rest] by auto
    obtain user host where e: "(if 64 \<in> set authority then split_at 64 authority else ([], authority)) = (user, host)"
      by fastforce
    have se: "64 \<notin> set user" "set user \<subseteq> set authority" "set host \<subseteq> set authority"
      using e split_at_fst[of 64 authority] split_at_subset[of 64 authority] by (auto split: if_splits)
    from True assms a b c d e have h: "host \<noteq> [] \<and> 64 \<notin> set host \<and> u = \<lparr>u_protocol = scheme @ [58],
        u_username = user, u_password = [], u_hostname = host, u_port = [], u_pathname = 47 # path,
        u_search = query, u_hash = hash\<rparr>"
      by (auto simp: sample_url_def split: if_splits)
    have au: "{35, 63, 47} \<inter> set authority = {}" "{35, 63} \<inter> set path = {}" "35 \<notin> set query"
      using sa sb sch sd by blast+
    have "64 \<notin> set host" using h by simp
    with au(1) se have ho: "{35, 63, 47, 64} \<inter> set host = {}" "{35, 63, 47, 64} \<inter> set user = {}" by blast+
    have "{35, 63, 58} \<inter> set scheme = {}" using sa sb sch by blast
    with h au ho show ?thesis by (simp add: sample_shape_def)
  qed
qed

lemma sample_runtime_simps [simp]:
  "rt_url sample_runtime = sample_url" "rt_href sample_runtime = sample_href"
  "rt_form_parse sample_runtime = sample_form_parse" "rt_form_text sample_runtime = sample_form_text"
  "rt_sha256 sample_runtime = take 64" "rt_lower sample_runtime = map ascii_lower"
  "rt_nfkd sample_runtime = (\<lambda>s. s)" "rt_nfc sample_runtime = (\<lambda>s. s)"
  by (simp_all add: sample_runtime_def)

theorem sample_roundtrip: "url_roundtrip sample_runtime"
proof -
  have shape: "sample_shape (u\<lparr>u_hash := []\<rparr>)" "sample_shape (u\<lparr>u_search := sample_form_text ps, u_hash := []\<rparr>)"
    if "sample_shape u" for u ps
    using that form_text_no_hash[of ps] by (auto simp: sample_shape_def)
  show ?thesis
    unfolding url_roundtrip_def
    using shape by (auto simp: form_roundtrip intro!: sample_shape_roundtrip dest!: sample_url_shape)
qed

end
