(* ===== verification/Matching.thy ===== *)
theory Matching
  imports Variants SampleRuntime "HOL-Library.Word"
begin

text \<open>
  The part of \<open>results.ts\<close> that decides which publications belong together: torrent
  hashes, seasons and episodes read from titles, the catalog entry of a publication and
  \<open>sameWork\<close>. Cyrillic literals are written as code units; the word for season is
  \<open>season_ru\<close>.
\<close>

section \<open>Torrent hashes\<close>

definition base32_alphabet :: jstring where
  "base32_alphabet = js ''abcdefghijklmnopqrstuvwxyz234567''"

text \<open>\<open>alphabet.indexOf(letter)\<close> for a letter of the alphabet.\<close>

definition base32_index :: "nat \<Rightarrow> nat" where
  "base32_index c = (if is_lower c then c - 97 else c - 24)"

definition is_base32 :: "nat \<Rightarrow> bool" where
  "is_base32 c \<longleftrightarrow> is_lower c \<or> in_range 50 55 c"

record base32_state =
  b_bits :: nat
  b_acc :: "32 word"
  b_bytes :: "nat list"

definition base32_step :: "nat \<Rightarrow> base32_state \<Rightarrow> base32_state" where
  "base32_step letter st =
     (let acc = or (push_bit 5 (b_acc st)) (word_of_nat (base32_index letter));
          bits = b_bits st + 5
      in if bits \<ge> 8
         then \<lparr>b_bits = bits - 8, b_acc = acc,
                b_bytes = b_bytes st @ [unat (and (drop_bit (bits - 8) acc) 255)]\<rparr>
         else \<lparr>b_bits = bits, b_acc = acc, b_bytes = b_bytes st\<rparr>)"

definition base32_bytes :: "jstring \<Rightarrow> nat list" where
  "base32_bytes letters = b_bytes (fold base32_step letters \<lparr>b_bits = 0, b_acc = 0, b_bytes = []\<rparr>)"

definition hex_digit :: "nat \<Rightarrow> nat" where
  "hex_digit n = (if n < 10 then 48 + n else 87 + n)"

text \<open>\<open>Buffer.from(bytes).toString("hex")\<close>\<close>

definition hex_of :: "nat list \<Rightarrow> jstring" where
  "hex_of bytes = concat (map (\<lambda>b. [hex_digit (b div 16), hex_digit (b mod 16)]) bytes)"

definition topic_rx :: rx where
  "topic_rx = RSeqs [RBol, RLitI (js ''urn:bt''), RAlt (RLitI (js ''ih'')) (RLitI (js ''mh'')), RLit (js '':'')]"

text \<open>\<open>hash.replace(/^urn:/i, "")\<close> for a hash that starts with \<open>urn:\<close>.\<close>

definition drop_urn :: "jstring \<Rightarrow> jstring" where
  "drop_urn s = (if map fold_case (take 4 s) = js ''urn:'' then drop 4 s else s)"

definition btih_value :: "jstring \<Rightarrow> jstring option" where
  "btih_value value =
     (let digest = drop 5 value in
      if starts_with value (js ''btih:'') \<and> length digest = 40 \<and> list_all is_hex_lower digest then Some value
      else if starts_with value (js ''btmh:1220'') \<and> length (drop 9 value) = 64
         \<and> list_all is_hex_lower (drop 9 value) then Some value
      else if starts_with value (js ''btih:'') \<and> length digest = 32 \<and> list_all is_base32 digest
      then Some (js ''btih:'' @ hex_of (base32_bytes digest))
      else None)"

definition magnetHash :: "runtime \<Rightarrow> variant \<Rightarrow> jstring option" where
  "magnetHash rt v =
     (let h = or_empty (v_infoHash v) in
      if length h = 40 \<and> list_all is_hex h then Some (js ''btih:'' @ rt_lower rt h)
      else if length h = 64 \<and> list_all is_hex h then Some (js ''btmh:1220'' @ rt_lower rt h)
      else if \<not> truthy (v_magnet v) then None
      else (case rt_url rt (or_empty (v_magnet v)) of
          None \<Rightarrow> None
        | Some u \<Rightarrow>
            (case find (rx_test topic_rx) (map snd (filter (\<lambda>p. fst p = js ''xt'') (url_params rt u))) of
               None \<Rightarrow> None
             | Some hash \<Rightarrow> if hash = [] then None else btih_value (rt_lower rt (drop_urn hash)))))"

section \<open>Seasons\<close>

definition season_ru :: jstring where
  "season_ru = [1089, 1077, 1079, 1086, 1085]"

definition ordinal_rx :: rx where
  "ordinal_rx = ROpt (RAlts [RLit (js ''st''), RLit (js ''nd''), RLit (js ''rd''), RLit (js ''th'')])"

definition digits_rx :: rx where
  "digits_rx = RPlus RDigit"

text \<open>\<open>/(?:season (\d+)|(\d+)(?:st|nd|rd|th)? season|(\d+) SEASON_RU| (\d+)$)/\<close>\<close>

definition counter_rx :: rx where
  "counter_rx = RAlts
     [RSeq (RLit (js ''season '')) (RGroup 1 digits_rx),
      RSeqs [RGroup 2 digits_rx, ordinal_rx, RLit (js '' season'')],
      RSeqs [RGroup 3 digits_rx, RLit (32 # season_ru)],
      RSeqs [RLit (js '' ''), RGroup 4 digits_rx, REol]]"

text \<open>\<open>counter.slice(1).find(Boolean)\<close>\<close>

definition first_cap :: "nat list \<Rightarrow> rx_found \<Rightarrow> jstring option" where
  "first_cap ns f = (case find (\<lambda>n. truthy (cap f n)) ns of None \<Rightarrow> None | Some n \<Rightarrow> cap f n)"

definition matchesSeason :: "jstring list \<Rightarrow> jstring option \<Rightarrow> bool" where
  "matchesSeason titles season =
     (if \<not> truthy season then True
      else let counters = concat (map (\<lambda>t. case rx_exec counter_rx t of
                 None \<Rightarrow> [] | Some f \<Rightarrow> [or_empty (first_cap [1, 2, 3, 4] f)]) titles)
           in or_empty season \<in> set counters \<or> (season = Some (js ''1'') \<and> counters = []))"

section \<open>Episodes of torrent releases\<close>

text \<open>\<open>/[([]((?:19|20)\d{2})[)\]]/\<close>\<close>

definition release_year_rx :: rx where
  "release_year_rx = RSeqs [RCh (\<lambda>c. c = 40 \<or> c = 91), RGroup 1 year_rx, RCh (\<lambda>c. c = 41 \<or> c = 93)]"

definition dash_rx :: rx where
  "dash_rx = RSeqs [RSpaces, RCh (\<lambda>c. c \<in> {45, 126, 8211, 8212}), RSpaces]"

text \<open>A pack of several episodes: a batch, a range of numbers or of \<open>SxxExx\<close> labels.\<close>

definition batch_rx :: rx where
  "batch_rx = RAlts
     [RSeqs [RWordB, RAlt (RLitI (js ''batch'')) (RLitI (js ''complete'')), RWordB],
      RSeqs [RWordB, RRep 1 3 RDigit,
        RAlt (RSeq dash_rx (RRep 1 3 RDigit)) (RSeq (RCh (\<lambda>c. c = 46)) (RRep 1 2 RDigit)), RWordB],
      RSeqs [RWordB, RLitI (js ''s''), RRep 1 2 RDigit, RLitI (js ''e''), RRep 1 3 RDigit, dash_rx,
        ROpt (RSeq (RLitI (js ''s'')) (RRep 1 2 RDigit)), ROpt (RLitI (js ''e'')), RRep 1 3 RDigit, RWordB]]"

text \<open>\<open>/^\[[^\]]+\]\s*/\<close>\<close>

definition group_tag_rx :: rx where
  "group_tag_rx = RSeqs [RBol, RCh (\<lambda>c. c = 91), RPlus (RCh (\<lambda>c. c \<noteq> 93)), RCh (\<lambda>c. c = 93), RSpaces]"

definition version_rx :: "rx \<Rightarrow> rx" where
  "version_rx v = ROpt (RSeq v digits_rx)"

text \<open>\<open>/\bS(\d{1,2})E(\d{1,3})(?:v\d+)?\b/i\<close>\<close>

definition release_episode_rx :: rx where
  "release_episode_rx = RSeqs [RWordB, RLitI (js ''s''), RGroup 1 (RRep 1 2 RDigit), RLitI (js ''e''),
     RGroup 2 (RRep 1 3 RDigit), version_rx (RLitI (js ''v'')), RWordB]"

text \<open>\<open>/(?: season \d+| \d+(?:st|nd|rd|th)? season| \d+ SEASON_RU| \d+)$/\<close>\<close>

definition season_suffix_rx :: rx where
  "season_suffix_rx = RSeq (RAlts
     [RSeq (RLit (js '' season '')) digits_rx,
      RSeqs [RLit (js '' ''), digits_rx, ordinal_rx, RLit (js '' season'')],
      RSeqs [RLit (js '' ''), digits_rx, RLit (32 # season_ru)],
      RSeq (RLit (js '' '')) digits_rx]) REol"

text \<open>\<open>title.split(/[()[\]{},|\/]/)\<close>\<close>

fun split_on :: "(nat \<Rightarrow> bool) \<Rightarrow> jstring \<Rightarrow> jstring list" where
  "split_on P [] = [[]]"
| "split_on P (c # s) =
     (if P c then [] # split_on P s
      else (case split_on P s of [] \<Rightarrow> [[c]] | p # ps \<Rightarrow> (c # p) # ps))"

definition label_end :: "nat \<Rightarrow> bool" where
  "label_end c \<longleftrightarrow> c \<in> {40, 41, 91, 93, 123, 125, 44, 124, 47}"

definition spaced :: "jstring \<Rightarrow> jstring" where
  "spaced s = 32 # s @ [32]"

text \<open>
  \<open>/^(?:(?:multi subs?|english (?:subs?|audio)|vostfr|(?:un)?censored(?: version)?)(?: |$))*$/\<close>
\<close>

definition annotation_rx :: rx where
  "annotation_rx = RSeqs [RBol,
     RStar True (RSeq (RAlts
       [RSeq (RLit (js ''multi sub'')) (ROpt (RLit (js ''s''))),
        RSeq (RLit (js ''english '')) (RAlt (RSeq (RLit (js ''sub'')) (ROpt (RLit (js ''s'')))) (RLit (js ''audio''))),
        RLit (js ''vostfr''),
        RSeqs [ROpt (RLit (js ''un'')), RLit (js ''censored''), ROpt (RLit (js '' version''))]])
       (RAlt (RLit (js '' '')) REol)),
     REol]"

definition alternate_label :: "jstring list \<Rightarrow> jstring \<Rightarrow> bool" where
  "alternate_label aliases label =
     rx_test annotation_rx
       (trim (fold (\<lambda>alias. replace_all (spaced alias) (js '' '')) aliases (spaced label)))"

definition latin_or_cyrillic :: "runtime \<Rightarrow> nat \<Rightarrow> bool" where
  "latin_or_cyrillic rt c \<longleftrightarrow> rt_latin rt c \<or> rt_cyrillic rt c"

text \<open>\<open>/^\s+(?:[^\p{Script=Latin}\p{Script=Cyrillic}\d]+\s+)?(\d{2,3})(?:v\d+)?(?:\s|$)/u\<close>\<close>

definition number_suffix_rx :: "runtime \<Rightarrow> rx" where
  "number_suffix_rx rt = RSeqs [RBol, RPlus RSpace,
     ROpt (RSeq (RPlus (RCp (\<lambda>c. \<not> latin_or_cyrillic rt c \<and> \<not> is_digit c))) (RPlus RSpace)),
     RGroup 1 (RRep 2 3 RDigit), version_rx (RLit (js ''v'')), RAlt RSpace REol]"

fun suffix_episode :: "runtime \<Rightarrow> jstring \<Rightarrow> jstring list \<Rightarrow> jstring option" where
  "suffix_episode rt name [] = None"
| "suffix_episode rt name (alias # others) =
     (let offset = (case index_of name (spaced alias) of None \<Rightarrow> 0 | Some i \<Rightarrow> i);
          suffix = drop (offset + length alias + 1) name
      in case rx_cap (number_suffix_rx rt) 1 suffix of
           Some digits \<Rightarrow> Some (to_dec (num_of digits))
         | None \<Rightarrow> suffix_episode rt name others)"

definition work_titles :: "runtime \<Rightarrow> work \<Rightarrow> jstring list" where
  "work_titles rt w = map (normalizeTitle rt) (w_title w # list_or (w_aliases w))"

definition release_aliases :: "runtime \<Rightarrow> bool \<Rightarrow> work \<Rightarrow> jstring list" where
  "release_aliases rt explicit w =
     sort_desc (\<lambda>a. int (length a)) (filter (\<lambda>a. 5 \<le> length a)
       (if explicit then map (rx_replace1 season_suffix_rx (\<lambda>_. [])) (work_titles rt w)
        else work_titles rt w))"

definition matched_aliases :: "runtime \<Rightarrow> jstring \<Rightarrow> jstring list \<Rightarrow> jstring list" where
  "matched_aliases rt title aliases =
     (let name = spaced (normalizeTitle rt title);
          labels = filter (alternate_label aliases) (map (normalizeTitle rt) (split_on label_end title))
      in filter (\<lambda>alias. case index_of name (spaced alias) of
             None \<Rightarrow> False
           | Some offset \<Rightarrow> list_ex (\<lambda>label. includes_str (spaced label) (spaced alias)) labels
               \<or> \<not> list_ex (latin_or_cyrillic rt) (code_points (take offset name))) aliases)"

text \<open>The result is the episode and, for an \<open>SxxExx\<close> label, the season.\<close>

definition animeTorrentEpisode :: "runtime \<Rightarrow> variant \<Rightarrow> work \<Rightarrow> (jstring \<times> jstring option) option" where
  "animeTorrentEpisode rt v w =
     (let year = rx_cap release_year_rx 1 (v_title v) in
      if truthy year \<and> truthy_num (w_year w) \<and> of_nat (num_of (or_empty year)) \<noteq> num_or_zero (w_year w)
      then None
      else if rx_test batch_rx (v_title v) then None
      else let title = rx_replace1 group_tag_rx (\<lambda>_. []) (v_title v);
               explicit = rx_exec release_episode_rx title;
               season = (case explicit of None \<Rightarrow> None | Some f \<Rightarrow> map_option (to_dec \<circ> num_of) (cap f 1))
           in if \<not> matchesSeason (work_titles rt w) season then None
              else let aliases = release_aliases rt (explicit \<noteq> None) w;
                       matched = matched_aliases rt title aliases
                   in if matched = [] then None
                      else (case explicit of
                          Some f \<Rightarrow> Some (to_dec (num_of (or_empty (cap f 2))), season)
                        | None \<Rightarrow> map_option (\<lambda>e. (e, None))
                            (suffix_episode rt (spaced (normalizeTitle rt title)) matched)))"

definition catalogVariants :: "runtime \<Rightarrow> work \<Rightarrow> work \<Rightarrow> variant list" where
  "catalogVariants rt publication catalog = map (\<lambda>v.
     (case (if w_category catalog = Anime \<and> v_transport v = Torrent
            then animeTorrentEpisode rt v catalog else None) of
        None \<Rightarrow> v
      | Some (episode, season) \<Rightarrow> v\<lparr>v_episode := Some episode, v_season := opt_or season (v_season v)\<rparr>))
     (w_variants publication)"

section \<open>sameWork\<close>

definition years_differ :: "work \<Rightarrow> work \<Rightarrow> bool" where
  "years_differ a b \<longleftrightarrow> truthy_num (w_year a) \<and> truthy_num (w_year b) \<and> w_year a \<noteq> w_year b"

definition work_authors :: "runtime \<Rightarrow> work \<Rightarrow> jstring list" where
  "work_authors rt w = concat (map (\<lambda>v. if truthy (v_author v)
     then [normalizeTitle rt (or_empty (v_author v))] else []) (w_variants w))"

text \<open>\<open>/(?:season\s+(\d+)|(\d+)\s*SEASON_RU)/i\<close>\<close>

definition title_season_rx :: rx where
  "title_season_rx = RAlt
     (RSeqs [RLitI (js ''season''), RPlus RSpace, RGroup 1 digits_rx])
     (RSeqs [RGroup 2 digits_rx, RSpaces, RLitI season_ru])"

definition work_seasons :: "work \<Rightarrow> jstring" where
  "work_seasons w =
     (let labels = filter (\<lambda>s. s \<noteq> []) (map (\<lambda>v. or_empty (snd (episodeFacets v))) (w_variants w));
          title = (case rx_exec title_season_rx (w_title w) of
              None \<Rightarrow> []
            | Some f \<Rightarrow> [to_dec (num_of (or_empty (str_or (cap f 1) (cap f 2))))])
      in join (js '','') (sort (uniq (labels @ title))))"

definition identifier_of :: "work \<Rightarrow> jstring \<Rightarrow> jstring option" where
  "identifier_of w namespace = jm_get (list_or (w_identifiers w)) namespace"

definition identifiers_conflict :: "work \<Rightarrow> work \<Rightarrow> bool" where
  "identifiers_conflict a b \<longleftrightarrow> list_ex (\<lambda>(namespace, val). val \<noteq> []
     \<and> truthy (identifier_of b namespace) \<and> identifier_of b namespace \<noteq> Some val) (list_or (w_identifiers a))"

definition identifiers_agree :: "work \<Rightarrow> work \<Rightarrow> bool" where
  "identifiers_agree a b \<longleftrightarrow> list_ex (\<lambda>(namespace, val). val \<noteq> []
     \<and> identifier_of b namespace = Some val) (list_or (w_identifiers a))"

text \<open>The last part of \<open>sameWork\<close>: no identifier decides, so category, authors, seasons and title do.\<close>

definition same_title :: "runtime \<Rightarrow> work \<Rightarrow> work \<Rightarrow> bool" where
  "same_title rt a b =
     (if w_category a = AnyCategory \<or> w_category a \<noteq> w_category b then False
      else if w_category a \<in> {Books, Manga}
        \<and> (work_authors rt a = [] \<or> work_authors rt b = []
           \<or> \<not> list_ex (\<lambda>x. x \<in> set (work_authors rt b)) (work_authors rt a)) then False
      else if w_category a \<in> {Anime, Movies, Tv} \<and> work_seasons a \<noteq> work_seasons b then False
      else 3 \<le> length (normalizeTitle rt (w_title a))
        \<and> normalizeTitle rt (w_title a) = normalizeTitle rt (w_title b)
        \<and> (w_category a \<in> {Books, Manga, Games, Software}
           \<or> (truthy_num (w_year a) \<and> w_year a = w_year b)))"

definition sameWork :: "runtime \<Rightarrow> work \<Rightarrow> work \<Rightarrow> bool" where
  "sameWork rt a b =
     (if w_id a = w_id b then True
      else if list_ex (\<lambda>x. list_ex (\<lambda>y. v_sourceId x = v_sourceId y \<and> v_id x = v_id y) (w_variants b))
             (w_variants a) then True
      else if list_ex (\<lambda>x. list_ex (\<lambda>y. magnetHash rt x \<noteq> None \<and> magnetHash rt x = magnetHash rt y)
             (w_variants b)) (w_variants a) then True
      else if (w_category a \<noteq> AnyCategory \<and> w_category b \<noteq> AnyCategory \<and> w_category a \<noteq> w_category b)
             \<or> years_differ a b then False
      else if identifiers_conflict a b then False
      else if identifiers_agree a b then True
      else if isUserUpload a \<or> isUserUpload b then False
      else same_title rt a b)"

section \<open>matchingCatalog\<close>

definition is_episode_upload :: "work \<Rightarrow> bool" where
  "is_episode_upload p \<longleftrightarrow> w_category p = Anime \<and> isUserUpload p
     \<and> list_all (\<lambda>v. v_transport v = Video \<and> truthy (v_episode v) \<and> num_or_zero (v_duration v) \<ge> 15 * 60)
         (w_variants p)"

definition synopsis_of :: "runtime \<Rightarrow> jstring option \<Rightarrow> jstring option" where
  "synopsis_of rt d = map_option (\<lambda>t. squeeze_spaces (rt_nfc rt t)) d"

definition upload_matches :: "runtime \<Rightarrow> work \<Rightarrow> work \<Rightarrow> bool" where
  "upload_matches rt p w =
     (let titles = work_titles rt w in
      if list_ex (\<lambda>v. \<not> matchesSeason titles (v_season v)) (w_variants p) then False
      else if list_ex (\<lambda>a. normalizeTitle rt a \<in> set titles) (list_or (w_aliases p)) then True
      else if list_ex (\<lambda>v. truthy (v_season v)) (w_variants p) then False
      else let synopsis = or_empty (synopsis_of rt (w_description w));
               description = or_empty (synopsis_of rt (w_description p))
           in 200 \<le> length synopsis \<and> description \<noteq> [] \<and> starts_with description synopsis)"

definition catalog_match :: "runtime \<Rightarrow> work \<Rightarrow> work \<Rightarrow> bool" where
  "catalog_match rt p w =
     (if (w_category p \<noteq> AnyCategory \<and> w_category w \<noteq> w_category p) \<or> years_differ p w then False
      else if w_category w \<in> {Books, Manga} then sameWork rt p w
      else if is_episode_upload p then upload_matches rt p w
      else if w_category w = Anime then list_ex (\<lambda>v. animeTorrentEpisode rt v w \<noteq> None) (w_variants p)
      else list_ex (\<lambda>key. 5 \<le> length key
             \<and> list_ex (\<lambda>n. n = key \<or> starts_with n (key @ js '' ''))
                 (map (\<lambda>v. normalizeTitle rt (v_title v)) (w_variants p)))
           (work_titles rt w))"

definition matchingCatalog :: "runtime \<Rightarrow> work \<Rightarrow> work list \<Rightarrow> work option" where
  "matchingCatalog rt p catalog =
     (if \<not> is_episode_upload p \<and> \<not> list_all (\<lambda>v. v_transport v = Torrent) (w_variants p) then None
      else (case filter (catalog_match rt p) catalog of [w] \<Rightarrow> Some w | _ \<Rightarrow> None))"

section \<open>Facts on hashes\<close>

definition base32_value :: "jstring \<Rightarrow> nat" where
  "base32_value s = foldl (\<lambda>n c. 32 * n + base32_index c) 0 s"

definition bytes_value :: "nat list \<Rightarrow> nat" where
  "bytes_value bs = foldl (\<lambda>n b. 256 * n + b) 0 bs"

lemma base32_index_bound: "is_base32 c \<Longrightarrow> base32_index c < 32"
  by (auto simp: is_base32_def base32_index_def is_lower_def in_range_def)

lemma base32_index_alphabet: "is_base32 c \<Longrightarrow> base32_alphabet ! base32_index c = c"
proof -
  assume "is_base32 c"
  then have "c < 123" by (auto simp: is_base32_def is_lower_def in_range_def)
  then have "c \<in> set [0..<123]" by simp
  moreover have "list_all (\<lambda>c. is_base32 c \<longrightarrow> base32_alphabet ! base32_index c = c) [0..<123]" by code_simp
  ultimately show ?thesis using \<open>is_base32 c\<close> by (simp only: list_all_iff)
qed

lemma or_push: "i < 32 \<Longrightarrow> or (push_bit 5 (word_of_nat n)) (word_of_nat i) = (word_of_nat (32 * n + i) :: 32 word)"
proof -
  assume i: "i < 32"
  have "and (push_bit 5 n) i = 0"
  proof (rule bit_eqI)
    fix k
    show "bit (and (push_bit 5 n) i) k \<longleftrightarrow> bit 0 k"
    proof (cases "k < 5")
      case False
      then have "(2::nat) ^ 5 \<le> 2 ^ k" by (intro power_increasing) auto
      with i have "i div 2 ^ k = 0" by simp
      then show ?thesis by (simp add: bit_simps bit_iff_odd[of i k])
    qed (simp add: bit_simps)
  qed
  then have "or (push_bit 5 n) i = push_bit 5 n + i" by (simp add: disjunctive_add_eq_or)
  then have "or (push_bit 5 n) i = 32 * n + i" by (simp add: push_bit_eq_mult)
  then show ?thesis by (metis of_nat_or_eq push_bit_of_nat)
qed

lemma word_byte:
  "r \<le> 24 \<Longrightarrow> unat (and (drop_bit r (word_of_nat m :: 32 word)) 255) = (m div 2 ^ r) mod 256"
proof -
  assume r: "r \<le> 24"
  have "and (drop_bit r (word_of_nat m :: 32 word)) 255 = take_bit 8 (drop_bit r (word_of_nat m))"
    using take_bit_eq_mask[of 8 "drop_bit r (word_of_nat m :: 32 word)"] by (simp add: mask_eq_exp_minus_1)
  then have "unat (and (drop_bit r (word_of_nat m :: 32 word)) 255) = take_bit 8 (drop_bit r (take_bit 32 m))"
    by (simp add: unsigned_take_bit_eq unsigned_drop_bit_eq unsigned_of_nat)
  also have "\<dots> = take_bit 8 (drop_bit r m)"
    using r by (intro bit_eqI) (auto simp: bit_simps)
  finally show ?thesis by (simp add: take_bit_eq_mod drop_bit_eq_div)
qed

definition base32_inv :: "jstring \<Rightarrow> base32_state \<Rightarrow> bool" where
  "base32_inv s st \<longleftrightarrow> b_acc st = word_of_nat (base32_value s) \<and> b_bits st < 8
     \<and> b_bits st + 8 * length (b_bytes st) = 5 * length s
     \<and> bytes_value (b_bytes st) = base32_value s div 2 ^ b_bits st
     \<and> list_all (\<lambda>b. b < 256) (b_bytes st)"

lemma base32_step_inv:
  assumes "base32_inv s st" "is_base32 c"
  shows "base32_inv (s @ [c]) (base32_step c st)"
proof -
  let ?i = "base32_index c" and ?n = "base32_value s"
  let ?m = "32 * ?n + ?i"
  have i: "?i < 32" using assms(2) by (rule base32_index_bound)
  have m: "base32_value (s @ [c]) = ?m" by (simp add: base32_value_def)
  have acc: "or (push_bit 5 (b_acc st)) (word_of_nat ?i) = word_of_nat ?m"
    using assms(1) i by (simp add: base32_inv_def or_push)
  have mn: "?m div 2 ^ (r + 5) = ?n div 2 ^ r" for r
    using i by (simp add: power_add mult.commute[of "2 ^ r"] div_mult2_eq)
  show ?thesis
  proof (cases "b_bits st < 3")
    case True
    then show ?thesis
      using assms(1) mn[of "b_bits st"] acc m by (simp add: base32_step_def base32_inv_def Let_def add.commute)
  next
    case False
    define r where "r = b_bits st - 3"
    have r: "b_bits st = r + 3" "r < 5" using False assms(1) by (auto simp: r_def base32_inv_def)
    have byte: "unat (and (drop_bit r (word_of_nat ?m :: 32 word)) 255) = (?m div 2 ^ r) mod 256"
      using r by (intro word_byte) auto
    have "?n div 2 ^ (r + 3) = ?m div 2 ^ r div 256"
      using mn[of "r + 3"] by (simp add: power_add flip: div_mult2_eq) (simp add: mult.commute)
    then have "256 * (?n div 2 ^ (r + 3)) + (?m div 2 ^ r) mod 256 = ?m div 2 ^ r" by simp
    then show ?thesis
      using assms(1) r acc m byte
      by (simp add: base32_step_def base32_inv_def Let_def bytes_value_def)
  qed
qed

lemma base32_fold_inv:
  "list_all is_base32 s \<Longrightarrow> base32_inv s (fold base32_step s \<lparr>b_bits = 0, b_acc = 0, b_bytes = []\<rparr>)"
proof (induction s rule: rev_induct)
  case Nil
  then show ?case by (simp add: base32_inv_def base32_value_def bytes_value_def)
next
  case (snoc c s)
  then show ?case by (simp add: base32_step_inv)
qed

lemma base32_bytes_value:
  assumes "list_all is_base32 s" "length s = 32"
  shows "bytes_value (base32_bytes s) = base32_value s \<and> length (base32_bytes s) = 20
     \<and> list_all (\<lambda>b. b < 256) (base32_bytes s)"
proof -
  let ?st = "fold base32_step s \<lparr>b_bits = 0, b_acc = 0, b_bytes = []\<rparr>"
  have inv: "base32_inv s ?st" by (rule base32_fold_inv[OF assms(1)])
  then have "b_bits ?st < 8" "b_bits ?st + 8 * length (b_bytes ?st) = 160"
    using assms(2) by (auto simp: base32_inv_def)
  then have "b_bits ?st = 0" "length (b_bytes ?st) = 20" by presburger+
  with inv show ?thesis by (simp add: base32_inv_def base32_bytes_def)
qed

definition hex_index :: "nat \<Rightarrow> nat" where
  "hex_index c = (if c < 58 then c - 48 else c - 87)"

definition hex_value :: "jstring \<Rightarrow> nat" where
  "hex_value s = foldl (\<lambda>n c. 16 * n + hex_index c) 0 s"

lemma hex_digit_index: "n < 16 \<Longrightarrow> hex_index (hex_digit n) = n \<and> is_hex_lower (hex_digit n)"
  by (auto simp: hex_index_def hex_digit_def char_class_defs)

lemma hex_of_value:
  "list_all (\<lambda>b. b < 256) bs \<Longrightarrow> hex_value (hex_of bs) = bytes_value bs
     \<and> length (hex_of bs) = 2 * length bs \<and> list_all is_hex_lower (hex_of bs)"
proof (induction bs rule: rev_induct)
  case (snoc b bs)
  then have b: "b div 16 < 16" "b mod 16 < 16" by auto
  have "256 * n + b = 16 * (16 * n + b div 16) + b mod 16" for n :: nat by simp
  with snoc hex_digit_index[OF b(1)] hex_digit_index[OF b(2)] show ?case
    by (simp add: hex_of_def hex_value_def bytes_value_def)
qed (simp add: hex_of_def hex_value_def bytes_value_def)

text \<open>
  A base32 torrent hash is turned into the hexadecimal hash of the same number. For
  \<open>btih:\<close> and 32 base32 letters the 32-bit accumulator loop yields 40 lower-case
  hexadecimal digits with the value of the letters, although the accumulator overflows.
\<close>

theorem base32_magnet_hash:
  assumes "length s = 32" "list_all is_base32 s"
  shows "\<exists>h. btih_value (js ''btih:'' @ s) = Some (js ''btih:'' @ h) \<and> length h = 40
     \<and> list_all is_hex_lower h \<and> hex_value h = base32_value s"
proof -
  have "btih_value (js ''btih:'' @ s) = Some (js ''btih:'' @ hex_of (base32_bytes s))"
    using assms by (simp add: btih_value_def starts_with_def)
  with hex_of_value[of "base32_bytes s"] base32_bytes_value[OF assms(2,1)] show ?thesis by auto
qed

theorem base32_magnet_hash_witness:
  "\<exists>h. btih_value (js ''btih:abcdefghijklmnopqrstuvwxyz234567'') = Some (js ''btih:'' @ h)
     \<and> hex_value h = base32_value base32_alphabet"
proof -
  have "length base32_alphabet = 32" "list_all is_base32 base32_alphabet"
    by code_simp+
  from base32_magnet_hash[OF this] show ?thesis by (auto simp: base32_alphabet_def)
qed

section \<open>Facts on sameWork and matchingCatalog\<close>

definition identifiers_wf :: "work \<Rightarrow> bool" where
  "identifiers_wf w \<longleftrightarrow> jm_inv (list_or (w_identifiers w))"

lemma identifier_of_entries:
  "identifiers_wf w \<Longrightarrow> (n, x) \<in> set (list_or (w_identifiers w)) \<longleftrightarrow> identifier_of w n = Some x"
  by (simp add: identifiers_wf_def identifier_of_def jm_get_in)

lemma identifiers_conflict_iff:
  "identifiers_wf a \<Longrightarrow> identifiers_conflict a b \<longleftrightarrow>
     (\<exists>n x y. identifier_of a n = Some x \<and> identifier_of b n = Some y \<and> x \<noteq> [] \<and> y \<noteq> [] \<and> x \<noteq> y)"
proof -
  assume wf: "identifiers_wf a"
  have present: "truthy q \<and> q \<noteq> Some x \<longleftrightarrow> (\<exists>y. q = Some y \<and> y \<noteq> [] \<and> y \<noteq> x)" for q x
    by (cases q) auto
  have "identifiers_conflict a b \<longleftrightarrow> (\<exists>n x. (n, x) \<in> set (list_or (w_identifiers a)) \<and> x \<noteq> []
      \<and> truthy (identifier_of b n) \<and> identifier_of b n \<noteq> Some x)"
    by (auto simp: identifiers_conflict_def list_ex_iff)
  also have "\<dots> \<longleftrightarrow> (\<exists>n x. identifier_of a n = Some x \<and> x \<noteq> [] \<and> (\<exists>y. identifier_of b n = Some y \<and> y \<noteq> [] \<and> y \<noteq> x))"
    by (simp only: identifier_of_entries[OF wf] present conj_assoc)
  finally show ?thesis by (metis (no_types, lifting))
qed

lemma identifiers_agree_iff:
  "identifiers_wf a \<Longrightarrow> identifiers_agree a b \<longleftrightarrow>
     (\<exists>n x. identifier_of a n = Some x \<and> identifier_of b n = Some x \<and> x \<noteq> [])"
proof -
  assume wf: "identifiers_wf a"
  have "identifiers_agree a b \<longleftrightarrow> (\<exists>n x. (n, x) \<in> set (list_or (w_identifiers a)) \<and> x \<noteq> []
      \<and> identifier_of b n = Some x)"
    by (auto simp: identifiers_agree_def list_ex_iff)
  then show ?thesis by (auto simp: identifier_of_entries[OF wf])
qed

lemma same_title_sym: "same_title rt a b = same_title rt b a"
proof (cases "w_category a = w_category b")
  case True
  have share: "list_ex (\<lambda>x. x \<in> set ys) xs = list_ex (\<lambda>x. x \<in> set xs) ys" for xs ys :: "jstring list"
    by (auto simp: list_ex_iff)
  have title: "3 \<le> length s \<and> s = t \<and> P \<longleftrightarrow> 3 \<le> length t \<and> t = s \<and> P" for s t :: jstring and P
    by auto
  have year: "truthy_num x \<and> x = y \<longleftrightarrow> truthy_num y \<and> y = x" for x y
    by auto
  show ?thesis
    unfolding same_title_def True share[of "work_authors rt b"] title[of "normalizeTitle rt (w_title a)"]
      year[of "w_year a"] eq_commute[of "work_seasons a"]
    by (simp only: disj_left_commute)
qed (simp add: same_title_def eq_commute)

lemma list_ex_swap: "list_ex (\<lambda>x. list_ex (P x) ys) xs = list_ex (\<lambda>y. list_ex (\<lambda>x. P x y) xs) ys"
  by (auto simp: list_ex_iff)

lemma years_differ_sym: "years_differ a b = years_differ b a"
  by (auto simp: years_differ_def)

text \<open>
  \<open>sameWork\<close> does not depend on the order of its arguments, for works whose
  Identifiers are maps (every namespace once).
\<close>

theorem sameWork_sym:
  assumes "identifiers_wf a" "identifiers_wf b"
  shows "sameWork rt a b = sameWork rt b a"
proof -
  have pubs: "list_ex (\<lambda>x. list_ex (\<lambda>y. v_sourceId x = v_sourceId y \<and> v_id x = v_id y) (w_variants b)) (w_variants a)
      = list_ex (\<lambda>x. list_ex (\<lambda>y. v_sourceId x = v_sourceId y \<and> v_id x = v_id y) (w_variants a)) (w_variants b)"
    by (subst list_ex_swap) (simp add: eq_commute)
  have hashes: "list_ex (\<lambda>x. list_ex (\<lambda>y. magnetHash rt x \<noteq> None \<and> magnetHash rt x = magnetHash rt y)
        (w_variants b)) (w_variants a)
      = list_ex (\<lambda>x. list_ex (\<lambda>y. magnetHash rt x \<noteq> None \<and> magnetHash rt x = magnetHash rt y)
        (w_variants a)) (w_variants b)"
    by (auto simp: list_ex_iff) metis+
  have conflict: "identifiers_conflict a b = identifiers_conflict b a"
    unfolding identifiers_conflict_iff[OF assms(1)] identifiers_conflict_iff[OF assms(2)] by metis
  have agree: "identifiers_agree a b = identifiers_agree b a"
    unfolding identifiers_agree_iff[OF assms(1)] identifiers_agree_iff[OF assms(2)] by metis
  have cats: "(w_category a \<noteq> AnyCategory \<and> w_category b \<noteq> AnyCategory \<and> w_category a \<noteq> w_category b)
      = (w_category b \<noteq> AnyCategory \<and> w_category a \<noteq> AnyCategory \<and> w_category b \<noteq> w_category a)"
    by metis
  show ?thesis
    unfolding sameWork_def pubs hashes conflict agree cats same_title_sym[of rt a b] years_differ_sym[of a b]
    by (simp only: eq_commute[of "w_id a"] disj_commute[of "isUserUpload a"])
qed

definition sample_game :: "string \<Rightarrow> string \<Rightarrow> work" where
  "sample_game i title = new_work (js i) (js title) Games
     [new_variant (js i) (js ''s'') (js ''S'') (js title) (js ''u'') File]"

theorem sameWork_sym_witness:
  "sameWork sample_runtime (sample_game ''1'' ''Quake'') (sample_game ''2'' ''QUAKE'')
   \<and> sameWork sample_runtime (sample_game ''2'' ''QUAKE'') (sample_game ''1'' ''Quake'')"
proof -
  have "sameWork sample_runtime (sample_game ''1'' ''Quake'') (sample_game ''2'' ''QUAKE'')" by code_simp
  moreover have "identifiers_wf (sample_game i t)" for i t
    by (simp add: identifiers_wf_def sample_game_def new_work_def)
  ultimately show ?thesis
    using sameWork_sym[of "sample_game ''1'' ''Quake''" "sample_game ''2'' ''QUAKE''" sample_runtime] by simp
qed

lemma matchingCatalog_Some:
  assumes "matchingCatalog rt p catalog = Some w"
  shows "filter (catalog_match rt p) catalog = [w]"
  using assms by (simp add: matchingCatalog_def split: if_splits list.splits)

text \<open>
  A publication is attached to a catalog work only when the choice is forced: the work
  is in the catalog, has the publication's category and no other year, every other
  catalog entry fails to match, and the publication is all torrents or a full episode upload.
\<close>

theorem matchingCatalog_unique:
  assumes "matchingCatalog rt p catalog = Some w"
  shows "w \<in> set catalog \<and> (\<forall>x \<in> set catalog. catalog_match rt p x \<longleftrightarrow> x = w)
     \<and> (w_category p = AnyCategory \<or> w_category w = w_category p) \<and> \<not> years_differ p w
     \<and> (list_all (\<lambda>v. v_transport v = Torrent) (w_variants p) \<or> is_episode_upload p)"
proof -
  have f: "filter (catalog_match rt p) catalog = [w]" by (rule matchingCatalog_Some[OF assms])
  then have "{x \<in> set catalog. catalog_match rt p x} = {w}" by (metis list.simps(15) list.set(1) set_filter)
  then have m: "w \<in> set catalog" "\<forall>x \<in> set catalog. catalog_match rt p x \<longleftrightarrow> x = w" by auto
  then have "catalog_match rt p w" by blast
  then have "w_category p = AnyCategory \<or> w_category w = w_category p" "\<not> years_differ p w"
    by (auto simp: catalog_match_def split: if_splits)
  with m assms show ?thesis by (auto simp: matchingCatalog_def split: if_splits)
qed

theorem matchingCatalog_unique_witness:
  "matchingCatalog sample_runtime
     (new_work (js ''t'') (js ''x'') Games [new_variant (js ''t'') (js ''s'') (js ''S'') (js ''Quake II v1'') [] Torrent])
     [sample_game ''1'' ''Doom 2'', sample_game ''2'' ''Quake II''] = Some (sample_game ''2'' ''Quake II'')
   \<and> \<not> catalog_match sample_runtime
     (new_work (js ''t'') (js ''x'') Games [new_variant (js ''t'') (js ''s'') (js ''S'') (js ''Quake II v1'') [] Torrent])
     (sample_game ''1'' ''Doom 2'')"
proof -
  let ?p = "new_work (js ''t'') (js ''x'') Games [new_variant (js ''t'') (js ''s'') (js ''S'') (js ''Quake II v1'') [] Torrent]"
  let ?cs = "[sample_game ''1'' ''Doom 2'', sample_game ''2'' ''Quake II'']"
  have some: "matchingCatalog sample_runtime ?p ?cs = Some (sample_game ''2'' ''Quake II'')" by code_simp
  have "sample_game ''1'' ''Doom 2'' \<noteq> sample_game ''2'' ''Quake II''"
    by (simp add: sample_game_def new_work_def)
  with matchingCatalog_unique[OF some] some show ?thesis by auto
qed

end
