(* ===== verification/Results.thy ===== *)
theory Results
  imports Matching
begin

text \<open>
  The class \<open>SearchResults\<close> of \<open>results.ts\<close>: publications as the sources report them,
  the works built from them, and the events that keep a listener's list of works in step.
  \<open>publish\<close> rebuilds the works from the publications in two phases: same works are
  merged, then torrents and episode uploads are attached to the catalog work they name.
  The source compares works by their JSON text; the model compares the values.
\<close>

record search_results =
  sr_works :: "(jstring, work) jmap"
  sr_publications :: "(jstring, work) jmap"
  sr_queries :: "search_query list"
  sr_language :: "jstring option"

datatype search_event =
    ResultEvent work nat
  | RemoveResult jstring "jstring option"

section \<open>Queries\<close>

definition new_results :: "runtime \<Rightarrow> jstring \<Rightarrow> jstring option \<Rightarrow> search_results" where
  "new_results rt query language =
     \<lparr>sr_works = [], sr_publications = [], sr_queries = [searchQuery rt query], sr_language = language\<rparr>"

definition addQuery :: "runtime \<Rightarrow> jstring \<Rightarrow> search_results \<Rightarrow> search_results" where
  "addQuery rt query st =
     (let parsed = searchQuery rt query
      in if q_words parsed \<noteq> []
            \<and> \<not> list_ex (\<lambda>q. normalizeTitle rt (q_title q) = normalizeTitle rt (q_title parsed)) (sr_queries st)
         then st\<lparr>sr_queries := sr_queries st @ [parsed]\<rparr> else st)"

definition find_work :: "runtime \<Rightarrow> work \<Rightarrow> search_results \<Rightarrow> work option" where
  "find_work rt w st =
     (case jm_get (sr_works st) (w_id w) of
        Some found \<Rightarrow> Some found
      | None \<Rightarrow> find (\<lambda>candidate. sameWork rt candidate w) (jm_values (sr_works st)))"

section \<open>Relevance\<close>

text \<open>\<open>/\s*[|/]\s*/\<close>\<close>

definition title_bar_rx :: rx where
  "title_bar_rx = RSeqs [RSpaces, RCh (\<lambda>c. c = 124 \<or> c = 47), RSpaces]"

text \<open>\<open>/\s*[([][^()[\]]*(?:19|20)\d{2}[^()[\]]*[)\]]\s*$/\<close>\<close>

definition release_metadata_rx :: rx where
  "release_metadata_rx =
     (let plain = RStar True (RCh (\<lambda>c. c \<notin> {40, 41, 91, 93}))
      in RSeqs [RSpaces, RCh (\<lambda>c. c = 40 \<or> c = 91), plain, year_rx, plain, RCh (\<lambda>c. c = 41 \<or> c = 93),
           RSpaces, REol])"

definition query_title :: "runtime \<Rightarrow> search_results \<Rightarrow> jstring" where
  "query_title rt st = normalizeTitle rt (q_title (hd (sr_queries st)))"

text \<open>The query's title with its year, when it has one.\<close>

definition query_literal :: "runtime \<Rightarrow> search_results \<Rightarrow> jstring" where
  "query_literal rt st =
     (case q_year (hd (sr_queries st)) of
        None \<Rightarrow> query_title rt st
      | Some y \<Rightarrow> if y = 0 then query_title rt st else query_title rt st @ js '' '' @ to_dec y)"

definition exact_name :: "runtime \<Rightarrow> search_results \<Rightarrow> jstring \<Rightarrow> bool" where
  "exact_name rt st name \<longleftrightarrow> normalizeTitle rt name \<in> {query_title rt st, query_literal rt st}"

text \<open>One label of a name: whether it shows a release year and the exact title.\<close>

definition label_step :: "runtime \<Rightarrow> search_results \<Rightarrow> jstring \<Rightarrow> bool \<times> bool \<Rightarrow> bool \<times> bool" where
  "label_step rt st label flags =
     (let (releaseYear, exactTitle) = flags;
          metadata = rx_exec release_metadata_rx label;
          plain = (case metadata of None \<Rightarrow> label | Some f \<Rightarrow> take (f_index f) label);
          year' = (releaseYear \<or> metadata \<noteq> None)
      in if exact_name rt st plain then (year', True)
         else let parsed = searchQuery rt plain
              in if q_year parsed \<notin> {None, Some 0} \<and> normalizeTitle rt (q_title parsed) = query_title rt st
                 then (True, True) else (year', exactTitle))"

definition release_name :: "runtime \<Rightarrow> search_results \<Rightarrow> jstring \<Rightarrow> bool" where
  "release_name rt st name =
     (let (releaseYear, exactTitle) = fold (label_step rt st) (rx_split title_bar_rx name) (False, False)
      in releaseYear \<and> exactTitle)"

definition relevance :: "runtime \<Rightarrow> search_results \<Rightarrow> work \<Rightarrow> nat" where
  "relevance rt st w =
     (let names = w_title w # list_or (w_aliases w)
      in if \<not> isUserUpload w
         then (if list_ex (exact_name rt st) names then 2
               else if queryMatches rt (hd (sr_queries st)) names (w_year w) then 1 else 0)
         else if \<not> list_ex (\<lambda>v. num_or_zero (v_duration v) \<ge> 40 * 60) (w_variants w) then 0
         else if list_ex (exact_name rt st) names then 1
         else if list_ex (release_name rt st) names then 1 else 0)"

section \<open>Publishing\<close>

definition store_work :: "runtime \<Rightarrow> jstring option \<Rightarrow> work \<Rightarrow> (jstring, work) jmap \<Rightarrow> (jstring, work) jmap" where
  "store_work rt language w works =
     (let w' = w\<lparr>w_variants := rankVariants rt (mergeVariants (w_variants w)) language (Some w)\<rparr>
      in jm_set (w_id w') w' works)"

definition is_catalog :: "work \<Rightarrow> bool" where
  "is_catalog w \<longleftrightarrow> \<not> isUserUpload w \<and> list_ex (\<lambda>v. v_transport v \<noteq> Torrent) (w_variants w)"

text \<open>Phase one: a publication joins the first work that is the same, or becomes a work.\<close>

definition place :: "runtime \<Rightarrow> jstring option \<Rightarrow> work \<Rightarrow> (jstring, work) jmap \<Rightarrow> (jstring, work) jmap" where
  "place rt language incoming works =
     (case find (\<lambda>w. sameWork rt w incoming) (jm_values works) of
        None \<Rightarrow> store_work rt language incoming works
      | Some target \<Rightarrow>
          (let catalog = is_catalog incoming;
               base = (if catalog then mergeWorkMetadata (Some target) incoming else target);
               works' = store_work rt language
                 (base\<lparr>w_id := (if catalog then w_id incoming else w_id target),
                       w_notes := Some (mergeNotes [w_notes target, w_notes incoming]),
                       w_variants := w_variants target @ w_variants incoming\<rparr>) works
           in if catalog \<and> w_id target \<noteq> w_id incoming then jm_delete (w_id target) works' else works'))"

text \<open>
  Phase two: a publication moves into its catalog work. \<open>None\<close> stands for the exception
  that reading an absent catalog work would raise.
\<close>

definition associate :: "runtime \<Rightarrow> jstring option \<Rightarrow> work list \<Rightarrow> work \<Rightarrow> (jstring, work) jmap
    \<Rightarrow> (jstring, work) jmap option" where
  "associate rt language catalogs publication works =
     (case matchingCatalog rt publication catalogs of
        None \<Rightarrow> Some works
      | Some catalog \<Rightarrow>
          if w_id catalog = w_id publication then Some works
          else (case jm_get works (w_id catalog) of
              None \<Rightarrow> None
            | Some target \<Rightarrow> Some (store_work rt language
                (target\<lparr>w_notes := Some (mergeNotes [w_notes target, w_notes publication]),
                        w_variants := w_variants target @ catalogVariants rt publication catalog\<rparr>)
                (jm_delete (w_id publication) works))))"

fun associate_all :: "runtime \<Rightarrow> jstring option \<Rightarrow> work list \<Rightarrow> work list \<Rightarrow> (jstring, work) jmap
    \<Rightarrow> (jstring, work) jmap option" where
  "associate_all rt language catalogs [] works = Some works"
| "associate_all rt language catalogs (p # ps) works =
     (case associate rt language catalogs p works of
        None \<Rightarrow> None
      | Some works' \<Rightarrow> associate_all rt language catalogs ps works')"

definition build_works :: "runtime \<Rightarrow> jstring option \<Rightarrow> work list \<Rightarrow> (jstring, work) jmap option" where
  "build_works rt language publications =
     (let placed = fold (place rt language) publications []
      in associate_all rt language (filter is_catalog (jm_values placed)) (jm_values placed) placed)"

definition replacement :: "(jstring, work) jmap \<Rightarrow> work \<Rightarrow> work option" where
  "replacement works removed = find (\<lambda>w. list_all (\<lambda>v. list_ex (\<lambda>u. variantKey u = variantKey v) (w_variants w))
     (w_variants removed)) (jm_values works)"

definition publish_events :: "runtime \<Rightarrow> search_results \<Rightarrow> (jstring, work) jmap \<Rightarrow> (jstring, work) jmap
    \<Rightarrow> search_event list" where
  "publish_events rt st previous works =
     map (\<lambda>(i, w). ResultEvent w (relevance rt st w))
       (filter (\<lambda>(i, w). jm_get previous i \<noteq> Some w) works)
     @ map (\<lambda>(i, w). RemoveResult i (map_option w_id (replacement works w)))
       (filter (\<lambda>(i, w). \<not> jm_has works i) previous)"

definition publish :: "runtime \<Rightarrow> search_results \<Rightarrow> (search_results \<times> search_event list) option" where
  "publish rt st =
     (case build_works rt (sr_language st) (jm_values (sr_publications st)) of
        None \<Rightarrow> None
      | Some works \<Rightarrow> Some (st\<lparr>sr_works := works\<rparr>, publish_events rt st (sr_works st) works))"

section \<open>Adding a publication\<close>

definition work_names :: "work \<Rightarrow> jstring list" where
  "work_names w = w_title w # list_or (w_aliases w) @ map v_title (w_variants w)"

definition accepts :: "runtime \<Rightarrow> search_results \<Rightarrow> work \<Rightarrow> bool" where
  "accepts rt st w \<longleftrightarrow> w_id w \<noteq> [] \<and> w_title w \<noteq> [] \<and> w_variants w \<noteq> []
     \<and> queryYearMatches rt (hd (sr_queries st)) (work_names w) (w_year w)
     \<and> list_ex (\<lambda>q. queryMatches rt q (work_names w) (w_year w)) (sr_queries st)"

definition merge_publication :: "work option \<Rightarrow> work \<Rightarrow> work" where
  "merge_publication previous incoming =
     (mergeWorkMetadata previous incoming)\<lparr>w_variants := mergeVariants
        ((case previous of None \<Rightarrow> [] | Some p \<Rightarrow> w_variants p) @ w_variants incoming)\<rparr>"

definition add_work :: "runtime \<Rightarrow> work \<Rightarrow> search_results
    \<Rightarrow> (bool \<times> search_results \<times> search_event list) option" where
  "add_work rt incoming st =
     (if \<not> accepts rt st incoming then Some (False, st, [])
      else let previous = jm_get (sr_publications st) (w_id incoming);
               publication = merge_publication previous incoming
           in if previous = Some publication then Some (True, st, [])
              else map_option (\<lambda>(st', es). (True, st', es))
                (publish rt (st\<lparr>sr_publications := jm_set (w_id incoming) publication (sr_publications st)\<rparr>)))"

section \<open>Aliases\<close>

definition title_aliases :: "runtime \<Rightarrow> jstring \<Rightarrow> search_results \<Rightarrow> jstring list" where
  "title_aliases rt query st =
     (let exact = normalizeTitle rt (q_title (searchQuery rt query));
          catalogs = filter (Not \<circ> isUserUpload) (jm_values (sr_works st));
          names_of = (\<lambda>w. w_title w # list_or (w_aliases w));
          exactMatches = filter (\<lambda>w. list_ex (\<lambda>n. normalizeTitle rt n = exact) (names_of w)) catalogs;
          candidates = (if exactMatches \<noteq> [] then exactMatches
                        else if length catalogs = 1 then catalogs else []);
          entries = concat (map (\<lambda>w. map (\<lambda>n. (normalizeTitle rt n,
              (n, w_category w \<in> {Books, Manga}
                  \<and> list_ex (\<lambda>c. rt_cjk rt c \<or> rt_hangul rt c) (code_points n))))
            (filter (\<lambda>n. normalizeTitle rt n \<noteq> exact) (names_of w))) candidates)
      in map fst (take 3 (sort_desc (\<lambda>a. if snd a then 1 else 0 :: int) (jm_values (jm_of entries)))))"

definition results_size :: "search_results \<Rightarrow> nat" where
  "results_size st = length (sr_works st)"

section \<open>Works are keyed by their identifiers\<close>

definition works_wf :: "(jstring, work) jmap \<Rightarrow> bool" where
  "works_wf m \<longleftrightarrow> jm_inv m \<and> (\<forall>(i, w) \<in> set m. i = w_id w)"

definition work_keys :: "work \<Rightarrow> jstring set" where
  "work_keys w = variantKey ` set (w_variants w)"

definition all_keys :: "(jstring, work) jmap \<Rightarrow> jstring set" where
  "all_keys m = (\<Union>(i, w) \<in> set m. work_keys w)"

lemma works_wf_Nil [simp]: "works_wf []"
  by (simp add: works_wf_def)

lemma works_wf_set [simp]: "works_wf m \<Longrightarrow> i = w_id w \<Longrightarrow> works_wf (jm_set i w m)"
  by (auto simp: works_wf_def jm_set_pairs)

lemma works_wf_delete [simp]: "works_wf m \<Longrightarrow> works_wf (jm_delete i m)"
  by (auto simp: works_wf_def jm_delete_pairs)

lemma works_wf_get: "works_wf m \<Longrightarrow> jm_get m i = Some w \<Longrightarrow> w_id w = i"
  by (auto simp: works_wf_def dest!: jm_get_in_set)

lemma works_wf_value: "works_wf m \<Longrightarrow> w \<in> set (jm_values m) \<Longrightarrow> jm_get m (w_id w) = Some w"
  by (auto simp: works_wf_def jm_values_def jm_get_in)

lemma works_wf_values: "works_wf m \<Longrightarrow> map w_id (jm_values m) = map fst m"
  by (auto simp: works_wf_def jm_values_def)

text \<open>What is left of the keys when one entry is taken out, and when it is replaced.\<close>

definition other_keys :: "jstring \<Rightarrow> (jstring, work) jmap \<Rightarrow> jstring set" where
  "other_keys i m = (\<Union>(j, w) \<in> {p \<in> set m. fst p \<noteq> i}. work_keys w)"

lemma all_keys_set: "works_wf m \<Longrightarrow> all_keys (jm_set i w m) = work_keys w \<union> other_keys i m"
  by (auto simp: all_keys_def other_keys_def jm_set_pairs works_wf_def)

lemma all_keys_get: "works_wf m \<Longrightarrow> jm_get m i = Some w \<Longrightarrow> all_keys m = work_keys w \<union> other_keys i m"
  by (fastforce simp: all_keys_def other_keys_def works_wf_def jm_get_in jm_inv_def
      dest: eq_key_imp_eq_value[of m])

lemma all_keys_fresh: "i \<notin> set (map fst m) \<Longrightarrow> other_keys i m = all_keys m"
  by (force simp: all_keys_def other_keys_def)

lemma all_keys_delete: "all_keys (jm_delete i m) = other_keys i m"
  by (simp add: all_keys_def other_keys_def jm_delete_pairs)

lemma other_keys_delete: "i \<noteq> j \<Longrightarrow> other_keys i m = (\<Union>(k, w) \<in> {p \<in> set m. fst p = j}. work_keys w) \<union> other_keys i (jm_delete j m)"
  by (auto simp: other_keys_def jm_delete_pairs)

section \<open>One publication\<close>

definition ranked :: "runtime \<Rightarrow> jstring option \<Rightarrow> work \<Rightarrow> work" where
  "ranked rt language w = w\<lparr>w_variants := rankVariants rt (mergeVariants (w_variants w)) language (Some w)\<rparr>"

lemma ranked_simps [simp]: "w_id (ranked rt language w) = w_id w"
  by (simp add: ranked_def)

lemma ranked_keys [simp]: "work_keys (ranked rt language w) = work_keys w"
  by (simp add: ranked_def work_keys_def rank_merge_keys)

lemma store_work_ranked: "store_work rt language w works = jm_set (w_id w) (ranked rt language w) works"
  by (simp add: store_work_def ranked_def Let_def)

definition once :: "work \<Rightarrow> bool" where
  "once w \<longleftrightarrow> distinct (map variantKey (w_variants w))"

lemma ranked_once [simp]: "once (ranked rt language w)"
  by (simp add: once_def ranked_def rank_merge_keys)

lemma work_keys_simps [simp]:
  "work_keys (w\<lparr>w_id := i\<rparr>) = work_keys w" "work_keys (w\<lparr>w_notes := n\<rparr>) = work_keys w"
  "work_keys (w\<lparr>w_variants := vs\<rparr>) = variantKey ` set vs"
  by (simp_all add: work_keys_def)

text \<open>The work that a publication joins, and the place where it is stored.\<close>

definition joined :: "work \<Rightarrow> work \<Rightarrow> work" where
  "joined target incoming =
     ((if is_catalog incoming then mergeWorkMetadata (Some target) incoming else target)
        \<lparr>w_id := (if is_catalog incoming then w_id incoming else w_id target),
         w_notes := Some (mergeNotes [w_notes target, w_notes incoming]),
         w_variants := w_variants target @ w_variants incoming\<rparr>)"

lemma joined_simps [simp]:
  "w_id (joined t i) = (if is_catalog i then w_id i else w_id t)"
  "work_keys (joined t i) = work_keys t \<union> work_keys i"
  by (auto simp: joined_def work_keys_def)

lemma place_cases:
  "place rt language incoming works =
     (case find (\<lambda>w. sameWork rt w incoming) (jm_values works) of
        None \<Rightarrow> jm_set (w_id incoming) (ranked rt language incoming) works
      | Some target \<Rightarrow>
          if is_catalog incoming
          then (if w_id target \<noteq> w_id incoming
                then jm_delete (w_id target) (jm_set (w_id incoming) (ranked rt language (joined target incoming)) works)
                else jm_set (w_id incoming) (ranked rt language (joined target incoming)) works)
          else jm_set (w_id target) (ranked rt language (joined target incoming)) works)"
  by (auto simp: place_def joined_def store_work_ranked Let_def split: option.splits)

definition all_once :: "(jstring, work) jmap \<Rightarrow> bool" where
  "all_once m \<longleftrightarrow> (\<forall>(i, w) \<in> set m. once w)"

lemma all_once_set: "jm_inv m \<Longrightarrow> all_once m \<Longrightarrow> once w \<Longrightarrow> all_once (jm_set i w m)"
  by (auto simp: all_once_def jm_set_pairs)

lemma all_once_delete: "all_once m \<Longrightarrow> all_once (jm_delete i m)"
  by (auto simp: all_once_def jm_delete_pairs)

lemma works_wf_inv: "works_wf m \<Longrightarrow> jm_inv m"
  by (simp add: works_wf_def)

lemma find_value:
  assumes "works_wf m" "find P (jm_values m) = Some w"
  shows "jm_get m (w_id w) = Some w"
  using assms by (auto intro: works_wf_value dest: find_Some_in)

lemma place_spec:
  assumes wf: "works_wf m" and once: "all_once m" and fresh: "w_id incoming \<notin> set (map fst m)"
    and m'_def: "m' = place rt language incoming m"
  shows "works_wf m' \<and> all_once m' \<and> all_keys m' = work_keys incoming \<union> all_keys m
     \<and> set (map fst m') \<subseteq> insert (w_id incoming) (set (map fst m))"
proof (cases "find (\<lambda>w. sameWork rt w incoming) (jm_values m)")
  case None
  then have m': "m' = jm_set (w_id incoming) (ranked rt language incoming) m" by (simp add: m'_def place_cases)
  show ?thesis
    unfolding m' using wf once fresh
    by (simp add: all_keys_set all_once_set works_wf_inv all_keys_fresh jm_keys_set del: set_map)
next
  case (Some t)
  have get: "jm_get m (w_id t) = Some t" by (rule find_value[OF wf Some])
  then have mem: "w_id t \<in> set (map fst m)" by (metis jm_get_None option.distinct(1))
  let ?j = "ranked rt language (joined t incoming)"
  show ?thesis
  proof (cases "is_catalog incoming")
    case False
    with Some have m': "m' = jm_set (w_id t) ?j m" by (simp add: m'_def place_cases)
    show ?thesis
      unfolding m' using wf once False mem all_keys_get[OF wf get]
      by (auto simp: all_keys_set all_once_set works_wf_inv jm_keys_set simp del: set_map)
  next
    case True
    from mem fresh have ne: "w_id t \<noteq> w_id incoming" by metis
    let ?s = "jm_set (w_id incoming) ?j m"
    from Some True ne have m': "m' = jm_delete (w_id t) ?s" by (simp add: m'_def place_cases)
    have s: "works_wf ?s" using wf True by simp
    have "other_keys (w_id t) ?s = work_keys ?j \<union> other_keys (w_id t) m"
      using ne by (auto simp: other_keys_def jm_set_fresh[OF fresh])
    then have "all_keys m' = work_keys t \<union> work_keys incoming \<union> other_keys (w_id t) m"
      by (simp add: m' all_keys_delete)
    with all_keys_get[OF wf get] s once wf ne show ?thesis
      by (auto simp: m' all_once_delete all_once_set works_wf_inv jm_keys_set jm_keys_delete simp del: set_map)
  qed
qed

lemma fold_place_spec:
  assumes "works_wf m" "all_once m" "distinct (map w_id ps)" "set (map w_id ps) \<inter> set (map fst m) = {}"
  shows "works_wf (fold (place rt language) ps m) \<and> all_once (fold (place rt language) ps m)
     \<and> all_keys (fold (place rt language) ps m) = \<Union> (work_keys ` set ps) \<union> all_keys m"
  using assms
proof (induction ps arbitrary: m)
  case (Cons p ps)
  let ?m = "place rt language p m"
  have fresh: "w_id p \<notin> set (map fst m)" using Cons.prems(4) by auto
  note sp = place_spec[OF Cons.prems(1,2) fresh refl, of rt language]
  have disj: "set (map w_id ps) \<inter> set (map fst ?m) = {}"
  proof -
    have "w_id p \<notin> set (map w_id ps)" "set (map w_id ps) \<inter> set (map fst m) = {}"
      using Cons.prems(3,4) by auto
    moreover have "set (map fst ?m) \<subseteq> insert (w_id p) (set (map fst m))" using sp by blast
    ultimately show ?thesis by blast
  qed
  have "distinct (map w_id ps)" using Cons.prems(3) by simp
  with Cons.IH[of ?m] sp disj show ?case by (auto simp del: set_map)
qed simp

section \<open>Catalog associations\<close>

lemma matched_not_catalog:
  assumes "matchingCatalog rt p catalogs = Some c"
  shows "\<not> is_catalog p"
proof -
  have "is_episode_upload p \<or> list_all (\<lambda>v. v_transport v = Torrent) (w_variants p)"
    using assms by (auto simp: matchingCatalog_def split: if_splits)
  then show ?thesis
    by (auto simp: is_catalog_def is_episode_upload_def list_all_iff list_ex_iff)
qed

lemma matched_in: "matchingCatalog rt p catalogs = Some c \<Longrightarrow> c \<in> set catalogs"
  using matchingCatalog_Some[of rt p catalogs c] filter_eq_ConsD[of "catalog_match rt p" catalogs c "[]"] by auto

lemma catalogVariants_keys [simp]: "variantKey ` set (catalogVariants rt p c) = work_keys p"
proof -
  have "map variantKey (catalogVariants rt p c) = map variantKey (w_variants p)"
    by (auto simp: catalogVariants_def variantKey_def split: option.splits)
  then show ?thesis by (metis set_map work_keys_def)
qed

text \<open>
  The invariant of phase two: the works that still wait are untouched, and catalog works
  are never removed.
\<close>

definition associate_inv :: "work list \<Rightarrow> jstring set \<Rightarrow> work list \<Rightarrow> (jstring, work) jmap \<Rightarrow> bool" where
  "associate_inv current ks ps m \<longleftrightarrow> works_wf m \<and> all_once m \<and> all_keys m = ks
     \<and> set ps \<subseteq> set current \<and> distinct (map w_id ps) \<and> inj_on w_id (set current)
     \<and> (\<forall>c \<in> set current. is_catalog c \<longrightarrow> jm_get m (w_id c) \<noteq> None)
     \<and> (\<forall>p \<in> set ps. \<not> is_catalog p \<longrightarrow> jm_get m (w_id p) = Some p)"

lemma associate_step:
  assumes inv: "associate_inv current ks (p # ps) m"
  shows "\<exists>m'. associate rt language (filter is_catalog current) p m = Some m' \<and> associate_inv current ks ps m'"
proof -
  let ?cats = "filter is_catalog current"
  have rest: "associate_inv current ks ps m" using inv by (auto simp: associate_inv_def)
  show ?thesis
  proof (cases "matchingCatalog rt p ?cats")
    case None
    with rest show ?thesis by (simp add: associate_def)
  next
    case (Some c)
    show ?thesis
    proof (cases "w_id c = w_id p")
      case True
      with Some rest show ?thesis by (simp add: associate_def)
    next
      case False
      have np: "\<not> is_catalog p" by (rule matched_not_catalog[OF Some])
      have c: "c \<in> set current" "is_catalog c" using matched_in[OF Some] by auto
      with inv obtain t where t: "jm_get m (w_id c) = Some t" by (auto simp: associate_inv_def)
      have p: "jm_get m (w_id p) = Some p" "p \<in> set current" using inv np by (auto simp: associate_inv_def)
      have wf: "works_wf m" "all_once m" using inv by (auto simp: associate_inv_def)
      have tid: "w_id t = w_id c" by (rule works_wf_get[OF wf(1) t])
      let ?t = "t\<lparr>w_notes := Some (mergeNotes [w_notes t, w_notes p]),
          w_variants := w_variants t @ catalogVariants rt p c\<rparr>"
      let ?d = "jm_delete (w_id p) m"
      let ?m = "jm_set (w_id c) (ranked rt language ?t) ?d"
      have eq: "associate rt language ?cats p m = Some ?m"
        using Some False t by (simp add: associate_def store_work_ranked tid)
      have td: "jm_get ?d (w_id c) = Some t" using t False by simp
      have "all_keys ?m = work_keys t \<union> work_keys p \<union> other_keys (w_id c) ?d"
        using wf by (simp add: all_keys_set image_Un work_keys_def[symmetric] flip: work_keys_def)
      also have "\<dots> = work_keys p \<union> all_keys ?d"
        using all_keys_get[OF works_wf_delete[OF wf(1)] td] by auto
      also have "\<dots> = all_keys m"
        using all_keys_get[OF wf(1) p(1)] by (simp add: all_keys_delete)
      finally have keys: "all_keys ?m = ks" using inv by (simp add: associate_inv_def)
      have "works_wf ?m" "all_once ?m"
        using wf tid by (simp_all add: all_once_set all_once_delete works_wf_inv)
      moreover have "jm_get ?m (w_id q) = Some q" if "q \<in> set ps" "\<not> is_catalog q" for q
      proof -
        have "w_id p \<notin> w_id ` set ps" using inv by (simp add: associate_inv_def)
        with that have "w_id q \<noteq> w_id p" by (metis imageI)
        moreover have "w_id q \<noteq> w_id c"
          using inv that c unfolding associate_inv_def inj_on_def by (metis set_subset_Cons subsetD)
        ultimately show ?thesis using inv that by (simp add: associate_inv_def)
      qed
      moreover have "jm_get ?m (w_id q) \<noteq> None" if "q \<in> set current" "is_catalog q" for q
      proof -
        have "w_id q \<noteq> w_id p" using inv that p np unfolding associate_inv_def inj_on_def by metis
        then show ?thesis using inv that by (simp add: associate_inv_def)
      qed
      ultimately have "associate_inv current ks ps ?m"
        using keys rest by (simp add: associate_inv_def)
      with eq show ?thesis by blast
    qed
  qed
qed

lemma associate_all_spec:
  "associate_inv current ks ps m \<Longrightarrow>
     \<exists>m'. associate_all rt language (filter is_catalog current) ps m = Some m' \<and> works_wf m' \<and> all_once m'
       \<and> all_keys m' = ks"
proof (induction ps arbitrary: m)
  case (Cons p ps)
  from associate_step[OF Cons.prems, of rt language] Cons.IH show ?case by fastforce
qed (simp add: associate_inv_def)

lemma build_works_spec:
  assumes "distinct (map w_id ps)"
  shows "\<exists>m. build_works rt language ps = Some m \<and> works_wf m \<and> all_once m \<and> all_keys m = \<Union> (work_keys ` set ps)"
proof -
  let ?m = "fold (place rt language) ps []"
  have m: "works_wf ?m" "all_once ?m" "all_keys ?m = \<Union> (work_keys ` set ps)"
    using fold_place_spec[of "[]" ps rt language] assms by (auto simp: all_once_def all_keys_def)
  have dist: "distinct (map w_id (jm_values ?m))"
    using m(1) by (simp add: works_wf_values works_wf_def jm_inv_def)
  then have "associate_inv (jm_values ?m) (\<Union> (work_keys ` set ps)) (jm_values ?m) ?m"
    using m works_wf_value[OF m(1)] by (auto simp: associate_inv_def distinct_map)
  from associate_all_spec[OF this, of rt language] show ?thesis by (simp add: build_works_def Let_def)
qed

section \<open>Events\<close>

text \<open>A listener applies the events to its own list of works.\<close>

fun apply_event :: "search_event \<Rightarrow> (jstring \<Rightarrow> work option) \<Rightarrow> (jstring \<Rightarrow> work option)" where
  "apply_event (ResultEvent w r) shown = shown(w_id w \<mapsto> w)"
| "apply_event (RemoveResult i j) shown = shown(i := None)"

lemma apply_results:
  "distinct (map fst ws) \<Longrightarrow> \<forall>(i, w) \<in> set ws. i = w_id w \<Longrightarrow>
     fold apply_event (map (\<lambda>(i, w). ResultEvent w (r w)) ws) shown i =
       (case map_of ws i of None \<Rightarrow> shown i | Some w \<Rightarrow> Some w)"
proof (induction ws arbitrary: shown)
  case (Cons p ws)
  obtain j w where p: "p = (j, w)" by fastforce
  with Cons.prems have "map_of ws j = None" by (simp add: map_of_eq_None_iff)
  with Cons p show ?case by (auto split: option.splits)
qed simp

lemma apply_removals:
  "fold apply_event (map (\<lambda>(i, w). RemoveResult i (g w)) ws) shown i =
     (if i \<in> set (map fst ws) then None else shown i)"
  by (induction ws arbitrary: shown) auto

lemma distinct_map_filter_fst: "distinct (map fst m) \<Longrightarrow> distinct (map fst (filter P m))"
  by (simp add: distinct_map_filter)

lemma publish_events_replay:
  assumes "works_wf previous" "works_wf works"
  shows "fold apply_event (publish_events rt st previous works) (jm_get previous) = jm_get works"
proof
  fix i
  let ?new = "filter (\<lambda>(i, w). jm_get previous i \<noteq> Some w) works"
  let ?gone = "filter (\<lambda>(i, w). \<not> jm_has works i) previous"
  have d: "distinct (map fst ?new)" using assms(2) by (simp add: works_wf_def jm_inv_def distinct_map_filter)
  have k: "\<forall>(i, w) \<in> set ?new. i = w_id w" using assms(2) by (auto simp: works_wf_def)
  have gone: "i \<in> set (map fst ?gone) \<longleftrightarrow> jm_get previous i \<noteq> None \<and> jm_get works i = None"
    using jm_get_None[of previous i] by (force simp: jm_has_def)
  have new: "map_of ?new i = (if jm_get works i = jm_get previous i then None else jm_get works i)"
  proof (cases "map_of ?new i")
    case None
    then have "\<And>w. (i, w) \<in> set works \<Longrightarrow> jm_get previous i = Some w"
      by (force simp: map_of_eq_None_iff)
    with None assms(2) show ?thesis
      by (cases "jm_get works i") (auto simp: jm_get_in[OF works_wf_inv[OF assms(2)]])
  next
    case (Some w)
    then have "(i, w) \<in> set ?new" by (rule map_of_SomeD)
    then have "jm_get works i = Some w" "jm_get previous i \<noteq> Some w"
      by (auto simp: jm_get_in[OF works_wf_inv[OF assms(2)]])
    with Some show ?thesis by auto
  qed
  show "fold apply_event (publish_events rt st previous works) (jm_get previous) i = jm_get works i"
    unfolding publish_events_def fold_append comp_def
    by (auto simp: apply_removals gone apply_results[OF d k] new split: option.splits simp del: set_map)
qed

section \<open>Runs\<close>

definition results_inv :: "search_results \<Rightarrow> bool" where
  "results_inv st \<longleftrightarrow> works_wf (sr_works st) \<and> all_once (sr_works st) \<and> works_wf (sr_publications st)
     \<and> sr_queries st \<noteq> [] \<and> all_keys (sr_works st) = all_keys (sr_publications st)"

lemma merge_publication_simps [simp]:
  "w_id (merge_publication p w) = w_id w"
  "work_keys (merge_publication p w) = (case p of None \<Rightarrow> {} | Some q \<Rightarrow> work_keys q) \<union> work_keys w"
  by (auto simp: merge_publication_def mergeWorkMetadata_def work_keys_def mergeVariants_keys image_Un
      split: option.splits)

lemma all_keys_values: "all_keys m = \<Union> (work_keys ` set (jm_values m))"
  by (auto simp: all_keys_def jm_values_def)

lemma publish_spec:
  assumes "works_wf (sr_works st)" "works_wf (sr_publications st)" "sr_queries st \<noteq> []"
  shows "\<exists>st' es. publish rt st = Some (st', es) \<and> results_inv st'
     \<and> sr_publications st' = sr_publications st \<and> sr_queries st' = sr_queries st
     \<and> fold apply_event es (jm_get (sr_works st)) = jm_get (sr_works st')"
proof -
  have "distinct (map w_id (jm_values (sr_publications st)))"
    using assms(2) works_wf_values[OF assms(2)] by (simp add: works_wf_def jm_inv_def)
  from build_works_spec[OF this, of rt "sr_language st"] obtain m where
    m: "build_works rt (sr_language st) (jm_values (sr_publications st)) = Some m" "works_wf m" "all_once m"
      "all_keys m = all_keys (sr_publications st)"
    by (auto simp: all_keys_values[of "sr_publications st"])
  with assms show ?thesis
    by (simp add: publish_def results_inv_def publish_events_replay)
qed

lemma add_work_spec:
  assumes inv: "results_inv st"
  shows "\<exists>b st' es. add_work rt w st = Some (b, st', es) \<and> results_inv st'
     \<and> fold apply_event es (jm_get (sr_works st)) = jm_get (sr_works st')
     \<and> all_keys (sr_works st') = all_keys (sr_works st) \<union> (if b then work_keys w else {})"
proof -
  let ?p = "jm_get (sr_publications st) (w_id w)"
  let ?new = "merge_publication ?p w"
  have wf: "works_wf (sr_publications st)" using inv by (simp add: results_inv_def)
  have old: "all_keys (sr_publications st) = (case ?p of None \<Rightarrow> {} | Some q \<Rightarrow> work_keys q)
      \<union> other_keys (w_id w) (sr_publications st)"
    using all_keys_get[OF wf] all_keys_fresh[of "w_id w"] jm_get_None[of "sr_publications st" "w_id w"]
    by (auto split: option.splits simp del: set_map)
  consider "\<not> accepts rt st w" | "accepts rt st w" "?p = Some ?new" | "accepts rt st w" "?p \<noteq> Some ?new" by blast
  then show ?thesis
  proof cases
    case 1
    then show ?thesis using inv by (intro exI[of _ False] exI[of _ st] exI[of _ "[]"]) (simp add: add_work_def)
  next
    case 2
    have "work_keys w \<subseteq> work_keys ?new" by simp
    also have "work_keys ?new \<subseteq> all_keys (sr_works st)"
      using all_keys_get[OF wf 2(2)] inv by (simp add: results_inv_def)
    finally have "all_keys (sr_works st) = all_keys (sr_works st) \<union> work_keys w" by blast
    with 2 inv show ?thesis
      by (intro exI[of _ True] exI[of _ st] exI[of _ "[]"]) (simp add: add_work_def Let_def)
  next
    case 3
    let ?st = "st\<lparr>sr_publications := jm_set (w_id w) ?new (sr_publications st)\<rparr>"
    have "works_wf (sr_works ?st)" "works_wf (sr_publications ?st)" "sr_queries ?st \<noteq> []"
      using inv wf by (auto simp: results_inv_def)
    from publish_spec[OF this, of rt] obtain st' es where
      pub: "publish rt ?st = Some (st', es)" "results_inv st'" "sr_publications st' = sr_publications ?st"
        "fold apply_event es (jm_get (sr_works st)) = jm_get (sr_works st')"
      by auto
    have "all_keys (sr_works st') = all_keys (jm_set (w_id w) ?new (sr_publications st))"
      using pub(2,3) by (simp add: results_inv_def)
    also have "\<dots> = all_keys (sr_works st) \<union> work_keys w"
      using old inv wf by (auto simp: all_keys_set results_inv_def)
    finally show ?thesis using 3 pub by (auto simp: add_work_def Let_def)
  qed
qed

text \<open>
  A use of \<open>SearchResults\<close>: queries and publications in any order. The run collects the
  events and the publications for which \<open>add\<close> returned true.
\<close>

datatype results_op = OpQuery jstring | OpAdd work

fun run_results :: "runtime \<Rightarrow> results_op list \<Rightarrow> search_results
    \<Rightarrow> (search_results \<times> search_event list \<times> work list) option" where
  "run_results rt [] st = Some (st, [], [])"
| "run_results rt (OpQuery q # ops) st = run_results rt ops (addQuery rt q st)"
| "run_results rt (OpAdd w # ops) st =
     (case add_work rt w st of
        None \<Rightarrow> None
      | Some (b, st', es) \<Rightarrow> map_option (\<lambda>(st'', es', ws). (st'', es @ es', (if b then w # ws else ws)))
          (run_results rt ops st'))"

lemma addQuery_inv: "results_inv st \<Longrightarrow> results_inv (addQuery rt q st) \<and> sr_works (addQuery rt q st) = sr_works st"
  by (auto simp: addQuery_def results_inv_def Let_def)

lemma new_results_inv: "results_inv (new_results rt query language)"
  by (simp add: new_results_def results_inv_def all_once_def all_keys_def)

lemma run_results_spec:
  "results_inv st \<Longrightarrow> \<exists>st' es ws. run_results rt ops st = Some (st', es, ws) \<and> results_inv st'
     \<and> fold apply_event es (jm_get (sr_works st)) = jm_get (sr_works st')
     \<and> all_keys (sr_works st') = all_keys (sr_works st) \<union> \<Union> (work_keys ` set ws)"
proof (induction ops arbitrary: st)
  case (Cons op ops)
  show ?case
  proof (cases op)
    case (OpQuery q)
    with Cons.IH[of "addQuery rt q st"] addQuery_inv[OF Cons.prems, of rt q] show ?thesis by simp
  next
    case (OpAdd w)
    from add_work_spec[OF Cons.prems, of rt w] obtain b st1 es1 where
      1: "add_work rt w st = Some (b, st1, es1)" "results_inv st1"
        "fold apply_event es1 (jm_get (sr_works st)) = jm_get (sr_works st1)"
        "all_keys (sr_works st1) = all_keys (sr_works st) \<union> (if b then work_keys w else {})" by blast
    from Cons.IH[OF 1(2)] obtain st2 es2 ws where
      2: "run_results rt ops st1 = Some (st2, es2, ws)" "results_inv st2"
        "fold apply_event es2 (jm_get (sr_works st1)) = jm_get (sr_works st2)"
        "all_keys (sr_works st2) = all_keys (sr_works st1) \<union> \<Union> (work_keys ` set ws)" by blast
    from 1 2 show ?thesis by (auto simp: OpAdd)
  qed
qed simp

lemma new_results_run:
  "\<exists>st es ws. run_results rt ops (new_results rt query language) = Some (st, es, ws) \<and> results_inv st
     \<and> fold apply_event es (\<lambda>_. None) = jm_get (sr_works st)
     \<and> all_keys (sr_works st) = \<Union> (work_keys ` set ws)"
proof -
  have "jm_get (sr_works (new_results rt query language)) = (\<lambda>_. None)"
    "all_keys (sr_works (new_results rt query language)) = {}"
    by (auto simp: new_results_def all_keys_def)
  with run_results_spec[OF new_results_inv, of rt ops rt query language] show ?thesis by simp
qed

text \<open>
  C1: the search never loses a publication and never fails. For every sequence of queries
  and incoming works the rebuild does not hit an absent catalog work, the works are keyed
  by their own identifiers, no work lists a publication twice, and the publications of all
  works are exactly those of the works that \<open>add\<close> accepted.
\<close>

theorem search_results_complete:
  "case run_results rt ops (new_results rt query language) of
     None \<Rightarrow> False
   | Some (st, es, accepted) \<Rightarrow>
       distinct (map fst (sr_works st)) \<and> list_all (\<lambda>(i, w). i = w_id w) (sr_works st)
     \<and> list_all (\<lambda>w. distinct (map variantKey (w_variants w))) (jm_values (sr_works st))
     \<and> variantKey ` set (concat (map w_variants (jm_values (sr_works st)))) =
         variantKey ` set (concat (map w_variants accepted))"
proof -
  obtain st es ws where run: "run_results rt ops (new_results rt query language) = Some (st, es, ws)"
    "results_inv st" "all_keys (sr_works st) = \<Union> (work_keys ` set ws)"
    using new_results_run[of rt ops query language] by blast
  have keys: "variantKey ` set (concat (map w_variants xs)) = \<Union> (work_keys ` set xs)" for xs
    by (induction xs) (simp_all add: work_keys_def image_Un)
  have "distinct (map fst (sr_works st))" "list_all (\<lambda>(i, w). i = w_id w) (sr_works st)"
    using run(2) by (auto simp: results_inv_def works_wf_def jm_inv_def list_all_iff)
  moreover have "list_all (\<lambda>w. distinct (map variantKey (w_variants w))) (jm_values (sr_works st))"
    using run(2) by (auto simp: results_inv_def all_once_def once_def list_all_iff jm_values_def)
  moreover have "\<Union> (work_keys ` set (jm_values (sr_works st))) = \<Union> (work_keys ` set ws)"
    using run(3) by (simp only: all_keys_values)
  ultimately show ?thesis unfolding run(1) option.case prod.case keys by (intro conjI)
qed

text \<open>
  C2: the events are enough. A listener that starts with an empty list, stores the work of
  every \<open>result\<close> under its identifier and drops the identifier of every \<open>removeResult\<close>
  has, after any run, exactly the works of the search.
\<close>

theorem search_events_replay:
  "case run_results rt ops (new_results rt query language) of
     None \<Rightarrow> False
   | Some (st, es, accepted) \<Rightarrow> fold apply_event es (\<lambda>_. None) = jm_get (sr_works st)"
  using new_results_run[of rt ops query language] by auto

text \<open>
  A removal names its successor only when that work is shown and offers every
  publication of the removed one; a removed work is no longer shown.
\<close>

theorem publish_replacement:
  assumes "publish rt st = Some (st', es)" "RemoveResult i (Some j) \<in> set es"
  shows "jm_get (sr_works st') i = None
     \<and> (\<exists>old new. (i, old) \<in> set (sr_works st) \<and> new \<in> set (jm_values (sr_works st')) \<and> w_id new = j
        \<and> variantKey ` set (w_variants old) \<subseteq> variantKey ` set (w_variants new))"
proof -
  obtain old where old: "(i, old) \<in> set (sr_works st)" "jm_get (sr_works st') i = None"
      "Some j = map_option w_id (replacement (sr_works st') old)"
    using assms by (auto simp: publish_def publish_events_def jm_has_def split: option.splits)
  then obtain new where new: "replacement (sr_works st') old = Some new" "w_id new = j"
    by (metis map_option_eq_Some)
  from find_Some_in[OF new(1)[unfolded replacement_def]]
  have "new \<in> set (jm_values (sr_works st'))" and
    "\<forall>v \<in> set (w_variants old). \<exists>u \<in> set (w_variants new). variantKey v = variantKey u"
    by (auto simp: list_all_iff list_ex_iff) metis
  then have "new \<in> set (jm_values (sr_works st'))"
    "variantKey ` set (w_variants old) \<subseteq> variantKey ` set (w_variants new)" by auto
  with old new show ?thesis by blast
qed

text \<open>A torrent that was a work of its own moves into the game that it names.\<close>

definition sample_torrent :: work where
  "sample_torrent = new_work (js ''t'') (js ''Quake II v1'') Games
     [new_variant (js ''t'') (js ''s'') (js ''S'') (js ''Quake II v1'') [] Torrent]"

definition sample_search :: search_results where
  "sample_search = (new_results sample_runtime (js ''quake'') None)
     \<lparr>sr_works := [(js ''t'', sample_torrent)],
      sr_publications := [(js ''t'', sample_torrent), (js ''2'', sample_game ''2'' ''Quake II'')]\<rparr>"

fun sample_moved :: "search_event \<Rightarrow> bool" where
  "sample_moved (RemoveResult i j) \<longleftrightarrow> i = js ''t'' \<and> j = Some (js ''2'')"
| "sample_moved (ResultEvent w r) \<longleftrightarrow> False"

theorem publish_replacement_witness:
  "\<exists>st es new. publish sample_runtime sample_search = Some (st, es)
     \<and> RemoveResult (js ''t'') (Some (js ''2'')) \<in> set es
     \<and> jm_get (sr_works st) (js ''t'') = None \<and> new \<in> set (jm_values (sr_works st)) \<and> w_id new = js ''2''"
proof -
  have "case publish sample_runtime sample_search of None \<Rightarrow> False | Some (st, es) \<Rightarrow> list_ex sample_moved es"
    by code_simp
  then obtain st es where pub: "publish sample_runtime sample_search = Some (st, es)" and ex: "list_ex sample_moved es"
    by (auto split: option.splits)
  from ex obtain e where e: "e \<in> set es" "sample_moved e" by (auto simp only: list_ex_iff)
  from e(2) have "e = RemoveResult (js ''t'') (Some (js ''2''))"
    by (cases e) simp_all
  with e(1) have rm: "RemoveResult (js ''t'') (Some (js ''2'')) \<in> set es" by (simp only:)
  from publish_replacement[OF pub rm] pub rm show ?thesis by blast
qed

end
