(* ===== verification/References.thy ===== *)
theory References
  imports SampleRuntime
begin

text \<open>
  \<open>references.ts\<close>: the test that a saved variant is still the same publication, the
  public form of a URL without credentials, and the forms of variants and works that may
  be stored and shared. Messages that the source writes in Russian are named by a tag.
\<close>

section \<open>assertExactVariant\<close>

text \<open>A field that the expected variant reports must have the same value in the current one.\<close>

definition field_kept :: "'a option \<Rightarrow> 'a option \<Rightarrow> bool" where
  "field_kept expected current \<longleftrightarrow> expected = None \<or> expected = current"

definition assertExactVariant :: "variant \<Rightarrow> variant \<Rightarrow> (error, unit) result" where
  "assertExactVariant e c =
     (if v_sourceId e \<noteq> v_sourceId c \<or> v_id e \<noteq> v_id c \<or> v_url e \<noteq> v_url c
         \<or> v_transport e \<noteq> v_transport c
      then Inl (Failed (js ''variant_changed''))
      else if \<not> (field_kept (v_infoHash e) (v_infoHash c) \<and> field_kept (v_version e) (v_version c)
         \<and> field_kept (v_edition e) (v_edition c) \<and> field_kept (v_cooperative e) (v_cooperative c)
         \<and> field_kept (v_publicationKind e) (v_publicationKind c)
         \<and> field_kept (v_episode e) (v_episode c) \<and> field_kept (v_season e) (v_season c)
         \<and> field_kept (v_translation e) (v_translation c) \<and> field_kept (v_player e) (v_player c))
      then Inl (Failed (js ''version_changed''))
      else Inr ())"

section \<open>publicReference\<close>

definition sensitive_rx :: rx where
  "sensitive_rx = RAlt
     (RAlts [RLitI (js ''token''), RLitI (js ''passkey''), RLitI (js ''password''), RLitI (js ''secret''),
       RLitI (js ''auth''), RLitI (js ''cookie''), RLitI (js ''signature''),
       RSeqs [RLitI (js ''api''), ROpt RDot, RLitI (js ''key'')]])
     (RSeqs [RBol,
       RAlts [RLitI (js ''key''), RLitI (js ''sig''), RLitI (js ''expires''), RLitI (js ''policy''),
         RSeq (RLitI (js ''x-amz-'')) (RPlus RDot), RSeq (RLitI (js ''x-goog-'')) (RPlus RDot)],
       REol])"

definition sensitiveKey :: "jstring \<Rightarrow> bool" where
  "sensitiveKey k \<longleftrightarrow> rx_test sensitive_rx k"

text \<open>\<open>/^urn:bt(?:ih|mh):[a-z0-9]+$/i\<close>\<close>

definition exact_topic :: "jstring \<Rightarrow> bool" where
  "exact_topic h \<longleftrightarrow> rx_test (RSeqs [RBol, RLitI (js ''urn:bt''),
     RAlt (RLitI (js ''ih'')) (RLitI (js ''mh'')), RLit (js '':''),
     RPlus (RCh (\<lambda>c. is_lower c \<or> is_upper c \<or> is_digit c)), REol]) h"

definition magnetReference :: "runtime \<Rightarrow> url \<Rightarrow> jstring option" where
  "magnetReference rt u =
     (case rt_url rt (js ''magnet:?'') of
        None \<Rightarrow> None
      | Some m \<Rightarrow>
          (let hashes = filter exact_topic (map snd (filter (\<lambda>p. fst p = js ''xt'') (url_params rt u)));
               ps = fold (\<lambda>h ps. ps @ [(js ''xt'', h)]) hashes (url_params rt m);
               m' = (if hashes = [] then m else url_with_params rt ps m)
           in if js ''xt'' \<in> set (map fst ps) then Some (rt_href rt m') else None))"

definition drop_key :: "runtime \<Rightarrow> jstring \<Rightarrow> url \<Rightarrow> url" where
  "drop_key rt k u =
     (if sensitiveKey k then url_with_params rt (filter (\<lambda>p. fst p \<noteq> k) (url_params rt u)) u else u)"

definition publicReference :: "runtime \<Rightarrow> jstring option \<Rightarrow> jstring option" where
  "publicReference rt value =
     (case value of
        None \<Rightarrow> None
      | Some s \<Rightarrow>
          if length s > 4096 then None
          else (case rt_url rt s of
              None \<Rightarrow> None
            | Some u \<Rightarrow>
                if u_protocol u = js ''magnet:'' then magnetReference rt u
                else if u_protocol u \<notin> {js ''https:'', js ''http:''} \<or> u_username u \<noteq> [] \<or> u_password u \<noteq> []
                then None
                else Some (rt_href rt ((fold (drop_key rt) (map fst (url_params rt u)) u)\<lparr>u_hash := []\<rparr>))))"

definition linkId :: "runtime \<Rightarrow> jstring \<Rightarrow> jstring" where
  "linkId rt u = js ''link:'' @ rt_sha256 rt
     (if truthy (publicReference rt (Some u)) then or_empty (publicReference rt (Some u)) else u)"

text \<open>\<open>/^[0-9a-f]{8}-(?:[0-9a-f]{4}-){3}[0-9a-f]{12}$/i\<close>\<close>

definition is_uuid :: "jstring \<Rightarrow> bool" where
  "is_uuid s \<longleftrightarrow> map length (split_char 45 s) = [8, 4, 4, 4, 12]
     \<and> list_all (list_all is_hex) (split_char 45 s)"

definition captureSelectionId :: "runtime \<Rightarrow> variant \<Rightarrow> jstring option" where
  "captureSelectionId rt v =
     (if v_sourceId v \<noteq> js ''link'' then None
      else let prefix = linkId rt (v_url v) @ js '':capture:''
           in if \<not> starts_with (v_id v) prefix then None
              else let i = drop (length prefix) (v_id v)
                   in if is_uuid i then Some i else None)"

section \<open>Persistent forms\<close>

definition persistentNotes :: "runtime \<Rightarrow> author_note list option \<Rightarrow> author_note list option" where
  "persistentNotes rt notes =
     map_option (\<lambda>ns. concat (map (\<lambda>n.
        (case publicReference rt (Some (n_url n)) of
           None \<Rightarrow> [] | Some u \<Rightarrow> if u = [] then [] else [n\<lparr>n_url := u\<rparr>])) ns)) notes"

definition persistentVariant :: "runtime \<Rightarrow> variant \<Rightarrow> variant" where
  "persistentVariant rt v =
     v\<lparr>v_id := (if v_sourceId v = js ''link'' \<and> captureSelectionId rt v = None
                then linkId rt (v_url v) else v_id v),
       v_url := or_empty (publicReference rt (Some (v_url v))),
       v_magnet := publicReference rt (v_magnet v),
       v_downloadUrl := None,
       v_notes := persistentNotes rt (v_notes v)\<rparr>"

definition link_like :: "jstring \<Rightarrow> bool" where
  "link_like s \<longleftrightarrow> starts_with s (js ''http:'') \<or> starts_with s (js ''https:'') \<or> starts_with s (js ''magnet:'')"

definition persistentWork :: "runtime \<Rightarrow> work \<Rightarrow> work" where
  "persistentWork rt w =
     w\<lparr>w_id := (case w_variants w of
                  [] \<Rightarrow> if link_like (w_id w) then linkId rt (w_id w) else w_id w
                | v # vs \<Rightarrow>
                    if list_all (\<lambda>v. v_sourceId v = js ''link'') (v # vs) then linkId rt (v_url v)
                    else if link_like (w_id w) then linkId rt (w_id w) else w_id w),
       w_url := publicReference rt (w_url w),
       w_cover := publicReference rt (w_cover w),
       w_notes := persistentNotes rt (w_notes w),
       w_variants := map (persistentVariant rt) (w_variants w)\<rparr>"

section \<open>Facts\<close>

definition form_laws :: "runtime \<Rightarrow> bool" where
  "form_laws rt \<longleftrightarrow> (\<forall>ps. rt_form_parse rt (rt_form_text rt ps) = ps)"

lemma url_roundtrip_form: "url_roundtrip rt \<Longrightarrow> form_laws rt"
  by (simp add: url_roundtrip_def form_laws_def)

lemma url_params_with [simp]:
  "form_laws rt \<Longrightarrow> url_params rt (url_with_params rt ps u) = ps"
  by (simp add: url_params_def url_with_params_def form_laws_def)

lemma url_with_params_fields [simp]:
  "u_protocol (url_with_params rt ps u) = u_protocol u" "u_username (url_with_params rt ps u) = u_username u"
  "u_password (url_with_params rt ps u) = u_password u" "u_hash (url_with_params rt ps u) = u_hash u"
  "url_with_params rt ps (url_with_params rt qs u) = url_with_params rt ps u"
  by (simp_all add: url_with_params_def)

text \<open>Deleting the sensitive keys one by one leaves the other parameters in their order.\<close>

lemma fold_drop_key:
  assumes "form_laws rt"
  shows "fold (drop_key rt) ks u =
     (if list_ex sensitiveKey ks
      then url_with_params rt (filter (\<lambda>p. \<not> (fst p \<in> set ks \<and> sensitiveKey (fst p))) (url_params rt u)) u
      else u)"
proof (induction ks arbitrary: u)
  case (Cons k ks)
  have eq: "filter (\<lambda>p. fst p \<in> set ks \<longrightarrow> \<not> sensitiveKey (fst p)) (filter (\<lambda>p. fst p \<noteq> k) ps) =
    filter (\<lambda>p. fst p \<noteq> k \<and> (fst p \<in> set ks \<longrightarrow> \<not> sensitiveKey (fst p))) ps" for ps :: "(jstring \<times> jstring) list"
    by (simp add: conj_commute)
  show ?case
  proof (cases "sensitiveKey k")
    case False
    have "(fst p = k \<or> fst p \<in> set ks) \<and> sensitiveKey (fst p) \<longleftrightarrow> fst p \<in> set ks \<and> sensitiveKey (fst p)"
      for p :: "jstring \<times> jstring" using False by auto
    with Cons False show ?thesis by (simp add: drop_key_def)
  next
    case True
    have "filter (\<lambda>p. \<not> (fst p \<in> set (k # ks) \<and> sensitiveKey (fst p))) ps =
      filter (\<lambda>p. fst p \<noteq> k \<and> (fst p \<in> set ks \<longrightarrow> \<not> sensitiveKey (fst p))) ps"
      for ps :: "(jstring \<times> jstring) list"
      by (rule filter_cong) (use True in auto)
    moreover have "filter (\<lambda>p. fst p \<noteq> k) ps = filter (\<lambda>p. fst p \<noteq> k \<and> (fst p \<in> set ks \<longrightarrow> \<not> sensitiveKey (fst p))) ps"
      if "\<not> list_ex sensitiveKey ks" for ps :: "(jstring \<times> jstring) list"
      by (rule filter_cong) (use that in \<open>auto simp: list_ex_iff\<close>)
    ultimately show ?thesis
      using Cons[of "drop_key rt k u"] True assms by (simp add: drop_key_def eq)
  qed
qed simp

text \<open>The URL whose text a web reference is: no credentials, no secret parameter, no fragment.\<close>

definition public_url :: "runtime \<Rightarrow> url \<Rightarrow> bool" where
  "public_url rt u \<longleftrightarrow> u_protocol u \<in> {js ''https:'', js ''http:''} \<and> u_username u = [] \<and> u_password u = []
     \<and> u_hash u = [] \<and> list_all (\<lambda>p. \<not> sensitiveKey (fst p)) (url_params rt u)"

definition stripped :: "runtime \<Rightarrow> url \<Rightarrow> url" where
  "stripped rt u = (fold (drop_key rt) (map fst (url_params rt u)) u)\<lparr>u_hash := []\<rparr>"

lemma stripped_cases:
  assumes "form_laws rt"
  shows "stripped rt u = (if list_ex (sensitiveKey \<circ> fst) (url_params rt u)
     then u\<lparr>u_search := rt_form_text rt (filter (\<lambda>p. \<not> sensitiveKey (fst p)) (url_params rt u)), u_hash := []\<rparr>
     else u\<lparr>u_hash := []\<rparr>)"
proof -
  have "filter (\<lambda>p. \<not> (fst p \<in> set (map fst (url_params rt u)) \<and> sensitiveKey (fst p))) (url_params rt u) =
      filter (\<lambda>p. \<not> sensitiveKey (fst p)) (url_params rt u)"
    by (rule filter_cong) auto
  then show ?thesis
    by (simp add: stripped_def fold_drop_key[OF assms] url_with_params_def list_ex_iff)
qed

lemma stripped_public:
  assumes "form_laws rt" "u_protocol u \<in> {js ''https:'', js ''http:''}" "u_username u = []" "u_password u = []"
  shows "public_url rt (stripped rt u)"
  using assms
  by (auto simp: stripped_cases public_url_def url_params_def form_laws_def list_all_iff list_ex_iff)

lemma stripped_roundtrip:
  "url_roundtrip rt \<Longrightarrow> rt_url rt s = Some u \<Longrightarrow> rt_url rt (rt_href rt (stripped rt u)) = Some (stripped rt u)"
  using stripped_cases[OF url_roundtrip_form] by (simp add: url_roundtrip_def)

lemma stripped_idem: "public_url rt u \<Longrightarrow> stripped rt u = u"
proof -
  assume u: "public_url rt u"
  then have "\<forall>k \<in> set (map fst (url_params rt u)). \<not> sensitiveKey k"
    by (auto simp: public_url_def list_all_iff)
  then have "fold (drop_key rt) ks v = v" if "set ks \<subseteq> set (map fst (url_params rt u))" for ks v
    using that by (induction ks arbitrary: v) (auto simp: drop_key_def)
  with u show ?thesis by (simp add: stripped_def public_url_def)
qed

lemma publicReference_web:
  assumes "publicReference rt (Some s) = Some r" "rt_url rt s = Some u" "u_protocol u \<noteq> js ''magnet:''"
  shows "r = rt_href rt (stripped rt u) \<and> u_protocol u \<in> {js ''https:'', js ''http:''}
     \<and> u_username u = [] \<and> u_password u = []"
  using assms by (simp add: publicReference_def stripped_def split: if_splits)

lemma publicReference_parsed: "publicReference rt (Some s) = Some r \<Longrightarrow> \<exists>u. rt_url rt s = Some u"
  by (simp add: publicReference_def split: if_splits option.splits)

text \<open>
  C6: the public form of a web link carries no credentials. Whatever \<open>publicReference\<close>
  returns for an http or https URL parses to a URL without user name, password and
  fragment, in which no query parameter has a sensitive name.
\<close>

theorem publicReference_safe:
  assumes "url_roundtrip rt" "rt_url rt s = Some u" "u_protocol u \<noteq> js ''magnet:''"
    and "publicReference rt (Some s) = Some r"
  shows "\<exists>p. rt_url rt r = Some p \<and> u_protocol p \<in> {js ''https:'', js ''http:''} \<and> u_username p = []
     \<and> u_password p = [] \<and> u_hash p = [] \<and> list_all (\<lambda>kv. \<not> sensitiveKey (fst kv)) (url_params rt p)"
proof -
  note w = publicReference_web[OF assms(4,2,3)]
  with assms(1,2) have "rt_url rt r = Some (stripped rt u)" by (simp add: stripped_roundtrip)
  moreover from w have "public_url rt (stripped rt u)"
    by (intro stripped_public url_roundtrip_form[OF assms(1)]) auto
  ultimately show ?thesis by (auto simp: public_url_def)
qed

text \<open>A link with a token among its parameters and a fragment.\<close>

definition sample_link :: jstring where
  "sample_link = js ''https://a/b?'' @ sample_form_text [(js ''token'', js ''1''), (js ''c'', js ''2'')] @ js ''#x''"

definition sample_public :: jstring where
  "sample_public = js ''https://a/b?'' @ sample_form_text [(js ''c'', js ''2'')]"

theorem publicReference_safe_witness:
  "publicReference sample_runtime (Some sample_link) = Some sample_public
   \<and> (\<exists>p. rt_url sample_runtime sample_public = Some p \<and> u_hash p = []
        \<and> list_all (\<lambda>kv. \<not> sensitiveKey (fst kv)) (url_params sample_runtime p))"
proof -
  have r: "publicReference sample_runtime (Some sample_link) = Some sample_public" by code_simp
  have u: "rt_url sample_runtime sample_link = Some \<lparr>u_protocol = js ''https:'', u_username = [],
      u_password = [], u_hostname = js ''a'', u_port = [], u_pathname = js ''/b'',
      u_search = sample_form_text [(js ''token'', js ''1''), (js ''c'', js ''2'')], u_hash = js ''x''\<rparr>" by code_simp
  show ?thesis using r publicReference_safe[OF sample_roundtrip u _ r] by auto
qed

lemma publicReference_fixed:
  assumes "url_roundtrip rt" "rt_url rt s = Some u" "u_protocol u \<noteq> js ''magnet:''"
    and "publicReference rt (Some s) = Some r" "length r \<le> 4096"
  shows "publicReference rt (Some r) = Some r"
proof -
  note w = publicReference_web[OF assms(4,2,3)]
  let ?p = "stripped rt u"
  from w have p: "public_url rt ?p" by (intro stripped_public url_roundtrip_form[OF assms(1)]) auto
  from w assms(1,2) have r: "rt_url rt r = Some ?p" by (simp add: stripped_roundtrip)
  have "u_protocol ?p \<noteq> js ''magnet:''" using p by (auto simp: public_url_def)
  with r p assms(5) have "publicReference rt (Some r) = Some (rt_href rt (stripped rt ?p))"
    by (auto simp: publicReference_def stripped_def public_url_def)
  with p w show ?thesis by (simp add: stripped_idem)
qed

lemma magnetReference_topics:
  assumes "magnetReference rt u = Some r"
  shows "\<exists>m h. rt_url rt (js ''magnet:?'') = Some m \<and> js ''xt'' \<in> set (map fst (url_params rt m @ [(js ''xt'', h)]))"
  using assms by (auto simp: magnetReference_def split: option.splits)

text \<open>
  A variant is accepted by \<open>assertExactVariant\<close> exactly when it is the same
  publication (source, identifier, URL and transport) and agrees with every identifying
  field that the saved variant reports; fields it does not report are not compared.
\<close>

theorem assertExactVariant_spec:
  "assertExactVariant e c =
     (if (v_sourceId e, v_id e, v_url e, v_transport e) = (v_sourceId c, v_id c, v_url c, v_transport c)
      then (if list_all (\<lambda>f. f e = None \<or> f e = f c)
                 [v_infoHash, v_version, v_edition, v_episode, v_season, v_translation, v_player]
              \<and> (v_cooperative e = None \<or> v_cooperative e = v_cooperative c)
              \<and> (v_publicationKind e = None \<or> v_publicationKind e = v_publicationKind c)
            then Inr () else Inl (Failed (js ''version_changed'')))
      else Inl (Failed (js ''variant_changed'')))"
proof (cases "v_sourceId e = v_sourceId c \<and> v_id e = v_id c \<and> v_url e = v_url c \<and> v_transport e = v_transport c")
  case True
  then show ?thesis by (simp add: assertExactVariant_def field_kept_def)
next
  case False
  then have "(v_sourceId e, v_id e, v_url e, v_transport e) \<noteq> (v_sourceId c, v_id c, v_url c, v_transport c)"
    by blast
  with False show ?thesis by (simp only: assertExactVariant_def if_False) auto
qed

lemma persistentVariant_simps [simp]:
  "v_sourceId (persistentVariant rt v) = v_sourceId v" "v_downloadUrl (persistentVariant rt v) = None"
  "v_transport (persistentVariant rt v) = v_transport v" "v_title (persistentVariant rt v) = v_title v"
  "v_magnet (persistentVariant rt v) = publicReference rt (v_magnet v)"
  "v_url (persistentVariant rt v) = or_empty (publicReference rt (Some (v_url v)))"
  by (simp_all add: persistentVariant_def)

lemma persistentVariant_id:
  "v_id (persistentVariant rt v) = (if v_sourceId v = js ''link'' \<and> captureSelectionId rt v = None
     then linkId rt (v_url v) else v_id v)"
  by (simp add: persistentVariant_def)

lemma linkId_public:
  assumes "publicReference rt (Some u) = Some r" "r \<noteq> []" "publicReference rt (Some r) = Some r"
  shows "linkId rt r = linkId rt u"
  using assms by (simp add: linkId_def)

lemma persistentNotes_stable:
  assumes "\<And>n r. n \<in> set (list_or ns) \<Longrightarrow> publicReference rt (Some (n_url n)) = Some r \<Longrightarrow>
      publicReference rt (Some r) = Some r"
  shows "persistentNotes rt (persistentNotes rt ns) = persistentNotes rt ns"
proof (cases ns)
  case (Some xs)
  let ?f = "\<lambda>n. case publicReference rt (Some (n_url n)) of
      None \<Rightarrow> [] | Some u \<Rightarrow> if u = [] then [] else [n\<lparr>n_url := u\<rparr>]"
  have "concat (map ?f (concat (map ?f ys))) = concat (map ?f ys)" if "set ys \<subseteq> set xs" for ys
    using that
  proof (induction ys)
    case (Cons y ys)
    have "concat (map ?f (?f y)) = ?f y"
      using assms[of y] Some Cons.prems by (auto split: option.splits)
    with Cons show ?case by simp
  qed simp
  with Some show ?thesis by (simp add: persistentNotes_def)
qed (simp add: persistentNotes_def)

text \<open>
  Storing what was stored changes nothing. The persistent form of a variant is its
  own persistent form when its links are public references that stay fixed and a link
  has a public address; then its identifier is stable too.
\<close>

theorem persistentVariant_idempotent:
  assumes url: "publicReference rt (Some (v_url v)) = Some r" "r \<noteq> []" "publicReference rt (Some r) = Some r"
    and magnet: "publicReference rt (publicReference rt (v_magnet v)) = publicReference rt (v_magnet v)"
    and ns: "persistentNotes rt (persistentNotes rt (v_notes v)) = persistentNotes rt (v_notes v)"
  shows "persistentVariant rt (persistentVariant rt v) = persistentVariant rt v"
proof -
  let ?p = "persistentVariant rt v"
  have link: "linkId rt r = linkId rt (v_url v)" by (rule linkId_public[OF url])
  have pu: "v_url ?p = r" using url by simp
  have cap: "captureSelectionId rt ?p = (if captureSelectionId rt v = None then captureSelectionId rt ?p
      else captureSelectionId rt v)"
    using link pu by (auto simp: captureSelectionId_def persistentVariant_id Let_def split: if_splits)
  have "v_id (persistentVariant rt ?p) = v_id ?p"
    using cap link pu by (auto simp: persistentVariant_id split: if_splits)
  then show ?thesis
    using pu url magnet ns by (simp add: persistentVariant_def)
qed

definition sample_variant :: variant where
  "sample_variant = (new_variant (js ''s:1'') (js ''s'') (js ''S'') (js ''T'') sample_link Video)
     \<lparr>v_downloadUrl := Some (js ''https://cdn/x''), v_version := Some (js ''1.2'')\<rparr>"

theorem persistentVariant_idempotent_witness:
  "v_url (persistentVariant sample_runtime sample_variant) = sample_public
   \<and> persistentVariant sample_runtime (persistentVariant sample_runtime sample_variant) =
        persistentVariant sample_runtime sample_variant"
proof -
  have v: "v_url sample_variant = sample_link" "v_magnet sample_variant = None" "v_notes sample_variant = None"
    by (simp_all add: sample_variant_def new_variant_def)
  have "publicReference sample_runtime (Some (v_url sample_variant)) = Some sample_public"
    unfolding v by code_simp
  moreover have "sample_public \<noteq> []" by code_simp
  moreover have "publicReference sample_runtime (Some sample_public) = Some sample_public" by code_simp
  ultimately show ?thesis
    using persistentVariant_idempotent[of sample_runtime sample_variant sample_public]
    by (simp add: v publicReference_def persistentNotes_def)
qed

end
