(* ===== verification/Store.thy ===== *)
theory Store
  imports References Results
begin

text \<open>
  \<open>store.ts\<close>: the library of remembered works and the settings table. A table row is an
  entry with its identifier and the time of its last update; \<open>INSERT OR REPLACE\<close> removes
  the old row and appends the new one. The size of an entry's JSON frame is a parameter
  (\<open>frame_bytes\<close>), since the model keeps entries as values and not as their JSON text.
\<close>

record variant_filters =
  vf_episode :: "(jstring \<times> jstring) option"
  vf_translation :: "jstring option"
  vf_source :: "(jstring \<times> jstring \<times> transport) option"
  vf_language :: "jstring option"

type_synonym progress = "(jstring, jstring + rat) jmap"

record library_entry =
  e_work :: work
  e_variant :: "variant option"
  e_filters :: "variant_filters option"
  e_favorite :: bool
  e_lastOpened :: "jstring option"
  e_progress :: "progress option"

text \<open>\<open>Partial<Omit<LibraryEntry, "work">>\<close>\<close>

record entry_update =
  up_variant :: "variant option"
  up_filters :: "variant_filters option"
  up_favorite :: "bool option"
  up_lastOpened :: "jstring option"
  up_progress :: "progress option"

record 'v store =
  st_library :: "(jstring \<times> library_entry \<times> nat) list"
  st_settings :: "(jstring, 'v) jmap"

definition new_store :: "'v store" where
  "new_store = \<lparr>st_library = [], st_settings = []\<rparr>"

section \<open>Settings table\<close>

definition setting :: "jstring \<Rightarrow> 'v \<Rightarrow> 'v store \<Rightarrow> 'v" where
  "setting i initial st = (case jm_get (st_settings st) i of None \<Rightarrow> initial | Some v \<Rightarrow> v)"

definition setSetting :: "jstring \<Rightarrow> 'v \<Rightarrow> 'v store \<Rightarrow> 'v store" where
  "setSetting i v st = st\<lparr>st_settings := jm_delete i (st_settings st) @ [(i, v)]\<rparr>"

section \<open>Library\<close>

definition assertLibraryEntrySize :: "(library_entry \<Rightarrow> nat) \<Rightarrow> library_entry \<Rightarrow> (error, unit) result" where
  "assertLibraryEntrySize frame_bytes e =
     (if frame_bytes e > maxMessageBytes
      then Inl (Content (js ''library_limit'')
        (js ''The saved variants exceed 16 MiB. Remove this item from the library and save it again.'') None)
      else Inr ())"

definition entries :: "jstring \<Rightarrow> 'v store \<Rightarrow> library_entry list" where
  "entries mode st =
     filter (\<lambda>e. if mode = js ''favorites'' then e_favorite e
                 else mode \<noteq> js ''history'' \<or> truthy (e_lastOpened e))
       (map (fst \<circ> snd) (take 500 (sort_desc (\<lambda>r. int (snd (snd r))) (st_library st))))"

definition get_entry :: "jstring \<Rightarrow> 'v store \<Rightarrow> library_entry option" where
  "get_entry i st = map_option fst (map_of (st_library st) i)"

definition find_entry :: "runtime \<Rightarrow> work \<Rightarrow> 'v store \<Rightarrow> library_entry option" where
  "find_entry rt w st =
     (case get_entry (w_id w) st of
        Some e \<Rightarrow> Some e
      | None \<Rightarrow> find (\<lambda>e. sameWork rt (e_work e) w) (entries (js ''all'') st))"

text \<open>Playback choices stay when an opened entry is remembered without being opened again.\<close>

definition preserve_playback :: "library_entry option \<Rightarrow> entry_update \<Rightarrow> bool" where
  "preserve_playback previous up \<longleftrightarrow>
     (case previous of None \<Rightarrow> False | Some p \<Rightarrow> truthy (e_lastOpened p)) \<and> \<not> truthy (up_lastOpened up)"

definition remembered_work :: "library_entry option \<Rightarrow> work \<Rightarrow> work" where
  "remembered_work previous durable =
     (mergeWorkMetadata (map_option e_work previous) durable)
       \<lparr>w_id := (case previous of None \<Rightarrow> w_id durable
                 | Some p \<Rightarrow> if w_id (e_work p) = [] then w_id durable else w_id (e_work p)),
        w_variants := mergeVariants
          ((case previous of None \<Rightarrow> [] | Some p \<Rightarrow> w_variants (e_work p)) @ w_variants durable)\<rparr>"

definition remembered_entry :: "runtime \<Rightarrow> library_entry option \<Rightarrow> work \<Rightarrow> entry_update \<Rightarrow> library_entry" where
  "remembered_entry rt previous durable up =
     (let old = (case previous of None \<Rightarrow> None | Some p \<Rightarrow> e_variant p);
          old_filters = (case previous of None \<Rightarrow> None | Some p \<Rightarrow> e_filters p);
          selected = (if preserve_playback previous up then old else opt_or (up_variant up) old)
      in \<lparr>e_work = remembered_work previous durable,
          e_variant = map_option (persistentVariant rt) selected,
          e_filters = (if preserve_playback previous up then old_filters else opt_or (up_filters up) old_filters),
          e_favorite = (case up_favorite up of
              Some f \<Rightarrow> f
            | None \<Rightarrow> (case previous of None \<Rightarrow> False | Some p \<Rightarrow> e_favorite p)),
          e_lastOpened = opt_or (up_lastOpened up) (case previous of None \<Rightarrow> None | Some p \<Rightarrow> e_lastOpened p),
          e_progress = opt_or (up_progress up) (case previous of None \<Rightarrow> None | Some p \<Rightarrow> e_progress p)\<rparr>)"

definition put_entry :: "library_entry \<Rightarrow> nat \<Rightarrow> 'v store \<Rightarrow> 'v store" where
  "put_entry e now st = st\<lparr>st_library :=
     filter (\<lambda>r. fst r \<noteq> w_id (e_work e)) (st_library st) @ [(w_id (e_work e), e, now)]\<rparr>"

definition remember :: "runtime \<Rightarrow> (library_entry \<Rightarrow> nat) \<Rightarrow> nat \<Rightarrow> work \<Rightarrow> entry_update \<Rightarrow> 'v store
    \<Rightarrow> (error, library_entry \<times> 'v store) result" where
  "remember rt frame_bytes now w up st =
     (if w_id w = [] \<or> w_title w = [] then Inl (Failed (js ''The item is incomplete.''))
      else let durable = persistentWork rt w;
               e = remembered_entry rt (find_entry rt durable st) durable up
           in bind_r (assertLibraryEntrySize frame_bytes e) (\<lambda>_. Inr (e, put_entry e now st)))"

definition update_entry :: "runtime \<Rightarrow> (library_entry \<Rightarrow> nat) \<Rightarrow> nat \<Rightarrow> jstring \<Rightarrow> entry_update \<Rightarrow> 'v store
    \<Rightarrow> (error, 'v store) result" where
  "update_entry rt frame_bytes now i up st =
     (case get_entry i st of
        None \<Rightarrow> Inr st
      | Some e \<Rightarrow> bind_r (remember rt frame_bytes now (e_work e) up st) (\<lambda>(_, st'). Inr st'))"

definition remove_entry :: "jstring \<Rightarrow> 'v store \<Rightarrow> 'v store" where
  "remove_entry i st = st\<lparr>st_library := filter (\<lambda>r. fst r \<noteq> i) (st_library st)\<rparr>"

section \<open>Facts on the settings table\<close>

lemma jm_get_append: "jm_get (m @ [(k, v)]) i = (case jm_get m i of None \<Rightarrow> if i = k then Some v else None | Some x \<Rightarrow> Some x)"
  by (auto simp: jm_get_def map_add_def split: option.splits)

lemma setting_set [simp]: "setting i d (setSetting j v st) = (if i = j then v else setting i d st)"
  by (simp add: setting_def setSetting_def jm_get_append split: option.splits)

section \<open>Facts on the library\<close>

text \<open>Rows have distinct identifiers, which are those of their works, and fit a message.\<close>

definition library_inv :: "(library_entry \<Rightarrow> nat) \<Rightarrow> 'v store \<Rightarrow> bool" where
  "library_inv frame_bytes st \<longleftrightarrow> distinct (map fst (st_library st))
     \<and> (\<forall>(i, e, t) \<in> set (st_library st). i = w_id (e_work e) \<and> frame_bytes e \<le> maxMessageBytes)"

lemma library_inv_new [simp]: "library_inv frame_bytes new_store"
  by (simp add: library_inv_def new_store_def)

lemma library_inv_put:
  assumes "library_inv frame_bytes st" "frame_bytes e \<le> maxMessageBytes"
  shows "library_inv frame_bytes (put_entry e now st)"
  using assms by (auto simp: library_inv_def put_entry_def distinct_map_filter)

lemma library_inv_remove: "library_inv frame_bytes st \<Longrightarrow> library_inv frame_bytes (remove_entry i st)"
  by (auto simp: library_inv_def remove_entry_def distinct_map_filter)

lemma assertLibraryEntrySize_ok [simp]:
  "assertLibraryEntrySize frame_bytes e = Inr () \<longleftrightarrow> frame_bytes e \<le> maxMessageBytes"
  by (simp add: assertLibraryEntrySize_def not_less)

lemma remember_ok:
  assumes "remember rt frame_bytes now w up st = Inr (e, st')"
  shows "e = remembered_entry rt (find_entry rt (persistentWork rt w) st) (persistentWork rt w) up
     \<and> st' = put_entry e now st \<and> frame_bytes e \<le> maxMessageBytes \<and> w_id w \<noteq> [] \<and> w_title w \<noteq> []"
  using assms by (auto simp: remember_def Let_def bind_r_Inr split: if_splits)

lemma remember_inv:
  assumes "library_inv frame_bytes st" "remember rt frame_bytes now w up st = Inr (e, st')"
  shows "library_inv frame_bytes st'"
  using remember_ok[OF assms(2)] library_inv_put[OF assms(1)] by metis

lemma update_inv:
  assumes "library_inv frame_bytes st" "update_entry rt frame_bytes now i up st = Inr st'"
  shows "library_inv frame_bytes st'"
  using assms by (auto simp: update_entry_def bind_r_Inr split: option.splits dest: remember_inv)

lemma get_put:
  "get_entry i (put_entry e now st) = (if i = w_id (e_work e) then Some e else get_entry i st)"
proof -
  have "map_of (filter (\<lambda>r. fst r \<noteq> k) rows @ [(k, x)]) i = (if i = k then Some x else map_of rows i)"
    for k :: jstring and x and rows :: "(jstring \<times> library_entry \<times> nat) list"
    by (induction rows) (auto simp: map_add_def)
  then show ?thesis by (simp add: get_entry_def put_entry_def)
qed

lemma get_entry_id: "library_inv frame_bytes st \<Longrightarrow> get_entry i st = Some e \<Longrightarrow> w_id (e_work e) = i"
  by (fastforce simp: get_entry_def library_inv_def dest: map_of_SomeD)

lemma get_remove: "get_entry i (remove_entry j st) = (if i = j then None else get_entry i st)"
proof -
  have "map_of (filter (\<lambda>r. fst r \<noteq> j) rows) i = (if i = j then None else map_of rows i)"
    for rows :: "(jstring \<times> library_entry \<times> nat) list"
    by (induction rows) auto
  then show ?thesis by (simp add: get_entry_def remove_entry_def)
qed

lemma find_entry_known:
  assumes inv: "library_inv frame_bytes st" and f: "find_entry rt w st = Some p"
  shows "get_entry (w_id (e_work p)) st = Some p"
proof (cases "get_entry (w_id w) st")
  case (Some e)
  with f have "p = e" by (simp add: find_entry_def)
  with Some get_entry_id[OF inv Some] show ?thesis by simp
next
  case None
  with f have "p \<in> set (entries (js ''all'') st)"
    by (auto simp: find_entry_def dest: find_Some_in)
  then obtain i t where row: "(i, p, t) \<in> set (st_library st)"
    using set_take_subset[of 500] by (force simp: entries_def)
  with inv have "i = w_id (e_work p)" by (auto simp: library_inv_def)
  with row inv show ?thesis by (auto simp: get_entry_def library_inv_def)
qed

section \<open>Runs of the library\<close>

datatype library_op =
    OpRemember work entry_update nat
  | OpUpdate jstring entry_update nat
  | OpRemove jstring

text \<open>An operation that raises leaves the table as it is.\<close>

fun library_step :: "runtime \<Rightarrow> (library_entry \<Rightarrow> nat) \<Rightarrow> library_op \<Rightarrow> 'v store \<Rightarrow> 'v store" where
  "library_step rt frame_bytes (OpRemember w up now) st =
     (case remember rt frame_bytes now w up st of Inl _ \<Rightarrow> st | Inr (_, st') \<Rightarrow> st')"
| "library_step rt frame_bytes (OpUpdate i up now) st =
     (case update_entry rt frame_bytes now i up st of Inl _ \<Rightarrow> st | Inr st' \<Rightarrow> st')"
| "library_step rt frame_bytes (OpRemove i) st = remove_entry i st"

lemma library_step_inv: "library_inv frame_bytes st \<Longrightarrow> library_inv frame_bytes (library_step rt frame_bytes op st)"
  by (cases op) (auto simp: library_inv_remove split: sum.splits intro: remember_inv update_inv)

lemma library_fold_inv:
  "library_inv frame_bytes st \<Longrightarrow> library_inv frame_bytes (fold (library_step rt frame_bytes) ops st)"
  by (induction ops arbitrary: st) (auto intro: library_step_inv)

text \<open>
  C17: the library table after any sequence of operations has one row per identifier, each
  row is stored under the identifier of its work, and every row can be sent: its frame
  does not exceed the message limit of 16 MiB.
\<close>

theorem library_wellformed:
  "distinct (map fst (st_library (fold (library_step rt frame_bytes) ops (new_store :: 'v store))))
   \<and> list_all (\<lambda>(i, e, t). i = w_id (e_work e) \<and> frame_bytes e \<le> maxMessageBytes)
       (st_library (fold (library_step rt frame_bytes) ops (new_store :: 'v store)))"
  using library_fold_inv[OF library_inv_new, of frame_bytes rt ops]
  by (auto simp: library_inv_def list_all_iff)


definition no_update :: entry_update where
  "no_update = \<lparr>up_variant = None, up_filters = None, up_favorite = None, up_lastOpened = None, up_progress = None\<rparr>"

definition sample_opened :: library_entry where
  "sample_opened = \<lparr>e_work = sample_game ''1'' ''Quake'', e_variant = None, e_filters = None, e_favorite = False,
     e_lastOpened = Some (js ''2026''), e_progress = None\<rparr>"


text \<open>A link with a user name, which has no public reference.\<close>

definition private_link_work :: work where
  "private_link_work = new_work (js ''https://u@a/b'') (js ''T'') Movies
     [new_variant (js ''i'') (js ''link'') (js ''L'') (js ''T'') (js ''https://u@a/b'') Video]"

text \<open>
  A limit of the library. For a link whose address has no public reference the stored
  identifier is not stable: marking the remembered entry as a favourite adds a second row,
  under the identifier of the empty address, and leaves the first row unmarked.
\<close>

theorem private_link_update_duplicates:
  "case remember sample_runtime (\<lambda>_. 0) 1 private_link_work no_update (new_store :: nat store) of
     Inl _ \<Rightarrow> False
   | Inr (e, st) \<Rightarrow>
       (case update_entry sample_runtime (\<lambda>_. 0) 2 (w_id (e_work e)) (no_update\<lparr>up_favorite := Some True\<rparr>) st of
          Inl _ \<Rightarrow> False
        | Inr st' \<Rightarrow> map (\<lambda>(i, e, t). (i, e_favorite e)) (st_library st') =
            [(linkId sample_runtime (js ''https://u@a/b''), False), (linkId sample_runtime [], True)])"
  by code_simp

end
