(* ===== verification/Sharing.thy ===== *)
theory Sharing
  imports References
begin

text \<open>
  \<open>sharing.ts\<close>: \<open>qbutt://open\<close> and \<open>qbutt://capture\<close> links. A shared item is reduced to
  public references, written as JSON, and carried as base64url. JSON text is a parameter
  (\<open>codec\<close>): a payload decodes to a shared item, to capture data, or is damaged; a
  payload with a category or transport outside the enumerations does not decode.
\<close>

section \<open>base64url\<close>

definition b64_digit :: "nat \<Rightarrow> nat" where
  "b64_digit n = (if n < 26 then 65 + n else if n < 52 then 71 + n else if n < 62 then n - 4
     else if n = 62 then 45 else 95)"

definition b64_index :: "nat \<Rightarrow> nat" where
  "b64_index c = (if is_upper c then c - 65 else if is_lower c then c - 71 else if is_digit c then c + 4
     else if c = 45 then 62 else 63)"

fun b64_encode :: "nat list \<Rightarrow> jstring" where
  "b64_encode [] = []"
| "b64_encode [a] = [b64_digit (a div 4), b64_digit (a mod 4 * 16)]"
| "b64_encode [a, b] = [b64_digit (a div 4), b64_digit (a mod 4 * 16 + b div 16), b64_digit (b mod 16 * 4)]"
| "b64_encode (a # b # c # bytes) =
     b64_digit (a div 4) # b64_digit (a mod 4 * 16 + b div 16) # b64_digit (b mod 16 * 4 + c div 64)
     # b64_digit (c mod 64) # b64_encode bytes"

text \<open>\<open>Buffer.from(s, "base64url")\<close> on letters of the alphabet; a single last letter is dropped.\<close>

fun b64_values :: "nat list \<Rightarrow> nat list" where
  "b64_values (w # x # y # z # vs) =
     (w * 4 + x div 16) # (x mod 16 * 16 + y div 4) # (y mod 4 * 64 + z) # b64_values vs"
| "b64_values [w, x, y] = [w * 4 + x div 16, x mod 16 * 16 + y div 4]"
| "b64_values [w, x] = [w * 4 + x div 16]"
| "b64_values [w] = []"
| "b64_values [] = []"

definition b64_decode :: "jstring \<Rightarrow> nat list" where
  "b64_decode s = b64_values (map b64_index s)"

text \<open>\<open>/^[a-z\d_-]+$/i\<close>\<close>

definition is_b64 :: "nat \<Rightarrow> bool" where
  "is_b64 c \<longleftrightarrow> is_word c \<or> c = 45"

lemma b64_index_digit: "n < 64 \<Longrightarrow> b64_index (b64_digit n) = n"
  by (auto simp: b64_index_def b64_digit_def char_class_defs)

lemma is_b64_digit: "n < 64 \<Longrightarrow> is_b64 (b64_digit n)"
  by (auto simp: is_b64_def b64_digit_def char_class_defs)

lemma pack: "y < n \<Longrightarrow> (x * n + y) div n = (x :: nat)" "y < n \<Longrightarrow> (x * n + y) mod n = y"
  by simp_all

lemma b64_roundtrip: "list_all (\<lambda>b. b < 256) bytes \<Longrightarrow> b64_decode (b64_encode bytes) = bytes"
proof (induction bytes rule: b64_encode.induct)
  case (4 a b c bytes)
  from 4(2) have bounds: "a < 256" "b < 256" "c < 256" by auto
  then have "a div 4 < 64" "a mod 4 * 16 + b div 16 < 64" "b mod 16 * 4 + c div 64 < 64" "c mod 64 < 64"
    by auto
  moreover have "b div 16 < 16" "c div 64 < 4" using bounds by auto
  then have "a div 4 * 4 + (a mod 4 * 16 + b div 16) div 16 = a"
    "(a mod 4 * 16 + b div 16) mod 16 * 16 + (b mod 16 * 4 + c div 64) div 4 = b"
    "(b mod 16 * 4 + c div 64) mod 4 * 64 + c mod 64 = c"
    by (simp_all only: pack div_mult_mod_eq)
  ultimately show ?case using 4 by (simp add: b64_decode_def b64_index_digit)
next
  case (3 a b)
  have "a div 4 < 64" "a mod 4 * 16 + b div 16 < 64" "b mod 16 * 4 < 64" using 3 by auto
  moreover have "b div 16 < 16" using 3 by auto
  then have "a div 4 * 4 + (a mod 4 * 16 + b div 16) div 16 = a"
    "(a mod 4 * 16 + b div 16) mod 16 * 16 + b mod 16 * 4 div 4 = b"
    by (simp_all only: pack div_mult_mod_eq) simp
  ultimately show ?case by (simp add: b64_decode_def b64_index_digit)
next
  case (2 a)
  have "a div 4 < 64" "a mod 4 * 16 < 64" using 2 by auto
  then show ?case by (simp add: b64_decode_def b64_index_digit)
qed (simp add: b64_decode_def)

lemma b64_encode_alphabet: "list_all (\<lambda>b. b < 256) bytes \<Longrightarrow> list_all is_b64 (b64_encode bytes)"
proof (induction bytes rule: b64_encode.induct)
  case (4 a b c bytes)
  then have "a div 4 < 64" "a mod 4 * 16 + b div 16 < 64" "b mod 16 * 4 + c div 64 < 64" "c mod 64 < 64" by auto
  with 4 show ?case by (simp add: is_b64_digit)
next
  case (3 a b)
  then have "a div 4 < 64" "a mod 4 * 16 + b div 16 < 64" "b mod 16 * 4 < 64" by auto
  then show ?case by (simp add: is_b64_digit)
next
  case (2 a)
  then have "a div 4 < 64" "a mod 4 * 16 < 64" by auto
  then show ?case by (simp add: is_b64_digit)
qed simp

lemma b64_length: "3 * length (b64_encode bytes) \<le> 4 * length bytes + 6"
  by (induction bytes rule: b64_encode.induct) auto

lemma b64_encode_ne: "bytes \<noteq> [] \<Longrightarrow> b64_encode bytes \<noteq> []"
  by (cases bytes rule: b64_encode.cases) auto

section \<open>Shared items\<close>

record shared_item =
  si_version :: nat
  si_mode :: jstring
  si_work :: work
  si_variant :: "variant option"
  si_action :: "jstring option"

record capture_data =
  cd_v :: nat
  cd_action :: jstring
  cd_pageUrl :: jstring
  cd_title :: jstring
  cd_captureId :: jstring

record codec =
  js_bytes :: "shared_item \<Rightarrow> nat list"
  js_item :: "nat list \<Rightarrow> shared_item option"
  js_capture :: "nat list \<Rightarrow> capture_data option"

definition fails :: "string \<Rightarrow> (error, 'a) result" where
  "fails message = Inl (Failed (js message))"

definition capture_session :: "error" where
  "capture_session = Content (js ''capture_session'')
     (js ''This qcatch selection belongs to the current browser session. Share the source page instead.'') None"

definition clip :: "nat \<Rightarrow> jstring option \<Rightarrow> jstring option" where
  "clip n s = (if truthy s then Some (take n (or_empty s)) else None)"

definition shared_fields :: "runtime \<Rightarrow> variant \<Rightarrow> jstring \<Rightarrow> variant" where
  "shared_fields rt v u =
     (new_variant (take 1024 (v_id v)) (take 128 (v_sourceId v)) (take 128 (v_sourceName v))
             (take 512 (v_title v)) u (v_transport v))
          \<lparr>v_version := clip 256 (v_version v), v_edition := clip 256 (v_edition v),
           v_translation := clip 256 (v_translation v), v_quality := clip 256 (v_quality v),
           v_episode := clip 256 (v_episode v), v_season := clip 256 (v_season v),
           v_player := clip 256 (v_player v), v_author := clip 256 (v_author v),
           v_cooperative := v_cooperative v,
           v_needsInspection := (if v_needsInspection v = Some True then Some True else None),
           v_publicationKind := v_publicationKind v,
           v_infoHash := (let h = or_empty (v_infoHash v) in
             if length h \<in> {40, 64} \<and> list_all is_hex h then Some (rt_lower rt h) else None),
           v_magnet := (let m = publicReference rt (v_magnet v) in
             if m \<noteq> None \<and> starts_with (or_empty m) (js ''magnet:'') then m else None)\<rparr>"

definition sharedVariant :: "runtime \<Rightarrow> variant \<Rightarrow> (error, variant) result" where
  "sharedVariant rt original =
     (if truthy (captureSelectionId rt original) then Inl capture_session
      else let v = persistentVariant rt original in
      if v_id v = [] \<or> v_sourceId v = [] then fails ''This variant cannot be shared.''
      else let u = publicReference rt (Some (v_url v)) in
      if \<not> truthy u then fails ''This item has no public source link.''
      else Inr (shared_fields rt v (or_empty u)))"

text \<open>In a shared title only a link keeps its details; other publications are read again.\<close>

definition work_publication :: "jstring \<Rightarrow> variant \<Rightarrow> variant" where
  "work_publication title v =
     (if v_sourceId v = js ''link'' then v
      else (new_variant (v_id v) (v_sourceId v) (v_sourceName v) title (v_url v) (v_transport v))
        \<lparr>v_magnet := v_magnet v, v_infoHash := v_infoHash v, v_needsInspection := Some True\<rparr>)"

definition publication_key :: "variant \<Rightarrow> jstring \<times> jstring" where
  "publication_key v = (v_sourceId v, v_url v)"

definition add_publication :: "jstring \<Rightarrow> variant \<Rightarrow> (jstring \<times> jstring, variant) jmap
    \<Rightarrow> (jstring \<times> jstring, variant) jmap" where
  "add_publication title v m =
     (if jm_has m (publication_key v) then m else jm_set (publication_key v) (work_publication title v) m)"

definition same_publication :: "variant \<Rightarrow> variant \<Rightarrow> bool" where
  "same_publication a b \<longleftrightarrow> v_sourceId a = v_sourceId b \<and> v_url a = v_url b \<and> v_transport a = v_transport b"

definition normalize_item :: "runtime \<Rightarrow> shared_item \<Rightarrow> (error, shared_item) result" where
  "normalize_item rt x =
     (if si_version x \<noteq> 1 \<or> si_mode x \<notin> {js ''exact'', js ''work''} \<or> w_id (si_work x) = []
         \<or> w_title (si_work x) = []
      then fails ''This qbutt link is incomplete or unsupported.''
      else let title = take 512 (w_title (si_work x));
               base = (new_work (take 1024 (w_id (persistentWork rt (si_work x)))) title (w_category (si_work x)) [])
                 \<lparr>w_url := publicReference rt (w_url (si_work x))\<rparr>;
               item = \<lparr>si_version = 1, si_mode = si_mode x, si_work = base, si_variant = None, si_action = None\<rparr>
           in if si_mode x = js ''exact''
              then (case si_variant x of
                  None \<Rightarrow> fails ''The exact variant is missing from this link.''
                | Some v \<Rightarrow> bind_r (sharedVariant rt v) (\<lambda>s.
                    Inr (item\<lparr>si_variant := Some s, si_work := base\<lparr>w_variants := [s]\<rparr>\<rparr>)))
              else bind_r (map_r (sharedVariant rt) (w_variants (si_work x))) (\<lambda>vs.
                let pubs = jm_values (fold (add_publication title) vs []);
                    shared = item\<lparr>si_work := base\<lparr>w_variants := pubs\<rparr>\<rparr>
                in case si_variant x of
                     None \<Rightarrow> Inr shared
                   | Some v \<Rightarrow> bind_r (sharedVariant rt v) (\<lambda>s.
                       if list_ex (same_publication s) pubs then Inr (shared\<lparr>si_variant := Some s\<rparr>)
                       else fails ''The preferred version does not belong to this shared title.'')))"

definition open_prefix :: jstring where
  "open_prefix = js ''qbutt://open?d=''"

definition share :: "runtime \<Rightarrow> codec \<Rightarrow> shared_item \<Rightarrow> (error, jstring) result" where
  "share rt cc x = bind_r (normalize_item rt (x\<lparr>si_version := 1\<rparr>)) (\<lambda>item.
     if length (js_bytes cc item) > 16 * 1024 then fails ''This item is too large to share as a link.''
     else Inr (open_prefix @ b64_encode (js_bytes cc item)))"

definition clean_title :: "jstring \<Rightarrow> jstring" where
  "clean_title t = trim (map (\<lambda>c. if c < 32 \<or> c = 127 then 32 else c) t)"

definition open_capture :: "runtime \<Rightarrow> capture_data \<Rightarrow> (error, shared_item) result" where
  "open_capture rt c =
     (if cd_v c \<noteq> 1 \<or> cd_action c \<notin> {js ''watch'', js ''download''} \<or> length (cd_pageUrl c) > 4096
         \<or> length (cd_title c) > 512 \<or> \<not> is_uuid (cd_captureId c)
      then fails ''This qcatch capture is incomplete or unsupported. Choose the media again in qcatch.''
      else case rt_url rt (cd_pageUrl c) of
          None \<Rightarrow> fails ''Invalid URL''
        | Some u \<Rightarrow>
            (let page = u\<lparr>u_hash := []\<rparr>; href = rt_href rt page in
             if publicReference rt (Some href) \<noteq> Some href
             then fails ''qcatch must share a public source page without session credentials.''
             else let i = linkId rt href;
                      title = (if clean_title (cd_title c) = [] then u_hostname page else clean_title (cd_title c));
                      v = new_variant (i @ js '':capture:'' @ cd_captureId c) (js ''link'') (js ''qcatch'') title href Video
                  in Inr \<lparr>si_version = 1, si_mode = js ''exact'',
                       si_work = (new_work i title Movies [v])\<lparr>w_url := Some href\<rparr>,
                       si_variant = Some v, si_action = Some (cd_action c)\<rparr>))"

definition openLink :: "runtime \<Rightarrow> codec \<Rightarrow> jstring \<Rightarrow> (error, shared_item) result" where
  "openLink rt cc link =
     (if length link > 24 * 1024 then fails ''This qbutt link is too long.''
      else case rt_url rt link of
          None \<Rightarrow> fails ''Invalid URL''
        | Some u \<Rightarrow>
            if u_protocol u \<noteq> js ''qbutt:'' \<or> u_hostname u \<notin> {js ''open'', js ''capture''}
            then fails ''This qbutt link is not supported.''
            else let payload = or_empty (jm_get (url_params rt u) (js ''d'')) in
              if payload = [] \<or> \<not> list_all is_b64 payload then fails ''This qbutt link is damaged.''
              else if u_hostname u = js ''capture''
              then (case js_capture cc (b64_decode payload) of
                  None \<Rightarrow> fails ''This qcatch capture is incomplete or unsupported. Choose the media again in qcatch.''
                | Some c \<Rightarrow> open_capture rt c)
              else (case js_item cc (b64_decode payload) of
                  None \<Rightarrow> fails ''This qbutt link is incomplete or unsupported.''
                | Some x \<Rightarrow> normalize_item rt x))"

section \<open>What a shared variant carries\<close>

text \<open>Documented behaviour of the runtime that links rely on.\<close>

definition link_laws :: "runtime \<Rightarrow> bool" where
  "link_laws rt \<longleftrightarrow> (\<forall>s. length (rt_sha256 rt s) \<le> 64)
     \<and> (\<forall>h. list_all is_hex h \<longrightarrow> rt_lower rt h = map ascii_lower h)"

definition open_url_law :: "runtime \<Rightarrow> bool" where
  "open_url_law rt \<longleftrightarrow>
     (\<forall>p. p \<noteq> [] \<longrightarrow> list_all is_b64 p \<longrightarrow> (\<exists>u. rt_url rt (open_prefix @ p) = Some u
        \<and> u_protocol u = js ''qbutt:'' \<and> u_hostname u = js ''open'' \<and> jm_get (url_params rt u) (js ''d'') = Some p))"

text \<open>\<open>JSON.parse\<close> inverts \<open>JSON.stringify\<close> on an item.\<close>

definition codec_ok :: "codec \<Rightarrow> shared_item \<Rightarrow> bool" where
  "codec_ok cc x \<longleftrightarrow> js_item cc (js_bytes cc x) = Some x \<and> js_bytes cc x \<noteq> [] \<and> list_all (\<lambda>b. b < 256) (js_bytes cc x)"

text \<open>The links of a variant are public and stay as they are.\<close>

definition fixed_refs :: "runtime \<Rightarrow> variant \<Rightarrow> bool" where
  "fixed_refs rt v \<longleftrightarrow> publicReference rt (Some (v_url v)) = Some (v_url v)
     \<and> publicReference rt (v_magnet v) = v_magnet v"

lemma clip_clip [simp]: "0 < n \<Longrightarrow> clip n (clip n s) = clip n s"
  by (auto simp: clip_def truthy_def split: option.splits)

lemma fails_neq [simp]: "fails m \<noteq> Inr x"
  by (simp add: fails_def)

lemma take_link: "take 128 s = js ''link'' \<longleftrightarrow> s = js ''link''"
proof
  assume a: "take 128 s = js ''link''"
  then have "length (take 128 s) = 4" by simp
  then have "length s \<le> 128" by (simp split: if_splits)
  with a show "s = js ''link''" by simp
qed simp

lemma linkId_length: "link_laws rt \<Longrightarrow> length (linkId rt u) \<le> 1024"
  unfolding link_laws_def linkId_def
  by (simp only: length_append) (rule order_trans[of _ "5 + 64"], auto)

lemma shared_fields_simps [simp]:
  "v_id (shared_fields rt v u) = take 1024 (v_id v)" "v_sourceId (shared_fields rt v u) = take 128 (v_sourceId v)"
  "v_url (shared_fields rt v u) = u" "v_transport (shared_fields rt v u) = v_transport v"
  "v_downloadUrl (shared_fields rt v u) = None" "v_notes (shared_fields rt v u) = None"
  "v_facets (shared_fields rt v u) = None" "v_seeders (shared_fields rt v u) = None"
  "v_languages (shared_fields rt v u) = None"
  "v_magnet (shared_fields rt v u) = (let m = publicReference rt (v_magnet v) in
     if m \<noteq> None \<and> starts_with (or_empty m) (js ''magnet:'') then m else None)"
  by (simp_all add: shared_fields_def new_variant_def)

lemma sharedVariant_Inr:
  assumes "sharedVariant rt v = Inr s"
  shows "\<exists>u. u \<noteq> [] \<and> publicReference rt (Some (v_url (persistentVariant rt v))) = Some u
     \<and> s = shared_fields rt (persistentVariant rt v) u \<and> \<not> truthy (captureSelectionId rt v)
     \<and> v_id (persistentVariant rt v) \<noteq> [] \<and> v_sourceId v \<noteq> []"
  using assms
  by (auto simp: sharedVariant_def Let_def fails_def truthy_def simp del: persistentVariant_simps(6)
      split: if_splits option.splits)

lemma uuid_ne: "is_uuid s \<Longrightarrow> s \<noteq> []"
  by (auto simp: is_uuid_def)

lemma captureSelectionId_link:
  "captureSelectionId rt v = Some i \<Longrightarrow> v_sourceId v = js ''link'' \<and> i \<noteq> []
     \<and> v_id v = linkId rt (v_url v) @ js '':capture:'' @ i"
  by (auto simp: captureSelectionId_def Let_def uuid_ne dest!: starts_withE split: if_splits)

lemma linkId_fixed: "publicReference rt (Some u) = Some r \<Longrightarrow> r \<noteq> [] \<Longrightarrow>
    publicReference rt (Some r) = Some r \<Longrightarrow> linkId rt r = linkId rt u"
  by (rule linkId_public)

lemma captureSelectionId_none: "\<not> truthy (captureSelectionId rt v) \<Longrightarrow> captureSelectionId rt v = None"
  by (cases "captureSelectionId rt v") (auto dest: captureSelectionId_link)

text \<open>Sharing what was shared changes nothing.\<close>

lemma shared_fields_idem:
  assumes "link_laws rt" "fixed_refs rt v"
  shows "shared_fields rt (shared_fields rt v u) u = shared_fields rt v u"
proof -
  have hash: "rt_lower rt h = map ascii_lower h \<and> list_all is_hex (map ascii_lower h)
      \<and> rt_lower rt (map ascii_lower h) = map ascii_lower h" if "list_all is_hex h" for h
  proof -
    have "list_all is_hex (map ascii_lower h)"
      using that by (auto simp: list_all_iff dest: is_hex_ascii_lower is_hex_lower_hex)
    with that assms(1) show ?thesis by (simp add: link_laws_def)
  qed
  have magnet: "publicReference rt (v_magnet v) = v_magnet v" using assms(2) by (simp add: fixed_refs_def)
  have none: "publicReference rt None = None" by (simp add: publicReference_def)
  show ?thesis
    unfolding shared_fields_def new_variant_def magnet Let_def
    using hash[of "or_empty (v_infoHash v)"] by (simp add: magnet none)
qed

lemma shared_persistent:
  assumes laws: "link_laws rt" and fixed: "fixed_refs rt (persistentVariant rt v)"
    and s: "sharedVariant rt v = Inr s"
  shows "persistentVariant rt s = s \<and> captureSelectionId rt s = None"
proof -
  let ?p = "persistentVariant rt v"
  from sharedVariant_Inr[OF s] fixed have
    p: "publicReference rt (Some (v_url ?p)) = Some (v_url ?p)" "v_url ?p \<noteq> []" "s = shared_fields rt ?p (v_url ?p)"
      "captureSelectionId rt v = None"
    by (auto simp: fixed_refs_def captureSelectionId_none simp del: persistentVariant_simps(6))
  then obtain r where r: "publicReference rt (Some (v_url v)) = Some r" "v_url ?p = r"
    by (cases "publicReference rt (Some (v_url v))") auto
  with p have rr: "publicReference rt (Some r) = Some r" "r \<noteq> []" by simp_all
  have link: "linkId rt r = linkId rt (v_url v)" by (rule linkId_public[OF r(1) rr(2,1)])
  have vid: "v_id s = linkId rt r \<and> v_sourceId v = js ''link''" if "v_sourceId s = js ''link''"
  proof -
    from that p(3) have "v_sourceId v = js ''link''" by (simp only: shared_fields_simps persistentVariant_simps take_link)
    with p linkId_length[OF laws, of "v_url v"] link show ?thesis by (simp add: persistentVariant_id)
  qed
  have vu: "v_url s = r" unfolding p(3) shared_fields_simps by (rule r(2))
  have cap: "captureSelectionId rt s = None"
  proof (rule ccontr)
    assume "captureSelectionId rt s \<noteq> None"
    then obtain i where "captureSelectionId rt s = Some i" by blast
    from captureSelectionId_link[OF this] have "v_sourceId s = js ''link''" "v_id s = linkId rt r @ js '':capture:'' @ i"
      unfolding vu by blast+
    with vid show False by (simp only: append_self_conv append_is_Nil_conv) simp
  qed
  have "v_magnet s = None \<or> v_magnet s = v_magnet ?p"
    using fixed unfolding p(3) by (simp add: fixed_refs_def Let_def)
  then have "publicReference rt (v_magnet s) = v_magnet s"
    using fixed by (auto simp: fixed_refs_def publicReference_def[of rt None])
  moreover have "v_downloadUrl s = None" "v_notes s = None" unfolding p(3) by simp_all
  ultimately have "persistentVariant rt s = s"
    using cap vid rr vu by (simp add: persistentVariant_def persistentNotes_def)
  with cap show ?thesis by simp
qed

lemma sharedVariant_idem:
  assumes laws: "link_laws rt" and fixed: "fixed_refs rt (persistentVariant rt v)"
    and s: "sharedVariant rt v = Inr s"
  shows "sharedVariant rt s = Inr s"
proof -
  let ?p = "persistentVariant rt v"
  from sharedVariant_Inr[OF s] fixed have
    p: "publicReference rt (Some (v_url ?p)) = Some (v_url ?p)" "v_url ?p \<noteq> []" "s = shared_fields rt ?p (v_url ?p)"
      "v_id ?p \<noteq> []" "v_sourceId v \<noteq> []"
    by (auto simp: fixed_refs_def simp del: persistentVariant_simps(6))
  note sp = shared_persistent[OF assms]
  have url: "v_url s = v_url ?p" using p(3) by (simp only: shared_fields_simps)
  have "shared_fields rt s (v_url s) = s"
    using shared_fields_idem[OF laws fixed, of "v_url ?p"] p(3) url by simp
  moreover have "v_id s \<noteq> []" "v_sourceId s \<noteq> []" using p(3,4,5) by simp_all
  ultimately show ?thesis
    using sp p(1,2) url by (simp add: sharedVariant_def Let_def del: persistentVariant_simps(6))
qed

section \<open>Links\<close>

lemma share_link:
  assumes laws: "open_url_law rt" and s: "share rt cc x = Inr link"
    and json: "\<And>n. normalize_item rt (x\<lparr>si_version := 1\<rparr>) = Inr n \<Longrightarrow> codec_ok cc n"
  shows "\<exists>n. normalize_item rt (x\<lparr>si_version := 1\<rparr>) = Inr n \<and> openLink rt cc link = normalize_item rt n"
proof -
  from s obtain n where n: "normalize_item rt (x\<lparr>si_version := 1\<rparr>) = Inr n"
    "length (js_bytes cc n) \<le> 16 * 1024" "link = open_prefix @ b64_encode (js_bytes cc n)"
    by (auto simp: share_def bind_r_Inr fails_def split: if_splits)
  let ?p = "b64_encode (js_bytes cc n)"
  have json: "js_item cc (js_bytes cc n) = Some n" "js_bytes cc n \<noteq> []" "list_all (\<lambda>b. b < 256) (js_bytes cc n)"
    using json[OF n(1)] by (auto simp: codec_ok_def)
  then have p: "?p \<noteq> []" "list_all is_b64 ?p" "b64_decode ?p = js_bytes cc n"
    by (auto simp: b64_encode_ne b64_encode_alphabet b64_roundtrip)
  with laws obtain u where u: "rt_url rt (open_prefix @ ?p) = Some u" "u_protocol u = js ''qbutt:''"
    "u_hostname u = js ''open''" "jm_get (url_params rt u) (js ''d'') = Some ?p"
    by (auto simp: open_url_law_def)
  have "length link \<le> 24 * 1024"
    using n(2) b64_length[of "js_bytes cc n"] by (simp add: n(3) open_prefix_def)
  then have "openLink rt cc link = normalize_item rt n"
    using u p json by (simp add: openLink_def n(3))
  with n(1) show ?thesis by blast
qed

lemma persistentWork_id_ne: "w_id w \<noteq> [] \<Longrightarrow> w_id (persistentWork rt w) \<noteq> []"
  by (auto simp: persistentWork_def linkId_def split: list.splits)

lemma normalize_exact:
  assumes "normalize_item rt x = Inr n" "si_mode x = js ''exact''"
  shows "\<exists>v s. si_variant x = Some v \<and> sharedVariant rt v = Inr s \<and> si_version n = 1 \<and> si_mode n = js ''exact''
     \<and> si_variant n = Some s \<and> w_variants (si_work n) = [s] \<and> w_title (si_work n) = take 512 (w_title (si_work x))
     \<and> w_category (si_work n) = w_category (si_work x) \<and> w_url (si_work n) = publicReference rt (w_url (si_work x))
     \<and> w_id (si_work n) = take 1024 (w_id (persistentWork rt (si_work x)))
     \<and> w_id (si_work n) \<noteq> [] \<and> w_title (si_work n) \<noteq> []"
proof -
  from assms have ok: "si_version x = 1" "w_id (si_work x) \<noteq> []" "w_title (si_work x) \<noteq> []"
    by (auto simp: normalize_item_def fails_def split: if_splits)
  with assms obtain v s where "si_variant x = Some v" "sharedVariant rt v = Inr s"
    by (auto simp: normalize_item_def Let_def bind_r_Inr fails_def split: option.splits if_splits)
  with assms ok persistentWork_id_ne[of "si_work x" rt] show ?thesis
    by (auto simp: normalize_item_def Let_def new_work_def)
qed


text \<open>
  A selection that belongs to a browser session cannot leave it. Whatever a capture
  link opens as, sharing that item is refused.
\<close>

theorem capture_not_shareable:
  assumes "open_capture rt c = Inr x"
  shows "share rt cc x = Inl (if w_title (si_work x) = []
     then Failed (js ''This qbutt link is incomplete or unsupported.'') else capture_session)"
proof -
  from assms obtain u where u: "rt_url rt (cd_pageUrl c) = Some u" and uuid: "is_uuid (cd_captureId c)"
    by (auto simp: open_capture_def fails_def split: if_splits option.splits)
  let ?href = "rt_href rt (u\<lparr>u_hash := []\<rparr>)"
  from assms u obtain title where x: "x = \<lparr>si_version = 1, si_mode = js ''exact'',
      si_work = (new_work (linkId rt ?href) title Movies
        [new_variant (linkId rt ?href @ js '':capture:'' @ cd_captureId c) (js ''link'') (js ''qcatch'') title ?href Video])
          \<lparr>w_url := Some ?href\<rparr>,
      si_variant = Some (new_variant (linkId rt ?href @ js '':capture:'' @ cd_captureId c) (js ''link'') (js ''qcatch'')
        title ?href Video),
      si_action = Some (cd_action c)\<rparr>"
    unfolding open_capture_def Let_def fails_def by (auto split: if_splits)
  let ?v = "new_variant (linkId rt ?href @ js '':capture:'' @ cd_captureId c) (js ''link'') (js ''qcatch'') title ?href Video"
  have "captureSelectionId rt ?v = Some (cd_captureId c)"
    using uuid by (simp add: captureSelectionId_def new_variant_def Let_def starts_with_def)
  then have "sharedVariant rt ?v = Inl capture_session"
    using uuid_ne[OF uuid] by (simp add: sharedVariant_def)
  then show ?thesis
    by (simp add: x share_def normalize_item_def new_work_def Let_def linkId_def fails_def)
qed

text \<open>
  A shared link carries public references only. Every variant in the normal form that
  is put into a link has the address of a public reference, a magnet link only when that
  is one, and neither download address, notes, facets nor seeders of the original.
\<close>

theorem shared_variant_public:
  assumes "sharedVariant rt v = Inr s"
  shows "(\<exists>t. publicReference rt (Some t) = Some (v_url s)) \<and> v_url s \<noteq> []
     \<and> (v_magnet s = None \<or> v_magnet s = publicReference rt (publicReference rt (v_magnet v)))
     \<and> v_downloadUrl s = None \<and> v_notes s = None \<and> v_facets s = None \<and> v_seeders s = None"
proof -
  from sharedVariant_Inr[OF assms] obtain u where u: "u \<noteq> []"
    "publicReference rt (Some (v_url (persistentVariant rt v))) = Some u"
    "s = shared_fields rt (persistentVariant rt v) u" by blast
  then have "v_url s = u" by simp
  with u show ?thesis by (auto simp: Let_def)
qed

section \<open>Witnesses\<close>

lemma sample_open_law: "open_url_law sample_runtime"
  unfolding open_url_law_def
proof (intro allI impI)
  fix p assume p: "p \<noteq> []" "list_all is_b64 p"
  have chars: "35 \<notin> set p" "63 \<notin> set p" "61 \<notin> set p" "38 \<notin> set p" "\<forall>c \<in> set p. c < 128"
    using p(2) by (auto simp: list_all_iff is_b64_def char_class_defs)
  have "split_at 35 (open_prefix @ p) = (open_prefix @ p, [])"
    using chars(1) by (intro split_at_none) (simp add: open_prefix_def)
  moreover have "split_at 63 (open_prefix @ p) = (js ''qbutt://open'', js ''d='' @ p)"
    using split_at_append[of 63 "js ''qbutt://open''" "js ''d='' @ p"] by (simp add: open_prefix_def)
  moreover have "split_at 58 (js ''qbutt://open'') = (js ''qbutt'', js ''//open'')" by code_simp
  moreover have "split_at 47 (js ''open'') = (js ''open'', [])" by code_simp
  ultimately have u: "sample_url (open_prefix @ p) = Some \<lparr>u_protocol = js ''qbutt:'', u_username = [], u_password = [],
      u_hostname = js ''open'', u_port = [], u_pathname = js ''/'', u_search = js ''d='' @ p, u_hash = []\<rparr>"
    by (simp add: sample_url_def)
  have "split_at 61 (js ''d='' @ p) = (js ''d'', p)"
    using split_at_append[of 61 "js ''d''" p] by simp
  moreover have "map form_unchar p = p" using chars(5) by (simp add: form_unchar_def map_idI)
  moreover have "split_char 38 (js ''d='' @ p) = [js ''d='' @ p]"
    using chars(4) by (intro split_char_single) simp
  ultimately have "sample_form_parse (js ''d='' @ p) = [(js ''d'', p)]"
    by (simp add: sample_form_parse_def form_unpair_def form_unchar_def)
  with u show "\<exists>u. rt_url sample_runtime (open_prefix @ p) = Some u \<and> u_protocol u = js ''qbutt:''
      \<and> u_hostname u = js ''open'' \<and> jm_get (url_params sample_runtime u) (js ''d'') = Some p"
    by (simp add: url_params_def)
qed

lemma sample_link_laws: "link_laws sample_runtime"
  by (simp add: link_laws_def)

definition sample_item :: shared_item where
  "sample_item = \<lparr>si_version = 1, si_mode = js ''exact'', si_work = new_work (js ''w'') (js ''T'') Movies [],
     si_variant = Some sample_variant, si_action = None\<rparr>"

text \<open>A codec for the sample's normal form.\<close>

definition sample_codec :: "shared_item \<Rightarrow> codec" where
  "sample_codec n = \<lparr>js_bytes = (\<lambda>_. map of_char ''{}''), js_item = (\<lambda>_. Some n), js_capture = (\<lambda>_. None)\<rparr>"


definition sample_capture :: capture_data where
  "sample_capture = \<lparr>cd_v = 1, cd_action = js ''watch'', cd_pageUrl = js ''https://a/b'', cd_title = js ''T'',
     cd_captureId = js ''00000000-0000-0000-0000-000000000000''\<rparr>"

theorem capture_not_shareable_witness:
  "\<exists>x. open_capture sample_runtime sample_capture = Inr x
     \<and> share sample_runtime (sample_codec x) x = Inl capture_session"
proof -
  have "case open_capture sample_runtime sample_capture of Inl _ \<Rightarrow> False | Inr x \<Rightarrow> w_title (si_work x) \<noteq> []"
    by code_simp
  then obtain x where "open_capture sample_runtime sample_capture = Inr x" "w_title (si_work x) \<noteq> []"
    by (auto split: sum.splits)
  with capture_not_shareable[of sample_runtime sample_capture x "sample_codec x"] show ?thesis by auto
qed

theorem shared_variant_public_witness:
  "\<exists>s. sharedVariant sample_runtime sample_variant = Inr s \<and> v_downloadUrl s = None \<and> v_url s \<noteq> []"
proof -
  have "case sharedVariant sample_runtime sample_variant of Inl _ \<Rightarrow> False | Inr _ \<Rightarrow> True" by code_simp
  then obtain s where "sharedVariant sample_runtime sample_variant = Inr s" by (auto split: sum.splits)
  with shared_variant_public[of sample_runtime sample_variant s] show ?thesis by auto
qed

end
