(* ===== verification/Net.thy ===== *)
theory Net
  imports SampleRuntime
begin

text \<open>
  \<open>net.ts\<close>: which addresses a source may reach, the redirect loop of \<open>sourceFetch\<close> with
  its cookies and credentials, the size limits of a response, and \<open>safeError\<close>. Sockets,
  DNS, the cookie jar and decompression are parameters. Header names are lower case, as
  the \<open>Headers\<close> class compares them without case.
\<close>

section \<open>Addresses\<close>

text \<open>\<open>isIP(s) === 4\<close>: four decimal octets without leading zeros.\<close>

definition is_octet :: "jstring \<Rightarrow> bool" where
  "is_octet s \<longleftrightarrow> s \<noteq> [] \<and> length s \<le> 3 \<and> list_all is_digit s \<and> (length s = 1 \<or> hd s \<noteq> 48) \<and> num_of s \<le> 255"

definition is_ipv4 :: "jstring \<Rightarrow> bool" where
  "is_ipv4 s \<longleftrightarrow> length (split_char 46 s) = 4 \<and> list_all is_octet (split_char 46 s)"

definition hex_digit_value :: "nat \<Rightarrow> nat" where
  "hex_digit_value c = (if is_digit c then c - 48 else c - 87)"

definition parse_hex :: "jstring \<Rightarrow> nat" where
  "parse_hex s = foldl (\<lambda>n c. 16 * n + hex_digit_value c) 0 s"

definition dotted :: "nat \<Rightarrow> nat \<Rightarrow> nat \<Rightarrow> nat \<Rightarrow> jstring" where
  "dotted a b c d = join [46] [to_dec a, to_dec b, to_dec c, to_dec d]"

definition is_group :: "jstring \<Rightarrow> bool" where
  "is_group s \<longleftrightarrow> in_range 1 4 (length s) \<and> list_all is_hex_lower s"

definition mapped_prefix :: jstring where
  "mapped_prefix = js ''::ffff:''"

text \<open>An IPv4-mapped IPv6 address, in groups or with dotted octets, is read as its IPv4 address.\<close>

definition unmapped :: "jstring \<Rightarrow> jstring" where
  "unmapped v =
     (if starts_with v mapped_prefix
      then (let rest = drop 7 v; parts = split_char 58 rest in
            if length parts = 2 \<and> list_all is_group parts
            then (let high = parse_hex (parts ! 0); low = parse_hex (parts ! 1)
                  in dotted (high div 256) (high mod 256) (low div 256) (low mod 256))
            else rest)
      else v)"

definition private_octets :: "nat \<Rightarrow> nat \<Rightarrow> bool" where
  "private_octets a b \<longleftrightarrow> a = 0 \<or> a = 10 \<or> a = 127 \<or> a \<ge> 224 \<or> (a = 169 \<and> b = 254)
     \<or> (a = 172 \<and> 16 \<le> b \<and> b \<le> 31) \<or> (a = 192 \<and> b = 168) \<or> (a = 100 \<and> 64 \<le> b \<and> b \<le> 127)"

definition isPrivateAddress :: "runtime \<Rightarrow> jstring \<Rightarrow> bool" where
  "isPrivateAddress rt address =
     (let v = unmapped (rt_lower rt address) in
      if is_ipv4 v
      then private_octets (num_of (split_char 46 v ! 0)) (num_of (split_char 46 v ! 1))
      else \<not> (5 \<le> length v \<and> v ! 0 \<in> {50, 51} \<and> list_all is_hex_lower (take 3 (drop 1 v)) \<and> v ! 4 = 58))"

text \<open>
  The network: \<open>isIP\<close> for IPv6 and DNS. An address carries its family.
\<close>

record network =
  net_ipv6 :: "jstring \<Rightarrow> bool"
  net_lookup :: "jstring \<Rightarrow> (error, (jstring \<times> nat) list) result"

text \<open>\<open>hostname.replace(/^\[|\]$/g, "")\<close>\<close>

definition bare_host :: "jstring \<Rightarrow> jstring" where
  "bare_host h =
     (let s = (if starts_with h (js ''['') then drop 1 h else h)
      in if s \<noteq> [] \<and> last s = 93 then butlast s else s)"

definition publicAddresses :: "runtime \<Rightarrow> network \<Rightarrow> url \<Rightarrow> (error, (jstring \<times> nat) list) result" where
  "publicAddresses rt net u =
     (if u_protocol u \<notin> {js ''https:'', js ''http:''} \<or> u_username u \<noteq> [] \<or> u_password u \<noteq> []
      then Inl (Failed (js ''This source URL is not supported.''))
      else let host = bare_host (u_hostname u) in
        bind_r (if is_ipv4 host then Inr [(host, 4)] else if net_ipv6 net host then Inr [(host, 6)]
                else net_lookup net host)
          (\<lambda>addresses. if addresses = [] \<or> list_ex (\<lambda>a. isPrivateAddress rt (fst a)) addresses
             then Inl (Failed (js ''Sources cannot access local network addresses.''))
             else Inr addresses))"

definition publicUrl :: "runtime \<Rightarrow> network \<Rightarrow> jstring \<Rightarrow> (error, url) result" where
  "publicUrl rt net s =
     (case rt_url rt s of
        None \<Rightarrow> Inl (Failed (js ''Invalid URL''))
      | Some u \<Rightarrow> bind_r (publicAddresses rt net u) (\<lambda>_. Inr u))"

section \<open>One request\<close>

definition maxResponseBytes :: nat where
  "maxResponseBytes = 24 * 1024 * 1024"

definition maxRequestBytes :: nat where
  "maxRequestBytes = 1024 * 1024"

type_synonym header_map = "(jstring, jstring) jmap"

record net_request =
  nq_url :: url
  nq_method :: jstring
  nq_body :: "nat list option"
  nq_headers :: header_map
  nq_addresses :: "(jstring \<times> nat) list"

text \<open>What the server sends: status, headers, cookies and the chunks of the body.\<close>

record net_incoming =
  ni_status :: nat
  ni_headers :: header_map
  ni_cookies :: "jstring list"
  ni_chunks :: "nat list list"

record net_response =
  ns_status :: nat
  ns_headers :: header_map
  ns_cookies :: "jstring list"
  ns_payload :: "nat list option"
  ns_url :: url

fun read_chunks :: "nat list \<Rightarrow> nat list list \<Rightarrow> nat list option" where
  "read_chunks payload [] = Some payload"
| "read_chunks payload (c # cs) =
     (if length payload + length c > maxResponseBytes then None else read_chunks (payload @ c) cs)"

definition too_large :: "error" where
  "too_large = Failed (js ''The source response is too large.'')"

text \<open>\<open>inflate\<close> stands for zlib and brotli with \<open>maxOutputLength\<close>; it may fail.\<close>

definition receive_response :: "(jstring \<Rightarrow> nat list \<Rightarrow> (error, nat list) result) \<Rightarrow> url \<Rightarrow> net_incoming
    \<Rightarrow> (error, net_response) result" where
  "receive_response inflate u i =
     (if (case jm_get (ni_headers i) (js ''content-length'') of
            None \<Rightarrow> False | Some n \<Rightarrow> n \<noteq> [] \<and> list_all is_digit n \<and> num_of n > maxResponseBytes)
      then Inl too_large
      else case read_chunks [] (ni_chunks i) of
          None \<Rightarrow> Inl too_large
        | Some payload \<Rightarrow>
            (let encoding = or_empty (jm_get (ni_headers i) (js ''content-encoding'')) in
             bind_r (if encoding \<in> {js ''gzip'', js ''br'', js ''deflate''} then inflate encoding payload
                     else Inr payload)
               (\<lambda>body. let status = (if ni_status i = 0 then 502 else ni_status i) in
                 Inr \<lparr>ns_status = status,
                  ns_headers = jm_delete (js ''content-length'') (jm_delete (js ''content-encoding'') (ni_headers i)),
                  ns_cookies = ni_cookies i,
                  ns_payload = (if status \<in> {204, 205, 304} then None else Some body), ns_url = u\<rparr>)))"

record 's transport_env =
  te_network :: network
  te_connect :: "net_request \<Rightarrow> (error, net_incoming) result"
  te_inflate :: "jstring \<Rightarrow> nat list \<Rightarrow> (error, nat list) result"
  te_agent :: "url \<Rightarrow> jstring option"
  te_jar_cookie :: "url \<Rightarrow> 's \<Rightarrow> jstring"
  te_jar_store :: "url \<Rightarrow> jstring \<Rightarrow> 's \<Rightarrow> 's"

text \<open>The request that would be sent, or the error that comes before it.\<close>

definition prepare_request :: "runtime \<Rightarrow> 's transport_env \<Rightarrow> url \<Rightarrow> jstring \<Rightarrow> nat list option \<Rightarrow> header_map
    \<Rightarrow> (error, net_request) result" where
  "prepare_request rt env u method body hs =
     bind_r (publicAddresses rt (te_network env) u) (\<lambda>addresses.
       if length (list_or body) > maxRequestBytes then Inl (Failed (js ''The source request is too large.''))
       else Inr \<lparr>nq_url = u, nq_method = method, nq_body = body, nq_headers = hs, nq_addresses = addresses\<rparr>)"

section \<open>sourceFetch\<close>

definition defaultUserAgent :: jstring where
  "defaultUserAgent = js ''Mozilla/5.0 (Windows NT 10.0; Win64; x64) AppleWebKit/537.36 Chrome/142.0.0.0 Safari/537.36''"

record fetch_state =
  ft_url :: url
  ft_method :: jstring
  ft_body :: "nat list option"
  ft_headers :: header_map

abbreviation h_cookie :: jstring where "h_cookie \<equiv> js ''cookie''"
abbreviation h_agent :: jstring where "h_agent \<equiv> js ''user-agent''"
abbreviation h_authorization :: jstring where "h_authorization \<equiv> js ''authorization''"
abbreviation h_proxy_authorization :: jstring where "h_proxy_authorization \<equiv> js ''proxy-authorization''"

text \<open>
  The headers of one request. A browser session replaces the user agent and the cookies;
  a configured cookie goes to its own origin only.
\<close>

definition current_headers :: "'s transport_env \<Rightarrow> (origin \<times> jstring) option \<Rightarrow> jstring option \<Rightarrow> 's \<Rightarrow> fetch_state
    \<Rightarrow> header_map" where
  "current_headers env cookie agent jar ft =
     (let u = ft_url ft;
          session = truthy (te_agent env u);
          hs = (if session then jm_delete h_cookie (jm_set h_agent (or_empty (te_agent env u)) (ft_headers ft))
                else if jm_has (ft_headers ft) h_agent then ft_headers ft
                else jm_set h_agent (if truthy agent then or_empty agent else defaultUserAgent) (ft_headers ft))
      in if jm_has hs h_cookie then hs
         else let own = (case cookie of
                    Some (origin, val) \<Rightarrow> if \<not> session \<and> origin = url_origin u then val else te_jar_cookie env u jar
                  | None \<Rightarrow> te_jar_cookie env u jar)
              in if own = [] then hs else jm_set h_cookie own hs)"

definition redirect_statuses :: "nat set" where
  "redirect_statuses = {301, 302, 303, 307, 308}"

definition upper_ascii :: "jstring \<Rightarrow> jstring" where
  "upper_ascii s = map (\<lambda>c. if is_lower c then c - 32 else c) s"

definition redirect_state :: "nat \<Rightarrow> url \<Rightarrow> fetch_state \<Rightarrow> fetch_state" where
  "redirect_state status target ft =
     (let hs = (if url_origin target \<noteq> url_origin (ft_url ft)
                then jm_delete h_proxy_authorization (jm_delete h_authorization (jm_delete h_cookie (ft_headers ft)))
                else ft_headers ft)
      in if status = 303 \<or> (status \<in> {301, 302} \<and> upper_ascii (ft_method ft) = js ''POST'')
         then \<lparr>ft_url = target, ft_method = js ''GET'', ft_body = None,
                ft_headers = jm_delete (js ''content-length'') (jm_delete (js ''content-type'') hs)\<rparr>
         else \<lparr>ft_url = target, ft_method = ft_method ft, ft_body = ft_body ft, ft_headers = hs\<rparr>)"

text \<open>
  The loop, with the number of requests that remain. It returns the requests it sent, the
  cookie jar and the result.
\<close>

fun fetch_loop :: "runtime \<Rightarrow> 's transport_env \<Rightarrow> (origin \<times> jstring) option \<Rightarrow> jstring option \<Rightarrow> nat \<Rightarrow> 's
    \<Rightarrow> fetch_state \<Rightarrow> net_request list \<times> 's \<times> (error, net_response) result" where
  "fetch_loop rt env cookie agent 0 jar ft = ([], jar, Inl (Failed (js ''The source redirected too many times.'')))"
| "fetch_loop rt env cookie agent (Suc n) jar ft =
     (case prepare_request rt env (ft_url ft) (ft_method ft) (ft_body ft) (current_headers env cookie agent jar ft) of
        Inl e \<Rightarrow> ([], jar, Inl e)
      | Inr q \<Rightarrow>
          (case bind_r (te_connect env q) (receive_response (te_inflate env) (ft_url ft)) of
             Inl e \<Rightarrow> ([q], jar, Inl e)
           | Inr r \<Rightarrow>
               (let jar' = fold (te_jar_store env (ft_url ft)) (ns_cookies r) jar in
                if ns_status r \<notin> redirect_statuses then ([q], jar', Inr r)
                else (case jm_get (ns_headers r) (js ''location'') of
                    None \<Rightarrow> ([q], jar', Inl (Failed (js ''The source returned an incomplete redirect.'')))
                  | Some target \<Rightarrow>
                      if target = [] then ([q], jar', Inl (Failed (js ''The source returned an incomplete redirect.'')))
                      else (case rt_url_at rt target (ft_url ft) of
                          None \<Rightarrow> ([q], jar', Inl (Failed (js ''Invalid URL'')))
                        | Some u \<Rightarrow>
                            (case fetch_loop rt env cookie agent n jar' (redirect_state (ns_status r) u ft) of
                               (qs, jar'', result) \<Rightarrow> (q # qs, jar'', result)))))))"

definition sourceFetch :: "runtime \<Rightarrow> 's transport_env \<Rightarrow> (origin \<times> jstring) option \<Rightarrow> jstring option \<Rightarrow> 's
    \<Rightarrow> jstring \<Rightarrow> jstring option \<Rightarrow> nat list option \<Rightarrow> header_map
    \<Rightarrow> net_request list \<times> 's \<times> (error, net_response) result" where
  "sourceFetch rt env cookie agent jar address method body hs =
     (case rt_url rt address of
        None \<Rightarrow> ([], jar, Inl (Failed (js ''Invalid URL'')))
      | Some u \<Rightarrow> fetch_loop rt env cookie agent 6 jar
          \<lparr>ft_url = u, ft_method = (if truthy method then or_empty method else js ''GET''), ft_body = body,
           ft_headers = jm_set (js ''accept-encoding'') (js ''identity'') hs\<rparr>)"

section \<open>safeError\<close>

text \<open>\<open>/https?:\/\/[^\s"<>]+/g\<close>\<close>

definition source_url_rx :: rx where
  "source_url_rx = RSeqs [RLit (js ''http''), ROpt (RLit (js ''s'')), RLit (js ''://''),
     RPlus (RCh (\<lambda>c. \<not> is_space c \<and> c \<notin> {34, 60, 62}))]"

text \<open>\<open>/(cookie|token|passkey|api[_-]?key|authorization)\s*[:=]\s*[^\s,;]+/gi\<close>\<close>

definition secret_rx :: rx where
  "secret_rx = RSeqs
     [RGroup 1 (RAlts [RLitI (js ''cookie''), RLitI (js ''token''), RLitI (js ''passkey''),
        RSeqs [RLitI (js ''api''), ROpt (RCh (\<lambda>c. c = 95 \<or> c = 45)), RLitI (js ''key'')],
        RLitI (js ''authorization'')]),
      RSpaces, RCh (\<lambda>c. c = 58 \<or> c = 61), RSpaces, RPlus (RCh (\<lambda>c. \<not> is_space c \<and> c \<noteq> 44 \<and> c \<noteq> 59))]"

definition error_message :: "error \<Rightarrow> jstring" where
  "error_message e = (case e of Failed m \<Rightarrow> m | Content _ m _ \<Rightarrow> m | Aborted \<Rightarrow> js ''Cancelled''
     | TimedOut \<Rightarrow> js ''The operation timed out.'')"

definition hide_secrets :: "jstring \<Rightarrow> jstring" where
  "hide_secrets m =
     take 240 (rx_replace secret_rx (\<lambda>f. or_empty (cap f 1) @ js ''=[hidden]'')
       (rx_replace source_url_rx (\<lambda>_. js ''[source]'') m))"

definition safeError :: "error \<Rightarrow> jstring" where
  "safeError e = (if e = Aborted then js ''Cancelled'' else hide_secrets (error_message e))"

section \<open>Facts on addresses\<close>

definition ascii_lower_law :: "runtime \<Rightarrow> bool" where
  "ascii_lower_law rt \<longleftrightarrow> (\<forall>s. (\<forall>c \<in> set s. c < 128) \<longrightarrow> rt_lower rt s = map ascii_lower s)"

lemma to_dec_small:
  "n < 10 \<Longrightarrow> to_dec n = [48 + n]"
  "10 \<le> n \<Longrightarrow> n < 100 \<Longrightarrow> to_dec n = [48 + n div 10, 48 + n mod 10]"
  "100 \<le> n \<Longrightarrow> n < 1000 \<Longrightarrow> to_dec n = [48 + n div 100, 48 + n div 10 mod 10, 48 + n mod 10]"
proof -
  show "n < 10 \<Longrightarrow> to_dec n = [48 + n]" for n by (subst to_dec.simps) simp
  then show two: "10 \<le> n \<Longrightarrow> n < 100 \<Longrightarrow> to_dec n = [48 + n div 10, 48 + n mod 10]" for n
    by (subst to_dec.simps) simp
  show "100 \<le> n \<Longrightarrow> n < 1000 \<Longrightarrow> to_dec n = [48 + n div 100, 48 + n div 10 mod 10, 48 + n mod 10]"
    using two[of "n div 10"] by (subst to_dec.simps) (simp add: div_mult2_eq[symmetric])
qed

lemma octet_to_dec: "n < 256 \<Longrightarrow> is_octet (to_dec n)"
proof -
  assume n: "n < 256"
  consider "n < 10" | "10 \<le> n" "n < 100" | "100 \<le> n" by linarith
  then have "length (to_dec n) \<le> 3 \<and> (length (to_dec n) = 1 \<or> hd (to_dec n) \<noteq> 48)"
    using n by cases (auto simp: to_dec_small)
  then show ?thesis using n to_dec_digits[of n] by (simp add: is_octet_def num_of_to_dec)
qed

lemma octet_chars: "is_octet s \<Longrightarrow> c \<in> set s \<Longrightarrow> 48 \<le> c \<and> c \<le> 57"
  by (auto simp: is_octet_def list_all_iff is_digit_def in_range_def)

lemma dotted_split: "split_char 46 (dotted a b c d) = [to_dec a, to_dec b, to_dec c, to_dec d]"
proof -
  have "46 \<notin> set (to_dec n)" for n
    using to_dec_digits[of n] by (auto simp: list_all_iff is_digit_def in_range_def)
  then show ?thesis unfolding dotted_def by (intro split_join) auto
qed

lemma dotted_ipv4:
  assumes "a < 256" "b < 256" "c < 256" "d < 256"
  shows "is_ipv4 (dotted a b c d)"
  using assms by (simp add: is_ipv4_def dotted_split octet_to_dec)

lemma dotted_chars: "x \<in> set (dotted a b c d) \<Longrightarrow> x = 46 \<or> (48 \<le> x \<and> x \<le> 57)"
  using to_dec_digits by (force simp: dotted_def list_all_iff is_digit_def in_range_def)

lemma dotted_private:
  assumes "a < 256" "b < 256" "c < 256" "d < 256" "unmapped (rt_lower rt s) = dotted a b c d"
  shows "isPrivateAddress rt s = private_octets a b"
  using assms dotted_ipv4[OF assms(1-4)]
  by (simp add: isPrivateAddress_def dotted_split num_of_to_dec Let_def)

lemma ascii_lower_fixed: "\<forall>c \<in> set s. \<not> is_upper c \<Longrightarrow> map ascii_lower s = s"
  by (simp add: map_idI ascii_lower_def)

lemma parse_hex_bound: "list_all is_hex_lower s \<Longrightarrow> parse_hex s < 16 ^ length s"
proof (induction s rule: rev_induct)
  case (snoc c s)
  have "hex_digit_value c < 16" using snoc.prems by (auto simp: hex_digit_value_def char_class_defs)
  with snoc show ?case by (simp add: parse_hex_def)
qed (simp add: parse_hex_def)

lemma group_bound: "is_group s \<Longrightarrow> parse_hex s < 65536"
proof -
  assume s: "is_group s"
  then have "(16::nat) ^ length s \<le> 16 ^ 4" by (intro power_increasing) (auto simp: is_group_def in_range_def)
  with s parse_hex_bound[of s] show ?thesis by (simp add: is_group_def)
qed

text \<open>
  C34: a private IPv4 address is refused in every spelling. A dotted address, the same
  address after \<open>::ffff:\<close>, and \<open>::ffff:\<close> followed by two groups of hexadecimal digits
  are private exactly when the first two octets lie in a reserved block.
\<close>

theorem private_address_spellings:
  assumes law: "ascii_lower_law rt" and o: "a < 256" "b < 256" "c < 256" "d < 256"
    and g: "is_group g" "is_group h"
  shows "isPrivateAddress rt (dotted a b c d) = private_octets a b
     \<and> isPrivateAddress rt (js ''::ffff:'' @ dotted a b c d) = private_octets a b
     \<and> isPrivateAddress rt (js ''::ffff:'' @ g @ 58 # h) = private_octets (parse_hex g div 256) (parse_hex g mod 256)"
proof -
  let ?d = "dotted a b c d"
  have low: "rt_lower rt s = s" if "\<forall>x \<in> set s. x < 128 \<and> \<not> is_upper x" for s
    using that law ascii_lower_fixed[of s] by (simp add: ascii_lower_law_def)
  have dch: "\<forall>x \<in> set ?d. x < 128 \<and> \<not> is_upper x \<and> x \<noteq> 58"
    using dotted_chars[of _ a b c d] by (fastforce simp: is_upper_def in_range_def)
  have hd: "\<not> starts_with ?d mapped_prefix"
  proof
    assume "starts_with ?d mapped_prefix"
    from starts_withE[OF this] have "58 \<in> set ?d" by (simp add: mapped_prefix_def) (metis list.set_intros(1))
    with dch show False by blast
  qed
  have 1: "unmapped (rt_lower rt ?d) = ?d" using low[of ?d] dch hd by (simp add: unmapped_def)
  have "split_char 58 ?d = [?d]" using dch by (intro split_char_single) blast
  then have 2: "unmapped (rt_lower rt (js ''::ffff:'' @ ?d)) = ?d"
    using low[of "js ''::ffff:'' @ ?d"] dch
    by (simp add: unmapped_def mapped_prefix_def starts_with_def is_upper_def in_range_def)
  have gch: "\<forall>x \<in> set s. x < 128 \<and> \<not> is_upper x \<and> x \<noteq> 58" if "is_group s" for s
    using that by (auto simp: is_group_def list_all_iff char_class_defs)
  have parts: "split_char 58 (g @ 58 # h) = [g, h]"
  proof -
    have "58 \<notin> set g" "58 \<notin> set h" using gch[OF g(1)] gch[OF g(2)] by blast+
    then show ?thesis by (simp add: split_char_append split_char_single)
  qed
  let ?m = "dotted (parse_hex g div 256) (parse_hex g mod 256) (parse_hex h div 256) (parse_hex h mod 256)"
  have 3: "unmapped (rt_lower rt (js ''::ffff:'' @ g @ 58 # h)) = ?m"
  proof -
    have "\<forall>x \<in> set (js ''::ffff:'' @ g @ 58 # h). x < 128 \<and> \<not> is_upper x"
      using gch[OF g(1)] gch[OF g(2)] by (auto simp: is_upper_def in_range_def)
    then have "rt_lower rt (js ''::ffff:'' @ g @ 58 # h) = js ''::ffff:'' @ g @ 58 # h" by (rule low)
    then show ?thesis using parts g by (simp add: unmapped_def mapped_prefix_def starts_with_def Let_def)
  qed
  have bounds: "parse_hex g div 256 < 256" "parse_hex h div 256 < 256" "parse_hex g mod 256 < 256" "parse_hex h mod 256 < 256"
    using group_bound[OF g(1)] group_bound[OF g(2)] by auto
  show ?thesis
    using dotted_private[OF o 1] dotted_private[OF o 2] dotted_private[OF bounds(1,3,2,4) 3] by blast
qed

lemma sample_ascii_lower: "ascii_lower_law sample_runtime"
  by (simp add: ascii_lower_law_def)

theorem private_address_spellings_witness:
  "isPrivateAddress sample_runtime (dotted 192 168 1 7)
   \<and> isPrivateAddress sample_runtime (js ''::ffff:192.168.1.7'')
   \<and> isPrivateAddress sample_runtime (js ''::ffff:c0a8:107'')"
proof -
  have eqs: "js ''::ffff:'' @ dotted 192 168 1 7 = js ''::ffff:192.168.1.7''"
    "js ''::ffff:'' @ js ''c0a8'' @ 58 # js ''107'' = js ''::ffff:c0a8:107''"
    and ok: "(192::nat) < 256" "(168::nat) < 256" "(1::nat) < 256" "(7::nat) < 256"
      "is_group (js ''c0a8'')" "is_group (js ''107'')"
    and reserved: "private_octets 192 168"
      "private_octets (parse_hex (js ''c0a8'') div 256) (parse_hex (js ''c0a8'') mod 256)"
    by code_simp+
  from private_address_spellings[OF sample_ascii_lower ok] reserved show ?thesis unfolding eqs by blast
qed

lemma publicAddresses_public:
  assumes "publicAddresses rt net u = Inr addresses"
  shows "u_protocol u \<in> {js ''https:'', js ''http:''} \<and> u_username u = [] \<and> u_password u = []
     \<and> addresses \<noteq> [] \<and> list_all (\<lambda>a. \<not> isPrivateAddress rt (fst a)) addresses"
  using assms
  by (auto simp: publicAddresses_def Let_def bind_r_Inr list_all_iff list_ex_iff split: if_splits)

section \<open>Facts on redirects\<close>

definition credential_headers :: "jstring list" where
  "credential_headers = [h_cookie, h_authorization, h_proxy_authorization]"

text \<open>The caller's credentials are only kept while the origin is the first one.\<close>

definition confined :: "origin \<Rightarrow> fetch_state \<Rightarrow> bool" where
  "confined origin ft \<longleftrightarrow> (\<forall>h \<in> set credential_headers. jm_has (ft_headers ft) h \<longrightarrow> url_origin (ft_url ft) = origin)"

lemma jm_has_set [simp]: "jm_has (jm_set k v m) i \<longleftrightarrow> i = k \<or> jm_has m i"
  by (simp add: jm_has_def)

lemma jm_has_delete [simp]: "jm_has (jm_delete k m) i \<longleftrightarrow> i \<noteq> k \<and> jm_has m i"
  by (simp add: jm_has_def)

lemma redirect_confined: "confined origin ft \<Longrightarrow> confined origin (redirect_state status u ft)"
  by (auto simp: confined_def redirect_state_def credential_headers_def Let_def)

lemma redirect_cookie:
  "jm_get (ft_headers (redirect_state status u ft)) h_cookie = Some c \<Longrightarrow> jm_get (ft_headers ft) h_cookie = Some c"
  by (auto simp: redirect_state_def Let_def split: if_splits)

lemma current_headers_other:
  "k \<noteq> h_agent \<Longrightarrow> k \<noteq> h_cookie \<Longrightarrow> jm_get (current_headers env cookie agent jar ft) k = jm_get (ft_headers ft) k"
  by (simp add: current_headers_def Let_def)

lemma current_headers_cookie:
  assumes "jm_get (current_headers env cookie agent jar ft) h_cookie = Some c"
  shows "jm_get (ft_headers ft) h_cookie = Some c \<or> cookie = Some (url_origin (ft_url ft), c)
     \<or> c = te_jar_cookie env (ft_url ft) jar"
  using assms by (auto simp: current_headers_def Let_def jm_has_def split: if_splits option.splits)

text \<open>What may be sent: public addresses, and every credential only where it belongs.\<close>

definition request_ok :: "runtime \<Rightarrow> 's transport_env \<Rightarrow> (origin \<times> jstring) option \<Rightarrow> origin \<Rightarrow> jstring option
    \<Rightarrow> net_request \<Rightarrow> bool" where
  "request_ok rt env cookie origin own q \<longleftrightarrow>
     publicAddresses rt (te_network env) (nq_url q) = Inr (nq_addresses q)
   \<and> length (list_or (nq_body q)) \<le> maxRequestBytes
   \<and> (jm_has (nq_headers q) h_authorization \<longrightarrow> url_origin (nq_url q) = origin)
   \<and> (jm_has (nq_headers q) h_proxy_authorization \<longrightarrow> url_origin (nq_url q) = origin)
   \<and> (case jm_get (nq_headers q) h_cookie of
        None \<Rightarrow> True
      | Some c \<Rightarrow> (own = Some c \<and> url_origin (nq_url q) = origin)
          \<or> cookie = Some (url_origin (nq_url q), c)
          \<or> (\<exists>jar. c = te_jar_cookie env (nq_url q) jar))"

lemma prepared_ok:
  assumes conf: "confined origin ft" and own: "\<And>c. jm_get (ft_headers ft) h_cookie = Some c \<Longrightarrow> own = Some c"
    and q: "prepare_request rt env (ft_url ft) method body (current_headers env cookie agent jar ft) = Inr q"
  shows "request_ok rt env cookie origin own q"
proof -
  from q have q': "publicAddresses rt (te_network env) (ft_url ft) = Inr (nq_addresses q)" "nq_url q = ft_url ft"
    "nq_headers q = current_headers env cookie agent jar ft" "length (list_or (nq_body q)) \<le> maxRequestBytes"
    by (auto simp: prepare_request_def bind_r_Inr not_less split: if_splits)
  have auth: "jm_has (current_headers env cookie agent jar ft) h \<longleftrightarrow> jm_has (ft_headers ft) h"
    if "h \<noteq> h_agent" "h \<noteq> h_cookie" for h
    using that by (simp add: jm_has_def current_headers_other)
  show ?thesis
    using conf auth[of h_authorization] auth[of h_proxy_authorization] q'
      current_headers_cookie[of env cookie agent jar ft] own
    by (auto simp: request_ok_def confined_def credential_headers_def jm_has_def split: option.splits)
qed

lemma fetch_loop_ok:
  assumes "fetch_loop rt env cookie agent n jar ft = (qs, jar', r)" "confined origin ft"
    and "\<And>c. jm_get (ft_headers ft) h_cookie = Some c \<Longrightarrow> own = Some c"
  shows "length qs \<le> n \<and> (\<forall>q \<in> set qs. request_ok rt env cookie origin own q)"
  using assms
proof (induction n arbitrary: jar ft qs)
  case (Suc n)
  show ?case
  proof (cases "prepare_request rt env (ft_url ft) (ft_method ft) (ft_body ft) (current_headers env cookie agent jar ft)")
    case (Inl e)
    with Suc.prems(1) show ?thesis by simp
  next
    case (Inr q)
    have ok: "request_ok rt env cookie origin own q" by (rule prepared_ok[OF Suc.prems(2,3) Inr])
    have "qs = [q] \<or> (\<exists>jar1 u status qs1. qs = q # qs1
        \<and> fetch_loop rt env cookie agent n jar1 (redirect_state status u ft) = (qs1, jar', r))"
      using Suc.prems(1) Inr
      by (auto simp: Let_def split: sum.splits if_splits option.splits prod.splits)
    then show ?thesis
    proof (elim disjE exE conjE)
      fix jar1 u status qs1
      assume qs: "qs = q # qs1" and rec: "fetch_loop rt env cookie agent n jar1 (redirect_state status u ft) = (qs1, jar', r)"
      have "length qs1 \<le> n \<and> (\<forall>q \<in> set qs1. request_ok rt env cookie origin own q)"
        by (rule Suc.IH[OF rec redirect_confined[OF Suc.prems(2)]]) (rule Suc.prems(3), rule redirect_cookie)
      with qs ok show ?thesis by simp
    qed (use ok in simp)
  qed
qed simp

text \<open>
  C3: following redirects stays within bounds. At most six requests are sent; each goes to
  checked public addresses with a body of at most 1 MiB. The caller's authorization
  headers and cookie are sent to the first origin only, a configured cookie to its own
  origin, and any other cookie comes from the jar for that URL.
\<close>

theorem sourceFetch_confined:
  assumes "rt_url rt address = Some u"
    and "sourceFetch rt env cookie agent jar address method body hs = (qs, jar', r)"
  shows "length qs \<le> 6 \<and> (\<forall>q \<in> set qs.
       publicAddresses rt (te_network env) (nq_url q) = Inr (nq_addresses q)
     \<and> list_all (\<lambda>a. \<not> isPrivateAddress rt (fst a)) (nq_addresses q) \<and> nq_addresses q \<noteq> []
     \<and> length (list_or (nq_body q)) \<le> maxRequestBytes
     \<and> (jm_has (nq_headers q) h_authorization \<longrightarrow> url_origin (nq_url q) = url_origin u)
     \<and> (jm_has (nq_headers q) h_proxy_authorization \<longrightarrow> url_origin (nq_url q) = url_origin u)
     \<and> (case jm_get (nq_headers q) h_cookie of
          None \<Rightarrow> True
        | Some c \<Rightarrow> (jm_get hs h_cookie = Some c \<and> url_origin (nq_url q) = url_origin u)
            \<or> cookie = Some (url_origin (nq_url q), c)
            \<or> (\<exists>jar. c = te_jar_cookie env (nq_url q) jar)))"
proof -
  let ?ft = "\<lparr>ft_url = u, ft_method = (if truthy method then or_empty method else js ''GET''), ft_body = body,
           ft_headers = jm_set (js ''accept-encoding'') (js ''identity'') hs\<rparr>"
  have loop: "fetch_loop rt env cookie agent 6 jar ?ft = (qs, jar', r)"
    using assms by (simp only: sourceFetch_def option.case)
  have own: "jm_get hs h_cookie = Some c" if "jm_get (ft_headers ?ft) h_cookie = Some c" for c
    using that by simp
  have conf: "confined (url_origin u) ?ft" by (simp add: confined_def)
  have ok: "length qs \<le> 6" "\<forall>q \<in> set qs. request_ok rt env cookie (url_origin u) (jm_get hs h_cookie) q"
    using fetch_loop_ok[OF loop conf own] by blast+
  then show ?thesis
    using publicAddresses_public unfolding request_ok_def by (metis (no_types, lifting))
qed

lemma read_chunks_bound:
  "read_chunks payload cs = Some out \<Longrightarrow> length payload \<le> maxResponseBytes \<Longrightarrow>
     out = payload @ concat cs \<and> length out \<le> maxResponseBytes"
  by (induction payload cs rule: read_chunks.induct) (auto split: if_splits)

text \<open>
  No response is larger than 24 MiB, compressed or not, when the decompressor honours
  its output limit; without a content encoding the payload is what the server sent.
\<close>

theorem response_bounded:
  assumes "\<And>e p out. inflate e p = Inr out \<Longrightarrow> length out \<le> maxResponseBytes"
    and "receive_response inflate u i = Inr r"
  shows "length (list_or (ns_payload r)) \<le> maxResponseBytes
     \<and> (\<not> jm_has (ni_headers i) (js ''content-encoding'') \<longrightarrow>
          ns_payload r = (if ns_status r \<in> {204, 205, 304} then None else Some (concat (ni_chunks i))))"
proof -
  from assms(2) obtain payload where p: "read_chunks [] (ni_chunks i) = Some payload"
    by (auto simp: receive_response_def split: if_splits option.splits)
  have len: "payload = concat (ni_chunks i)" "length payload \<le> maxResponseBytes"
    using read_chunks_bound[OF p] by auto
  from assms(2) p obtain body where body: "ns_payload r = (if ns_status r \<in> {204, 205, 304} then None else Some body)"
    and src: "(if or_empty (jm_get (ni_headers i) (js ''content-encoding'')) \<in> {js ''gzip'', js ''br'', js ''deflate''}
        then inflate (or_empty (jm_get (ni_headers i) (js ''content-encoding''))) payload else Inr payload) = Inr body"
    unfolding receive_response_def Let_def by (auto simp: bind_r_Inr split: if_splits)
  from src assms(1) len have "length body \<le> maxResponseBytes" by (auto split: if_splits)
  moreover have "body = payload" if "\<not> jm_has (ni_headers i) (js ''content-encoding'')"
    using that src by (simp add: jm_has_def)
  ultimately show ?thesis using body len by simp
qed

section \<open>Witnesses\<close>

text \<open>A host \<open>a\<close> that redirects to the host \<open>b\<close>.\<close>

definition sample_network :: network where
  "sample_network = \<lparr>net_ipv6 = (\<lambda>_. False), net_lookup = (\<lambda>_. Inr [(js ''93.184.216.34'', 4)])\<rparr>"

definition sample_env :: "unit transport_env" where
  "sample_env = \<lparr>te_network = sample_network,
     te_connect = (\<lambda>q. Inr \<lparr>ni_status = (if u_hostname (nq_url q) = js ''a'' then 302 else 200),
        ni_headers = [(js ''location'', js ''https://b/x'')], ni_cookies = [], ni_chunks = [[1, 2], [3]]\<rparr>),
     te_inflate = (\<lambda>_ p. Inl Aborted), te_agent = (\<lambda>_. None), te_jar_cookie = (\<lambda>_ _. []),
     te_jar_store = (\<lambda>_ _ j. j)\<rparr>"

definition sample_fetch :: "net_request list \<times> unit \<times> (error, net_response) result" where
  "sample_fetch = sourceFetch sample_runtime sample_env None None () (js ''https://a/x'') None None
     [(h_authorization, js ''Basic x'')]"

theorem sourceFetch_confined_witness:
  "\<exists>qs r. sample_fetch = (qs, (), r) \<and> map (\<lambda>q. jm_has (nq_headers q) h_authorization) qs = [True, False]
     \<and> (\<forall>q \<in> set qs. list_all (\<lambda>a. \<not> isPrivateAddress sample_runtime (fst a)) (nq_addresses q))"
proof -
  obtain qs j r where f: "sample_fetch = (qs, j, r)" by (cases sample_fetch)
  have "map (\<lambda>q. jm_has (nq_headers q) h_authorization) (fst sample_fetch) = [True, False]" by code_simp
  then have m: "map (\<lambda>q. jm_has (nq_headers q) h_authorization) qs = [True, False]" unfolding f fst_conv .
  have "sample_url (js ''https://a/x'') \<noteq> None" by code_simp
  then obtain u where u: "rt_url sample_runtime (js ''https://a/x'') = Some u" by auto
  note ok = sourceFetch_confined[OF u f[unfolded sample_fetch_def]]
  have "list_all (\<lambda>a. \<not> isPrivateAddress sample_runtime (fst a)) (nq_addresses q)" if "q \<in> set qs" for q
    using ok that by blast
  with f m show ?thesis by auto
qed

definition sample_page :: url where
  "sample_page = \<lparr>u_protocol = js ''https:'', u_username = [], u_password = [], u_hostname = js ''a'', u_port = [],
     u_pathname = js ''/x'', u_search = [], u_hash = []\<rparr>"

theorem response_bounded_witness:
  "\<exists>r. receive_response (te_inflate sample_env) sample_page \<lparr>ni_status = 200, ni_headers = [], ni_cookies = [],
       ni_chunks = [[1, 2], [3]]\<rparr> = Inr r \<and> ns_payload r = Some [1, 2, 3]"
proof -
  let ?i = "\<lparr>ni_status = 200, ni_headers = [], ni_cookies = [], ni_chunks = [[1, 2], [3]]\<rparr>"
  have inflate: "te_inflate sample_env e p = Inr out \<Longrightarrow> length out \<le> maxResponseBytes" for e p out
    by (simp add: sample_env_def)
  obtain r where r: "receive_response (te_inflate sample_env) sample_page ?i = Inr r"
    by (simp add: receive_response_def maxResponseBytes_def Let_def)
  from response_bounded[OF inflate r] have "ns_payload r = (if ns_status r \<in> {204, 205, 304} then None else Some [1, 2, 3])"
    by (simp add: jm_has_def)
  moreover have "ns_status r = 200"
    using r by (auto simp: receive_response_def maxResponseBytes_def Let_def)
  ultimately show ?thesis using r by simp
qed

lemma safeError_bound: "length (safeError e) \<le> 240"
  by (simp add: safeError_def hide_secrets_def)

end
