(* ===== verification/Settings.thy ===== *)
theory Settings
  imports Store Net
begin

text \<open>
  \<open>settings.ts\<close> and \<open>secrets.ts\<close>: the settings of a source, its protected credentials with
  their cache, and the health of a source, that is the last failure and the check that
  failed. The Windows data protection service is a parameter (\<open>vault\<close>). \<open>configure\<close>
  runs its steps one after the other for each source, as the chain of writes does.
\<close>

type_synonym setting_values = "(jstring, jstring) jmap"

datatype source_check =
    CheckSearch search_request
  | CheckInspect variant
  | CheckResolve variant

record failure =
  fl_message :: jstring
  fl_checkedAt :: jstring
  fl_check :: "source_check option"
  fl_code :: "jstring option"
  fl_url :: "jstring option"

datatype stored =
    Credentials jstring
  | Enabled bool
  | Health "failure option"

record vault =
  va_protect :: "setting_values \<Rightarrow> (error, jstring) result"
  va_unprotect :: "jstring \<Rightarrow> (error, setting_values) result"

record source_settings =
  ss_store :: "stored store"
  ss_decrypted :: "(jstring, setting_values) jmap"

definition credentials_key :: "jstring \<Rightarrow> jstring" where
  "credentials_key i = js ''source.credentials:'' @ i"

definition enabled_key :: "jstring \<Rightarrow> jstring" where
  "enabled_key i = js ''source.enabled:'' @ i"

definition health_key :: "jstring \<Rightarrow> jstring" where
  "health_key i = js ''source.health:'' @ i"

section \<open>Credentials\<close>

definition encrypted_of :: "jstring \<Rightarrow> source_settings \<Rightarrow> jstring" where
  "encrypted_of i ss = (case setting (credentials_key i) (Credentials []) (ss_store ss) of
     Credentials t \<Rightarrow> t | _ \<Rightarrow> [])"

text \<open>\<open>values\<close> has one wait, for the decryption: what is read before it and what is done after it.\<close>

definition read_encrypted :: "jstring \<Rightarrow> source_settings \<Rightarrow> setting_values + jstring" where
  "read_encrypted i ss = (case jm_get (ss_decrypted ss) i of Some v \<Rightarrow> Inl v | None \<Rightarrow> Inr (encrypted_of i ss))"

definition decrypt :: "vault \<Rightarrow> jstring \<Rightarrow> (error, setting_values) result" where
  "decrypt vault t = (if t \<noteq> [] then va_unprotect vault t else Inr [])"

definition cache_values :: "jstring \<Rightarrow> setting_values \<Rightarrow> source_settings \<Rightarrow> source_settings" where
  "cache_values i v ss = ss\<lparr>ss_decrypted := jm_set i v (ss_decrypted ss)\<rparr>"

definition source_values :: "vault \<Rightarrow> jstring \<Rightarrow> source_settings \<Rightarrow> (error, setting_values \<times> source_settings) result" where
  "source_values vault i ss =
     (case read_encrypted i ss of
        Inl v \<Rightarrow> Inr (v, ss)
      | Inr t \<Rightarrow> bind_r (decrypt vault t) (\<lambda>v. Inr (v, cache_values i v ss)))"

definition merge_values :: "setting_values \<Rightarrow> setting_values \<Rightarrow> setting_values" where
  "merge_values old changes = fold (\<lambda>(k, v). jm_set k v) changes old"

definition store_values :: "jstring \<Rightarrow> jstring \<Rightarrow> setting_values \<Rightarrow> source_settings \<Rightarrow> source_settings" where
  "store_values i protected v ss =
     cache_values i v (ss\<lparr>ss_store := setSetting (credentials_key i) (Credentials protected) (ss_store ss)\<rparr>)"

definition configure :: "vault \<Rightarrow> jstring \<Rightarrow> bool option \<Rightarrow> setting_values option \<Rightarrow> source_settings
    \<Rightarrow> (error, source_settings) result" where
  "configure vault i enabled changes ss =
     bind_r (case changes of
         None \<Rightarrow> Inr ss
       | Some c \<Rightarrow> bind_r (source_values vault i ss) (\<lambda>(old, ss').
           let new = merge_values old c
           in bind_r (va_protect vault new) (\<lambda>p. Inr (store_values i p new ss'))))
       (\<lambda>ss'. Inr (case enabled of
           None \<Rightarrow> ss'
         | Some e \<Rightarrow> ss'\<lparr>ss_store := setSetting (enabled_key i) (Enabled e) (ss_store ss')\<rparr>))"

definition hasConfiguredAuthorization :: "vault \<Rightarrow> source \<Rightarrow> source_settings
    \<Rightarrow> (error, bool \<times> source_settings) result" where
  "hasConfiguredAuthorization vault s ss =
     (if \<not> truthy (src_authorizationSetting s) then Inr (True, ss)
      else bind_r (source_values vault (src_id s) ss) (\<lambda>(v, ss').
        Inr (trim (or_empty (jm_get v (or_empty (src_authorizationSetting s)))) \<noteq> [], ss')))"

section \<open>Health\<close>

definition failure_of :: "jstring \<Rightarrow> source_settings \<Rightarrow> failure option" where
  "failure_of i ss = (case setting (health_key i) (Health None) (ss_store ss) of Health f \<Rightarrow> f | _ \<Rightarrow> None)"

definition failedCheck :: "jstring \<Rightarrow> source_settings \<Rightarrow> source_check option" where
  "failedCheck i ss = (case failure_of i ss of None \<Rightarrow> None | Some f \<Rightarrow> fl_check f)"

definition health_of :: "jstring \<Rightarrow> source_settings \<Rightarrow> source_health option" where
  "health_of i ss = map_option (\<lambda>f. \<lparr>h_message = fl_message f, h_checkedAt = fl_checkedAt f,
     h_code = fl_code f, h_url = fl_url f\<rparr>) (failure_of i ss)"

text \<open>A resolution keeps only the fields that identify its publication.\<close>

definition resolve_identity :: "variant \<Rightarrow> variant" where
  "resolve_identity v =
     (new_variant (v_id v) (v_sourceId v) (v_sourceName v) (v_title v) (v_url v) (v_transport v))
       \<lparr>v_magnet := v_magnet v, v_infoHash := v_infoHash v, v_version := v_version v, v_edition := v_edition v,
        v_cooperative := v_cooperative v, v_publicationKind := v_publicationKind v, v_episode := v_episode v,
        v_season := v_season v, v_translation := v_translation v, v_player := v_player v\<rparr>"

definition stored_check :: "runtime \<Rightarrow> source_check \<Rightarrow> source_check" where
  "stored_check rt c =
     (case c of
        CheckSearch r \<Rightarrow> CheckSearch r
      | CheckInspect v \<Rightarrow> CheckInspect (persistentVariant rt v)
      | CheckResolve v \<Rightarrow> CheckResolve (resolve_identity (persistentVariant rt v)))"

definition recordHealth :: "runtime \<Rightarrow> jstring \<Rightarrow> jstring \<Rightarrow> error option \<Rightarrow> source_check option \<Rightarrow> source_settings
    \<Rightarrow> source_settings" where
  "recordHealth rt now i err check ss =
     (let message = map_option safeError err;
          c = map_option (stored_check rt) check;
          failed = failedCheck i ss
      in if \<not> truthy message \<and> failed \<noteq> None \<and> failed \<noteq> c then ss
         else ss\<lparr>ss_store := setSetting (health_key i)
           (Health (if truthy message
             then Some \<lparr>fl_message = or_empty message, fl_checkedAt = now, fl_check = c,
                fl_code = (case err of None \<Rightarrow> None | Some e \<Rightarrow> error_code e),
                fl_url = (case err of None \<Rightarrow> None | Some e \<Rightarrow> publicReference rt (error_url e))\<rparr>
             else None)) (ss_store ss)\<rparr>)"

section \<open>Description\<close>

definition describe_setting :: "setting_values \<Rightarrow> source_setting \<Rightarrow> source_setting" where
  "describe_setting vals s =
     (let own = (case jm_get vals (s_name s) of Some t \<Rightarrow> Some (SText t) | None \<Rightarrow> s_value s)
      in s\<lparr>s_configured := Some (truthy (jm_get vals (s_name s))),
           s_value := (case s_type s of
               PasswordSetting \<Rightarrow> Some (SText [])
             | BooleanSetting \<Rightarrow> Some (SBool (own = Some (SBool True) \<or> own = Some (SText (js ''true''))))
             | _ \<Rightarrow> own)\<rparr>)"

definition source_enabled :: "source \<Rightarrow> source_settings \<Rightarrow> bool" where
  "source_enabled s ss = (case setting (enabled_key (src_id s)) (Enabled (src_enabled s)) (ss_store ss) of
     Enabled b \<Rightarrow> b | _ \<Rightarrow> src_enabled s)"

definition describe :: "vault \<Rightarrow> source \<Rightarrow> source_settings \<Rightarrow> (error, source \<times> source_settings) result" where
  "describe vault s ss =
     bind_r (source_values vault (src_id s) ss) (\<lambda>(vals, ss').
       Inr (s\<lparr>src_enabled := source_enabled s ss', src_health := health_of (src_id s) ss',
              src_settings := map_option (map (describe_setting vals)) (src_settings s)\<rparr>, ss'))"

section \<open>Facts\<close>

lemma keys_distinct [simp]:
  "credentials_key i \<noteq> enabled_key j" "credentials_key i \<noteq> health_key j" "enabled_key i \<noteq> health_key j"
  "enabled_key j \<noteq> credentials_key i" "health_key j \<noteq> credentials_key i" "health_key j \<noteq> enabled_key i"
  by (simp_all add: credentials_key_def enabled_key_def health_key_def)

lemma keys_inj [simp]:
  "credentials_key i = credentials_key j \<longleftrightarrow> i = j" "enabled_key i = enabled_key j \<longleftrightarrow> i = j"
  "health_key i = health_key j \<longleftrightarrow> i = j"
  by (simp_all add: credentials_key_def enabled_key_def health_key_def)

lemma jm_get_fold_set:
  "jm_get (fold (\<lambda>(k, v). jm_set k v) kvs m) k = (case map_of (rev kvs) k of None \<Rightarrow> jm_get m k | Some v \<Rightarrow> Some v)"
  by (induction kvs arbitrary: m) (auto simp: map_add_def split: option.splits)

text \<open>
  Configuring a source saves exactly the changes. When \<open>configure\<close> succeeds, the
  values of the source are the old ones with the changes on top, both for this process
  (the cache) and for the next one (what the vault returns for the stored text); the
  enabled flag and the other sources' credentials are as asked or as before.
\<close>

theorem configure_saves:
  assumes vault: "\<And>v t. va_protect vault v = Inr t \<Longrightarrow> t \<noteq> [] \<and> va_unprotect vault t = Inr v"
    and old: "source_values vault i ss = Inr (v, ss0)"
    and conf: "configure vault i enabled (Some changes) ss = Inr ss'"
  shows "source_values vault i ss' = Inr (merge_values v changes, ss')
     \<and> decrypt vault (encrypted_of i ss') = Inr (merge_values v changes)
     \<and> jm_get (merge_values v changes) k = (case map_of (rev changes) k of None \<Rightarrow> jm_get v k | Some x \<Rightarrow> Some x)
     \<and> (\<forall>s. src_id s = i \<longrightarrow> source_enabled s ss' = (case enabled of None \<Rightarrow> source_enabled s ss | Some e \<Rightarrow> e))
     \<and> (\<forall>j. j \<noteq> i \<longrightarrow> read_encrypted j ss' = read_encrypted j ss)"
proof -
  let ?new = "merge_values v changes"
  from conf old obtain p where p: "va_protect vault ?new = Inr p"
    and ss': "ss' = (case enabled of None \<Rightarrow> store_values i p ?new ss0
      | Some e \<Rightarrow> (store_values i p ?new ss0)\<lparr>ss_store := setSetting (enabled_key i) (Enabled e)
          (ss_store (store_values i p ?new ss0))\<rparr>)"
    by (auto simp: configure_def Let_def bind_r_Inr)
  from old have ss0: "ss_store ss0 = ss_store ss" "j \<noteq> i \<longrightarrow> jm_get (ss_decrypted ss0) j = jm_get (ss_decrypted ss) j" for j
    by (auto simp: source_values_def cache_values_def bind_r_Inr split: sum.splits)
  have cache: "jm_get (ss_decrypted ss') i = Some ?new"
    by (auto simp: ss' store_values_def cache_values_def split: option.splits)
  have enc: "encrypted_of j ss' = (if j = i then p else encrypted_of j ss)" for j
    using ss0(1) by (auto simp: ss' encrypted_of_def store_values_def cache_values_def split: option.splits)
  have cache_j: "j \<noteq> i \<Longrightarrow> jm_get (ss_decrypted ss') j = jm_get (ss_decrypted ss) j" for j
    using ss0(2) by (auto simp: ss' store_values_def cache_values_def split: option.splits)
  have "src_id s = i \<longrightarrow> source_enabled s ss' = (case enabled of None \<Rightarrow> source_enabled s ss | Some e \<Rightarrow> e)" for s
    using ss0(1) by (auto simp: ss' source_enabled_def store_values_def cache_values_def split: option.splits)
  moreover have "decrypt vault (encrypted_of i ss') = Inr ?new" using vault[OF p] enc by (simp add: decrypt_def)
  moreover have "source_values vault i ss' = Inr (?new, ss')"
    using cache by (simp add: source_values_def read_encrypted_def)
  moreover have "j \<noteq> i \<longrightarrow> read_encrypted j ss' = read_encrypted j ss" for j
    using cache_j[of j] enc[of j] by (simp add: read_encrypted_def split: option.splits)
  moreover have "jm_get ?new k = (case map_of (rev changes) k of None \<Rightarrow> jm_get v k | Some x \<Rightarrow> Some x)"
    by (simp add: merge_values_def jm_get_fold_set)
  ultimately show ?thesis by blast
qed

definition sample_vault :: vault where
  "sample_vault = \<lparr>va_protect = (\<lambda>v. Inr (7 # sample_form_text v)),
     va_unprotect = (\<lambda>t. Inr (sample_form_parse (drop 1 t)))\<rparr>"

definition sample_settings :: source_settings where
  "sample_settings = \<lparr>ss_store = new_store, ss_decrypted = []\<rparr>"

theorem configure_saves_witness:
  "\<exists>ss. configure sample_vault (js ''s'') (Some True) (Some [(js ''token'', js ''x'')]) sample_settings = Inr ss
     \<and> source_values sample_vault (js ''s'') ss = Inr ([(js ''token'', js ''x'')], ss)
     \<and> decrypt sample_vault (encrypted_of (js ''s'') ss) = Inr [(js ''token'', js ''x'')]"
proof -
  have vault: "va_protect sample_vault v = Inr t \<Longrightarrow> t \<noteq> [] \<and> va_unprotect sample_vault t = Inr v" for v t
    by (auto simp: sample_vault_def form_roundtrip)
  have old: "source_values sample_vault (js ''s'') sample_settings =
      Inr ([], cache_values (js ''s'') [] sample_settings)"
    by (simp add: source_values_def read_encrypted_def sample_settings_def encrypted_of_def setting_def
        new_store_def decrypt_def)
  obtain ss where ss: "configure sample_vault (js ''s'') (Some True) (Some [(js ''token'', js ''x'')]) sample_settings = Inr ss"
    using old by (simp add: configure_def Let_def sample_vault_def)
  have "merge_values [] [(js ''token'', js ''x'')] = [(js ''token'', js ''x'')]" by (simp add: merge_values_def)
  with configure_saves[OF vault old ss] ss show ?thesis by metis
qed

text \<open>
  A description never contains a password. Every password setting of a described
  source has an empty value, whatever is stored; \<open>configured\<close> only tells whether it is set.
\<close>

theorem describe_hides_passwords:
  assumes "describe vault s ss = Inr (d, ss')" "x \<in> set (list_or (src_settings d))" "s_type x = PasswordSetting"
  shows "s_value x = Some (SText [])"
proof -
  from assms(1) obtain vals where "src_settings d = map_option (map (describe_setting vals)) (src_settings s)"
    by (auto simp: describe_def bind_r_Inr)
  with assms(2) obtain y where "x = describe_setting vals y"
    by (cases "src_settings s") auto
  with assms(3) show ?thesis by (simp add: describe_setting_def Let_def)
qed

definition sample_source :: source where
  "sample_source = \<lparr>src_id = js ''s'', src_name = js ''S'', src_url = js ''https://a/'', src_categories = [Games],
     src_enabled = True, src_requiresLogin = None, src_authorizationSetting = Some (js ''token''),
     src_health = None, src_settings = Some [\<lparr>s_name = js ''token'', s_label = js ''Token'',
       s_type = PasswordSetting, s_value = None, s_options = None, s_configured = None, s_advanced = None\<rparr>]\<rparr>"

theorem describe_hides_passwords_witness:
  "\<exists>d ss x. describe sample_vault sample_source
        (cache_values (js ''s'') [(js ''token'', js ''x'')] sample_settings) = Inr (d, ss)
     \<and> x \<in> set (list_or (src_settings d)) \<and> s_configured x = Some True \<and> s_value x = Some (SText [])"
proof -
  let ?ss = "cache_values (js ''s'') [(js ''token'', js ''x'')] sample_settings"
  obtain d where d: "describe sample_vault sample_source ?ss = Inr (d, ?ss)"
    and settings: "src_settings d = map_option (map (describe_setting [(js ''token'', js ''x'')])) (src_settings sample_source)"
    by (simp add: describe_def source_values_def read_encrypted_def cache_values_def sample_source_def)
  define x where "x = describe_setting [(js ''token'', js ''x'')] (hd (list_or (src_settings sample_source)))"
  have x: "x \<in> set (list_or (src_settings d))" "s_configured x = Some True" "s_type x = PasswordSetting"
    by (simp_all add: settings x_def sample_source_def describe_setting_def Let_def)
  from describe_hides_passwords[OF d x(1,3)] d x show ?thesis by blast
qed

lemma failure_of_set [simp]:
  "failure_of i (ss\<lparr>ss_store := setSetting (health_key j) (Health f) (ss_store ss)\<rparr>) = (if i = j then f else failure_of i ss)"
  by (simp add: failure_of_def)

text \<open>
  The health of a source is cleared only by the check that failed. A success of another
  check leaves a recorded failure with its check in place; a success of the same check, or
  without a recorded check, clears it; and a failure is recorded with its safe message.
\<close>

theorem recordHealth_spec:
  "failure_of j (recordHealth rt now i err check ss) =
     (if j \<noteq> i then failure_of j ss
      else case err of
          None \<Rightarrow> (if failedCheck i ss = None \<or> failedCheck i ss = map_option (stored_check rt) check
                   then None else failure_of i ss)
        | Some e \<Rightarrow>
            (if safeError e \<noteq> []
             then Some \<lparr>fl_message = safeError e, fl_checkedAt = now, fl_check = map_option (stored_check rt) check,
               fl_code = error_code e, fl_url = publicReference rt (error_url e)\<rparr>
             else if failedCheck i ss = None \<or> failedCheck i ss = map_option (stored_check rt) check
             then None else failure_of i ss))"
  by (auto simp: recordHealth_def Let_def split: option.splits)

text \<open>
  A limit of the credential cache. A read that started before \<open>configure\<close> and ends after
  it puts the old values back into the cache, so this process keeps using credentials that
  differ from the stored ones.
\<close>

theorem stale_credentials_cache:
  "case read_encrypted (js ''s'') sample_settings of
     Inl _ \<Rightarrow> False
   | Inr t \<Rightarrow>
       (case (decrypt sample_vault t, configure sample_vault (js ''s'') None (Some [(js ''token'', js ''x'')]) sample_settings) of
          (Inr v, Inr ss) \<Rightarrow>
            (case source_values sample_vault (js ''s'') (cache_values (js ''s'') v ss) of
               Inl _ \<Rightarrow> False
             | Inr (w, _) \<Rightarrow> w = [] \<and> decrypt sample_vault (encrypted_of (js ''s'') ss) = Inr [(js ''token'', js ''x'')])
        | _ \<Rightarrow> False)"
  by code_simp

end
