(* ===== verification/Framing.thy ===== *)
theory Framing
  imports Contracts
begin

text \<open>
  The line protocol of \<open>main.ts\<close>: chunks of standard input are appended to a buffer, full
  lines are handed to the receiver, and a line or a rest longer than the message limit
  shuts the helper down. The receiver is an interface: a state with a closing flag, a
  \<open>shutdown\<close> that sets it and does nothing the second time, and \<open>receive\<close>. Inside the
  interface the result is proved not to depend on how the input was cut into chunks.
\<close>

text \<open>The text before the first line feed and the text after it.\<close>

fun next_line :: "jstring \<Rightarrow> (jstring \<times> jstring) option" where
  "next_line [] = None"
| "next_line (c # s) = (if c = 10 then Some ([], s) else map_option (\<lambda>(l, r). (c # l, r)) (next_line s))"

lemma next_line_Some: "next_line s = Some (l, r) \<longleftrightarrow> s = l @ 10 # r \<and> 10 \<notin> set l"
proof (induction s arbitrary: l)
  case (Cons c s)
  show ?case
  proof (cases l)
    case Nil
    then show ?thesis by auto
  next
    case (Cons d l')
    with Cons.IH[of l'] show ?thesis by auto
  qed
qed simp

lemma next_line_None: "next_line s = None \<longleftrightarrow> 10 \<notin> set s"
  by (induction s) auto

lemma next_line_length: "next_line s = Some (l, r) \<Longrightarrow> length r < length s"
  by (simp add: next_line_Some)

text \<open>The loop over the lines, with the receiver's operations as arguments.\<close>

function drain :: "('s \<Rightarrow> bool) \<Rightarrow> ('s \<Rightarrow> 's) \<Rightarrow> (jstring \<Rightarrow> 's \<Rightarrow> 's) \<Rightarrow> jstring \<Rightarrow> 's \<Rightarrow> jstring \<times> 's" where
  "drain closing shutdown receive input st =
     (if closing st then (input, st)
      else case next_line input of
          None \<Rightarrow> (input, st)
        | Some (line, rest) \<Rightarrow>
            if byte_length line > maxMessageBytes then (rest, shutdown st)
            else drain closing shutdown receive rest (if trim line \<noteq> [] then receive line st else st))"
  by pat_completeness auto
termination
  by (relation "measure (\<lambda>(closing, shutdown, receive, input, st). length input)") (auto dest: next_line_length)

declare drain.simps [simp del]

definition on_data :: "('s \<Rightarrow> bool) \<Rightarrow> ('s \<Rightarrow> 's) \<Rightarrow> (jstring \<Rightarrow> 's \<Rightarrow> 's) \<Rightarrow> jstring \<Rightarrow> jstring \<times> 's \<Rightarrow> jstring \<times> 's" where
  "on_data closing shutdown receive chunk buffer =
     (case drain closing shutdown receive (fst buffer @ chunk) (snd buffer) of
        (input, st) \<Rightarrow> (input, if byte_length input > maxMessageBytes then shutdown st else st))"

lemma byte_length_append: "byte_length s \<le> byte_length (s @ t)"
proof (induction s rule: byte_length.induct)
  case (2 c)
  then show ?case by (cases t) auto
next
  case (3 c d s)
  then show ?case by auto
qed simp

locale line_service =
  fixes closing :: "'s \<Rightarrow> bool" and shutdown :: "'s \<Rightarrow> 's" and receive :: "jstring \<Rightarrow> 's \<Rightarrow> 's"
  assumes shutdown_closing: "closing (shutdown st)"
    and shutdown_closed: "closing st \<Longrightarrow> shutdown st = st"
begin

lemma drain_closing: "closing st \<Longrightarrow> drain closing shutdown receive input st = (input, st)"
  by (simp add: drain.simps)

lemma drain_none: "10 \<notin> set input \<Longrightarrow> drain closing shutdown receive input st = (input, st)"
  by (subst drain.simps) (simp flip: next_line_None)

text \<open>What is left in the buffer of a helper that still runs has no line feed.\<close>

lemma drain_rest:
  "drain closing shutdown receive input st = (rest, st') \<Longrightarrow> \<not> closing st' \<Longrightarrow> 10 \<notin> set rest"
proof (induction "length input" arbitrary: input st rule: less_induct)
  case less
  show ?case
  proof (cases "next_line input")
    case None
    moreover from None less.prems have "rest = input" by (simp add: drain.simps[of _ _ _ input] split: if_splits)
    ultimately show ?thesis by (simp add: next_line_None)
  next
    case (Some p)
    obtain line tail where "p = (line, tail)" by (cases p)
    with Some have eq: "next_line input = Some (line, tail)" by simp
    note IH = less.hyps[OF next_line_length[OF eq]]
    from less.prems eq shutdown_closing show ?thesis
      by (auto simp: drain.simps[of _ _ _ input] split: if_splits dest: IH)
  qed
qed

text \<open>What the receiver and the shutdown keep, the input keeps.\<close>

lemma drain_keeps:
  assumes "P st" and "\<And>line st. P st \<Longrightarrow> \<not> closing st \<Longrightarrow> P (receive line st)" and "\<And>st. P st \<Longrightarrow> P (shutdown st)"
  shows "P (snd (drain closing shutdown receive input st))"
  using assms(1)
proof (induction "length input" arbitrary: input st rule: less_induct)
  case less
  show ?case
  proof (cases "next_line input")
    case None
    with less.prems show ?thesis by (simp add: drain.simps[of _ _ _ input])
  next
    case (Some p)
    obtain line tail where "p = (line, tail)" by (cases p)
    with Some have eq: "next_line input = Some (line, tail)" by simp
    note IH = less.hyps[OF next_line_length[OF eq]]
    show ?thesis
      unfolding drain.simps[of _ _ _ input] using less.prems by (simp add: eq IH assms(2,3))
  qed
qed

lemma on_data_keeps:
  assumes "P (snd s)" and "\<And>line st. P st \<Longrightarrow> \<not> closing st \<Longrightarrow> P (receive line st)" and "\<And>st. P st \<Longrightarrow> P (shutdown st)"
  shows "P (snd (on_data closing shutdown receive chunk s))"
  using drain_keeps[of P "snd s" "fst s @ chunk"] assms
  by (cases "drain closing shutdown receive (fst s @ chunk) (snd s)") (auto simp: on_data_def)

text \<open>Reading two chunks is reading the rest of the first with the second.\<close>

lemma drain_append:
  "drain closing shutdown receive (a @ b) st =
     (case drain closing shutdown receive a st of (rest, st') \<Rightarrow> drain closing shutdown receive (rest @ b) st')"
proof (induction "length a" arbitrary: a st rule: less_induct)
  case less
  show ?case
  proof (cases "closing st")
    case True
    then show ?thesis by (simp add: drain_closing)
  next
    case open_: False
    show ?thesis
    proof (cases "next_line a")
      case None
      with open_ have "drain closing shutdown receive a st = (a, st)" by (simp add: drain.simps[of _ _ _ a])
      then show ?thesis by simp
    next
      case (Some p)
      obtain line tail where "p = (line, tail)" by (cases p)
      with Some have eq: "next_line a = Some (line, tail)" by simp
      then have eq': "next_line (a @ b) = Some (line, tail @ b)" by (simp add: next_line_Some)
      note IH = less.hyps[OF next_line_length[OF eq]]
      show ?thesis
        unfolding drain.simps[of _ _ _ a] drain.simps[of _ _ _ "a @ b"]
        using open_ by (simp add: eq eq' IH drain_closing[OF shutdown_closing])
    qed
  qed
qed

text \<open>
  Two buffers are the same for the rest of the input when they hold the same text, or when
  both helpers are closing in the same state.
\<close>

definition same_buffer :: "jstring \<times> 's \<Rightarrow> jstring \<times> 's \<Rightarrow> bool" where
  "same_buffer x y \<longleftrightarrow> snd x = snd y \<and> (fst x = fst y \<or> closing (snd x))"

lemma on_data_closing: "closing st \<Longrightarrow> on_data closing shutdown receive chunk (input, st) = (input @ chunk, st)"
  by (simp add: on_data_def drain_closing shutdown_closed)

lemma same_buffer_data:
  "same_buffer x y \<Longrightarrow> same_buffer (on_data closing shutdown receive c x) (on_data closing shutdown receive c y)"
  by (cases x; cases y) (auto simp: same_buffer_def on_data_closing)

lemma on_data_long:
  assumes "10 \<notin> set r" and "byte_length r > maxMessageBytes"
  shows "snd (on_data closing shutdown receive b (r, st)) = shutdown st"
proof (cases "closing st")
  case True
  then show ?thesis by (simp add: on_data_closing shutdown_closed)
next
  case False
  show ?thesis
  proof (cases "next_line (r @ b)")
    case None
    moreover have "byte_length (r @ b) > maxMessageBytes" using assms(2) byte_length_append[of r b] by simp
    ultimately show ?thesis by (simp add: on_data_def drain.simps[of _ _ _ "r @ b"])
  next
    case (Some p)
    obtain line tail where p: "p = (line, tail)" by (cases p)
    with Some have "r @ b = line @ 10 # tail" by (simp add: next_line_Some)
    then obtain us where us: "r = line @ us \<and> us @ b = 10 # tail \<or> r @ us = line" by (auto simp: append_eq_append_conv2)
    then have "\<exists>us. line = r @ us" using assms(1) by (cases us) auto
    then obtain us where "line = r @ us" by blast
    then have "byte_length line > maxMessageBytes" using assms(2) byte_length_append[of r us] by simp
    then show ?thesis using False Some p
      by (simp add: on_data_def drain.simps[of _ _ _ "r @ b"] shutdown_closed shutdown_closing)
  qed
qed

lemma on_data_append:
  "same_buffer (on_data closing shutdown receive b (on_data closing shutdown receive a x))
     (on_data closing shutdown receive (a @ b) x)"
proof -
  obtain input st where x: "x = (input, st)" by (cases x)
  obtain r st' where d: "drain closing shutdown receive (input @ a) st = (r, st')" by fastforce
  have whole: "on_data closing shutdown receive (a @ b) x = on_data closing shutdown receive b (r, st')"
    using d drain_append[of "input @ a" b st] by (simp add: on_data_def x)
  show ?thesis
  proof (cases "byte_length r > maxMessageBytes \<and> \<not> closing st'")
    case True
    then have "10 \<notin> set r" using drain_rest[OF d] by blast
    with True have "snd (on_data closing shutdown receive b (r, st')) = shutdown st'" by (intro on_data_long) auto
    moreover have "on_data closing shutdown receive a x = (r, shutdown st')" using d True by (simp add: on_data_def x)
    ultimately show ?thesis by (simp add: whole same_buffer_def on_data_closing shutdown_closing)
  next
    case False
    then have "on_data closing shutdown receive a x = (r, st')" using d by (auto simp: on_data_def x shutdown_closed)
    then show ?thesis by (simp add: whole same_buffer_def)
  qed
qed

lemma same_buffer_trans: "same_buffer x y \<Longrightarrow> same_buffer y z \<Longrightarrow> same_buffer x z"
  by (auto simp: same_buffer_def)

lemma on_data_fold:
  "same_buffer (fold (on_data closing shutdown receive) cs (on_data closing shutdown receive c x))
     (on_data closing shutdown receive (c @ concat cs) x)"
proof (induction cs arbitrary: c)
  case Nil
  show ?case by (simp add: same_buffer_def)
next
  case (Cons d cs)
  have cong: "same_buffer (fold (on_data closing shutdown receive) cs y)
      (fold (on_data closing shutdown receive) cs z)" if "same_buffer y z" for y z
    using that by (induction cs arbitrary: y z) (simp_all del: split_paired_All add: same_buffer_data)
  have "same_buffer (fold (on_data closing shutdown receive) (d # cs) (on_data closing shutdown receive c x))
      (fold (on_data closing shutdown receive) cs (on_data closing shutdown receive (c @ d) x))"
    using cong[OF on_data_append] by simp
  then show ?case using Cons.IH[of "c @ d"] by (auto intro: same_buffer_trans)
qed

text \<open>However the input is cut into chunks, the helper ends in the same state.\<close>

lemma chunk_independent:
  assumes "concat cs = concat ds" and "cs \<noteq> []" and "ds \<noteq> []"
  shows "snd (fold (on_data closing shutdown receive) cs x) = snd (fold (on_data closing shutdown receive) ds x)"
proof -
  have whole: "snd (fold (on_data closing shutdown receive) ks x) = snd (on_data closing shutdown receive (concat ks) x)"
    if "ks \<noteq> []" for ks
    using that on_data_fold[of "tl ks" "hd ks" x] by (cases ks) (auto simp: same_buffer_def)
  show ?thesis using assms by (simp add: whole)
qed

end

end
