(* ===== verification/Json.thy ===== *)
theory Json
  imports Contracts
begin

text \<open>
  JSON values as \<open>JSON.parse\<close> returns them, with the JavaScript operations that the message
  handling applies to values it has not checked yet: property access, truth value,
  \<open>typeof\<close> and \<open>Array.isArray\<close>. Reading a property of \<open>null\<close> raises; of any other value
  without that property it is undefined, here \<open>None\<close>.
\<close>

datatype json =
    JNull
  | JBool bool
  | JNum rat
  | JText jstring
  | JArr "json list"
  | JObj "(jstring \<times> json) list"

definition field :: "json \<Rightarrow> string \<Rightarrow> json option" where
  "field j k = (case j of JObj m \<Rightarrow> jm_get m (js k) | _ \<Rightarrow> None)"

definition truthy_json :: "json option \<Rightarrow> bool" where
  "truthy_json v =
     (case v of
        None \<Rightarrow> False
      | Some JNull \<Rightarrow> False
      | Some (JBool b) \<Rightarrow> b
      | Some (JNum n) \<Rightarrow> n \<noteq> 0
      | Some (JText t) \<Rightarrow> t \<noteq> []
      | Some _ \<Rightarrow> True)"

definition json_text :: "json option \<Rightarrow> jstring option" where
  "json_text v = (case v of Some (JText t) \<Rightarrow> Some t | _ \<Rightarrow> None)"

definition json_number :: "json option \<Rightarrow> rat option" where
  "json_number v = (case v of Some (JNum n) \<Rightarrow> Some n | _ \<Rightarrow> None)"

definition json_bool :: "json option \<Rightarrow> bool option" where
  "json_bool v = (case v of Some (JBool b) \<Rightarrow> Some b | _ \<Rightarrow> None)"

definition json_array :: "json option \<Rightarrow> json list option" where
  "json_array v = (case v of Some (JArr xs) \<Rightarrow> Some xs | _ \<Rightarrow> None)"

definition is_text :: "json option \<Rightarrow> bool" where
  "is_text v \<longleftrightarrow> json_text v \<noteq> None"

lemma json_text_Some: "json_text v = Some t \<longleftrightarrow> v = Some (JText t)"
  by (auto simp: json_text_def split: option.splits json.splits)

lemma is_text_iff: "is_text v \<longleftrightarrow> (\<exists>t. v = Some (JText t))"
  by (auto simp: is_text_def json_text_def split: option.splits json.splits)

lemma field_Some: "field j k = Some v \<Longrightarrow> \<exists>m. j = JObj m \<and> jm_get m (js k) = Some v"
  by (auto simp: field_def split: json.splits)

end
