(* ===== verification/Bridge.thy ===== *)
theory Bridge
  imports Json
begin

text \<open>
  \<open>browser/index.ts\<close> and \<open>browser/protocol.ts\<close>: the adapter that forwards browser commands
  to the parent process. A request gets the next number and waits in \<open>pending\<close> until a reply,
  its abort signal, its timer or \<open>close\<close> settles it. The model keeps the settlements of the
  promises as a list of replies that every operation returns; the JSON size of a request is
  a parameter.
\<close>

definition MAX_MESSAGE_BYTES :: nat where
  "MAX_MESSAGE_BYTES = 768 * 1024"

datatype browser_choice = AutoBrowser | Edge | Chrome | Firefox

datatype wanted = WantVideo | WantFile | WantTorrent

datatype command =
    CStatus
  | CInitialize
  | CCookies jstring
  | CVkSearch jstring jstring
  | CFetch jstring jstring "(jstring \<times> jstring) list" "jstring option"
  | CResolve jstring selection wanted "jstring option"

record bridge_data =
  bd_id :: nat
  bd_browser :: browser_choice
  bd_command :: command
  bd_optional :: bool

datatype bridge_message = BrowserRequest bridge_data | BrowserCancel nat

text \<open>How a promise is settled: with a result, with the parent's error, or with an error of its own.\<close>

datatype reply =
    Replied "json option"
  | ParentError "json option" "json option" "json option"
  | Rejected error

record bridge =
  b_pending :: "(nat, command) jmap"
  b_nextId :: nat
  b_closed :: bool
  b_browser :: "browser_choice option"

definition new_bridge :: "browser_choice option \<Rightarrow> bridge" where
  "new_bridge choice = \<lparr>b_pending = [], b_nextId = 0, b_closed = False, b_browser = choice\<rparr>"

definition setBrowser :: "browser_choice \<Rightarrow> bridge \<Rightarrow> bridge" where
  "setBrowser choice b = b\<lparr>b_browser := Some choice\<rparr>"

section \<open>Commands\<close>

text \<open>\<open>status\<close>, and \<open>cookies\<close>, which asks for the status first and has none of a browser that is not ready.\<close>

definition status_command :: "bool \<Rightarrow> command" where
  "status_command initialize = (if initialize then CInitialize else CStatus)"

definition cookies_command :: "bool \<Rightarrow> jstring \<Rightarrow> command option" where
  "cookies_command ready url = (if ready then Some (CCookies url) else None)"

text \<open>\<open>searchVkVideos\<close>: the address is \<open>https://vkvideo.ru/\<close> with the query as its parameter.\<close>

definition vk_command :: "runtime \<Rightarrow> jstring \<Rightarrow> command" where
  "vk_command rt query = CVkSearch
     (rt_href rt (url_with_params rt [(js ''q'', query)]
       \<lparr>u_protocol = js ''https:'', u_username = [], u_password = [], u_hostname = js ''vkvideo.ru'',
        u_port = [], u_pathname = js ''/'', u_search = [], u_hash = []\<rparr>)) query"

datatype request_body = NoBody | TextBody jstring | OtherBody

text \<open>\<open>fetch\<close>; \<open>headers\<close> are the entries of the normalised \<open>Headers\<close>.\<close>

definition fetch_command :: "jstring \<Rightarrow> jstring option \<Rightarrow> (jstring \<times> jstring) list \<Rightarrow> request_body
    \<Rightarrow> (error, command) result" where
  "fetch_command url method headers body =
     (case body of
        OtherBody \<Rightarrow> Inl (Failed (js ''Browser fetch accepts a text body only''))
      | _ \<Rightarrow> Inr (CFetch url (case method of None \<Rightarrow> js ''GET'' | Some m \<Rightarrow> m) headers
               (case body of TextBody t \<Rightarrow> Some t | _ \<Rightarrow> None)))"

definition response_body :: "nat \<Rightarrow> jstring \<Rightarrow> jstring option" where
  "response_body status body = (if status \<in> {204, 205, 304} then None else Some body)"

definition resolve_command :: "jstring \<Rightarrow> selection \<Rightarrow> wanted option \<Rightarrow> jstring option \<Rightarrow> command" where
  "resolve_command url selected kind referrer =
     CResolve url selected (case kind of None \<Rightarrow> WantVideo | Some k \<Rightarrow> k) referrer"

section \<open>Requests and their settlement\<close>

definition disconnected :: error where
  "disconnected = Content (js ''browser_disconnected'') (js ''The content service stopped.'') None"

definition busy :: error where
  "busy = Content (js ''browser_busy'') (js ''The browser is busy. Try again in a few seconds.'') None"

definition timed_out :: error where
  "timed_out = Content (js ''browser_timeout'') (js ''The browser took too long. Try again.'') None"

definition is_cookies :: "command \<Rightarrow> bool" where
  "is_cookies c = (case c of CCookies _ \<Rightarrow> True | _ \<Rightarrow> False)"

definition request_data :: "command \<Rightarrow> bridge \<Rightarrow> bridge_data" where
  "request_data c b = \<lparr>bd_id = Suc (b_nextId b),
     bd_browser = (case b_browser b of None \<Rightarrow> AutoBrowser | Some choice \<Rightarrow> choice),
     bd_command = c, bd_optional = is_cookies c\<rparr>"

text \<open>
  The number is taken before the size check, so a refused message uses it up. The first
  argument is the reason of a signal that is aborted already.
\<close>

definition bridge_request :: "(bridge_data \<Rightarrow> nat) \<Rightarrow> error option \<Rightarrow> command \<Rightarrow> bridge
    \<Rightarrow> bridge \<times> bridge_message list \<times> (error, nat) result" where
  "bridge_request bytes aborted c b =
     (case aborted of
        Some reason \<Rightarrow> (b, [], Inl reason)
      | None \<Rightarrow>
          if b_closed b then (b, [], Inl disconnected)
          else if length (b_pending b) \<ge> 16 then (b, [], Inl busy)
          else let data = request_data c b; b' = b\<lparr>b_nextId := bd_id data\<rparr>
            in if bytes data > MAX_MESSAGE_BYTES then (b', [], Inl (Failed (js ''Browser message exceeds the limit'')))
               else (b'\<lparr>b_pending := jm_set (bd_id data) c (b_pending b')\<rparr>, [BrowserRequest data], Inr (bd_id data)))"

definition cleanup :: "nat \<Rightarrow> bridge \<Rightarrow> bridge" where
  "cleanup i b = b\<lparr>b_pending := jm_delete i (b_pending b)\<rparr>"

text \<open>The pending request that a reply names: a number that is a pending one.\<close>

definition reply_id :: "json \<Rightarrow> bridge \<Rightarrow> nat option" where
  "reply_id response b =
     (case json_number (field response ''id'') of
        None \<Rightarrow> None
      | Some n \<Rightarrow> find (\<lambda>i. of_nat i = n) (jm_keys (b_pending b)))"

definition reply_of :: "json \<Rightarrow> reply" where
  "reply_of response =
     (case field response ''error'' of
        Some e \<Rightarrow> if truthy_json (Some e) then ParentError (field e ''code'') (field e ''message'') (field e ''url'')
                  else Replied (field response ''result'')
      | None \<Rightarrow> Replied (field response ''result''))"

definition receive_reply :: "json \<Rightarrow> bridge \<Rightarrow> bridge \<times> (nat \<times> reply) list" where
  "receive_reply response b =
     (case reply_id response b of
        None \<Rightarrow> (b, [])
      | Some i \<Rightarrow> (cleanup i b, [(i, reply_of response)]))"

text \<open>The abort listener and the timer of a request exist while it is pending.\<close>

definition cancel_request :: "error \<Rightarrow> nat \<Rightarrow> bridge \<Rightarrow> bridge \<times> bridge_message list \<times> (nat \<times> reply) list" where
  "cancel_request reason i b =
     (if jm_has (b_pending b) i then (cleanup i b, [BrowserCancel i], [(i, Rejected reason)]) else (b, [], []))"

definition close_bridge :: "bridge \<Rightarrow> bridge \<times> bridge_message list \<times> (nat \<times> reply) list" where
  "close_bridge b =
     (fold cleanup (jm_keys (b_pending b)) (b\<lparr>b_closed := True\<rparr>),
      map BrowserCancel (jm_keys (b_pending b)),
      map (\<lambda>i. (i, Rejected disconnected)) (jm_keys (b_pending b)))"

section \<open>Runs\<close>

datatype bridge_event =
    EvRequest "error option" command
  | EvReply json
  | EvAbort nat error
  | EvTimeout nat
  | EvClose
  | EvChoose browser_choice

definition bridge_step :: "(bridge_data \<Rightarrow> nat) \<Rightarrow> bridge_event \<Rightarrow> bridge
    \<Rightarrow> bridge \<times> bridge_message list \<times> (nat \<times> reply) list" where
  "bridge_step bytes e b =
     (case e of
        EvRequest aborted c \<Rightarrow> (case bridge_request bytes aborted c b of (b', out, _) \<Rightarrow> (b', out, []))
      | EvReply response \<Rightarrow> (case receive_reply response b of (b', finished) \<Rightarrow> (b', [], finished))
      | EvAbort i reason \<Rightarrow> cancel_request reason i b
      | EvTimeout i \<Rightarrow> cancel_request timed_out i b
      | EvClose \<Rightarrow> close_bridge b
      | EvChoose choice \<Rightarrow> (setBrowser choice b, [], []))"

text \<open>The bridge with everything it sent and settled, oldest first.\<close>

inductive bridge_run :: "(bridge_data \<Rightarrow> nat) \<Rightarrow> bridge \<Rightarrow> bridge_message list \<Rightarrow> (nat \<times> reply) list \<Rightarrow> bool"
  for bytes where
  start: "bridge_run bytes (new_bridge choice) [] []"
| event: "bridge_run bytes b sent settled \<Longrightarrow> bridge_step bytes e b = (b', out, new) \<Longrightarrow>
    bridge_run bytes b' (sent @ out) (settled @ new)"

inductive_cases bridge_run_event: "bridge_run bytes b sent settled"

section \<open>Every request is settled once\<close>

fun requested :: "bridge_message \<Rightarrow> nat list" where
  "requested (BrowserRequest d) = [bd_id d]"
| "requested (BrowserCancel i) = []"

fun cancelled :: "bridge_message \<Rightarrow> nat list" where
  "cancelled (BrowserRequest d) = []"
| "cancelled (BrowserCancel i) = [i]"

definition requests_of :: "bridge_message list \<Rightarrow> nat list" where
  "requests_of ms = concat (map requested ms)"

definition cancels_of :: "bridge_message list \<Rightarrow> nat list" where
  "cancels_of ms = concat (map cancelled ms)"

lemma messages_append [simp]:
  "requests_of (a @ b) = requests_of a @ requests_of b" "cancels_of (a @ b) = cancels_of a @ cancels_of b"
  "requests_of [] = []" "cancels_of [] = []"
  "requests_of (m # ms) = requested m @ requests_of ms" "cancels_of (m # ms) = cancelled m @ cancels_of ms"
  by (simp_all add: requests_of_def cancels_of_def)

lemma messages_cancel [simp]: "requests_of (map BrowserCancel is) = []" "cancels_of (map BrowserCancel is) = is"
  by (induction "is") auto

definition bridge_inv :: "bridge \<Rightarrow> bridge_message list \<Rightarrow> (nat \<times> reply) list \<Rightarrow> bool" where
  "bridge_inv b sent settled \<longleftrightarrow>
     jm_inv (b_pending b) \<and> length (b_pending b) \<le> 16
   \<and> (b_closed b \<longrightarrow> b_pending b = [])
   \<and> sorted_wrt (<) (requests_of sent) \<and> (\<forall>i \<in> set (requests_of sent). i \<le> b_nextId b)
   \<and> set (requests_of sent) = set (map fst (b_pending b)) \<union> set (map fst settled)
   \<and> set (map fst (b_pending b)) \<inter> set (map fst settled) = {}
   \<and> distinct (map fst settled)
   \<and> (\<forall>i \<in> set (cancels_of sent). \<exists>e. (i, Rejected e) \<in> set settled)"

lemma cleanup_pending [simp]:
  "b_pending (cleanup i b) = jm_delete i (b_pending b)" "b_nextId (cleanup i b) = b_nextId b"
  "b_closed (cleanup i b) = b_closed b"
  by (simp_all add: cleanup_def)

lemma fold_cleanup:
  "b_pending (fold cleanup is b) = filter (\<lambda>(k, _). k \<notin> set is) (b_pending b)
   \<and> b_nextId (fold cleanup is b) = b_nextId b \<and> b_closed (fold cleanup is b) = b_closed b"
  by (induction "is" arbitrary: b) (auto simp: jm_delete_def intro!: filter_cong)

lemma jm_has_keys: "jm_has m k \<longleftrightarrow> k \<in> set (map fst m)"
  using jm_get_None[of m k] by (auto simp: jm_has_def)

text \<open>One pending request is settled, with or without a cancel message.\<close>

lemma bridge_inv_settle:
  assumes "bridge_inv b sent settled" and "i \<in> set (map fst (b_pending b))"
    and "out = [] \<or> out = [BrowserCancel i] \<and> (\<exists>e. r = Rejected e)"
  shows "bridge_inv (cleanup i b) (sent @ out) (settled @ [(i, r)])"
proof -
  have "length (jm_delete i (b_pending b)) \<le> 16"
    using assms(1) by (auto simp: bridge_inv_def jm_delete_def intro: order_trans[OF length_filter_le])
  moreover have "set (map fst (jm_delete i (b_pending b))) = set (map fst (b_pending b)) - {i}"
    by (auto simp: jm_delete_def)
  moreover have "b_closed b \<longrightarrow> jm_delete i (b_pending b) = []"
    using assms(1) by (auto simp: bridge_inv_def jm_delete_def)
  moreover have "requests_of out = []" "set (cancels_of out) \<subseteq> {i}" "cancels_of out \<noteq> [] \<longrightarrow> (\<exists>e. r = Rejected e)"
    using assms(3) by auto
  ultimately show ?thesis
    using assms(1,2) unfolding bridge_inv_def by (auto simp del: set_map)
qed

lemma bridge_request_cases:
  assumes "bridge_request bytes aborted c b = (b', out, r)"
  obtains "b' = b" "out = []" "\<exists>e. r = Inl e"
  | "b' = b\<lparr>b_nextId := Suc (b_nextId b)\<rparr>" "out = []" "\<exists>e. r = Inl e"
  | "aborted = None" "\<not> b_closed b" "length (b_pending b) < 16" "bytes (request_data c b) \<le> MAX_MESSAGE_BYTES"
    "b' = b\<lparr>b_nextId := Suc (b_nextId b), b_pending := jm_set (Suc (b_nextId b)) c (b_pending b)\<rparr>"
    "out = [BrowserRequest (request_data c b)]" "r = Inr (Suc (b_nextId b))"
  using assms
  by (auto simp: bridge_request_def Let_def not_le not_less request_data_def split: option.splits if_splits)

lemma bridge_inv_request:
  assumes "bridge_inv b sent settled" and "bridge_request bytes aborted c b = (b', out, r)"
  shows "bridge_inv b' (sent @ out) settled"
  using assms(2)
proof (cases rule: bridge_request_cases)
  case 3
  let ?i = "Suc (b_nextId b)"
  have i: "?i \<notin> set (map fst (b_pending b))" "?i \<notin> set (map fst settled)"
    using assms(1) unfolding bridge_inv_def by (metis Un_iff not_less_eq_eq order_refl)+
  have p: "b_pending b' = b_pending b @ [(?i, c)]" "b_nextId b' = ?i" "b_closed b' = b_closed b"
    using 3(5) jm_set_fresh[OF i(1)] by simp_all
  have out: "requests_of out = [?i]" "cancels_of out = []" using 3(6) by (simp_all add: request_data_def)
  have le: "\<forall>i \<in> set (requests_of sent). i \<le> b_nextId b" and so: "sorted_wrt (<) (requests_of sent)"
    using assms(1) unfolding bridge_inv_def by blast+
  have "jm_inv (b_pending b')" using assms(1) i(1) by (simp add: bridge_inv_def jm_inv_def p)
  moreover have "sorted_wrt (<) (requests_of (sent @ out))"
    using le so by (simp add: sorted_wrt_append out less_Suc_eq_le)
  moreover have "\<forall>i \<in> set (requests_of (sent @ out)). i \<le> ?i"
    using le by (simp add: out le_SucI)
  moreover have "set (requests_of (sent @ out)) = set (map fst (b_pending b')) \<union> set (map fst settled)"
    using assms(1) unfolding bridge_inv_def by (simp only: messages_append out p map_append set_append) auto
  moreover have "set (map fst (b_pending b')) \<inter> set (map fst settled) = {}"
    using assms(1) i(2) unfolding bridge_inv_def by (simp only: p map_append set_append) auto
  ultimately show ?thesis using assms(1) 3(2,3) by (simp add: bridge_inv_def p out)
next
  case 2
  have "\<forall>i \<in> set (requests_of sent). i \<le> b_nextId b" using assms(1) unfolding bridge_inv_def by blast
  then have "\<forall>i \<in> set (requests_of sent). i \<le> Suc (b_nextId b)" by (simp add: le_SucI)
  with 2 show ?thesis using assms(1) unfolding bridge_inv_def by (simp del: set_map)
qed (use assms(1) in simp)

lemma bridge_inv_close:
  assumes "bridge_inv b sent settled" and "close_bridge b = (b', out, new)"
  shows "bridge_inv b' (sent @ out) (settled @ new)"
proof -
  let ?ks = "map fst (b_pending b)"
  have "filter (\<lambda>(k, _). k \<notin> set ?ks) (b_pending b) = []" by (force simp: filter_empty_conv)
  then have b': "b_pending b' = []" "b_nextId b' = b_nextId b" "b_closed b'"
    using assms(2) fold_cleanup[of ?ks "b\<lparr>b_closed := True\<rparr>"]
    by (auto simp: close_bridge_def jm_keys_def simp del: set_map)
  have new: "out = map BrowserCancel ?ks" "new = map (\<lambda>i. (i, Rejected disconnected)) ?ks"
    using assms(2) by (simp_all add: close_bridge_def jm_keys_def)
  have "map fst new = ?ks" by (simp add: new comp_def)
  moreover have "distinct ?ks" using assms(1) by (simp add: bridge_inv_def jm_inv_def)
  moreover have "\<forall>i \<in> set ?ks. (i, Rejected disconnected) \<in> set new" by (auto simp: new)
  moreover have "requests_of out = []" "cancels_of out = ?ks" by (simp_all only: new(1) messages_cancel)
  ultimately show ?thesis
    using assms(1) b' unfolding bridge_inv_def by (auto simp del: set_map) 
qed

lemma reply_id_pending: "reply_id response b = Some i \<Longrightarrow> i \<in> set (map fst (b_pending b))"
  by (auto simp: reply_id_def jm_keys_def find_Some_iff split: option.splits)

lemma bridge_inv_step:
  assumes "bridge_inv b sent settled" and "bridge_step bytes e b = (b', out, new)"
  shows "bridge_inv b' (sent @ out) (settled @ new)"
proof (cases e)
  case (EvRequest aborted c)
  with assms show ?thesis
    by (auto simp: bridge_step_def split: prod.splits dest: bridge_inv_request)
next
  case (EvReply response)
  with assms show ?thesis
    by (auto simp: bridge_step_def receive_reply_def simp del: set_map split: option.splits
        dest: reply_id_pending intro: bridge_inv_settle[where out = "[]", simplified])
next
  case (EvChoose choice)
  with assms show ?thesis by (auto simp: bridge_step_def setBrowser_def bridge_inv_def simp del: set_map)
next
  case EvClose
  with assms show ?thesis by (auto simp: bridge_step_def intro: bridge_inv_close)
next
  case (EvAbort i reason)
  with assms show ?thesis
    by (auto simp: bridge_step_def cancel_request_def jm_has_keys simp del: set_map split: if_splits
        intro: bridge_inv_settle)
next
  case (EvTimeout i)
  with assms show ?thesis
    by (auto simp: bridge_step_def cancel_request_def jm_has_keys simp del: set_map split: if_splits
        intro: bridge_inv_settle)
qed

lemma bridge_run_inv: "bridge_run bytes b sent settled \<Longrightarrow> bridge_inv b sent settled"
proof (induction rule: bridge_run.induct)
  case (start choice)
  show ?case by (simp add: bridge_inv_def new_bridge_def)
next
  case (event b sent settled e b' out new)
  then show ?case by (auto intro: bridge_inv_step)
qed

text \<open>
  C19: in every run of the browser bridge each request that was sent to the parent is waiting
  or settled, never both, and its promise is settled once. Request numbers only grow, at
  most 16 requests wait, and a cancel message is sent only for a request that is rejected.
\<close>

theorem bridge_settles_once:
  assumes "bridge_run bytes b sent settled"
  shows "sorted_wrt (<) (requests_of sent) \<and> distinct (map fst settled) \<and> length (b_pending b) \<le> 16
     \<and> set (requests_of sent) = set (map fst (b_pending b)) \<union> set (map fst settled)
     \<and> set (map fst (b_pending b)) \<inter> set (map fst settled) = {}
     \<and> (\<forall>i \<in> set (cancels_of sent). \<exists>e. (i, Rejected e) \<in> set settled)
     \<and> (b_closed b \<longrightarrow> b_pending b = [])"
  using bridge_run_inv[OF assms] unfolding bridge_inv_def by blast

section \<open>Executing a run\<close>

fun bridge_exec :: "(bridge_data \<Rightarrow> nat) \<Rightarrow> bridge_event list \<Rightarrow> bridge
    \<Rightarrow> bridge \<times> bridge_message list \<times> (nat \<times> reply) list" where
  "bridge_exec bytes [] b = (b, [], [])"
| "bridge_exec bytes (e # es) b =
     (case bridge_step bytes e b of (b', out, new) \<Rightarrow>
        case bridge_exec bytes es b' of (b'', out', new') \<Rightarrow> (b'', out @ out', new @ new'))"

lemma bridge_exec_from:
  "bridge_run bytes b sent settled \<Longrightarrow> bridge_exec bytes es b = (b', out, new)
    \<Longrightarrow> bridge_run bytes b' (sent @ out) (settled @ new)"
proof (induction es arbitrary: b sent settled b' out new)
  case (Cons e es)
  obtain b1 out1 new1 where 1: "bridge_step bytes e b = (b1, out1, new1)" by (cases "bridge_step bytes e b")
  obtain b2 out2 new2 where 2: "bridge_exec bytes es b1 = (b2, out2, new2)" by (cases "bridge_exec bytes es b1")
  from Cons.IH[OF bridge_run.event[OF Cons.prems(1) 1] 2] Cons.prems(2) 1 2 show ?case by simp
qed simp

lemma bridge_exec_run:
  "bridge_exec bytes es (new_bridge choice) = (b, sent, settled) \<Longrightarrow> bridge_run bytes b sent settled"
  using bridge_exec_from[OF bridge_run.start] by fastforce

theorem bridge_settles_once_witness:
  "\<exists>b sent settled. bridge_run (\<lambda>_. 100) b sent settled \<and> requests_of sent = [1, 2, 3] \<and> map fst settled = [2, 1]
     \<and> map fst (b_pending b) = [3] \<and> distinct (map fst settled)
     \<and> (\<forall>i \<in> set (cancels_of sent). \<exists>e. (i, Rejected e) \<in> set settled)"
proof -
  let ?es = "[EvRequest None CStatus, EvRequest None (CCookies (js ''https://a.test'')),
    EvReply (JObj [(js ''id'', JNum 2)]), EvAbort 1 Aborted, EvRequest None CInitialize, EvTimeout 9]"
  obtain b sent settled where x: "bridge_exec (\<lambda>_. 100) ?es (new_bridge None) = (b, sent, settled)"
    by (cases "bridge_exec (\<lambda>_. 100) ?es (new_bridge None)")
  have "case bridge_exec (\<lambda>_. 100) ?es (new_bridge None) of (b, sent, settled) \<Rightarrow>
      requests_of sent = [1, 2, 3] \<and> map fst settled = [2, 1] \<and> map fst (b_pending b) = [3]"
    by code_simp
  then have "requests_of sent = [1, 2, 3] \<and> map fst settled = [2, 1] \<and> map fst (b_pending b) = [3]"
    unfolding x by simp
  moreover note run = bridge_exec_run[OF x]
  moreover note bridge_settles_once[OF run]
  ultimately show ?thesis by (intro exI[of _ b] exI[of _ sent] exI[of _ settled]) (elim conjE, intro conjI, assumption+)
qed

end
