(* ===== verification/Service.thy ===== *)
theory Service
  imports Framing Bridge Net
begin

text \<open>
  The request loop of \<open>main.ts\<close>: received lines start tasks, a task's result or error is
  written as one line, output that the parent does not read is bounded, and \<open>shutdown\<close> aborts
  everything except the requests that save the user's state, waits for those, closes the
  catalog and the browser bridge, waits for the rest and closes the store. A step of the
  model is the code between two suspensions of the event loop.
\<close>

section \<open>State\<close>

record task =
  t_method :: jstring
  t_aborted :: bool

record out_message =
  om_id :: nat
  om_event :: jstring
  om_data :: "json option"

text \<open>The awaits of \<open>shutdown\<close>: the persistence requests, then all requests.\<close>

datatype phase = Serving | WaitPersistence | WaitTasks | StoreClosed

text \<open>
  \<open>hp_inflight\<close> holds the sizes of the lines whose write callback is still to come,
  \<open>hp_requests\<close> the snapshot \<open>requests\<close> that \<open>shutdown\<close> takes. \<open>hp_written\<close> and
  \<open>hp_accepted\<close> are histories: the lines written and the numbers of the requests accepted.
\<close>

record helper =
  hp_pending :: "(nat, task) jmap"
  hp_closing :: bool
  hp_outputBytes :: nat
  hp_inflight :: "nat list"
  hp_phase :: phase
  hp_requests :: "(nat \<times> jstring) list"
  hp_catalogClosed :: bool
  hp_bridge :: bridge
  hp_written :: "out_message list"
  hp_accepted :: "nat list"

text \<open>
  What the loop uses of the language's library and of the tasks: \<open>JSON.parse\<close>, the bytes of
  \<open>JSON.stringify\<close>, \<open>Number\<close> of a text, \<open>String\<close> of a number, and the events that
  \<open>dispatch\<close> emits before it first waits.
\<close>

record helper_io =
  io_parse :: "jstring \<Rightarrow> json option"
  io_bytes :: "json \<Rightarrow> nat"
  io_number :: "jstring \<Rightarrow> rat option"
  io_show :: "rat \<Rightarrow> jstring"
  io_sync :: "jstring \<Rightarrow> json \<Rightarrow> (jstring \<times> json) list"

definition new_helper :: helper where
  "new_helper = \<lparr>hp_pending = [], hp_closing = False, hp_outputBytes = 0, hp_inflight = [],
     hp_phase = Serving, hp_requests = [], hp_catalogClosed = False, hp_bridge = new_bridge None,
     hp_written = [], hp_accepted = []\<rparr>"

definition persistenceMethods :: "jstring list" where
  "persistenceMethods = [js ''remember'', js ''progress'', js ''reader.position'']"

section \<open>Text of JSON values\<close>

text \<open>\<open>String(value)\<close> and \<open>Number(value)\<close> for values of JSON.\<close>

fun js_string :: "(rat \<Rightarrow> jstring) \<Rightarrow> json \<Rightarrow> jstring" where
  "js_string show_num JNull = js ''null''"
| "js_string show_num (JBool b) = (if b then js ''true'' else js ''false'')"
| "js_string show_num (JNum n) = show_num n"
| "js_string show_num (JText t) = t"
| "js_string show_num (JArr xs) = join (js '','') (map (\<lambda>x. if x = JNull then [] else js_string show_num x) xs)"
| "js_string show_num (JObj m) = js ''[object Object]''"

fun js_number :: "helper_io \<Rightarrow> json option \<Rightarrow> rat option" where
  "js_number io None = None"
| "js_number io (Some JNull) = Some 0"
| "js_number io (Some (JBool b)) = Some (if b then 1 else 0)"
| "js_number io (Some (JNum n)) = Some n"
| "js_number io (Some j) = io_number io (js_string (io_show io) j)"

section \<open>Shutdown and output\<close>

definition abort_task :: "task \<Rightarrow> task" where
  "abort_task t = (if t_method t \<in> set persistenceMethods then t else t\<lparr>t_aborted := True\<rparr>)"

definition shutdown_helper :: "helper \<Rightarrow> helper" where
  "shutdown_helper h =
     (if hp_closing h then h
      else h\<lparr>hp_closing := True, hp_phase := WaitPersistence,
             hp_requests := map (\<lambda>(i, t). (i, t_method t)) (hp_pending h),
             hp_pending := map (\<lambda>(i, t). (i, abort_task t)) (hp_pending h)\<rparr>)"

definition message_json :: "out_message \<Rightarrow> json" where
  "message_json m = JObj ([(js ''id'', JNum (of_nat (om_id m))), (js ''event'', JText (om_event m))]
     @ (case om_data m of None \<Rightarrow> [] | Some d \<Rightarrow> [(js ''data'', d)]))"

definition line_bytes :: "helper_io \<Rightarrow> out_message \<Rightarrow> nat" where
  "line_bytes io m = Suc (io_bytes io (message_json m))"

definition maxOutputBytes :: nat where
  "maxOutputBytes = 64 * 1024 * 1024"

definition send :: "helper_io \<Rightarrow> nat \<Rightarrow> jstring \<Rightarrow> json option \<Rightarrow> helper \<Rightarrow> helper" where
  "send io i event data h =
     (if hp_closing h then h
      else let m = \<lparr>om_id = i, om_event = event, om_data = data\<rparr>; bytes = line_bytes io m
        in if bytes > maxMessageBytes \<or> hp_outputBytes h + bytes > maxOutputBytes then shutdown_helper h
           else h\<lparr>hp_outputBytes := hp_outputBytes h + bytes, hp_inflight := hp_inflight h @ [bytes],
                  hp_written := hp_written h @ [m]\<rparr>)"

text \<open>The write callback of the oldest line.\<close>

definition flushed :: "helper \<Rightarrow> helper" where
  "flushed h = (case hp_inflight h of
      [] \<Rightarrow> h
    | n # ns \<Rightarrow> h\<lparr>hp_outputBytes := hp_outputBytes h - n, hp_inflight := ns\<rparr>)"

section \<open>Browser messages\<close>

definition choice_text :: "browser_choice \<Rightarrow> jstring" where
  "choice_text c = (case c of AutoBrowser \<Rightarrow> js ''auto'' | Edge \<Rightarrow> js ''edge'' | Chrome \<Rightarrow> js ''chrome''
     | Firefox \<Rightarrow> js ''firefox'')"

definition text_fields :: "(string \<times> jstring option) list \<Rightarrow> (jstring \<times> json) list" where
  "text_fields fs = concat (map (\<lambda>(k, v). case v of None \<Rightarrow> [] | Some t \<Rightarrow> [(js k, JText t)]) fs)"

definition wanted_text :: "wanted \<Rightarrow> jstring" where
  "wanted_text k = (case k of WantVideo \<Rightarrow> js ''video'' | WantFile \<Rightarrow> js ''file'' | WantTorrent \<Rightarrow> js ''torrent'')"

definition command_json :: "command \<Rightarrow> json" where
  "command_json c = JObj
     (case c of
        CStatus \<Rightarrow> text_fields [(''method'', Some (js ''status''))]
      | CInitialize \<Rightarrow> text_fields [(''method'', Some (js ''initialize''))]
      | CCookies url \<Rightarrow> text_fields [(''method'', Some (js ''cookies'')), (''url'', Some url)]
      | CVkSearch url query \<Rightarrow>
          text_fields [(''method'', Some (js ''vk-search'')), (''url'', Some url), (''query'', Some query)]
      | CFetch url method headers body \<Rightarrow>
          text_fields [(''method'', Some (js ''fetch'')), (''url'', Some url)]
            @ [(js ''init'', JObj (text_fields [(''method'', Some method)]
                 @ [(js ''headers'', JObj (map (\<lambda>(k, v). (k, JText v)) headers))]
                 @ text_fields [(''body'', body)]))]
      | CResolve url selected kind referrer \<Rightarrow>
          text_fields [(''method'', Some (js ''resolve'')), (''url'', Some url)]
            @ [(js ''selection'', JObj (text_fields
                 [(''episode'', sel_episode selected), (''season'', sel_season selected),
                  (''translationId'', sel_translationId selected), (''player'', sel_player selected),
                  (''captureId'', sel_captureId selected)]))]
            @ text_fields [(''kind'', Some (wanted_text kind)), (''referrer'', referrer)])"

definition bridge_data_json :: "bridge_data \<Rightarrow> json" where
  "bridge_data_json d = JObj [(js ''id'', JNum (of_nat (bd_id d))), (js ''browser'', JText (choice_text (bd_browser d))),
     (js ''command'', command_json (bd_command d)), (js ''optional'', JBool (bd_optional d))]"

text \<open>The bridge's \<open>emit\<close> writes its messages as events of request 0.\<close>

fun send_browser :: "helper_io \<Rightarrow> bridge_message \<Rightarrow> helper \<Rightarrow> helper" where
  "send_browser io (BrowserRequest d) h = send io 0 (js ''browserRequest'') (Some (bridge_data_json d)) h"
| "send_browser io (BrowserCancel i) h =
     send io 0 (js ''browserCancel'') (Some (JObj [(js ''id'', JNum (of_nat i))])) h"

definition bridge_event_step :: "helper_io \<Rightarrow> bridge_event \<Rightarrow> helper \<Rightarrow> helper" where
  "bridge_event_step io e h =
     (case bridge_step (\<lambda>d. io_bytes io (bridge_data_json d)) e (hp_bridge h) of
        (b, out, _) \<Rightarrow> fold (send_browser io) out (h\<lparr>hp_bridge := b\<rparr>))"

section \<open>Received lines\<close>

text \<open>\<open>Number.isSafeInteger(request.id) && request.id > 0\<close>\<close>

definition request_id :: "json \<Rightarrow> nat option" where
  "request_id j =
     (case json_number (field j ''id'') of
        Some n \<Rightarrow> if n = of_int \<lfloor>n\<rfloor> \<and> 0 < n \<and> n \<le> 9007199254740991 then Some (nat \<lfloor>n\<rfloor>) else None
      | None \<Rightarrow> None)"

definition too_many :: json where
  "too_many = JObj [(js ''message'', JText (js ''Too many actions are running. Wait for them to finish.''))]"

definition abort_at :: "nat \<Rightarrow> (nat, task) jmap \<Rightarrow> (nat, task) jmap" where
  "abort_at i m = map (\<lambda>(k, t). (k, if k = i then t\<lparr>t_aborted := True\<rparr> else t)) m"

text \<open>\<open>pending.get(Number(request.params?.id))?.controller.abort()\<close>\<close>

definition cancel_target :: "helper_io \<Rightarrow> json \<Rightarrow> (nat, task) jmap \<Rightarrow> (nat, task) jmap" where
  "cancel_target io j m =
     (case (case field j ''params'' of None \<Rightarrow> None | Some p \<Rightarrow> js_number io (field p ''id'')) of
        None \<Rightarrow> m
      | Some n \<Rightarrow> (case find (\<lambda>i. of_nat i = n) (jm_keys m) of None \<Rightarrow> m | Some i \<Rightarrow> abort_at i m))"

definition params_of :: "json \<Rightarrow> json" where
  "params_of j = (case field j ''params'' of
      None \<Rightarrow> JObj []
    | Some p \<Rightarrow> if truthy_json (Some p) then p else JObj [])"

definition start_task :: "helper_io \<Rightarrow> nat \<Rightarrow> jstring \<Rightarrow> json \<Rightarrow> helper \<Rightarrow> helper" where
  "start_task io i method params h =
     (let h' = fold (\<lambda>(event, data). send io i event (Some data)) (io_sync io method params) h
      in h'\<lparr>hp_pending := jm_set i \<lparr>t_method = method, t_aborted = False\<rparr> (hp_pending h')\<rparr>)"

definition receive_request :: "helper_io \<Rightarrow> json \<Rightarrow> helper \<Rightarrow> helper" where
  "receive_request io j h =
     (case (request_id j, json_text (field j ''method'')) of
        (Some i, Some method) \<Rightarrow>
          if jm_has (hp_pending h) i then shutdown_helper h
          else let h' = h\<lparr>hp_accepted := hp_accepted h @ [i]\<rparr>
            in if method = js ''cancel''
               then send io i (js ''complete'') None (h'\<lparr>hp_pending := cancel_target io j (hp_pending h')\<rparr>)
               else if length (hp_pending h) \<ge> 128 then send io i (js ''error'') (Some too_many) h'
               else start_task io i method (params_of j) h'
      | _ \<Rightarrow> shutdown_helper h)"

definition receive_line :: "helper_io \<Rightarrow> jstring \<Rightarrow> helper \<Rightarrow> helper" where
  "receive_line io line h =
     (case io_parse io line of
        None \<Rightarrow> shutdown_helper h
      | Some JNull \<Rightarrow> shutdown_helper h
      | Some j \<Rightarrow>
          if truthy_json (field j ''browserReply'')
          then bridge_event_step io (EvReply (the (field j ''browserReply''))) h
          else receive_request io j h)"

section \<open>Settled tasks\<close>

definition error_json :: "error \<Rightarrow> json" where
  "error_json e = JObj (text_fields
     [(''message'', Some (safeError e)), (''code'', error_code e), (''url'', error_url e)])"

text \<open>The \<open>then\<close>, \<open>catch\<close> and \<open>finally\<close> of a task; a result of an aborted task is an error.\<close>

definition settle :: "helper_io \<Rightarrow> nat \<Rightarrow> (error, json option) result \<Rightarrow> helper \<Rightarrow> helper" where
  "settle io i outcome h =
     (case jm_get (hp_pending h) i of
        None \<Rightarrow> h
      | Some t \<Rightarrow>
          let h' = (case if t_aborted t then bind_r outcome (\<lambda>_. Inl Aborted) else outcome of
                Inr result \<Rightarrow> send io i (js ''complete'') result h
              | Inl e \<Rightarrow> send io i (js ''error'') (Some (error_json e)) h)
          in h'\<lparr>hp_pending := jm_delete i (hp_pending h')\<rparr>)"

text \<open>The continuation of \<open>shutdown\<close>: a request of the snapshot has settled when it is not pending.\<close>

definition settled_requests :: "(nat \<times> jstring) list \<Rightarrow> (nat, task) jmap \<Rightarrow> bool" where
  "settled_requests rs m \<longleftrightarrow> (\<forall>(i, _) \<in> set rs. \<not> jm_has m i)"

definition saving_requests :: "(nat \<times> jstring) list \<Rightarrow> (nat \<times> jstring) list" where
  "saving_requests rs = filter (\<lambda>(_, m). m \<in> set persistenceMethods) rs"

definition advance :: "helper_io \<Rightarrow> helper \<Rightarrow> helper" where
  "advance io h =
     (case hp_phase h of
        WaitPersistence \<Rightarrow>
          if settled_requests (saving_requests (hp_requests h)) (hp_pending h)
          then bridge_event_step io EvClose (h\<lparr>hp_catalogClosed := True, hp_phase := WaitTasks\<rparr>) else h
      | WaitTasks \<Rightarrow> if settled_requests (hp_requests h) (hp_pending h) then h\<lparr>hp_phase := StoreClosed\<rparr> else h
      | _ \<Rightarrow> h)"

section \<open>Runs\<close>

definition input_data :: "helper_io \<Rightarrow> jstring \<Rightarrow> jstring \<times> helper \<Rightarrow> jstring \<times> helper" where
  "input_data io = on_data hp_closing shutdown_helper (receive_line io)"

datatype helper_event =
    HData jstring
  | HStop
  | HEmit nat jstring json
  | HSettle nat "(error, json option) result"
  | HFlushed
  | HBrowser bridge_event
  | HAdvance

definition helper_step :: "helper_io \<Rightarrow> helper_event \<Rightarrow> jstring \<times> helper \<Rightarrow> jstring \<times> helper" where
  "helper_step io e s =
     (case e of
        HData chunk \<Rightarrow> input_data io chunk s
      | HStop \<Rightarrow> apsnd shutdown_helper s
      | HEmit i event data \<Rightarrow> apsnd (send io i event (Some data)) s
      | HSettle i outcome \<Rightarrow> apsnd (settle io i outcome) s
      | HFlushed \<Rightarrow> apsnd flushed s
      | HBrowser b \<Rightarrow> apsnd (bridge_event_step io b) s
      | HAdvance \<Rightarrow> apsnd (advance io) s)"

text \<open>
  The events outside the loop's control: a task does not report the end of its request itself,
  and the bridge closes and receives replies only through the loop.
\<close>

definition terminal :: "jstring \<Rightarrow> bool" where
  "terminal event \<longleftrightarrow> event = js ''complete'' \<or> event = js ''error''"

fun outside :: "helper_event \<Rightarrow> bool" where
  "outside (HEmit i event data) = (\<not> terminal event)"
| "outside (HBrowser EvClose) = False"
| "outside (HBrowser (EvReply r)) = False"
| "outside e = True"

inductive helper_run :: "helper_io \<Rightarrow> jstring \<times> helper \<Rightarrow> bool" for io where
  start: "helper_run io ([], new_helper)"
| step: "helper_run io s \<Longrightarrow> outside e \<Longrightarrow> helper_run io (helper_step io e s)"

declare helper_run.intros [intro]

lemma helper_run_events:
  "helper_run io s \<Longrightarrow> list_all outside es \<Longrightarrow> helper_run io (fold (helper_step io) es s)"
  by (induction es arbitrary: s) (simp_all del: split_paired_All add: helper_run.step)

section \<open>How output changes the state\<close>

lemma shutdown_simps [simp]:
  "hp_closing (shutdown_helper h)" "hp_closing h \<Longrightarrow> shutdown_helper h = h"
  "hp_outputBytes (shutdown_helper h) = hp_outputBytes h" "hp_inflight (shutdown_helper h) = hp_inflight h"
  "hp_written (shutdown_helper h) = hp_written h" "hp_accepted (shutdown_helper h) = hp_accepted h"
  "hp_bridge (shutdown_helper h) = hp_bridge h" "hp_catalogClosed (shutdown_helper h) = hp_catalogClosed h"
  "map fst (hp_pending (shutdown_helper h)) = map fst (hp_pending h)"
  by (auto simp: shutdown_helper_def)

lemma send_cases:
  obtains "send io i event data h = shutdown_helper h"
  | "\<not> hp_closing h" "line_bytes io \<lparr>om_id = i, om_event = event, om_data = data\<rparr> \<le> maxMessageBytes"
    "hp_outputBytes h + line_bytes io \<lparr>om_id = i, om_event = event, om_data = data\<rparr> \<le> maxOutputBytes"
    "send io i event data h = h
       \<lparr>hp_outputBytes := hp_outputBytes h + line_bytes io \<lparr>om_id = i, om_event = event, om_data = data\<rparr>,
        hp_inflight := hp_inflight h @ [line_bytes io \<lparr>om_id = i, om_event = event, om_data = data\<rparr>],
        hp_written := hp_written h @ [\<lparr>om_id = i, om_event = event, om_data = data\<rparr>]\<rparr>"
proof (cases "hp_closing h")
  case True
  then show thesis by (intro that(1)) (simp add: send_def)
next
  case False
  then show thesis by (cases "line_bytes io \<lparr>om_id = i, om_event = event, om_data = data\<rparr> > maxMessageBytes \<or>
      hp_outputBytes h + line_bytes io \<lparr>om_id = i, om_event = event, om_data = data\<rparr> > maxOutputBytes")
    (auto simp: send_def Let_def not_less intro: that)
qed

text \<open>
  Sending keeps every property of the state that a shutdown and one more written line keep:
  the induction principle of the output.
\<close>

lemma send_keeps:
  assumes "P h" and "\<And>h. P h \<Longrightarrow> P (shutdown_helper h)"
    and "\<And>h. P h \<Longrightarrow> \<not> hp_closing h \<Longrightarrow> line_bytes io \<lparr>om_id = i, om_event = event, om_data = data\<rparr> \<le> maxMessageBytes
      \<Longrightarrow> hp_outputBytes h + line_bytes io \<lparr>om_id = i, om_event = event, om_data = data\<rparr> \<le> maxOutputBytes
      \<Longrightarrow> P (h\<lparr>hp_outputBytes := hp_outputBytes h + line_bytes io \<lparr>om_id = i, om_event = event, om_data = data\<rparr>,
        hp_inflight := hp_inflight h @ [line_bytes io \<lparr>om_id = i, om_event = event, om_data = data\<rparr>],
        hp_written := hp_written h @ [\<lparr>om_id = i, om_event = event, om_data = data\<rparr>]\<rparr>)"
  shows "P (send io i event data h)"
  by (rule send_cases[of io i event data h]) (use assms in simp_all)

lemma send_closing [simp]: "hp_closing h \<Longrightarrow> send io i event data h = h"
  by (simp add: send_def)

lemma send_same [simp]:
  "map fst (hp_pending (send io i event data h)) = map fst (hp_pending h)"
  "hp_accepted (send io i event data h) = hp_accepted h"
  "hp_bridge (send io i event data h) = hp_bridge h"
  "hp_catalogClosed (send io i event data h) = hp_catalogClosed h"
  by (rule send_cases[of io i event data h]; simp)+

text \<open>The two ways the loop sends several messages are folds of \<open>send\<close>.\<close>

lemma fold_send_keeps:
  assumes "P h" and "\<And>h i event data. (i, event, data) \<in> set ms \<Longrightarrow> P h \<Longrightarrow> P (send io i event data h)"
  shows "P (fold (\<lambda>(i, event, data). send io i event data) ms h)"
  using assms by (induction ms arbitrary: h) auto

fun browser_line :: "bridge_message \<Rightarrow> nat \<times> jstring \<times> json option" where
  "browser_line (BrowserRequest d) = (0, js ''browserRequest'', Some (bridge_data_json d))"
| "browser_line (BrowserCancel i) = (0, js ''browserCancel'', Some (JObj [(js ''id'', JNum (of_nat i))]))"

lemma send_browser_fold:
  "fold (send_browser io) out h = fold (\<lambda>(i, event, data). send io i event data) (map browser_line out) h"
proof (induction out arbitrary: h)
  case (Cons m out)
  then show ?case by (cases m) simp_all
qed simp

lemma browser_line_event: "(i, event, data) \<in> set (map browser_line out) \<Longrightarrow> i = 0 \<and> \<not> terminal event"
proof (induction out)
  case (Cons m out)
  then show ?case by (cases m) (auto simp: terminal_def)
qed simp

lemma start_task_fold:
  "start_task io i method params h =
     (let h' = fold (\<lambda>(i, event, data). send io i event data)
        (map (\<lambda>(event, data). (i, event, Some data)) (io_sync io method params)) h
      in h'\<lparr>hp_pending := jm_set i \<lparr>t_method = method, t_aborted = False\<rparr> (hp_pending h')\<rparr>)"
  by (simp add: start_task_def fold_map comp_def case_prod_beta')

section \<open>The invariant of the loop\<close>

definition answers :: "out_message list \<Rightarrow> nat \<Rightarrow> nat" where
  "answers ms i = length (filter (\<lambda>m. om_id m = i \<and> terminal (om_event m)) ms)"

lemma answers_append [simp]:
  "answers (ms @ [m]) i = answers ms i + (if om_id m = i \<and> terminal (om_event m) then 1 else 0)"
  "answers [] i = 0"
  by (simp_all add: answers_def)

text \<open>Accepted requests without an answer that do not run; zero for every number between steps.\<close>

definition balance :: "helper \<Rightarrow> nat \<Rightarrow> int" where
  "balance h i = int (count_list (hp_accepted h) i) - int (answers (hp_written h) i)
     - (if i \<in> set (map fst (hp_pending h)) then 1 else 0)"

definition helper_ok :: "helper_io \<Rightarrow> helper \<Rightarrow> bool" where
  "helper_ok io h \<longleftrightarrow>
     jm_inv (hp_pending h) \<and> length (hp_pending h) \<le> 128
   \<and> hp_outputBytes h = sum_list (hp_inflight h) \<and> hp_outputBytes h \<le> maxOutputBytes
   \<and> (\<forall>m \<in> set (hp_written h). line_bytes io m \<le> maxMessageBytes)
   \<and> (hp_phase h = Serving \<longleftrightarrow> \<not> hp_closing h)
   \<and> (hp_catalogClosed h \<longleftrightarrow> hp_phase h = WaitTasks \<or> hp_phase h = StoreClosed)
   \<and> (hp_catalogClosed h \<longrightarrow> settled_requests (saving_requests (hp_requests h)) (hp_pending h))
   \<and> (hp_phase h = StoreClosed \<longrightarrow> settled_requests (hp_requests h) (hp_pending h))"

definition owes :: "(nat \<Rightarrow> int) \<Rightarrow> helper \<Rightarrow> bool" where
  "owes d h \<longleftrightarrow> (\<forall>i. d i \<le> balance h i) \<and> (\<not> hp_closing h \<longrightarrow> balance h = d)"

lemma balance_pending: "map fst (hp_pending h') = map fst (hp_pending h) \<Longrightarrow> hp_accepted h' = hp_accepted h
    \<Longrightarrow> hp_written h' = hp_written h \<Longrightarrow> balance h' = balance h"
  by (simp add: balance_def fun_eq_iff del: set_map)

lemma settled_requests_mono:
  "settled_requests rs m \<Longrightarrow> set (map fst m') \<subseteq> set (map fst m) \<Longrightarrow> settled_requests rs m'"
  by (fastforce simp: settled_requests_def jm_has_keys simp del: set_map)

text \<open>Each operation keeps \<open>helper_ok\<close>.\<close>

lemma helper_ok_shutdown: "helper_ok io h \<Longrightarrow> helper_ok io (shutdown_helper h)"
proof (cases "hp_closing h")
  case False
  assume h: "helper_ok io h"
  have ks: "map fst (hp_pending (shutdown_helper h)) = map fst (hp_pending h)" by simp
  then have "length (hp_pending (shutdown_helper h)) = length (hp_pending h)" by (metis length_map)
  moreover have "hp_phase (shutdown_helper h) = WaitPersistence" using False by (simp add: shutdown_helper_def)
  ultimately show ?thesis using h False by (simp add: helper_ok_def jm_inv_def)
qed simp

lemma helper_ok_send: "helper_ok io h \<Longrightarrow> helper_ok io (send io i event data h)"
proof (erule send_keeps)
  fix h assume "helper_ok io h" "\<not> hp_closing h"
    "line_bytes io \<lparr>om_id = i, om_event = event, om_data = data\<rparr> \<le> maxMessageBytes"
    "hp_outputBytes h + line_bytes io \<lparr>om_id = i, om_event = event, om_data = data\<rparr> \<le> maxOutputBytes"
  then show "helper_ok io (h\<lparr>hp_outputBytes := hp_outputBytes h + line_bytes io \<lparr>om_id = i, om_event = event, om_data = data\<rparr>,
        hp_inflight := hp_inflight h @ [line_bytes io \<lparr>om_id = i, om_event = event, om_data = data\<rparr>],
        hp_written := hp_written h @ [\<lparr>om_id = i, om_event = event, om_data = data\<rparr>]\<rparr>)"
    unfolding helper_ok_def by simp
qed (rule helper_ok_shutdown)

lemma helper_ok_flushed: "helper_ok io h \<Longrightarrow> helper_ok io (flushed h)"
  by (cases "hp_inflight h") (simp_all add: flushed_def helper_ok_def)

lemma helper_ok_delete: "helper_ok io h \<Longrightarrow> helper_ok io (h\<lparr>hp_pending := jm_delete i (hp_pending h)\<rparr>)"
proof -
  assume h: "helper_ok io h"
  have "set (map fst (jm_delete i (hp_pending h))) \<subseteq> set (map fst (hp_pending h))" by (auto simp: jm_delete_def)
  moreover have "length (jm_delete i (hp_pending h)) \<le> length (hp_pending h)" by (simp add: jm_delete_def)
  ultimately show ?thesis using h settled_requests_mono unfolding helper_ok_def by (simp del: set_map) blast
qed

lemma helper_ok_task:
  assumes "helper_ok io h" and "i \<notin> set (map fst (hp_pending h))" and "length (hp_pending h) < 128"
    and "\<not> hp_catalogClosed h"
  shows "helper_ok io (h\<lparr>hp_pending := jm_set i t (hp_pending h)\<rparr>)"
  using assms unfolding helper_ok_def by (auto simp: jm_length_set simp del: set_map)

text \<open>Each operation moves what the loop owes.\<close>

lemma owes_shutdown: "owes d h \<Longrightarrow> owes d (shutdown_helper h)"
  using balance_pending[of "shutdown_helper h" h] by (auto simp: owes_def)

lemma owes_less: "owes d h \<Longrightarrow> hp_closing h \<Longrightarrow> owes (d(i := d i - 1)) h"
proof -
  assume h: "owes d h" "hp_closing h"
  then have "d k \<le> balance h k" for k by (simp add: owes_def)
  then have "(d(i := d i - 1)) k \<le> balance h k" for k by (simp add: order_trans[of "d i - 1" "d i"])
  with h(2) show ?thesis by (simp add: owes_def)
qed

lemma owes_send:
  assumes "owes d h"
  shows "owes (if terminal event then d(i := d i - 1) else d) (send io i event data h)"
proof (rule send_cases[of io i event data h])
  assume "send io i event data h = shutdown_helper h"
  then show ?thesis using owes_shutdown[OF assms] owes_less by simp
next
  let ?m = "\<lparr>om_id = i, om_event = event, om_data = data\<rparr>"
  let ?h = "h\<lparr>hp_outputBytes := hp_outputBytes h + line_bytes io ?m, hp_inflight := hp_inflight h @ [line_bytes io ?m],
      hp_written := hp_written h @ [?m]\<rparr>"
  assume "\<not> hp_closing h" and s: "send io i event data h = ?h"
  then have "balance h = d" using assms by (simp add: owes_def)
  moreover have "balance ?h = (if terminal event then (balance h)(i := balance h i - 1) else balance h)"
    by (auto simp: balance_def fun_eq_iff simp del: set_map)
  ultimately show ?thesis unfolding s by (simp add: owes_def)
qed

lemma owes_change:
  assumes "owes d h" and "balance h' = (balance h)(i := balance h i + n)" and "hp_closing h' = hp_closing h"
  shows "owes (d(i := d i + n)) h'"
  using assms by (auto simp: owes_def)

lemma owes_accept: "owes d h \<Longrightarrow> owes (d(i := d i + 1)) (h\<lparr>hp_accepted := hp_accepted h @ [i]\<rparr>)"
  by (rule owes_change) (auto simp: balance_def fun_eq_iff simp del: set_map)

lemma owes_delete:
  "owes d h \<Longrightarrow> i \<in> set (map fst (hp_pending h)) \<Longrightarrow>
    owes (d(i := d i + 1)) (h\<lparr>hp_pending := jm_delete i (hp_pending h)\<rparr>)"
proof (rule owes_change)
  assume i: "i \<in> set (map fst (hp_pending h))"
  have "set (map fst (jm_delete i (hp_pending h))) = set (map fst (hp_pending h)) - {i}"
    by (auto simp: jm_delete_def)
  with i show "balance (h\<lparr>hp_pending := jm_delete i (hp_pending h)\<rparr>) = (balance h)(i := balance h i + 1)"
    by (auto simp: balance_def fun_eq_iff simp del: set_map)
qed simp_all

lemma owes_task:
  "owes d h \<Longrightarrow> i \<notin> set (map fst (hp_pending h)) \<Longrightarrow>
    owes (d(i := d i + (- 1))) (h\<lparr>hp_pending := jm_set i t (hp_pending h)\<rparr>)"
  by (rule owes_change) (auto simp: balance_def fun_eq_iff jm_keys_set simp del: set_map)

text \<open>Both together, for the compound operations.\<close>

definition helper_inv :: "helper_io \<Rightarrow> (nat \<Rightarrow> int) \<Rightarrow> helper \<Rightarrow> bool" where
  "helper_inv io d h \<longleftrightarrow> helper_ok io h \<and> owes d h"

lemma helper_inv_send:
  "helper_inv io d h \<Longrightarrow> helper_inv io (if terminal event then d(i := d i - 1) else d) (send io i event data h)"
  unfolding helper_inv_def using helper_ok_send owes_send by blast

lemma helper_inv_shutdown: "helper_inv io d h \<Longrightarrow> helper_inv io d (shutdown_helper h)"
  unfolding helper_inv_def using helper_ok_shutdown owes_shutdown by blast

lemma helper_inv_sends:
  assumes "helper_inv io d h" and "\<And>i event data. (i, event, data) \<in> set ms \<Longrightarrow> \<not> terminal event"
  shows "helper_inv io d (fold (\<lambda>(i, event, data). send io i event data) ms h)"
  using assms(1)
proof (rule fold_send_keeps)
  show "helper_inv io d (send io i event data h)" if "(i, event, data) \<in> set ms" "helper_inv io d h" for h i event data
    using helper_inv_send[OF that(2), of event i data] assms(2)[OF that(1)] by simp
qed

lemma helper_inv_bridge:
  assumes "helper_inv io d h"
  shows "helper_inv io d (bridge_event_step io e h)"
proof -
  obtain b out new where b: "bridge_step (\<lambda>x. io_bytes io (bridge_data_json x)) e (hp_bridge h) = (b, out, new)"
    by (metis prod_cases3)
  from assms have "helper_inv io d (h\<lparr>hp_bridge := b\<rparr>)"
    by (simp add: helper_inv_def helper_ok_def owes_def balance_def fun_eq_iff)
  then have "helper_inv io d (fold (\<lambda>(i, event, data). send io i event data) (map browser_line out) (h\<lparr>hp_bridge := b\<rparr>))"
    by (rule helper_inv_sends) (use browser_line_event in blast)
  with b show ?thesis by (simp add: bridge_event_step_def send_browser_fold)
qed

interpretation lines: line_service hp_closing shutdown_helper "receive_line io" for io
  by unfold_locales simp_all

text \<open>
  C21: cutting the standard input into other chunks, in the middle of a line or of several
  lines at once, leaves the helper in the same state: the same requests, the same output,
  and the same decision to shut down on a line over the message limit.
\<close>

theorem input_chunks:
  assumes "concat cs = concat ds" and "cs \<noteq> []" and "ds \<noteq> []"
  shows "snd (fold (input_data io) cs s) = snd (fold (input_data io) ds s)"
  unfolding input_data_def using assms by (rule lines.chunk_independent)

section \<open>Every step keeps the invariant\<close>

abbreviation settled_inv :: "helper_io \<Rightarrow> helper \<Rightarrow> bool" where
  "settled_inv io \<equiv> helper_inv io (\<lambda>_. 0)"

text \<open>The events emitted at once do not end a request.\<close>

definition quiet_sync :: "helper_io \<Rightarrow> bool" where
  "quiet_sync io \<longleftrightarrow> (\<forall>method params. list_all (\<lambda>(event, _). \<not> terminal event) (io_sync io method params))"

lemma terminal_events [simp]: "terminal (js ''complete'')" "terminal (js ''error'')"
  by (simp_all add: terminal_def)

lemma debt_simps [simp]:
  "(\<lambda>_. 0 :: int)(i := (\<lambda>_. 0) i + 1) = (\<lambda>_. 0)(i := 1)"
  "((\<lambda>_. 0 :: int)(i := 1))(i := ((\<lambda>_. 0)(i := 1)) i - 1) = (\<lambda>_. 0)"
  "((\<lambda>_. 0 :: int)(i := 1))(i := ((\<lambda>_. 0)(i := 1)) i + (- 1)) = (\<lambda>_. 0)"
  "(\<lambda>_. 0 :: int)(i := 0) = (\<lambda>_. 0)"
  by (simp_all add: fun_eq_iff)

lemma abort_at_keys [simp]: "map fst (abort_at i m) = map fst m"
  by (simp add: abort_at_def comp_def case_prod_beta')

lemma cancel_target_keys [simp]: "map fst (cancel_target io j m) = map fst m"
  by (simp add: cancel_target_def split: option.splits)

lemma helper_inv_aborts:
  assumes "helper_inv io d h" and "map fst m = map fst (hp_pending h)"
  shows "helper_inv io d (h\<lparr>hp_pending := m\<rparr>)"
proof -
  have "length m = length (hp_pending h)" using assms(2) by (metis length_map)
  moreover have "settled_requests rs m = settled_requests rs (hp_pending h)" for rs
    using assms(2) by (simp add: settled_requests_def jm_has_keys)
  moreover have "balance (h\<lparr>hp_pending := m\<rparr>) = balance h" by (rule balance_pending) (simp_all add: assms(2))
  ultimately show ?thesis using assms by (simp add: helper_inv_def helper_ok_def owes_def jm_inv_def)
qed

lemma helper_inv_accept:
  "settled_inv io h \<Longrightarrow> helper_inv io ((\<lambda>_. 0)(i := 1)) (h\<lparr>hp_accepted := hp_accepted h @ [i]\<rparr>)"
  using owes_accept[of "\<lambda>_. 0" h i] by (simp add: helper_inv_def helper_ok_def)

lemma helper_inv_start:
  assumes h: "helper_inv io ((\<lambda>_. 0)(i := 1)) h" and new: "i \<notin> set (map fst (hp_pending h))"
    and few: "length (hp_pending h) < 128" and "\<not> hp_closing h" and "quiet_sync io"
  shows "settled_inv io (start_task io i method params h)"
proof -
  let ?ms = "map (\<lambda>(event, data). (i, event, Some data)) (io_sync io method params)"
  obtain h' where h': "h' = fold (\<lambda>(i, event, data). send io i event data) ?ms h" by blast
  have keys: "map fst (hp_pending h') = map fst (hp_pending h) \<and> hp_catalogClosed h' = hp_catalogClosed h"
    unfolding h' by (rule fold_send_keeps) simp_all
  have "helper_inv io ((\<lambda>_. 0)(i := 1)) h'"
    unfolding h' using h by (rule helper_inv_sends) (use assms(5) in \<open>fastforce simp: quiet_sync_def list_all_iff\<close>)
  moreover have "\<not> hp_catalogClosed h'" using keys h assms(4) by (auto simp: helper_inv_def helper_ok_def)
  moreover have "length (hp_pending h') < 128" using keys few by (metis length_map)
  moreover have "i \<notin> set (map fst (hp_pending h'))" using keys new by simp
  ultimately show ?thesis
    using owes_task[of "(\<lambda>_. 0)(i := 1)" h' i] helper_ok_task[of io h' i]
    by (simp add: start_task_fold Let_def h'[symmetric] helper_inv_def)
qed

lemma settled_inv_request:
  assumes "settled_inv io h" and "\<not> hp_closing h" and "quiet_sync io"
  shows "settled_inv io (receive_request io j h)"
proof (cases "request_id j")
  case None
  then show ?thesis using helper_inv_shutdown[OF assms(1)] by (simp add: receive_request_def)
next
  case (Some i)
  note id = this
  show ?thesis
  proof (cases "json_text (field j ''method'')")
    case None
    then show ?thesis using helper_inv_shutdown[OF assms(1)] id by (simp add: receive_request_def)
  next
    case (Some meth)
    let ?h = "h\<lparr>hp_accepted := hp_accepted h @ [i]\<rparr>"
    have a: "helper_inv io ((\<lambda>_. 0)(i := 1)) ?h" by (rule helper_inv_accept[OF assms(1)])
    then have c: "helper_inv io ((\<lambda>_. 0)(i := 1)) (?h\<lparr>hp_pending := cancel_target io j (hp_pending ?h)\<rparr>)"
      by (rule helper_inv_aborts) simp
    have end_i: "settled_inv io (send io i event data h')"
      if "helper_inv io ((\<lambda>_. 0)(i := 1)) h'" "terminal event" for event data h'
      using helper_inv_send[OF that(1), of event i data] that(2) debt_simps(2)[of i] by simp
    consider "jm_has (hp_pending h) i" | "\<not> jm_has (hp_pending h) i" "meth = js ''cancel''"
      | "\<not> jm_has (hp_pending h) i" "meth \<noteq> js ''cancel''" "length (hp_pending h) \<ge> 128"
      | "\<not> jm_has (hp_pending h) i" "meth \<noteq> js ''cancel''" "length (hp_pending h) < 128" by linarith
    then show ?thesis
    proof cases
      case 1
      then show ?thesis using helper_inv_shutdown[OF assms(1)] id Some by (simp add: receive_request_def)
    next
      case 2
      then show ?thesis using end_i[OF c terminal_events(1), of None] id Some
        by (simp add: receive_request_def Let_def)
    next
      case 3
      then show ?thesis using end_i[OF a terminal_events(2), of "Some too_many"] id Some
        by (simp add: receive_request_def Let_def)
    next
      case 4
      then show ?thesis using helper_inv_start[OF a _ _ _ assms(3)] assms(2) id Some
        by (simp add: receive_request_def Let_def jm_has_keys)
    qed
  qed
qed

lemma settled_inv_line:
  assumes "settled_inv io h" and "\<not> hp_closing h" and "quiet_sync io"
  shows "settled_inv io (receive_line io line h)"
  using settled_inv_request[OF assms] helper_inv_shutdown[OF assms(1)] helper_inv_bridge[OF assms(1)]
  by (auto simp: receive_line_def split: option.split json.split)

lemma settled_inv_settle:
  assumes "settled_inv io h"
  shows "settled_inv io (settle io i outcome h)"
proof (cases "jm_get (hp_pending h) i")
  case (Some t)
  have i: "i \<in> set (map fst (hp_pending h))" using Some by (metis jm_get_None option.distinct(1))
  have main: "settled_inv io (h'\<lparr>hp_pending := jm_delete i (hp_pending h')\<rparr>)"
    if h': "h' = send io i event data h" and "terminal event" for h' event data
  proof -
    have "helper_inv io ((\<lambda>_. 0)(i := - 1)) h'"
      using helper_inv_send[OF assms, of event i data] that by simp
    moreover have "i \<in> set (map fst (hp_pending h'))" using i h' by (simp del: set_map)
    moreover have "((\<lambda>_. 0 :: int)(i := - 1))(i := ((\<lambda>_. 0)(i := - 1)) i + 1) = (\<lambda>_. 0)" by (simp add: fun_eq_iff)
    ultimately show ?thesis using owes_delete[of "(\<lambda>_. 0)(i := - 1)" h' i] helper_ok_delete[of io h' i]
      by (simp add: helper_inv_def del: set_map)
  qed
  from main[OF refl terminal_events(1)] main[OF refl terminal_events(2)] show ?thesis
    using Some by (cases outcome) (simp_all add: settle_def Let_def bind_r_def)
qed (use assms in \<open>simp add: settle_def\<close>)

lemma settled_inv_advance:
  assumes "settled_inv io h"
  shows "settled_inv io (advance io h)"
proof (cases "hp_phase h")
  case WaitPersistence
  have "settled_inv io (h\<lparr>hp_catalogClosed := True, hp_phase := WaitTasks\<rparr>)"
    if "settled_requests (saving_requests (hp_requests h)) (hp_pending h)"
    using assms that WaitPersistence by (auto simp: helper_inv_def helper_ok_def owes_def balance_def)
  then show ?thesis using WaitPersistence assms helper_inv_bridge by (simp add: advance_def)
next
  case WaitTasks
  then show ?thesis using assms
    by (auto simp: advance_def helper_inv_def helper_ok_def owes_def balance_def)
qed (use assms in \<open>simp_all add: advance_def\<close>)

lemma settled_inv_step:
  assumes "settled_inv io (snd s)" and "quiet_sync io" and "outside e"
  shows "settled_inv io (snd (helper_step io e s))"
proof (cases e)
  case (HData chunk)
  then show ?thesis
    using lines.on_data_keeps[of "settled_inv io" s io chunk] settled_inv_line[OF _ _ assms(2)] helper_inv_shutdown assms(1)
    by (simp add: helper_step_def input_data_def)
next
  case (HEmit i event data)
  then show ?thesis using helper_inv_send[OF assms(1), of event i "Some data"] assms(3) by (simp add: helper_step_def)
next
  case HFlushed
  have "balance (flushed h) = balance h \<and> hp_closing (flushed h) = hp_closing h" for h
    by (simp add: flushed_def balance_def fun_eq_iff split: list.split)
  then show ?thesis using assms(1) HFlushed by (simp add: helper_step_def helper_inv_def helper_ok_flushed owes_def)
qed (use assms(1) in \<open>simp_all add: helper_step_def helper_inv_shutdown settled_inv_settle helper_inv_bridge settled_inv_advance\<close>)

lemma helper_run_inv: "helper_run io s \<Longrightarrow> quiet_sync io \<Longrightarrow> settled_inv io (snd s)"
proof (induction rule: helper_run.induct)
  case start
  show ?case
    by (simp add: helper_inv_def helper_ok_def owes_def balance_def new_helper_def maxOutputBytes_def settled_requests_def fun_eq_iff)
qed (simp add: settled_inv_step)

text \<open>
  C4: while the helper serves, every accepted request is either running or has exactly one
  \<open>complete\<close> or \<open>error\<close> line; after a shutdown has begun no request has more than one.
\<close>

theorem answered_once:
  assumes "helper_run io s" and "quiet_sync io"
  shows "answers (hp_written (snd s)) i + (if jm_has (hp_pending (snd s)) i then 1 else 0) \<le> count_list (hp_accepted (snd s)) i
     \<and> (\<not> hp_closing (snd s) \<longrightarrow>
          answers (hp_written (snd s)) i + (if jm_has (hp_pending (snd s)) i then 1 else 0) = count_list (hp_accepted (snd s)) i)"
proof -
  have o: "owes (\<lambda>_. 0) (snd s)" using helper_run_inv[OF assms] by (simp add: helper_inv_def)
  then have "0 \<le> balance (snd s) i" by (simp add: owes_def)
  moreover have "\<not> hp_closing (snd s) \<Longrightarrow> balance (snd s) i = 0" using o by (simp add: owes_def fun_eq_iff)
  ultimately show ?thesis by (auto simp: balance_def jm_has_keys simp del: set_map)
qed

text \<open>
  C39: at most 128 requests run, the lines that the parent has not read yet are at most 64 MiB
  and are what \<open>outputBytes\<close> says, and no written line is longer than 16 MiB.
\<close>

theorem output_bounded:
  assumes "helper_run io s" and "quiet_sync io"
  shows "length (hp_pending (snd s)) \<le> 128 \<and> hp_outputBytes (snd s) = sum_list (hp_inflight (snd s))
     \<and> sum_list (hp_inflight (snd s)) \<le> 64 * 1024 * 1024
     \<and> (\<forall>m \<in> set (hp_written (snd s)). line_bytes io m \<le> 16 * 1024 * 1024)"
  using helper_run_inv[OF assms]
  by (simp add: helper_inv_def helper_ok_def maxOutputBytes_def maxMessageBytes_def)

section \<open>Shutdown\<close>

text \<open>
  The store is closed only after every request of the shutdown's snapshot has settled, and
  the catalog and the browser bridge only after the snapshot's saving requests have.
\<close>

theorem store_closed_last:
  assumes "helper_run io s" and "quiet_sync io"
  shows "(hp_catalogClosed (snd s) \<longrightarrow> hp_closing (snd s) \<and> settled_requests (saving_requests (hp_requests (snd s))) (hp_pending (snd s)))
     \<and> (hp_phase (snd s) = StoreClosed \<longrightarrow> hp_catalogClosed (snd s) \<and> settled_requests (hp_requests (snd s)) (hp_pending (snd s)))"
  using helper_run_inv[OF assms] by (auto simp: helper_inv_def helper_ok_def)

text \<open>Once closing, a step writes nothing, starts nothing and keeps the snapshot.\<close>

lemma fold_send_closing [simp]:
  "hp_closing h \<Longrightarrow> fold (\<lambda>(i, event, data). send io i event data) ms h = h"
  by (induction ms) auto

lemma bridge_closing:
  "hp_closing h \<Longrightarrow> bridge_event_step io e h =
     h\<lparr>hp_bridge := fst (bridge_step (\<lambda>d. io_bytes io (bridge_data_json d)) e (hp_bridge h))\<rparr>"
  by (simp add: bridge_event_step_def send_browser_fold split: prod.split)

lemma settle_closing:
  "hp_closing h \<Longrightarrow> settle io i outcome h = h\<lparr>hp_pending := jm_delete i (hp_pending h)\<rparr>"
proof (cases "jm_get (hp_pending h) i")
  case None
  have "\<forall>p \<in> set (hp_pending h). fst p \<noteq> i" using None jm_get_None[of "hp_pending h" i] by auto
  then have "jm_delete i (hp_pending h) = hp_pending h" by (auto simp: jm_delete_def filter_id_conv)
  with None show ?thesis by (simp add: settle_def)
qed (simp add: settle_def Let_def split: sum.split)

lemma closing_step:
  assumes "hp_closing (snd s)"
  shows "hp_closing (snd (helper_step io e s)) \<and> hp_written (snd (helper_step io e s)) = hp_written (snd s)
    \<and> hp_requests (snd (helper_step io e s)) = hp_requests (snd s)
    \<and> set (hp_pending (snd (helper_step io e s))) \<subseteq> set (hp_pending (snd s))"
proof (cases e)
  case (HData chunk)
  then show ?thesis using assms lines.on_data_closing[of "snd s" io chunk "fst s"]
    by (simp add: helper_step_def input_data_def)
next
  case HAdvance
  then show ?thesis using assms by (auto simp: helper_step_def advance_def bridge_closing split: phase.split)
next
  case HFlushed
  then show ?thesis using assms by (auto simp: helper_step_def flushed_def split: list.split)
next
  case (HSettle i outcome)
  then show ?thesis using assms by (auto simp: helper_step_def settle_closing jm_delete_def)
qed (use assms in \<open>auto simp: helper_step_def bridge_closing\<close>)

text \<open>
  Once a shutdown has begun nothing more is written, whatever happens; so the
  \<open>browserCancel\<close> messages of the bridge's \<open>close\<close>, which only the shutdown calls, are
  never sent.
\<close>

theorem closing_silent:
  "hp_closing (snd s) \<Longrightarrow> hp_written (snd (fold (helper_step io) es s)) = hp_written (snd s)"
proof (induction es arbitrary: s)
  case (Cons e es)
  then show ?case using closing_step[OF Cons.prems, of io e] by simp
qed simp

text \<open>
  C7: a shutdown never hangs on its own: as soon as the running requests have settled, with
  whatever results, two continuations close the catalog, the bridge and the store.
\<close>

theorem shutdown_finishes:
  assumes "helper_run io s" and "quiet_sync io" and "hp_closing (snd s)"
  shows "hp_phase (snd (fold (helper_step io)
      (map (\<lambda>i. HSettle i (outcome i)) (map fst (hp_pending (snd s))) @ [HAdvance, HAdvance]) s)) = StoreClosed"
proof -
  have gone: "snd (fold (helper_step io) (map (\<lambda>i. HSettle i (outcome i)) is) s) =
      snd s\<lparr>hp_pending := filter (\<lambda>(k, _). k \<notin> set is) (hp_pending (snd s))\<rparr>"
    if "hp_closing (snd s)" for "is" and s :: "jstring \<times> helper"
    using that
  proof (induction "is" arbitrary: s)
    case (Cons i "is")
    then show ?case
      by (auto simp: helper_step_def settle_closing jm_delete_def case_prod_beta' intro!: filter_cong)
  qed simp
  let ?h = "snd (fold (helper_step io) (map (\<lambda>i. HSettle i (outcome i)) (map fst (hp_pending (snd s)))) s)"
  have "filter (\<lambda>(k, _). k \<notin> set (map fst (hp_pending (snd s)))) (hp_pending (snd s)) = []"
    by (force simp: filter_empty_conv)
  then have h: "?h = snd s\<lparr>hp_pending := []\<rparr>" unfolding gone[OF assms(3)] by simp
  have p: "hp_phase ?h \<noteq> Serving" "hp_closing ?h"
    unfolding h using helper_run_inv[OF assms(1,2)] assms(3) by (simp_all add: helper_inv_def helper_ok_def)
  have none: "settled_requests rs []" for rs by (auto simp: settled_requests_def jm_has_def)
  have "hp_phase (advance io (advance io ?h)) = StoreClosed"
    using p unfolding h by (cases "hp_phase (snd s)") (simp_all add: advance_def none bridge_closing)
  then show ?thesis by (simp add: helper_step_def del: map_map)
qed

section \<open>Saving requests are spared\<close>

text \<open>No received request is a \<open>cancel\<close>, the only other way to abort a task.\<close>

definition cancel_free :: "helper_io \<Rightarrow> bool" where
  "cancel_free io \<longleftrightarrow> (\<forall>line j. io_parse io line = Some j \<longrightarrow> json_text (field j ''method'') \<noteq> Some (js ''cancel''))"

definition spared :: "helper \<Rightarrow> bool" where
  "spared h \<longleftrightarrow> (\<forall>(i, t) \<in> set (hp_pending h).
     (t_method t \<in> set persistenceMethods \<longrightarrow> \<not> t_aborted t)
   \<and> (hp_closing h \<and> i \<in> set (map fst (hp_requests h)) \<and> t_method t \<notin> set persistenceMethods \<longrightarrow> t_aborted t))"

lemma abort_task_method [simp]: "t_method (abort_task t) = t_method t"
  by (simp add: abort_task_def)

lemma spared_shutdown: "spared h \<Longrightarrow> spared (shutdown_helper h)"
proof (cases "hp_closing h")
  case False
  assume h: "spared h"
  have "(t_method t \<in> set persistenceMethods \<longrightarrow> \<not> t_aborted (abort_task t))
      \<and> (t_method t \<notin> set persistenceMethods \<longrightarrow> t_aborted (abort_task t))" if "(i, t) \<in> set (hp_pending h)" for i t
    using h that by (auto simp: spared_def abort_task_def)
  with False show ?thesis by (force simp: spared_def shutdown_helper_def)
qed simp

lemma spared_sends: "spared h \<Longrightarrow> spared (fold (\<lambda>(i, event, data). send io i event data) ms h)"
proof (rule fold_send_keeps[where P = spared])
  show "spared (send io i event data h)" if "spared h" for i event data and h :: helper
    using that by (rule send_keeps[where P = spared]) (simp_all add: spared_shutdown, simp add: spared_def)
qed

lemma spared_send: "spared h \<Longrightarrow> spared (send io i event data h)"
  using spared_sends[of h io "[(i, event, data)]"] by simp

lemma spared_bridge: "spared h \<Longrightarrow> spared (bridge_event_step io e h)"
  using spared_sends by (auto simp: bridge_event_step_def send_browser_fold spared_def simp del: set_map split: prod.split)

text \<open>A shutdown while a task starts has the pending requests without the new one in its snapshot.\<close>

lemma sends_snapshot:
  assumes "\<not> hp_closing h"
  shows "hp_closing (fold (\<lambda>(i, event, data). send io i event data) ms h) \<longrightarrow>
    map fst (hp_requests (fold (\<lambda>(i, event, data). send io i event data) ms h)) = map fst (hp_pending h)"
    (is "?P (fold _ ms h)")
proof -
  have "(hp_closing h' \<longrightarrow> map fst (hp_requests h') = map fst (hp_pending h)) \<and> map fst (hp_pending h') = map fst (hp_pending h)"
    if "h' = fold (\<lambda>(i, event, data). send io i event data) ms h" for h'
    unfolding that
    by (rule fold_send_keeps, use assms in simp, erule send_keeps)
      (auto simp: shutdown_helper_def case_prod_beta' comp_def simp del: set_map)
  then show ?thesis by blast
qed

lemma spared_start:
  assumes "spared h" and "\<not> hp_closing h" and "i \<notin> set (map fst (hp_pending h))"
  shows "spared (start_task io i method params h)"
proof -
  obtain h' where h': "h' = fold (\<lambda>(i, event, data). send io i event data)
      (map (\<lambda>(event, data). (i, event, Some data)) (io_sync io method params)) h" by blast
  have "map fst (hp_pending h') = map fst (hp_pending h)" unfolding h' by (rule fold_send_keeps) simp_all
  with assms(3) have "i \<notin> set (map fst (hp_pending h'))" by simp
  moreover have "spared h'" unfolding h' by (rule spared_sends[OF assms(1)])
  moreover have "hp_closing h' \<longrightarrow> i \<notin> set (map fst (hp_requests h'))"
    unfolding h' using sends_snapshot[OF assms(2)] assms(3) by simp
  ultimately show ?thesis
    by (auto simp: start_task_fold Let_def h'[symmetric] spared_def jm_set_fresh simp del: set_map)
qed

lemma spared_line:
  assumes "spared h" and "\<not> hp_closing h" and "cancel_free io"
  shows "spared (receive_line io line h)"
proof -
  have "spared (receive_request io j h)" if "io_parse io line = Some j" for j
  proof (cases "json_text (field j ''method'')")
    case (Some meth)
    with that assms(3) have "meth \<noteq> js ''cancel''" by (auto simp: cancel_free_def)
    moreover have "spared (h\<lparr>hp_accepted := is\<rparr>)" for "is" using assms(1) by (simp add: spared_def)
    ultimately show ?thesis
      using Some spared_shutdown[OF assms(1)] assms(2)
      by (auto simp: receive_request_def Let_def jm_has_keys simp del: set_map split: option.split
          intro: spared_start spared_send)
  qed (use spared_shutdown[OF assms(1)] in \<open>simp add: receive_request_def split: option.split\<close>)
  then show ?thesis
    using spared_shutdown[OF assms(1)] spared_bridge[OF assms(1)]
    by (auto simp: receive_line_def split: option.split json.split)
qed

lemma spared_settle: "spared h \<Longrightarrow> spared (settle io i outcome h)"
proof -
  have "spared (h\<lparr>hp_pending := jm_delete i (hp_pending h)\<rparr>)" if "spared h" for h
    using that by (auto simp: spared_def jm_delete_def)
  then show "spared h \<Longrightarrow> spared (settle io i outcome h)"
    by (auto simp: settle_def Let_def spared_send split: option.split sum.split)
qed

lemma spared_step:
  assumes "spared (snd s)" and "cancel_free io"
  shows "spared (snd (helper_step io e s))"
proof (cases e)
  case (HData chunk)
  then show ?thesis
    using lines.on_data_keeps[of spared s io chunk] spared_line[OF _ _ assms(2)] spared_shutdown assms(1)
    by (simp add: helper_step_def input_data_def)
next
  case HAdvance
  have "spared (snd s\<lparr>hp_catalogClosed := True, hp_phase := WaitTasks\<rparr>)" "spared (snd s\<lparr>hp_phase := StoreClosed\<rparr>)"
    using assms(1) by (simp_all add: spared_def)
  then show ?thesis using HAdvance assms(1)
    by (auto simp: helper_step_def advance_def spared_bridge split: phase.split)
next
  case HFlushed
  then show ?thesis using assms(1) by (auto simp: helper_step_def flushed_def spared_def split: list.split)
qed (use assms(1) in \<open>simp_all add: helper_step_def spared_shutdown spared_send spared_settle spared_bridge\<close>)

text \<open>
  A helper that receives no \<open>cancel\<close> never aborts a request that saves the user's state,
  and a shutdown aborts every other request of its snapshot.
\<close>

theorem saving_spared:
  assumes "helper_run io s" and "cancel_free io" and "(i, t) \<in> set (hp_pending (snd s))"
  shows "(t_method t \<in> {js ''remember'', js ''progress'', js ''reader.position''} \<longrightarrow> \<not> t_aborted t)
     \<and> (hp_closing (snd s) \<and> i \<in> set (map fst (hp_requests (snd s)))
          \<and> t_method t \<notin> {js ''remember'', js ''progress'', js ''reader.position''} \<longrightarrow> t_aborted t)"
proof -
  from assms(1) have "spared (snd s)"
  proof (induction rule: helper_run.induct)
    case start
    show ?case by (simp add: spared_def new_helper_def)
  qed (rule spared_step[OF _ assms(2)])
  with assms(3) show ?thesis by (auto simp: spared_def persistenceMethods_def simp del: set_map)
qed

section \<open>A concrete run\<close>

text \<open>Lines of one letter stand for their JSON; every JSON text takes 100 bytes.\<close>

definition sample_request :: "nat \<Rightarrow> string \<Rightarrow> json" where
  "sample_request i method = JObj [(js ''id'', JNum (of_nat i)), (js ''method'', JText (js method))]"

definition sample_io :: helper_io where
  "sample_io = \<lparr>io_parse = (\<lambda>line. if line = js ''a'' then Some (sample_request 1 ''remember'')
       else if line = js ''b'' then Some (sample_request 2 ''search'') else None),
     io_bytes = (\<lambda>_. 100), io_number = (\<lambda>_. None), io_show = (\<lambda>_. []), io_sync = (\<lambda>_ _. [])\<rparr>"

definition sample_run :: "helper_event list \<Rightarrow> jstring \<times> helper" where
  "sample_run es = fold (helper_step sample_io) es ([], new_helper)"

lemma sample_run_ok: "list_all outside es \<Longrightarrow> helper_run sample_io (sample_run es)"
  unfolding sample_run_def by (rule helper_run_events[OF helper_run.start])

lemma sample_io_ok: "quiet_sync sample_io" "cancel_free sample_io"
proof -
  show "quiet_sync sample_io" by (simp add: quiet_sync_def sample_io_def)
  have "json_text (field (sample_request i m) ''method'') \<noteq> Some (js ''cancel'')" if "js m \<noteq> js ''cancel''" for i m
    using that by (simp add: sample_request_def field_def json_text_def)
  then show "cancel_free sample_io" by (auto simp: cancel_free_def sample_io_def split: if_splits)
qed

definition sample_events :: "helper_event list" where
  "sample_events = [HData (js ''a''), HData [10, 98, 10], HSettle 1 (Inr None), HData (js ''a'' @ [10]), HStop]"

lemma sample_events_run: "helper_run sample_io (sample_run sample_events)"
  by (rule sample_run_ok) (simp add: sample_events_def)

lemma sample_events_state:
  "hp_closing (snd (sample_run sample_events)) \<and> map fst (hp_pending (snd (sample_run sample_events))) = [2, 1]
   \<and> hp_accepted (snd (sample_run sample_events)) = [1, 2, 1] \<and> length (hp_written (snd (sample_run sample_events))) = 1
   \<and> (2, \<lparr>t_method = js ''search'', t_aborted = True\<rparr>) \<in> set (hp_pending (snd (sample_run sample_events)))"
  by code_simp

theorem answered_once_witness:
  "answers (hp_written (snd (sample_run sample_events))) 1 +
     (if jm_has (hp_pending (snd (sample_run sample_events))) 1 then 1 else 0) \<le> (2 :: nat)"
proof -
  have "count_list (hp_accepted (snd (sample_run sample_events))) 1 = 2" by code_simp
  with answered_once[OF sample_events_run sample_io_ok(1), of 1] show ?thesis by linarith
qed

theorem output_bounded_witness:
  "length (hp_pending (snd (sample_run sample_events))) \<le> 128 \<and> sum_list (hp_inflight (snd (sample_run sample_events))) \<le> 64 * 1024 * 1024"
  using output_bounded[OF sample_events_run sample_io_ok(1)] by blast

theorem store_closed_last_witness:
  "hp_phase (snd (sample_run (sample_events @ [HSettle 1 (Inr None), HAdvance]))) = WaitTasks
   \<and> settled_requests (saving_requests (hp_requests (snd (sample_run (sample_events @ [HSettle 1 (Inr None), HAdvance])))))
       (hp_pending (snd (sample_run (sample_events @ [HSettle 1 (Inr None), HAdvance]))))"
proof -
  let ?s = "sample_run (sample_events @ [HSettle 1 (Inr None), HAdvance])"
  have r: "helper_run sample_io ?s" by (rule sample_run_ok) (simp add: sample_events_def)
  have p: "hp_phase (snd ?s) = WaitTasks" "hp_catalogClosed (snd ?s)" by code_simp+
  from p store_closed_last[OF r sample_io_ok(1)] show ?thesis by blast
qed

theorem closing_silent_witness:
  "hp_written (snd (fold (helper_step sample_io) [HSettle 2 (Inr None), HData (js ''b'' @ [10])] (sample_run sample_events))) =
    hp_written (snd (sample_run sample_events))"
  using closing_silent sample_events_state by blast

theorem shutdown_finishes_witness:
  "hp_phase (snd (fold (helper_step sample_io)
      (map (\<lambda>i. HSettle i (Inl Aborted)) (map fst (hp_pending (snd (sample_run sample_events)))) @ [HAdvance, HAdvance])
      (sample_run sample_events))) = StoreClosed"
  by (rule shutdown_finishes[OF sample_events_run sample_io_ok(1), of "\<lambda>_. Inl Aborted"])
    (use sample_events_state in blast)

theorem saving_spared_witness:
  "\<not> t_aborted \<lparr>t_method = js ''remember'', t_aborted = False\<rparr> \<and> t_aborted \<lparr>t_method = js ''search'', t_aborted = True\<rparr>"
proof -
  have "(1, \<lparr>t_method = js ''remember'', t_aborted = False\<rparr>) \<in> set (hp_pending (snd (sample_run sample_events)))"
    "(2, \<lparr>t_method = js ''search'', t_aborted = True\<rparr>) \<in> set (hp_pending (snd (sample_run sample_events)))"
    "2 \<in> set (map fst (hp_requests (snd (sample_run sample_events))))" "hp_closing (snd (sample_run sample_events))"
    by code_simp+
  with saving_spared[OF sample_events_run sample_io_ok(2)] show ?thesis by simp
qed

theorem input_chunks_witness:
  "snd (fold (input_data sample_io) [js ''a'', [10, 98], [10]] ([], new_helper)) =
    snd (fold (input_data sample_io) [[97, 10, 98, 10]] ([], new_helper))"
  by (rule input_chunks) simp_all

end
