(* ===== verification/Originals.thy ===== *)
theory Originals
  imports SampleRuntime
begin

text \<open>
  \<open>providers/reading-originals.ts\<close>: the pages of original web novels. A link to such a page
  becomes a variant with the publication's number and its canonical address. The anchored
  patterns of the paths are written as prefix, characters of the number and what may follow;
  no character of a number can start what follows, so the longest number is the one the
  pattern finds.
\<close>

section \<open>Sources\<close>

datatype original_site = Syosetu | Kakuyomu | RoyalRoad | Linovel | Jjwxc | Naver

definition original_sites :: "original_site list" where
  "original_sites = [Syosetu, Kakuyomu, RoyalRoad, Linovel, Jjwxc, Naver]"

definition site_id :: "original_site \<Rightarrow> jstring" where
  "site_id s = (case s of Syosetu \<Rightarrow> js ''syosetu'' | Kakuyomu \<Rightarrow> js ''kakuyomu'' | RoyalRoad \<Rightarrow> js ''royalroad''
     | Linovel \<Rightarrow> js ''linovel'' | Jjwxc \<Rightarrow> js ''jjwxc'' | Naver \<Rightarrow> js ''naver'')"

definition site_name :: "original_site \<Rightarrow> jstring" where
  "site_name s = (case s of
       Syosetu \<Rightarrow> [23567, 35500, 23478, 12395, 12394, 12429, 12358]
     | Kakuyomu \<Rightarrow> js ''Kakuyomu''
     | RoyalRoad \<Rightarrow> js ''Royal Road''
     | Linovel \<Rightarrow> [36731, 20043, 25991, 24211] @ js '' / Linovel''
     | Jjwxc \<Rightarrow> [26187, 27743, 25991, 23398, 22478]
     | Naver \<Rightarrow> js ''NAVER '' @ [50937, 49548, 49444])"

definition site_language :: "original_site \<Rightarrow> jstring" where
  "site_language s = (case s of Syosetu \<Rightarrow> js ''ja'' | Kakuyomu \<Rightarrow> js ''ja'' | RoyalRoad \<Rightarrow> js ''en''
     | Linovel \<Rightarrow> js ''zh'' | Jjwxc \<Rightarrow> js ''zh'' | Naver \<Rightarrow> js ''ko'')"

definition site_hosts :: "original_site \<Rightarrow> jstring list" where
  "site_hosts s = (case s of
       Syosetu \<Rightarrow> [js ''ncode.syosetu.com'']
     | Kakuyomu \<Rightarrow> [js ''kakuyomu.jp'']
     | RoyalRoad \<Rightarrow> [js ''www.royalroad.com'']
     | Linovel \<Rightarrow> [js ''www.linovel.net'']
     | Jjwxc \<Rightarrow> [js ''www.jjwxc.net'', js ''wap.jjwxc.net'']
     | Naver \<Rightarrow> [js ''novel.naver.com''])"

section \<open>Paths\<close>

text \<open>The number after a prefix, when what follows it is allowed.\<close>

definition path_number :: "string \<Rightarrow> (nat \<Rightarrow> bool) \<Rightarrow> (jstring \<Rightarrow> bool) \<Rightarrow> jstring \<Rightarrow> jstring option" where
  "path_number prefix char follows path =
     (let rest = drop (length prefix) path; i = takeWhile char rest
      in if starts_with path (js prefix) \<and> i \<noteq> [] \<and> follows (drop (length i) rest) then Some i else None)"

text \<open>\<open>\/?$\<close> and \<open>(?:\/[^/]+)?\/?$\<close>\<close>

definition slash_end :: "jstring \<Rightarrow> bool" where
  "slash_end s \<longleftrightarrow> s = [] \<or> s = [47]"

definition name_end :: "jstring \<Rightarrow> bool" where
  "name_end s \<longleftrightarrow> slash_end s
     \<or> (case s of [] \<Rightarrow> False | c # t \<Rightarrow> c = 47 \<and> takeWhile (\<lambda>x. x \<noteq> 47) t \<noteq> [] \<and> slash_end (dropWhile (\<lambda>x. x \<noteq> 47) t))"

definition is_ncode :: "nat \<Rightarrow> bool" where
  "is_ncode c \<longleftrightarrow> is_digit c \<or> is_lower c"

text \<open>\<open>/^\/(n[\da-z]+)\/?$/\<close>: the first letter is part of the number.\<close>

definition syosetu_number :: "jstring \<Rightarrow> jstring option" where
  "syosetu_number path = map_option (\<lambda>i. 110 # i) (path_number ''/n'' is_ncode slash_end path)"

text \<open>A query parameter that occurs once and has digits only.\<close>

definition single_number :: "runtime \<Rightarrow> string \<Rightarrow> url \<Rightarrow> jstring option" where
  "single_number rt name url =
     (case filter (\<lambda>(k, _). k = js name) (url_params rt url) of
        [(_, v)] \<Rightarrow> if v \<noteq> [] \<and> list_all is_digit v then Some v else None
      | _ \<Rightarrow> None)"

text \<open>\<open>/^\/(challenge|best)\/list(?:\.nhn)?$/\<close>\<close>

definition naver_league :: "jstring \<Rightarrow> jstring option" where
  "naver_league path =
     (if path \<in> {js ''/challenge/list'', js ''/challenge/list.nhn''} then Some (js ''challenge'')
      else if path \<in> {js ''/best/list'', js ''/best/list.nhn''} then Some (js ''best'') else None)"

text \<open>The number of a publication and its canonical address.\<close>

definition publication :: "runtime \<Rightarrow> original_site \<Rightarrow> url \<Rightarrow> (jstring \<times> jstring) option" where
  "publication rt s url =
     (case s of
        Syosetu \<Rightarrow> map_option (\<lambda>i. (i, js ''https://ncode.syosetu.com/'' @ i @ js ''/'')) (syosetu_number (u_pathname url))
      | Kakuyomu \<Rightarrow> map_option (\<lambda>i. (i, js ''https://kakuyomu.jp/works/'' @ i))
          (path_number ''/works/'' is_digit slash_end (u_pathname url))
      | RoyalRoad \<Rightarrow> map_option (\<lambda>i. (i, js ''https://www.royalroad.com/fiction/'' @ i))
          (path_number ''/fiction/'' is_digit name_end (u_pathname url))
      | Linovel \<Rightarrow> map_option (\<lambda>i. (i, js ''https://www.linovel.net/book/'' @ i @ js ''.html''))
          (path_number ''/book/'' is_digit (\<lambda>t. t = js ''.html'') (u_pathname url))
      | Jjwxc \<Rightarrow>
          if u_hostname url = js ''wap.jjwxc.net''
          then map_option (\<lambda>i. (i, js ''https://wap.jjwxc.net/book2/'' @ i))
            (path_number ''/book2/'' is_digit slash_end (u_pathname url))
          else if u_pathname url \<noteq> js ''/onebook.php'' then None
          else map_option (\<lambda>i. (i, js ''https://wap.jjwxc.net/book2/'' @ i)) (single_number rt ''novelid'' url)
      | Naver \<Rightarrow>
          (case naver_league (u_pathname url) of
             None \<Rightarrow> None
           | Some league \<Rightarrow> map_option (\<lambda>i. (i, js ''https://novel.naver.com/'' @ league @ js ''/list?novelId='' @ i))
               (single_number rt ''novelId'' url)))"

definition original_variant :: "original_site \<Rightarrow> jstring \<times> jstring \<Rightarrow> variant" where
  "original_variant s p = (new_variant (site_id s @ js '':'' @ fst p) (site_id s) (site_name s) [] (snd p) Book)
     \<lparr>v_languages := Some [site_language s]\<rparr>"

definition readingOriginal :: "runtime \<Rightarrow> jstring option \<Rightarrow> variant option" where
  "readingOriginal rt input =
     (case (case input of None \<Rightarrow> None | Some s \<Rightarrow> rt_url rt s) of
        None \<Rightarrow> None
      | Some url \<Rightarrow>
          if u_protocol url \<notin> {js ''http:'', js ''https:''} \<or> u_username url \<noteq> [] \<or> u_password url \<noteq> [] \<or> u_port url \<noteq> []
          then None
          else case find (\<lambda>s. u_hostname url \<in> set (site_hosts s)) original_sites of
              None \<Rightarrow> None
            | Some s \<Rightarrow> map_option (original_variant s) (publication rt s url))"

section \<open>Original references of a translated work\<close>

text \<open>
  Scripts as predicates on code points: \<open>kana\<close> for Hiragana and Katakana, \<open>han\<close>, \<open>hangul\<close>.
\<close>

record scripts =
  sc_kana :: "jstring \<Rightarrow> bool"
  sc_han :: "jstring \<Rightarrow> bool"
  sc_hangul :: "jstring \<Rightarrow> bool"

definition original_title :: "scripts \<Rightarrow> jstring \<Rightarrow> jstring list \<Rightarrow> jstring option" where
  "original_title sc language titles =
     (if language = js ''ja'' then (case find (sc_kana sc) titles of Some t \<Rightarrow> Some t | None \<Rightarrow> find (sc_han sc) titles)
      else if language = js ''zh'' then find (\<lambda>t. sc_han sc t \<and> \<not> sc_kana sc t) titles
      else if language = js ''ko'' then find (sc_hangul sc) titles
      else None)"

definition add_original :: "runtime \<Rightarrow> scripts \<Rightarrow> jstring list \<Rightarrow> jstring \<Rightarrow> jstring option
    \<Rightarrow> variant list \<times> (jstring, jstring) jmap \<Rightarrow> variant list \<times> (jstring, jstring) jmap" where
  "add_original rt sc titles title link st =
     (case readingOriginal rt link of
        None \<Rightarrow> st
      | Some original \<Rightarrow>
          if list_ex (\<lambda>v. v_id v = v_id original) (fst st) then st
          else let found = original_title sc (hd (the (v_languages original))) titles
            in (fst st @ [original\<lparr>v_title := (if truthy found then or_empty found else title)\<rparr>],
                jm_set (v_sourceId original) (drop (Suc (length (v_sourceId original))) (v_id original)) (snd st)))"

definition originalReferences :: "runtime \<Rightarrow> scripts \<Rightarrow> jstring option list \<Rightarrow> jstring list \<Rightarrow> jstring
    \<Rightarrow> variant list \<times> (jstring, jstring) jmap" where
  "originalReferences rt sc links titles title = fold (add_original rt sc titles title) links ([], [])"

section \<open>Canonical addresses\<close>

lemma path_number_Some:
  "path_number prefix char follows path = Some i \<Longrightarrow>
    i \<noteq> [] \<and> list_all char i"
  by (auto simp: path_number_def Let_def list_all_iff dest: set_takeWhileD split: if_splits)

lemma path_number_build:
  assumes "i \<noteq> []" "list_all char i" "tail = [] \<or> \<not> char (hd tail)" "follows tail"
  shows "path_number prefix char follows (js prefix @ i @ tail) = Some i"
proof -
  have "takeWhile char (i @ tail) = i"
    using assms(2,3) by (cases tail) (auto simp: list_all_iff takeWhile_append)
  moreover have "drop (length prefix) (js prefix @ i @ tail) = i @ tail" by (simp add: js_def)
  ultimately show ?thesis using assms(1,4) unfolding path_number_def Let_def by simp
qed

lemma single_number_Some:
  "single_number rt name url = Some i \<Longrightarrow> i \<noteq> [] \<and> list_all is_digit i"
  by (auto simp: single_number_def split: list.splits if_splits)

text \<open>What the URL parser makes of a canonical address: its host, path and query.\<close>

definition canonical_parts :: "original_site \<Rightarrow> jstring \<Rightarrow> jstring \<Rightarrow> url" where
  "canonical_parts s i path =
     \<lparr>u_protocol = js ''https:'', u_username = [], u_password = [], u_hostname = last (site_hosts s), u_port = [],
      u_pathname = path, u_search = (if s = Naver then js ''novelId='' @ i else []), u_hash = []\<rparr>"

definition canonical_path :: "original_site \<Rightarrow> jstring \<Rightarrow> jstring \<Rightarrow> jstring" where
  "canonical_path s i league = (case s of
       Syosetu \<Rightarrow> js ''/'' @ i @ js ''/'' | Kakuyomu \<Rightarrow> js ''/works/'' @ i | RoyalRoad \<Rightarrow> js ''/fiction/'' @ i
     | Linovel \<Rightarrow> js ''/book/'' @ i @ js ''.html'' | Jjwxc \<Rightarrow> js ''/book2/'' @ i | Naver \<Rightarrow> js ''/'' @ league @ js ''/list'')"

definition canonical_text :: "original_site \<Rightarrow> jstring \<Rightarrow> jstring \<Rightarrow> jstring" where
  "canonical_text s i league = js ''https://'' @ last (site_hosts s) @ canonical_path s i league
     @ (if s = Naver then js ''?novelId='' @ i else [])"

lemma publication_canonical:
  assumes "publication rt s url = Some (i, addr)"
  obtains league where "addr = canonical_text s i league" "i \<noteq> []" "league = js ''challenge'' \<or> league = js ''best''"
    "if s = Syosetu then \<exists>k. i = 110 # k \<and> k \<noteq> [] \<and> list_all is_ncode k else list_all is_digit i"
  using assms
  by (cases s)
    (auto simp: publication_def syosetu_number_def canonical_text_def canonical_path_def site_hosts_def naver_league_def
      dest: path_number_Some single_number_Some split: option.splits if_splits)

lemma site_id_inj: "site_id s = site_id t \<Longrightarrow> s = t"
  by (cases s; cases t) (simp_all add: site_id_def)

lemma original_url: "v_url (original_variant s p) = snd p"
  by (simp add: original_variant_def new_variant_def)

lemma readingOriginal_Some:
  assumes "readingOriginal rt input = Some v"
  obtains s i addr url where "publication rt s url = Some (i, addr)" "v = original_variant s (i, addr)"
  using assms by (auto simp: readingOriginal_def split: option.splits if_splits)

lemma publication_again:
  assumes "i \<noteq> []" and "if s = Syosetu then \<exists>k. i = 110 # k \<and> k \<noteq> [] \<and> list_all is_ncode k else list_all is_digit i"
    and "league = js ''challenge'' \<or> league = js ''best''"
    and "s = Naver \<Longrightarrow> rt_form_parse rt (js ''novelId='' @ i) = [(js ''novelId'', i)]"
  shows "publication rt s (canonical_parts s i (canonical_path s i league)) = Some (i, canonical_text s i league)"
proof (cases s)
  case Syosetu
  with assms(2) obtain k where k: "i = 110 # k" "k \<noteq> []" "list_all is_ncode k" by auto
  have "path_number ''/n'' is_ncode slash_end (js ''/n'' @ k @ [47]) = Some k"
    by (rule path_number_build) (use k in \<open>simp_all add: is_ncode_def is_digit_def is_lower_def in_range_def slash_end_def\<close>)
  with Syosetu k(1) show ?thesis
    by (simp add: publication_def canonical_parts_def canonical_path_def canonical_text_def site_hosts_def syosetu_number_def)
next
  case Kakuyomu
  have "path_number ''/works/'' is_digit slash_end (js ''/works/'' @ i @ []) = Some i"
    by (rule path_number_build) (use assms(1,2) Kakuyomu in \<open>simp_all add: slash_end_def\<close>)
  with Kakuyomu show ?thesis
    by (simp add: publication_def canonical_parts_def canonical_path_def canonical_text_def site_hosts_def)
next
  case RoyalRoad
  have "path_number ''/fiction/'' is_digit name_end (js ''/fiction/'' @ i @ []) = Some i"
    by (rule path_number_build) (use assms(1,2) RoyalRoad in \<open>simp_all add: slash_end_def name_end_def\<close>)
  with RoyalRoad show ?thesis
    by (simp add: publication_def canonical_parts_def canonical_path_def canonical_text_def site_hosts_def)
next
  case Linovel
  have "path_number ''/book/'' is_digit (\<lambda>t. t = js ''.html'') (js ''/book/'' @ i @ js ''.html'') = Some i"
    by (rule path_number_build) (use assms(1,2) Linovel in \<open>simp_all add: is_digit_def in_range_def\<close>)
  with Linovel show ?thesis
    by (simp add: publication_def canonical_parts_def canonical_path_def canonical_text_def site_hosts_def)
next
  case Jjwxc
  have "path_number ''/book2/'' is_digit slash_end (js ''/book2/'' @ i @ []) = Some i"
    by (rule path_number_build) (use assms(1,2) Jjwxc in \<open>simp_all add: slash_end_def\<close>)
  with Jjwxc show ?thesis
    by (simp add: publication_def canonical_parts_def canonical_path_def canonical_text_def site_hosts_def)
next
  case Naver
  have "naver_league (js ''/'' @ league @ js ''/list'') = Some league"
    using assms(3) by (auto simp: naver_league_def)
  moreover have "single_number rt ''novelId'' (canonical_parts s i (canonical_path s i league)) = Some i"
    using assms(1,2) assms(4)[OF Naver] Naver by (simp add: single_number_def url_params_def canonical_parts_def)
  ultimately show ?thesis using Naver
    by (simp add: publication_def canonical_path_def canonical_text_def site_hosts_def canonical_parts_def)
qed

text \<open>
  The address of a recognised original is canonical: opening it again gives the same
  variant, whichever of the site's spellings of the link was opened first.
\<close>

theorem original_canonical:
  assumes "readingOriginal rt input = Some v"
    and "v = original_variant s (i, canonical_text s i league)"
    and "rt_url rt (v_url v) = Some (canonical_parts s i (canonical_path s i league))"
    and "s = Naver \<longrightarrow> rt_form_parse rt (js ''novelId='' @ i) = [(js ''novelId'', i)]"
  shows "readingOriginal rt (Some (v_url v)) = Some v"
proof -
  obtain s' i' addr url where p: "publication rt s' url = Some (i', addr)" "v = original_variant s' (i', addr)"
    using readingOriginal_Some[OF assms(1)] by metis
  have "v_sourceId v = site_id s" "v_sourceId v = site_id s'"
    using assms(2) p(2) by (simp_all add: original_variant_def new_variant_def)
  then have ss: "s' = s" using site_id_inj by metis
  from assms(2) p(2) have "original_variant s (i, canonical_text s i league) = original_variant s (i', addr)"
    using ss by simp
  then have eq: "i' = i" "addr = canonical_text s i league" by (auto simp: original_variant_def new_variant_def)
  have url: "v_url v = addr" using p(2) by (simp add: original_variant_def new_variant_def)
  obtain league' where l: "addr = canonical_text s i league'" "i \<noteq> []" "league' = js ''challenge'' \<or> league' = js ''best''"
    "if s = Syosetu then \<exists>k. i = 110 # k \<and> k \<noteq> [] \<and> list_all is_ncode k else list_all is_digit i"
    using publication_canonical[OF p(1)] unfolding ss eq(1) by metis
  have path: "canonical_path s i league = canonical_path s i league'"
    using eq(2) l(1) by (simp add: canonical_text_def)
  have "publication rt s (canonical_parts s i (canonical_path s i league)) = Some (i, addr)"
    using publication_again[OF l(2,4,3)] assms(4) path l(1) by simp
  moreover have "find (\<lambda>t. u_hostname (canonical_parts s i (canonical_path s i league)) \<in> set (site_hosts t)) original_sites = Some s"
    by (cases s) (simp_all add: canonical_parts_def site_hosts_def original_sites_def)
  ultimately show ?thesis using assms(2,3) eq
    by (simp add: readingOriginal_def url) (simp add: canonical_parts_def)
qed

theorem original_canonical_witness:
  "readingOriginal sample_runtime (Some (js ''https://novel.naver.com/challenge/list?novelId=42'')) =
     Some (original_variant Naver (js ''42'', js ''https://novel.naver.com/challenge/list?novelId=42''))
   \<and> readingOriginal sample_runtime (Some (js ''https://www.royalroad.com/fiction/21220'')) =
     Some (original_variant RoyalRoad (js ''21220'', js ''https://www.royalroad.com/fiction/21220''))"
proof -
  let ?n = "original_variant Naver (js ''42'', canonical_text Naver (js ''42'') (js ''challenge''))"
  let ?r = "original_variant RoyalRoad (js ''21220'', canonical_text RoyalRoad (js ''21220'') [])"
  have n: "readingOriginal sample_runtime (Some (v_url ?n)) = Some ?n"
  proof (rule original_canonical[OF _ refl])
    show "readingOriginal sample_runtime (Some (js ''http://novel.naver.com/challenge/list.nhn?novelId=42'')) = Some ?n"
      by code_simp
    show "rt_url sample_runtime (v_url ?n) =
        Some (canonical_parts Naver (js ''42'') (canonical_path Naver (js ''42'') (js ''challenge'')))" by code_simp
    show "Naver = Naver \<longrightarrow> rt_form_parse sample_runtime (js ''novelId='' @ js ''42'') = [(js ''novelId'', js ''42'')]"
      by code_simp
  qed
  have r: "readingOriginal sample_runtime (Some (v_url ?r)) = Some ?r"
  proof (rule original_canonical[OF _ refl])
    show "readingOriginal sample_runtime (Some (js ''https://www.royalroad.com/fiction/21220/some-title/'')) = Some ?r"
      by code_simp
    show "rt_url sample_runtime (v_url ?r) =
        Some (canonical_parts RoyalRoad (js ''21220'') (canonical_path RoyalRoad (js ''21220'') []))" by code_simp
  qed simp
  have t: "canonical_text Naver (js ''42'') (js ''challenge'') = js ''https://novel.naver.com/challenge/list?novelId=42''"
    "canonical_text RoyalRoad (js ''21220'') [] = js ''https://www.royalroad.com/fiction/21220''" by code_simp+
  from n r show ?thesis unfolding original_url snd_conv t by (intro conjI)
qed

end
