(* ===== verification/Requests.thy ===== *)
theory Requests
  imports Service Store Originals
begin

text \<open>
  The requests of \<open>main.ts\<close>: the checks of the values in a request's parameters, \<open>dispatch\<close>
  as the action it chooses, and \<open>inspectedWork\<close>, which joins inspected details with what the
  search shows. The checks return the JSON value itself, as the code casts it.
\<close>

section \<open>Checked values\<close>

definition json_error :: "string \<Rightarrow> (error, 'a) result" where
  "json_error m = Inl (Failed (js m))"

text \<open>An object: neither missing nor \<open>null\<close>, nor an array.\<close>

definition object_of :: "json option \<Rightarrow> (error, json) result" where
  "object_of v = (case v of Some (JObj m) \<Rightarrow> Inr (JObj m) | _ \<Rightarrow> json_error ''The request is incomplete.'')"

definition transport_names :: "jstring list" where
  "transport_names = [js ''torrent'', js ''video'', js ''book'', js ''manga'', js ''file'']"

definition category_names :: "jstring list" where
  "category_names = [js ''all'', js ''games'', js ''movies'', js ''tv'', js ''anime'', js ''software'', js ''books'', js ''manga'']"

definition one_of :: "jstring list \<Rightarrow> json option \<Rightarrow> bool" where
  "one_of names v \<longleftrightarrow> (case json_text v of None \<Rightarrow> False | Some t \<Rightarrow> t \<in> set names)"

definition checked_variant :: "json option \<Rightarrow> (error, json) result" where
  "checked_variant v = bind_r (object_of v) (\<lambda>j.
     if \<not> truthy_json (field j ''id'') \<or> \<not> truthy_json (field j ''sourceId'') \<or> \<not> truthy_json (field j ''title'')
        \<or> \<not> is_text (field j ''url'') \<or> \<not> one_of transport_names (field j ''transport'')
     then json_error ''Select an available variant.'' else Inr j)"

definition checked_work :: "json option \<Rightarrow> (error, json) result" where
  "checked_work v = bind_r (object_of v) (\<lambda>j.
     if \<not> truthy_json (field j ''id'') \<or> \<not> truthy_json (field j ''title'') \<or> json_array (field j ''variants'') = None
        \<or> \<not> one_of category_names (field j ''category'')
     then json_error ''Select a title.'' else Inr j)"

definition transport_named :: "jstring \<Rightarrow> transport option" where
  "transport_named t = map_of [(js ''torrent'', Torrent), (js ''video'', Video), (js ''book'', Book),
     (js ''manga'', MangaPages), (js ''file'', File)] t"

definition checked_episode :: "json option \<Rightarrow> (error, (jstring \<times> jstring) option) result" where
  "checked_episode v =
     (if \<not> truthy_json v then Inr None
      else bind_r (object_of v) (\<lambda>j. Inr
        (case (json_text (field j ''episode''), json_text (field j ''season'')) of
           (Some e, Some s) \<Rightarrow> Some (e, s) | _ \<Rightarrow> None)))"

definition checked_source :: "(rat \<Rightarrow> jstring) \<Rightarrow> json option \<Rightarrow> (error, (jstring \<times> jstring \<times> transport) option) result" where
  "checked_source show_num v =
     (if \<not> truthy_json v then Inr None
      else bind_r (object_of v) (\<lambda>j. Inr
        (case (json_text (field j ''sourceId''), json_text (field j ''player''),
            transport_named (case field j ''transport'' of None \<Rightarrow> js ''undefined'' | Some t \<Rightarrow> js_string show_num t)) of
           (Some s, Some p, Some t) \<Rightarrow> Some (s, p, t) | _ \<Rightarrow> None)))"

definition checked_filters :: "(rat \<Rightarrow> jstring) \<Rightarrow> json option \<Rightarrow> (error, variant_filters) result" where
  "checked_filters show_num v = bind_r (object_of v) (\<lambda>j.
     bind_r (checked_episode (field j ''episode'')) (\<lambda>episode.
     bind_r (checked_source show_num (field j ''source'')) (\<lambda>source.
       Inr \<lparr>vf_episode = episode, vf_translation = json_text (field j ''translation''), vf_source = source,
            vf_language = json_text (field j ''language'')\<rparr>)))"

section \<open>Dispatch\<close>

text \<open>
  What a request does: the reader's handler with the source of its context and, for
  \<open>reader.open\<close>, the title that the library may replace; a search, the inspection of an
  original or of a variant, and the library's operations.
\<close>

datatype action =
    ReaderAction jstring json json "json option"
  | OriginalAction variant
  | SearchAction json jstring json
  | InspectAction json "json option" "jstring option"
  | LibraryAction jstring
  | RememberAction json "json option" "variant_filters option" "bool option" bool
  | ProgressAction jstring "(jstring, jstring + rat) jmap"

definition or_default :: "json option \<Rightarrow> json \<Rightarrow> json" where
  "or_default v d = (if truthy_json v then the v else d)"

definition optional_r :: "(json option \<Rightarrow> (error, 'a) result) \<Rightarrow> json option \<Rightarrow> (error, 'a option) result" where
  "optional_r check_value v = (if truthy_json v then bind_r (check_value v) (\<lambda>x. Inr (Some x)) else Inr None)"

text \<open>The source whose context a reader request gets.\<close>

definition reader_source :: "json \<Rightarrow> json" where
  "reader_source params =
     (if is_text (field params ''sourceId'') then the (field params ''sourceId'')
      else or_default (case field params ''variant'' of None \<Rightarrow> None | Some v \<Rightarrow> field v ''sourceId'') (JText (js ''reader'')))"

definition reader_action :: "jstring \<Rightarrow> json \<Rightarrow> (error, action) result" where
  "reader_action method params =
     (if method = js ''reader.open''
      then bind_r (optional_r checked_work (field params ''work''))
        (\<lambda>w. Inr (ReaderAction method params (reader_source params) w))
      else Inr (ReaderAction method params (reader_source params) None))"

definition is_web_link :: "jstring \<Rightarrow> bool" where
  "is_web_link q \<longleftrightarrow> starts_with (map ascii_lower q) (js ''http://'') \<or> starts_with (map ascii_lower q) (js ''https://'')"

definition is_private_link :: "jstring \<Rightarrow> bool" where
  "is_private_link q \<longleftrightarrow> starts_with (map ascii_lower q) (js ''qbutt:'') \<or> starts_with (map ascii_lower q) (js ''magnet:'')"

definition search_action :: "runtime \<Rightarrow> (rat \<Rightarrow> jstring) \<Rightarrow> json \<Rightarrow> (error, action) result" where
  "search_action rt show_num params =
     (let query = trim (js_string show_num (or_default (field params ''query'') (JText [])))
      in if is_web_link query
         then (case readingOriginal rt (Some query) of
             None \<Rightarrow> json_error ''This link is not supported.''
           | Some v \<Rightarrow> Inr (OriginalAction v))
         else if is_private_link query then json_error ''This link is not supported.''
         else Inr (SearchAction params query (or_default (field params ''category'') (JText (js ''all'')))))"

definition progress_value :: "json \<Rightarrow> (jstring + rat) option" where
  "progress_value v = (case v of JText t \<Rightarrow> Some (Inl t) | JNum n \<Rightarrow> Some (Inr n) | _ \<Rightarrow> None)"

definition progress_of :: "json \<Rightarrow> (jstring, jstring + rat) jmap" where
  "progress_of params = (case params of
       JObj m \<Rightarrow> fold (\<lambda>(k, v) acc. case progress_value v of
           None \<Rightarrow> acc | Some x \<Rightarrow> if k = js ''id'' then acc else jm_set k x acc) m []
     | _ \<Rightarrow> [])"

definition dispatch :: "runtime \<Rightarrow> (rat \<Rightarrow> jstring) \<Rightarrow> jstring \<Rightarrow> json \<Rightarrow> (error, action) result" where
  "dispatch rt show_num method params =
     (if starts_with method (js ''reader.'') then reader_action method params
      else if method = js ''search'' then search_action rt show_num params
      else if method = js ''inspect''
      then bind_r (checked_variant (field params ''variant'')) (\<lambda>v.
           bind_r (optional_r checked_work (field params ''work'')) (\<lambda>w.
             Inr (InspectAction v w (json_text (field params ''language'')))))
      else if method = js ''library''
      then Inr (LibraryAction (js_string show_num (or_default (field params ''mode'') (JText (js ''all'')))))
      else if method = js ''remember''
      then bind_r (checked_work (field params ''work'')) (\<lambda>w.
           bind_r (optional_r checked_variant (field params ''variant'')) (\<lambda>v.
           bind_r (optional_r (checked_filters show_num) (field params ''variantFilters'')) (\<lambda>f.
             Inr (RememberAction w v f (json_bool (field params ''favorite''))
               (field params ''opened'' = Some (JBool True))))))
      else if method = js ''progress''
      then Inr (ProgressAction (js_string show_num (or_default (field params ''id'') (JText []))) (progress_of params))
      else json_error ''This action is not supported.'')"

section \<open>The library request\<close>

text \<open>Every entry is sent in a line of its own, and an empty list ends the answer; a too large entry is an error.\<close>

fun library_lines :: "(library_entry \<Rightarrow> nat) \<Rightarrow> library_entry list \<Rightarrow> library_entry list list \<times> error option" where
  "library_lines frame_bytes [] = ([[]], None)"
| "library_lines frame_bytes (e # es) =
     (case assertLibraryEntrySize frame_bytes e of
        Inl err \<Rightarrow> ([], Some err)
      | Inr _ \<Rightarrow> (case library_lines frame_bytes es of (lines, failed) \<Rightarrow> ([e] # lines, failed)))"

section \<open>Inspected works\<close>

text \<open>Uploads and torrents only add versions: the catalog title keeps its own metadata.\<close>

definition additions_only :: "work \<Rightarrow> work \<Rightarrow> bool" where
  "additions_only current details \<longleftrightarrow>
     list_all (\<lambda>v. v_publicationKind v = Some Upload \<or> v_transport v = Torrent) (w_variants details)
   \<and> list_ex (\<lambda>v. v_publicationKind v \<noteq> Some Upload \<and> v_transport v \<noteq> Torrent) (w_variants current)"

definition inspected_metadata :: "work option \<Rightarrow> work \<Rightarrow> work option \<Rightarrow> work" where
  "inspected_metadata current details latest =
     (case (latest, current) of
        (Some l, _) \<Rightarrow> mergeWorkMetadata (Some details) (mergeWorkMetadata current l)
      | (None, Some c) \<Rightarrow>
          if additions_only c details then mergeWorkMetadata (Some details) c else mergeWorkMetadata current details
      | (None, None) \<Rightarrow> mergeWorkMetadata current details)"

definition is_true :: "bool option \<Rightarrow> bool" where
  "is_true b \<longleftrightarrow> b = Some True"

text \<open>The known variants; a ready one replaces the newer search result that still needs inspection.\<close>

definition known_variants :: "work option \<Rightarrow> work option \<Rightarrow> variant list" where
  "known_variants current latest =
     mergeVariants
       ((case latest of None \<Rightarrow> [] | Some l \<Rightarrow>
           filter (\<lambda>v. \<not> is_true (v_needsInspection v)
             \<or> \<not> list_ex (\<lambda>r. \<not> is_true (v_needsInspection r) \<and> v_sourceId r = v_sourceId v \<and> v_url r = v_url v)
                 (case current of None \<Rightarrow> [] | Some c \<Rightarrow> w_variants c)) (w_variants l))
        @ (case current of None \<Rightarrow> [] | Some c \<Rightarrow> w_variants c))"

definition replaced_by :: "work \<Rightarrow> variant \<Rightarrow> variant \<Rightarrow> bool" where
  "replaced_by details selected v \<longleftrightarrow>
     v_sourceId v = v_sourceId selected \<and> v_url v = v_url selected
   \<or> variantKey v \<in> variantKey ` set (w_variants details)"

definition first_id :: "work option \<Rightarrow> jstring \<Rightarrow> jstring" where
  "first_id w d = (case w of None \<Rightarrow> d | Some x \<Rightarrow> if w_id x = [] then d else w_id x)"

definition inspectedWork :: "runtime \<Rightarrow> work option \<Rightarrow> work \<Rightarrow> variant \<Rightarrow> jstring option \<Rightarrow> work option \<Rightarrow> work" where
  "inspectedWork rt current details selected language latest =
     (let metadata = inspected_metadata current details latest
      in metadata\<lparr>w_id := first_id latest (first_id current (w_id details)),
           w_category := (case current of
               Some c \<Rightarrow> if w_category details = AnyCategory then w_category c else w_category metadata
             | None \<Rightarrow> w_category metadata),
           w_variants := rankVariants rt
             (filter (\<lambda>v. \<not> replaced_by details selected v) (known_variants current latest) @ w_variants details)
             language (Some metadata)\<rparr>)"

section \<open>What a request leads to\<close>

lemma library_lines_fit:
  "list_all (\<lambda>e. frame_bytes e \<le> maxMessageBytes) es \<Longrightarrow>
    library_lines frame_bytes es = (map (\<lambda>e. [e]) es @ [[]], None)"
  by (induction es) (simp_all add: assertLibraryEntrySize_def)

lemma entries_subset: "set (entries mode st) \<subseteq> (fst \<circ> snd) ` set (st_library st)"
proof -
  let ?rows = "sort_desc (\<lambda>r. int (snd (snd r))) (st_library st)"
  have "set (take 500 ?rows) \<subseteq> set ?rows" by (rule set_take_subset)
  then have "set (take 500 ?rows) \<subseteq> set (st_library st)" by simp
  then have "(fst \<circ> snd) ` set (take 500 ?rows) \<subseteq> (fst \<circ> snd) ` set (st_library st)" by (rule image_mono)
  then show ?thesis by (auto simp: entries_def)
qed

text \<open>
  Listing a library that the helper itself stored never fails on an entry's size: every
  entry of the mode is sent in a line of its own, in order, and the empty list ends the answer.
\<close>

theorem library_listing:
  assumes "library_inv frame_bytes st"
  shows "library_lines frame_bytes (entries mode st) = (map (\<lambda>e. [e]) (entries mode st) @ [[]], None)"
proof (rule library_lines_fit)
  have "\<forall>e \<in> (fst \<circ> snd) ` set (st_library st). frame_bytes e \<le> maxMessageBytes"
    using assms by (fastforce simp: library_inv_def)
  then show "list_all (\<lambda>e. frame_bytes e \<le> maxMessageBytes) (entries mode st)"
    using entries_subset[of mode st] by (auto simp: list_all_iff)
qed

definition sample_entry :: library_entry where
  "sample_entry = \<lparr>e_work = new_work (js ''w'') (js ''Title'') Movies [], e_variant = None, e_filters = None,
     e_favorite = True, e_lastOpened = None, e_progress = None\<rparr>"

theorem library_listing_witness:
  "library_lines (\<lambda>_. 1) (entries (js ''favorites'') (put_entry sample_entry 5 (new_store :: unit store))) =
    ([[sample_entry], []], None)"
proof -
  have "library_inv (\<lambda>_. 1) (put_entry sample_entry 5 (new_store :: unit store))"
    by (rule library_inv_put) (simp_all add: maxMessageBytes_def)
  note l = library_listing[OF this, of "js ''favorites''"]
  have e: "entries (js ''favorites'') (put_entry sample_entry 5 (new_store :: unit store)) = [sample_entry]"
    by code_simp
  show ?thesis using l unfolding e by simp
qed

text \<open>
  A search request starts a catalog search only for a text that is no link: web links are
  opened as originals or refused, and qbutt and magnet links are refused.
\<close>

theorem search_opens_no_link:
  assumes "dispatch rt show_num (js ''search'') params = Inr a"
  shows "case a of
      SearchAction p query c \<Rightarrow> \<not> is_web_link query \<and> \<not> is_private_link query
    | OriginalAction v \<Rightarrow> (\<exists>query. is_web_link query \<and> readingOriginal rt (Some query) = Some v)
    | _ \<Rightarrow> False"
  using assms by (auto simp: dispatch_def search_action_def Let_def json_error_def starts_with_def
      split: if_splits option.splits)

theorem search_opens_no_link_witness:
  "\<exists>v. dispatch sample_runtime (\<lambda>_. []) (js ''search'')
        (JObj [(js ''query'', JText (js '' https://kakuyomu.jp/works/7 ''))]) = Inr (OriginalAction v)
     \<and> (\<exists>query. is_web_link query \<and> readingOriginal sample_runtime (Some query) = Some v)"
proof -
  let ?v = "original_variant Kakuyomu (js ''7'', js ''https://kakuyomu.jp/works/7'')"
  have d: "dispatch sample_runtime (\<lambda>_. []) (js ''search'')
      (JObj [(js ''query'', JText (js '' https://kakuyomu.jp/works/7 ''))]) = Inr (OriginalAction ?v)"
    by code_simp
  with search_opens_no_link[OF d] show ?thesis by auto
qed

section \<open>What an inspection shows\<close>

lemma rank_keys: "mset (map variantKey (rankVariants rt vs language w)) = mset (map variantKey vs)"
proof -
  have "mset (rankVariants rt vs language w) = mset (prepare_variants rt vs w)"
    by (simp add: rankVariants_def Let_def order_runs_basic)
  then show ?thesis by (metis mset_map prepare_all_keys prepare_variants_def)
qed

lemma inspected_variants:
  "w_variants (inspectedWork rt current details selected language latest) = rankVariants rt
     (filter (\<lambda>v. \<not> replaced_by details selected v) (known_variants current latest) @ w_variants details)
     language (Some (inspected_metadata current details latest))"
  by (simp add: inspectedWork_def Let_def)

text \<open>
  An inspected work lists the inspected versions and the known ones that they do not
  replace, each publication once; the version that was inspected is gone unless the details
  list it again.
\<close>

theorem inspectedWork_versions:
  assumes "distinct (map variantKey (w_variants details))"
  shows "distinct (map variantKey (w_variants (inspectedWork rt current details selected language latest)))
     \<and> variantKey ` set (w_variants (inspectedWork rt current details selected language latest)) =
        variantKey ` set (w_variants details)
        \<union> {k. \<exists>v \<in> set (known_variants current latest). k = variantKey v
              \<and> k \<notin> variantKey ` set (w_variants details)
              \<and> \<not> (v_sourceId v = v_sourceId selected \<and> v_url v = v_url selected)}"
proof -
  let ?kept = "filter (\<lambda>v. \<not> replaced_by details selected v) (known_variants current latest)"
  let ?all = "?kept @ w_variants details"
  have m: "mset (map variantKey (w_variants (inspectedWork rt current details selected language latest))) =
      mset (map variantKey ?all)"
    unfolding inspected_variants by (rule rank_keys)
  have "distinct (map variantKey (known_variants current latest))"
    unfolding known_variants_def by (rule mergeVariants_keys(1))
  then have "distinct (map variantKey ?kept)" by (rule distinct_map_filter)
  moreover have "variantKey v \<notin> variantKey ` set (w_variants details)" if "v \<in> set ?kept" for v
    using that by (simp add: replaced_by_def)
  ultimately have "distinct (map variantKey ?all)" using assms by auto
  then have "distinct (map variantKey (w_variants (inspectedWork rt current details selected language latest)))"
    using m mset_eq_imp_distinct_iff by blast
  moreover have "variantKey ` set (w_variants (inspectedWork rt current details selected language latest)) =
      variantKey ` set ?all"
    by (metis m set_map set_mset_mset)
  moreover have "variantKey ` set ?all = variantKey ` set (w_variants details)
        \<union> {k. \<exists>v \<in> set (known_variants current latest). k = variantKey v
              \<and> k \<notin> variantKey ` set (w_variants details)
              \<and> \<not> (v_sourceId v = v_sourceId selected \<and> v_url v = v_url selected)}"
    by (auto simp: replaced_by_def)
  ultimately show ?thesis by simp
qed

definition sample_old :: variant where
  "sample_old = (new_variant (js ''1'') (js ''a'') (js ''A'') (js ''Title'') (js ''https://a.test/1'') Video)
     \<lparr>v_needsInspection := Some True\<rparr>"

definition sample_other :: variant where
  "sample_other = new_variant (js ''9'') (js ''b'') (js ''B'') (js ''Title'') (js ''https://b.test/9'') Video"

definition sample_details :: work where
  "sample_details = new_work (js ''w'') (js ''Title'') Movies
     [new_variant (js ''1-1'') (js ''a'') (js ''A'') (js ''Title'') (js ''https://a.test/1/1'') Video]"

theorem inspectedWork_versions_witness:
  "variantKey ` set (w_variants (inspectedWork sample_runtime
      (Some (new_work (js ''w'') (js ''Title'') Movies [sample_old, sample_other])) sample_details sample_old None None)) =
    {js ''a:1-1'', js ''b:9''}"
proof -
  let ?c = "Some (new_work (js ''w'') (js ''Title'') Movies [sample_old, sample_other])"
  have k: "known_variants ?c None = [sample_old, sample_other]" by code_simp
  have d: "distinct (map variantKey (w_variants sample_details))" "variantKey ` set (w_variants sample_details) = {js ''a:1-1''}"
    by code_simp+
  have o: "variantKey sample_old = js ''a:1''" "variantKey sample_other = js ''b:9''" "v_url sample_other \<noteq> v_url sample_old"
    by code_simp+
  show ?thesis
    unfolding conjunct2[OF inspectedWork_versions[OF d(1)]] k d(2) using o by auto
qed

end
