(* ===== verification/Proxy.thy ===== *)
theory Proxy
  imports Net Sharing
begin

text \<open>
  \<open>networkproxy.ts\<close>: the local proxy of the media player and the web view. Every request must
  carry the proxy's password, is sent only to checked public addresses and loses its
  hop-by-hop headers; the body that is passed on is bounded. Sockets are numbers.
\<close>

section \<open>Headers and the password\<close>

text \<open>A header of Node is a text or, for repeated ones, a list.\<close>

datatype header_value = HText jstring | HList "jstring list"

type_synonym headers = "(jstring, header_value) jmap"

definition hopHeaders :: "jstring list" where
  "hopHeaders = [js ''connection'', js ''keep-alive'', js ''proxy-authenticate'', js ''proxy-authorization'',
     js ''proxy-connection'', js ''te'', js ''trailer'', js ''transfer-encoding'', js ''upgrade'']"

definition header_text :: "headers \<Rightarrow> string \<Rightarrow> jstring option" where
  "header_text hs name = (case jm_get hs (js name) of Some (HText t) \<Rightarrow> Some t | _ \<Rightarrow> None)"

text \<open>\<open>/\s*,\s*/\<close>\<close>

definition comma_rx :: rx where
  "comma_rx = RSeqs [RSpaces, RCh (\<lambda>c. c = 44), RSpaces]"

definition connection_names :: "runtime \<Rightarrow> headers \<Rightarrow> jstring list" where
  "connection_names rt hs = rx_split comma_rx (rt_lower rt (or_empty (header_text hs ''connection'')))"

definition forwarded_headers :: "runtime \<Rightarrow> headers \<Rightarrow> headers" where
  "forwarded_headers rt hs =
     filter (\<lambda>(name, _). name \<notin> set hopHeaders \<and> name \<notin> set (connection_names rt hs)) hs"

text \<open>
  \<open>Basic\<close> with the base64 form of \<open>qbutt:password\<close>. The password is 48 hexadecimal digits, so the
  54 bytes need no padding; the two digits that base64url changes are changed back.
\<close>

definition base64_char :: "nat \<Rightarrow> nat" where
  "base64_char c = (if c = 45 then 43 else if c = 95 then 47 else c)"

definition authorization :: "jstring \<Rightarrow> jstring" where
  "authorization password = js ''Basic '' @ map base64_char (b64_encode (js ''qbutt:'' @ password))"

definition authenticated :: "jstring \<Rightarrow> headers \<Rightarrow> bool" where
  "authenticated password hs \<longleftrightarrow> or_empty (header_text hs ''proxy-authorization'') = authorization password"

section \<open>Targets\<close>

text \<open>\<open>closing\<close> is the state of the proxy when the addresses have been looked up.\<close>

definition proxy_addresses :: "runtime \<Rightarrow> network \<Rightarrow> bool \<Rightarrow> url \<Rightarrow> (error, (jstring \<times> nat) list) result" where
  "proxy_addresses rt net closing u =
     (if u_hostname u = js ''qbutt-webview.invalid'' then Inl (Failed (js ''The proxy check URL cannot be forwarded.''))
      else bind_r (publicAddresses rt net u) (\<lambda>as.
        if closing then Inl (Failed (js ''The media connection is closing.'')) else Inr as))"

definition url_host :: "url \<Rightarrow> jstring" where
  "url_host u = u_hostname u @ (if u_port u = [] then [] else 58 # u_port u)"

record proxy_request =
  pq_method :: jstring
  pq_url :: "jstring option"
  pq_headers :: headers

record outgoing =
  og_url :: url
  og_method :: jstring
  og_headers :: headers
  og_addresses :: "(jstring \<times> nat) list"

datatype proxy_answer =
    Answered nat "(jstring \<times> jstring) list"
  | Forwarded outgoing
  | Dropped

definition is_check_page :: "proxy_request \<Rightarrow> bool" where
  "is_check_page q \<longleftrightarrow> pq_method q = js ''GET'' \<and> pq_url q = Some (js ''http://qbutt-webview.invalid/'')
     \<and> jm_get (pq_headers q) (js ''transfer-encoding'') = None
     \<and> (jm_get (pq_headers q) (js ''content-length'') = None
        \<or> jm_get (pq_headers q) (js ''content-length'') = Some (HText (js ''0'')))"

text \<open>\<open>destroyed\<close>: the client left while the addresses were looked up.\<close>

definition forward :: "runtime \<Rightarrow> network \<Rightarrow> jstring \<Rightarrow> bool \<Rightarrow> bool \<Rightarrow> proxy_request \<Rightarrow> proxy_answer" where
  "forward rt net password closing destroyed q =
     (if \<not> authenticated password (pq_headers q)
      then Answered 407 [(js ''Proxy-Authenticate'', js ''Basic realm=\"qbutt\"''), (js ''Connection'', js ''close'')]
      else if is_check_page q
      then Answered 200 [(js ''Content-Type'', js ''text/html''), (js ''Cache-Control'', js ''no-store''),
             (js ''Content-Length'', js ''0''), (js ''Connection'', js ''close'')]
      else case rt_url rt (or_empty (pq_url q)) of
          None \<Rightarrow> Answered 403 [(js ''Connection'', js ''close'')]
        | Some target \<Rightarrow>
            (case proxy_addresses rt net closing target of
               Inl _ \<Rightarrow> Answered 403 [(js ''Connection'', js ''close'')]
             | Inr as \<Rightarrow>
                 if destroyed then Dropped
                 else Forwarded \<lparr>og_url = target, og_method = pq_method q,
                   og_headers = jm_set (js ''host'') (HText (url_host target)) (forwarded_headers rt (pq_headers q)),
                   og_addresses = as\<rparr>))"

text \<open>The source's answer, or its failure before or after the answer began.\<close>

definition upstream_answer :: "runtime \<Rightarrow> nat option \<Rightarrow> headers \<Rightarrow> nat \<times> headers" where
  "upstream_answer rt status hs =
     (case status of None \<Rightarrow> 502 | Some n \<Rightarrow> if n = 0 then 502 else n,
      jm_set (js ''connection'') (HText (js ''close'')) (forwarded_headers rt hs))"

definition upstream_failed :: "bool \<Rightarrow> proxy_answer" where
  "upstream_failed headers_sent = (if headers_sent then Dropped else Answered 502 [(js ''Connection'', js ''close'')])"

definition maxBodyBytes :: nat where
  "maxBodyBytes = 4 * 1024 * 1024"

text \<open>
  The request body: every chunk is counted before it is passed on, and the chunk that
  exceeds the limit ends the connection.
\<close>

fun pass_body :: "nat \<Rightarrow> nat list list \<Rightarrow> nat list \<times> bool" where
  "pass_body bodyBytes [] = ([], True)"
| "pass_body bodyBytes (c # cs) =
     (if bodyBytes + length c > maxBodyBytes then ([], False)
      else case pass_body (bodyBytes + length c) cs of (rest, whole) \<Rightarrow> (c @ rest, whole))"

section \<open>Tunnels\<close>

text \<open>\<open>/^(?:\[[a-f\d:]+\]|[a-z\d.-]+):\d{1,5}$/i\<close>\<close>

definition tunnel_rx :: rx where
  "tunnel_rx = RSeqs [RBol,
     RAlts [RSeqs [RCh (\<lambda>c. c = 91), RPlus (RCh (\<lambda>c. is_hex c \<or> c = 58)), RCh (\<lambda>c. c = 93)],
       RPlus (RCh (\<lambda>c. is_lower c \<or> is_upper c \<or> is_digit c \<or> c = 46 \<or> c = 45))],
     RCh (\<lambda>c. c = 58), RRep 1 5 RDigit, REol]"

definition port_of :: "url \<Rightarrow> nat" where
  "port_of u = (if u_port u = [] then 443 else num_of (u_port u))"

datatype tunnel_answer =
    TunnelReply string
  | TunnelTo jstring nat "(jstring \<times> nat) list"
  | TunnelDropped

definition reply_407 :: string where
  "reply_407 = ''HTTP/1.1 407 Proxy Authentication Required''"

definition tunnel :: "runtime \<Rightarrow> network \<Rightarrow> jstring \<Rightarrow> bool \<Rightarrow> bool \<Rightarrow> proxy_request \<Rightarrow> tunnel_answer" where
  "tunnel rt net password closing destroyed q =
     (if \<not> authenticated password (pq_headers q) then TunnelReply reply_407
      else if \<not> rx_test tunnel_rx (or_empty (pq_url q)) then TunnelReply ''HTTP/1.1 403 Forbidden''
      else case rt_url rt (js ''https://'' @ or_empty (pq_url q)) of
          None \<Rightarrow> TunnelReply ''HTTP/1.1 403 Forbidden''
        | Some target \<Rightarrow>
            if port_of target = 0 then TunnelReply ''HTTP/1.1 403 Forbidden''
            else (case proxy_addresses rt net closing target of
                Inl _ \<Rightarrow> TunnelReply ''HTTP/1.1 403 Forbidden''
              | Inr as \<Rightarrow> if destroyed then TunnelDropped
                  else TunnelTo (bare_host (u_hostname target)) (port_of target) as))"

text \<open>What the client reads when the upstream connects and what it reads when it fails.\<close>

definition tunnel_connected :: "nat list \<Rightarrow> string \<times> nat list" where
  "tunnel_connected head = (''HTTP/1.1 200 Connection Established'', head)"

definition tunnel_failed :: "bool \<Rightarrow> tunnel_answer" where
  "tunnel_failed was_connected = (if was_connected then TunnelDropped else TunnelReply ''HTTP/1.1 502 Bad Gateway'')"

section \<open>Sockets\<close>

text \<open>
  \<open>px_sockets\<close> is the set of tracked sockets, clients and connections to sources alike;
  \<open>px_clients\<close> are the accepted ones that are still open.
\<close>

record proxy_state =
  px_sockets :: "nat list"
  px_clients :: "nat list"
  px_closing :: bool

definition new_proxy :: proxy_state where
  "new_proxy = \<lparr>px_sockets = [], px_clients = [], px_closing = False\<rparr>"

definition track :: "nat \<Rightarrow> proxy_state \<Rightarrow> proxy_state" where
  "track i p = p\<lparr>px_sockets := List.insert i (px_sockets p)\<rparr>"

definition connection :: "nat \<Rightarrow> proxy_state \<Rightarrow> proxy_state \<times> bool" where
  "connection i p =
     (if px_closing p \<or> length (px_sockets p) \<ge> 64 then (p, False)
      else (track i p\<lparr>px_clients := List.insert i (px_clients p)\<rparr>, True))"

definition socket_closed :: "nat \<Rightarrow> proxy_state \<Rightarrow> proxy_state" where
  "socket_closed i p = p\<lparr>px_sockets := removeAll i (px_sockets p), px_clients := removeAll i (px_clients p)\<rparr>"

text \<open>\<open>close\<close> destroys every tracked socket; the second call does nothing.\<close>

definition close_proxy :: "proxy_state \<Rightarrow> proxy_state \<times> nat list" where
  "close_proxy p = (if px_closing p then (p, []) else (p\<lparr>px_closing := True\<rparr>, px_sockets p))"

datatype socket_event = NewClient nat | NewUpstream nat | SocketClosed nat | CloseProxy

definition socket_step :: "socket_event \<Rightarrow> proxy_state \<Rightarrow> proxy_state" where
  "socket_step e p = (case e of
       NewClient i \<Rightarrow> fst (connection i p)
     | NewUpstream i \<Rightarrow> track i p
     | SocketClosed i \<Rightarrow> socket_closed i p
     | CloseProxy \<Rightarrow> fst (close_proxy p))"

section \<open>What the proxy lets through\<close>

lemma proxy_addresses_public:
  "proxy_addresses rt net closing u = Inr as \<Longrightarrow>
    \<not> closing \<and> u_hostname u \<noteq> js ''qbutt-webview.invalid'' \<and> publicAddresses rt net u = Inr as"
  by (auto simp: proxy_addresses_def bind_r_Inr split: if_splits)

lemma forwarded_headers_names:
  "name \<in> set (map fst (forwarded_headers rt hs)) \<Longrightarrow>
    name \<notin> set hopHeaders \<and> name \<notin> set (connection_names rt hs) \<and> name \<in> set (map fst hs)"
  by (auto simp: forwarded_headers_def)

text \<open>
  C25: the proxy forwards a request only with its password, only to public addresses of an
  http(s) URL without credentials, and without hop-by-hop headers, so its own password never
  leaves the machine; \<open>Host\<close> is the target's.
\<close>

theorem forward_confined:
  assumes "forward rt net password closing destroyed q = Forwarded sent"
  shows "authenticated password (pq_headers q) \<and> \<not> closing
     \<and> rt_url rt (or_empty (pq_url q)) = Some (og_url sent)
     \<and> u_protocol (og_url sent) \<in> {js ''http:'', js ''https:''} \<and> u_username (og_url sent) = [] \<and> u_password (og_url sent) = []
     \<and> og_addresses sent \<noteq> [] \<and> list_all (\<lambda>a. \<not> isPrivateAddress rt (fst a)) (og_addresses sent)
     \<and> jm_get (og_headers sent) (js ''host'') = Some (HText (url_host (og_url sent)))
     \<and> (\<forall>name \<in> set (map fst (og_headers sent)). name = js ''host''
          \<or> name \<notin> set hopHeaders \<and> name \<notin> set (connection_names rt (pq_headers q)))"
proof -
  from assms obtain target as where t: "authenticated password (pq_headers q)"
    "rt_url rt (or_empty (pq_url q)) = Some target" "proxy_addresses rt net closing target = Inr as"
    "sent = \<lparr>og_url = target, og_method = pq_method q,
       og_headers = jm_set (js ''host'') (HText (url_host target)) (forwarded_headers rt (pq_headers q)),
       og_addresses = as\<rparr>"
    by (auto simp: forward_def split: if_splits option.splits sum.splits)
  note p = proxy_addresses_public[OF t(3)]
  then have "u_protocol target \<in> {js ''http:'', js ''https:''} \<and> u_username target = [] \<and> u_password target = []
      \<and> as \<noteq> [] \<and> list_all (\<lambda>a. \<not> isPrivateAddress rt (fst a)) as"
    by (auto simp: publicAddresses_def Let_def bind_r_Inr list_all_iff list_ex_iff split: if_splits)
  moreover have "\<forall>name \<in> set (map fst (og_headers sent)). name = js ''host''
      \<or> name \<notin> set hopHeaders \<and> name \<notin> set (connection_names rt (pq_headers q))"
    unfolding t(4) using forwarded_headers_names[of _ rt "pq_headers q"] by (simp add: jm_keys_set del: set_map js_simps)
  ultimately show ?thesis using t p by simp
qed

text \<open>
  A tunnel is opened only with the password, to a public address of a named host and a
  port between 1 and 65535 as the URL parser reads it.
\<close>

theorem tunnel_confined:
  assumes "tunnel rt net password closing destroyed q = TunnelTo host port as"
  shows "authenticated password (pq_headers q) \<and> \<not> closing \<and> 0 < port
     \<and> as \<noteq> [] \<and> list_all (\<lambda>a. \<not> isPrivateAddress rt (fst a)) as
     \<and> (\<exists>target. rt_url rt (js ''https://'' @ or_empty (pq_url q)) = Some target \<and> host = bare_host (u_hostname target)
          \<and> port = port_of target \<and> u_username target = [] \<and> u_password target = [])"
proof -
  from assms obtain target where t: "authenticated password (pq_headers q)"
    "rt_url rt (js ''https://'' @ or_empty (pq_url q)) = Some target" "proxy_addresses rt net closing target = Inr as"
    "port_of target \<noteq> 0" "host = bare_host (u_hostname target)" "port = port_of target"
    by (auto simp: tunnel_def split: if_splits option.splits sum.splits)
  note p = proxy_addresses_public[OF t(3)]
  then have "u_username target = [] \<and> u_password target = [] \<and> as \<noteq> [] \<and> list_all (\<lambda>a. \<not> isPrivateAddress rt (fst a)) as"
    by (auto simp: publicAddresses_def Let_def bind_r_Inr list_all_iff list_ex_iff split: if_splits)
  with t p show ?thesis by auto
qed

lemma pass_body_spec:
  "pass_body n cs = (rest, whole) \<Longrightarrow> n \<le> maxBodyBytes \<Longrightarrow>
    n + length rest \<le> maxBodyBytes \<and> (\<exists>k. rest = concat (take k cs)) \<and> (whole \<longleftrightarrow> n + length (concat cs) \<le> maxBodyBytes)
    \<and> (whole \<longrightarrow> rest = concat cs)"
proof (induction n cs arbitrary: rest whole rule: pass_body.induct)
  case (2 n c cs)
  show ?case
  proof (cases "n + length c > maxBodyBytes")
    case True
    with 2(2) have "rest = []" "\<not> whole" by auto
    with True 2(3) show ?thesis by (auto intro: exI[of _ 0])
  next
    case False
    obtain r w where rw: "pass_body (n + length c) cs = (r, w)" by fastforce
    with 2(2) False have e: "rest = c @ r" "whole = w" by auto
    from 2(1)[OF False rw] False obtain k where
      "n + length c + length r \<le> maxBodyBytes" "r = concat (take k cs)"
      "w \<longleftrightarrow> n + length c + length (concat cs) \<le> maxBodyBytes" "w \<longrightarrow> r = concat cs" by auto
    then show ?thesis using e by (auto simp: add.assoc intro!: exI[of _ "Suc k"])
  qed
qed (auto intro: exI[of _ 0])

text \<open>
  Of a request's body the proxy passes on whole chunks from its start, at most 4 MiB, and
  all of it exactly when it is not longer than that.
\<close>

theorem body_bounded:
  assumes "pass_body 0 cs = (rest, whole)"
  shows "length rest \<le> 4 * 1024 * 1024 \<and> (\<exists>k. rest = concat (take k cs))
     \<and> (whole \<longleftrightarrow> length (concat cs) \<le> 4 * 1024 * 1024) \<and> (whole \<longrightarrow> rest = concat cs)"
  using pass_body_spec[OF assms] by (simp add: maxBodyBytes_def)

section \<open>Sockets of the proxy\<close>

definition proxy_inv :: "proxy_state \<Rightarrow> bool" where
  "proxy_inv p \<longleftrightarrow> distinct (px_sockets p) \<and> distinct (px_clients p) \<and> set (px_clients p) \<subseteq> set (px_sockets p)
     \<and> length (px_clients p) \<le> 64"

lemma proxy_inv_connection: "proxy_inv p \<Longrightarrow> proxy_inv (fst (connection i p))"
proof (cases "px_closing p \<or> length (px_sockets p) \<ge> 64")
  case False
  assume p: "proxy_inv p"
  then have "length (px_clients p) \<le> length (px_sockets p)"
    unfolding proxy_inv_def by (metis card_mono distinct_card finite_set)
  with False have "length (List.insert i (px_clients p)) \<le> 64" by (simp add: List.insert_def)
  with p False show ?thesis by (auto simp: proxy_inv_def connection_def track_def)
qed (simp add: connection_def)

lemma removeAll_shorter: "length (removeAll i xs) \<le> length xs"
  by (simp add: removeAll_filter_not_eq)

lemma proxy_inv_step: "proxy_inv p \<Longrightarrow> proxy_inv (socket_step e p)"
proof (cases e)
  case (NewClient i)
  then show "proxy_inv p \<Longrightarrow> ?thesis" by (simp add: socket_step_def proxy_inv_connection)
next
  case (SocketClosed i)
  moreover have "length (removeAll i (px_clients p)) \<le> 64" if "proxy_inv p"
    using that removeAll_shorter[of i "px_clients p"] unfolding proxy_inv_def by linarith
  ultimately show "proxy_inv p \<Longrightarrow> ?thesis"
    by (auto simp: socket_step_def socket_closed_def proxy_inv_def distinct_removeAll)
qed (auto simp: socket_step_def track_def close_proxy_def proxy_inv_def)

lemma clients_closing: "px_closing p \<Longrightarrow> px_closing (socket_step e p) \<and> set (px_clients (socket_step e p)) \<subseteq> set (px_clients p)"
  by (cases e) (auto simp: socket_step_def connection_def track_def socket_closed_def close_proxy_def)

text \<open>
  The proxy never has more than 64 open clients, every client is tracked so that \<open>close\<close>
  destroys it, and once it is closing no client is added.
\<close>

theorem proxy_clients:
  "proxy_inv (fold socket_step es new_proxy)
   \<and> (px_closing (fold socket_step es new_proxy) \<longrightarrow>
        set (px_clients (fold socket_step fs (fold socket_step es new_proxy))) \<subseteq> set (px_clients (fold socket_step es new_proxy)))"
proof -
  have "proxy_inv (fold socket_step es p)" if "proxy_inv p" for p
    using that by (induction es arbitrary: p) (auto intro: proxy_inv_step)
  then have "proxy_inv (fold socket_step es new_proxy)" by (simp add: proxy_inv_def new_proxy_def)
  moreover have "set (px_clients (fold socket_step fs p)) \<subseteq> set (px_clients p)" if "px_closing p" for p
    using that
  proof (induction fs arbitrary: p)
    case (Cons f fs)
    then show ?case using clients_closing[of p f] by fastforce
  qed simp
  ultimately show ?thesis by blast
qed

section \<open>Witnesses\<close>

definition sample_password :: jstring where
  "sample_password = js ''0f1e''"

definition sample_proxied :: proxy_request where
  "sample_proxied = \<lparr>pq_method = js ''GET'', pq_url = Some (js ''http://a/x''),
     pq_headers = [(js ''proxy-authorization'', HText (authorization sample_password)),
       (js ''connection'', HText (js ''x-a, X-B'')), (js ''x-b'', HText (js ''1'')), (js ''x-c'', HText (js ''2''))]\<rparr>"

theorem forward_confined_witness:
  "\<exists>sent. forward sample_runtime sample_network sample_password False False sample_proxied = Forwarded sent
     \<and> map fst (og_headers sent) = [js ''x-c'', js ''host''] \<and> og_addresses sent \<noteq> []"
proof -
  have "case forward sample_runtime sample_network sample_password False False sample_proxied of
      Forwarded sent \<Rightarrow> map fst (og_headers sent) = [js ''x-c'', js ''host''] | _ \<Rightarrow> False"
    by code_simp
  then obtain sent where sent: "forward sample_runtime sample_network sample_password False False sample_proxied = Forwarded sent"
      "map fst (og_headers sent) = [js ''x-c'', js ''host'']"
    by (auto split: proxy_answer.splits)
  from forward_confined[OF sent(1)] have "og_addresses sent \<noteq> []" by (elim conjE)
  with sent show ?thesis by (intro exI[of _ sent] conjI)
qed

theorem tunnel_confined_witness:
  "\<exists>host port as. tunnel sample_runtime sample_network sample_password False False
      (sample_proxied\<lparr>pq_url := Some (js ''a.test:443'')\<rparr>) = TunnelTo host port as \<and> 0 < port \<and> as \<noteq> []"
proof -
  let ?q = "sample_proxied\<lparr>pq_url := Some (js ''a.test:443'')\<rparr>"
  have "case tunnel sample_runtime sample_network sample_password False False ?q of TunnelTo _ _ _ \<Rightarrow> True | _ \<Rightarrow> False"
    by code_simp
  then obtain host port as where
    t: "tunnel sample_runtime sample_network sample_password False False ?q = TunnelTo host port as"
    by (auto split: tunnel_answer.splits)
  note c = tunnel_confined[OF t]
  have "0 < port" using c by (elim conjE)
  moreover have "as \<noteq> []" using c by (elim conjE)
  ultimately show ?thesis using t by (intro exI[of _ host] exI[of _ port] exI[of _ "as"] conjI)
qed

theorem body_bounded_witness: "pass_body 0 [[1, 2], [3]] = ([1, 2, 3], True) \<and> length [1, 2, 3 :: nat] \<le> 4 * 1024 * 1024"
proof -
  have p: "pass_body 0 [[1, 2], [3]] = ([1, 2, 3], True)" by (simp add: maxBodyBytes_def)
  from body_bounded[OF p] p show ?thesis by blast
qed

end
