(* ===== verification/WebView.thy ===== *)
theory WebView
  imports Json Net
begin

text \<open>
  \<open>webview.ts\<close>: the check of a source in a web view process. One process per origin serves all
  callers that want the same session; a process nobody waits for is aborted; its answer is
  validated before it is used.
\<close>

section \<open>Sessions\<close>

record web_cookie =
  wc_name :: jstring
  wc_value :: jstring
  wc_domain :: jstring
  wc_path :: jstring
  wc_expires :: "rat option"
  wc_secure :: bool
  wc_httpOnly :: bool
  wc_hostOnly :: bool

record web_session =
  ws_url :: jstring
  ws_userAgent :: jstring
  ws_cookies :: "web_cookie list"

record cookie_identity =
  ci_name :: jstring
  ci_domain :: jstring
  ci_path :: jstring
  ci_hostOnly :: bool

record web_check =
  wk_configuredSession :: "jstring option"
  wk_authoritative :: bool
  wk_retained :: "cookie_identity list option"

text \<open>
  What distinguishes two checks of the same origin: the hash of the session they start from.
  \<open>digest\<close> is SHA-256 of the JSON text, \<open>locale\<close> the order of \<open>localeCompare\<close>.
\<close>

record check_env =
  ke_digest :: "jstring \<times> bool \<times> web_cookie list \<times> cookie_identity list \<Rightarrow> jstring"
  ke_cookies :: "web_cookie list \<Rightarrow> jstring"
  ke_locale :: "jstring \<Rightarrow> nat"

definition configured_session :: "check_env \<Rightarrow> web_cookie list \<Rightarrow> web_check \<Rightarrow> jstring" where
  "configured_session env initial options =
     (if truthy (wk_configuredSession options) then or_empty (wk_configuredSession options) else ke_cookies env initial)"

definition check_state :: "check_env \<Rightarrow> web_cookie list \<Rightarrow> web_check \<Rightarrow> jstring" where
  "check_state env initial options = ke_digest env
     (configured_session env initial options, wk_authoritative options,
      sort_key (ke_locale env \<circ> wc_name) initial, sort_key (ke_locale env \<circ> ci_name) (list_or (wk_retained options)))"

section \<open>The answer of the process\<close>

definition has_newline :: "jstring \<Rightarrow> bool" where
  "has_newline s \<longleftrightarrow> 10 \<in> set s \<or> 13 \<in> set s"

definition line_text :: "json option \<Rightarrow> jstring option" where
  "line_text v = (case json_text v of Some t \<Rightarrow> if has_newline t then None else Some t | None \<Rightarrow> None)"

definition cookie_of :: "json \<Rightarrow> web_cookie option" where
  "cookie_of j =
     (case (line_text (field j ''name''), line_text (field j ''value''), line_text (field j ''domain''),
        line_text (field j ''path''), json_bool (field j ''secure''), json_bool (field j ''httpOnly''),
        json_bool (field j ''hostOnly'')) of
        (Some n, Some v, Some d, Some p, Some s, Some h, Some o') \<Rightarrow>
          (if field j ''expires'' \<noteq> None \<and> json_number (field j ''expires'') = None then None
           else Some \<lparr>wc_name = n, wc_value = v, wc_domain = d, wc_path = p,
             wc_expires = json_number (field j ''expires''), wc_secure = s, wc_httpOnly = h, wc_hostOnly = o'\<rparr>)
      | _ \<Rightarrow> None)"

fun cookies_of :: "json list \<Rightarrow> web_cookie list option" where
  "cookies_of [] = Some []"
| "cookies_of (j # js') =
     (case cookie_of j of None \<Rightarrow> None | Some c \<Rightarrow> map_option ((#) c) (cookies_of js'))"

definition session_of :: "json option \<Rightarrow> web_session option" where
  "session_of v =
     (case v of None \<Rightarrow> None | Some j \<Rightarrow>
       (case (json_text (field j ''url''), line_text (field j ''userAgent''), json_array (field j ''cookies'')) of
          (Some url, Some agent, Some items) \<Rightarrow>
            if agent = [] \<or> length agent > 1024 \<or> length items > 1024 then None
            else map_option (\<lambda>cs. \<lparr>ws_url = url, ws_userAgent = agent, ws_cookies = cs\<rparr>) (cookies_of items)
        | _ \<Rightarrow> None))"

text \<open>A cookie belongs to the checked host or to one of its parent domains.\<close>

definition cookie_domain :: "runtime \<Rightarrow> web_cookie \<Rightarrow> jstring" where
  "cookie_domain rt c = rt_lower rt (if starts_with (wc_domain c) (js ''.'') then tl (wc_domain c) else wc_domain c)"

definition foreign_cookie :: "runtime \<Rightarrow> jstring \<Rightarrow> web_cookie \<Rightarrow> bool" where
  "foreign_cookie rt host c \<longleftrightarrow>
     (if wc_hostOnly c then cookie_domain rt c \<noteq> host
      else cookie_domain rt c \<noteq> host \<and> \<not> ends_with host (js ''.'' @ cookie_domain rt c))"

definition webview_error :: "string \<Rightarrow> string \<Rightarrow> jstring \<Rightarrow> (error, 'a) result" where
  "webview_error code message url = Inl (Content (js code) (js message) (Some url))"

definition text_or :: "json option \<Rightarrow> string \<Rightarrow> jstring" where
  "text_or v d = (if truthy (json_text v) then or_empty (json_text v) else js d)"

definition read_response :: "runtime \<Rightarrow> network \<Rightarrow> (jstring \<Rightarrow> json option) \<Rightarrow> jstring \<Rightarrow> jstring \<Rightarrow> jstring
    \<Rightarrow> (error, web_session) result" where
  "read_response rt net parse request_id url output =
     (case parse output of
        None \<Rightarrow> webview_error ''webview_failed'' ''The source check returned an invalid response.'' url
      | Some response \<Rightarrow>
          if json_text (field response ''id'') \<noteq> Some request_id
          then webview_error ''webview_failed'' ''The source check response belongs to another request.'' url
          else if truthy_json (field response ''error'')
          then Inl (Content (text_or (field (the (field response ''error'')) ''code'') ''webview_failed'')
            (text_or (field (the (field response ''error'')) ''message'') ''Could not complete the source check.'') (Some url))
          else (case session_of (field response ''session'') of
              None \<Rightarrow> webview_error ''webview_failed'' ''The source check returned an invalid session.'' url
            | Some session \<Rightarrow>
                (case rt_url rt url of
                   None \<Rightarrow> Inl (Failed (js ''Invalid URL''))
                 | Some u \<Rightarrow>
                     if list_ex (foreign_cookie rt (u_hostname u)) (ws_cookies session)
                     then webview_error ''webview_failed'' ''The source check returned another source's session.'' url
                     else bind_r (publicUrl rt net (ws_url session)) (\<lambda>_. Inr session))))"

section \<open>The process\<close>

text \<open>
  The child's output and the first reason to stop it. A stopped child is asked to cancel and
  killed a second later.
\<close>

record child =
  ch_output :: jstring
  ch_failure :: "error option"
  ch_cancelled :: bool
  ch_killed :: bool

definition new_child :: child where
  "new_child = \<lparr>ch_output = [], ch_failure = None, ch_cancelled = False, ch_killed = False\<rparr>"

definition stop_child :: "error \<Rightarrow> child \<Rightarrow> child" where
  "stop_child e c = (if ch_failure c \<noteq> None then c else c\<lparr>ch_failure := Some e, ch_cancelled := True\<rparr>)"

definition maxOutput :: nat where
  "maxOutput = 256 * 1024"

datatype child_event = ChildData jstring | ChildAbort error | ChildTimeout | ChildError | ChildKillTimer

definition child_step :: "jstring \<Rightarrow> child_event \<Rightarrow> child \<Rightarrow> child" where
  "child_step url e c =
     (case e of
        ChildData chunk \<Rightarrow>
          if ch_failure c \<noteq> None then c
          else let c' = c\<lparr>ch_output := ch_output c @ chunk\<rparr>
            in if byte_length (ch_output c') > maxOutput
               then (stop_child (Content (js ''webview_failed'') (js ''The source returned too much session data.'') (Some url)) c')
                      \<lparr>ch_killed := True\<rparr>
               else c'
      | ChildAbort reason \<Rightarrow> stop_child reason c
      | ChildTimeout \<Rightarrow> stop_child (Content (js ''webview_timeout'') (js ''The source check did not finish in time.'') (Some url)) c
      | ChildError \<Rightarrow> c\<lparr>ch_failure := Some (Content (js ''webview_unavailable'')
            (js ''The source check component is unavailable. Reinstall qbutt.'') (Some url))\<rparr>
      | ChildKillTimer \<Rightarrow> if ch_cancelled c then c\<lparr>ch_killed := True\<rparr> else c)"

definition child_closed :: "jstring \<Rightarrow> int option \<Rightarrow> child \<Rightarrow> (error, jstring) result" where
  "child_closed url code c =
     (case ch_failure c of
        Some e \<Rightarrow> Inl e
      | None \<Rightarrow> if code \<noteq> Some 0 \<and> trim (ch_output c) = []
          then webview_error ''webview_failed'' ''Could not check the source.'' url else Inr (ch_output c))"

text \<open>One run: the request must fit into 16 KiB, then the process runs and its answer is read.\<close>

definition maxRequest :: nat where
  "maxRequest = 16 * 1024"

definition run_check :: "runtime \<Rightarrow> network \<Rightarrow> (jstring \<Rightarrow> json option) \<Rightarrow> error option \<Rightarrow> nat \<Rightarrow> jstring \<Rightarrow> jstring
    \<Rightarrow> child_event list \<Rightarrow> int option \<Rightarrow> (error, web_session) result" where
  "run_check rt net parse aborted request_bytes request_id url events code =
     (case aborted of
        Some reason \<Rightarrow> Inl reason
      | None \<Rightarrow>
          if request_bytes > maxRequest
          then webview_error ''source_session_invalid'' ''The configured source session is too large.'' url
          else bind_r (child_closed url code (fold (child_step url) events new_child))
            (read_response rt net parse request_id url))"

text \<open>The limits of a run's time in milliseconds, the mode's own and the watchdog's.\<close>

definition check_timeout :: "bool \<Rightarrow> nat" where
  "check_timeout interactive = (if interactive then 120000 else 15000)"

section \<open>What a run returns\<close>

lemma cookies_of_length: "cookies_of items = Some cs \<Longrightarrow> length cs = length items"
  by (induction items arbitrary: cs) (auto split: option.splits)

lemma cookie_of_clean:
  "cookie_of j = Some c \<Longrightarrow> \<not> has_newline (wc_name c) \<and> \<not> has_newline (wc_value c) \<and> \<not> has_newline (wc_domain c)
    \<and> \<not> has_newline (wc_path c)"
  by (auto simp: cookie_of_def line_text_def split: option.splits if_splits)

lemma cookies_of_clean:
  "cookies_of items = Some cs \<Longrightarrow> c \<in> set cs \<Longrightarrow>
    \<not> has_newline (wc_name c) \<and> \<not> has_newline (wc_value c) \<and> \<not> has_newline (wc_domain c) \<and> \<not> has_newline (wc_path c)"
  by (induction items arbitrary: cs) (auto split: option.splits dest: cookie_of_clean)

lemma session_of_clean:
  assumes "session_of v = Some s"
  shows "ws_userAgent s \<noteq> [] \<and> length (ws_userAgent s) \<le> 1024 \<and> \<not> has_newline (ws_userAgent s)
    \<and> length (ws_cookies s) \<le> 1024
    \<and> (\<forall>c \<in> set (ws_cookies s). \<not> has_newline (wc_name c) \<and> \<not> has_newline (wc_value c)
         \<and> \<not> has_newline (wc_domain c) \<and> \<not> has_newline (wc_path c))"
  using assms
  by (auto simp: session_of_def line_text_def dest: cookies_of_length cookies_of_clean split: option.splits if_splits)

text \<open>
  C26: a session that a run returns has no line break in its agent or cookies, which are
  written into headers, at most 1024 cookies, only cookies of the checked host or a parent
  domain of it, and a public address.
\<close>

theorem session_confined:
  assumes "run_check rt net parse aborted request_bytes request_id url events code = Inr s"
  shows "aborted = None \<and> request_bytes \<le> 16 * 1024
     \<and> ws_userAgent s \<noteq> [] \<and> \<not> has_newline (ws_userAgent s) \<and> length (ws_cookies s) \<le> 1024
     \<and> (\<exists>u. rt_url rt url = Some u \<and> (\<forall>c \<in> set (ws_cookies s).
          \<not> has_newline (wc_name c) \<and> \<not> has_newline (wc_value c) \<and> \<not> has_newline (wc_domain c) \<and> \<not> has_newline (wc_path c)
        \<and> (cookie_domain rt c = u_hostname u
           \<or> \<not> wc_hostOnly c \<and> ends_with (u_hostname u) (js ''.'' @ cookie_domain rt c))))
     \<and> (\<exists>p. publicUrl rt net (ws_url s) = Inr p)"
proof -
  from assms obtain answer where o: "aborted = None" "request_bytes \<le> maxRequest"
    "read_response rt net parse request_id url answer = Inr s"
    by (auto simp: run_check_def webview_error_def bind_r_Inr split: option.splits if_splits)
  then obtain v u where v: "session_of v = Some s" "rt_url rt url = Some u"
    "\<not> list_ex (foreign_cookie rt (u_hostname u)) (ws_cookies s)" "\<exists>p. publicUrl rt net (ws_url s) = Inr p"
    by (auto simp: read_response_def webview_error_def bind_r_Inr split: option.splits if_splits)
  have f: "cookie_domain rt c = u_hostname u \<or> \<not> wc_hostOnly c \<and> ends_with (u_hostname u) (js ''.'' @ cookie_domain rt c)"
    if "c \<in> set (ws_cookies s)" for c
    using v(3) that by (auto simp: list_ex_iff foreign_cookie_def split: if_splits)
  show ?thesis
    using session_of_clean[OF v(1)] o(1,2) v(2,4) f by (auto simp: maxRequest_def simp del: js_simps)
qed

section \<open>Callers and runs\<close>

text \<open>
  A run has its number; \<open>wv_pending\<close> maps origins to the runs that may be joined. A caller is
  subscribed to a run either for its session or only to wait until it may check again.
\<close>

record clearance =
  cl_users :: nat
  cl_interactive :: bool
  cl_state :: jstring
  cl_aborted :: bool

record subscriber =
  sb_run :: nat
  sb_waits :: bool
  sb_interactive :: bool
  sb_state :: jstring

record webview =
  wv_pending :: "(jstring, nat) jmap"
  wv_runs :: "nat \<Rightarrow> clearance"
  wv_next :: nat
  wv_callers :: "nat \<Rightarrow> subscriber option"
  wv_closed :: bool

definition new_webview :: webview where
  "new_webview = \<lparr>wv_pending = [], wv_runs = (\<lambda>_. \<lparr>cl_users = 0, cl_interactive = False, cl_state = [], cl_aborted = True\<rparr>),
     wv_next = 0, wv_callers = (\<lambda>_. None), wv_closed = False\<rparr>"

definition subscribe :: "nat \<Rightarrow> nat \<Rightarrow> bool \<Rightarrow> bool \<Rightarrow> jstring \<Rightarrow> webview \<Rightarrow> webview" where
  "subscribe caller run waits interactive state w =
     w\<lparr>wv_runs := (wv_runs w)(run := (wv_runs w run)\<lparr>cl_users := Suc (cl_users (wv_runs w run))\<rparr>),
       wv_callers := (wv_callers w)(caller :=
         Some \<lparr>sb_run = run, sb_waits = waits, sb_interactive = interactive, sb_state = state\<rparr>)\<rparr>"

text \<open>A run that a caller cannot use: aborted, silent for an interactive caller, or for another session.\<close>

definition unsuitable :: "bool \<Rightarrow> jstring \<Rightarrow> clearance \<Rightarrow> bool" where
  "unsuitable interactive state c \<longleftrightarrow> cl_aborted c \<or> (interactive \<and> \<not> cl_interactive c) \<or> cl_state c \<noteq> state"

definition start_run :: "jstring \<Rightarrow> bool \<Rightarrow> jstring \<Rightarrow> webview \<Rightarrow> webview" where
  "start_run origin interactive state w =
     w\<lparr>wv_pending := jm_set origin (wv_next w) (wv_pending w),
       wv_runs := (wv_runs w)(wv_next w := \<lparr>cl_users = 0, cl_interactive = interactive, cl_state = state, cl_aborted = False\<rparr>),
       wv_next := Suc (wv_next w)\<rparr>"

definition check_origin :: "nat \<Rightarrow> jstring \<Rightarrow> bool \<Rightarrow> jstring \<Rightarrow> webview \<Rightarrow> webview" where
  "check_origin caller origin interactive state w =
     (if wv_closed w then w
      else case jm_get (wv_pending w) origin of
          Some run \<Rightarrow> subscribe caller run (unsuitable interactive state (wv_runs w run)) interactive state w
        | None \<Rightarrow> subscribe caller (wv_next w) False interactive state (start_run origin interactive state w))"

text \<open>\<open>finish\<close>: the caller leaves, and the last one aborts the run.\<close>

definition finish :: "nat \<Rightarrow> webview \<Rightarrow> webview" where
  "finish caller w =
     (case wv_callers w caller of
        None \<Rightarrow> w
      | Some s \<Rightarrow>
          let c = wv_runs w (sb_run s); users = cl_users c - 1
          in w\<lparr>wv_runs := (wv_runs w)(sb_run s := c\<lparr>cl_users := users, cl_aborted := cl_aborted c \<or> users = 0\<rparr>),
               wv_callers := (wv_callers w)(caller := None)\<rparr>)"

text \<open>The end of a run removes it, if the origin still has this one; its callers finish then.\<close>

definition run_ended :: "jstring \<Rightarrow> nat \<Rightarrow> webview \<Rightarrow> webview" where
  "run_ended origin run w =
     (if jm_get (wv_pending w) origin = Some run then w\<lparr>wv_pending := jm_delete origin (wv_pending w)\<rparr> else w)"

definition close_webview :: "webview \<Rightarrow> webview" where
  "close_webview w = w\<lparr>wv_closed := True\<rparr>"

inductive webview_step :: "webview \<Rightarrow> webview \<Rightarrow> bool" where
  check_step: "wv_callers w caller = None \<Longrightarrow> webview_step w (check_origin caller origin interactive state w)"
| finish_step: "webview_step w (finish caller w)"
| ended_step: "webview_step w (run_ended origin run w)"
| close_step: "webview_step w (close_webview w)"

inductive_cases webview_stepE: "webview_step w w'"

inductive webview_reached :: "webview \<Rightarrow> bool" where
  start: "webview_reached new_webview"
| step: "webview_reached w \<Longrightarrow> webview_step w w' \<Longrightarrow> webview_reached w'"

section \<open>Who waits for a run\<close>

definition users_of :: "(nat \<Rightarrow> subscriber option) \<Rightarrow> nat \<Rightarrow> nat set" where
  "users_of m run = {k. \<exists>s. m k = Some s \<and> sb_run s = run}"

definition counted :: "webview \<Rightarrow> bool" where
  "counted w \<longleftrightarrow> (\<forall>run. finite (users_of (wv_callers w) run)
     \<and> cl_users (wv_runs w run) = card (users_of (wv_callers w) run))"

definition awaited :: "nat set \<Rightarrow> webview \<Rightarrow> bool" where
  "awaited new w \<longleftrightarrow> (\<forall>run. run \<notin> new \<and> \<not> cl_aborted (wv_runs w run) \<longrightarrow> users_of (wv_callers w) run \<noteq> {})"

definition served :: "webview \<Rightarrow> bool" where
  "served w \<longleftrightarrow> (\<forall>k s. wv_callers w k = Some s \<longrightarrow> sb_run s < wv_next w \<and>
     (\<not> sb_waits s \<longrightarrow> \<not> unsuitable (sb_interactive s) (sb_state s) (wv_runs w (sb_run s))))"

definition numbered :: "webview \<Rightarrow> bool" where
  "numbered w \<longleftrightarrow> jm_inv (wv_pending w) \<and> (\<forall>origin run. jm_get (wv_pending w) origin = Some run \<longrightarrow> run < wv_next w)"

definition webview_inv :: "nat set \<Rightarrow> webview \<Rightarrow> bool" where
  "webview_inv new w \<longleftrightarrow> counted w \<and> awaited new w \<and> served w \<and> numbered w"

lemma users_of_update: "m caller = None \<Longrightarrow> users_of (m(caller := Some s)) r =
    (if r = sb_run s then insert caller (users_of m r) else users_of m r)"
  by (auto simp: users_of_def)

lemma users_of_remove: "m caller = Some s \<Longrightarrow> users_of (m(caller := None)) r =
    (if r = sb_run s then users_of m r - {caller} else users_of m r)"
  by (auto simp: users_of_def)

lemma webview_inv_subscribe:
  assumes "webview_inv new w" and "wv_callers w caller = None" and "run < wv_next w"
    and "\<not> waits \<Longrightarrow> \<not> unsuitable i st (wv_runs w run)"
  shows "webview_inv (new - {run}) (subscribe caller run waits i st w)"
proof -
  have fresh: "caller \<notin> users_of (wv_callers w) r" for r using assms(2) by (simp add: users_of_def)
  have "counted (subscribe caller run waits i st w)"
    using assms(1) fresh[of run] by (simp add: webview_inv_def counted_def subscribe_def users_of_update[of "wv_callers w", OF assms(2)])
  moreover have "awaited (new - {run}) (subscribe caller run waits i st w)"
    using assms(1) by (auto simp: webview_inv_def awaited_def subscribe_def users_of_update[of "wv_callers w", OF assms(2)])
  moreover have "served (subscribe caller run waits i st w)"
    using assms(1,3,4) by (auto simp: webview_inv_def served_def subscribe_def unsuitable_def)
  moreover have "numbered (subscribe caller run waits i st w)"
    using assms(1) by (simp add: webview_inv_def numbered_def subscribe_def)
  ultimately show ?thesis by (simp add: webview_inv_def)
qed

lemma webview_inv_start:
  assumes "webview_inv {} w"
  shows "webview_inv {wv_next w} (start_run origin i st w)"
proof -
  have none: "users_of (wv_callers w) (wv_next w) = {}"
    using assms by (fastforce simp: webview_inv_def served_def users_of_def)
  have "counted (start_run origin i st w)"
    using assms none by (simp add: webview_inv_def counted_def start_run_def)
  moreover have "awaited {wv_next w} (start_run origin i st w)"
    using assms by (simp add: webview_inv_def awaited_def start_run_def)
  moreover have "served (start_run origin i st w)"
    using assms by (fastforce simp: webview_inv_def served_def start_run_def)
  moreover have "numbered (start_run origin i st w)"
    using assms by (auto simp: webview_inv_def numbered_def start_run_def less_Suc_eq)
  ultimately show ?thesis by (simp add: webview_inv_def)
qed

lemma webview_inv_check:
  assumes "webview_inv {} w" and "wv_callers w caller = None"
  shows "webview_inv {} (check_origin caller origin i st w)"
proof (cases "jm_get (wv_pending w) origin")
  case None
  have "webview_inv ({wv_next w} - {wv_next w})
      (subscribe caller (wv_next w) False i st (start_run origin i st w))"
  proof (rule webview_inv_subscribe[OF webview_inv_start[OF assms(1)]])
    show "wv_callers (start_run origin i st w) caller = None" using assms(2) by (simp add: start_run_def)
    show "wv_next w < wv_next (start_run origin i st w)" by (simp add: start_run_def)
    show "\<not> unsuitable i st (wv_runs (start_run origin i st w) (wv_next w))" by (simp add: start_run_def unsuitable_def)
  qed
  with None assms(1) show ?thesis by (simp add: check_origin_def)
next
  case (Some run)
  with assms(1) have "run < wv_next w" by (auto simp: webview_inv_def numbered_def)
  from webview_inv_subscribe[OF assms(1,2) this, of "unsuitable i st (wv_runs w run)" i st] Some assms(1)
  show ?thesis by (simp add: check_origin_def)
qed

lemma webview_inv_finish:
  assumes "webview_inv {} w"
  shows "webview_inv {} (finish caller w)"
proof (cases "wv_callers w caller")
  case (Some s)
  note rem = users_of_remove[of "wv_callers w", OF Some]
  have mem: "caller \<in> users_of (wv_callers w) (sb_run s)" using Some by (auto simp: users_of_def)
  have c: "finite (users_of (wv_callers w) run)" "cl_users (wv_runs w run) = card (users_of (wv_callers w) run)" for run
    using assms by (simp_all add: webview_inv_def counted_def)
  have card: "card (users_of (wv_callers w) (sb_run s) - {caller}) = cl_users (wv_runs w (sb_run s)) - 1"
    using c mem by simp
  have "counted (finish caller w)"
    using c Some card by (simp add: counted_def finish_def Let_def rem)
  moreover have "awaited {} (finish caller w)"
    unfolding awaited_def
  proof (intro allI impI)
    fix run assume a: "run \<notin> {} \<and> \<not> cl_aborted (wv_runs (finish caller w) run)"
    show "users_of (wv_callers (finish caller w)) run \<noteq> {}"
    proof (cases "run = sb_run s")
      case True
      with a Some have "card (users_of (wv_callers w) (sb_run s) - {caller}) \<noteq> 0"
        unfolding card by (simp add: finish_def Let_def)
      then have "users_of (wv_callers w) (sb_run s) - {caller} \<noteq> {}" by (metis card.empty)
      moreover have "wv_callers (finish caller w) = (wv_callers w)(caller := None)" using Some by (simp add: finish_def Let_def)
      ultimately show ?thesis unfolding True by (simp only: rem if_True simp_thms)
    next
      case False
      with a Some assms show ?thesis by (simp add: webview_inv_def awaited_def finish_def Let_def rem)
    qed
  qed
  moreover have "served (finish caller w)"
  proof -
    have "unsuitable (sb_interactive t) (sb_state t) (wv_runs (finish caller w) (sb_run t)) \<longrightarrow>
        unsuitable (sb_interactive t) (sb_state t) (wv_runs w (sb_run t))"
      if "wv_callers (finish caller w) k = Some t" for k t
    proof (cases "sb_run t = sb_run s")
      case True
      have "k \<noteq> caller" "wv_callers w k = Some t" using that Some by (auto simp: finish_def Let_def split: if_splits)
      with True have "k \<in> users_of (wv_callers w) (sb_run s) - {caller}" by (auto simp: users_of_def)
      then have "cl_users (wv_runs w (sb_run s)) - 1 \<noteq> 0" using card c(1)[of "sb_run s"] by (metis card_0_eq empty_iff finite_Diff)
      then show ?thesis using True Some by (auto simp: finish_def Let_def unsuitable_def)
    qed (use Some in \<open>simp add: finish_def Let_def\<close>)
    moreover have "wv_callers (finish caller w) k = Some t \<Longrightarrow> wv_callers w k = Some t" for k t
      using Some by (auto simp: finish_def Let_def split: if_splits)
    moreover have "wv_next (finish caller w) = wv_next w" using Some by (simp add: finish_def Let_def)
    ultimately show ?thesis using assms unfolding webview_inv_def served_def by metis
  qed
  moreover have "numbered (finish caller w)" using assms Some by (simp add: webview_inv_def numbered_def finish_def Let_def)
  ultimately show ?thesis by (simp add: webview_inv_def)
qed (use assms in \<open>simp add: finish_def\<close>)

lemma webview_inv_step:
  assumes "webview_step w w'" and "webview_inv {} w"
  shows "webview_inv {} w'"
  using assms(1)
proof (cases rule: webview_step.cases)
  case (ended_step origin run)
  with assms(2) show ?thesis
    by (auto simp: run_ended_def webview_inv_def counted_def awaited_def served_def numbered_def split: if_splits)
next
  case close_step
  with assms(2) show ?thesis
    by (simp add: close_webview_def webview_inv_def counted_def awaited_def served_def numbered_def)
qed (use assms(2) in \<open>simp_all add: webview_inv_check webview_inv_finish\<close>)

lemma webview_reached_inv: "webview_reached w \<Longrightarrow> webview_inv {} w"
proof (induction rule: webview_reached.induct)
  case start
  show ?case
    by (simp add: webview_inv_def counted_def awaited_def served_def numbered_def new_webview_def users_of_def)
qed (rule webview_inv_step)

text \<open>
  C10: in every reachable state the count of a run is the number of its callers, a run that
  is not aborted has a caller, a caller that gets a run's session asked for the same session
  state and is not shown a silent run when it is interactive, and the run of such a caller
  is never aborted under it.
\<close>

theorem shared_runs:
  assumes "webview_reached w"
  shows "cl_users (wv_runs w run) = card (users_of (wv_callers w) run)
     \<and> (\<not> cl_aborted (wv_runs w run) \<longrightarrow> users_of (wv_callers w) run \<noteq> {})
     \<and> (\<forall>k s. wv_callers w k = Some s \<and> \<not> sb_waits s \<longrightarrow>
          cl_state (wv_runs w (sb_run s)) = sb_state s \<and> (sb_interactive s \<longrightarrow> cl_interactive (wv_runs w (sb_run s)))
        \<and> \<not> cl_aborted (wv_runs w (sb_run s)))"
  using webview_reached_inv[OF assms]
  by (auto simp: webview_inv_def counted_def awaited_def served_def unsuitable_def)

section \<open>Witnesses\<close>

definition sample_webview :: webview where
  "sample_webview = finish 2 (check_origin 3 (js ''a'') True (js ''s'')
     (check_origin 2 (js ''a'') False (js ''s'') (check_origin 1 (js ''a'') False (js ''s'') new_webview)))"

lemma sample_webview_reached: "webview_reached sample_webview"
proof -
  let ?w1 = "check_origin 1 (js ''a'') False (js ''s'') new_webview"
  let ?w2 = "check_origin 2 (js ''a'') False (js ''s'') ?w1"
  let ?w3 = "check_origin 3 (js ''a'') True (js ''s'') ?w2"
  have c: "wv_callers new_webview 1 = None" "wv_callers ?w1 2 = None" "wv_callers ?w2 3 = None" by code_simp+
  have "webview_reached ?w1" by (rule webview_reached.step[OF webview_reached.start check_step[OF c(1)]])
  then have "webview_reached ?w2" by (rule webview_reached.step[OF _ check_step[OF c(2)]])
  then have "webview_reached ?w3" by (rule webview_reached.step[OF _ check_step[OF c(3)]])
  then show ?thesis unfolding sample_webview_def by (rule webview_reached.step[OF _ finish_step])
qed

theorem shared_runs_witness:
  "card (users_of (wv_callers sample_webview) 0) = 2 \<and> cl_state (wv_runs sample_webview 0) = js ''s''"
proof -
  have c: "cl_users (wv_runs sample_webview 0) = 2" by code_simp
  obtain s where s: "wv_callers sample_webview 1 = Some s" "sb_run s = 0" "\<not> sb_waits s" "sb_state s = js ''s''"
  proof -
    have "case wv_callers sample_webview 1 of None \<Rightarrow> False | Some s \<Rightarrow> sb_run s = 0 \<and> \<not> sb_waits s \<and> sb_state s = js ''s''"
      by code_simp
    then show ?thesis using that by (auto split: option.splits)
  qed
  note r = shared_runs[OF sample_webview_reached, of 0]
  have "card (users_of (wv_callers sample_webview) 0) = 2" using r c by linarith
  moreover have "cl_state (wv_runs sample_webview (sb_run s)) = sb_state s" using r s(1,3) by blast
  ultimately show ?thesis using s(2,4) by simp
qed

definition sample_answer :: json where
  "sample_answer = JObj [(js ''id'', JText (js ''7'')), (js ''session'', JObj
     [(js ''url'', JText (js ''https://a/x'')), (js ''userAgent'', JText (js ''agent'')),
      (js ''cookies'', JArr [JObj [(js ''name'', JText (js ''n'')), (js ''value'', JText (js ''v'')), (js ''domain'', JText (js ''.a'')),
         (js ''path'', JText (js ''/'')), (js ''secure'', JBool True), (js ''httpOnly'', JBool False), (js ''hostOnly'', JBool False)]])])]"

theorem session_confined_witness:
  "\<exists>s. run_check sample_runtime sample_network (\<lambda>_. Some sample_answer) None 100 (js ''7'') (js ''https://a/x'')
        [ChildData (js ''{'')] (Some 0) = Inr s \<and> length (ws_cookies s) = 1 \<and> \<not> has_newline (ws_userAgent s)"
proof -
  have "case run_check sample_runtime sample_network (\<lambda>_. Some sample_answer) None 100 (js ''7'') (js ''https://a/x'')
        [ChildData (js ''{'')] (Some 0) of Inr s \<Rightarrow> length (ws_cookies s) = 1 | Inl _ \<Rightarrow> False"
    by code_simp
  then obtain s where s: "run_check sample_runtime sample_network (\<lambda>_. Some sample_answer) None 100 (js ''7'') (js ''https://a/x'')
        [ChildData (js ''{'')] (Some 0) = Inr s" "length (ws_cookies s) = 1"
    by (auto split: sum.splits)
  from session_confined[OF s(1)] have "\<not> has_newline (ws_userAgent s)" by (elim conjE)
  with s show ?thesis by (intro exI[of _ s] conjI)
qed

end
