(* ===== verification/Products.thy ===== *)
theory Products
  imports Json Regex Contracts
begin

text \<open>
  \<open>products.ts\<close> and \<open>media-runtime.ts\<close>: the installed qplay, its version, and the media tools it
  reports, which are looked up once per directory. The file system, the registry query and
  the started program are parameters. \<open>expected\<close> is the entry of \<open>upstream-lock.json\<close>.
\<close>

section \<open>Versions\<close>

record expected_product =
  xp_version :: jstring
  xp_protocol :: rat

definition is_number :: "jstring \<Rightarrow> bool" where
  "is_number s \<longleftrightarrow> s \<noteq> [] \<and> list_all is_digit s"

text \<open>\<open>/^(\d+)\.(\d+)\.(\d+)$/\<close> with \<open>map(Number)\<close>\<close>

definition version_parts :: "jstring \<Rightarrow> nat list option" where
  "version_parts s =
     (let parts = split_char 46 s
      in if length parts = 3 \<and> list_all is_number parts then Some (map num_of parts) else None)"

definition minimum_parts :: "jstring \<Rightarrow> nat list" where
  "minimum_parts s = map num_of (split_char 46 s)"

text \<open>
  \<open>version.some((part, index) => part < minimum[index] && version.slice(0, index).every(...))\<close>
\<close>

definition older_than :: "nat list \<Rightarrow> nat list \<Rightarrow> bool" where
  "older_than version minimum \<longleftrightarrow>
     list_ex (\<lambda>i. version ! i < minimum ! i \<and> list_all (\<lambda>k. version ! k = minimum ! k) [0..<i]) [0..<length version]"

definition incompatible :: "expected_product \<Rightarrow> error" where
  "incompatible x = Content (js ''qplay_incompatible'')
     (js ''This version of qplay is not compatible. Install qplay '' @ xp_version x @ js '' or newer.'') None"

definition validateProductVersion :: "expected_product \<Rightarrow> json \<Rightarrow> (error, unit) result" where
  "validateProductVersion x info =
     (let version = version_parts (or_empty (json_text (field info ''version'')));
          older = (case version of None \<Rightarrow> True | Some v \<Rightarrow> older_than v (minimum_parts (xp_version x)))
      in if json_text (field info ''product'') \<noteq> Some (js ''qplay'') \<or> json_number (field info ''protocolVersion'') \<noteq> Some (xp_protocol x)
            \<or> older
         then Inl (incompatible x) else Inr ())"

section \<open>The installed program\<close>

text \<open>\<open>/^\s*InstallDir\s+REG_SZ\s+(.+)$/m\<close>, with the characters that \<open>.\<close> does not match.\<close>

definition install_rx :: rx where
  "install_rx = RSeqs [RBolM, RSpaces, RLit (js ''InstallDir''), RPlus (RCh is_space), RLit (js ''REG_SZ''), RPlus (RCh is_space),
     RGroup 1 (RPlus RDot), RLook True (RAlt (RCh (\<lambda>c. c \<in> {10, 13, 8232, 8233})) REol)]"

record machine =
  mc_join :: "jstring \<Rightarrow> jstring \<Rightarrow> jstring"
  mc_exists :: "jstring \<Rightarrow> bool"
  mc_windows :: bool
  mc_registry :: "jstring option"
  mc_file :: "jstring \<Rightarrow> bool"
  mc_absolute :: "jstring \<Rightarrow> bool"
  mc_resolve :: "jstring \<Rightarrow> jstring"
  mc_lab :: "jstring option option"

definition productExecutable :: "machine \<Rightarrow> jstring \<Rightarrow> jstring option" where
  "productExecutable m appDir =
     (let portable = mc_join m appDir (js ''qplay'')
      in if mc_exists m (mc_join m portable (js ''qplay.portable'')) then Some (mc_join m portable (js ''qplay.exe''))
         else if \<not> mc_windows m then None
         else case mc_registry m of
             None \<Rightarrow> None
           | Some out \<Rightarrow>
               (case map_option trim (rx_cap install_rx 1 out) of
                  None \<Rightarrow> None
                | Some directory \<Rightarrow>
                    if directory = [] then None
                    else let executable = mc_join m directory (js ''qplay.exe'')
                      in if mc_file m executable then Some executable else None))"

section \<open>The media runtime\<close>

record media_runtime =
  mr_player :: jstring
  mr_dir :: jstring
  mr_tools :: "(string \<times> jstring) list"

definition unavailable :: "string \<Rightarrow> (error, 'a) result" where
  "unavailable m = Inl (Content (js ''qplay_unavailable'') (js m) None)"

definition tool_fields :: "(string \<times> string) list" where
  "tool_fields = [(''mpv'', ''mpv''), (''ffmpeg'', ''ffmpeg''), (''ffprobe'', ''ffprobe''), (''yt-dlp'', ''ytDlp'')]"

definition absolute_text :: "machine \<Rightarrow> json option \<Rightarrow> jstring option" where
  "absolute_text m v = (case json_text v of None \<Rightarrow> None | Some t \<Rightarrow> if mc_absolute m t then Some t else None)"

fun read_tools :: "machine \<Rightarrow> json option \<Rightarrow> (string \<times> string) list \<Rightarrow> (error, (string \<times> jstring) list) result" where
  "read_tools m tools [] = Inr []"
| "read_tools m tools ((name, key) # fs) =
     (case absolute_text m (case tools of None \<Rightarrow> None | Some t \<Rightarrow> field t key) of
        None \<Rightarrow> unavailable ''qplay media tools are missing. Reinstall qplay and try again.''
      | Some path \<Rightarrow>
          if mc_file m path then bind_r (read_tools m tools fs) (\<lambda>rest. Inr ((name, path) # rest))
          else unavailable ''qplay media tools are missing. Reinstall qplay and try again.'')"

text \<open>
  Starting the program gives its JSON or an error; any error that is not a \<open>ContentError\<close>
  becomes \<open>qplay_unavailable\<close>.
\<close>

definition start_runtime :: "machine \<Rightarrow> expected_product \<Rightarrow> (jstring \<Rightarrow> (error, json) result) \<Rightarrow> jstring option
    \<Rightarrow> (error, media_runtime) result" where
  "start_runtime m x run player =
     (case player of
        None \<Rightarrow> unavailable ''qplay is not installed. Reinstall qbutt or install qplay and try again.''
      | Some p \<Rightarrow>
          bind_r (run p) (\<lambda>info.
          bind_r (validateProductVersion x info) (\<lambda>_.
          (case absolute_text m (field info ''runtimeDir'') of
             None \<Rightarrow> unavailable ''qplay returned an invalid runtime directory. Reinstall qplay and try again.''
           | Some dir \<Rightarrow> bind_r (read_tools m (field info ''tools'') tool_fields) (\<lambda>tools.
               Inr \<lparr>mr_player = p, mr_dir = dir, mr_tools = tools\<rparr>)))))"

definition content_only :: "(error, 'a) result \<Rightarrow> (error, 'a) result" where
  "content_only r = (case r of
      Inl (Content c e u) \<Rightarrow> Inl (Content c e u)
    | Inl _ \<Rightarrow> unavailable ''qplay could not start. Reinstall qplay or run the qbutt installer again.''
    | Inr v \<Rightarrow> Inr v)"

text \<open>
  The cache of runtimes: a failed start is removed, so that the next call tries again. The
  signal is checked before and after. \<open>mc_lab\<close> is the laboratory mode with its player, which
  has keys of its own.
\<close>

type_synonym runtimes = "(jstring, media_runtime) jmap"

definition runtime_key :: "machine \<Rightarrow> jstring \<Rightarrow> (error, jstring \<times> jstring option) result" where
  "runtime_key m appDir =
     (case mc_lab m of
        None \<Rightarrow> Inr (mc_resolve m appDir, productExecutable m appDir)
      | Some lab \<Rightarrow>
          if truthy lab \<and> mc_absolute m (or_empty lab)
          then Inr (js ''lab:'' @ mc_resolve m (or_empty lab), Some (mc_resolve m (or_empty lab)))
          else unavailable ''Set QBUTT_LAB_QPLAY to the absolute path of the verified qplay fixture.'')"

definition mediaRuntime :: "machine \<Rightarrow> expected_product \<Rightarrow> (jstring \<Rightarrow> (error, json) result) \<Rightarrow> jstring
    \<Rightarrow> error option \<Rightarrow> error option \<Rightarrow> runtimes \<Rightarrow> runtimes \<times> (error, media_runtime) result" where
  "mediaRuntime m x run appDir before_signal after_signal cache =
     (case before_signal of
        Some reason \<Rightarrow> (cache, Inl reason)
      | None \<Rightarrow>
          (case runtime_key m appDir of
             Inl e \<Rightarrow> (cache, Inl e)
           | Inr (key, player) \<Rightarrow>
               (case (case jm_get cache key of
                    Some r \<Rightarrow> (cache, Inr r)
                  | None \<Rightarrow> (case content_only (start_runtime m x run player) of
                      Inl e \<Rightarrow> (jm_delete key cache, Inl e)
                    | Inr r \<Rightarrow> (jm_set key r cache, Inr r))) of
                  (cache', Inl e) \<Rightarrow> (cache', Inl e)
                | (cache', Inr r) \<Rightarrow> (cache', case after_signal of Some reason \<Rightarrow> Inl reason | None \<Rightarrow> Inr r))))"

section \<open>The version check is the order of versions\<close>

lemma older_than_iff: "older_than v w \<longleftrightarrow> (\<exists>i<length v. v ! i < w ! i \<and> (\<forall>k<i. v ! k = w ! k))"
  by (auto simp: older_than_def list_ex_iff list_all_iff)

lemma older_than_Cons:
  "older_than (a # v) (b # w) \<longleftrightarrow> a < b \<or> a = b \<and> older_than v w"
  by (simp add: older_than_iff Ex_less_Suc2 All_less_Suc2) blast

lemma older_than_lexord: "length v = length w \<Longrightarrow> older_than v w \<longleftrightarrow> (v, w) \<in> lexord {(a, b). a < b}"
proof (induction v w rule: list_induct2)
  case (Cons a v b w)
  then show ?case by (auto simp: older_than_Cons)
qed (simp add: older_than_def)

text \<open>
  A qplay is accepted exactly when it names itself, speaks the expected protocol and has a
  version of three numbers that is not below the expected one in the order of versions.
\<close>

theorem validateProductVersion_order:
  assumes "version_parts (xp_version x) = Some minimum"
  shows "validateProductVersion x info = Inr () \<longleftrightarrow>
     json_text (field info ''product'') = Some (js ''qplay'') \<and> json_number (field info ''protocolVersion'') = Some (xp_protocol x)
     \<and> (\<exists>v. version_parts (or_empty (json_text (field info ''version''))) = Some v
          \<and> (v, minimum) \<notin> lexord {(a, b). a < b})"
proof -
  have m: "minimum_parts (xp_version x) = minimum" "length minimum = 3"
    using assms by (auto simp: version_parts_def minimum_parts_def Let_def split: if_splits)
  have "length v = 3" if "version_parts s = Some v" for s v
    using that by (auto simp: version_parts_def Let_def split: if_splits)
  then show ?thesis
    using older_than_lexord[of _ minimum] m
    by (auto simp: validateProductVersion_def Let_def simp del: js_simps split: option.splits)
qed

theorem validateProductVersion_order_witness:
  "validateProductVersion \<lparr>xp_version = js ''1.10.2'', xp_protocol = 3\<rparr>
     (JObj [(js ''product'', JText (js ''qplay'')), (js ''version'', JText (js ''1.9.20'')), (js ''protocolVersion'', JNum 3)]) \<noteq> Inr ()"
proof -
  have v: "version_parts (xp_version \<lparr>xp_version = js ''1.10.2'', xp_protocol = 3\<rparr>) = Some [1, 10, 2]" by code_simp
  have "version_parts (or_empty (json_text (field (JObj [(js ''product'', JText (js ''qplay'')), (js ''version'', JText (js ''1.9.20'')),
      (js ''protocolVersion'', JNum 3)]) ''version''))) = Some [1, 9, 20]" by code_simp
  then show ?thesis unfolding validateProductVersion_order[OF v] by simp
qed

text \<open>A runtime that is returned has absolute paths of existing tools, and a failure is not cached.\<close>

lemma read_tools_ok:
  "read_tools m tools fs = Inr ts \<Longrightarrow> map fst ts = map fst fs \<and> (\<forall>(n, p) \<in> set ts. mc_absolute m p \<and> mc_file m p)"
proof (induction fs arbitrary: ts)
  case (Cons f fs)
  obtain name key where f: "f = (name, key)" by fastforce
  from Cons.prems obtain path rest where r: "mc_absolute m path" "mc_file m path" "read_tools m tools fs = Inr rest"
      "ts = (name, path) # rest"
    unfolding f by (auto simp: unavailable_def absolute_text_def bind_r_Inr split: option.splits if_splits)
  with Cons.IH[OF r(3)] f show ?case by auto
qed simp

definition usable :: "machine \<Rightarrow> media_runtime \<Rightarrow> bool" where
  "usable m r \<longleftrightarrow> map fst (mr_tools r) = [''mpv'', ''ffmpeg'', ''ffprobe'', ''yt-dlp''] \<and> mc_absolute m (mr_dir r)
     \<and> (\<forall>(n, p) \<in> set (mr_tools r). mc_absolute m p \<and> mc_file m p)"

lemma start_runtime_usable: "content_only (start_runtime m x run player) = Inr r \<Longrightarrow> usable m r"
  by (auto simp: content_only_def start_runtime_def unavailable_def absolute_text_def bind_r_Inr tool_fields_def usable_def
      dest!: read_tools_ok split: option.splits sum.splits error.splits if_splits)

text \<open>
  The cache holds only runtimes whose directory and four tools are absolute and exist,
  whatever the calls and their signals, and a call returns such a runtime or an error; a
  failed start leaves nothing in the cache.
\<close>

theorem mediaRuntime_usable:
  assumes "\<forall>(k, r) \<in> set cache. usable m r" and "mediaRuntime m x run appDir b a cache = (cache', result)"
  shows "(\<forall>(k, r) \<in> set cache'. usable m r) \<and> (\<forall>r. result = Inr r \<longrightarrow> usable m r)"
proof -
  have get: "usable m r" if "jm_get cache k = Some r" for k r
    using assms(1) jm_get_in_set[OF that] by auto
  have set: "\<forall>(k', r') \<in> set (jm_set k r cache). usable m r'" if "usable m r" for k r
    using assms(1) that by (induction k r cache rule: jm_set.induct) auto
  have delete: "\<forall>(k', r') \<in> set (jm_delete k cache). usable m r'" for k
    using assms(1) by (auto simp: jm_delete_def)
  show ?thesis
  proof (cases "b = None \<and> (\<exists>key player. runtime_key m appDir = Inr (key, player))")
    case False
    then show ?thesis using assms by (auto simp: mediaRuntime_def split: option.splits sum.splits)
  next
    case True
    then obtain key player where k: "b = None" "runtime_key m appDir = Inr (key, player)" by blast
    show ?thesis
    proof (cases "jm_get cache key")
      case (Some r)
      with k assms(2) have "cache' = cache" "result = (case a of Some reason \<Rightarrow> Inl reason | None \<Rightarrow> Inr r)"
        by (simp_all add: mediaRuntime_def)
      with assms(1) get[OF Some] show ?thesis by (auto split: option.splits)
    next
      case None
      show ?thesis
      proof (cases "content_only (start_runtime m x run player)")
        case (Inl e)
        with k None assms(2) have "cache' = jm_delete key cache" "result = Inl e" by (simp_all add: mediaRuntime_def)
        with delete show ?thesis by simp
      next
        case (Inr r)
        with k None assms(2) have "cache' = jm_set key r cache" "result = (case a of Some reason \<Rightarrow> Inl reason | None \<Rightarrow> Inr r)"
          by (simp_all add: mediaRuntime_def)
        with set start_runtime_usable[OF Inr] show ?thesis by (auto split: option.splits)
      qed
    qed
  qed
qed

definition sample_machine :: machine where
  "sample_machine = \<lparr>mc_join = (\<lambda>a b. a @ js ''/'' @ b), mc_exists = (\<lambda>_. False), mc_windows = True,
     mc_registry = Some (js ''  InstallDir    REG_SZ    /q''), mc_file = (\<lambda>_. True), mc_absolute = (\<lambda>p. starts_with p (js ''/'')),
     mc_resolve = (\<lambda>p. p), mc_lab = None\<rparr>"

definition sample_info :: json where
  "sample_info = JObj [(js ''product'', JText (js ''qplay'')), (js ''version'', JText (js ''1.4.2'')), (js ''protocolVersion'', JNum 1),
     (js ''runtimeDir'', JText (js ''/r'')), (js ''tools'', JObj [(js ''mpv'', JText (js ''/m'')), (js ''ffmpeg'', JText (js ''/f'')),
       (js ''ffprobe'', JText (js ''/p'')), (js ''ytDlp'', JText (js ''/y''))])]"

theorem mediaRuntime_usable_witness:
  "\<exists>cache r. mediaRuntime sample_machine \<lparr>xp_version = js ''1.4.2'', xp_protocol = 1\<rparr> (\<lambda>_. Inr sample_info) (js ''/app'') None None []
      = (cache, Inr r) \<and> usable sample_machine r"
proof -
  let ?c = "mediaRuntime sample_machine \<lparr>xp_version = js ''1.4.2'', xp_protocol = 1\<rparr> (\<lambda>_. Inr sample_info) (js ''/app'') None None []"
  have "case ?c of (_, Inr _) \<Rightarrow> True | _ \<Rightarrow> False" by code_simp
  then obtain cache r where c: "?c = (cache, Inr r)" by (auto split: prod.splits sum.splits)
  from mediaRuntime_usable[OF _ c] have "usable sample_machine r" by simp
  with c show ?thesis by blast
qed

end
