(* ===== verification/Media.thy ===== *)
theory Media
  imports Proxy
begin

text \<open>
  \<open>media.ts\<close>: resolving a variant into something that can be played or downloaded. The
  provider's \<open>resolve\<close>, the browser, yt-dlp, the stored addresses of links and the catalog's
  acquisition headers are parameters; the order of the checks and what is passed on is the
  code's.
\<close>

section \<open>Headers for yt-dlp\<close>

definition is_header_name :: "jstring \<Rightarrow> bool" where
  "is_header_name name \<longleftrightarrow> name \<noteq> [] \<and> list_all (\<lambda>c. is_word c \<or> c = 45) name"

definition has_break :: "jstring \<Rightarrow> bool" where
  "has_break s \<longleftrightarrow> 10 \<in> set s \<or> 13 \<in> set s"

record media_args =
  ma_args :: "jstring list"
  ma_cookies :: "jstring option"
  ma_headers :: header_map

definition fixed_args :: "jstring \<Rightarrow> jstring list" where
  "fixed_args proxyUrl = map js [''--ignore-config'', ''--no-warnings'', ''--no-playlist'', ''--dump-single-json'',
     ''--skip-download'', ''--socket-timeout'', ''20'', ''--retries'', ''1'', ''--format'', ''bestvideo*+bestaudio/best'',
     ''--proxy''] @ [proxyUrl]"

definition add_media_header :: "runtime \<Rightarrow> jstring \<Rightarrow> jstring \<Rightarrow> media_args \<Rightarrow> (error, media_args) result" where
  "add_media_header rt name value a =
     (if \<not> is_header_name name \<or> has_break value then Inl (Failed (js ''The source supplied invalid media headers.''))
      else if rt_lower rt name = js ''authorization''
      then Inl (Failed (js ''Open this source through its browser player to use its signed-in session.''))
      else if rt_lower rt name = js ''cookie'' then Inr (a\<lparr>ma_cookies := Some value\<rparr>)
      else Inr (a\<lparr>ma_headers := jm_set name value (ma_headers a),
                  ma_args := ma_args a @ [js ''--add-headers'', name @ js '':'' @ value]\<rparr>))"

fun add_media_headers :: "runtime \<Rightarrow> header_map \<Rightarrow> media_args \<Rightarrow> (error, media_args) result" where
  "add_media_headers rt [] a = Inr a"
| "add_media_headers rt ((name, value) # hs) a =
     bind_r (add_media_header rt name value a) (add_media_headers rt hs)"

text \<open>One line of the Netscape cookie file, valid for the source's host only.\<close>

definition cookie_line :: "url \<Rightarrow> jstring \<Rightarrow> (error, jstring) result" where
  "cookie_line source cookie =
     (case index_of cookie (js ''='') of
        Some (Suc k) \<Rightarrow>
          if 9 \<in> set cookie \<or> has_break cookie then Inl (Failed (js ''The source supplied invalid session cookies.''))
          else Inr (join [9] [u_hostname source, js ''FALSE'', js ''/'',
            if u_protocol source = js ''https:'' then js ''TRUE'' else js ''FALSE'', js ''0'',
            trim (take (Suc k) cookie), trim (drop (Suc (Suc k)) cookie)])
      | _ \<Rightarrow> Inl (Failed (js ''The source supplied invalid session cookies.'')))"

definition cookie_file :: "url \<Rightarrow> jstring \<Rightarrow> (error, jstring) result" where
  "cookie_file source cookies =
     bind_r (map_r (cookie_line source) (split_char 59 cookies)) (\<lambda>lines.
       Inr (js ''# Netscape HTTP Cookie File'' @ [10] @ join [10] lines @ [10]))"

section \<open>Extracted media\<close>

record extracted_format =
  ef_url :: "jstring option"
  ef_vcodec :: "jstring option"
  ef_acodec :: "jstring option"
  ef_headers :: "header_map option"

record extracted_media =
  em_format :: extracted_format
  em_title :: "jstring option"
  em_formats :: "extracted_format list option"
  em_downloads :: "extracted_format list option"

definition formats_of :: "extracted_media \<Rightarrow> extracted_format list" where
  "formats_of m = (case em_formats m of Some fs \<Rightarrow> fs | None \<Rightarrow> (case em_downloads m of Some fs \<Rightarrow> fs | None \<Rightarrow> [em_format m]))"

definition video_format :: "extracted_format list \<Rightarrow> extracted_format option" where
  "video_format fs =
     (case find (\<lambda>f. truthy (ef_url f) \<and> ef_vcodec f \<noteq> Some (js ''none'')) fs of
        Some f \<Rightarrow> Some f
      | None \<Rightarrow> (case fs of [] \<Rightarrow> None | f # _ \<Rightarrow> Some f))"

definition audio_format :: "extracted_format list \<Rightarrow> extracted_format option" where
  "audio_format fs = find (\<lambda>f. truthy (ef_url f) \<and> ef_vcodec f = Some (js ''none'') \<and> ef_acodec f \<noteq> Some (js ''none'')) fs"

definition merge_headers :: "header_map \<Rightarrow> header_map option \<Rightarrow> header_map" where
  "merge_headers a b = fold (\<lambda>(k, v). jm_set k v) (list_or b) a"

definition is_session_header :: "runtime \<Rightarrow> jstring \<Rightarrow> bool" where
  "is_session_header rt name \<longleftrightarrow> rt_lower rt name = js ''cookie'' \<or> rt_lower rt name = js ''authorization''"

text \<open>The headers of the stream: the source's cookies only go back to the source's origin.\<close>

definition media_headers :: "runtime \<Rightarrow> url \<Rightarrow> media_args \<Rightarrow> extracted_media \<Rightarrow> extracted_format \<Rightarrow> url \<Rightarrow> header_map" where
  "media_headers rt source a m video target =
     (let hs = filter (\<lambda>(name, _). \<not> is_session_header rt name)
          (merge_headers (merge_headers (ma_headers a) (ef_headers (em_format m))) (ef_headers video))
      in if truthy (ma_cookies a) \<and> url_origin target = url_origin source
         then jm_set (js ''Cookie'') (or_empty (ma_cookies a)) hs else hs)"

definition empty_resolved :: "transport \<Rightarrow> resolved" where
  "empty_resolved kind = \<lparr>rs_kind = kind, rs_resolver = None, rs_url = None, rs_torrentData = None, rs_headers = None,
     rs_audioUrl = None, rs_audioTrack = None, rs_proxyUrl = None, rs_subtitles = None, rs_selection = None,
     rs_title = None, rs_translation = None, rs_quality = None\<rparr>"

text \<open>
  \<open>ytdlp\<close> gets the arguments and the cookie file and gives the metadata; it stands for the
  runtime and the process.
\<close>

definition extractMedia :: "runtime \<Rightarrow> network \<Rightarrow> (jstring list \<Rightarrow> jstring option \<Rightarrow> (error, extracted_media) result)
    \<Rightarrow> jstring \<Rightarrow> jstring \<Rightarrow> header_map \<Rightarrow> (error, resolved) result" where
  "extractMedia rt net ytdlp proxyUrl url headers =
     bind_r (publicUrl rt net url) (\<lambda>source.
     bind_r (add_media_headers rt headers \<lparr>ma_args = fixed_args proxyUrl, ma_cookies = None, ma_headers = []\<rparr>) (\<lambda>a.
     bind_r (if truthy (ma_cookies a) then bind_r (cookie_file source (or_empty (ma_cookies a))) (\<lambda>f. Inr (Some f)) else Inr None)
       (\<lambda>file.
     bind_r (ytdlp (ma_args a @ [js ''--'', url]) file) (\<lambda>m.
     (case video_format (formats_of m) of
        None \<Rightarrow> Inl (Failed (js ''This video has no playable stream.''))
      | Some video \<Rightarrow>
          if \<not> truthy (ef_url video) then Inl (Failed (js ''This video has no playable stream.''))
          else let audio = audio_format (formats_of m); audioUrl = (case audio of None \<Rightarrow> None | Some f \<Rightarrow> ef_url f)
            in bind_r (publicUrl rt net (or_empty (ef_url video))) (\<lambda>target.
               bind_r (if truthy audioUrl then bind_r (publicUrl rt net (or_empty audioUrl)) (\<lambda>_. Inr ()) else Inr ()) (\<lambda>_.
                 Inr ((empty_resolved Video)\<lparr>rs_resolver := Some Direct, rs_url := ef_url video, rs_audioUrl := audioUrl,
                   rs_title := em_title m, rs_headers := Some (media_headers rt source a m video target)\<rparr>))))))))"

section \<open>Resolving a variant\<close>

text \<open>
  \<open>md_provider\<close>: no provider, a provider without \<open>resolve\<close>, or its result; \<open>md_stored\<close> the
  saved address of a link, \<open>md_fetch\<close> the context's fetch with status and body.
\<close>

record media_env =
  md_provider :: "variant \<Rightarrow> (variant \<Rightarrow> (error, resolved option) result) option option"
  md_browser :: "jstring \<Rightarrow> selection option \<Rightarrow> transport \<Rightarrow> jstring option \<Rightarrow> (error, resolved) result"
  md_ytdlp :: "jstring list \<Rightarrow> jstring option \<Rightarrow> (error, extracted_media) result"
  md_stored :: "jstring \<Rightarrow> (error, jstring option) result"
  md_fetch :: "jstring \<Rightarrow> header_map \<Rightarrow> (error, nat \<times> nat list) result"
  md_acquisition :: "jstring \<Rightarrow> jstring \<Rightarrow> header_map \<Rightarrow> (error, header_map) result"
  md_proxy :: jstring

definition capture_selection :: "jstring \<Rightarrow> selection" where
  "capture_selection i = \<lparr>sel_episode = None, sel_season = None, sel_translationId = None, sel_player = None, sel_captureId = Some i\<rparr>"

text \<open>\<open>/\.(?:m3u8|mpd|mp4|mkv|webm)$/i\<close>\<close>

definition is_direct_video :: "jstring \<Rightarrow> bool" where
  "is_direct_video path \<longleftrightarrow> list_ex (\<lambda>e. ends_with (map ascii_lower path) (js e)) [''.m3u8'', ''.mpd'', ''.mp4'', ''.mkv'', ''.webm'']"

definition link_address :: "runtime \<Rightarrow> media_env \<Rightarrow> variant \<Rightarrow> (error, jstring) result" where
  "link_address rt env v =
     (if captureSelectionId rt v \<noteq> None then Inr (v_url v)
      else bind_r (md_stored env (v_id v)) (\<lambda>stored.
        Inr (if truthy stored then or_empty stored else if truthy (v_magnet v) then or_empty (v_magnet v) else v_url v)))"

definition resolve_link :: "runtime \<Rightarrow> network \<Rightarrow> media_env \<Rightarrow> variant \<Rightarrow> (error, resolved \<times> bool) result" where
  "resolve_link rt net env v =
     bind_r (link_address rt env v) (\<lambda>url.
       if starts_with url (js ''magnet:'') then Inr ((empty_resolved Torrent)\<lparr>rs_url := Some url\<rparr>, True)
       else bind_r (publicUrl rt net url) (\<lambda>u.
         let capture = captureSelectionId rt v
         in Inr ((empty_resolved (v_transport v))\<lparr>rs_url := Some url,
              rs_resolver := Some (if capture \<noteq> None then Browser
                else if v_transport v = Video \<and> \<not> is_direct_video (u_pathname u) then YtDlp else Direct),
              rs_selection := map_option capture_selection capture\<rparr>, False)))"

text \<open>The flag says that the result is returned as it is, without the checks that follow.\<close>

definition resolve_first :: "runtime \<Rightarrow> network \<Rightarrow> media_env \<Rightarrow> variant \<Rightarrow> (error, resolved \<times> bool) result" where
  "resolve_first rt net env v =
     (case md_provider env v of
        Some None \<Rightarrow>
          if v_transport v \<in> {Book, MangaPages}
          then bind_r (publicUrl rt net (v_url v)) (\<lambda>_.
            Inr ((empty_resolved (v_transport v))\<lparr>rs_url := Some (v_url v), rs_title := Some (v_title v)\<rparr>, True))
          else Inl (Failed (js ''This source cannot open the selected variant.''))
      | Some (Some resolve) \<Rightarrow> bind_r (resolve v) (\<lambda>r. case r of
            None \<Rightarrow> Inl (Failed (js ''The selected variant is unavailable.''))
          | Some x \<Rightarrow> Inr (x, False))
      | None \<Rightarrow>
          if v_sourceId v = js ''link'' then resolve_link rt net env v
          else Inl (Failed (js ''Select an available source.'')))"

text \<open>\<open>{...resolved, ...found}\<close>\<close>

definition merge_resolved :: "resolved \<Rightarrow> resolved \<Rightarrow> resolved" where
  "merge_resolved a b = \<lparr>rs_kind = rs_kind b, rs_resolver = opt_or (rs_resolver b) (rs_resolver a), rs_url = opt_or (rs_url b) (rs_url a),
     rs_torrentData = opt_or (rs_torrentData b) (rs_torrentData a), rs_headers = opt_or (rs_headers b) (rs_headers a),
     rs_audioUrl = opt_or (rs_audioUrl b) (rs_audioUrl a), rs_audioTrack = opt_or (rs_audioTrack b) (rs_audioTrack a),
     rs_proxyUrl = opt_or (rs_proxyUrl b) (rs_proxyUrl a), rs_subtitles = opt_or (rs_subtitles b) (rs_subtitles a),
     rs_selection = opt_or (rs_selection b) (rs_selection a), rs_title = opt_or (rs_title b) (rs_title a),
     rs_translation = opt_or (rs_translation b) (rs_translation a), rs_quality = opt_or (rs_quality b) (rs_quality a)\<rparr>"

definition referrer_of :: "runtime \<Rightarrow> resolved \<Rightarrow> jstring option" where
  "referrer_of rt r = map_option snd (find (\<lambda>(name, _). rt_lower rt name = js ''referer'') (list_or (rs_headers r)))"

definition check_public :: "runtime \<Rightarrow> network \<Rightarrow> jstring option \<Rightarrow> (error, unit) result" where
  "check_public rt net s = (if truthy s then bind_r (publicUrl rt net (or_empty s)) (\<lambda>_. Inr ()) else Inr ())"

definition through_browser :: "runtime \<Rightarrow> network \<Rightarrow> media_env \<Rightarrow> resolved \<Rightarrow> (error, resolved) result" where
  "through_browser rt net env r =
     (if rs_resolver r \<noteq> Some Browser then Inr r
      else if \<not> truthy (rs_url r) then Inl (Failed (js ''The source did not supply a player address.''))
      else bind_r (check_public rt net (rs_url r)) (\<lambda>_.
           bind_r (check_public rt net (referrer_of rt r)) (\<lambda>_.
           bind_r (md_browser env (or_empty (rs_url r)) (rs_selection r)
               (if rs_kind r \<in> {File, Torrent} then rs_kind r else Video) (referrer_of rt r)) (\<lambda>found.
             Inr (merge_resolved r found)))))"

text \<open>
  The result of yt-dlp replaces the fields that it has, and those that it leaves undefined
  too; only the fields that it does not mention stay.
\<close>

definition with_extracted :: "resolved \<Rightarrow> resolved \<Rightarrow> jstring \<Rightarrow> resolved" where
  "with_extracted r x proxyUrl = r\<lparr>rs_kind := rs_kind x, rs_resolver := rs_resolver x, rs_url := rs_url x,
     rs_audioUrl := rs_audioUrl x, rs_title := rs_title x, rs_headers := rs_headers x, rs_proxyUrl := Some proxyUrl\<rparr>"

definition is_magnet :: "jstring option \<Rightarrow> bool" where
  "is_magnet s \<longleftrightarrow> (case s of None \<Rightarrow> False | Some t \<Rightarrow> starts_with t (js ''magnet:''))"

definition base64 :: "nat list \<Rightarrow> jstring" where
  "base64 bytes = map base64_char (b64_encode bytes) @ (if length bytes mod 3 = 0 then [] else if length bytes mod 3 = 1 then [61, 61] else [61])"

definition maxTorrentBytes :: nat where
  "maxTorrentBytes = 8 * 1024 * 1024"

definition fetch_torrent :: "media_env \<Rightarrow> resolved \<Rightarrow> (error, resolved) result" where
  "fetch_torrent env r =
     bind_r (md_fetch env (or_empty (rs_url r)) (list_or (rs_headers r))) (\<lambda>(status, data).
       if \<not> (200 \<le> status \<and> status \<le> 299)
       then Inl (Failed (js ''The torrent source returned HTTP '' @ to_dec status @ js ''.''))
       else if length data > maxTorrentBytes \<or> data = [] \<or> hd data \<noteq> 100 \<or> last data \<noteq> 101
       then Inl (Failed (js ''The source did not return valid torrent metadata.''))
       else Inr ((empty_resolved Torrent)\<lparr>rs_title := rs_title r, rs_torrentData := Some (base64 data)\<rparr>))"

definition finish_resolved :: "runtime \<Rightarrow> network \<Rightarrow> media_env \<Rightarrow> variant \<Rightarrow> resolved \<Rightarrow> (error, resolved) result" where
  "finish_resolved rt net env v r =
     bind_r (if is_magnet (rs_url r) then Inr () else check_public rt net (rs_url r)) (\<lambda>_.
     bind_r (check_public rt net (rs_audioUrl r)) (\<lambda>_.
     bind_r (map_r (\<lambda>(_, s, _). publicUrl rt net s) (list_or (rs_subtitles r))) (\<lambda>_.
       if rs_kind r = Torrent \<and> \<not> truthy (rs_torrentData r) \<and> truthy (rs_url r) \<and> \<not> is_magnet (rs_url r)
       then fetch_torrent env r
       else bind_r (if rs_kind r \<in> {File, Video} \<and> truthy (rs_url r)
             then bind_r (md_acquisition env (v_sourceId v) (or_empty (rs_url r)) (list_or (rs_headers r)))
               (\<lambda>hs. Inr (r\<lparr>rs_headers := Some hs\<rparr>)) else Inr r) (\<lambda>r'.
         Inr (if rs_kind r' = Video then r'\<lparr>rs_proxyUrl := Some (md_proxy env)\<rparr> else r')))))"

definition resolveContent :: "runtime \<Rightarrow> network \<Rightarrow> media_env \<Rightarrow> variant \<Rightarrow> (error, resolved) result" where
  "resolveContent rt net env v =
     bind_r (resolve_first rt net env v) (\<lambda>(first, final).
       if final then Inr first
       else bind_r (through_browser rt net env first) (\<lambda>r.
         if rs_resolver r = Some YtDlp
         then (if \<not> truthy (rs_url r) then Inl (Failed (js ''The source did not supply a video address.''))
               else bind_r (extractMedia rt net (md_ytdlp env) (md_proxy env) (or_empty (rs_url r)) (list_or (rs_headers r)))
                 (\<lambda>x. Inr (with_extracted r x (md_proxy env))))
         else finish_resolved rt net env v r))"

section \<open>Sessions stay with their origin\<close>

lemma add_media_headers_ok:
  "add_media_headers rt hs a = Inr b \<Longrightarrow>
    (\<forall>(n, v) \<in> set hs. is_header_name n \<and> \<not> has_break v \<and> rt_lower rt n \<noteq> js ''authorization'')
    \<and> (ma_cookies b = ma_cookies a \<or> (\<exists>(n, v) \<in> set hs. rt_lower rt n = js ''cookie'' \<and> ma_cookies b = Some v))"
proof (induction hs arbitrary: a)
  case (Cons h hs)
  obtain n v where h: "h = (n, v)" by fastforce
  with Cons.prems obtain a' where a': "add_media_header rt n v a = Inr a'" "add_media_headers rt hs a' = Inr b"
    by (auto simp: bind_r_Inr)
  from a'(1) have "is_header_name n" "\<not> has_break v" "rt_lower rt n \<noteq> js ''authorization''"
    "ma_cookies a' = ma_cookies a \<or> rt_lower rt n = js ''cookie'' \<and> ma_cookies a' = Some v"
    by (auto simp: add_media_header_def split: if_splits)
  with Cons.IH[OF a'(2)] h show ?case by auto
qed simp

lemma media_headers_session:
  assumes "(name, value) \<in> set (media_headers rt source a m video target)" and "is_session_header rt name"
  shows "name = js ''Cookie'' \<and> ma_cookies a = Some value \<and> url_origin target = url_origin source"
proof -
  let ?hs = "filter (\<lambda>(name, _). \<not> is_session_header rt name)
      (merge_headers (merge_headers (ma_headers a) (ef_headers (em_format m))) (ef_headers video))"
  have clean: "(name, value) \<notin> set ?hs" using assms(2) by auto
  from assms(1) clean show ?thesis
    by (cases "ma_cookies a")
      (auto simp: media_headers_def Let_def simp del: js_simps split: if_splits dest!: jm_set_member)
qed

lemma extractMedia_Inr:
  assumes "extractMedia rt net ytdlp proxyUrl url headers = Inr r"
  obtains source a m video target where "publicUrl rt net url = Inr source"
    "add_media_headers rt headers \<lparr>ma_args = fixed_args proxyUrl, ma_cookies = None, ma_headers = []\<rparr> = Inr a"
    "publicUrl rt net (or_empty (rs_url r)) = Inr target" "truthy (rs_url r)"
    "rs_headers r = Some (media_headers rt source a m video target)"
    "rs_kind r = Video" "truthy (rs_audioUrl r) \<longrightarrow> (\<exists>p. publicUrl rt net (or_empty (rs_audioUrl r)) = Inr p)"
proof -
  obtain source where 1: "publicUrl rt net url = Inr source"
    using assms by (auto simp: extractMedia_def bind_r_Inr)
  obtain a where 2: "add_media_headers rt headers \<lparr>ma_args = fixed_args proxyUrl, ma_cookies = None, ma_headers = []\<rparr> = Inr a"
    using assms 1 by (auto simp: extractMedia_def bind_r_Inr)
  obtain jar m where 3: "(if truthy (ma_cookies a) then bind_r (cookie_file source (or_empty (ma_cookies a))) (\<lambda>f. Inr (Some f)) else Inr None) = Inr jar"
      "ytdlp (ma_args a @ [js ''--'', url]) jar = Inr m"
    using assms 1 2 by (auto simp only: extractMedia_def bind_r_Inr sum.inject)
  obtain video where 4: "video_format (formats_of m) = Some video" "truthy (ef_url video)"
    using assms unfolding extractMedia_def 1 2 bind_r_simps 3 by (auto split: option.splits if_splits)
  obtain target where 5: "publicUrl rt net (or_empty (ef_url video)) = Inr target"
    using assms unfolding extractMedia_def 1 2 bind_r_simps 3 by (auto simp: 4 Let_def bind_r_Inr)
  show thesis
    using assms unfolding extractMedia_def 1 2 bind_r_simps 3
    by (intro that[OF 1 2, of target m video]) (auto simp: 4 5 Let_def empty_resolved_def bind_r_Inr split: if_splits)
qed

text \<open>
  C27: yt-dlp is never given an authorization header, and a stream it finds gets the source's
  cookies only when it is on the source's own origin, and no other cookie or authorization
  header at all.
\<close>

theorem media_session_confined:
  assumes "extractMedia rt net ytdlp proxyUrl url headers = Inr r"
  shows "(\<forall>(n, v) \<in> set headers. rt_lower rt n \<noteq> js ''authorization'')
     \<and> (\<exists>source target. publicUrl rt net url = Inr source \<and> publicUrl rt net (or_empty (rs_url r)) = Inr target
          \<and> (\<forall>(n, v) \<in> set (list_or (rs_headers r)). is_session_header rt n \<longrightarrow>
               n = js ''Cookie'' \<and> url_origin target = url_origin source
             \<and> (\<exists>k. (k, v) \<in> set headers \<and> rt_lower rt k = js ''cookie'')))"
proof -
  obtain source a m video target where x: "publicUrl rt net url = Inr source"
    "add_media_headers rt headers \<lparr>ma_args = fixed_args proxyUrl, ma_cookies = None, ma_headers = []\<rparr> = Inr a"
    "publicUrl rt net (or_empty (rs_url r)) = Inr target" "rs_headers r = Some (media_headers rt source a m video target)"
    using extractMedia_Inr[OF assms] by metis
  note ok = add_media_headers_ok[OF x(2)]
  have "n = js ''Cookie'' \<and> url_origin target = url_origin source \<and> (\<exists>k. (k, v) \<in> set headers \<and> rt_lower rt k = js ''cookie'')"
    if "(n, v) \<in> set (list_or (rs_headers r))" "is_session_header rt n" for n v
  proof -
    from that x(4) have "(n, v) \<in> set (media_headers rt source a m video target)" by (simp add: list_or_def)
    from media_headers_session[OF this that(2)] ok show ?thesis by auto
  qed
  with ok x show ?thesis by (fastforce simp del: js_simps)
qed

section \<open>Only public addresses\<close>

definition public_or_empty :: "runtime \<Rightarrow> network \<Rightarrow> jstring option \<Rightarrow> bool" where
  "public_or_empty rt net s \<longleftrightarrow> (truthy s \<longrightarrow> (\<exists>p. publicUrl rt net (or_empty s) = Inr p))"

lemma check_public_ok [simp]: "check_public rt net s = Inr () \<longleftrightarrow> public_or_empty rt net s"
  by (auto simp: check_public_def public_or_empty_def bind_r_Inr)

lemma empty_resolved_simps [simp]:
  "rs_url (empty_resolved k) = None" "rs_audioUrl (empty_resolved k) = None" "public_or_empty rt net None"
  "rs_subtitles (empty_resolved k) = None"
  by (simp_all add: empty_resolved_def public_or_empty_def)

lemma resolve_first_final:
  assumes "resolve_first rt net env v = Inr (r, True)"
  shows "(is_magnet (rs_url r) \<or> public_or_empty rt net (rs_url r)) \<and> rs_audioUrl r = None \<and> rs_subtitles r = None"
  using assms
  by (auto simp: resolve_first_def resolve_link_def bind_r_Inr Let_def public_or_empty_def is_magnet_def
      split: option.splits if_splits)

lemma map_r_public:
  "map_r (\<lambda>(_, s, _). publicUrl rt net s) subs = Inr ps \<Longrightarrow> (t, s, l) \<in> set subs \<Longrightarrow> \<exists>p. publicUrl rt net s = Inr p"
  by (induction subs arbitrary: ps) (auto simp: bind_r_Inr)

lemma finish_resolved_public:
  assumes "finish_resolved rt net env v r = Inr r'"
  shows "(is_magnet (rs_url r') \<or> public_or_empty rt net (rs_url r')) \<and> public_or_empty rt net (rs_audioUrl r')
     \<and> (\<forall>(t, s, l) \<in> set (list_or (rs_subtitles r')). \<exists>p. publicUrl rt net s = Inr p)"
proof -
  from assms have c: "is_magnet (rs_url r) \<or> public_or_empty rt net (rs_url r)" "public_or_empty rt net (rs_audioUrl r)"
    by (auto simp: finish_resolved_def bind_r_Inr split: if_splits)
  from assms obtain ps where "map_r (\<lambda>(_, s, _). publicUrl rt net s) (list_or (rs_subtitles r)) = Inr ps"
    by (auto simp: finish_resolved_def bind_r_Inr)
  then have s: "\<forall>(t, s, l) \<in> set (list_or (rs_subtitles r)). \<exists>p. publicUrl rt net s = Inr p"
    by (auto dest: map_r_public[of rt net])
  show ?thesis
  proof (cases "rs_kind r = Torrent \<and> \<not> truthy (rs_torrentData r) \<and> truthy (rs_url r) \<and> \<not> is_magnet (rs_url r)")
    case True
    with assms have "fetch_torrent env r = Inr r'" unfolding finish_resolved_def by (auto simp: bind_r_Inr)
    then show ?thesis by (auto simp: fetch_torrent_def bind_r_Inr list_or_def simp del: js_simps split: if_splits)
  next
    case False
    with assms obtain r2 where r2: "(if rs_kind r \<in> {File, Video} \<and> truthy (rs_url r)
             then bind_r (md_acquisition env (v_sourceId v) (or_empty (rs_url r)) (list_or (rs_headers r)))
               (\<lambda>hs. Inr (r\<lparr>rs_headers := Some hs\<rparr>)) else Inr r) = Inr r2"
        "r' = (if rs_kind r2 = Video then r2\<lparr>rs_proxyUrl := Some (md_proxy env)\<rparr> else r2)"
      unfolding finish_resolved_def bind_r_Inr if_not_P[OF False] by auto
    have same: "rs_url r2 = rs_url r \<and> rs_audioUrl r2 = rs_audioUrl r \<and> rs_subtitles r2 = rs_subtitles r"
    proof (cases "rs_kind r \<in> {File, Video} \<and> truthy (rs_url r)")
      case True
      with r2(1) obtain hs where "r2 = r\<lparr>rs_headers := Some hs\<rparr>" by (auto simp: bind_r_Inr)
      then show ?thesis by simp
    qed (use r2(1) in auto)
    then have "rs_url r' = rs_url r" "rs_audioUrl r' = rs_audioUrl r" "rs_subtitles r' = rs_subtitles r"
      unfolding r2(2) by simp_all
    with c s show ?thesis by simp
  qed
qed

text \<open>
  Whatever providers, the browser and yt-dlp answer, a resolved variant's address is a magnet
  link or was found public, and so was its audio address.
\<close>

theorem resolved_public:
  assumes "resolveContent rt net env v = Inr r"
  shows "(is_magnet (rs_url r) \<or> public_or_empty rt net (rs_url r)) \<and> public_or_empty rt net (rs_audioUrl r)"
proof -
  obtain first final where f: "resolve_first rt net env v = Inr (first, final)"
    using assms by (auto simp: resolveContent_def bind_r_Inr)
  show ?thesis
  proof (cases final)
    case True
    with f assms resolve_first_final[of rt net env v first] show ?thesis by (auto simp: resolveContent_def)
  next
    case False
    then obtain m where m: "through_browser rt net env first = Inr m"
      using f assms by (auto simp: resolveContent_def bind_r_Inr)
    show ?thesis
    proof (cases "rs_resolver m = Some YtDlp")
      case True
      then obtain x where x: "extractMedia rt net (md_ytdlp env) (md_proxy env) (or_empty (rs_url m)) (list_or (rs_headers m)) = Inr x"
          "r = with_extracted m x (md_proxy env)"
        using f False m assms by (auto simp: resolveContent_def bind_r_Inr split: if_splits)
      from extractMedia_Inr[OF x(1)] obtain target where t: "publicUrl rt net (or_empty (rs_url x)) = Inr target"
          "truthy (rs_audioUrl x) \<longrightarrow> (\<exists>p. publicUrl rt net (or_empty (rs_audioUrl x)) = Inr p)"
        by metis
      then have "public_or_empty rt net (rs_url x)" "public_or_empty rt net (rs_audioUrl x)" by (auto simp: public_or_empty_def)
      then show ?thesis by (simp add: x(2) with_extracted_def)
    next
      case no: False
      then have "finish_resolved rt net env v m = Inr r" using f False m assms by (simp add: resolveContent_def)
      from finish_resolved_public[OF this] show ?thesis by blast
    qed
  qed
qed

section \<open>Witnesses\<close>

definition sample_extracted :: extracted_media where
  "sample_extracted = \<lparr>em_format = \<lparr>ef_url = Some (js ''https://a/v''), ef_vcodec = None, ef_acodec = None,
       ef_headers = Some [(js ''Authorization'', js ''x'')]\<rparr>, em_title = None, em_formats = None, em_downloads = None\<rparr>"

definition sample_media_env :: "resolved \<Rightarrow> media_env" where
  "sample_media_env r = \<lparr>md_provider = (\<lambda>_. Some (Some (\<lambda>_. Inr (Some r)))), md_browser = (\<lambda>_ _ _ _. Inl Aborted),
     md_ytdlp = (\<lambda>_ _. Inr sample_extracted), md_stored = (\<lambda>_. Inr None), md_fetch = (\<lambda>_ _. Inl Aborted),
     md_acquisition = (\<lambda>_ _ hs. Inr hs), md_proxy = js ''http://p''\<rparr>"

definition sample_stream :: variant where
  "sample_stream = new_variant (js ''1'') (js ''s'') (js ''S'') (js ''T'') (js ''https://a/x'') Video"

theorem media_session_confined_witness:
  "\<exists>r. extractMedia sample_runtime sample_network (\<lambda>_ _. Inr sample_extracted) (js ''http://p'') (js ''https://a/x'')
      [(js ''cookie'', js ''k=v'')] = Inr r \<and> list_or (rs_headers r) = [(js ''Cookie'', js ''k=v'')]"
proof -
  let ?e = "extractMedia sample_runtime sample_network (\<lambda>_ _. Inr sample_extracted) (js ''http://p'') (js ''https://a/x'')
      [(js ''cookie'', js ''k=v'')]"
  have "case ?e of Inr r \<Rightarrow> map fst (list_or (rs_headers r)) = [js ''Cookie''] | Inl _ \<Rightarrow> False" by code_simp
  then obtain r where r: "?e = Inr r" "map fst (list_or (rs_headers r)) = [js ''Cookie'']" by (auto split: sum.splits)
  then obtain v where v: "list_or (rs_headers r) = [(js ''Cookie'', v)]" by auto
  have "is_session_header sample_runtime (js ''Cookie'')" by code_simp
  with media_session_confined[OF r(1)] v have "(\<exists>k. (k, v) \<in> set [(js ''cookie'', js ''k=v'')])" by auto
  with r(1) v show ?thesis by auto
qed

theorem resolved_public_witness:
  "\<exists>r. resolveContent sample_runtime sample_network
        (sample_media_env ((empty_resolved Video)\<lparr>rs_url := Some (js ''https://a/p''), rs_resolver := Some YtDlp\<rparr>)) sample_stream = Inr r
     \<and> rs_url r = Some (js ''https://a/v'') \<and> (is_magnet (rs_url r) \<or> public_or_empty sample_runtime sample_network (rs_url r))"
proof -
  let ?c = "resolveContent sample_runtime sample_network
      (sample_media_env ((empty_resolved Video)\<lparr>rs_url := Some (js ''https://a/p''), rs_resolver := Some YtDlp\<rparr>)) sample_stream"
  have "case ?c of Inr r \<Rightarrow> rs_url r = Some (js ''https://a/v'') | Inl _ \<Rightarrow> False" by code_simp
  then obtain r where r: "?c = Inr r" "rs_url r = Some (js ''https://a/v'')" by (auto split: sum.splits)
  from resolved_public[OF r(1)] have "is_magnet (rs_url r) \<or> public_or_empty sample_runtime sample_network (rs_url r)" by (elim conjE)
  with r show ?thesis by (intro exI[of _ r] conjI)
qed

text \<open>
  The subtitles of a variant that goes through yt-dlp are passed on without the check of
  their addresses that every other variant's subtitles get: here a local address is returned.
\<close>

theorem ytdlp_subtitles_unchecked:
  "\<exists>r. resolveContent sample_runtime sample_network
        (sample_media_env ((empty_resolved Video)\<lparr>rs_url := Some (js ''https://a/p''), rs_resolver := Some YtDlp,
           rs_subtitles := Some [(js ''en'', js ''http://127.0.0.1/x'', None)]\<rparr>)) sample_stream = Inr r
     \<and> rs_subtitles r = Some [(js ''en'', js ''http://127.0.0.1/x'', None)]
     \<and> publicUrl sample_runtime sample_network (js ''http://127.0.0.1/x'') =
         Inl (Failed (js ''Sources cannot access local network addresses.''))
     \<and> (\<exists>e. resolveContent sample_runtime sample_network
        (sample_media_env ((empty_resolved Video)\<lparr>rs_url := Some (js ''https://a/p''), rs_resolver := Some Direct,
           rs_subtitles := Some [(js ''en'', js ''http://127.0.0.1/x'', None)]\<rparr>)) sample_stream = Inl e)"
proof -
  let ?y = "resolveContent sample_runtime sample_network
        (sample_media_env ((empty_resolved Video)\<lparr>rs_url := Some (js ''https://a/p''), rs_resolver := Some YtDlp,
           rs_subtitles := Some [(js ''en'', js ''http://127.0.0.1/x'', None)]\<rparr>)) sample_stream"
  let ?d = "resolveContent sample_runtime sample_network
        (sample_media_env ((empty_resolved Video)\<lparr>rs_url := Some (js ''https://a/p''), rs_resolver := Some Direct,
           rs_subtitles := Some [(js ''en'', js ''http://127.0.0.1/x'', None)]\<rparr>)) sample_stream"
  have "case ?y of Inr r \<Rightarrow> rs_subtitles r = Some [(js ''en'', js ''http://127.0.0.1/x'', None)] | Inl _ \<Rightarrow> False" by code_simp
  then obtain r where "?y = Inr r" "rs_subtitles r = Some [(js ''en'', js ''http://127.0.0.1/x'', None)]" by (auto split: sum.splits)
  moreover have "case ?d of Inr _ \<Rightarrow> False | Inl _ \<Rightarrow> True" by code_simp
  then obtain e where "?d = Inl e" by (auto split: sum.splits)
  moreover have "publicUrl sample_runtime sample_network (js ''http://127.0.0.1/x'') =
      Inl (Failed (js ''Sources cannot access local network addresses.''))" by code_simp
  ultimately show ?thesis by blast
qed

end
