(* ===== verification/Sessions.thy ===== *)
theory Sessions
  imports WebView Settings Results
begin

text \<open>
  The source sessions of \<open>catalog.ts\<close>: the cookie jar of a source, the cookies it takes from
  the browser, the clearances that a web view check earned for an origin, and the headers that
  a download gets. The cookie jar of tough-cookie is the record \<open>jar_ops\<close>, a jar is a value
  of type \<open>'j\<close>, so \<open>clone\<close> is the identity. Times are milliseconds; a definition that reads
  the clock several times takes its readings as a function of their order.
\<close>

lemma map_sum_Inr: "map_sum (\<lambda>e. e) g r = Inr b \<longleftrightarrow> (\<exists>a. r = Inr a \<and> b = g a)"
  by (cases r) auto

section \<open>State\<close>

record jar_cookie =
  jc_key :: jstring
  jc_value :: jstring
  jc_domain :: jstring
  jc_path :: jstring
  jc_hostOnly :: bool
  jc_maxAge :: bool
  jc_secure :: bool
  jc_httpOnly :: bool
  jc_expires :: "rat option"

type_synonym cookie_place = "jstring \<times> jstring \<times> jstring"

record 'j jar_ops =
  jo_new :: 'j
  jo_set :: "jstring \<Rightarrow> jstring \<Rightarrow> 'j \<Rightarrow> cookie_place option \<times> 'j"
  jo_remove :: "cookie_place \<Rightarrow> 'j \<Rightarrow> 'j"
  jo_cookies :: "jstring \<Rightarrow> 'j \<Rightarrow> jar_cookie list"
  jo_header :: "jstring \<Rightarrow> 'j \<Rightarrow> jstring"
  jo_parse :: "jstring \<Rightarrow> (jstring \<times> jstring) option"
  jo_utc :: "rat \<Rightarrow> jstring"

record 'j source_clearance =
  sc_jar :: 'j
  sc_userAgent :: jstring
  sc_configuredCookieHash :: jstring
  sc_expiresAt :: rat

record 'j source_session =
  sn_jar :: 'j
  sn_browserCookies :: "cookie_place list"
  sn_clearances :: "(origin, 'j source_clearance) jmap"

type_synonym inspection_index = "jstring \<times> jstring \<times> jstring \<times> jstring option \<times> jstring option
  \<times> jstring option \<times> jstring option \<times> jstring option \<times> jstring option"

record 'j catalog =
  ct_settings :: source_settings
  ct_sessions :: "(jstring, 'j source_session) jmap"
  ct_inspections :: "(inspection_index, work \<times> rat) jmap"
  ct_results :: "search_results option"

record 'j session_env =
  se_runtime :: runtime
  se_vault :: vault
  se_jar :: "'j jar_ops"
  se_sources :: "source list"

definition new_session :: "'j jar_ops \<Rightarrow> 'j source_session" where
  "new_session ops = \<lparr>sn_jar = jo_new ops, sn_browserCookies = [], sn_clearances = []\<rparr>"

definition source_by_id :: "'j session_env \<Rightarrow> jstring \<Rightarrow> source option" where
  "source_by_id env i = find (\<lambda>s. src_id s = i) (se_sources env)"

definition invalid_url :: "error" where
  "invalid_url = Failed (js ''Invalid URL'')"

definition parse_url :: "runtime \<Rightarrow> jstring \<Rightarrow> (error, url) result" where
  "parse_url rt s = (case rt_url rt s of None \<Rightarrow> Inl invalid_url | Some u \<Rightarrow> Inr u)"

section \<open>Values\<close>

text \<open>The defaults of the source's settings under the saved values.\<close>

definition setting_text :: "setting_value \<Rightarrow> jstring" where
  "setting_text v = (case v of SText t \<Rightarrow> t | SBool b \<Rightarrow> if b then js ''true'' else js ''false'')"

definition context_values :: "source option \<Rightarrow> setting_values \<Rightarrow> setting_values" where
  "context_values src saved =
     merge_values (jm_of (concat (map (\<lambda>s. case s_value s of None \<Rightarrow> [] | Some v \<Rightarrow> [(s_name s, setting_text v)])
       (case src of None \<Rightarrow> [] | Some s \<Rightarrow> list_or (src_settings s))))) saved"

definition base_url :: "setting_values \<Rightarrow> source \<Rightarrow> jstring" where
  "base_url vals src = (let own = jm_get vals (js ''baseUrl'') in if truthy own then or_empty own else src_url src)"

definition cookie_value :: "setting_values \<Rightarrow> jstring option" where
  "cookie_value vals = jm_get vals (js ''cookie'')"

text \<open>The configured cookie for an origin: it belongs to the origin of the source.\<close>

definition configured_cookie :: "runtime \<Rightarrow> setting_values \<Rightarrow> source option \<Rightarrow> origin \<Rightarrow> (error, jstring option) result" where
  "configured_cookie rt vals src origin =
     (case src of
        None \<Rightarrow> Inr None
      | Some s \<Rightarrow> bind_r (parse_url rt (base_url vals s)) (\<lambda>u.
          Inr (if origin = url_origin u then cookie_value vals else None)))"

section \<open>Cookies of the browser\<close>

record browser_cookie =
  bk_name :: jstring
  bk_value :: jstring
  bk_domain :: jstring
  bk_path :: jstring
  bk_hostOnly :: bool
  bk_secure :: bool
  bk_httpOnly :: bool
  bk_sameSite :: "jstring option"
  bk_expirationDate :: "rat option"

definition same_site :: "jstring option \<Rightarrow> jstring" where
  "same_site s = (if s = Some (js ''no_restriction'') then js ''None''
     else if s = Some (js ''lax'') \<or> s = Some (js ''strict'') then or_empty s else [])"

definition browser_cookie_text :: "(rat \<Rightarrow> jstring) \<Rightarrow> browser_cookie \<Rightarrow> jstring" where
  "browser_cookie_text utc c =
     bk_name c @ js ''='' @ bk_value c @ (if bk_hostOnly c then [] else js ''; Domain='' @ bk_domain c)
     @ js ''; Path='' @ bk_path c @ (if bk_secure c then js ''; Secure'' else [])
     @ (if bk_httpOnly c then js ''; HttpOnly'' else [])
     @ (if same_site (bk_sameSite c) \<noteq> [] then js ''; SameSite='' @ same_site (bk_sameSite c) else [])
     @ (if truthy_num (bk_expirationDate c) then js ''; Expires='' @ utc (num_or_zero (bk_expirationDate c) * 1000) else [])"

definition take_browser_cookie :: "'j jar_ops \<Rightarrow> jstring \<Rightarrow> browser_cookie \<Rightarrow> 'j source_session \<Rightarrow> 'j source_session" where
  "take_browser_cookie ops address c s =
     (case jo_set ops (browser_cookie_text (jo_utc ops) c) address (sn_jar s) of
        (stored, jar) \<Rightarrow> s\<lparr>sn_jar := jar, sn_browserCookies := sn_browserCookies s
          @ (case stored of None \<Rightarrow> [] | Some spot \<Rightarrow> [spot])\<rparr>)"

definition refresh_session :: "'j jar_ops \<Rightarrow> jstring \<Rightarrow> browser_cookie list \<Rightarrow> 'j source_session \<Rightarrow> 'j source_session" where
  "refresh_session ops address cookies s =
     fold (take_browser_cookie ops address) cookies
       (s\<lparr>sn_jar := fold (jo_remove ops) (sn_browserCookies s) (sn_jar s), sn_browserCookies := []\<rparr>)"

section \<open>context\<close>

text \<open>
  What one context gets from outside: whether the operation is aborted when its refresh runs,
  the browser's cookies and its user agent.
\<close>

record visit =
  vt_aborted :: "error option"
  vt_cookies :: "jstring \<Rightarrow> (error, browser_cookie list) result"
  vt_agent :: "(error, jstring option) result"

record source_context =
  cx_settings :: setting_values
  cx_cookie :: "(origin \<times> jstring) option"
  cx_agent :: "jstring option"

definition put_session :: "jstring \<Rightarrow> 'j source_session \<Rightarrow> 'j catalog \<Rightarrow> 'j catalog" where
  "put_session i s ct = ct\<lparr>ct_sessions := jm_set i s (ct_sessions ct)\<rparr>"

definition session_or_new :: "'j jar_ops \<Rightarrow> jstring \<Rightarrow> 'j catalog \<Rightarrow> 'j source_session" where
  "session_or_new ops i ct = (case jm_get (ct_sessions ct) i of None \<Rightarrow> new_session ops | Some s \<Rightarrow> s)"

text \<open>The cookies of a refresh: none when the configured cookie serves the address.\<close>

definition refresh_cookies :: "runtime \<Rightarrow> setting_values \<Rightarrow> source \<Rightarrow> jstring \<Rightarrow> visit \<Rightarrow> (error, browser_cookie list) result" where
  "refresh_cookies rt vals src address visit =
     bind_r (if \<not> truthy (cookie_value vals) then Inr False
       else bind_r (parse_url rt address) (\<lambda>u. bind_r (parse_url rt (base_url vals src)) (\<lambda>b.
         Inr (url_origin u = url_origin b)))) (\<lambda>configured.
       case vt_aborted visit of
         Some e \<Rightarrow> Inl e
       | None \<Rightarrow> if configured then Inr [] else vt_cookies visit address)"

definition own_cookie :: "runtime \<Rightarrow> setting_values \<Rightarrow> source option \<Rightarrow> (error, (origin \<times> jstring) option) result" where
  "own_cookie rt vals src =
     (case src of
        None \<Rightarrow> Inr None
      | Some s \<Rightarrow> if truthy (cookie_value vals)
          then bind_r (parse_url rt (base_url vals s)) (\<lambda>b. Inr (Some (url_origin b, or_empty (cookie_value vals))))
          else Inr None)"

definition source_context_of :: "'j session_env \<Rightarrow> jstring \<Rightarrow> jstring option \<Rightarrow> visit \<Rightarrow> 'j catalog
    \<Rightarrow> (error, source_context) result \<times> 'j catalog" where
  "source_context_of env i publication visit ct =
     (let rt = se_runtime env; ops = se_jar env; src = source_by_id env i in
      case source_values (se_vault env) i (ct_settings ct) of
        Inl e \<Rightarrow> (Inl e, ct)
      | Inr (saved, ss) \<Rightarrow>
          (let vals = context_values src saved;
               s = session_or_new ops i ct;
               ct' = put_session i s (ct\<lparr>ct_settings := ss\<rparr>);
               finish = (\<lambda>ct. (bind_r (own_cookie rt vals src) (\<lambda>own. bind_r (vt_agent visit) (\<lambda>agent.
                 Inr \<lparr>cx_settings = vals, cx_cookie = own, cx_agent = agent\<rparr>)), ct))
           in case src of
                None \<Rightarrow> finish ct'
              | Some source \<Rightarrow>
                  (let address = (if truthy publication then or_empty publication else base_url vals source)
                   in case refresh_cookies rt vals source address visit of
                        Inl e \<Rightarrow> (Inl e, ct')
                      | Inr cookies \<Rightarrow> finish (put_session i (refresh_session ops address cookies s) ct'))))"

section \<open>Clearances\<close>

definition cookie_hash :: "runtime \<Rightarrow> jstring option \<Rightarrow> jstring" where
  "cookie_hash rt cookie = rt_sha256 rt (or_empty cookie)"

definition clearance_of :: "runtime \<Rightarrow> rat \<Rightarrow> origin \<Rightarrow> jstring option \<Rightarrow> 'j source_session
    \<Rightarrow> 'j source_clearance option \<times> 'j source_session" where
  "clearance_of rt now origin cookie s =
     (case jm_get (sn_clearances s) origin of
        None \<Rightarrow> (None, s)
      | Some c \<Rightarrow>
          if sc_expiresAt c \<le> now \<or> sc_configuredCookieHash c \<noteq> cookie_hash rt cookie
          then (None, s\<lparr>sn_clearances := jm_delete origin (sn_clearances s)\<rparr>)
          else (Some c, s))"

text \<open>Which session serves a URL of a fetch: the clearance of its origin or the session's jar.\<close>

definition url_session :: "runtime \<Rightarrow> rat \<Rightarrow> setting_values \<Rightarrow> source option \<Rightarrow> 'j source_session \<Rightarrow> url
    \<Rightarrow> (error, 'j \<times> jstring option) result" where
  "url_session rt now vals src s u =
     bind_r (configured_cookie rt vals src (url_origin u)) (\<lambda>cookie.
       case fst (clearance_of rt now (url_origin u) cookie s) of
         Some c \<Rightarrow> Inr (sc_jar c, Some (sc_userAgent c))
       | None \<Rightarrow> Inr (sn_jar s, None))"

text \<open>
  A new clearance. It starts from the jar of the old one, of which the cookies of the site's
  root with a maximal age are retained and the others are dropped; the cookies of the check
  come on top unless they are retained or already expired.
\<close>

definition retain_cookie :: "'j jar_ops \<Rightarrow> jstring \<Rightarrow> jar_cookie \<Rightarrow> jstring list \<times> 'j \<Rightarrow> jstring list \<times> 'j" where
  "retain_cookie ops host c acc =
     (let (retained, jar) = acc in
      if \<not> jc_hostOnly c \<or> jc_domain c \<noteq> host \<or> jc_path c \<noteq> js ''/'' then acc
      else if jc_maxAge c then (retained @ [jc_key c], jar)
      else (retained, jo_remove ops (jc_domain c, jc_path c, jc_key c) jar))"

definition web_cookie_text :: "(rat \<Rightarrow> jstring) \<Rightarrow> web_cookie \<Rightarrow> jstring" where
  "web_cookie_text utc c =
     wc_name c @ js ''='' @ wc_value c @ js ''; Path='' @ wc_path c
     @ (if wc_hostOnly c then [] else js ''; Domain='' @ wc_domain c)
     @ (if wc_secure c then js ''; Secure'' else []) @ (if wc_httpOnly c then js ''; HttpOnly'' else [])
     @ (case wc_expires c of None \<Rightarrow> [] | Some e \<Rightarrow> js ''; Expires='' @ utc (e * 1000))"

definition is_retained :: "jstring \<Rightarrow> jstring list \<Rightarrow> web_cookie \<Rightarrow> bool" where
  "is_retained host retained c \<longleftrightarrow>
     wc_hostOnly c \<and> wc_domain c = host \<and> wc_path c = js ''/'' \<and> wc_name c \<in> set retained"

definition is_expired :: "rat \<Rightarrow> web_cookie \<Rightarrow> bool" where
  "is_expired now c \<longleftrightarrow> (case wc_expires c of None \<Rightarrow> False | Some e \<Rightarrow> e * 1000 \<le> now)"

definition take_web_cookie :: "'j jar_ops \<Rightarrow> jstring \<Rightarrow> jstring \<Rightarrow> jstring list \<Rightarrow> rat \<times> web_cookie \<Rightarrow> 'j \<times> rat \<Rightarrow> 'j \<times> rat" where
  "take_web_cookie ops host address retained rc acc =
     (case rc of (now, c) \<Rightarrow>
       if is_retained host retained c \<or> is_expired now c then acc
       else (case jo_set ops (web_cookie_text (jo_utc ops) c) address (fst acc) of
           (stored, jar) \<Rightarrow> (jar, if stored \<noteq> None \<and> wc_expires c \<noteq> None
             then min (snd acc) (num_or_zero (wc_expires c) * 1000) else snd acc)))"

definition clearance_time :: rat where
  "clearance_time = 30 * 60000"

definition new_clearance :: "runtime \<Rightarrow> 'j jar_ops \<Rightarrow> (nat \<Rightarrow> rat) \<Rightarrow> jstring \<Rightarrow> jstring \<Rightarrow> web_session \<Rightarrow> jstring option
    \<Rightarrow> 'j source_clearance option \<Rightarrow> 'j source_clearance" where
  "new_clearance rt ops clock address host result cookie previous =
     (let jar = (case previous of None \<Rightarrow> jo_new ops | Some p \<Rightarrow> sc_jar p);
          (retained, kept) = fold (retain_cookie ops host) (jo_cookies ops address jar) ([], jar);
          (jar', expires) = fold (take_web_cookie ops host address retained)
            (map (\<lambda>(n, c). (clock n, c)) (enumerate 2 (ws_cookies result))) (kept, clock 1 + clearance_time)
      in \<lparr>sc_jar = jar', sc_userAgent = ws_userAgent result, sc_configuredCookieHash = cookie_hash rt cookie,
          sc_expiresAt = expires\<rparr>)"

definition apply_clearance :: "runtime \<Rightarrow> 'j jar_ops \<Rightarrow> (nat \<Rightarrow> rat) \<Rightarrow> jstring \<Rightarrow> url \<Rightarrow> web_session \<Rightarrow> jstring option
    \<Rightarrow> 'j source_session \<Rightarrow> 'j source_session" where
  "apply_clearance rt ops clock address u result cookie s =
     (let (previous, s') = clearance_of rt (clock 0) (url_origin u) cookie s in
      s'\<lparr>sn_clearances := jm_set (url_origin u)
           (new_clearance rt ops clock address (u_hostname u) result cookie previous) (sn_clearances s')\<rparr>)"

section \<open>acquisitionHeaders\<close>

definition is_cookie_or_agent :: "jstring \<Rightarrow> bool" where
  "is_cookie_or_agent n \<longleftrightarrow> map ascii_lower n \<in> {js ''cookie'', js ''user-agent''}"

definition session_headers :: "runtime \<Rightarrow> 'j jar_ops \<Rightarrow> rat \<Rightarrow> jstring \<Rightarrow> origin \<Rightarrow> jstring option \<Rightarrow> header_map
    \<Rightarrow> 'j source_session \<Rightarrow> header_map \<times> 'j source_session" where
  "session_headers rt ops now address target own headers s =
     (case clearance_of rt now target own s of
        (Some c, s') \<Rightarrow>
          (let text = jo_header ops address (sc_jar c);
               scoped = filter (\<lambda>(n, _). \<not> is_cookie_or_agent n) headers
           in (jm_set (js ''User-Agent'') (sc_userAgent c)
                (if text \<noteq> [] then jm_set (js ''Cookie'') text scoped else scoped), s'))
      | (None, s') \<Rightarrow>
          (let text = (if truthy own then or_empty own else jo_header ops address (sn_jar s'))
           in (if text \<noteq> [] then jm_set (js ''Cookie'') text headers else headers, s')))"

definition source_origin :: "'j session_env \<Rightarrow> jstring \<Rightarrow> setting_values \<Rightarrow> (error, origin option) result" where
  "source_origin env i vals =
     (case source_by_id env i of
        None \<Rightarrow> Inr None
      | Some s \<Rightarrow> bind_r (parse_url (se_runtime env) (base_url vals s)) (\<lambda>b. Inr (Some (url_origin b))))"

definition acquisition_headers :: "'j session_env \<Rightarrow> rat \<Rightarrow> jstring \<Rightarrow> jstring \<Rightarrow> header_map \<Rightarrow> 'j catalog
    \<Rightarrow> (error, header_map \<times> 'j catalog) result" where
  "acquisition_headers env now i address headers ct =
     bind_r (source_values (se_vault env) i (ct_settings ct)) (\<lambda>(vals, ss).
     bind_r (source_origin env i vals) (\<lambda>origin.
     bind_r (parse_url (se_runtime env) address) (\<lambda>u.
       let ct' = ct\<lparr>ct_settings := ss\<rparr>;
           own = (if origin = Some (url_origin u) then cookie_value vals else None)
       in Inr (case jm_get (ct_sessions ct') i of
           None \<Rightarrow> (if truthy own then jm_set (js ''Cookie'') (or_empty own) headers else headers, ct')
         | Some s \<Rightarrow>
             (case session_headers (se_runtime env) (se_jar env) now address (url_origin u) own headers s of
                (hs, s') \<Rightarrow> (hs, put_session i s' ct'))))))"

section \<open>The fetch of a context\<close>

text \<open>
  \<open>fetch\<close> of a context: the session of a URL is the clearance of its origin or the jar. The
  session is chosen at the reading \<open>now\<close> of the clock; what a response sets goes to the jar
  that served the request. A base address that is no URL has no clearance here; the source's
  callback raises \<open>Invalid URL\<close> for it.
\<close>

definition served_jar :: "runtime \<Rightarrow> rat \<Rightarrow> setting_values \<Rightarrow> source option \<Rightarrow> url \<Rightarrow> 'j source_session \<Rightarrow> 'j \<times> jstring option" where
  "served_jar rt now vals src u s =
     (case url_session rt now vals src s u of Inl _ \<Rightarrow> (sn_jar s, None) | Inr r \<Rightarrow> r)"

definition store_cookie :: "runtime \<Rightarrow> 'j jar_ops \<Rightarrow> rat \<Rightarrow> setting_values \<Rightarrow> source option \<Rightarrow> url \<Rightarrow> jstring
    \<Rightarrow> 'j source_session \<Rightarrow> 'j source_session" where
  "store_cookie rt ops now vals src u text s =
     (let (jar, agent) = served_jar rt now vals src u s;
          jar' = snd (jo_set ops text (rt_href rt u) jar)
      in if agent = None then s\<lparr>sn_jar := jar'\<rparr>
         else s\<lparr>sn_clearances := map (\<lambda>(o', c). (o', if o' = url_origin u then c\<lparr>sc_jar := jar'\<rparr> else c)) (sn_clearances s)\<rparr>)"

definition session_transport :: "'j session_env \<Rightarrow> unit transport_env \<Rightarrow> rat \<Rightarrow> setting_values \<Rightarrow> source option
    \<Rightarrow> 'j source_session \<Rightarrow> 'j source_session transport_env" where
  "session_transport env base now vals src s =
     (let rt = se_runtime env; ops = se_jar env in
      \<lparr>te_network = te_network base, te_connect = te_connect base, te_inflate = te_inflate base,
       te_agent = (\<lambda>u. snd (served_jar rt now vals src u s)),
       te_jar_cookie = (\<lambda>u s. jo_header ops (rt_href rt u) (fst (served_jar rt now vals src u s))),
       te_jar_store = store_cookie rt ops now vals src\<rparr>)"

definition context_fetch :: "'j session_env \<Rightarrow> unit transport_env \<Rightarrow> rat \<Rightarrow> jstring \<Rightarrow> source_context \<Rightarrow> 'j source_session
    \<Rightarrow> jstring \<Rightarrow> jstring option \<Rightarrow> nat list option \<Rightarrow> header_map
    \<Rightarrow> net_request list \<times> 'j source_session \<times> (error, net_response) result" where
  "context_fetch env base now i cx s =
     sourceFetch (se_runtime env) (session_transport env base now (cx_settings cx) (source_by_id env i) s)
       (cx_cookie cx) (cx_agent cx) s"

section \<open>Facts\<close>

lemma configured_cookie_own:
  "configured_cookie rt vals src origin = Inr c \<Longrightarrow> c \<noteq> None \<Longrightarrow>
     \<exists>s b. src = Some s \<and> rt_url rt (base_url vals s) = Some b \<and> url_origin b = origin \<and> c = cookie_value vals"
  by (auto simp: configured_cookie_def bind_r_Inr parse_url_def split: option.splits if_splits)

lemma own_cookie_own:
  "own_cookie rt vals src = Inr (Some (origin, c)) \<Longrightarrow>
     \<exists>s b. src = Some s \<and> rt_url rt (base_url vals s) = Some b \<and> url_origin b = origin \<and> Some c = cookie_value vals"
  by (auto simp: own_cookie_def bind_r_Inr parse_url_def or_empty_def truthy_def split: option.splits if_splits)

lemma clearance_of_Some:
  "clearance_of rt now origin cookie s = (Some c, s') \<longleftrightarrow>
     s' = s \<and> jm_get (sn_clearances s) origin = Some c \<and> now < sc_expiresAt c
     \<and> sc_configuredCookieHash c = cookie_hash rt cookie"
  by (auto simp: clearance_of_def not_le split: option.splits if_splits)

lemma clearance_of_None:
  "clearance_of rt now origin cookie s = (None, s') \<Longrightarrow>
     sn_jar s' = sn_jar s \<and> jm_get (sn_clearances s') origin' \<in> {None, jm_get (sn_clearances s) origin'}"
  by (auto simp: clearance_of_def split: option.splits if_splits)

lemma clearance_of_other:
  "origin' \<noteq> origin \<Longrightarrow> jm_get (sn_clearances (snd (clearance_of rt now origin cookie s))) origin' =
     jm_get (sn_clearances s) origin'"
  by (auto simp: clearance_of_def split: option.splits)

lemma take_web_cookie_time: "snd (take_web_cookie ops host address retained rc acc) \<le> snd acc"
  by (auto simp: take_web_cookie_def split: prod.splits)

lemma fold_web_cookies_time: "snd (fold (take_web_cookie ops host address retained) rcs acc) \<le> snd acc"
proof (induction rcs arbitrary: acc)
  case (Cons rc rcs)
  then show ?case using take_web_cookie_time[of ops host address retained rc acc]
    by (metis fold_simps(2) order_trans)
qed simp

text \<open>The cookies of a check that reach the new jar, each with the reading of the clock it met.\<close>

definition taken_cookies :: "jstring \<Rightarrow> jstring list \<Rightarrow> (rat \<times> web_cookie) list \<Rightarrow> web_cookie list" where
  "taken_cookies host retained rcs = map snd (filter (\<lambda>(now, c). \<not> is_retained host retained c \<and> \<not> is_expired now c) rcs)"

lemma fold_web_cookies_jar:
  "fst (fold (take_web_cookie ops host address retained) rcs acc) =
     fold (\<lambda>c jar. snd (jo_set ops (web_cookie_text (jo_utc ops) c) address jar)) (taken_cookies host retained rcs) (fst acc)"
proof (induction rcs arbitrary: acc)
  case (Cons rc rcs)
  show ?case unfolding fold_simps(2) Cons.IH
    by (cases rc) (auto simp: taken_cookies_def take_web_cookie_def split: prod.splits)
qed (simp add: taken_cookies_def)

definition kept_names :: "'j jar_ops \<Rightarrow> jstring \<Rightarrow> jar_cookie list \<Rightarrow> jstring list" where
  "kept_names ops host cookies =
     map jc_key (filter (\<lambda>c. jc_hostOnly c \<and> jc_domain c = host \<and> jc_path c = js ''/'' \<and> jc_maxAge c) cookies)"

lemma fold_retain_names:
  "fst (fold (retain_cookie ops host) cookies (names, jar)) = names @ kept_names ops host cookies"
proof (induction cookies arbitrary: names jar)
  case (Cons c cookies)
  then show ?case by (simp add: kept_names_def retain_cookie_def del: js_simps)
qed (simp add: kept_names_def)

lemma applied_clearance:
  "\<exists>c. jm_get (sn_clearances (apply_clearance rt ops clock address u result cookie s)) (url_origin u) = Some c
     \<and> sc_userAgent c = ws_userAgent result \<and> sc_expiresAt c \<le> clock 1 + 30 * 60000"
proof -
  obtain previous s1 where c1: "clearance_of rt (clock 0) (url_origin u) cookie s = (previous, s1)"
    by (cases "clearance_of rt (clock 0) (url_origin u) cookie s")
  let ?c = "new_clearance rt ops clock address (u_hostname u) result cookie previous"
  have "sc_expiresAt ?c \<le> clock 1 + clearance_time"
    using fold_web_cookies_time
    by (fastforce simp: new_clearance_def Let_def split: prod.split dest: arg_cong[of _ _ snd])
  then show ?thesis
    by (simp add: apply_clearance_def c1 clearance_time_def) (simp add: new_clearance_def Let_def split: prod.split)
qed

text \<open>
  A cleared check is used exactly while it lasts. The new clearance of an origin serves it until
  the clearance ends, at most 30 minutes later, and only with the configured cookie it was made
  with; other origins keep theirs. Its jar takes the cookies of the check except those that have
  expired and those the site already holds with a maximal age.
\<close>

theorem clearance_lifetime:
  assumes "s' = apply_clearance rt ops clock address u result cookie s"
    and "previous = fst (clearance_of rt (clock 0) (url_origin u) cookie s)"
  shows "\<exists>c. jm_get (sn_clearances s') (url_origin u) = Some c
     \<and> sc_expiresAt c \<le> clock 1 + 30 * 60000 \<and> sc_userAgent c = ws_userAgent result
     \<and> (\<forall>now cookie'. fst (clearance_of rt now (url_origin u) cookie' s') =
          (if now < sc_expiresAt c \<and> cookie_hash rt cookie' = cookie_hash rt cookie then Some c else None))
     \<and> (\<forall>origin. origin \<noteq> url_origin u \<longrightarrow> jm_get (sn_clearances s') origin = jm_get (sn_clearances s) origin)
     \<and> (\<exists>jar. sc_jar c = fold (\<lambda>w jar. snd (jo_set ops (web_cookie_text (jo_utc ops) w) address jar))
          (taken_cookies (u_hostname u)
            (kept_names ops (u_hostname u) (jo_cookies ops address (case previous of None \<Rightarrow> jo_new ops | Some p \<Rightarrow> sc_jar p)))
            (map (\<lambda>(n, w). (clock n, w)) (enumerate 2 (ws_cookies result)))) jar)"
proof -
  obtain s1 where c1: "clearance_of rt (clock 0) (url_origin u) cookie s = (previous, s1)"
    using assms(2) by (cases "clearance_of rt (clock 0) (url_origin u) cookie s") simp
  define c where "c = new_clearance rt ops clock address (u_hostname u) result cookie previous"
  have s': "s' = s1\<lparr>sn_clearances := jm_set (url_origin u) c (sn_clearances s1)\<rparr>"
    using assms(1) c1 by (simp add: apply_clearance_def c_def)
  define jar where "jar = (case previous of None \<Rightarrow> jo_new ops | Some p \<Rightarrow> sc_jar p)"
  obtain names kept where r: "fold (retain_cookie ops (u_hostname u)) (jo_cookies ops address jar) ([], jar) = (names, kept)"
    by (cases "fold (retain_cookie ops (u_hostname u)) (jo_cookies ops address jar) ([], jar)")
  have names: "names = kept_names ops (u_hostname u) (jo_cookies ops address jar)"
    using fold_retain_names[of ops "u_hostname u" "jo_cookies ops address jar" "[]" jar] r by simp
  let ?rcs = "map (\<lambda>(n, w). (clock n, w)) (enumerate 2 (ws_cookies result))"
  obtain jar' expires where f: "fold (take_web_cookie ops (u_hostname u) address names) ?rcs (kept, clock 1 + clearance_time) = (jar', expires)"
    by (cases "fold (take_web_cookie ops (u_hostname u) address names) ?rcs (kept, clock 1 + clearance_time)")
  have c: "c = \<lparr>sc_jar = jar', sc_userAgent = ws_userAgent result, sc_configuredCookieHash = cookie_hash rt cookie,
      sc_expiresAt = expires\<rparr>"
    using r f by (simp add: c_def new_clearance_def Let_def jar_def[symmetric])
  have "expires \<le> clock 1 + 30 * 60000"
    using fold_web_cookies_time[of ops "u_hostname u" address names ?rcs "(kept, clock 1 + clearance_time)"] f
    by (simp add: clearance_time_def)
  moreover have "jar' = fold (\<lambda>w jar. snd (jo_set ops (web_cookie_text (jo_utc ops) w) address jar))
      (taken_cookies (u_hostname u) names ?rcs) kept"
    using fold_web_cookies_jar[of ops "u_hostname u" address names ?rcs "(kept, clock 1 + clearance_time)"] f by simp
  moreover have "\<forall>origin. origin \<noteq> url_origin u \<longrightarrow> jm_get (sn_clearances s') origin = jm_get (sn_clearances s) origin"
    using clearance_of_other[of _ "url_origin u" rt "clock 0" cookie s] c1 by (auto simp: s')
  moreover have "fst (clearance_of rt now (url_origin u) cookie' s') =
      (if now < expires \<and> cookie_hash rt cookie' = cookie_hash rt cookie then Some c else None)" for now cookie'
    by (auto simp: s' clearance_of_def c not_less not_le)
  ultimately show ?thesis
    by (intro exI[of _ c]) (auto simp: s' c names jar_def)
qed

lemma session_headers_member:
  assumes "(n, v) \<in> set (fst (session_headers rt ops now address target own headers s))" and "is_cookie_or_agent n"
  shows "(\<exists>c. fst (clearance_of rt now target own s) = Some c
        \<and> (n = js ''User-Agent'' \<and> v = sc_userAgent c \<or> n = js ''Cookie'' \<and> v = jo_header ops address (sc_jar c)))
     \<or> (n, v) \<in> set headers
     \<or> n = js ''Cookie'' \<and> (v = jo_header ops address (sn_jar s) \<or> truthy own \<and> v = or_empty own)"
proof (cases "clearance_of rt now target own s")
  case (Pair c s')
  show ?thesis
  proof (cases c)
    case None
    then have "sn_jar s' = sn_jar s" using clearance_of_None Pair by blast
    then show ?thesis using assms(1) Pair None
      by (auto simp: session_headers_def Let_def split: if_splits simp del: js_simps dest!: jm_set_member)
  next
    case (Some c')
    then show ?thesis using assms Pair
      by (auto simp: session_headers_def Let_def split: if_splits simp del: js_simps dest!: jm_set_member)
  qed
qed

text \<open>
  The headers of a download carry a credential only where it belongs. Under a clearance of the
  address's origin the cookie is that of its jar, the user agent that of its check, and no other
  cookie or user agent of the caller is left. Without one a new cookie is the configured one of
  the source's own origin, or comes from the session's jar for the address.
\<close>

theorem acquisition_scoped:
  assumes "acquisition_headers env now i address headers ct = Inr (hs, ct')"
    and "(n, v) \<in> set hs" and "is_cookie_or_agent n"
  shows "(\<exists>u s c own. rt_url (se_runtime env) address = Some u \<and> jm_get (ct_sessions ct) i = Some s
        \<and> fst (clearance_of (se_runtime env) now (url_origin u) own s) = Some c
        \<and> (n = js ''User-Agent'' \<and> v = sc_userAgent c \<or> n = js ''Cookie'' \<and> v = jo_header (se_jar env) address (sc_jar c)))
     \<or> (n, v) \<in> set headers
     \<or> n = js ''Cookie'' \<and> (\<exists>s. jm_get (ct_sessions ct) i = Some s \<and> v = jo_header (se_jar env) address (sn_jar s))
     \<or> n = js ''Cookie'' \<and> (\<exists>u vals ss. rt_url (se_runtime env) address = Some u
        \<and> source_values (se_vault env) i (ct_settings ct) = Inr (vals, ss)
        \<and> source_origin env i vals = Inr (Some (url_origin u)) \<and> cookie_value vals = Some v)"
proof -
  from assms(1) obtain vals ss origin u where
    1: "source_values (se_vault env) i (ct_settings ct) = Inr (vals, ss)" "source_origin env i vals = Inr origin"
      "rt_url (se_runtime env) address = Some u"
    by (auto simp: acquisition_headers_def bind_r_Inr parse_url_def split: option.splits)
  define own where "own = (if origin = Some (url_origin u) then cookie_value vals else None)"
  have own: "origin = Some (url_origin u) \<and> cookie_value vals = Some (or_empty own)" if "truthy own"
    using that by (auto simp: own_def split: if_splits option.splits) (cases "cookie_value vals", simp_all)
  show ?thesis
  proof (cases "jm_get (ct_sessions ct) i")
    case None
    then have "hs = (if truthy own then jm_set (js ''Cookie'') (or_empty own) headers else headers)"
      using assms(1) 1 by (auto simp: acquisition_headers_def parse_url_def Let_def own_def simp del: js_simps)
    with assms(2) have "(n, v) \<in> set headers \<or> truthy own \<and> n = js ''Cookie'' \<and> v = or_empty own"
      using jm_set_member[of "(n, v)"] by (auto split: if_splits)
    then show ?thesis using own 1 by blast
  next
    case (Some s)
    then have hs: "hs = fst (session_headers (se_runtime env) (se_jar env) now address (url_origin u) own headers s)"
      using assms(1) 1 by (auto simp: acquisition_headers_def parse_url_def Let_def own_def simp del: js_simps split: prod.splits)
    show ?thesis
      using session_headers_member[OF assms(2)[unfolded hs] assms(3)] Some own 1 by blast
  qed
qed

text \<open>
  A refresh forgets what the browser forgot. When removing a cookie from the jar removes it and
  setting one adds at most the cookie it reports, then after a refresh the jar holds no cookie
  that came from the browser before, unless the browser still has it, and nothing else is new.
\<close>

lemma take_browser_cookies_held:
  assumes set: "\<And>t a j. held (snd (jo_set ops t a j)) \<subseteq> held j \<union> set_option (fst (jo_set ops t a j))"
  shows "held (sn_jar (fold (take_browser_cookie ops address) cookies s)) \<subseteq>
    held (sn_jar s) \<union> set (sn_browserCookies (fold (take_browser_cookie ops address) cookies s))
    \<and> set (sn_browserCookies s) \<subseteq> set (sn_browserCookies (fold (take_browser_cookie ops address) cookies s))"
proof (induction cookies arbitrary: s)
  case (Cons c cookies)
  let ?s = "take_browser_cookie ops address c s"
  have "held (sn_jar ?s) \<subseteq> held (sn_jar s) \<union> set (sn_browserCookies ?s)" "set (sn_browserCookies s) \<subseteq> set (sn_browserCookies ?s)"
    using set[of "browser_cookie_text (jo_utc ops) c" address "sn_jar s"]
    by (auto simp: take_browser_cookie_def split: prod.split option.split)
  with Cons.IH[of ?s] show ?case by (simp only: fold_simps(2)) blast
qed simp

lemma fold_remove_held:
  assumes "\<And>p j. held (jo_remove ops p j) = held j - {p}"
  shows "held (fold (jo_remove ops) ps j) = held j - set ps"
  by (induction ps arbitrary: j) (auto simp: assms)

theorem browser_signout:
  assumes "\<And>p j. held (jo_remove ops p j) = held j - {p}"
    and "\<And>t a j. held (snd (jo_set ops t a j)) \<subseteq> held j \<union> set_option (fst (jo_set ops t a j))"
  shows "held (sn_jar (refresh_session ops address cookies s)) \<subseteq>
    held (sn_jar s) - set (sn_browserCookies s) \<union> set (sn_browserCookies (refresh_session ops address cookies s))"
proof -
  let ?s = "s\<lparr>sn_jar := fold (jo_remove ops) (sn_browserCookies s) (sn_jar s), sn_browserCookies := []\<rparr>"
  have "held (sn_jar ?s) = held (sn_jar s) - set (sn_browserCookies s)"
    by (simp add: fold_remove_held[OF assms(1)])
  with take_browser_cookies_held[of held ops address cookies ?s, OF assms(2)] show ?thesis
    unfolding refresh_session_def by blast
qed

lemma source_context_Inr:
  assumes "source_context_of env i publication visit ct = (Inr cx, ct')"
  shows "own_cookie (se_runtime env) (cx_settings cx) (source_by_id env i) = Inr (cx_cookie cx)"
  using assms by (auto simp: source_context_of_def Let_def bind_r_Inr split: sum.splits option.splits)


section \<open>Witnesses\<close>

text \<open>A jar that keeps the text before the first \<open>;\<close> of each cookie under its name, at one place per name.\<close>

definition sample_jar :: "(cookie_place \<times> jstring) list jar_ops" where
  "sample_jar = \<lparr>jo_new = [], jo_set = (\<lambda>text address jar.
       let pair = fst (split_at 59 text); spot = (address, js ''/'', fst (split_at 61 pair)) in (Some spot, jm_set spot pair jar)),
     jo_remove = jm_delete, jo_cookies = (\<lambda>address jar. []),
     jo_header = (\<lambda>address jar. join (js ''; '') (map snd (filter (\<lambda>((d, _), _). d = address) jar))),
     jo_parse = (\<lambda>text. if includes_str text (js ''='') then Some (split_at 61 text) else None), jo_utc = (\<lambda>_. js ''later'')\<rparr>"

definition sample_session_env :: "(cookie_place \<times> jstring) list session_env" where
  "sample_session_env = \<lparr>se_runtime = sample_runtime, se_vault = sample_vault, se_jar = sample_jar, se_sources = [sample_source]\<rparr>"

definition sample_web_session :: web_session where
  "sample_web_session = \<lparr>ws_url = js ''https://a/'', ws_userAgent = js ''UA'', ws_cookies =
     [\<lparr>wc_name = js ''k'', wc_value = js ''v'', wc_domain = js ''a'', wc_path = js ''/'', wc_expires = Some 100,
       wc_secure = True, wc_httpOnly = True, wc_hostOnly = True\<rparr>]\<rparr>"

definition sample_cleared :: "(cookie_place \<times> jstring) list source_session" where
  "sample_cleared = apply_clearance sample_runtime sample_jar (\<lambda>_. 0) (js ''https://a/'') (the (sample_url (js ''https://a/'')))
     sample_web_session None (new_session sample_jar)"

theorem clearance_lifetime_witness:
  "\<exists>c. jm_get (sn_clearances sample_cleared) (url_origin (the (sample_url (js ''https://a/'')))) = Some c
     \<and> sc_expiresAt c \<le> 30 * 60000"
  using clearance_lifetime[OF sample_cleared_def refl] by fastforce

definition sample_catalog :: "(cookie_place \<times> jstring) list catalog" where
  "sample_catalog = \<lparr>ct_settings = sample_settings, ct_sessions = [(js ''s'', sample_cleared)], ct_inspections = [],
     ct_results = None\<rparr>"

theorem acquisition_scoped_witness:
  "\<exists>hs ct'. acquisition_headers sample_session_env 5 (js ''s'') (js ''https://a/'') [(js ''cookie'', js ''mine'')] sample_catalog = Inr (hs, ct')
     \<and> (js ''Cookie'', js ''k=v'') \<in> set hs
     \<and> (\<exists>u s c own. rt_url sample_runtime (js ''https://a/'') = Some u \<and> jm_get (ct_sessions sample_catalog) (js ''s'') = Some s
        \<and> fst (clearance_of sample_runtime 5 (url_origin u) own s) = Some c
        \<and> js ''k=v'' = jo_header sample_jar (js ''https://a/'') (sc_jar c))"
proof -
  let ?a = "acquisition_headers sample_session_env 5 (js ''s'') (js ''https://a/'') [(js ''cookie'', js ''mine'')] sample_catalog"
  have "case ?a of Inl _ \<Rightarrow> False | Inr (hs, ct') \<Rightarrow> (js ''Cookie'', js ''k=v'') \<in> set hs" by code_simp
  then obtain hs ct' where a: "?a = Inr (hs, ct')" "(js ''Cookie'', js ''k=v'') \<in> set hs"
    by (auto split: sum.splits prod.splits simp del: js_simps)
  have "is_cookie_or_agent (js ''Cookie'')" "jo_header sample_jar (js ''https://a/'') [] \<noteq> js ''k=v''" by code_simp+
  moreover have "jo_header sample_jar (js ''https://a/'') (sn_jar sample_cleared) \<noteq> js ''k=v''" by code_simp
  moreover have "cookie_value [] \<noteq> Some (js ''k=v'')" by code_simp
  moreover have "source_values sample_vault (js ''s'') sample_settings = Inr ([], cache_values (js ''s'') [] sample_settings)"
    by code_simp
  moreover have "jm_get (ct_sessions sample_catalog) (js ''s'') = Some sample_cleared" "ct_settings sample_catalog = sample_settings"
    by (simp_all add: sample_catalog_def jm_get_def del: js_simps)
  moreover have "se_runtime sample_session_env = sample_runtime" "se_vault sample_session_env = sample_vault"
    "se_jar sample_session_env = sample_jar" by (simp_all add: sample_session_env_def)
  moreover have "(js ''Cookie'', js ''k=v'') \<notin> set [(js ''cookie'', js ''mine'')]" "js ''Cookie'' \<noteq> js ''User-Agent''" by code_simp+
  ultimately show ?thesis using acquisition_scoped[OF a] a
    by (intro exI[of _ hs] exI[of _ ct'] conjI) (simp_all del: js_simps, metis)
qed

theorem browser_signout_witness:
  "fst ` set (sn_jar (refresh_session sample_jar (js ''https://a/'') []
      \<lparr>sn_jar = [((js ''d'', js ''/'', js ''k''), js ''k=v''), ((js ''e'', js ''/'', js ''m''), js ''m=w'')],
       sn_browserCookies = [(js ''d'', js ''/'', js ''k'')], sn_clearances = []\<rparr>)) \<subseteq> {(js ''e'', js ''/'', js ''m'')}"
proof -
  let ?s = "\<lparr>sn_jar = [((js ''d'', js ''/'', js ''k''), js ''k=v''), ((js ''e'', js ''/'', js ''m''), js ''m=w'')],
       sn_browserCookies = [(js ''d'', js ''/'', js ''k'')], sn_clearances = []\<rparr>"
  have r: "fst ` set (jo_remove sample_jar p j) = fst ` set j - {p}" for p j
    by (auto simp: sample_jar_def jm_delete_pairs image_iff)
  have s: "fst ` set (snd (jo_set sample_jar t a j)) \<subseteq> fst ` set j \<union> set_option (fst (jo_set sample_jar t a j))" for t a j
    using jm_set_member[of _ "(a, js ''/'', fst (split_at 61 (fst (split_at 59 t))))" "fst (split_at 59 t)" j]
    by (fastforce simp: sample_jar_def Let_def simp del: js_simps)
  have "sn_browserCookies (refresh_session sample_jar (js ''https://a/'') [] ?s) = []" by (simp add: refresh_session_def)
  with browser_signout[where held = "\<lambda>j. fst ` set j", OF r s, of "js ''https://a/''" "[]" ?s] show ?thesis
    by (simp del: js_simps) blast
qed

definition sample_visit :: visit where
  "sample_visit = \<lparr>vt_aborted = None, vt_cookies = (\<lambda>_. Inr []), vt_agent = Inr None\<rparr>"


end
