(* ===== verification/Catalog.thy ===== *)
theory Catalog
  imports Sessions
begin

text \<open>
  The operations of \<open>catalog.ts\<close> on a source: running one in the source's session with one
  browser check in between, recording the health of the source, the retry of a failed check and
  the cache of inspections. What a provider does is a parameter: an operation takes its context
  and the catalog, which it may change by nested calls, and returns the errors it reported, its
  result and the catalog. What happens outside during an operation is a record of answers.
\<close>

section \<open>Providers\<close>

type_synonym ('j, 'a) op = "source_context \<Rightarrow> 'j catalog \<Rightarrow> (error, 'a) result \<times> 'j catalog"

type_synonym ('j, 'a) reporting = "source_context \<Rightarrow> 'j catalog \<Rightarrow> (error list \<times> (error, 'a) result) \<times> 'j catalog"

record 'j provider =
  pv_source :: source
  pv_search :: "search_request \<Rightarrow> ('j, work list) reporting"
  pv_inspect :: "(variant \<Rightarrow> ('j, work) reporting) option"

record 'j catalog_env =
  ce_runtime :: runtime
  ce_vault :: vault
  ce_jar :: "'j jar_ops"
  ce_providers :: "'j provider list"
  ce_keys :: check_env

definition sessions_env :: "'j catalog_env \<Rightarrow> 'j session_env" where
  "sessions_env env = \<lparr>se_runtime = ce_runtime env, se_vault = ce_vault env, se_jar = ce_jar env,
     se_sources = map pv_source (ce_providers env)\<rparr>"

definition provider_by_id :: "'j catalog_env \<Rightarrow> jstring \<Rightarrow> 'j provider option" where
  "provider_by_id env i = find (\<lambda>p. src_id (pv_source p) = i) (ce_providers env)"

section \<open>withSourceSession\<close>

text \<open>
  What happens outside: the two contexts, whether the operation is aborted after the failure and
  after the check, the web view check, the clock.
\<close>

record outside =
  ou_first :: visit
  ou_failed :: "error option"
  ou_check :: "jstring \<Rightarrow> web_cookie list \<Rightarrow> web_check \<Rightarrow> (error, web_session) result"
  ou_checked :: "error option"
  ou_second :: visit
  ou_clock :: "nat \<Rightarrow> rat"
  ou_finished :: "error option"
  ou_time :: jstring

definition run_in_context :: "'j session_env \<Rightarrow> jstring \<Rightarrow> jstring option \<Rightarrow> visit \<Rightarrow> ('j, 'a) op \<Rightarrow> 'j catalog
    \<Rightarrow> (error, 'a) result \<times> 'j catalog" where
  "run_in_context env i url visit f ct =
     (case source_context_of env i url visit ct of
        (Inl e, ct') \<Rightarrow> (Inl e, ct')
      | (Inr cx, ct') \<Rightarrow> f cx ct')"

definition session_invalid :: "jstring \<Rightarrow> error" where
  "session_invalid url = Content (js ''source_session_invalid'') (js ''The configured source session is invalid.'') (Some url)"

text \<open>\<open>/;\s*/\<close>\<close>

definition cookie_separator_rx :: rx where
  "cookie_separator_rx = RSeq (RLit (js '';'')) RSpaces"

definition initial_cookies :: "'j jar_ops \<Rightarrow> jstring \<Rightarrow> url \<Rightarrow> jstring option \<Rightarrow> (error, web_cookie list) result" where
  "initial_cookies ops challenge u cookie =
     map_r (\<lambda>text. case jo_parse ops text of
         None \<Rightarrow> Inl (session_invalid challenge)
       | Some (key, val) \<Rightarrow> Inr \<lparr>wc_name = key, wc_value = val, wc_domain = u_hostname u, wc_path = js ''/'',
           wc_expires = None, wc_secure = (u_protocol u = js ''https:''), wc_httpOnly = True, wc_hostOnly = True\<rparr>)
       (filter (\<lambda>t. t \<noteq> []) (rx_split cookie_separator_rx (or_empty cookie)))"

definition seed_cookie :: "jstring \<Rightarrow> jar_cookie \<Rightarrow> web_cookie list \<times> cookie_identity list \<Rightarrow> web_cookie list \<times> cookie_identity list" where
  "seed_cookie host c acc =
     (if \<not> jc_hostOnly c \<or> jc_domain c \<noteq> host \<or> jc_path c \<noteq> js ''/'' then acc
      else if jc_maxAge c
      then (fst acc, snd acc @ [\<lparr>ci_name = jc_key c, ci_domain = jc_domain c, ci_path = jc_path c, ci_hostOnly = True\<rparr>])
      else (fst acc @ [\<lparr>wc_name = jc_key c, wc_value = jc_value c, wc_domain = jc_domain c, wc_path = jc_path c,
          wc_expires = map_option (\<lambda>e. e / 1000) (jc_expires c), wc_secure = jc_secure c, wc_httpOnly = jc_httpOnly c,
          wc_hostOnly = True\<rparr>], snd acc))"

text \<open>What the check of a challenge starts from; reading an expired clearance drops it.\<close>

definition prepare_check :: "'j session_env \<Rightarrow> check_env \<Rightarrow> rat \<Rightarrow> jstring \<Rightarrow> jstring \<Rightarrow> 'j catalog
    \<Rightarrow> (error, url \<times> jstring option \<times> web_cookie list \<times> web_check) result \<times> 'j catalog" where
  "prepare_check env keys now i challenge ct =
     (let rt = se_runtime env; ops = se_jar env in
      case parse_url rt challenge of
        Inl e \<Rightarrow> (Inl e, ct)
      | Inr u \<Rightarrow>
          (case source_values (se_vault env) i (ct_settings ct) of
             Inl e \<Rightarrow> (Inl e, ct)
           | Inr (vals, ss) \<Rightarrow>
               (let ct' = ct\<lparr>ct_settings := ss\<rparr> in
                case bind_r (configured_cookie rt vals (source_by_id env i) (url_origin u))
                    (\<lambda>cookie. map_sum (\<lambda>e. e) (\<lambda>cs. (cookie, cs)) (initial_cookies ops challenge u cookie)) of
                  Inl e \<Rightarrow> (Inl e, ct')
                | Inr (cookie, initial) \<Rightarrow>
                    (let (active, ct'') = (case jm_get (ct_sessions ct') i of
                           None \<Rightarrow> (None, ct')
                         | Some s \<Rightarrow> (case clearance_of rt now (url_origin u) cookie s of (a, s') \<Rightarrow> (a, put_session i s' ct')))
                     in if \<not> distinct (map wc_name initial) then (Inl (session_invalid challenge), ct'')
                        else (let (seeds, retained) = fold (seed_cookie (u_hostname u))
                                (case active of None \<Rightarrow> [] | Some c \<Rightarrow> jo_cookies ops challenge (sc_jar c))
                                (if active = None then initial else [], [])
                              in (Inr (u, cookie, seeds, \<lparr>wk_configuredSession = Some (ke_cookies keys initial),
                                   wk_authoritative = (active \<noteq> None), wk_retained = Some retained\<rparr>), ct''))))))"

definition missing_session :: "error" where
  "missing_session = Failed (js ''undefined is not an object'')"

definition browser_check_required :: jstring where
  "browser_check_required = js ''browser_check_required''"

text \<open>The check and the second run, once the first one failed for it.\<close>

definition check_and_run :: "'j session_env \<Rightarrow> check_env \<Rightarrow> outside \<Rightarrow> jstring \<Rightarrow> jstring option \<Rightarrow> jstring \<Rightarrow> ('j, 'a) op
    \<Rightarrow> 'j catalog \<Rightarrow> (error, 'a) result \<times> 'j catalog" where
  "check_and_run env keys out i url challenge f ct =
     (case prepare_check env keys (ou_clock out 0) i challenge ct of
        (Inl e, ct') \<Rightarrow> (Inl e, ct')
      | (Inr (u, cookie, seeds, check), ct') \<Rightarrow>
          (case ou_check out challenge seeds check of
             Inl e \<Rightarrow> (Inl e, ct')
           | Inr session \<Rightarrow>
               (case ou_checked out of
                  Some e \<Rightarrow> (Inl e, ct')
                | None \<Rightarrow>
                    (case jm_get (ct_sessions ct') i of
                       None \<Rightarrow> (Inl missing_session, ct')
                     | Some s \<Rightarrow>
                         run_in_context env i (if truthy url then url else Some challenge) (ou_second out) f
                           (put_session i (apply_clearance (se_runtime env) (se_jar env) (\<lambda>n. ou_clock out (Suc n))
                              challenge u session cookie s) ct')))))"

definition with_session :: "'j session_env \<Rightarrow> check_env \<Rightarrow> outside \<Rightarrow> jstring \<Rightarrow> jstring option \<Rightarrow> ('j, 'a) op
    \<Rightarrow> 'j catalog \<Rightarrow> (error, 'a) result \<times> 'j catalog" where
  "with_session env keys out i url f ct =
     (case run_in_context env i url (ou_first out) f ct of
        (Inr a, ct') \<Rightarrow> (Inr a, ct')
      | (Inl e, ct') \<Rightarrow>
          (case ou_failed out of
             Some r \<Rightarrow> (Inl r, ct')
           | None \<Rightarrow>
               (let challenge = (if truthy (error_url e) then error_url e else url)
                in if error_code e \<noteq> Some browser_check_required \<or> \<not> truthy challenge then (Inl e, ct')
                   else check_and_run env keys out i url (or_empty challenge) f ct')))"

section \<open>sourceOperation\<close>

definition record_health :: "'j catalog_env \<Rightarrow> outside \<Rightarrow> jstring \<Rightarrow> error option \<Rightarrow> source_check \<Rightarrow> 'j catalog \<Rightarrow> 'j catalog" where
  "record_health env out i err check ct =
     ct\<lparr>ct_settings := recordHealth (ce_runtime env) (ou_time out) i err (Some check) (ct_settings ct)\<rparr>"

definition require_authorization :: "'j catalog_env \<Rightarrow> jstring \<Rightarrow> 'j catalog \<Rightarrow> (error, unit) result \<times> 'j catalog" where
  "require_authorization env i ct =
     (case provider_by_id env i of
        None \<Rightarrow> (Inr (), ct)
      | Some p \<Rightarrow>
          (case hasConfiguredAuthorization (ce_vault env) (pv_source p) (ct_settings ct) of
             Inl e \<Rightarrow> (Inl e, ct)
           | Inr (ok, ss) \<Rightarrow> (if ok then Inr () else Inl (Content (js ''source_authorization_required'')
               (js ''Save your account session in Sources before using this source.'') (Some (src_url (pv_source p)))),
               ct\<lparr>ct_settings := ss\<rparr>)))"

text \<open>
  An operation whose reported errors are recorded, in their order; its result says whether there
  were any.
\<close>

definition reporting_op :: "'j catalog_env \<Rightarrow> outside \<Rightarrow> jstring \<Rightarrow> source_check \<Rightarrow> ('j, 'a) reporting \<Rightarrow> ('j, 'a \<times> bool) op" where
  "reporting_op env out i check f cx ct =
     (case f cx ct of ((reports, r), ct') \<Rightarrow>
        (map_sum (\<lambda>e. e) (\<lambda>a. (a, reports \<noteq> [])) r, fold (\<lambda>e. record_health env out i (Some e) check) reports ct'))"

definition check_url :: "source_check \<Rightarrow> jstring option" where
  "check_url check = (case check of CheckSearch _ \<Rightarrow> None | CheckInspect v \<Rightarrow> Some (v_url v) | CheckResolve v \<Rightarrow> Some (v_url v))"

definition is_timeout :: "error option \<Rightarrow> bool" where
  "is_timeout r \<longleftrightarrow> r = Some TimedOut"

definition guarded_operation :: "'j catalog_env \<Rightarrow> outside \<Rightarrow> jstring \<Rightarrow> source_check \<Rightarrow> ('j, 'a) reporting \<Rightarrow> 'j catalog
    \<Rightarrow> (error, 'a \<times> bool) result \<times> 'j catalog" where
  "guarded_operation env out i check f ct =
     (case require_authorization env i ct of
        (Inl e, ct') \<Rightarrow> (Inl e, ct')
      | (Inr _, ct') \<Rightarrow>
          (case with_session (sessions_env env) (ce_keys env) out i (check_url check) (reporting_op env out i check f) ct' of
             (Inl e, ct'') \<Rightarrow> (Inl e, ct'')
           | (Inr a, ct'') \<Rightarrow> (case ou_finished out of Some e \<Rightarrow> (Inl e, ct'') | None \<Rightarrow> (Inr a, ct''))))"

text \<open>
  \<open>aborted\<close> is the state of the signal when the operation has ended.
\<close>

definition source_operation :: "'j catalog_env \<Rightarrow> outside \<Rightarrow> error option \<Rightarrow> jstring \<Rightarrow> source_check \<Rightarrow> ('j, 'a) reporting
    \<Rightarrow> 'j catalog \<Rightarrow> (error, 'a) result \<times> 'j catalog" where
  "source_operation env out aborted i check f ct =
     (if i = js ''link''
      then run_in_context (sessions_env env) i None (ou_first out) (\<lambda>cx ct. case f cx ct of ((_, r), ct') \<Rightarrow> (r, ct')) ct
      else (case guarded_operation env out i check f ct of
          (Inr (a, reported), ct') \<Rightarrow> (Inr a, if reported then ct' else record_health env out i None check ct')
        | (Inl e, ct') \<Rightarrow> (Inl e, if aborted = None \<or> is_timeout aborted
            then record_health env out i (Some e) check ct' else ct')))"

section \<open>inspect\<close>

definition inspection_key :: "variant \<Rightarrow> inspection_index" where
  "inspection_key v = (v_sourceId v, v_id v, v_url v, v_edition v, v_version v, v_episode v, v_season v, v_translation v, v_player v)"

definition inspection_time :: rat where
  "inspection_time = 5 * 60000"

definition max_inspections :: nat where
  "max_inspections = 64"

definition inspect_publication :: "'j catalog_env \<Rightarrow> outside \<Rightarrow> error option \<Rightarrow> variant \<Rightarrow> 'j catalog
    \<Rightarrow> (error, work) result \<times> 'j catalog" where
  "inspect_publication env out aborted v ct =
     (case provider_by_id env (v_sourceId v) of
        None \<Rightarrow> (Inl (Failed (js ''Select an available source.'')), ct)
      | Some p \<Rightarrow> source_operation env out aborted (src_id (pv_source p)) (CheckInspect v)
          (\<lambda>cx ct. case pv_inspect p of
             None \<Rightarrow> (([], Inl (Failed (js ''This source has no additional item details.''))), ct)
           | Some f \<Rightarrow> f v cx ct) ct)"

definition keep_inspection :: "inspection_index \<Rightarrow> work \<Rightarrow> rat \<Rightarrow> (inspection_index, work \<times> rat) jmap
    \<Rightarrow> (inspection_index, work \<times> rat) jmap" where
  "keep_inspection key w now m =
     (let m' = jm_set key (w, now + inspection_time) (jm_delete key m)
      in if length m' > max_inspections then jm_delete (fst (hd m')) m' else m')"

text \<open>
  \<open>now\<close> is read when the cache is looked up, \<open>later\<close> when the inspection is kept; \<open>accepted\<close> is
  the signal between the inspection and its keeping.
\<close>

definition cached_inspection :: "rat \<Rightarrow> variant \<Rightarrow> 'j catalog \<Rightarrow> work option" where
  "cached_inspection now v ct =
     (case jm_get (ct_inspections ct) (inspection_key v) of
        None \<Rightarrow> None
      | Some (w, expires) \<Rightarrow> if now < expires then Some w else None)"

definition inspect :: "'j catalog_env \<Rightarrow> outside \<Rightarrow> rat \<Rightarrow> error option \<Rightarrow> rat \<Rightarrow> error option \<Rightarrow> variant \<Rightarrow> 'j catalog
    \<Rightarrow> (error, work) result \<times> 'j catalog" where
  "inspect env out now aborted later accepted v ct =
     (case cached_inspection now v ct of
        Some w \<Rightarrow>
          (case require_authorization env (v_sourceId v) ct of
             (Inr _, ct') \<Rightarrow> (Inr w, ct')
           | (Inl e, ct') \<Rightarrow> (Inl e, if aborted = None \<or> is_timeout aborted
               then record_health env out (v_sourceId v) (Some e) (CheckInspect v) ct' else ct'))
      | None \<Rightarrow>
          (case inspect_publication env out aborted v ct of
             (Inl e, ct') \<Rightarrow> (Inl e, ct')
           | (Inr w, ct') \<Rightarrow>
               (case accepted of
                  Some e \<Rightarrow> (Inl e, ct')
                | None \<Rightarrow> (Inr w, ct'\<lparr>ct_inspections := keep_inspection (inspection_key v) w later (ct_inspections ct')\<rparr>))))"

section \<open>checkSource and latestWork\<close>

definition default_check :: source_check where
  "default_check = CheckSearch \<lparr>r_query = js ''Sintel'', r_category = AnyCategory, r_sources = None, r_language = None\<rparr>"

text \<open>\<open>resolve\<close> is the resolution callback of the caller.\<close>

definition check_source :: "'j catalog_env \<Rightarrow> outside \<Rightarrow> rat \<Rightarrow> error option \<Rightarrow> rat \<Rightarrow> error option
    \<Rightarrow> (variant \<Rightarrow> 'j catalog \<Rightarrow> (error, unit) result \<times> 'j catalog) option \<Rightarrow> jstring \<Rightarrow> 'j catalog
    \<Rightarrow> (error, (work \<times> variant) option) result \<times> 'j catalog" where
  "check_source env out now aborted later accepted resolve i ct =
     (let check = (case failedCheck i (ct_settings ct) of None \<Rightarrow> default_check | Some c \<Rightarrow> c)
      in case (case check of
            CheckResolve v \<Rightarrow> (case resolve of
                None \<Rightarrow> (Inl (Failed (js ''The source resolution retry is unavailable.'')), ct)
              | Some f \<Rightarrow> (case f v ct of (r, ct') \<Rightarrow> (map_sum (\<lambda>e. e) (\<lambda>_. None) r, ct')))
          | CheckInspect v \<Rightarrow> (case inspect env out now aborted later accepted v
                (ct\<lparr>ct_inspections := jm_delete (inspection_key v) (ct_inspections ct)\<rparr>) of
              (r, ct') \<Rightarrow> (map_sum (\<lambda>e. e) (\<lambda>w. Some (w, v)) r, ct'))
          | CheckSearch q \<Rightarrow> (case provider_by_id env i of
                None \<Rightarrow> (Inl (Failed (js ''Select an available source.'')), ct)
              | Some p \<Rightarrow> (case source_operation env out aborted (src_id (pv_source p)) check (pv_search p q) ct of
                  (r, ct') \<Rightarrow> (map_sum (\<lambda>e. e) (\<lambda>_. None) r, ct')))) of
          (Inr found, ct') \<Rightarrow> (Inr found, ct')
        | (Inl e, ct') \<Rightarrow> (case aborted of
            Some r \<Rightarrow> (Inl r, ct')
          | None \<Rightarrow> (Inr None, record_health env out i (Some e) check ct')))"

definition latest_work :: "runtime \<Rightarrow> work option \<Rightarrow> 'j catalog \<Rightarrow> work option" where
  "latest_work rt w ct = (case (w, ct_results ct) of (Some w, Some st) \<Rightarrow> find_work rt w st | _ \<Rightarrow> None)"

section \<open>The session of an operation\<close>

text \<open>What a second run has behind it: a check of the challenge, whose clearance serves its origin.\<close>

definition second_run :: "'j session_env \<Rightarrow> outside \<Rightarrow> jstring \<Rightarrow> jstring option \<Rightarrow> jstring \<Rightarrow> ('j, 'a) op
    \<Rightarrow> (error, 'a) result \<Rightarrow> 'j catalog \<Rightarrow> bool" where
  "second_run env out i url challenge f r ct' \<longleftrightarrow>
     (\<exists>u seeds check session ct2 s c.
        rt_url (se_runtime env) challenge = Some u \<and> ou_check out challenge seeds check = Inr session
      \<and> ou_checked out = None \<and> jm_get (ct_sessions ct2) i = Some s \<and> jm_get (sn_clearances s) (url_origin u) = Some c
      \<and> sc_userAgent c = ws_userAgent session \<and> sc_expiresAt c \<le> ou_clock out 2 + 30 * 60000
      \<and> run_in_context env i (if truthy url then url else Some challenge) (ou_second out) f ct2 = (r, ct'))"

lemma prepare_check_url:
  "prepare_check env keys now i challenge ct = (Inr (u, cookie, seeds, check), ct') \<Longrightarrow> rt_url (se_runtime env) challenge = Some u"
  by (auto simp: prepare_check_def Let_def parse_url_def split: sum.splits option.splits prod.splits if_splits)

lemma check_and_run_second:
  assumes "check_and_run env keys out i url challenge f ct = (Inr a, ct')"
  shows "second_run env out i url challenge f (Inr a) ct'"
proof -
  from assms obtain u cookie seeds check ct2 session s where
    1: "prepare_check env keys (ou_clock out 0) i challenge ct = (Inr (u, cookie, seeds, check), ct2)"
      "ou_check out challenge seeds check = Inr session" "ou_checked out = None" "jm_get (ct_sessions ct2) i = Some s"
    and 2: "run_in_context env i (if truthy url then url else Some challenge) (ou_second out) f
      (put_session i (apply_clearance (se_runtime env) (se_jar env) (\<lambda>n. ou_clock out (Suc n)) challenge u session cookie s) ct2)
      = (Inr a, ct')"
    by (auto simp: check_and_run_def simp del: or_empty_simps split: prod.splits sum.splits option.splits)
  let ?s = "apply_clearance (se_runtime env) (se_jar env) (\<lambda>n. ou_clock out (Suc n)) challenge u session cookie s"
  obtain c where c: "jm_get (sn_clearances ?s) (url_origin u) = Some c" "sc_userAgent c = ws_userAgent session"
    "sc_expiresAt c \<le> ou_clock out 2 + 30 * 60000"
    using applied_clearance[of "se_runtime env" "se_jar env" "\<lambda>n. ou_clock out (Suc n)" challenge u session cookie s]
    by (auto simp: numeral_2_eq_2)
  have "jm_get (ct_sessions (put_session i ?s ct2)) i = Some ?s" by (simp add: put_session_def)
  then show ?thesis
    unfolding second_run_def
    by (intro exI[of _ u] exI[of _ seeds] exI[of _ check] exI[of _ session] exI[of _ "put_session i ?s ct2"] exI[of _ ?s]
        exI[of _ c] conjI prepare_check_url[OF 1(1)] 1(2,3) c 2)
qed


section \<open>Health\<close>

definition failure_entry :: "'j catalog_env \<Rightarrow> outside \<Rightarrow> source_check \<Rightarrow> error \<Rightarrow> failure" where
  "failure_entry env out check e = \<lparr>fl_message = safeError e, fl_checkedAt = ou_time out,
     fl_check = Some (stored_check (ce_runtime env) check), fl_code = error_code e,
     fl_url = publicReference (ce_runtime env) (error_url e)\<rparr>"

lemma record_health_error:
  "safeError e \<noteq> [] \<Longrightarrow>
     failure_of i (ct_settings (record_health env out i (Some e) check ct)) = Some (failure_entry env out check e)"
  by (simp add: record_health_def recordHealth_def Let_def failure_entry_def failure_of_def)

lemma record_health_success:
  "failure_of i (ct_settings (record_health env out i None check ct)) =
     (if failedCheck i (ct_settings ct) \<in> {None, Some (stored_check (ce_runtime env) check)} then None
      else failure_of i (ct_settings ct))"
  by (auto simp: record_health_def recordHealth_def Let_def failure_of_def)

lemma fold_record_health:
  "es \<noteq> [] \<Longrightarrow> safeError (last es) \<noteq> [] \<Longrightarrow>
     failure_of i (ct_settings (fold (\<lambda>e. record_health env out i (Some e) check) es ct)) = Some (failure_entry env out check (last es))"
  by (cases es rule: rev_cases) (simp_all add: record_health_error)

lemma with_session_Inr:
  assumes "with_session env keys out i url f ct = (Inr a, ct')"
  shows "\<exists>cx ct1. f cx ct1 = (Inr a, ct')"
proof -
  have run: "\<exists>cx ct1. f cx ct1 = (Inr a, ct')" if "run_in_context env i u v f c = (Inr a, ct')" for u v c
    using that by (auto simp: run_in_context_def split: prod.splits sum.splits)
  have again: "\<exists>cx ct1. f cx ct1 = (Inr a, ct')" if "check_and_run env keys out i url ch f c = (Inr a, ct')" for ch c
    using check_and_run_second[OF that] run unfolding second_run_def by blast
  show ?thesis
    using assms by (auto simp: with_session_def Let_def split: prod.splits sum.splits option.splits if_splits intro: run again)
qed

lemma guarded_Inr:
  assumes "guarded_operation env out i check f ct = (Inr (a, reported), ct')"
  shows "\<exists>cx ct0 ct1 reports. f cx ct0 = ((reports, Inr a), ct1) \<and> reported = (reports \<noteq> [])
     \<and> ct' = fold (\<lambda>e. record_health env out i (Some e) check) reports ct1"
proof -
  from assms obtain ct1 where
    "with_session (sessions_env env) (ce_keys env) out i (check_url check) (reporting_op env out i check f) ct1 = (Inr (a, reported), ct')"
    by (auto simp: guarded_operation_def split: prod.splits sum.splits option.splits)
  from with_session_Inr[OF this] obtain cx ct0 where "reporting_op env out i check f cx ct0 = (Inr (a, reported), ct')" by blast
  then obtain reports r ct1 where f: "f cx ct0 = ((reports, r), ct1)"
    "map_sum (\<lambda>e. e) (\<lambda>a. (a, reports \<noteq> [])) r = Inr (a, reported)"
    "ct' = fold (\<lambda>e. record_health env out i (Some e) check) reports ct1"
    by (auto simp: reporting_op_def split: prod.splits)
  then show ?thesis by (cases r) auto
qed

text \<open>
  What an operation leaves as the health of its source. A success without reported errors clears
  the failure unless another check failed; a success with reports leaves the last report; a
  failure is recorded with its check, also when the operation timed out; and an abort records
  nothing.
\<close>

theorem operation_health:
  assumes "source_operation env out aborted i check f ct = (r, ct')" and "i \<noteq> js ''link''"
    and "guarded_operation env out i check f ct = (g, ct1)"
  shows "case r of
      Inr a \<Rightarrow> (\<exists>cx ct0 ct2 reports. f cx ct0 = ((reports, Inr a), ct2)
        \<and> (if reports = []
           then failure_of i (ct_settings ct') = (if failedCheck i (ct_settings ct2) \<in> {None, Some (stored_check (ce_runtime env) check)}
             then None else failure_of i (ct_settings ct2))
           else safeError (last reports) \<noteq> [] \<longrightarrow> failure_of i (ct_settings ct') = Some (failure_entry env out check (last reports))))
    | Inl e \<Rightarrow>
        if aborted = None \<or> aborted = Some TimedOut
        then safeError e \<noteq> [] \<longrightarrow> failure_of i (ct_settings ct') = Some (failure_entry env out check e)
        else ct' = ct1"
proof (cases g)
  case (Inl e)
  then have "r = Inl e" and ct': "ct' = (if aborted = None \<or> is_timeout aborted then record_health env out i (Some e) check ct1 else ct1)"
    using assms by (auto simp: source_operation_def simp del: js_simps)
  then show ?thesis using record_health_error[of e i env out check ct1] by (auto simp: is_timeout_def)
next
  case (Inr g')
  then obtain a reported where g: "g = Inr (a, reported)" by (cases g') simp
  obtain cx ct0 ct2 reports where f: "f cx ct0 = ((reports, Inr a), ct2)" "reported = (reports \<noteq> [])"
    "ct1 = fold (\<lambda>e. record_health env out i (Some e) check) reports ct2"
    using guarded_Inr[OF assms(3)[unfolded g]] by (elim exE conjE) (rule that)
  have r: "r = Inr a" "ct' = (if reported then ct1 else record_health env out i None check ct1)"
    using assms g by (auto simp: source_operation_def simp del: js_simps)
  have "if reports = []
           then failure_of i (ct_settings ct') = (if failedCheck i (ct_settings ct2) \<in> {None, Some (stored_check (ce_runtime env) check)}
             then None else failure_of i (ct_settings ct2))
           else safeError (last reports) \<noteq> [] \<longrightarrow> failure_of i (ct_settings ct') = Some (failure_entry env out check (last reports))"
  proof (cases "reports = []")
    case True
    then have "ct' = record_health env out i None check ct2" using f(2,3) r(2) by simp
    with True show ?thesis using record_health_success[of i env out check ct2] by simp
  next
    case False
    then have "ct' = fold (\<lambda>e. record_health env out i (Some e) check) reports ct2" using f(2,3) r(2) by simp
    with False show ?thesis using fold_record_health[of reports i env out check ct2] by simp
  qed
  then show ?thesis
    unfolding r(1) sum.case by (intro exI[of _ cx] exI[of _ ct0] exI[of _ ct2] exI[of _ reports] conjI f(1))
qed

section \<open>The cache of inspections\<close>

text \<open>The reference: of a history, newest first, the newest entry of each key.\<close>

fun newest :: "('k \<times> 'v) list \<Rightarrow> ('k \<times> 'v) list" where
  "newest [] = []"
| "newest (p # ps) = p # filter (\<lambda>q. fst q \<noteq> fst p) (newest ps)"

lemma newest_distinct: "distinct (map fst (newest ps))"
  by (induction ps) (auto simp: distinct_map_filter)

lemma take_filter_key:
  "distinct (map fst ps) \<Longrightarrow> take n (filter (\<lambda>q. fst q \<noteq> k) (take (Suc n) ps)) = take n (filter (\<lambda>q. fst q \<noteq> k) ps)"
proof (induction ps arbitrary: n)
  case (Cons p ps)
  show ?case
  proof (cases "fst p = k")
    case True
    then have "filter (\<lambda>q. fst q \<noteq> k) ps = ps" using Cons.prems by (auto simp: filter_id_conv image_iff)
    moreover then have "filter (\<lambda>q. fst q \<noteq> k) (take n ps) = take n ps"
      by (metis filter_id_conv in_set_takeD)
    ultimately show ?thesis using True by simp
  next
    case False
    then show ?thesis using Cons.IH[of "n - 1"] Cons.prems by (cases n) auto
  qed
qed simp

lemma jm_delete_hd:
  "distinct (map fst (p # ps)) \<Longrightarrow> jm_delete (fst p) (p # ps) = ps"
  by (auto simp: jm_delete_def filter_id_conv image_iff)

lemma keep_inspection_recent:
  assumes "distinct (map fst ps)"
  shows "keep_inspection k w t (rev (take 64 ps)) = rev (take 64 ((k, (w, t + inspection_time)) # filter (\<lambda>q. fst q \<noteq> k) ps))"
proof -
  let ?e = "(k, (w, t + inspection_time))" and ?old = "filter (\<lambda>q. fst q \<noteq> k) (take 64 ps)"
  have set: "jm_set k (w, t + inspection_time) (jm_delete k (rev (take 64 ps))) = rev (?e # ?old)"
    by (subst jm_set_fresh) (auto simp: jm_delete_def rev_filter case_prod_unfold image_iff)
  have d: "distinct (map fst (rev (?e # ?old)))"
    using distinct_take[OF assms, of 64]
    by (auto simp: distinct_map_filter rev_map[symmetric] take_map simp del: distinct_take)
  have t: "take 63 ?old = take 63 (filter (\<lambda>q. fst q \<noteq> k) ps)"
    using take_filter_key[OF assms, of 63 k] by simp
  have len: "length ?old \<le> 64" using length_filter_le[of _ "take 64 ps"] by (simp add: le_trans)
  show ?thesis
  proof (cases "length ?old = 64")
    case False
    then have "?old = take 63 ?old" using len by simp
    then show ?thesis using False len t by (simp add: keep_inspection_def Let_def set max_inspections_def)
  next
    case True
    then obtain last init where old: "?old = init @ [last]" by (metis length_0_conv rev_exhaust zero_neq_numeral)
    then have "keep_inspection k w t (rev (take 64 ps)) = jm_delete (fst last) (last # rev init @ [?e])"
      using True by (simp add: keep_inspection_def Let_def set max_inspections_def)
    also have "\<dots> = rev init @ [?e]" using jm_delete_hd[of last "rev init @ [?e]"] d old by simp
    also have "\<dots> = rev (?e # take 63 ?old)" using old True by simp
    finally show ?thesis using t by simp
  qed
qed

text \<open>
  C33: the cache of inspections is the last 64 different publications. Whatever is kept, in any order,
  the cache has the newest entry of each of the 64 publications kept last, oldest first; each
  lasts five minutes from its keeping.
\<close>

theorem inspections_recent:
  "fold (\<lambda>(k, w, t). keep_inspection k w t) history [] =
     rev (take 64 (newest (rev (map (\<lambda>(k, w, t). (k, w, t + 5 * 60000)) history))))"
proof (induction history rule: rev_induct)
  case (snoc h history)
  obtain k w t where h: "h = (k, w, t)" by (cases h)
  show ?case
    using snoc keep_inspection_recent[OF newest_distinct, of k w t "rev (map (\<lambda>(k, w, t). (k, w, t + 5 * 60000)) history)"]
    by (simp add: h inspection_time_def)
qed simp

lemma get_kept: "jm_get (keep_inspection k w t m) k = Some (w, t + 5 * 60000)"
proof -
  let ?e = "(k, (w, t + inspection_time))"
  have set: "jm_set k (w, t + inspection_time) (jm_delete k m) = jm_delete k m @ [?e]"
    by (subst jm_set_fresh) (auto simp: jm_delete_def)
  have get: "jm_get (jm_delete k m @ [?e]) k = Some (w, t + 5 * 60000)"
    unfolding set[symmetric] by (simp add: inspection_time_def)
  show ?thesis
  proof (cases "jm_delete k m")
    case Nil
    then show ?thesis using get by (simp add: keep_inspection_def Let_def set max_inspections_def)
  next
    case (Cons p ps)
    have "p \<in> set (jm_delete k m)" using Cons by simp
    then have "fst p \<noteq> k" by (simp add: jm_delete_pairs)
    moreover have "keep_inspection k w t m = (if length (p # ps @ [?e]) > max_inspections
        then jm_delete (fst p) (p # ps @ [?e]) else p # ps @ [?e])"
      unfolding keep_inspection_def Let_def set unfolding Cons by simp
    ultimately show ?thesis using get by (simp add: Cons jm_get_delete)
  qed
qed

text \<open>
  The retry of a failed check. Unless it is aborted it never fails: its error is recorded. When
  it returns a work, the check that had failed was the inspection of the returned publication,
  the work was inspected anew, and it is what the next inspection finds in the cache.
\<close>

theorem check_source_outcome:
  assumes "check_source env out now aborted later accepted resolve i ct = (r, ct')"
  shows "(aborted = None \<longrightarrow> (\<exists>found. r = Inr found))
     \<and> (\<forall>w v. r = Inr (Some (w, v)) \<longrightarrow> failedCheck i (ct_settings ct) = Some (CheckInspect v)
        \<and> jm_get (ct_inspections ct') (inspection_key v) = Some (w, later + 5 * 60000)
        \<and> (\<exists>ct1. fst (inspect_publication env out aborted v ct1) = Inr w))"
proof (intro conjI allI impI)
  assume "aborted = None"
  with assms show "\<exists>found. r = Inr found"
    by (auto simp: check_source_def Let_def split: prod.splits sum.splits)
next
  fix w v assume r: "r = Inr (Some (w, v))"
  let ?check = "case failedCheck i (ct_settings ct) of None \<Rightarrow> default_check | Some c \<Rightarrow> c"
  let ?ct = "ct\<lparr>ct_inspections := jm_delete (inspection_key v) (ct_inspections ct)\<rparr>"
  have "?check = CheckInspect v \<and> inspect env out now aborted later accepted v ?ct = (Inr w, ct')"
    using assms unfolding r check_source_def Let_def
    by (cases ?check) (auto simp: map_sum_Inr split: prod.splits sum.splits option.splits if_splits)
  then have "failedCheck i (ct_settings ct) = Some (CheckInspect v)"
    and 1: "inspect env out now aborted later accepted v ?ct = (Inr w, ct')"
    by (auto simp: default_check_def split: option.splits)
  have fresh: "cached_inspection now v ?ct = None" by (simp add: cached_inspection_def jm_get_delete)
  obtain ct1 where "inspect_publication env out aborted v ?ct = (Inr w, ct1)"
    "ct' = ct1\<lparr>ct_inspections := keep_inspection (inspection_key v) w later (ct_inspections ct1)\<rparr>"
    using 1 by (auto simp: inspect_def fresh split: prod.splits sum.splits option.splits)
  then show "failedCheck i (ct_settings ct) = Some (CheckInspect v)"
    "jm_get (ct_inspections ct') (inspection_key v) = Some (w, later + 5 * 60000)"
    "\<exists>ct1. fst (inspect_publication env out aborted v ct1) = Inr w"
    using \<open>failedCheck i (ct_settings ct) = Some (CheckInspect v)\<close> get_kept by (auto intro: exI[of _ ?ct])
qed

section \<open>Witnesses\<close>

definition sample_outside :: outside where
  "sample_outside = \<lparr>ou_first = sample_visit, ou_failed = None, ou_check = (\<lambda>_ _ _. Inr sample_web_session),
     ou_checked = None, ou_second = sample_visit, ou_clock = (\<lambda>_. 0), ou_finished = None, ou_time = js ''T''\<rparr>"

text \<open>An operation that needs a clearance: it asks for a check until the source has one.\<close>

definition sample_op :: "((cookie_place \<times> jstring) list, nat) op" where
  "sample_op cx ct = (if list_ex (\<lambda>(_, s). sn_clearances s \<noteq> []) (ct_sessions ct) then (Inr 7, ct)
     else (Inl (Content browser_check_required (js ''Check'') (Some (js ''https://a/x''))), ct))"

definition fresh_catalog :: "(cookie_place \<times> jstring) list catalog" where
  "fresh_catalog = sample_catalog\<lparr>ct_sessions := []\<rparr>"

definition sample_keys :: check_env where
  "sample_keys = \<lparr>ke_digest = (\<lambda>_. []), ke_cookies = (\<lambda>_. []), ke_locale = (\<lambda>_. 0)\<rparr>"


definition sample_provider :: "(cookie_place \<times> jstring) list provider" where
  "sample_provider = \<lparr>pv_source = sample_source\<lparr>src_authorizationSetting := None\<rparr>,
     pv_search = (\<lambda>_ _ ct. (([], Inr []), ct)),
     pv_inspect = Some (\<lambda>v _ ct. (([], Inr (new_work (v_id v) (v_title v) Games [v])), ct))\<rparr>"

definition sample_catalog_env :: "(cookie_place \<times> jstring) list catalog_env" where
  "sample_catalog_env = \<lparr>ce_runtime = sample_runtime, ce_vault = sample_vault, ce_jar = sample_jar,
     ce_providers = [sample_provider], ce_keys = sample_keys\<rparr>"

definition sample_failing :: "source_check \<Rightarrow> (cookie_place \<times> jstring) list catalog" where
  "sample_failing check = record_health sample_catalog_env sample_outside (js ''s'') (Some (Failed (js ''No''))) check fresh_catalog"

theorem operation_health_witness:
  "\<exists>ct'. source_operation sample_catalog_env sample_outside None (js ''s'') default_check (\<lambda>_ ct. (([], Inr (3 :: nat)), ct))
        (sample_failing default_check) = (Inr 3, ct')
     \<and> failure_of (js ''s'') (ct_settings (sample_failing default_check)) \<noteq> None
     \<and> (\<exists>ct2 :: (cookie_place \<times> jstring) list catalog. failure_of (js ''s'') (ct_settings ct') =
          (if failedCheck (js ''s'') (ct_settings ct2) \<in> {None, Some (stored_check sample_runtime default_check)}
           then None else failure_of (js ''s'') (ct_settings ct2)))"
proof -
  let ?f = "\<lambda>(_ :: source_context) ct. ((([] :: error list), Inr (3 :: nat)), ct)"
  let ?o = "source_operation sample_catalog_env sample_outside None (js ''s'') default_check ?f (sample_failing default_check)"
  have "fst ?o = Inr 3" by code_simp
  then obtain ct' where o: "?o = (Inr 3, ct')" by (metis prod.collapse)
  obtain g ct1 where g: "guarded_operation sample_catalog_env sample_outside (js ''s'') default_check ?f (sample_failing default_check) = (g, ct1)"
    by (metis surj_pair)
  have ne: "js ''s'' \<noteq> js ''link''" by simp
  have rt: "ce_runtime sample_catalog_env = sample_runtime" by (simp add: sample_catalog_env_def)
  obtain ct0 reports and ct2 :: "(cookie_place \<times> jstring) list catalog" where h: "(([], Inr 3 :: (error, nat) result), ct0) = ((reports, Inr 3), ct2)"
    "if reports = []
           then failure_of (js ''s'') (ct_settings ct') = (if failedCheck (js ''s'') (ct_settings ct2)
               \<in> {None, Some (stored_check sample_runtime default_check)}
             then None else failure_of (js ''s'') (ct_settings ct2))
           else safeError (last reports) \<noteq> [] \<longrightarrow> failure_of (js ''s'') (ct_settings ct')
             = Some (failure_entry sample_catalog_env sample_outside default_check (last reports))"
    using operation_health[OF o ne g] unfolding sum.case rt by (elim exE conjE) (rule that, assumption+)
  from h(1) have "reports = []" by simp
  with h(2) have "failure_of (js ''s'') (ct_settings ct') = (if failedCheck (js ''s'') (ct_settings ct2)
               \<in> {None, Some (stored_check sample_runtime default_check)}
             then None else failure_of (js ''s'') (ct_settings ct2))" by (simp only: if_True)
  moreover have "failure_of (js ''s'') (ct_settings (sample_failing default_check)) \<noteq> None" by code_simp
  ultimately show ?thesis using o by (intro exI[of _ ct'] exI[of _ ct2] conjI)
qed

definition sample_publication :: variant where
  "sample_publication = new_variant (js ''s:1'') (js ''s'') (js ''S'') (js ''One'') (js ''https://a/one'') Video"

theorem check_source_outcome_witness:
  "\<exists>w ct'. check_source sample_catalog_env sample_outside 0 None 9 None None (js ''s'') (sample_failing (CheckInspect sample_publication))
        = (Inr (Some (w, sample_publication)), ct')
     \<and> jm_get (ct_inspections ct') (inspection_key sample_publication) = Some (w, 9 + 5 * 60000)"
proof -
  let ?c = "check_source sample_catalog_env sample_outside 0 None 9 None None (js ''s'') (sample_failing (CheckInspect sample_publication))"
  have "case fst ?c of Inr (Some (w, v)) \<Rightarrow> v = sample_publication | _ \<Rightarrow> False" by code_simp
  then obtain w ct' where c: "?c = (Inr (Some (w, sample_publication)), ct')"
    by (cases ?c) (auto split: sum.splits option.splits prod.splits)
  from check_source_outcome[OF c] c show ?thesis by metis
qed

end
