(* ===== verification/Pool.thy ===== *)
theory Pool
  imports Prelude
begin

text \<open>
  The worker loops of the catalog's search and of the reader's image cache: a few loops share
  a counter \<open>next\<close>, each takes the job under the counter, works on it and takes the next one
  until the jobs are used up or the work is stopped. Jobs are their indexes. The interface
  fixes the number of jobs and of loops; what follows from it is proved once for both users.
\<close>

record pool =
  pl_next :: nat
  pl_running :: "nat list"
  pl_done :: "nat list"
  pl_stopped :: bool

definition new_pool :: pool where
  "new_pool = \<lparr>pl_next = 0, pl_running = [], pl_done = [], pl_stopped = False\<rparr>"

definition can_take :: "nat \<Rightarrow> nat \<Rightarrow> pool \<Rightarrow> bool" where
  "can_take jobs workers p \<longleftrightarrow> pl_next p < jobs \<and> length (pl_running p) < workers \<and> \<not> pl_stopped p"

definition take_job :: "pool \<Rightarrow> pool" where
  "take_job p = p\<lparr>pl_running := pl_running p @ [pl_next p], pl_next := Suc (pl_next p)\<rparr>"

definition finish_job :: "nat \<Rightarrow> pool \<Rightarrow> pool" where
  "finish_job i p = p\<lparr>pl_running := remove1 i (pl_running p), pl_done := pl_done p @ [i]\<rparr>"

definition stop_pool :: "pool \<Rightarrow> pool" where
  "stop_pool p = p\<lparr>pl_stopped := True\<rparr>"

inductive pool_step :: "nat \<Rightarrow> nat \<Rightarrow> pool \<Rightarrow> pool \<Rightarrow> bool" for jobs workers where
  take_step: "can_take jobs workers p \<Longrightarrow> pool_step jobs workers p (take_job p)"
| finish_step: "i \<in> set (pl_running p) \<Longrightarrow> pool_step jobs workers p (finish_job i p)"
| stop_step: "pool_step jobs workers p (stop_pool p)"

inductive_cases pool_stepE [elim]: "pool_step jobs workers p p'"

inductive_simps pool_step_iff: "pool_step jobs workers p p'"

inductive pool_reached :: "nat \<Rightarrow> nat \<Rightarrow> pool \<Rightarrow> bool" for jobs workers where
  start: "pool_reached jobs workers new_pool"
| step: "pool_reached jobs workers p \<Longrightarrow> pool_step jobs workers p p' \<Longrightarrow> pool_reached jobs workers p'"

definition pool_inv :: "nat \<Rightarrow> nat \<Rightarrow> pool \<Rightarrow> bool" where
  "pool_inv jobs workers p \<longleftrightarrow> distinct (pl_running p @ pl_done p)
     \<and> set (pl_running p @ pl_done p) = {..<pl_next p} \<and> pl_next p \<le> jobs \<and> length (pl_running p) \<le> workers"

definition pool_measure :: "nat \<Rightarrow> pool \<Rightarrow> nat" where
  "pool_measure jobs p = 2 * (jobs - pl_next p) + length (pl_running p)"

locale worker_pool =
  fixes jobs workers limit :: nat
  assumes some_worker: "0 < jobs \<Longrightarrow> 0 < workers"
    and few_workers: "workers \<le> limit"
begin

lemma take_job_inv: "pool_inv jobs workers p \<Longrightarrow> can_take jobs workers p \<Longrightarrow> pool_inv jobs workers (take_job p)"
  by (auto simp: pool_inv_def can_take_def take_job_def)

lemma finish_job_inv:
  assumes "pool_inv jobs workers p" and "i \<in> set (pl_running p)"
  shows "pool_inv jobs workers (finish_job i p)"
proof -
  have d: "distinct (pl_running p)" "distinct (pl_done p)" "set (pl_running p) \<inter> set (pl_done p) = {}"
    and u: "set (pl_running p) \<union> set (pl_done p) = {..<pl_next p}"
    and w: "length (pl_running p) \<le> workers" "pl_next p \<le> jobs"
    using assms(1) by (simp_all add: pool_inv_def)
  have r: "set (remove1 i (pl_running p)) = set (pl_running p) - {i}" using d(1) by simp
  have "distinct (remove1 i (pl_running p) @ pl_done p @ [i])" using d assms(2) by auto
  moreover have "set (remove1 i (pl_running p) @ pl_done p @ [i]) = {..<pl_next p}"
    using r u assms(2) by auto
  moreover have "length (remove1 i (pl_running p)) \<le> workers" "pl_next p \<le> jobs"
    using w by (auto simp: length_remove1)
  ultimately show ?thesis by (simp add: pool_inv_def finish_job_def)
qed

lemma pool_step_inv: "pool_inv jobs workers p \<Longrightarrow> pool_step jobs workers p p' \<Longrightarrow> pool_inv jobs workers p'"
  by (erule pool_stepE) (simp_all add: take_job_inv finish_job_inv, simp add: pool_inv_def stop_pool_def)

lemma pool_reached_inv: "pool_reached jobs workers p \<Longrightarrow> pool_inv jobs workers p"
proof (induction rule: pool_reached.induct)
  case start
  show ?case by (simp add: pool_inv_def new_pool_def)
qed (rule pool_step_inv)

text \<open>No job is taken twice and at most \<open>limit\<close> run at a time.\<close>

lemma pool_bounded:
  "pool_reached jobs workers p \<Longrightarrow> length (pl_running p) \<le> limit \<and> distinct (pl_running p @ pl_done p)"
  using pool_reached_inv[of p] few_workers by (simp add: pool_inv_def)

text \<open>When nothing runs and nothing can be taken, an unstopped pool has done every job once.\<close>

lemma pool_complete:
  assumes "pool_reached jobs workers p" and "pl_running p = []" and "\<not> can_take jobs workers p" and "\<not> pl_stopped p"
  shows "mset (pl_done p) = mset [0..<jobs]"
proof -
  have inv: "distinct (pl_done p)" "set (pl_done p) = {..<pl_next p}" "pl_next p \<le> jobs"
    using pool_reached_inv[OF assms(1)] assms(2) by (simp_all add: pool_inv_def)
  have "\<not> pl_next p < jobs"
    using assms(2,3,4) some_worker by (cases "jobs = 0") (simp_all add: can_take_def)
  with inv(3) have n: "pl_next p = jobs" by linarith
  have "set (pl_done p) = set [0..<jobs]" unfolding inv(2) n by (simp add: lessThan_atLeast0)
  then show ?thesis using set_eq_iff_mset_eq_distinct[OF inv(1) distinct_upt, of 0 jobs] by blast
qed

text \<open>Every step of a loop brings the end nearer.\<close>

lemma pool_progress:
  "pool_inv jobs workers p \<Longrightarrow> pool_step jobs workers p p' \<Longrightarrow> p' \<noteq> stop_pool p \<Longrightarrow>
    pool_measure jobs p' < pool_measure jobs p"
proof (erule pool_stepE)
  fix i assume "pool_inv jobs workers p" "i \<in> set (pl_running p)" "p' = finish_job i p"
  then show ?thesis using length_pos_if_in_set[of i "pl_running p"]
    by (simp add: pool_measure_def finish_job_def length_remove1)
qed (auto simp: pool_measure_def can_take_def take_job_def)

lemma finish_job_not_stop: "finish_job i p \<noteq> stop_pool p" "pl_stopped (finish_job i p) = pl_stopped p"
  proof -
  have "length (pl_done (finish_job i p)) \<noteq> length (pl_done (stop_pool p))"
    by (simp add: finish_job_def stop_pool_def)
  then show "finish_job i p \<noteq> stop_pool p" by metis
qed (simp add: finish_job_def)

lemma take_job_not_stop: "take_job p \<noteq> stop_pool p" "pl_stopped (take_job p) = pl_stopped p"
proof -
  have "pl_next (take_job p) \<noteq> pl_next (stop_pool p)"
    by (simp add: take_job_def stop_pool_def)
  then show "take_job p \<noteq> stop_pool p" by metis
qed (simp add: take_job_def)

text \<open>Whatever has happened, finishing what runs and taking the rest ends the work.\<close>

lemma pool_can_finish:
  assumes "pool_reached jobs workers p" and "\<not> pl_stopped p"
  shows "\<exists>p'. (pool_step jobs workers)\<^sup>*\<^sup>* p p' \<and> pl_running p' = [] \<and> mset (pl_done p') = mset [0..<jobs]"
  using assms
proof (induction "pool_measure jobs p" arbitrary: p rule: less_induct)
  case less
  show ?case
  proof (cases "\<exists>p'. pool_step jobs workers p p' \<and> p' \<noteq> stop_pool p \<and> \<not> pl_stopped p'")
    case True
    then obtain p1 where p1: "pool_step jobs workers p p1" "p1 \<noteq> stop_pool p" "\<not> pl_stopped p1" by blast
    have "pool_measure jobs p1 < pool_measure jobs p"
      by (rule pool_progress[OF pool_reached_inv[OF less.prems(1)] p1(1,2)])
    from less.hyps[OF this pool_reached.step[OF less.prems(1) p1(1)] p1(3)] p1(1) show ?thesis
      by (meson converse_rtranclp_into_rtranclp)
  next
    case False
    have running: "pl_running p = []"
    proof (rule ccontr)
      assume "pl_running p \<noteq> []"
      then obtain i where "i \<in> set (pl_running p)" by (cases "pl_running p") auto
      from finish_step[OF this, of jobs workers] False less.prems(2) show False
        by (metis finish_job_not_stop)
    qed
    moreover have "\<not> can_take jobs workers p"
      using False less.prems(2) take_step[of jobs workers p] by (metis take_job_not_stop)
    ultimately show ?thesis using pool_complete[OF less.prems(1)] less.prems(2) by blast
  qed
qed

end

end
