(* ===== verification/Searching.thy ===== *)
theory Searching
  imports Catalog Pool
begin

text \<open>
  \<open>Catalog.search\<close>: which providers take part, the order in which they are asked, and the
  search itself as a machine. Its inputs are what can happen: a worker takes the next source, a
  provider publishes a work, a source ends or times out, the search is aborted, a pass is over.
\<close>

section \<open>The providers of a search\<close>

definition in_category :: "category \<Rightarrow> source \<Rightarrow> bool" where
  "in_category c s \<longleftrightarrow> c = AnyCategory \<or> c \<in> set (src_categories s)"

definition is_selected :: "jstring list option \<Rightarrow> source \<Rightarrow> bool" where
  "is_selected sources s \<longleftrightarrow> list_or sources = [] \<or> src_id s \<in> set (list_or sources)"

definition takes_part :: "vault \<Rightarrow> search_request \<Rightarrow> source \<Rightarrow> source_settings \<Rightarrow> (error, bool \<times> source_settings) result" where
  "takes_part vault request described ss =
     bind_r (describe vault described ss) (\<lambda>(s, ss').
       if \<not> src_enabled s \<or> \<not> is_selected (r_sources request) s \<or> \<not> in_category (r_category request) s
       then Inr (False, ss') else hasConfiguredAuthorization vault s ss')"

fun select_sources :: "vault \<Rightarrow> search_request \<Rightarrow> source list \<Rightarrow> source_settings
    \<Rightarrow> (error, source list \<times> source_settings) result" where
  "select_sources vault request [] ss = Inr ([], ss)"
| "select_sources vault request (s # sources) ss =
     bind_r (takes_part vault request s ss) (\<lambda>(ok, ss').
       bind_r (select_sources vault request sources ss') (\<lambda>(rest, ss'').
         Inr (if ok then s # rest else rest, ss'')))"

section \<open>The schedule\<close>

text \<open>The queues of the categories, in the order in which the categories first occur.\<close>

definition first_category :: "source \<Rightarrow> category" where
  "first_category s = (case src_categories s of [] \<Rightarrow> AnyCategory | c # _ \<Rightarrow> c)"

definition add_source :: "source \<Rightarrow> (category, source list) jmap \<Rightarrow> (category, source list) jmap" where
  "add_source s m = jm_set (first_category s) (list_or (jm_get m (first_category s)) @ [s]) m"

definition by_category :: "source list \<Rightarrow> (category, source list) jmap" where
  "by_category sources = fold add_source sources []"

text \<open>The loop as it is written: it runs until as many sources are scheduled as there are.\<close>

partial_function (option) schedule_loop :: "nat \<Rightarrow> 's list list \<Rightarrow> 's list \<Rightarrow> 's list option" where
  "schedule_loop n queues scheduled =
     (if length scheduled < n
      then schedule_loop n (map tl queues) (scheduled @ concat (map (take 1) queues)) else Some scheduled)"

definition schedule :: "source list \<Rightarrow> source list option" where
  "schedule sources = schedule_loop (length sources) (jm_values (by_category sources)) []"

lemma transpose_nonempty: "transpose xss = transpose (filter (\<lambda>xs. xs \<noteq> []) xss)"
proof (induction xss rule: transpose.induct)
  case (3 x xs xss)
  have "[h. h # t \<leftarrow> filter (\<lambda>xs. xs \<noteq> []) xss] = [h. h # t \<leftarrow> xss]"
    "[t. h # t \<leftarrow> filter (\<lambda>xs. xs \<noteq> []) xss] = [t. h # t \<leftarrow> xss]"
    by (simp_all add: transpose_aux_filter_head transpose_aux_filter_tail)
  then show ?case by simp
qed simp_all

lemma heads_taken: "concat (map (take 1) xss) = map hd (filter (\<lambda>xs. xs \<noteq> []) xss)"
proof (induction xss)
  case (Cons xs xss)
  then show ?case by (cases xs) simp_all
qed simp

lemma transpose_round:
  assumes "\<exists>xs \<in> set xss. xs \<noteq> []"
  shows "transpose xss = concat (map (take 1) xss) # transpose (map tl xss)"
  using assms
proof (induction xss rule: transpose.induct)
  case (3 x xs xss)
  have "transpose (xs # map tl (filter (\<lambda>ys. ys \<noteq> []) xss)) = transpose (xs # map tl xss)"
  proof -
    have "filter (\<lambda>ys. ys \<noteq> []) (map tl (filter (\<lambda>ys. ys \<noteq> []) xss)) = filter (\<lambda>ys. ys \<noteq> []) (map tl xss)"
      by (induction xss) auto
    then have "filter (\<lambda>ys. ys \<noteq> []) (xs # map tl (filter (\<lambda>ys. ys \<noteq> []) xss)) = filter (\<lambda>ys. ys \<noteq> []) (xs # map tl xss)"
      by (simp only: filter.simps)
    then show ?thesis
      using transpose_nonempty[of "xs # map tl (filter (\<lambda>ys. ys \<noteq> []) xss)"] transpose_nonempty[of "xs # map tl xss"]
      by (simp only:)
  qed
  then show ?case by (simp add: transpose_aux_filter_head transpose_aux_filter_tail heads_taken[unfolded One_nat_def])
next
  case (2 xss)
  then have "\<exists>xs \<in> set xss. xs \<noteq> []" by simp
  from 2(1)[OF this] show ?case by simp
qed simp

lemma no_columns: "\<not> (\<exists>xs \<in> set xss. xs \<noteq> []) \<Longrightarrow> concat (transpose xss) = []"
  using transpose_empty[of xss] by simp

lemma rest_after_round:
  "sum_list (map length xss) = length (concat (map (take 1) xss)) + sum_list (map length (map tl xss))"
proof (induction xss)
  case (Cons xs xss)
  then show ?case by (cases xs) simp_all
qed simp

lemma schedule_loop_transpose:
  "length scheduled + sum_list (map length queues) = n \<Longrightarrow>
     schedule_loop n queues scheduled = Some (scheduled @ concat (transpose queues))"
proof (induction "sum_list (map length queues)" arbitrary: queues scheduled rule: less_induct)
  case less
  show ?case
  proof (cases "\<exists>q \<in> set queues. q \<noteq> []")
    case False
    then have "sum_list (map length queues) = 0" "concat (transpose queues) = []" using no_columns[OF False] by auto
    moreover from this have "\<not> length scheduled < n" using less.prems by linarith
    ultimately show ?thesis by (subst schedule_loop.simps) simp
  next
    case True
    have round: "concat (map (take 1) queues) \<noteq> []" using True by (auto simp: neq_Nil_conv)
    then have smaller: "sum_list (map length (map tl queues)) < sum_list (map length queues)"
      using rest_after_round[of queues] by (metis add_cancel_right_left le_add2 length_0_conv nless_le)
    have "0 < sum_list (map length queues)" using smaller by linarith
    then have "length scheduled < n" using less.prems by linarith
    then have "schedule_loop n queues scheduled = schedule_loop n (map tl queues) (scheduled @ concat (map (take 1) queues))"
      by (subst schedule_loop.simps) (rule if_P)
    also have "\<dots> = Some ((scheduled @ concat (map (take 1) queues)) @ concat (transpose (map tl queues)))"
      using less.prems rest_after_round[of queues] by (intro less.hyps[OF smaller]) simp
    finally show ?thesis using transpose_round[OF True] by simp
  qed
qed

definition queues_ok :: "source list \<Rightarrow> (category, source list) jmap \<Rightarrow> bool" where
  "queues_ok sources m \<longleftrightarrow> jm_inv m \<and> (\<forall>c. list_or (jm_get m c) = filter (\<lambda>s. first_category s = c) sources)
     \<and> mset (concat (jm_values m)) = mset sources"

lemma mset_values_set:
  "jm_inv m \<Longrightarrow> mset (concat (jm_values (jm_set k (list_or (jm_get m k) @ xs) m))) = mset (concat (jm_values m)) + mset xs"
proof (induction m)
  case (Cons p m)
  then show ?case
    by (cases p) (auto simp: jm_get_def jm_values_def jm_inv_def)
qed (simp add: jm_get_def jm_values_def)

lemma by_category_ok: "queues_ok sources (by_category sources)"
proof (induction sources rule: rev_induct)
  case (snoc s sources)
  let ?m = "by_category sources"
  have m: "by_category (sources @ [s]) = add_source s ?m" by (simp add: by_category_def)
  have inv: "jm_inv (add_source s ?m)" using snoc by (simp add: queues_ok_def add_source_def jm_inv_set)
  have get: "list_or (jm_get (add_source s ?m) c) = filter (\<lambda>s. first_category s = c) (sources @ [s])" for c
    using snoc by (simp add: queues_ok_def add_source_def)
  have "mset (concat (jm_values (add_source s ?m))) = mset (sources @ [s])"
    using snoc mset_values_set[of ?m "first_category s" "[s]"] by (simp add: queues_ok_def add_source_def)
  with inv get show ?case unfolding queues_ok_def m by blast
qed (simp add: queues_ok_def by_category_def jm_get_def jm_values_def)

lemma mset_transpose: "mset (concat (transpose xss)) = mset (concat xss)"
proof (induction "sum_list (map length xss)" arbitrary: xss rule: less_induct)
  case less
  show ?case
  proof (cases "\<exists>xs \<in> set xss. xs \<noteq> []")
    case False
    then have "concat xss = []" by simp
    with no_columns[OF False] show ?thesis by (simp only:)
  next
    case True
    have round: "mset (concat (map (take 1) yss)) + mset (concat (map tl yss)) = mset (concat yss)" for yss :: "'a list list"
    proof (induction yss)
      case (Cons ys yss)
      then show ?case by (cases ys) (simp_all add: ac_simps)
    qed simp
    have "concat (map (take 1) xss) \<noteq> []" using True by (auto simp: neq_Nil_conv)
    then have "sum_list (map length (map tl xss)) < sum_list (map length xss)"
      using rest_after_round[of xss] by (metis add_cancel_right_left le_add2 length_0_conv nless_le)
    from less.hyps[OF this] round[of xss] transpose_round[OF True] show ?thesis by simp
  qed
qed

lemma in_set_tl: "x \<in> set (tl xs) \<Longrightarrow> x \<in> set xs"
  by (cases xs) auto

text \<open>In a list of the elements of some queues the ones of one queue keep their order.\<close>

lemma transpose_filter:
  assumes "distinct (map fst kqs)" "\<forall>(k, q) \<in> set kqs. \<forall>s \<in> set q. key s = k"
  shows "filter (\<lambda>s. key s = c) (concat (transpose (map snd kqs))) = list_or (map_of kqs c)"
  using assms
proof (induction "sum_list (map (length \<circ> snd) kqs)" arbitrary: kqs rule: less_induct)
  case less
  show ?case
  proof (cases "\<exists>xs \<in> set (map snd kqs). xs \<noteq> []")
    case False
    then have "concat (transpose (map snd kqs)) = []" by (rule no_columns)
    moreover have "list_or (map_of kqs c) = []" using False by (cases "map_of kqs c") (auto dest!: map_of_SomeD)
    ultimately show ?thesis by (simp only: filter.simps)
  next
    case True
    let ?tl = "map (\<lambda>(k, q). (k, tl q)) kqs"
    have heads: "filter (\<lambda>s. key s = c) (concat (map (take 1) (map snd kqs))) = take 1 (list_or (map_of kqs c))"
      using less.prems
    proof (induction kqs)
      case (Cons kq kqs)
      obtain k q where kq: "kq = (k, q)" by (cases kq)
      have q: "filter (\<lambda>s. key s = c) (take 1 q) = (if k = c then take 1 q else [])"
        using Cons.prems(2) by (cases q) (auto simp: kq)
      have "k = c \<Longrightarrow> map_of kqs c = None" using Cons.prems(1) by (auto simp: kq map_of_eq_None_iff)
      then show ?case using Cons q by (auto simp: kq)
    qed simp
    have "concat (map (take 1) (map snd kqs)) \<noteq> []" using True by (auto simp: neq_Nil_conv)
    then have "sum_list (map length (map tl (map snd kqs))) < sum_list (map length (map snd kqs))"
      using rest_after_round[of "map snd kqs"] by (metis add_cancel_right_left le_add2 length_0_conv nless_le)
    then have smaller: "sum_list (map (length \<circ> snd) ?tl) < sum_list (map (length \<circ> snd) kqs)"
      by (simp add: comp_def case_prod_unfold)
    have tls: "map tl (map snd kqs) = map snd ?tl" by (simp add: case_prod_unfold)
    have ok: "distinct (map fst ?tl)" "\<forall>(k, q) \<in> set ?tl. \<forall>s \<in> set q. key s = k"
      using less.prems by (auto simp: case_prod_unfold comp_def dest: in_set_tl)
    have get: "list_or (map_of ?tl c) = tl (list_or (map_of kqs c))"
      by (induction kqs) auto
    have "filter (\<lambda>s. key s = c) (concat (transpose (map snd kqs))) = take 1 (list_or (map_of kqs c)) @ tl (list_or (map_of kqs c))"
      unfolding transpose_round[OF True] concat.simps filter_append heads tls less.hyps[OF smaller ok] get by (rule refl)
    then show ?thesis by (cases "list_or (map_of kqs c)") simp_all
  qed
qed

text \<open>
  C22: the scheduling loop ends and is a round robin. It schedules every source once; the sources of a
  category keep their order; and the schedule is the columns of the categories' queues one after
  the other, so that no category waits for another one that has been asked more often.
\<close>

theorem schedule_round_robin:
  "\<exists>scheduled. schedule sources = Some scheduled
     \<and> scheduled = concat (transpose (jm_values (by_category sources)))
     \<and> mset scheduled = mset sources
     \<and> (\<forall>c. filter (\<lambda>s. first_category s = c) scheduled = filter (\<lambda>s. first_category s = c) sources)"
proof -
  let ?m = "by_category sources"
  have ok: "jm_inv ?m" "\<And>c. list_or (jm_get ?m c) = filter (\<lambda>s. first_category s = c) sources"
    "mset (concat (jm_values ?m)) = mset sources"
    using by_category_ok[of sources] by (simp_all add: queues_ok_def)
  have "sum_list (map length (jm_values ?m)) = length sources"
    using ok(3) by (metis length_concat size_mset)
  then have s: "schedule sources = Some (concat (transpose (jm_values ?m)))"
    unfolding schedule_def by (subst schedule_loop_transpose) simp_all
  have "\<forall>(k, q) \<in> set ?m. \<forall>s \<in> set q. first_category s = k"
  proof (clarify)
    fix k q s assume "(k, q) \<in> set ?m" "s \<in> set q"
    then have "list_or (jm_get ?m k) = q" using ok(1) by (simp add: jm_get_def jm_inv_def)
    with ok(2)[of k] \<open>s \<in> set q\<close> show "first_category s = k" by (auto dest: arg_cong[of _ _ set])
  qed
  then have "filter (\<lambda>s. first_category s = c) (concat (transpose (jm_values ?m))) = filter (\<lambda>s. first_category s = c) sources" for c
    using transpose_filter[of ?m first_category c] ok(1,2) by (simp add: jm_values_def jm_inv_def jm_get_def)
  with s ok(3) mset_transpose[of "jm_values ?m"] show ?thesis by simp
qed

section \<open>The search\<close>

datatype search_emit =
    SearchingEvent jstring
  | CompleteEvent jstring nat
  | ErrorEvent jstring jstring
  | ResultsEvent search_event
  | SummaryEvent nat

text \<open>
  The sources are numbered by the schedule. \<open>sx_accepted\<close> has the ids of the works each running
  source has published, \<open>sx_timed\<close> the sources whose 45 seconds are over, \<open>sx_aliases\<close> the
  titles still to be searched, unknown during the first pass, and \<open>sx_passes\<close> counts the ended
  passes. A stopped pool is an aborted search.
\<close>

record search_run =
  sx_pool :: pool
  sx_results :: search_results
  sx_events :: "search_emit list"
  sx_accepted :: "(nat, jstring list) jmap"
  sx_timed :: "nat list"
  sx_aborted :: "error option"
  sx_aliases :: "jstring list option"
  sx_passes :: nat
  sx_outcome :: "(error, nat) result option"

definition search_workers :: "nat \<Rightarrow> nat" where
  "search_workers n = min 4 n"

definition new_run :: "search_results \<Rightarrow> search_run" where
  "new_run st = \<lparr>sx_pool = new_pool, sx_results = st, sx_events = [], sx_accepted = [], sx_timed = [],
     sx_aborted = None, sx_aliases = None, sx_passes = 0, sx_outcome = None\<rparr>"

definition emit_events :: "search_emit list \<Rightarrow> search_run \<Rightarrow> search_run" where
  "emit_events es s = s\<lparr>sx_events := sx_events s @ es\<rparr>"

definition accepted_by :: "nat \<Rightarrow> search_run \<Rightarrow> jstring list" where
  "accepted_by i s = list_or (jm_get (sx_accepted s) i)"

text \<open>\<open>accept\<close>: the absent branch of \<open>add\<close>, a failed rebuild, does not occur.\<close>

definition accept_work :: "runtime \<Rightarrow> nat \<Rightarrow> work \<Rightarrow> search_run \<Rightarrow> search_run" where
  "accept_work rt i w s =
     (case add_work rt w (sx_results s) of
        None \<Rightarrow> s
      | Some (added, st, es) \<Rightarrow>
          (emit_events (map ResultsEvent es) s)\<lparr>sx_results := st,
             sx_accepted := (if added \<and> w_id w \<notin> set (accepted_by i s)
               then jm_set i (accepted_by i s @ [w_id w]) (sx_accepted s) else sx_accepted s)\<rparr>)"

text \<open>The end of a source: an aborted search reports nothing, a timed out source no more works.\<close>

definition end_source :: "runtime \<Rightarrow> jstring list \<Rightarrow> nat \<Rightarrow> (error, work list) result \<Rightarrow> search_run \<Rightarrow> search_run" where
  "end_source rt ids i outcome s =
     (if pl_stopped (sx_pool s) then s
      else case (case outcome of Inr (_ # _) \<Rightarrow> if i \<in> set (sx_timed s) then Inl TimedOut else outcome | _ \<Rightarrow> outcome) of
          Inl e \<Rightarrow> emit_events [ErrorEvent (ids ! i) (safeError e)] s
        | Inr works \<Rightarrow> (let s' = fold (accept_work rt i) works s
            in emit_events [CompleteEvent (ids ! i) (length (accepted_by i s'))] s'))"

text \<open>The end of a pass: the next title, the summary, or the abort.\<close>

definition end_pass :: "runtime \<Rightarrow> jstring \<Rightarrow> search_run \<Rightarrow> search_run" where
  "end_pass rt query s =
     (case sx_aborted s of
        Some e \<Rightarrow> s\<lparr>sx_outcome := Some (Inl e)\<rparr>
      | None \<Rightarrow>
          (case (case sx_aliases s of None \<Rightarrow> title_aliases rt query (sx_results s) | Some rest \<Rightarrow> rest) of
             [] \<Rightarrow> (emit_events [SummaryEvent (results_size (sx_results s))] s)
               \<lparr>sx_outcome := Some (Inr (results_size (sx_results s)))\<rparr>
           | title # rest \<Rightarrow> s\<lparr>sx_results := addQuery rt title (sx_results s), sx_aliases := Some rest,
               sx_pool := new_pool, sx_accepted := [], sx_timed := [], sx_passes := Suc (sx_passes s)\<rparr>))"

datatype search_input =
    TakeSource
  | Publish nat work
  | EndSource nat "(error, work list) result"
  | TimeOut nat
  | AbortSearch "error"
  | EndPass

definition is_running :: "nat \<Rightarrow> search_run \<Rightarrow> bool" where
  "is_running i s \<longleftrightarrow> i \<in> set (pl_running (sx_pool s))"

definition pass_over :: "nat \<Rightarrow> search_run \<Rightarrow> bool" where
  "pass_over n s \<longleftrightarrow> pl_running (sx_pool s) = [] \<and> \<not> can_take n (search_workers n) (sx_pool s)"

text \<open>An input that cannot happen in a state leaves it as it is.\<close>

fun search_input_step :: "runtime \<Rightarrow> jstring list \<Rightarrow> jstring \<Rightarrow> search_input \<Rightarrow> search_run \<Rightarrow> search_run" where
  "search_input_step rt ids query TakeSource s =
     (if can_take (length ids) (search_workers (length ids)) (sx_pool s)
      then (emit_events [SearchingEvent (ids ! pl_next (sx_pool s))] s)
        \<lparr>sx_accepted := jm_set (pl_next (sx_pool s)) [] (sx_accepted s), sx_pool := take_job (sx_pool s)\<rparr> else s)"
| "search_input_step rt ids query (Publish i w) s =
     (if is_running i s \<and> \<not> pl_stopped (sx_pool s) \<and> i \<notin> set (sx_timed s) then accept_work rt i w s else s)"
| "search_input_step rt ids query (EndSource i outcome) s =
     (if is_running i s
      then let s' = end_source rt ids i outcome s in s'\<lparr>sx_pool := finish_job i (sx_pool s')\<rparr> else s)"
| "search_input_step rt ids query (TimeOut i) s =
     (if is_running i s then s\<lparr>sx_timed := i # sx_timed s\<rparr> else s)"
| "search_input_step rt ids query (AbortSearch e) s =
     (if sx_aborted s = None then s\<lparr>sx_aborted := Some e, sx_pool := stop_pool (sx_pool s)\<rparr> else s)"
| "search_input_step rt ids query EndPass s =
     (if pass_over (length ids) s then end_pass rt query s else s)"

definition search_exec :: "runtime \<Rightarrow> jstring list \<Rightarrow> jstring \<Rightarrow> search_input list \<Rightarrow> search_run \<Rightarrow> search_run" where
  "search_exec rt ids query inputs s =
     fold (\<lambda>i s. if sx_outcome s = None then search_input_step rt ids query i s else s) inputs s"

text \<open>The start: the query is checked, the taking sources are chosen and scheduled.\<close>

definition start_search :: "runtime \<Rightarrow> vault \<Rightarrow> source list \<Rightarrow> search_request \<Rightarrow> source_settings
    \<Rightarrow> (error, jstring \<times> source list \<times> search_run \<times> source_settings) result" where
  "start_search rt vault sources request ss =
     (let query = trim (r_query request) in
      if query = [] \<or> length query > 500 then Inl (Failed (js ''Enter a title or a link.''))
      else bind_r (select_sources vault request sources ss) (\<lambda>(chosen, ss').
        case schedule chosen of
          None \<Rightarrow> Inl (Failed [])
        | Some scheduled \<Rightarrow> Inr (query, scheduled, new_run (new_results rt query (r_language request)), ss')))"

interpretation searching: worker_pool n "search_workers n" 4 for n
  by unfold_locales (simp_all add: search_workers_def)

section \<open>The results of a search\<close>

definition is_results :: "search_emit \<Rightarrow> search_event list" where
  "is_results e = (case e of ResultsEvent r \<Rightarrow> [r] | _ \<Rightarrow> [])"

text \<open>The results are those of a run of \<open>SearchResults\<close> and the events are its events.\<close>

definition results_from :: "runtime \<Rightarrow> search_results \<Rightarrow> search_run \<Rightarrow> bool" where
  "results_from rt st0 s \<longleftrightarrow>
     (\<exists>ops works. run_results rt ops st0 = Some (sx_results s, concat (map is_results (sx_events s)), works))"

lemma run_results_append:
  "run_results rt ops st = Some (st1, es1, ws1) \<Longrightarrow> run_results rt ops' st1 = Some (st2, es2, ws2) \<Longrightarrow>
     run_results rt (ops @ ops') st = Some (st2, es1 @ es2, ws1 @ ws2)"
  by (induction rt ops st arbitrary: es1 ws1 rule: run_results.induct) (auto split: option.splits)

lemma results_from_emit:
  "results_from rt st0 s \<Longrightarrow> concat (map is_results es) = [] \<Longrightarrow> results_from rt st0 (emit_events es s)"
  by (simp add: results_from_def emit_events_def del: concat_eq_Nil_conv)

lemma results_from_cong:
  "results_from rt st0 s \<Longrightarrow> sx_results s' = sx_results s \<Longrightarrow> sx_events s' = sx_events s \<Longrightarrow> results_from rt st0 s'"
  by (simp add: results_from_def)

lemma results_from_accept:
  assumes "results_from rt st0 s"
  shows "results_from rt st0 (accept_work rt i w s)"
proof (cases "add_work rt w (sx_results s)")
  case None
  then show ?thesis using assms by (simp add: accept_work_def)
next
  case (Some r)
  obtain added st es where r: "r = (added, st, es)" by (cases r)
  obtain ops works where run: "run_results rt ops st0 = Some (sx_results s, concat (map is_results (sx_events s)), works)"
    using assms by (auto simp: results_from_def)
  have "run_results rt [OpAdd w] (sx_results s) = Some (st, es, if added then [w] else [])"
    using Some r by simp
  from run_results_append[OF run this] have "\<exists>works. run_results rt (ops @ [OpAdd w]) st0 =
      Some (st, concat (map is_results (sx_events s)) @ es, works)" by blast
  moreover have "concat (map is_results (map ResultsEvent es)) = es" by (induction es) (simp_all add: is_results_def)
  ultimately show ?thesis
    using Some r unfolding results_from_def
    by (intro exI[of _ "ops @ [OpAdd w]"]) (simp add: accept_work_def emit_events_def)
qed

lemma results_from_query:
  assumes "results_from rt st0 s" and "sx_results s' = addQuery rt q (sx_results s)" and "sx_events s' = sx_events s"
  shows "results_from rt st0 s'"
proof -
  obtain ops works where run: "run_results rt ops st0 = Some (sx_results s, concat (map is_results (sx_events s)), works)"
    using assms(1) by (auto simp: results_from_def)
  have "run_results rt [OpQuery q] (sx_results s) = Some (addQuery rt q (sx_results s), [], [])" by simp
  from run_results_append[OF run this] assms(2,3) show ?thesis unfolding results_from_def by auto
qed

lemma results_from_fold: "results_from rt st0 s \<Longrightarrow> results_from rt st0 (fold (accept_work rt i) works s)"
  by (induction works arbitrary: s) (simp_all add: results_from_accept)

lemma results_from_step:
  assumes "results_from rt st0 s"
  shows "results_from rt st0 (search_input_step rt ids query x s)"
proof (cases x)
  case (EndSource i outcome)
  have "results_from rt st0 (end_source rt ids i outcome s)"
    using assms by (auto simp: end_source_def Let_def is_results_def results_from_fold results_from_accept
        intro!: results_from_emit split: sum.splits list.splits)
  then show ?thesis using EndSource assms by (auto simp: Let_def intro: results_from_cong)
next
  case EndPass
  have "results_from rt st0 (end_pass rt query s)"
  proof (cases "sx_aborted s")
    case None
    have "results_from rt st0 (emit_events [SummaryEvent (results_size (sx_results s))] s)"
      by (rule results_from_emit[OF assms]) (simp add: is_results_def)
    with None assms show ?thesis
      by (auto simp: end_pass_def split: option.splits list.splits intro: results_from_cong results_from_query)
  qed (use assms in \<open>simp add: end_pass_def results_from_def\<close>)
  then show ?thesis using EndPass assms by simp
next
  case TakeSource
  have "results_from rt st0 (emit_events [SearchingEvent (ids ! pl_next (sx_pool s))] s)"
    by (rule results_from_emit[OF assms]) (simp add: is_results_def)
  from results_from_cong[OF this] assms show ?thesis unfolding TakeSource search_input_step.simps by simp
next
  case (Publish i w)
  show ?thesis using assms results_from_accept[OF assms] unfolding Publish search_input_step.simps by simp
next
  case (TimeOut i)
  show ?thesis using assms results_from_cong[OF assms] unfolding TimeOut search_input_step.simps by simp
next
  case (AbortSearch e)
  show ?thesis using assms results_from_cong[OF assms] unfolding AbortSearch search_input_step.simps by simp
qed

section \<open>The accounts of a search\<close>

definition started :: "jstring \<Rightarrow> search_emit list \<Rightarrow> nat" where
  "started x es = length (filter (\<lambda>e. e = SearchingEvent x) es)"

definition ends :: "jstring \<Rightarrow> search_emit \<Rightarrow> bool" where
  "ends x e \<longleftrightarrow> (case e of CompleteEvent y _ \<Rightarrow> y = x | ErrorEvent y _ \<Rightarrow> y = x | _ \<Rightarrow> False)"

definition ended :: "jstring \<Rightarrow> search_emit list \<Rightarrow> nat" where
  "ended x es = length (filter (ends x) es)"

lemma started_simps [simp]:
  "started x (es @ es') = started x es + started x es'" "started x [] = 0"
  "started x [e] = (if e = SearchingEvent x then 1 else 0)" "started x (map ResultsEvent rs) = 0"
  by (simp_all add: started_def filter_empty_conv)

lemma ended_simps [simp]:
  "ended x (es @ es') = ended x es + ended x es'" "ended x [] = 0"
  "ended x [e] = (if ends x e then 1 else 0)" "ended x (map ResultsEvent rs) = 0"
  "ends x (SearchingEvent y) = False" "ends x (ResultsEvent r) = False" "ends x (SummaryEvent n) = False"
  "ends x (CompleteEvent y n) = (y = x)" "ends x (ErrorEvent y m) = (y = x)"
  by (simp_all add: ended_def ends_def filter_empty_conv)

text \<open>The accounts depend on the number of passes, the pool and the events only.\<close>

definition accounts :: "jstring list \<Rightarrow> nat \<Rightarrow> pool \<Rightarrow> search_emit list \<Rightarrow> bool" where
  "accounts ids passes p es \<longleftrightarrow> (\<forall>i < length ids.
       started (ids ! i) es = passes + (if i < pl_next p then 1 else 0)
     \<and> ended (ids ! i) es \<le> passes + (if i \<in> set (pl_done p) then 1 else 0)
     \<and> (\<not> pl_stopped p \<longrightarrow> ended (ids ! i) es = passes + (if i \<in> set (pl_done p) then 1 else 0)))"

definition titles_left :: "search_run \<Rightarrow> nat" where
  "titles_left s = (case sx_aliases s of None \<Rightarrow> 3 | Some rest \<Rightarrow> length rest)"

definition finished_ok :: "jstring list \<Rightarrow> search_run \<Rightarrow> bool" where
  "finished_ok ids s \<longleftrightarrow> (\<forall>m. sx_outcome s = Some (Inr m) \<longrightarrow> pass_over (length ids) s \<and> \<not> pl_stopped (sx_pool s)
     \<and> m = results_size (sx_results s) \<and> sx_events s \<noteq> [] \<and> last (sx_events s) = SummaryEvent m)"

definition search_inv :: "jstring list \<Rightarrow> search_run \<Rightarrow> bool" where
  "search_inv ids s \<longleftrightarrow> pool_reached (length ids) (search_workers (length ids)) (sx_pool s)
     \<and> accounts ids (sx_passes s) (sx_pool s) (sx_events s) \<and> sx_passes s + titles_left s \<le> 3
     \<and> (pl_stopped (sx_pool s) \<longleftrightarrow> sx_aborted s \<noteq> None) \<and> finished_ok ids s"

lemma accept_work_keeps [simp]:
  "sx_pool (accept_work rt i w s) = sx_pool s" "sx_passes (accept_work rt i w s) = sx_passes s"
  "sx_aliases (accept_work rt i w s) = sx_aliases s" "sx_aborted (accept_work rt i w s) = sx_aborted s"
  "sx_outcome (accept_work rt i w s) = sx_outcome s"
  "started x (sx_events (accept_work rt i w s)) = started x (sx_events s)"
  "ended x (sx_events (accept_work rt i w s)) = ended x (sx_events s)"
  by (auto simp: accept_work_def emit_events_def split: option.split prod.split)

lemma fold_accept_keeps [simp]:
  "sx_pool (fold (accept_work rt i) ws s) = sx_pool s" "sx_passes (fold (accept_work rt i) ws s) = sx_passes s"
  "sx_aliases (fold (accept_work rt i) ws s) = sx_aliases s" "sx_aborted (fold (accept_work rt i) ws s) = sx_aborted s"
  "sx_outcome (fold (accept_work rt i) ws s) = sx_outcome s"
  "started x (sx_events (fold (accept_work rt i) ws s)) = started x (sx_events s)"
  "ended x (sx_events (fold (accept_work rt i) ws s)) = ended x (sx_events s)"
  by (induction ws arbitrary: s) simp_all

lemma end_source_keeps [simp]:
  "sx_pool (end_source rt ids i r s) = sx_pool s" "sx_passes (end_source rt ids i r s) = sx_passes s"
  "sx_aliases (end_source rt ids i r s) = sx_aliases s" "sx_aborted (end_source rt ids i r s) = sx_aborted s"
  "sx_outcome (end_source rt ids i r s) = sx_outcome s"
  "started x (sx_events (end_source rt ids i r s)) = started x (sx_events s)"
  "ended x (sx_events (end_source rt ids i r s)) = ended x (sx_events s) + (if \<not> pl_stopped (sx_pool s) \<and> ids ! i = x then 1 else 0)"
  by (auto simp: end_source_def emit_events_def Let_def split: sum.split list.split)

lemma titles_left_cong: "sx_aliases s' = sx_aliases s \<Longrightarrow> titles_left s' = titles_left s"
  by (simp add: titles_left_def)

lemma search_inv_running:
  assumes "search_inv ids s" "sx_outcome s = None" and "sx_passes s' = sx_passes s" "sx_aliases s' = sx_aliases s"
    "sx_outcome s' = sx_outcome s"
    and "pool_reached (length ids) (search_workers (length ids)) (sx_pool s')"
    and "pl_stopped (sx_pool s') \<longleftrightarrow> sx_aborted s' \<noteq> None" and "accounts ids (sx_passes s) (sx_pool s') (sx_events s')"
  shows "search_inv ids s'"
  using assms titles_left_cong[OF assms(4)] by (simp add: search_inv_def finished_ok_def)

lemma title_aliases_few: "length (title_aliases rt query st) \<le> 3"
  by (simp add: title_aliases_def Let_def)

lemma accounts_over:
  assumes "accounts ids passes p es" "pool_reached (length ids) w p" "worker_pool (length ids) w 4"
    "pl_running p = []" "\<not> can_take (length ids) w p" "\<not> pl_stopped p" "i < length ids"
  shows "started (ids ! i) es = passes + 1 \<and> ended (ids ! i) es = passes + 1"
proof -
  have "mset (pl_done p) = mset [0..<length ids]"
    by (rule worker_pool.pool_complete[OF assms(3,2,4,5,6)])
  from arg_cong[OF this, of set_mset] have "set (pl_done p) = {0..<length ids}" by simp
  then have d: "i \<in> set (pl_done p)" using assms(7) by simp
  have "set (pl_running p @ pl_done p) = {..<pl_next p}"
    using worker_pool.pool_reached_inv[OF assms(3,2)] by (simp only: pool_inv_def)
  from this[unfolded assms(4) append_Nil] d have "i \<in> {..<pl_next p}" by (rule subst)
  then have "i < pl_next p" by simp
  note d this
  then show ?thesis using assms(1,6,7) by (simp add: accounts_def)
qed

lemma search_inv_new: "search_inv ids (new_run st)"
  by (simp add: search_inv_def new_run_def accounts_def new_pool_def finished_ok_def titles_left_def
      pool_reached.start[unfolded new_pool_def])

lemma search_inv_take:
  assumes "search_inv ids s" "sx_outcome s = None" "distinct ids"
  shows "search_inv ids (search_input_step rt ids query TakeSource s)"
proof (cases "can_take (length ids) (search_workers (length ids)) (sx_pool s)")
  case True
  let ?p = "sx_pool s"
  have r: "pool_reached (length ids) (search_workers (length ids)) (take_job ?p)"
    using assms(1) True by (meson pool_reached.step search_inv_def take_step)
  have n: "pl_next ?p < length ids" using True by (simp add: can_take_def)
  have a: "accounts ids (sx_passes s) (take_job ?p) (sx_events s @ [SearchingEvent (ids ! pl_next ?p)])"
    using assms(1,3) n by (auto simp: search_inv_def accounts_def take_job_def nth_eq_iff_index_eq)
  show ?thesis
    by (rule search_inv_running[OF assms(1,2)])
      (use True r a assms(1) in \<open>simp_all add: emit_events_def search_inv_def searching.take_job_not_stop\<close>)
qed (use assms in simp)

lemma search_inv_end_source:
  assumes "search_inv ids s" "sx_outcome s = None" "distinct ids"
  shows "search_inv ids (search_input_step rt ids query (EndSource i r) s)"
proof (cases "is_running i s")
  case True
  let ?p = "sx_pool s"
  have reached: "pool_reached (length ids) (search_workers (length ids)) ?p" using assms(1) by (simp add: search_inv_def)
  have run: "i \<in> set (pl_running ?p)" using True by (simp add: is_running_def)
  have r: "pool_reached (length ids) (search_workers (length ids)) (finish_job i ?p)"
    by (rule pool_reached.step[OF reached finish_step[OF run]])
  have inv: "distinct (pl_running ?p @ pl_done ?p)" "set (pl_running ?p @ pl_done ?p) = {..<pl_next ?p}" "pl_next ?p \<le> length ids"
    using searching.pool_reached_inv[OF reached] by (simp_all add: pool_inv_def)
  have "i \<in> set (pl_running ?p @ pl_done ?p)" using run by simp
  then have "i \<in> {..<pl_next ?p}" unfolding inv(2) .
  then have i: "i < length ids" "i \<notin> set (pl_done ?p)" using run inv(1,3) by auto
  have a: "accounts ids (sx_passes s) (finish_job i ?p) (sx_events (end_source rt ids i r s))"
    unfolding accounts_def
  proof (intro allI impI conjI)
    fix k assume k: "k < length ids"
    have old: "started (ids ! k) (sx_events s) = sx_passes s + (if k < pl_next ?p then 1 else 0)"
      "ended (ids ! k) (sx_events s) \<le> sx_passes s + (if k \<in> set (pl_done ?p) then 1 else 0)"
      "\<not> pl_stopped ?p \<Longrightarrow> ended (ids ! k) (sx_events s) = sx_passes s + (if k \<in> set (pl_done ?p) then 1 else 0)"
      using assms(1) k by (auto simp: search_inv_def accounts_def)
    have same: "ids ! i = ids ! k \<longleftrightarrow> i = k" using assms(3) i(1) k by (rule nth_eq_iff_index_eq)
    have dn: "set (pl_done (finish_job i ?p)) = insert i (set (pl_done ?p))" by (auto simp: finish_job_def)
    show "started (ids ! k) (sx_events (end_source rt ids i r s)) = sx_passes s + (if k < pl_next (finish_job i ?p) then 1 else 0)"
      using old(1) by (simp add: finish_job_def)
    show "ended (ids ! k) (sx_events (end_source rt ids i r s)) \<le> sx_passes s + (if k \<in> set (pl_done (finish_job i ?p)) then 1 else 0)"
      using old(2) i(2) by (auto simp: dn same split: if_splits)
    show "ended (ids ! k) (sx_events (end_source rt ids i r s)) = sx_passes s + (if k \<in> set (pl_done (finish_job i ?p)) then 1 else 0)"
      if "\<not> pl_stopped (finish_job i ?p)"
      using old(3) i(2) that by (auto simp: dn same searching.finish_job_not_stop)
  qed
  show ?thesis
    by (rule search_inv_running[OF assms(1,2)])
      (use True r a assms(1) in \<open>simp_all add: Let_def search_inv_def searching.finish_job_not_stop\<close>)
qed (use assms in simp)

lemma search_inv_end_pass:
  assumes "search_inv ids s" "sx_outcome s = None"
  shows "search_inv ids (search_input_step rt ids query EndPass s)"
proof (cases "pass_over (length ids) s")
  case over: True
  show ?thesis
  proof (cases "sx_aborted s")
    case (Some e)
    then show ?thesis using assms over by (simp add: search_inv_def end_pass_def finished_ok_def titles_left_def)
  next
    case None
    let ?rest = "case sx_aliases s of None \<Rightarrow> title_aliases rt query (sx_results s) | Some rest \<Rightarrow> rest"
    have few: "length ?rest + sx_passes s \<le> 3"
      using assms(1) title_aliases_few[of rt query "sx_results s"]
      by (auto simp: search_inv_def titles_left_def split: option.splits)
    have up: "\<not> pl_stopped (sx_pool s)" using assms(1) None by (simp add: search_inv_def)
    show ?thesis
    proof (cases ?rest)
      case Nil
      then show ?thesis
        using assms over None up
        by (simp add: end_pass_def search_inv_def accounts_def finished_ok_def titles_left_def emit_events_def pass_over_def)
    next
      case (Cons title rest)
      have "accounts ids (Suc (sx_passes s)) new_pool (sx_events s)"
        unfolding accounts_def
      proof (intro allI impI conjI)
        fix k assume k: "k < length ids"
        have "started (ids ! k) (sx_events s) = sx_passes s + 1 \<and> ended (ids ! k) (sx_events s) = sx_passes s + 1"
          using accounts_over[OF _ _ searching.worker_pool_axioms _ _ up k] assms(1) over
          by (simp add: search_inv_def pass_over_def)
        then show "started (ids ! k) (sx_events s) = Suc (sx_passes s) + (if k < pl_next new_pool then 1 else 0)"
          "ended (ids ! k) (sx_events s) \<le> Suc (sx_passes s) + (if k \<in> set (pl_done new_pool) then 1 else 0)"
          "ended (ids ! k) (sx_events s) = Suc (sx_passes s) + (if k \<in> set (pl_done new_pool) then 1 else 0)"
          by (simp_all add: new_pool_def)
      qed
      moreover have "pool_reached (length ids) (search_workers (length ids)) new_pool" by (rule pool_reached.start)
      ultimately show ?thesis
        using assms over None Cons few
        by (simp add: end_pass_def search_inv_def finished_ok_def titles_left_def new_pool_def)
    qed
  qed
qed (use assms in simp)

lemma search_inv_step:
  assumes "search_inv ids s" "sx_outcome s = None" "distinct ids"
  shows "search_inv ids (search_input_step rt ids query x s)"
proof (cases x)
  case (Publish i w)
  have "accounts ids (sx_passes s) (sx_pool s) (sx_events (accept_work rt i w s))"
    using assms(1) by (simp add: search_inv_def accounts_def)
  then have "search_inv ids (accept_work rt i w s)"
    using assms(1) by (intro search_inv_running[OF assms(1,2)]) (simp_all add: search_inv_def)
  then show ?thesis using Publish assms(1) by simp
next
  case (TimeOut i)
  have "search_inv ids (s\<lparr>sx_timed := i # sx_timed s\<rparr>)"
    using assms(1) by (intro search_inv_running[OF assms(1,2)]) (simp_all add: search_inv_def)
  then show ?thesis using TimeOut assms(1) by simp
next
  case (AbortSearch e)
  have "pool_reached (length ids) (search_workers (length ids)) (stop_pool (sx_pool s))"
    using assms(1) by (meson pool_reached.step search_inv_def stop_step)
  then have "search_inv ids (s\<lparr>sx_aborted := Some e, sx_pool := stop_pool (sx_pool s)\<rparr>)"
    using assms(1) by (intro search_inv_running[OF assms(1,2)]) (simp_all add: search_inv_def stop_pool_def accounts_def)
  then show ?thesis using AbortSearch assms(1) by simp
qed (use assms search_inv_take search_inv_end_source search_inv_end_pass in simp_all)

lemma search_exec_inv:
  assumes "distinct ids"
  shows "search_inv ids s \<Longrightarrow> search_inv ids (search_exec rt ids query inputs s)"
  by (induction inputs arbitrary: s) (simp_all add: search_exec_def search_inv_step[OF _ _ assms])

text \<open>
  C5: the accounts of a search. At every moment at most four sources are asked and no source is asked
  twice in a pass; a source ends at most as often as it starts, and there are at most four passes,
  for the query and three aliases. When the search ends, every source has ended as often as it
  started, once per pass, and the last event is the summary with the number of works.
\<close>

theorem search_accounts:
  assumes "distinct ids" and "s = search_exec rt ids query inputs (new_run st)"
  shows "length (pl_running (sx_pool s)) \<le> 4 \<and> distinct (pl_running (sx_pool s) @ pl_done (sx_pool s)) \<and> sx_passes s \<le> 3
     \<and> (\<forall>x \<in> set ids. ended x (sx_events s) \<le> started x (sx_events s) \<and> started x (sx_events s) \<le> Suc (sx_passes s))
     \<and> (\<forall>m. sx_outcome s = Some (Inr m) \<longrightarrow> m = results_size (sx_results s) \<and> last (sx_events s) = SummaryEvent m
        \<and> (\<forall>x \<in> set ids. started x (sx_events s) = Suc (sx_passes s) \<and> ended x (sx_events s) = Suc (sx_passes s)))"
proof -
  have inv: "search_inv ids s" unfolding assms(2) by (rule search_exec_inv[OF assms(1) search_inv_new])
  have reached: "pool_reached (length ids) (search_workers (length ids)) (sx_pool s)" using inv by (simp add: search_inv_def)
  have acc: "accounts ids (sx_passes s) (sx_pool s) (sx_events s)" using inv by (simp add: search_inv_def)
  have below: "i < pl_next (sx_pool s)" if "i \<in> set (pl_done (sx_pool s))" for i
  proof -
    have "set (pl_running (sx_pool s) @ pl_done (sx_pool s)) = {..<pl_next (sx_pool s)}"
      using searching.pool_reached_inv[OF reached] by (simp only: pool_inv_def)
    with that have "i \<in> {..<pl_next (sx_pool s)}" by (metis UnI2 set_append)
    then show ?thesis by simp
  qed
  have every: "ended x (sx_events s) \<le> started x (sx_events s) \<and> started x (sx_events s) \<le> Suc (sx_passes s)" if "x \<in> set ids" for x
  proof -
    from that obtain i where i: "i < length ids" "x = ids ! i" by (auto simp: in_set_conv_nth)
    then have "started x (sx_events s) = sx_passes s + (if i < pl_next (sx_pool s) then 1 else 0)"
      "ended x (sx_events s) \<le> sx_passes s + (if i \<in> set (pl_done (sx_pool s)) then 1 else 0)"
      using acc by (simp_all only: accounts_def)
    then show ?thesis using below[of i] by (auto split: if_splits)
  qed
  have final: "started x (sx_events s) = Suc (sx_passes s) \<and> ended x (sx_events s) = Suc (sx_passes s)"
    if "sx_outcome s = Some (Inr m)" "x \<in> set ids" for m x
  proof -
    from that(2) obtain i where i: "i < length ids" "x = ids ! i" by (auto simp: in_set_conv_nth)
    have f: "pass_over (length ids) s" "\<not> pl_stopped (sx_pool s)" using inv that(1) by (auto simp: search_inv_def finished_ok_def)
    show ?thesis
      using accounts_over[OF acc reached searching.worker_pool_axioms _ _ f(2) i(1)] f(1) i(2) by (simp add: pass_over_def)
  qed
  have "sx_passes s \<le> 3" using inv by (simp add: search_inv_def)
  moreover have "\<forall>m. sx_outcome s = Some (Inr m) \<longrightarrow> m = results_size (sx_results s) \<and> last (sx_events s) = SummaryEvent m"
    using inv by (auto simp: search_inv_def finished_ok_def)
  ultimately show ?thesis using every final searching.pool_bounded[OF reached] by blast
qed

lemma search_exec_results:
  "results_from rt st0 s \<Longrightarrow> results_from rt st0 (search_exec rt ids query inputs s)"
  by (induction inputs arbitrary: s) (simp_all add: search_exec_def results_from_step)

text \<open>
  C16: a search publishes what \<open>SearchResults\<close> promises. Whatever the sources do, a listener that
  applies the published events has the works of the search, they are keyed by their ids, and no
  work has a publication twice.
\<close>

theorem search_publishes_results:
  assumes "s = search_exec rt ids query inputs (new_run (new_results rt query language))"
  shows "fold apply_event (concat (map is_results (sx_events s))) (\<lambda>_. None) = jm_get (sr_works (sx_results s))
     \<and> distinct (map fst (sr_works (sx_results s)))
     \<and> list_all (\<lambda>(i, w). i = w_id w \<and> distinct (map variantKey (w_variants w))) (sr_works (sx_results s))"
proof -
  have "results_from rt (new_results rt query language) (new_run (new_results rt query language))"
    unfolding results_from_def by (intro exI[of _ "[]"]) (simp add: new_run_def)
  then have "results_from rt (new_results rt query language) s" unfolding assms by (rule search_exec_results)
  then obtain ops ws where run: "run_results rt ops (new_results rt query language) =
      Some (sx_results s, concat (map is_results (sx_events s)), ws)"
    unfolding results_from_def by blast
  from new_results_run[of rt ops query language] run have
    "results_inv (sx_results s)" "fold apply_event (concat (map is_results (sx_events s))) (\<lambda>_. None) = jm_get (sr_works (sx_results s))"
    by auto
  then show ?thesis
    by (fastforce simp: results_inv_def works_wf_def jm_inv_def all_once_def once_def list_all_iff)
qed

definition search_measure :: "nat \<Rightarrow> search_run \<Rightarrow> nat" where
  "search_measure n s = (3 - sx_passes s) * (2 * n + 1) + pool_measure n (sx_pool s)"

lemma search_exec_Cons:
  "sx_outcome s = None \<Longrightarrow> search_exec rt ids query (x # xs) s = search_exec rt ids query xs (search_input_step rt ids query x s)"
  by (simp add: search_exec_def)

lemma search_can_step:
  assumes "search_inv ids s" "sx_outcome s = None" "distinct ids"
  shows "\<exists>x. sx_outcome (search_input_step rt ids query x s) \<noteq> None
     \<or> search_measure (length ids) (search_input_step rt ids query x s) < search_measure (length ids) s"
proof -
  let ?n = "length ids" and ?p = "sx_pool s"
  have reached: "pool_reached ?n (search_workers ?n) ?p" using assms(1) by (simp add: search_inv_def)
  note inv = searching.pool_reached_inv[OF reached]
  show ?thesis
  proof (cases "pl_running ?p")
    case (Cons i rest)
    then have run: "i \<in> set (pl_running ?p)" by simp
    have "pool_measure ?n (finish_job i ?p) < pool_measure ?n ?p"
      by (rule searching.pool_progress[OF inv finish_step[OF run] searching.finish_job_not_stop(1)])
    then show ?thesis
      using run by (intro exI[of _ "EndSource i (Inl Aborted)"] disjI2) (simp add: is_running_def Let_def search_measure_def)
  next
    case Nil
    show ?thesis
    proof (cases "can_take ?n (search_workers ?n) ?p")
      case True
      have "pool_measure ?n (take_job ?p) < pool_measure ?n ?p"
        by (rule searching.pool_progress[OF inv take_step[OF True] searching.take_job_not_stop(1)])
      then show ?thesis
        using True by (intro exI[of _ TakeSource] disjI2) (simp add: search_measure_def emit_events_def)
    next
      case False
      have over: "pass_over ?n s" using False Nil by (simp add: pass_over_def)
      let ?t = "end_pass rt query s"
      have "sx_outcome ?t \<noteq> None \<or> sx_passes ?t = Suc (sx_passes s) \<and> sx_pool ?t = new_pool"
        by (auto simp: end_pass_def split: option.split list.split)
      moreover have "search_measure ?n ?t < search_measure ?n s"
        if "sx_outcome ?t = None" "sx_passes ?t = Suc (sx_passes s)" "sx_pool ?t = new_pool"
      proof -
        have "search_inv ids ?t" using search_inv_end_pass[OF assms(1,2), of rt query] over by simp
        then have "Suc (sx_passes s) \<le> 3" using that(2) by (simp add: search_inv_def)
        then obtain k where k: "3 - sx_passes s = Suc k" "3 - Suc (sx_passes s) = k" by (metis Suc_diff_le diff_Suc_Suc)
        have "search_measure ?n ?t = k * (2 * ?n + 1) + 2 * ?n"
          unfolding search_measure_def that k by (simp add: pool_measure_def new_pool_def)
        also have "\<dots> < Suc k * (2 * ?n + 1) + pool_measure ?n ?p" by simp
        finally show ?thesis unfolding search_measure_def[of ?n s] k .
      qed
      ultimately show ?thesis using over by (intro exI[of _ EndPass]) (simp, blast)
    qed
  qed
qed

text \<open>
  A search can always end: from every state it reaches, some sources' ends and takings lead to its
  outcome. The measure counts the passes, and within a pass what the pool has left.
\<close>

theorem search_can_end:
  assumes "distinct ids" and "s = search_exec rt ids query inputs (new_run st)"
  shows "\<exists>more_inputs. sx_outcome (search_exec rt ids query more_inputs s) \<noteq> None"
proof -
  have "search_inv ids s" unfolding assms(2) by (rule search_exec_inv[OF assms(1) search_inv_new])
  then show ?thesis
  proof (induction "search_measure (length ids) s" arbitrary: s rule: less_induct)
    case less
    show ?case
    proof (cases "sx_outcome s")
      case (Some r)
      then show ?thesis by (intro exI[of _ "[]"]) (simp add: search_exec_def)
    next
      case None
      from search_can_step[OF less.prems None assms(1), of rt query] obtain x where
        x: "sx_outcome (search_input_step rt ids query x s) \<noteq> None
          \<or> search_measure (length ids) (search_input_step rt ids query x s) < search_measure (length ids) s" by blast
      let ?t = "search_input_step rt ids query x s"
      have t: "search_inv ids ?t" by (rule search_inv_step[OF less.prems None assms(1)])
      show ?thesis
      proof (cases "sx_outcome ?t")
        case None': None
        with x have "search_measure (length ids) ?t < search_measure (length ids) s" by simp
        from less.hyps[OF this t] obtain xs where "sx_outcome (search_exec rt ids query xs ?t) \<noteq> None" by blast
        then show ?thesis by (intro exI[of _ "x # xs"]) (simp only: search_exec_Cons[OF None] not_False_eq_True)
      next
        case (Some r)
        then show ?thesis by (intro exI[of _ "[x]"]) (simp add: search_exec_Cons[OF None], simp add: search_exec_def)
      qed
    qed
  qed
qed

section \<open>Witnesses\<close>

definition sample_inputs :: "search_input list" where
  "sample_inputs = [TakeSource, TakeSource, Publish 1 sample_torrent, EndSource 0 (Inr [sample_torrent]),
     EndSource 1 (Inl TimedOut), EndPass]"

definition sample_sources :: "jstring list" where
  "sample_sources = [js ''a'', js ''b'']"

definition sample_run :: search_run where
  "sample_run = search_exec sample_runtime sample_sources (js ''Title'') sample_inputs (new_run (new_results sample_runtime (js ''Title'') None))"

theorem search_accounts_witness:
  "sx_outcome sample_run = Some (Inr (results_size (sx_results sample_run)))
     \<and> started (js ''b'') (sx_events sample_run) = 1 \<and> ended (js ''b'') (sx_events sample_run) = 1"
proof -
  have d: "distinct sample_sources" by code_simp
  have "case sx_outcome sample_run of Some (Inr _) \<Rightarrow> True | _ \<Rightarrow> False" "sx_passes sample_run = 0" by code_simp+
  then obtain m where m: "sx_outcome sample_run = Some (Inr m)" and p: "sx_passes sample_run = 0"
    by (auto split: option.splits sum.splits)
  have "js ''b'' \<in> set sample_sources" by (simp add: sample_sources_def)
  with search_accounts[OF d sample_run_def] m p show ?thesis by (simp del: js_simps)
qed

theorem search_publishes_results_witness:
  "fold apply_event (concat (map is_results (sx_events sample_run))) (\<lambda>_. None) = jm_get (sr_works (sx_results sample_run))"
  using search_publishes_results[OF sample_run_def] by blast

theorem search_can_end_witness:
  "\<exists>more_inputs. sx_outcome (search_exec sample_runtime sample_sources (js ''Title'') more_inputs
     (search_exec sample_runtime sample_sources (js ''Title'') [TakeSource] (new_run (new_results sample_runtime (js ''Title'') None)))) \<noteq> None"
proof -
  have "distinct sample_sources" by code_simp
  from search_can_end[OF this refl] show ?thesis .
qed

end
