(* ===== verification/Html.thy ===== *)
theory Html
  imports Contracts SampleRuntime
begin

text \<open>
  \<open>reader/html.ts\<close>: the sanitizer of chapters, on trees of elements. Reading HTML into a tree and
  printing a tree is cheerio's work and a parameter of the callers. The sanitizer removes
  elements in three passes, then cleans the attributes, then resolves the links.
\<close>

datatype node =
    TextNode jstring
  | Element jstring "(jstring, jstring) jmap" "node list"

fun prune :: "(jstring \<Rightarrow> (jstring, jstring) jmap \<Rightarrow> bool) \<Rightarrow> node list \<Rightarrow> node list" where
  "prune bad [] = []"
| "prune bad (TextNode t # ns) = TextNode t # prune bad ns"
| "prune bad (Element tag attrs body # ns) =
     (if bad tag attrs then prune bad ns else Element tag attrs (prune bad body) # prune bad ns)"

fun map_attributes :: "(jstring \<Rightarrow> (jstring, jstring) jmap \<Rightarrow> (jstring, jstring) jmap) \<Rightarrow> node list \<Rightarrow> node list" where
  "map_attributes f [] = []"
| "map_attributes f (TextNode t # ns) = TextNode t # map_attributes f ns"
| "map_attributes f (Element tag attrs body # ns) = Element tag (f tag attrs) (map_attributes f body) # map_attributes f ns"

fun all_elements :: "(jstring \<Rightarrow> (jstring, jstring) jmap \<Rightarrow> bool) \<Rightarrow> node list \<Rightarrow> bool" where
  "all_elements P [] = True"
| "all_elements P (TextNode t # ns) = all_elements P ns"
| "all_elements P (Element tag attrs body # ns) = (P tag attrs \<and> all_elements P body \<and> all_elements P ns)"

section \<open>sanitizeChapter\<close>

definition forbidden_tags :: "jstring list" where
  "forbidden_tags = map js [''script'', ''style'', ''iframe'', ''object'', ''embed'', ''form'', ''input'', ''button'', ''link'',
     ''meta'', ''base'', ''svg'', ''canvas'', ''video'', ''audio'']"

text \<open>\<open>/(?:^|;)\s*(?:display\s*:\s*none|visibility\s*:\s*hidden)\s*(?:!important)?\s*(?:;|$)/i\<close>\<close>

definition style_hidden_rx :: rx where
  "style_hidden_rx = RSeqs [RAlt RBol (RLit (js '';'')), RSpaces,
     RAlt (RSeqs [RLitI (js ''display''), RSpaces, RLit (js '':''), RSpaces, RLitI (js ''none'')])
          (RSeqs [RLitI (js ''visibility''), RSpaces, RLit (js '':''), RSpaces, RLitI (js ''hidden'')]),
     RSpaces, ROpt (RLitI (js ''!important'')), RSpaces, RAlt (RLit (js '';'')) REol]"

definition is_forbidden :: "jstring \<Rightarrow> (jstring, jstring) jmap \<Rightarrow> bool" where
  "is_forbidden tag attrs \<longleftrightarrow> tag \<in> set forbidden_tags"

definition is_hidden :: "jstring \<Rightarrow> (jstring, jstring) jmap \<Rightarrow> bool" where
  "is_hidden tag attrs \<longleftrightarrow> jm_has attrs (js ''hidden'')"

definition is_style_hidden :: "jstring \<Rightarrow> (jstring, jstring) jmap \<Rightarrow> bool" where
  "is_style_hidden tag attrs \<longleftrightarrow> (case jm_get attrs (js ''style'') of None \<Rightarrow> False | Some s \<Rightarrow> rx_test style_hidden_rx s)"

definition is_unsafe_attribute :: "jstring \<Rightarrow> bool" where
  "is_unsafe_attribute a \<longleftrightarrow> starts_with a (js ''on'')
     \<or> a \<in> {js ''srcset'', js ''style'', js ''contenteditable'', js ''formaction''}"

definition clean_attributes :: "jstring \<Rightarrow> (jstring, jstring) jmap \<Rightarrow> (jstring, jstring) jmap" where
  "clean_attributes tag attrs = filter (\<lambda>(a, _). \<not> is_unsafe_attribute a) attrs"

text \<open>The attribute of an element that is a link, if it has one.\<close>

definition link_attribute :: "jstring \<Rightarrow> (jstring, jstring) jmap \<Rightarrow> jstring option" where
  "link_attribute tag attrs =
     (if tag = js ''img'' \<and> jm_has attrs (js ''src'') then Some (js ''src'')
      else if tag = js ''a'' \<and> jm_has attrs (js ''href'') then Some (js ''href'') else None)"

definition resolve_url :: "runtime \<Rightarrow> jstring option \<Rightarrow> jstring \<Rightarrow> url option" where
  "resolve_url rt base s =
     (case base of
        None \<Rightarrow> rt_url rt s
      | Some b \<Rightarrow> (case rt_url rt b of None \<Rightarrow> None | Some u \<Rightarrow> rt_url_at rt s u))"

definition link_allowed :: "bool \<Rightarrow> url \<Rightarrow> bool" where
  "link_allowed local_files u \<longleftrightarrow> u_protocol u \<in> {js ''http:'', js ''https:'', js ''file:''}
     \<and> (u_protocol u = js ''file:'' \<longrightarrow> local_files)"

definition clean_link :: "runtime \<Rightarrow> jstring option \<Rightarrow> bool \<Rightarrow> jstring \<Rightarrow> (jstring, jstring) jmap \<Rightarrow> (jstring, jstring) jmap" where
  "clean_link rt base local_files tag attrs =
     (case link_attribute tag attrs of
        None \<Rightarrow> attrs
      | Some a \<Rightarrow>
          (let val = or_empty (jm_get attrs a) in
           if val = [] \<or> starts_with val (js ''#'') then attrs
           else case resolve_url rt base val of
               None \<Rightarrow> jm_delete a attrs
             | Some u \<Rightarrow> if link_allowed local_files u then jm_set a (rt_href rt u) attrs else jm_delete a attrs))"

definition sanitize_nodes :: "runtime \<Rightarrow> jstring option \<Rightarrow> bool \<Rightarrow> node list \<Rightarrow> node list" where
  "sanitize_nodes rt base local_files ns =
     map_attributes (clean_link rt base local_files) (map_attributes clean_attributes
       (prune is_style_hidden (prune is_hidden (prune is_forbidden ns))))"

section \<open>Facts\<close>

lemma prune_clean: "all_elements (\<lambda>t a. \<not> bad t a) (prune bad ns)"
  by (induction bad ns rule: prune.induct) simp_all

lemma prune_keeps: "all_elements P ns \<Longrightarrow> all_elements P (prune bad ns)"
  by (induction bad ns rule: prune.induct) simp_all

lemma all_elements_map:
  "(\<And>t a. P t a \<Longrightarrow> Q t (f t a)) \<Longrightarrow> all_elements P ns \<Longrightarrow> all_elements Q (map_attributes f ns)"
  by (induction f ns rule: map_attributes.induct) simp_all

lemma all_elements_mono: "(\<And>t a. P t a \<Longrightarrow> Q t a) \<Longrightarrow> all_elements P ns \<Longrightarrow> all_elements Q ns"
  by (induction P ns rule: all_elements.induct) simp_all

lemma all_elements_conj: "all_elements (\<lambda>t a. P t a \<and> Q t a) ns \<longleftrightarrow> all_elements P ns \<and> all_elements Q ns"
  by (induction P ns rule: all_elements.induct) auto

lemma prune_id: "all_elements (\<lambda>t a. \<not> bad t a) ns \<Longrightarrow> prune bad ns = ns"
  by (induction bad ns rule: prune.induct) simp_all

lemma map_attributes_id: "all_elements (\<lambda>t a. f t a = a) ns \<Longrightarrow> map_attributes f ns = ns"
  by (induction f ns rule: map_attributes.induct) simp_all

text \<open>What a link of a sanitized chapter may be.\<close>

definition link_safe :: "runtime \<Rightarrow> bool \<Rightarrow> jstring \<Rightarrow> (jstring, jstring) jmap \<Rightarrow> bool" where
  "link_safe rt local_files tag attrs \<longleftrightarrow>
     (case link_attribute tag attrs of
        None \<Rightarrow> True
      | Some a \<Rightarrow> (let val = or_empty (jm_get attrs a)
          in val = [] \<or> starts_with val (js ''#'') \<or> (\<exists>u. val = rt_href rt u
            \<and> (u_protocol u \<in> {js ''http:'', js ''https:''} \<or> (u_protocol u = js ''file:'' \<and> local_files)))))"

definition attributes_safe :: "(jstring, jstring) jmap \<Rightarrow> bool" where
  "attributes_safe attrs \<longleftrightarrow> (\<forall>a \<in> fst ` set attrs. \<not> starts_with a (js ''on'')
     \<and> a \<notin> {js ''srcset'', js ''style'', js ''contenteditable'', js ''formaction''})"

lemma attributes_safe_iff: "attributes_safe attrs \<longleftrightarrow> (\<forall>a \<in> fst ` set attrs. \<not> is_unsafe_attribute a)"
  by (simp add: attributes_safe_def is_unsafe_attribute_def del: js_simps)

lemma link_allowed_iff:
  "link_allowed local_files u \<longleftrightarrow> u_protocol u \<in> {js ''http:'', js ''https:''} \<or> (u_protocol u = js ''file:'' \<and> local_files)"
  by (auto simp: link_allowed_def)

lemma img_not_a: "js ''img'' \<noteq> js ''a''"
  by simp

lemma link_attribute_delete:
  "link_attribute tag attrs = Some a \<Longrightarrow> link_attribute tag (jm_delete a attrs) = None"
  using img_not_a by (auto simp: link_attribute_def jm_has_def jm_get_delete simp del: js_simps split: if_splits)

lemma link_attribute_set:
  "link_attribute tag attrs = Some a \<Longrightarrow> link_attribute tag (jm_set a v attrs) = Some a"
  by (auto simp: link_attribute_def jm_has_def simp del: js_simps split: if_splits)

lemma clean_link_safe: "link_safe rt local_files tag (clean_link rt base local_files tag attrs)"
proof (cases "link_attribute tag attrs")
  case None
  then show ?thesis by (simp add: clean_link_def link_safe_def)
next
  case (Some a)
  let ?v = "or_empty (jm_get attrs a)"
  show ?thesis
  proof (cases "?v = [] \<or> starts_with ?v (js ''#'')")
    case True
    then have "clean_link rt base local_files tag attrs = attrs" using Some by (auto simp: clean_link_def Let_def)
    then show ?thesis using True Some by (auto simp: link_safe_def Let_def)
  next
    case False
    show ?thesis
    proof (cases "resolve_url rt base ?v")
      case None
      then have "clean_link rt base local_files tag attrs = jm_delete a attrs" using False Some by (simp add: clean_link_def Let_def)
      then show ?thesis using link_attribute_delete[OF Some] by (simp add: link_safe_def)
    next
      case (Some u)
      note Some' = \<open>link_attribute tag attrs = Some a\<close>
      have r: "clean_link rt base local_files tag attrs =
          (if link_allowed local_files u then jm_set a (rt_href rt u) attrs else jm_delete a attrs)"
        using False Some Some' by (simp add: clean_link_def Let_def)
      show ?thesis
        using r link_attribute_delete[OF Some'] link_attribute_set[OF Some', of "rt_href rt u"]
        by (auto simp: link_safe_def Let_def link_allowed_iff)
    qed
  qed
qed

lemma clean_link_names: "fst ` set (clean_link rt base local_files tag attrs) \<subseteq> fst ` set attrs"
proof -
  have "fst ` set (jm_set a v attrs) \<subseteq> fst ` set attrs" if "jm_has attrs a" for a v
    using that by (auto simp: jm_has_def dest!: jm_set_member jm_get_in_set split: option.splits) (force dest: jm_get_in_set)
  moreover have "jm_has attrs a" if "link_attribute tag attrs = Some a" for a
    using that by (auto simp: link_attribute_def split: if_splits)
  ultimately show ?thesis
    by (auto simp: clean_link_def Let_def jm_delete_pairs split: option.splits if_splits)
qed

lemma sanitized_elements:
  "all_elements (\<lambda>tag attrs. tag \<notin> set forbidden_tags \<and> \<not> jm_has attrs (js ''hidden'')
     \<and> attributes_safe attrs \<and> link_safe rt local_files tag attrs) (sanitize_nodes rt base local_files ns)"
proof -
  let ?p = "prune is_style_hidden (prune is_hidden (prune is_forbidden ns))"
  have 1: "all_elements (\<lambda>t a. t \<notin> set forbidden_tags \<and> \<not> jm_has a (js ''hidden'')) ?p"
    unfolding all_elements_conj
    using prune_keeps[OF prune_keeps[OF prune_clean[of is_forbidden ns]]] prune_keeps[OF prune_clean[of is_hidden "prune is_forbidden ns"]]
    by (auto simp: is_forbidden_def is_hidden_def simp del: js_simps elim!: all_elements_mono[rotated])
  let ?P = "\<lambda>t (a :: (jstring, jstring) jmap). t \<notin> set forbidden_tags \<and> \<not> jm_has a (js ''hidden'') \<and> attributes_safe a"
  have 2: "all_elements ?P (map_attributes clean_attributes ?p)"
  proof (rule all_elements_map[OF _ 1])
    fix t :: jstring and a :: "(jstring, jstring) jmap"
    assume "t \<notin> set forbidden_tags \<and> \<not> jm_has a (js ''hidden'')"
    moreover have "\<not> jm_has (clean_attributes t a) (js ''hidden'')" if "\<not> jm_has a (js ''hidden'')"
      using that by (auto simp: jm_has_def clean_attributes_def jm_get_None image_iff)
    ultimately show "?P t (clean_attributes t a)" by (auto simp: attributes_safe_iff clean_attributes_def)
  qed
  show ?thesis
    unfolding sanitize_nodes_def
  proof (rule all_elements_map[OF _ 2])
    fix t a assume p: "?P t a"
    have names: "fst ` set (clean_link rt base local_files t a) \<subseteq> fst ` set a" by (rule clean_link_names)
    have "attributes_safe (clean_link rt base local_files t a)"
      unfolding attributes_safe_iff
    proof
      fix x assume "x \<in> fst ` set (clean_link rt base local_files t a)"
      with names have "x \<in> fst ` set a" by (rule subsetD)
      moreover have "\<forall>y \<in> fst ` set a. \<not> is_unsafe_attribute y" using p unfolding attributes_safe_iff by (elim conjE)
      ultimately show "\<not> is_unsafe_attribute x" by (rule bspec[rotated])
    qed
    moreover have "\<not> jm_has (clean_link rt base local_files t a) (js ''hidden'')"
    proof -
      have "js ''hidden'' \<notin> fst ` set a" using p by (simp add: jm_has_def jm_get_None image_iff split: option.splits del: js_simps)
      then have "js ''hidden'' \<notin> fst ` set (clean_link rt base local_files t a)" using names by (rule contra_subsetD[rotated])
      then show ?thesis by (simp add: jm_has_def jm_get_None split: option.splits del: js_simps)
    qed
    ultimately show "t \<notin> set forbidden_tags \<and> \<not> jm_has (clean_link rt base local_files t a) (js ''hidden'')
        \<and> attributes_safe (clean_link rt base local_files t a)
        \<and> link_safe rt local_files t (clean_link rt base local_files t a)"
      using p clean_link_safe by blast
  qed
qed

text \<open>
  C20: a sanitized chapter has no active content. No element is one of the forbidden ones or carries
  an event handler, a style, a source set or an editing attribute, and every link is empty, a
  fragment, or the absolute address of an http or https page, or of a file where local files
  are allowed.
\<close>

theorem sanitized_safe:
  "all_elements (\<lambda>tag attrs. tag \<notin> set forbidden_tags \<and> \<not> jm_has attrs (js ''hidden'')
     \<and> attributes_safe attrs \<and> link_safe rt local_files tag attrs) (sanitize_nodes rt base local_files ns)"
  by (rule sanitized_elements)

lemma jm_set_same: "jm_get m k = Some v \<Longrightarrow> jm_set k v m = m"
  by (induction k v m rule: jm_set.induct) (auto simp: jm_get_def split: if_splits)

definition href_law :: "runtime \<Rightarrow> jstring option \<Rightarrow> bool" where
  "href_law rt base \<longleftrightarrow> (\<forall>s u. resolve_url rt base s = Some u \<longrightarrow>
     resolve_url rt base (rt_href rt u) = Some u \<and> rt_href rt u \<noteq> [] \<and> \<not> starts_with (rt_href rt u) (js ''#''))"

lemma clean_link_idem:
  assumes "href_law rt base"
  shows "clean_link rt base local_files tag (clean_link rt base local_files tag attrs) =
    clean_link rt base local_files tag attrs"
proof (cases "link_attribute tag attrs")
  case None
  then show ?thesis by (simp add: clean_link_def)
next
  case a: (Some a)
  let ?v = "or_empty (jm_get attrs a)"
  show ?thesis
  proof (cases "?v = [] \<or> starts_with ?v (js ''#'')")
    case True
    then have "clean_link rt base local_files tag attrs = attrs" using a by (auto simp: clean_link_def Let_def)
    then show ?thesis by simp
  next
    case False
    show ?thesis
    proof (cases "\<exists>u. resolve_url rt base ?v = Some u \<and> link_allowed local_files u")
      case True
      then obtain u where u: "resolve_url rt base ?v = Some u" "link_allowed local_files u" by blast
      let ?b = "jm_set a (rt_href rt u) attrs"
      have r: "clean_link rt base local_files tag attrs = ?b" using False a u by (simp add: clean_link_def Let_def)
      have "resolve_url rt base (rt_href rt u) = Some u" "rt_href rt u \<noteq> []" "\<not> starts_with (rt_href rt u) (js ''#'')"
        using assms u(1) unfolding href_law_def by blast+
      then have "clean_link rt base local_files tag ?b = ?b"
        using link_attribute_set[OF a, of "rt_href rt u"] u(2) jm_set_same[of ?b a "rt_href rt u"]
        by (simp add: clean_link_def Let_def)
      with r show ?thesis by simp
    next
      case none: False
      have "clean_link rt base local_files tag attrs = jm_delete a attrs"
        using False a none by (auto simp: clean_link_def Let_def split: option.splits)
      then show ?thesis using link_attribute_delete[OF a] by (simp add: clean_link_def)
    qed
  qed
qed

text \<open>
  Sanitizing a sanitized chapter changes nothing, where the address of a resolved link is read
  back as the same URL.
\<close>

theorem sanitize_again:
  assumes "href_law rt base"
  shows "sanitize_nodes rt base local_files (sanitize_nodes rt base local_files ns) = sanitize_nodes rt base local_files ns"
proof -
  let ?r = "sanitize_nodes rt base local_files ns"
  have safe: "all_elements (\<lambda>tag attrs. tag \<notin> set forbidden_tags \<and> \<not> jm_has attrs (js ''hidden'')
     \<and> attributes_safe attrs) ?r"
    using sanitized_elements[of rt local_files base ns] by (rule all_elements_mono[rotated]) blast
  have "prune is_forbidden ?r = ?r" "prune is_hidden ?r = ?r"
    using safe by (auto intro!: prune_id elim!: all_elements_mono[rotated] simp: is_forbidden_def is_hidden_def simp del: js_simps)
  moreover have "prune is_style_hidden ?r = ?r"
  proof (rule prune_id, rule all_elements_mono[OF _ safe])
    fix t :: jstring and a :: "(jstring, jstring) jmap"
    assume "t \<notin> set forbidden_tags \<and> \<not> jm_has a (js ''hidden'') \<and> attributes_safe a"
    moreover have "is_unsafe_attribute (js ''style'')" by (simp add: is_unsafe_attribute_def del: js_simps)
    ultimately show "\<not> is_style_hidden t a"
      by (auto simp: attributes_safe_iff is_style_hidden_def simp del: js_simps dest!: jm_get_in_set split: option.splits)
  qed
  moreover have "map_attributes clean_attributes ?r = ?r"
  proof (rule map_attributes_id, rule all_elements_mono[OF _ safe])
    fix t :: jstring and a :: "(jstring, jstring) jmap"
    assume "t \<notin> set forbidden_tags \<and> \<not> jm_has a (js ''hidden'') \<and> attributes_safe a"
    then show "clean_attributes t a = a" by (auto simp: attributes_safe_iff clean_attributes_def filter_id_conv)
  qed
  moreover have "map_attributes (clean_link rt base local_files) ?r = ?r"
  proof (rule map_attributes_id)
    have true: "all_elements (\<lambda>_ _. True) xs" for xs by (induction "\<lambda>(_ :: jstring) (_ :: (jstring, jstring) jmap). True" xs rule: all_elements.induct) simp_all
    show "all_elements (\<lambda>t a. clean_link rt base local_files t a = a) ?r"
      unfolding sanitize_nodes_def by (rule all_elements_map[OF _ true]) (rule clean_link_idem[OF assms])
  qed
  ultimately show ?thesis unfolding sanitize_nodes_def[of rt base local_files ?r] by (simp only:)
qed

definition sample_chapter :: "node list" where
  "sample_chapter = [Element (js ''p'') [(js ''onclick'', js ''x()''), (js ''class'', js ''c'')]
      [TextNode (js ''One''), Element (js ''script'') [] [TextNode (js ''x()'')],
       Element (js ''a'') [(js ''href'', js ''http://a/x'')] [TextNode (js ''link'')],
       Element (js ''a'') [(js ''href'', js ''javascript:x'')] [TextNode (js ''bad'')],
       Element (js ''b'') [(js ''style'', js ''color: red; Display : none'')] [TextNode (js ''gone'')]]]"

theorem sanitize_again_witness:
  "sanitize_nodes sample_runtime None False (sanitize_nodes sample_runtime None False sample_chapter) =
     [Element (js ''p'') [(js ''class'', js ''c'')] [TextNode (js ''One''),
       Element (js ''a'') [(js ''href'', js ''http://a/x'')] [TextNode (js ''link'')],
       Element (js ''a'') [] [TextNode (js ''bad'')]]]"
proof -
  have "href_law sample_runtime None"
    unfolding href_law_def
  proof (intro allI impI)
    fix s u assume "resolve_url sample_runtime None s = Some u"
    then have u: "sample_shape u" by (simp add: resolve_url_def sample_url_shape)
    then obtain scheme where "u_protocol u = scheme @ [58]" "{35, 63, 58} \<inter> set scheme = {}"
      by (auto simp: sample_shape_def)
    then have "rt_href sample_runtime u \<noteq> []" "\<not> starts_with (rt_href sample_runtime u) (js ''#'')"
      by (cases scheme; auto simp: sample_href_def starts_with_def)+
    then show "resolve_url sample_runtime None (rt_href sample_runtime u) = Some u \<and> rt_href sample_runtime u \<noteq> []
        \<and> \<not> starts_with (rt_href sample_runtime u) (js ''#'')"
      using sample_shape_roundtrip[OF u] by (simp add: resolve_url_def)
  qed
  note sanitize_again[OF this, of False sample_chapter]
  also have "sanitize_nodes sample_runtime None False sample_chapter =
     [Element (js ''p'') [(js ''class'', js ''c'')] [TextNode (js ''One''),
       Element (js ''a'') [(js ''href'', js ''http://a/x'')] [TextNode (js ''link'')],
       Element (js ''a'') [] [TextNode (js ''bad'')]]]"
    by code_simp
  finally show ?thesis .
qed

end
