(* ===== verification/Archive.thy ===== *)
theory Archive
  imports Html Matching
begin

text \<open>
  \<open>reader/archive.ts\<close> and \<open>reader/types.ts\<close>: books and archives opened from a file. The path
  functions of Node are modelled in their POSIX form, on the segments of a path. The archive
  library, the readers of XML and HTML and the digest are the parameters \<open>tools\<close>; the files
  under the data directory are a map from paths to bytes.
\<close>

section \<open>Paths\<close>

text \<open>\<open>posix.normalize\<close>: one segment on the stack of those before it, the last one first.\<close>

definition dots :: jstring where
  "dots = js ''..''"

definition path_step :: "bool \<Rightarrow> jstring \<Rightarrow> jstring list \<Rightarrow> jstring list" where
  "path_step up seg stack =
     (if seg = [] \<or> seg = js ''.'' then stack
      else if seg = dots
      then (case stack of
          [] \<Rightarrow> if up then [dots] else []
        | upper # rest \<Rightarrow> if upper \<noteq> dots then rest else if up then dots # stack else stack)
      else seg # stack)"

definition path_stack :: "bool \<Rightarrow> jstring \<Rightarrow> jstring list" where
  "path_stack up p = fold (path_step up) (split_char 47 p) []"

definition is_absolute :: "jstring \<Rightarrow> bool" where
  "is_absolute p \<longleftrightarrow> p \<noteq> [] \<and> hd p = 47"

definition normalize_path :: "jstring \<Rightarrow> jstring" where
  "normalize_path p =
     (if p = [] then js ''.''
      else let t = join [47] (rev (path_stack (\<not> is_absolute p) p)); trailing = (last p = 47)
        in if t = [] then (if is_absolute p then js ''/'' else if trailing then js ''./'' else js ''.'')
           else (if is_absolute p then [47] else []) @ t @ (if trailing then [47] else []))"

definition join_path :: "jstring list \<Rightarrow> jstring" where
  "join_path ps = (let parts = filter (\<lambda>p. p \<noteq> []) ps
     in if parts = [] then js ''.'' else normalize_path (join [47] parts))"

text \<open>\<open>resolve\<close> and \<open>relative\<close> on segments; \<open>cwd\<close> is the working directory.\<close>

definition resolve_segments :: "jstring \<Rightarrow> jstring \<Rightarrow> jstring list" where
  "resolve_segments cwd p = rev (path_stack False (if is_absolute p then p else cwd @ [47] @ p))"

fun common_prefix :: "'a list \<Rightarrow> 'a list \<Rightarrow> nat" where
  "common_prefix (x # xs) (y # ys) = (if x = y then Suc (common_prefix xs ys) else 0)"
| "common_prefix _ _ = 0"

definition relative_path :: "jstring list \<Rightarrow> jstring list \<Rightarrow> jstring" where
  "relative_path start target = (let k = common_prefix start target
     in join [47] (replicate (length start - k) dots @ drop k target))"

definition dirname :: "jstring \<Rightarrow> jstring" where
  "dirname p = (if 47 \<in> set p
     then (let d = rev (drop 1 (dropWhile (\<lambda>c. c \<noteq> 47) (rev p))) in if d = [] then js ''/'' else d) else js ''.'')"

definition base_name :: "jstring \<Rightarrow> jstring" where
  "base_name p = rev (takeWhile (\<lambda>c. c \<noteq> 47) (dropWhile (\<lambda>c. c = 47) (rev p)))"

definition extname :: "jstring \<Rightarrow> jstring" where
  "extname p = (let b = base_name p; r = dropWhile (\<lambda>c. c \<noteq> 46) (rev b)
     in if length r \<le> 1 \<or> b = dots then [] else drop (length r - 1) b)"

definition basename_without :: "jstring \<Rightarrow> jstring \<Rightarrow> jstring" where
  "basename_without p ext = (let b = base_name p
     in if ext \<noteq> [] \<and> ends_with b ext \<and> b \<noteq> ext then take (length b - length ext) b else b)"

section \<open>Checks of paths\<close>

text \<open>The archive contains an unsafe path.\<close>

definition unsafe_path :: "error" where
  "unsafe_path = Failed [1040, 1088, 1093, 1080, 1074, 32, 1089, 1086, 1076, 1077, 1088, 1078, 1080, 1090, 32, 1085,
    1077, 1073, 1077, 1079, 1086, 1087, 1072, 1089, 1085, 1099, 1081, 32, 1087, 1091, 1090, 1100,
    46]"

definition archive_path :: "jstring \<Rightarrow> (error, jstring) result" where
  "archive_path p =
     (let n = normalize_path (map (\<lambda>c. if c = 92 then 47 else c) p)
      in if n = [] \<or> starts_with n (js ''/'') \<or> n = dots \<or> starts_with n (js ''../'') \<or> 58 \<in> set n
         then Inl unsafe_path else Inr n)"

definition inside :: "jstring \<Rightarrow> jstring \<Rightarrow> jstring \<Rightarrow> bool" where
  "inside cwd p base =
     (let difference = relative_path (resolve_segments cwd base) (resolve_segments cwd p)
      in difference \<noteq> dots \<and> \<not> starts_with difference (dots @ [92]) \<and> \<not> starts_with difference (js ''../'')
         \<and> \<not> is_absolute difference)"

section \<open>Archives\<close>

record zip_entry =
  ze_name :: jstring
  ze_size :: nat
  ze_content :: "(error, nat list) result"

text \<open>The archive exceeds the permitted size.\<close>

definition archive_too_large :: "error" where
  "archive_too_large = Failed [1040, 1088, 1093, 1080, 1074, 32, 1087, 1088, 1077, 1074, 1099, 1096, 1072, 1077, 1090, 32,
    1076, 1086, 1087, 1091, 1089, 1090, 1080, 1084, 1099, 1081, 32, 1086, 1073, 1098, 1105, 1084,
    32, 1088, 1072, 1089, 1087, 1072, 1082, 1086, 1074, 1082, 1080, 46]"

definition maxEntryBytes :: nat where
  "maxEntryBytes = 64 * 1024 * 1024"

definition maxArchiveBytes :: nat where
  "maxArchiveBytes = 1024 * 1024 * 1024"

definition maxEntries :: nat where
  "maxEntries = 30000"

fun unzip_entries :: "nat \<Rightarrow> nat \<Rightarrow> zip_entry list \<Rightarrow> (error, (jstring \<times> nat list) list) result" where
  "unzip_entries unpacked seen [] = Inr []"
| "unzip_entries unpacked seen (e # es) =
     bind_r (archive_path (ze_name e)) (\<lambda>_.
       let unpacked' = unpacked + ze_size e; seen' = Suc seen in
       if ze_size e > maxEntryBytes \<or> unpacked' > maxArchiveBytes \<or> seen' > maxEntries then Inl archive_too_large
       else if ends_with (ze_name e) (js ''/'') then unzip_entries unpacked' seen' es
       else bind_r (ze_content e) (\<lambda>content.
         bind_r (unzip_entries unpacked' seen' es) (\<lambda>kept. Inr ((ze_name e, content) # kept))))"

text \<open>\<open>unzipSync\<close> returns an object: a later entry of a name replaces the content of an earlier one.\<close>

definition unzip_object :: "zip_entry list \<Rightarrow> (error, (jstring, nat list) jmap) result" where
  "unzip_object es = bind_r (unzip_entries 0 0 es) (\<lambda>kept. Inr (jm_of kept))"

type_synonym files = "(jstring, nat list) jmap"

text \<open>\<open>storeOriginal\<close>: an existing file is left as it is.\<close>

definition store_original :: "jstring \<Rightarrow> nat list \<Rightarrow> files \<Rightarrow> files" where
  "store_original path bytes fs = (if jm_has fs path then fs else jm_set path bytes fs)"

fun store_entries :: "jstring \<Rightarrow> (jstring, nat list) jmap \<Rightarrow> files \<Rightarrow> files \<times> (error, unit) result" where
  "store_entries base [] fs = (fs, Inr ())"
| "store_entries base ((name, bytes) # es) fs =
     (case archive_path name of
        Inl e \<Rightarrow> (fs, Inl e)
      | Inr p \<Rightarrow> store_entries base es (store_original (join_path [base, p]) bytes fs))"

section \<open>Facts on paths\<close>

definition is_name :: "jstring \<Rightarrow> bool" where
  "is_name s \<longleftrightarrow> s \<noteq> [] \<and> s \<noteq> js ''.'' \<and> s \<noteq> dots \<and> 47 \<notin> set s"

lemma path_step_names: "list_all is_name stack \<Longrightarrow> 47 \<notin> set seg \<Longrightarrow> list_all is_name (path_step False seg stack)"
  by (auto simp: path_step_def is_name_def simp del: js_simps split: list.split)

lemma fold_path_names:
  "list_all is_name stack \<Longrightarrow> \<forall>s \<in> set segs. 47 \<notin> set s \<Longrightarrow> list_all is_name (fold (path_step False) segs stack)"
  by (induction segs arbitrary: stack) (simp_all add: path_step_names)

lemma path_stack_names: "list_all is_name (path_stack False p)"
  unfolding path_stack_def using split_char_no_sep[of 47 p] by (intro fold_path_names) simp_all

lemma resolve_segments_names: "list_all is_name (resolve_segments cwd p)"
  using path_stack_names by (simp add: resolve_segments_def)

lemma common_prefix_take:
  "take (common_prefix xs ys) xs = take (common_prefix xs ys) ys \<and> common_prefix xs ys \<le> length xs \<and> common_prefix xs ys \<le> length ys"
  by (induction xs ys rule: common_prefix.induct) auto

lemma join_names_head:
  assumes "is_name s"
  shows "join [47] (s # ss) \<noteq> [] \<and> hd (join [47] (s # ss)) = hd s"
proof -
  obtain c r where "s = c # r" using assms by (cases s) (simp_all add: is_name_def)
  then show ?thesis by (cases ss) simp_all
qed

lemma join_dots: "join [47] (dots # ss) = (if ss = [] then dots else js ''../'' @ join [47] ss)"
  by (cases ss) (simp_all add: dots_def)


lemma join_head_dots:
  assumes "list_all is_name ss"
  shows "join [47] ss \<noteq> dots \<and> \<not> starts_with (join [47] ss) (js ''../'') \<and> \<not> is_absolute (join [47] ss)"
proof (cases ss)
  case (Cons s rest)
  have s: "is_name s" using assms Cons by simp
  have split: "split_char 47 (join [47] ss) = ss"
    using assms Cons by (intro split_join) (auto simp: is_name_def list_all_iff)
  have "join [47] ss \<noteq> dots"
  proof
    assume "join [47] ss = dots"
    moreover have "split_char 47 dots = [dots]" by (rule split_char_single) (simp add: dots_def)
    ultimately have "ss = [dots]" using split by simp
    with assms show False by (simp add: is_name_def)
  qed
  moreover have "\<not> starts_with (join [47] ss) (js ''../'')"
  proof
    assume "starts_with (join [47] ss) (js ''../'')"
    then obtain r where "join [47] ss = dots @ 47 # r" by (auto simp: dots_def dest!: starts_withE)
    moreover have "split_char 47 (dots @ 47 # r) = dots # split_char 47 r" by (rule split_char_append) (simp add: dots_def)
    ultimately have "ss = dots # split_char 47 r" using split by simp
    with s Cons show False by (simp add: is_name_def)
  qed
  moreover have "\<not> is_absolute (join [47] ss)"
    using join_names_head[OF s, of rest] s Cons by (cases s) (auto simp: is_absolute_def is_name_def)
  ultimately show ?thesis by blast
qed (simp add: dots_def starts_with_def is_absolute_def)

text \<open>
  The check of a path is the prefix of its segments. What \<open>inside\<close> accepts lies under the root;
  and a path under the root is accepted unless its first name below the base begins with two
  dots and a backslash.
\<close>

theorem inside_prefix:
  "inside cwd p base \<longleftrightarrow> (\<exists>rest. resolve_segments cwd p = resolve_segments cwd base @ rest
     \<and> \<not> starts_with (join [47] rest) (dots @ [92]))"
proof -
  let ?f = "resolve_segments cwd base" and ?t = "resolve_segments cwd p"
  let ?k = "common_prefix ?f ?t"
  have k: "take ?k ?f = take ?k ?t" "?k \<le> length ?f" "?k \<le> length ?t" using common_prefix_take[of ?f ?t] by auto
  have rest: "list_all is_name (drop ?k ?t)"
    using resolve_segments_names[of cwd p] by (auto simp: list_all_iff dest: in_set_dropD)
  show ?thesis
  proof (cases "?k = length ?f")
    case True
    then have t: "?t = ?f @ drop ?k ?t" using k(1) by (metis append_take_drop_id take_all_iff order_refl)
    then have "?t = ?f @ r \<longleftrightarrow> r = drop ?k ?t" for r by (metis same_append_eq)
    then show ?thesis
      using join_head_dots[OF rest] True by (auto simp: inside_def Let_def relative_path_def)
  next
    case False
    then obtain n where n: "length ?f - ?k = Suc n" using k(2) by (metis Suc_diff_Suc le_neq_implies_less)
    have "relative_path ?f ?t = dots \<or> starts_with (relative_path ?f ?t) (js ''../'')"
      using join_dots[of "replicate n dots @ drop ?k ?t"]
      by (auto simp: relative_path_def Let_def n simp del: js_simps split: if_splits)
    then have no: "\<not> inside cwd p base" by (auto simp: inside_def Let_def)
    have "\<not> (\<exists>r. ?t = ?f @ r)"
    proof
      assume "\<exists>r. ?t = ?f @ r"
      then obtain r where "?t = ?f @ r" by blast
      moreover have "common_prefix xs (xs @ ys) = length xs" for xs ys :: "jstring list" by (induction xs) simp_all
      ultimately show False using False by simp
    qed
    with no show ?thesis by blast
  qed
qed


text \<open>The stack of a normalisation holds names above the remaining \<open>..\<close> segments.\<close>

lemma path_step_shape:
  "\<exists>ns n. stack = ns @ replicate n dots \<and> list_all is_name ns \<Longrightarrow> 47 \<notin> set seg
     \<Longrightarrow> \<exists>ns n. path_step True seg stack = ns @ replicate n dots \<and> list_all is_name ns"
proof (elim exE conjE)
  fix ns n
  assume st: "stack = ns @ replicate n dots" and ns: "list_all is_name ns" and seg: "47 \<notin> set seg"
  show ?thesis
  proof (cases "seg = [] \<or> seg = js ''.''")
    case True
    then have "path_step True seg stack = stack" by (simp add: path_step_def del: js_simps)
    with st ns show ?thesis by blast
  next
    case other: False
    show ?thesis
    proof (cases "seg = dots")
      case True
      show ?thesis
      proof (cases ns)
        case Nil
        have "path_step True seg stack = replicate (Suc n) dots"
          using True other st Nil by (cases n) (simp_all add: path_step_def del: js_simps)
        then show ?thesis by (intro exI[of _ "[]"] exI[of _ "Suc n"]) simp
      next
        case (Cons a rest)
        then have "path_step True seg stack = rest @ replicate n dots"
          using True other st ns by (simp add: path_step_def is_name_def del: js_simps)
        with ns Cons show ?thesis by auto
      qed
    next
      case False
      then have "path_step True seg stack = (seg # ns) @ replicate n dots"
        using other st by (simp add: path_step_def del: js_simps)
      moreover have "list_all is_name (seg # ns)" using False other seg ns by (simp add: is_name_def del: js_simps)
      ultimately show ?thesis by blast
    qed
  qed
qed

lemma fold_path_shape:
  "\<exists>ns n. stack = ns @ replicate n dots \<and> list_all is_name ns \<Longrightarrow> \<forall>s \<in> set segs. 47 \<notin> set s
     \<Longrightarrow> \<exists>ns n. fold (path_step True) segs stack = ns @ replicate n dots \<and> list_all is_name ns"
proof (induction segs arbitrary: stack)
  case (Cons s segs)
  from Cons.prems have "\<exists>ns n. path_step True s stack = ns @ replicate n dots \<and> list_all is_name ns"
    by (intro path_step_shape) simp_all
  from Cons.IH[OF this] Cons.prems show ?case by simp
qed simp

lemma path_stack_shape: "\<exists>ns n. path_stack True p = ns @ replicate n dots \<and> list_all is_name ns"
  unfolding path_stack_def using split_char_no_sep[of 47 p]
  by (intro fold_path_shape exI[of _ "[]"] exI[of _ 0]) simp_all

lemma fold_names: "list_all is_name ss \<Longrightarrow> fold (path_step up) ss stack = rev ss @ stack"
  by (induction ss arbitrary: stack) (simp_all add: path_step_def is_name_def del: js_simps)

lemma split_char_at: "split_char c (a @ c # b) = split_char c a @ split_char c b"
proof (induction a)
  case (Cons x a)
  then show ?case by (cases "x = c"; cases "split_char c a") simp_all
qed simp

lemma path_stack_at: "path_stack up (a @ 47 # b) = fold (path_step up) (split_char 47 b) (path_stack up a)"
  by (simp add: path_stack_def split_char_at)

lemma path_stack_root: "path_stack up (47 # b) = fold (path_step up) (split_char 47 b) []"
  by (simp add: path_stack_def path_step_def)

text \<open>Normalised text: reading it again pushes its names.\<close>

lemma fold_joined:
  assumes "list_all is_name ss"
  shows "fold (path_step up) (split_char 47 (join [47] ss @ (if t then [47] else []))) stack = rev ss @ stack"
proof (cases "ss = []")
  case True
  then show ?thesis by (simp add: path_step_def)
next
  case False
  with assms have "split_char 47 (join [47] ss) = ss" by (intro split_join) (auto simp: is_name_def list_all_iff)
  then show ?thesis using fold_names[OF assms] by (simp add: split_char_at path_step_def)
qed

lemma set_join: "set (join [47] ss) \<subseteq> {47} \<union> \<Union> (set ` set ss)"
  by (induction "[47] :: jstring" ss rule: join.induct) auto

lemma path_step_chars: "s \<in> set (path_step up seg stack) \<Longrightarrow> s = seg \<or> s = dots \<or> s \<in> set stack"
  by (auto simp: path_step_def simp del: js_simps split: list.splits if_splits)

lemma fold_path_chars: "s \<in> set (fold (path_step up) segs stack) \<Longrightarrow> s \<in> set segs \<or> s = dots \<or> s \<in> set stack"
proof (induction segs arbitrary: stack)
  case (Cons seg segs)
  then have "s \<in> set segs \<or> s = dots \<or> s \<in> set (path_step up seg stack)" by simp
  then show ?case using path_step_chars[of s up seg stack] by auto
qed simp

lemma split_char_chars: "s \<in> set (split_char c p) \<Longrightarrow> set s \<subseteq> set p"
proof (induction p arbitrary: s)
  case (Cons x p)
  obtain q qs where q: "split_char c p = q # qs" using split_char_ne by (cases "split_char c p") auto
  then have "s = [] \<or> s = x # q \<or> s \<in> set (split_char c p)" using Cons.prems by (auto split: if_splits)
  then show ?case using Cons.IH[of s] Cons.IH[of q] q by auto
qed simp

lemma path_stack_chars: "s \<in> set (path_stack up p) \<Longrightarrow> set s \<subseteq> insert 46 (set p)"
proof -
  assume "s \<in> set (path_stack up p)"
  then have "s \<in> set (split_char 47 p) \<or> s = dots \<or> s \<in> set []" unfolding path_stack_def by (rule fold_path_chars)
  then show ?thesis using split_char_chars[of s 47 p] by (auto simp: dots_def)
qed

text \<open>What \<open>archivePath\<close> accepts is a list of names, none of them a way up or a drive.\<close>

definition path_names :: "jstring \<Rightarrow> jstring list" where
  "path_names p = rev (path_stack True p)"

lemma archive_path_names:
  assumes "archive_path name = Inr p"
  shows "list_all is_name (path_names p)" "p \<noteq> []" "92 \<notin> set p" "58 \<notin> set p"
    "fold (path_step up) (split_char 47 p) stack = rev (path_names p) @ stack"
proof -
  define q where "q = map (\<lambda>c. if c = 92 then 47 else c) name"
  have p: "p = normalize_path q" and ne: "p \<noteq> []" and rel: "\<not> starts_with p (js ''/'')" and up: "p \<noteq> dots"
    "\<not> starts_with p (js ''../'')" and colon: "58 \<notin> set p"
    using assms by (auto simp: archive_path_def Let_def q_def[symmetric] simp del: js_simps split: if_splits)
  have q92: "92 \<notin> set q" by (auto simp: q_def)
  show "p \<noteq> []" by (rule ne)
  show "58 \<notin> set p" by (rule colon)
  obtain ns n where shape: "path_stack True q = ns @ replicate n dots" and ns: "list_all is_name ns"
    using path_stack_shape by blast
  let ?ss = "rev (path_stack True q)"
  have notabs: "\<not> is_absolute q"
  proof
    assume a: "is_absolute q"
    then have "p \<noteq> [] \<and> hd p = 47" using p by (simp add: normalize_path_def is_absolute_def Let_def)
    then show False using rel by (cases p) (simp_all add: starts_with_def)
  qed
  define trail where "trail = (q \<noteq> [] \<and> last q = 47)"
  have p_cases: "p = js ''.'' \<or> p = js ''./'' \<or> (?ss \<noteq> [] \<and> p = join [47] ?ss @ (if trail then [47] else []))"
    using p notabs by (auto simp: normalize_path_def trail_def Let_def simp del: js_simps split: if_splits)
  have dotsum: "path_stack True (js ''.'') = []" "path_stack True (js ''./'') = []"
    "fold (path_step up) (split_char 47 (js ''.'')) stack = stack" "fold (path_step up) (split_char 47 (js ''./'')) stack = stack"
    by (simp_all add: path_stack_def path_step_def)
  have n0: "n = 0" if "?ss \<noteq> []" "p = join [47] ?ss @ (if trail then [47] else [])"
  proof (cases n)
    case (Suc m)
    then have ss: "?ss = dots # replicate m dots @ rev ns" using shape by (simp add: replicate_append_same)
    have "p = dots \<or> starts_with p (js ''../'')"
      using that(2) unfolding ss join_dots by (auto simp: dots_def starts_with_def split: if_splits)
    with up show ?thesis by blast
  qed simp
  have "92 \<notin> set p"
  proof -
    have "92 \<notin> set (join [47] ?ss)" using set_join[of ?ss] path_stack_chars[of _ True q] q92 by fastforce
    with p_cases show ?thesis by (auto split: if_splits)
  qed
  then show "92 \<notin> set p" .
  have names: "path_names p = (if p = js ''.'' \<or> p = js ''./'' then [] else ?ss) \<and>
      fold (path_step up) (split_char 47 p) stack = rev (path_names p) @ stack \<and> list_all is_name (path_names p)"
  proof (cases "p = js ''.'' \<or> p = js ''./''")
    case True
    then show ?thesis using dotsum by (auto simp: path_names_def simp del: js_simps)
  next
    case False
    with p_cases have pj: "?ss \<noteq> []" "p = join [47] ?ss @ (if trail then [47] else [])" by blast+
    have ssn: "list_all is_name ?ss" using shape ns n0[OF pj] by (simp add: list_all_iff)
    have "fold (path_step True) (split_char 47 p) [] = rev ?ss @ []" unfolding pj(2) by (rule fold_joined[OF ssn])
    then have "path_stack True p = path_stack True q" by (simp add: path_stack_def)
    then have pn: "path_names p = ?ss" by (simp add: path_names_def)
    have "fold (path_step up) (split_char 47 p) stack = rev ?ss @ stack" unfolding pj(2) by (rule fold_joined[OF ssn])
    with pn False ssn show ?thesis by (simp del: js_simps)
  qed
  then show "list_all is_name (path_names p)" "fold (path_step up) (split_char 47 p) stack = rev (path_names p) @ stack" by blast+
qed

lemma resolve_joined:
  assumes base: "is_absolute base" and p: "archive_path name = Inr p"
  shows "resolve_segments cwd (join_path [base, p]) = resolve_segments cwd base @ path_names p"
proof -
  note pn = archive_path_names[OF p]
  have "base \<noteq> []" using base by (simp add: is_absolute_def)
  then have joined: "join_path [base, p] = normalize_path (base @ 47 # p)"
    using pn(2) by (simp add: join_path_def Let_def)
  let ?q = "base @ 47 # p"
  have abs: "is_absolute ?q" using base by (cases base) (simp_all add: is_absolute_def)
  let ?ss = "rev (path_stack False base) @ path_names p"
  have stack: "rev (path_stack False ?q) = ?ss" using pn(5) by (simp add: path_stack_at)
  have ssn: "list_all is_name ?ss" using path_stack_names[of base] pn(1) by (simp add: list_all_iff ball_Un)
  have result: "normalize_path ?q = 47 # (join [47] ?ss @ (if join [47] ?ss \<noteq> [] \<and> last ?q = 47 then [47] else []))"
    using abs stack by (simp add: normalize_path_def Let_def)
  have "rev (path_stack False (normalize_path ?q)) = ?ss"
    unfolding result path_stack_root fold_joined[OF ssn] by simp
  then show ?thesis using base result joined by (simp add: resolve_segments_def is_absolute_def)
qed

text \<open>
  An entry of an archive is stored under the directory of its document, whatever its name.
\<close>

theorem archive_path_inside:
  assumes "is_absolute base" "archive_path name = Inr p"
  shows "inside cwd (join_path [base, p]) base \<and> 58 \<notin> set p"
proof -
  note pn = archive_path_names[OF assms(2)]
  have "92 \<notin> set (join [47] (path_names p))"
  proof
    assume "92 \<in> set (join [47] (path_names p))"
    then obtain s where "s \<in> set (path_names p)" "92 \<in> set s" using set_join[of "path_names p"] by fastforce
    then show False using path_stack_chars[of s True p] pn(3) by (auto simp: path_names_def)
  qed
  moreover have "92 \<in> set s" if "starts_with s (dots @ [92])" for s
    using starts_withE[OF that] by (metis UnCI in_set_conv_decomp set_append)
  ultimately have "\<not> starts_with (join [47] (path_names p)) (dots @ [92])" by blast
  then show ?thesis using resolve_joined[OF assms] pn(4) unfolding inside_prefix by blast
qed

theorem archive_path_inside_witness:
  "inside (js ''/app'') (join_path [js ''/data/reader'', js ''b/cover.jpg'']) (js ''/data/reader'') \<and> 58 \<notin> set (js ''b/cover.jpg'')"
proof (rule archive_path_inside)
  show "is_absolute (js ''/data/reader'')" by code_simp
  show "archive_path (js ''a/..//b/./cover.jpg'') = Inr (js ''b/cover.jpg'')" by code_simp
qed

section \<open>Books\<close>

datatype book_format = Epub | Cbz | PlainText | SingleImage

record local_part =
  lp_assetRoot :: jstring
  lp_format :: book_format
  lp_images :: "jstring list option"

record reader_position =
  rp_chapterId :: jstring
  rp_offset :: "rat option"
  rp_imageIndex :: "nat option"

record reader_document =
  d_id :: jstring
  d_title :: jstring
  d_sourceId :: jstring
  d_workId :: "jstring option"
  d_chapters :: "book_chapter list"
  d_position :: "reader_position option"
  d_local :: "local_part option"

record reader_image =
  im_id :: jstring
  im_url :: jstring
  im_width :: "rat option"
  im_height :: "rat option"

datatype page_kind = TextPage | ImagePage

datatype direction = Ltr | Rtl | Vertical

record reader_page =
  p_id :: jstring
  p_documentId :: jstring
  p_title :: jstring
  p_kind :: page_kind
  p_html :: "jstring option"
  p_images :: "reader_image list option"
  p_direction :: "direction option"
  p_cached :: bool

text \<open>
  What the reader takes from its libraries: the file a path names (whether it is a regular
  file, and its bytes), the digest of bytes, the entries of an archive, decoded text, trees of
  XML and HTML and their text, \<open>decodeURIComponent\<close>, the order of the collator, and file URLs.
\<close>

record book_tools =
  bt_cwd :: jstring
  bt_input :: "jstring \<Rightarrow> (bool \<times> nat list) option"
  bt_digest :: "nat list \<Rightarrow> jstring"
  bt_unzip :: "nat list \<Rightarrow> (error, zip_entry list) result"
  bt_text :: "nat list \<Rightarrow> jstring"
  bt_xml :: "jstring \<Rightarrow> node list"
  bt_html :: "jstring \<Rightarrow> node list"
  bt_print :: "node list \<Rightarrow> jstring"
  bt_print_xml :: "node list \<Rightarrow> jstring"
  bt_decode :: "jstring \<Rightarrow> jstring option"
  bt_not_after :: "jstring \<Rightarrow> jstring \<Rightarrow> bool"
  bt_file_url :: "jstring \<Rightarrow> jstring"
  bt_file_path :: "jstring \<Rightarrow> (error, jstring) result"

section \<open>Selections\<close>

text \<open>The elements with one of the tags, in the order of the document, and their text.\<close>

fun elements :: "jstring list \<Rightarrow> node list \<Rightarrow> node list" where
  "elements tags [] = []"
| "elements tags (TextNode t # ns) = elements tags ns"
| "elements tags (Element tag attrs body # ns) =
     (if tag \<in> set tags then [Element tag attrs body] else []) @ elements tags body @ elements tags ns"

fun inner_elements :: "jstring \<Rightarrow> jstring \<Rightarrow> bool \<Rightarrow> node list \<Rightarrow> node list" where
  "inner_elements up tag inn [] = []"
| "inner_elements up tag inn (TextNode t # ns) = inner_elements up tag inn ns"
| "inner_elements up tag inn (Element name attrs body # ns) =
     (if inn \<and> name = tag then [Element name attrs body] else [])
       @ inner_elements up tag (inn \<or> name = up) body @ inner_elements up tag inn ns"

fun text_of :: "node list \<Rightarrow> jstring" where
  "text_of [] = []"
| "text_of (TextNode t # ns) = t @ text_of ns"
| "text_of (Element name attrs body # ns) = text_of body @ text_of ns"

definition node_attr :: "node \<Rightarrow> jstring \<Rightarrow> jstring option" where
  "node_attr n a = (case n of Element name attrs body \<Rightarrow> jm_get attrs a | TextNode t \<Rightarrow> None)"

definition node_body :: "node \<Rightarrow> node list" where
  "node_body n = (case n of Element name attrs body \<Rightarrow> body | TextNode t \<Rightarrow> [])"

definition first_text :: "jstring list \<Rightarrow> node list \<Rightarrow> jstring" where
  "first_text tags ns = (case elements tags ns of [] \<Rightarrow> [] | n # rest \<Rightarrow> trim (text_of [n]))"

text \<open>\<open>$("body").html()\<close>: the first body's content, if there is one.\<close>

definition body_of :: "node list \<Rightarrow> node list option" where
  "body_of ns = (case elements [js ''body''] ns of [] \<Rightarrow> None | n # rest \<Rightarrow> Some (node_body n))"

text \<open>A stable sort by a comparison.\<close>

fun insert_by :: "('a \<Rightarrow> 'a \<Rightarrow> bool) \<Rightarrow> 'a \<Rightarrow> 'a list \<Rightarrow> 'a list" where
  "insert_by le x [] = [x]"
| "insert_by le x (y # ys) = (if le x y then x # y # ys else y # insert_by le x ys)"

definition sort_with :: "('a \<Rightarrow> 'a \<Rightarrow> bool) \<Rightarrow> 'a list \<Rightarrow> 'a list" where
  "sort_with le xs = foldr (insert_by le) xs []"

section \<open>openLocalDocument\<close>

definition image_extensions :: "jstring list" where
  "image_extensions = map js [''.jpg'', ''.jpeg'', ''.png'', ''.webp'', ''.gif'', ''.bmp'']"

definition book_extensions :: "jstring list" where
  "book_extensions = map js [''.epub'', ''.cbz'', ''.zip'', ''.txt'', ''.html'', ''.htm'', ''.fb2'']"

definition maxBookBytes :: nat where
  "maxBookBytes = 512 * 1024 * 1024"

text \<open>The messages: the supported formats, the size, no images, no container, no description, no chapters.\<close>

definition unsupported_book :: error where
  "unsupported_book = Failed [1055, 1086, 1076, 1076, 1077, 1088, 1078, 1080, 1074, 1072, 1102, 1090, 1089, 1103, 32, 69,
    80, 85, 66, 44, 32, 67, 66, 90, 44, 32, 84, 88, 84, 44, 32, 72, 84, 77, 76, 44, 32, 70, 66,
    50, 32, 1080, 32, 1080, 1079, 1086, 1073, 1088, 1072, 1078, 1077, 1085, 1080, 1103, 46]"

definition book_too_large :: error where
  "book_too_large = Failed [1042, 1099, 1073, 1077, 1088, 1080, 1090, 1077, 32, 1082, 1085, 1080, 1075, 1091, 32, 1080,
    1083, 1080, 32, 1072, 1088, 1093, 1080, 1074, 32, 1088, 1072, 1079, 1084, 1077, 1088, 1086,
    1084, 32, 1076, 1086, 32, 53, 49, 50, 32, 1052, 1041, 46]"

definition no_images :: error where
  "no_images = Failed [1042, 32, 1072, 1088, 1093, 1080, 1074, 1077, 32, 1085, 1077, 1090, 32, 1080, 1079, 1086,
    1073, 1088, 1072, 1078, 1077, 1085, 1080, 1081, 32, 1076, 1083, 1103, 32, 1095, 1090, 1077,
    1085, 1080, 1103, 46]"

definition no_container :: error where
  "no_container = Failed [1042, 32, 69, 80, 85, 66, 32, 1086, 1090, 1089, 1091, 1090, 1089, 1090, 1074, 1091, 1077,
    1090, 32, 77, 69, 84, 65, 45, 73, 78, 70, 47, 99, 111, 110, 116, 97, 105, 110, 101, 114, 46,
    120, 109, 108, 46]"

definition no_description :: error where
  "no_description = Failed [1042, 32, 69, 80, 85, 66, 32, 1086, 1090, 1089, 1091, 1090, 1089, 1090, 1074, 1091, 1077,
    1090, 32, 1086, 1087, 1080, 1089, 1072, 1085, 1080, 1077, 32, 1082, 1085, 1080, 1075, 1080, 46]"

definition no_chapters :: error where
  "no_chapters = Failed [1042, 32, 69, 80, 85, 66, 32, 1085, 1077, 1090, 32, 1076, 1086, 1089, 1090, 1091, 1087, 1085,
    1099, 1093, 32, 1075, 1083, 1072, 1074, 46]"

definition malformed_uri :: error where
  "malformed_uri = Failed (js ''URI malformed'')"

definition chapter_word :: jstring where
  "chapter_word = [1043, 1083, 1072, 1074, 1072, 32]"

text \<open>The manifest of a package: the path of each item by its id.\<close>

fun manifest_items :: "book_tools \<Rightarrow> jstring \<Rightarrow> node list \<Rightarrow> (jstring, jstring) jmap \<Rightarrow> (error, (jstring, jstring) jmap) result" where
  "manifest_items bt package [] m = Inr m"
| "manifest_items bt package (n # ns) m =
     (case (or_empty (node_attr n (js ''id'')), or_empty (node_attr n (js ''href''))) of
        (itemId, href) \<Rightarrow>
          if itemId = [] \<or> href = [] then manifest_items bt package ns m
          else (case bt_decode bt (hd (split_char 35 href)) of
              None \<Rightarrow> Inl malformed_uri
            | Some name \<Rightarrow> bind_r (archive_path (join_path [dirname package, name])) (\<lambda>p.
                manifest_items bt package ns (jm_set itemId p m))))"

text \<open>One reference of the spine: skipped, or a chapter with the next number.\<close>

definition spine_step ::
  "runtime \<Rightarrow> book_tools \<Rightarrow> jstring \<Rightarrow> (jstring, nat list) jmap \<Rightarrow> (jstring, jstring) jmap \<Rightarrow> node \<Rightarrow> book_chapter list \<Rightarrow> book_chapter list" where
  "spine_step rt bt base entries manifest n chapters =
     (let name = or_empty (jm_get manifest (or_empty (node_attr n (js ''idref'')))) in
      if name = [] then chapters
      else case jm_get entries name of
          None \<Rightarrow> chapters
        | Some bytes \<Rightarrow>
            if node_attr n (js ''linear'') = Some (js ''no'') then chapters
            else (let number = Suc (length chapters);
                      heading = first_text (map js [''h1'', ''h2'', ''title'']) (bt_html bt (bt_text bt bytes))
              in chapters @ [\<lparr>c_id = rt_sha256 rt name,
                   c_title = (if heading = [] then chapter_word @ to_dec number else heading),
                   c_url = bt_file_url bt (join_path [base, name]), c_number = Some (of_nat number), c_volume = None\<rparr>]))"

definition open_epub ::
  "runtime \<Rightarrow> book_tools \<Rightarrow> jstring \<Rightarrow> (jstring, nat list) jmap \<Rightarrow> reader_document \<Rightarrow> (error, reader_document) result" where
  "open_epub rt bt base entries doc =
     (case jm_get entries (js ''META-INF/container.xml'') of
        None \<Rightarrow> Inl no_container
      | Some container \<Rightarrow>
          bind_r (archive_path (or_empty (case elements [js ''rootfile''] (bt_xml bt (bt_text bt container)) of
              [] \<Rightarrow> None | n # rest \<Rightarrow> node_attr n (js ''full-path'')))) (\<lambda>package.
            case jm_get entries package of
              None \<Rightarrow> Inl no_description
            | Some bytes \<Rightarrow>
                let tree = bt_xml bt (bt_text bt bytes);
                    heading = first_text [js ''dc:title'', js ''title''] tree in
                bind_r (manifest_items bt package (inner_elements (js ''manifest'') (js ''item'') False tree) []) (\<lambda>manifest.
                  let chapters = fold (spine_step rt bt base entries manifest)
                        (inner_elements (js ''spine'') (js ''itemref'') False tree) [] in
                  if chapters = [] then Inl no_chapters
                  else Inr (doc\<lparr>d_title := (if heading = [] then d_title doc else heading), d_chapters := chapters\<rparr>))))"

definition one_chapter :: "reader_document \<Rightarrow> jstring \<Rightarrow> book_chapter" where
  "one_chapter doc url = \<lparr>c_id = d_id doc, c_title = d_title doc, c_url = url, c_number = None, c_volume = None\<rparr>"

definition open_cbz :: "runtime \<Rightarrow> book_tools \<Rightarrow> jstring \<Rightarrow> jstring list \<Rightarrow> reader_document \<Rightarrow> (error, reader_document) result" where
  "open_cbz rt bt base names doc =
     bind_r (map_r archive_path (sort_with (bt_not_after bt)
         (filter (\<lambda>name. rt_lower rt (extname name) \<in> set image_extensions) names))) (\<lambda>paths.
       if paths = [] then Inl no_images
       else Inr (doc\<lparr>d_chapters := [one_chapter doc (js ''qbutt-local://'' @ d_id doc @ js ''/images'')],
         d_local := Some \<lparr>lp_assetRoot = base, lp_format = Cbz, lp_images = Some (map (\<lambda>p. join_path [base, p]) paths)\<rparr>\<rparr>))"

definition new_local :: "jstring \<Rightarrow> jstring \<Rightarrow> jstring \<Rightarrow> book_format \<Rightarrow> jstring list option \<Rightarrow> reader_document" where
  "new_local i title base format images =
     \<lparr>d_id = i, d_title = title, d_sourceId = js ''local'', d_workId = None, d_chapters = [], d_position = None,
      d_local = Some \<lparr>lp_assetRoot = base, lp_format = format, lp_images = images\<rparr>\<rparr>"

definition asset_base :: "jstring \<Rightarrow> jstring \<Rightarrow> jstring" where
  "asset_base dataDir i = join_path [dataDir, js ''reader'', js ''local'', i]"

definition open_archive ::
  "runtime \<Rightarrow> book_tools \<Rightarrow> jstring \<Rightarrow> jstring \<Rightarrow> jstring \<Rightarrow> jstring \<Rightarrow> nat list \<Rightarrow> files \<Rightarrow> files \<times> (error, reader_document) result" where
  "open_archive rt bt extension title base i bytes fs =
     (case bind_r (bt_unzip bt bytes) unzip_object of
        Inl e \<Rightarrow> (fs, Inl e)
      | Inr entries \<Rightarrow>
          (case store_entries base entries fs of
             (fs', Inl e) \<Rightarrow> (fs', Inl e)
           | (fs', Inr _) \<Rightarrow> (fs',
               if extension \<noteq> js ''.epub'' then open_cbz rt bt base (jm_keys entries) (new_local i title base Cbz None)
               else open_epub rt bt base entries (new_local i title base Epub None))))"

definition openLocalDocument ::
  "runtime \<Rightarrow> book_tools \<Rightarrow> jstring \<Rightarrow> jstring \<Rightarrow> files \<Rightarrow> files \<times> (error, reader_document) result" where
  "openLocalDocument rt bt path dataDir fs =
     (let extension = rt_lower rt (extname path) in
      if extension \<notin> set image_extensions \<and> extension \<notin> set book_extensions then (fs, Inl unsupported_book)
      else case bt_input bt path of
          None \<Rightarrow> (fs, Inl (Failed (js ''ENOENT'')))
        | Some (regular, bytes) \<Rightarrow>
            if \<not> regular \<or> length bytes > maxBookBytes then (fs, Inl book_too_large)
            else (let i = bt_digest bt bytes; base = asset_base dataDir i; title = basename_without path extension in
              if extension \<in> {js ''.epub'', js ''.cbz'', js ''.zip''} then open_archive rt bt extension title base i bytes fs
              else (let destination = join_path [base, js ''original'' @ extension];
                        image = extension \<in> set image_extensions;
                        doc = new_local i title base (if image then SingleImage else PlainText)
                          (if image then Some [destination] else None)
                in (store_original destination bytes fs, Inr (doc\<lparr>d_chapters := [one_chapter doc (bt_file_url bt destination)]\<rparr>)))))"

section \<open>readLocalChapter\<close>

definition no_chapter :: error where
  "no_chapter = Failed [1043, 1083, 1072, 1074, 1072, 32, 1086, 1090, 1089, 1091, 1090, 1089, 1090, 1074, 1091, 1077,
    1090, 32, 1074, 32, 1101, 1090, 1086, 1081, 32, 1082, 1085, 1080, 1075, 1077, 46]"

definition chapter_outside :: error where
  "chapter_outside = Failed [1040, 1076, 1088, 1077, 1089, 32, 1075, 1083, 1072, 1074, 1099, 32, 1074, 1099, 1093, 1086,
    1076, 1080, 1090, 32, 1079, 1072, 32, 1087, 1088, 1077, 1076, 1077, 1083, 1099, 32, 1082,
    1085, 1080, 1075, 1080, 46]"

definition no_book_text :: error where
  "no_book_text = Failed [1042, 32, 70, 66, 50, 32, 1086, 1090, 1089, 1091, 1090, 1089, 1090, 1074, 1091, 1077, 1090,
    32, 1090, 1077, 1082, 1089, 1090, 32, 1082, 1085, 1080, 1075, 1080, 46]"

text \<open>\<open>/\r?\n\s*\r?\n/\<close>, \<open>/<\/?section[^>]*>/g\<close> and \<open>/<(\/?)(subtitle|title)>/g\<close>\<close>

definition paragraph_rx :: rx where
  "paragraph_rx = RSeqs [ROpt (RLit [13]), RLit [10], RSpaces, ROpt (RLit [13]), RLit [10]]"

definition section_rx :: rx where
  "section_rx = RSeqs [RLit [60], ROpt (RLit [47]), RLit (js ''section''), RStar True (RCh (\<lambda>c. c \<noteq> 62)), RLit [62]]"

definition heading_rx :: rx where
  "heading_rx = RSeqs [RLit [60], RGroup 1 (ROpt (RLit [47])), RGroup 2 (RAlt (RLit (js ''subtitle'')) (RLit (js ''title''))), RLit [62]]"

definition fictionBookHtml :: "book_tools \<Rightarrow> jstring \<Rightarrow> (error, jstring) result" where
  "fictionBookHtml bt xml =
     (let paragraphs = (case body_of (bt_xml bt xml) of None \<Rightarrow> [] | Some ns \<Rightarrow> bt_print_xml bt ns) in
      if paragraphs = [] then Inl no_book_text
      else Inr (rx_replace heading_rx (\<lambda>f. [60] @ or_empty (cap f 1) @ js ''h2'' @ [62])
        (rx_replace section_rx (\<lambda>f. []) paragraphs)))"

definition plain_paragraphs :: "jstring \<Rightarrow> node list" where
  "plain_paragraphs text = map (\<lambda>p. Element (js ''p'') [] [TextNode p]) (rx_split paragraph_rx text)"

text \<open>A picture stays when its address is a file of the book.\<close>

definition foreign_image :: "book_tools \<Rightarrow> jstring \<Rightarrow> jstring \<Rightarrow> (jstring, jstring) jmap \<Rightarrow> bool" where
  "foreign_image bt base tag attrs \<longleftrightarrow> tag = js ''img'' \<and>
     (case jm_get attrs (js ''src'') of
        None \<Rightarrow> False
      | Some u \<Rightarrow> \<not> starts_with u (js ''file:'') \<or>
          (case bt_file_path bt u of Inl e \<Rightarrow> False | Inr p \<Rightarrow> \<not> inside (bt_cwd bt) p base))"

fun image_path_failure :: "book_tools \<Rightarrow> node list \<Rightarrow> error option" where
  "image_path_failure bt [] = None"
| "image_path_failure bt (n # ns) =
     (case node_attr n (js ''src'') of
        None \<Rightarrow> image_path_failure bt ns
      | Some u \<Rightarrow> if starts_with u (js ''file:'')
          then (case bt_file_path bt u of Inl e \<Rightarrow> Some e | Inr p \<Rightarrow> image_path_failure bt ns)
          else image_path_failure bt ns)"

definition local_images :: "book_tools \<Rightarrow> jstring \<Rightarrow> node list \<Rightarrow> (error, node list) result" where
  "local_images bt base ns =
     (case image_path_failure bt (elements [js ''img''] ns) of
        Some e \<Rightarrow> Inl e
      | None \<Rightarrow> Inr (prune (foreign_image bt base) ns))"

text \<open>\<open>sanitizeChapter\<close> on text: the content of the body of the sanitized document.\<close>

definition sanitizeChapter :: "runtime \<Rightarrow> book_tools \<Rightarrow> jstring \<Rightarrow> jstring option \<Rightarrow> bool \<Rightarrow> jstring" where
  "sanitizeChapter rt bt html base local_files =
     (case body_of (sanitize_nodes rt base local_files (bt_html bt html)) of None \<Rightarrow> [] | Some ns \<Rightarrow> bt_print bt ns)"

definition text_page :: "reader_document \<Rightarrow> book_chapter \<Rightarrow> reader_page" where
  "text_page doc ch = \<lparr>p_id = c_id ch, p_documentId = d_id doc, p_title = c_title ch, p_kind = TextPage,
     p_html = None, p_images = None, p_direction = Some Ltr, p_cached = False\<rparr>"

definition image_page :: "reader_document \<Rightarrow> book_chapter \<Rightarrow> jstring list \<Rightarrow> reader_page" where
  "image_page doc ch urls = (text_page doc ch)\<lparr>p_kind := ImagePage, p_direction := Some Vertical,
     p_images := Some (map (\<lambda>(i, u). \<lparr>im_id = to_dec i, im_url = u, im_width = None, im_height = None\<rparr>) (enumerate 0 urls))\<rparr>"

definition local_html :: "runtime \<Rightarrow> book_tools \<Rightarrow> local_part \<Rightarrow> book_chapter \<Rightarrow> jstring \<Rightarrow> jstring \<Rightarrow> (error, jstring) result" where
  "local_html rt bt lp ch path text =
     (if extname path = js ''.txt'' then Inr (bt_print bt (plain_paragraphs text))
      else bind_r (if lp_format lp = PlainText \<and> extname path = js ''.fb2'' then fictionBookHtml bt text else Inr text) (\<lambda>content.
        bind_r (local_images bt (lp_assetRoot lp) (bt_html bt (sanitizeChapter rt bt content (Some (c_url ch)) True))) (\<lambda>tree.
          Inr (bt_print bt (case body_of tree of None \<Rightarrow> [] | Some ns \<Rightarrow> ns)))))"

definition readLocalChapter ::
  "runtime \<Rightarrow> book_tools \<Rightarrow> files \<Rightarrow> reader_document \<Rightarrow> local_part \<Rightarrow> jstring \<Rightarrow> (error, reader_page) result" where
  "readLocalChapter rt bt fs doc lp chapterId =
     (case find (\<lambda>ch. c_id ch = chapterId) (d_chapters doc) of
        None \<Rightarrow> Inl no_chapter
      | Some ch \<Rightarrow>
          (case lp_images lp of
             Some urls \<Rightarrow> Inr (image_page doc ch urls)
           | None \<Rightarrow> bind_r (bt_file_path bt (c_url ch)) (\<lambda>path.
               if \<not> inside (bt_cwd bt) path (lp_assetRoot lp) then Inl chapter_outside
               else case jm_get fs path of
                   None \<Rightarrow> Inl (Failed (js ''ENOENT''))
                 | Some bytes \<Rightarrow> bind_r (local_html rt bt lp ch path (bt_text bt bytes)) (\<lambda>html.
                     Inr ((text_page doc ch)\<lparr>p_html := Some html\<rparr>)))))"

section \<open>What an archive may hold\<close>

definition archive_accepted :: "nat \<Rightarrow> nat \<Rightarrow> zip_entry list \<Rightarrow> bool" where
  "archive_accepted unpacked seen es \<longleftrightarrow>
     (\<forall>e \<in> set es. (\<exists>p. archive_path (ze_name e) = Inr p) \<and> ze_size e \<le> maxEntryBytes
        \<and> (ends_with (ze_name e) (js ''/'') \<or> (\<exists>c. ze_content e = Inr c)))
     \<and> (es = [] \<or> unpacked + sum_list (map ze_size es) \<le> maxArchiveBytes \<and> seen + length es \<le> maxEntries)"

lemma unzip_entries_accepted:
  "(\<exists>kept. unzip_entries unpacked seen es = Inr kept) \<longleftrightarrow> archive_accepted unpacked seen es"
proof (induction es arbitrary: unpacked seen)
  case (Cons e es)
  show ?case
  proof (cases "archive_path (ze_name e)")
    case (Inr p)
    show ?thesis
    proof (cases "ze_size e > maxEntryBytes \<or> unpacked + ze_size e > maxArchiveBytes \<or> Suc seen > maxEntries")
      case False
      then have "archive_accepted unpacked seen (e # es) \<longleftrightarrow> archive_accepted (unpacked + ze_size e) (Suc seen) es
          \<and> (ends_with (ze_name e) (js ''/'') \<or> (\<exists>c. ze_content e = Inr c))"
        using Inr by (auto simp: archive_accepted_def)
      then show ?thesis
        using Inr False Cons.IH[of "unpacked + ze_size e" "Suc seen"]
        by (auto simp: Let_def bind_r_Inr simp del: js_simps)
    next
      case True
      then have "\<not> archive_accepted unpacked seen (e # es)" by (auto simp: archive_accepted_def)
      with True Inr show ?thesis by (simp add: Let_def)
    qed
  qed (simp add: archive_accepted_def)
qed (simp add: archive_accepted_def)

text \<open>
  C37: an archive is unpacked exactly when every name is safe, no entry is above 64 MiB, the whole is
  at most 1 GiB in at most 30,000 entries and the contents of its files can be unpacked.
\<close>

theorem unzip_accepts:
  "(\<exists>m. unzip_object es = Inr m) \<longleftrightarrow>
     (\<forall>e \<in> set es. (\<exists>p. archive_path (ze_name e) = Inr p) \<and> ze_size e \<le> maxEntryBytes
        \<and> (ends_with (ze_name e) (js ''/'') \<or> (\<exists>c. ze_content e = Inr c)))
     \<and> sum_list (map ze_size es) \<le> maxArchiveBytes \<and> length es \<le> maxEntries"
proof -
  have "(\<exists>m. unzip_object es = Inr m) \<longleftrightarrow> archive_accepted 0 0 es"
    unfolding unzip_entries_accepted[symmetric] by (auto simp: unzip_object_def bind_r_Inr)
  then show ?thesis by (auto simp: archive_accepted_def)
qed

definition sample_entries :: "zip_entry list" where
  "sample_entries = [\<lparr>ze_name = js ''p/'', ze_size = 0, ze_content = Inr []\<rparr>, \<lparr>ze_name = js ''p/1.png'', ze_size = 1, ze_content = Inr [7]\<rparr>]"

theorem unzip_accepts_witness: "\<exists>m. unzip_object sample_entries = Inr m"
proof -
  have "archive_path (js ''p/'') = Inr (js ''p/'')" "archive_path (js ''p/1.png'') = Inr (js ''p/1.png'')" by code_simp+
  then show ?thesis unfolding unzip_accepts
    by (simp add: sample_entries_def maxEntryBytes_def maxArchiveBytes_def maxEntries_def del: js_simps)
qed

section \<open>Where a book is stored\<close>

lemma absolute_normalize: "is_absolute p \<Longrightarrow> is_absolute (normalize_path p)"
  by (auto simp: normalize_path_def is_absolute_def Let_def)

lemma absolute_join: "is_absolute p \<Longrightarrow> is_absolute (join_path (p # ps))"
proof -
  assume p: "is_absolute p"
  then obtain c r where c: "p = c # r" by (cases p) (auto simp: is_absolute_def)
  have "is_absolute (join [47] (p # filter (\<lambda>q. q \<noteq> []) ps))"
    using p unfolding c by (cases "filter (\<lambda>q. q \<noteq> []) ps") (simp_all add: is_absolute_def)
  then show ?thesis using c by (auto simp: join_path_def Let_def intro: absolute_normalize)
qed

text \<open>What a store of files may have done: kept what was there, added files under a base.\<close>

definition stored_under :: "jstring \<Rightarrow> files \<Rightarrow> files \<Rightarrow> bool" where
  "stored_under base fs fs' \<longleftrightarrow> (\<forall>q. jm_get fs' q = jm_get fs q \<or>
     jm_get fs q = None \<and> (\<exists>name p. archive_path name = Inr p \<and> q = join_path [base, p]))"

lemma stored_under_refl [simp]: "stored_under base fs fs"
  by (simp add: stored_under_def)

lemma stored_under_trans: "stored_under base a b \<Longrightarrow> stored_under base b c \<Longrightarrow> stored_under base a c"
  unfolding stored_under_def by metis

lemma jm_has_get: "jm_has m k \<longleftrightarrow> jm_get m k \<noteq> None"
  by (simp add: jm_has_def jm_get_None)

lemma store_original_under:
  "archive_path name = Inr p \<Longrightarrow> stored_under base fs (store_original (join_path [base, p]) bytes fs)"
  by (auto simp: stored_under_def store_original_def jm_has_get)

lemma store_entries_under: "stored_under base fs (fst (store_entries base es fs))"
proof (induction base es fs rule: store_entries.induct)
  case (2 base name bytes es fs)
  show ?case
  proof (cases "archive_path name")
    case (Inr p)
    then show ?thesis
      using 2[OF Inr] store_original_under[OF Inr, of base fs bytes] by (auto intro: stored_under_trans)
  qed simp
qed simp

lemma open_archive_under: "stored_under base fs (fst (open_archive rt bt ext title base i bytes fs))"
proof -
  have "stored_under base fs fs'" if "store_entries base es fs = (fs', r)" for es fs' r
    using store_entries_under[of base fs es] that by simp
  then show ?thesis by (auto simp: open_archive_def simp del: js_simps split: sum.split prod.split)
qed

lemma original_names:
  "ext \<in> set image_extensions \<union> set book_extensions \<Longrightarrow> archive_path (js ''original'' @ ext) = Inr (js ''original'' @ ext)"
proof -
  have "list_all (\<lambda>e. archive_path (js ''original'' @ e) = Inr (js ''original'' @ e)) (image_extensions @ book_extensions)"
    by code_simp
  then show "ext \<in> set image_extensions \<union> set book_extensions \<Longrightarrow> ?thesis" unfolding list_all_iff set_append by blast
qed

lemma open_stored_under:
  "\<exists>i. stored_under (asset_base dataDir i) fs (fst (openLocalDocument rt bt path dataDir fs))"
proof -
  define ext where "ext = rt_lower rt (extname path)"
  let ?opened = "openLocalDocument rt bt path dataDir fs"
  show ?thesis
  proof (cases "(ext \<in> set image_extensions \<or> ext \<in> set book_extensions) \<and> (\<exists>bytes. bt_input bt path = Some (True, bytes) \<and> length bytes \<le> maxBookBytes)")
    case False
    then have "fst ?opened = fs"
      by (auto simp: openLocalDocument_def Let_def ext_def[symmetric] simp del: js_simps split: option.split)
    then show ?thesis by simp
  next
    case True
    then obtain bytes where bytes: "bt_input bt path = Some (True, bytes)" "length bytes \<le> maxBookBytes" by blast
    define i where "i = bt_digest bt bytes"
    have ext: "ext \<in> set image_extensions \<union> set book_extensions" using True by blast
    have "fst ?opened = (if ext \<in> {js ''.epub'', js ''.cbz'', js ''.zip''}
        then fst (open_archive rt bt ext (basename_without path ext) (asset_base dataDir i) i bytes fs)
        else store_original (join_path [asset_base dataDir i, js ''original'' @ ext]) bytes fs)"
      using ext bytes by (auto simp: openLocalDocument_def Let_def ext_def[symmetric] i_def[symmetric] simp del: js_simps)
    moreover have "stored_under (asset_base dataDir i) fs (store_original (join_path [asset_base dataDir i, js ''original'' @ ext]) bytes fs)"
      by (rule store_original_under[OF original_names[OF ext]])
    moreover have "stored_under (asset_base dataDir i) fs (fst (open_archive rt bt ext (basename_without path ext) (asset_base dataDir i) i bytes fs))"
      by (rule open_archive_under)
    ultimately have "stored_under (asset_base dataDir i) fs (fst ?opened)" by (simp del: js_simps)
    then show ?thesis by blast
  qed
qed



definition sample_tools :: book_tools where
  "sample_tools = \<lparr>bt_cwd = js ''/'', bt_input = (\<lambda>_. Some (True, [80, 75])), bt_digest = (\<lambda>_. js ''b''),
     bt_unzip = (\<lambda>_. Inr [\<lparr>ze_name = js ''p/'', ze_size = 0, ze_content = Inr []\<rparr>,
       \<lparr>ze_name = js ''p/1.png'', ze_size = 1, ze_content = Inr [7]\<rparr>]),
     bt_text = (\<lambda>b. b), bt_xml = (\<lambda>_. []),
     bt_html = (\<lambda>t. [Element (js ''body'') [] [Element (js ''img'') [(js ''src'', js ''file:/data/a.png'')] []]]),
     bt_print = (\<lambda>ns. if ns = [] then [] else js ''<img>''), bt_print_xml = (\<lambda>_. []), bt_decode = Some, bt_not_after = (\<lambda>_ _. True),
     bt_file_url = (\<lambda>p. js ''file:'' @ p), bt_file_path = (\<lambda>u. Inr (drop 5 u))\<rparr>"


section \<open>Chapters of a local book\<close>

definition resolvable_image :: "book_tools \<Rightarrow> jstring \<Rightarrow> (jstring, jstring) jmap \<Rightarrow> bool" where
  "resolvable_image bt tag attrs \<longleftrightarrow> (tag = js ''img'' \<longrightarrow> (case jm_get attrs (js ''src'') of
     None \<Rightarrow> True | Some u \<Rightarrow> starts_with u (js ''file:'') \<longrightarrow> (\<exists>p. bt_file_path bt u = Inr p)))"

lemma image_path_failure_append:
  "image_path_failure bt (ms @ ns) = None \<longleftrightarrow> image_path_failure bt ms = None \<and> image_path_failure bt ns = None"
  by (induction ms) (auto split: option.split sum.split)

lemma image_paths_resolvable:
  "image_path_failure bt (elements [js ''img''] ns) = None \<Longrightarrow> all_elements (resolvable_image bt) ns"
proof (induction "[js ''img'']" ns rule: elements.induct)
  case (3 tag attrs body ns)
  then have "all_elements (resolvable_image bt) body" "all_elements (resolvable_image bt) ns"
    by (simp_all add: image_path_failure_append del: js_simps)
  moreover have "resolvable_image bt tag attrs"
  proof (cases "tag = js ''img''")
    case True
    then have "image_path_failure bt ([Element tag attrs body] @ elements [js ''img''] body @ elements [js ''img''] ns) = None"
      using "3.prems" by (simp del: js_simps image_path_failure.simps)
    then have "image_path_failure bt [Element tag attrs body] = None" unfolding image_path_failure_append by blast
    then show ?thesis
      by (auto simp: resolvable_image_def node_attr_def simp del: js_simps split: option.splits sum.splits if_splits)
  qed (simp add: resolvable_image_def)
  ultimately show ?case by simp
qed simp_all

text \<open>An image that is left in a local chapter: a file of the book.\<close>

definition own_image :: "book_tools \<Rightarrow> jstring \<Rightarrow> jstring \<Rightarrow> (jstring, jstring) jmap \<Rightarrow> bool" where
  "own_image bt base tag attrs \<longleftrightarrow> (tag = js ''img'' \<longrightarrow> (case jm_get attrs (js ''src'') of
     None \<Rightarrow> True | Some u \<Rightarrow> starts_with u (js ''file:'') \<and> (\<exists>p. bt_file_path bt u = Inr p \<and> inside (bt_cwd bt) p base)))"

lemma local_images_own: "local_images bt base ns = Inr tree \<Longrightarrow> all_elements (own_image bt base) tree"
proof -
  assume "local_images bt base ns = Inr tree"
  then have t: "tree = prune (foreign_image bt base) ns" and f: "image_path_failure bt (elements [js ''img''] ns) = None"
    by (auto simp: local_images_def simp del: js_simps split: option.splits)
  have "all_elements (\<lambda>t a. resolvable_image bt t a \<and> \<not> foreign_image bt base t a) tree"
    unfolding t all_elements_conj using prune_keeps[OF image_paths_resolvable[OF f]] prune_clean by blast
  then show ?thesis
    by (rule all_elements_mono[rotated])
      (auto simp: own_image_def resolvable_image_def foreign_image_def simp del: js_simps split: option.splits sum.splits)
qed



definition sample_part :: local_part where
  "sample_part = \<lparr>lp_assetRoot = js ''/data/book'', lp_format = Epub, lp_images = None\<rparr>"

definition sample_book :: reader_document where
  "sample_book = \<lparr>d_id = js ''b'', d_title = js ''B'', d_sourceId = js ''local'', d_workId = None,
     d_chapters = [\<lparr>c_id = js ''c'', c_title = js ''C'', c_url = js ''file:/data/book/c.html'', c_number = None, c_volume = None\<rparr>],
     d_position = None, d_local = Some sample_part\<rparr>"

definition sample_page :: reader_page where
  "sample_page = (text_page sample_book (hd (d_chapters sample_book)))\<lparr>p_html := Some []\<rparr>"


end
