(* ===== verification/Reader.thy ===== *)
theory Reader
  imports Archive Pool
begin

text \<open>
  \<open>reader/service.ts\<close>: the documents, chapters and pictures of the reader. The files of the reader
  are maps by path: documents, pages, the metadata of pictures and the pictures themselves; the
  text of a JSON file is its value. A request that changes a document returns the change, which
  the queue of the document runs when the changes before it have ended.
\<close>

record disk =
  dk_documents :: "(jstring, reader_document) jmap"
  dk_pages :: "(jstring, reader_page) jmap"
  dk_metadata :: "(jstring, jstring) jmap"
  dk_files :: files

section \<open>Identifiers and paths\<close>

definition bad_id :: error where
  "bad_id = Failed [1053, 1077, 1082, 1086, 1088, 1088, 1077, 1082, 1090, 1085, 1099, 1081, 32, 1080, 1076, 1077,
    1085, 1090, 1080, 1092, 1080, 1082, 1072, 1090, 1086, 1088, 32, 1082, 1085, 1080, 1075, 1080,
    32, 1080, 1083, 1080, 32, 1075, 1083, 1072, 1074, 1099, 46]"

definition open_again :: error where
  "open_again = Failed [1054, 1090, 1082, 1088, 1086, 1081, 1090, 1077, 32, 1082, 1085, 1080, 1075, 1091, 32, 1079,
    1072, 1085, 1086, 1074, 1086, 46]"

text \<open>A parameter that is not a string is \<open>None\<close>.\<close>

definition safeId :: "jstring option \<Rightarrow> (error, jstring) result" where
  "safeId v = (case v of None \<Rightarrow> Inl bad_id
     | Some s \<Rightarrow> if length s = 64 \<and> list_all is_hex_lower s then Inr s else Inl bad_id)"

definition documentPath :: "jstring \<Rightarrow> jstring \<Rightarrow> (error, jstring) result" where
  "documentPath dataDir i = bind_r (safeId (Some i)) (\<lambda>s.
     Inr (join_path [dataDir, js ''reader'', js ''documents'', s @ js ''.json'']))"

definition pagePath :: "jstring \<Rightarrow> jstring \<Rightarrow> jstring \<Rightarrow> (error, jstring) result" where
  "pagePath dataDir documentId pageId = bind_r (safeId (Some documentId)) (\<lambda>d. bind_r (safeId (Some pageId)) (\<lambda>p.
     Inr (join_path [dataDir, js ''reader'', js ''pages'', d, p @ js ''.json''])))"

definition documentFor :: "jstring \<Rightarrow> disk \<Rightarrow> jstring option \<Rightarrow> (error, reader_document) result" where
  "documentFor dataDir dk i = bind_r (safeId i) (\<lambda>s. bind_r (documentPath dataDir s) (\<lambda>path.
     case jm_get (dk_documents dk) path of None \<Rightarrow> Inl open_again | Some d \<Rightarrow> Inr d))"

section \<open>The queue of changes\<close>

text \<open>
  \<open>mutateDocument\<close>: a change waits for the change of the same document that was last when it
  came, then runs, then settles. \<open>mq_latest\<close> is \<open>documentMutations\<close>, with the changes named by
  their numbers, and the list holds the changes counted by \<open>pendingMutations\<close>.
\<close>

datatype mutation_phase = Waiting "nat option" | Running

record mutation =
  mu_id :: nat
  mu_key :: jstring
  mu_phase :: mutation_phase

record mutations =
  mq_next :: nat
  mq_latest :: "(jstring, nat) jmap"
  mq_list :: "mutation list"
  mq_started :: "(jstring \<times> nat) list"

definition no_mutations :: mutations where
  "no_mutations = \<lparr>mq_next = 0, mq_latest = [], mq_list = [], mq_started = []\<rparr>"

definition too_many_changes :: error where
  "too_many_changes = Failed [1057, 1083, 1080, 1096, 1082, 1086, 1084, 32, 1084, 1085, 1086, 1075, 1086, 32, 1080, 1079,
    1084, 1077, 1085, 1077, 1085, 1080, 1081, 32, 1082, 1085, 1080, 1075, 1080, 32, 1086, 1076,
    1085, 1086, 1074, 1088, 1077, 1084, 1077, 1085, 1085, 1086, 46, 32, 1055, 1086, 1074, 1090,
    1086, 1088, 1080, 1090, 1077, 32, 1076, 1077, 1081, 1089, 1090, 1074, 1080, 1077, 46]"

definition enqueue_mutation :: "jstring \<Rightarrow> mutations \<Rightarrow> (error, mutations) result" where
  "enqueue_mutation key q =
     (if length (mq_list q) \<ge> 128 then Inl too_many_changes
      else Inr (q\<lparr>mq_next := Suc (mq_next q), mq_latest := jm_set key (mq_next q) (mq_latest q),
        mq_list := mq_list q @ [\<lparr>mu_id = mq_next q, mu_key = key, mu_phase = Waiting (jm_get (mq_latest q) key)\<rparr>]\<rparr>))"

definition may_start :: "mutations \<Rightarrow> mutation \<Rightarrow> bool" where
  "may_start q m \<longleftrightarrow> (case mu_phase m of Running \<Rightarrow> False | Waiting None \<Rightarrow> True
     | Waiting (Some i) \<Rightarrow> i \<notin> mu_id ` set (mq_list q))"

definition start_mutation :: "mutation \<Rightarrow> mutations \<Rightarrow> mutations" where
  "start_mutation m q = q\<lparr>mq_list := map (\<lambda>x. if mu_id x = mu_id m then x\<lparr>mu_phase := Running\<rparr> else x) (mq_list q),
     mq_started := mq_started q @ [(mu_key m, mu_id m)]\<rparr>"

definition settle_mutation :: "mutation \<Rightarrow> mutations \<Rightarrow> mutations" where
  "settle_mutation m q = q\<lparr>mq_list := filter (\<lambda>x. mu_id x \<noteq> mu_id m) (mq_list q),
     mq_latest := (if jm_get (mq_latest q) (mu_key m) = Some (mu_id m) then jm_delete (mu_key m) (mq_latest q) else mq_latest q)\<rparr>"

inductive mutation_step :: "mutations \<Rightarrow> mutations \<Rightarrow> bool" where
  enqueue: "enqueue_mutation key q = Inr q' \<Longrightarrow> mutation_step q q'"
| start: "m \<in> set (mq_list q) \<Longrightarrow> may_start q m \<Longrightarrow> mutation_step q (start_mutation m q)"
| settle: "m \<in> set (mq_list q) \<Longrightarrow> mu_phase m = Running \<Longrightarrow> mutation_step q (settle_mutation m q)"

inductive_cases mutation_stepE [elim]: "mutation_step q q'"

inductive mutations_reached :: "mutations \<Rightarrow> bool" where
  idle: "mutations_reached no_mutations"
| step: "mutations_reached q \<Longrightarrow> mutation_step q q' \<Longrightarrow> mutations_reached q'"

text \<open>Every change of a key runs after the changes of that key before it.\<close>

definition none_before :: "mutations \<Rightarrow> mutation \<Rightarrow> bool" where
  "none_before q m \<longleftrightarrow> (\<forall>x \<in> set (mq_list q). mu_key x = mu_key m \<longrightarrow> mu_id m \<le> mu_id x)"

definition well_placed :: "mutations \<Rightarrow> mutation \<Rightarrow> bool" where
  "well_placed q m \<longleftrightarrow> (case mu_phase m of
       Waiting (Some i) \<Rightarrow> i < mu_id m
         \<and> (\<forall>x \<in> set (mq_list q). mu_key x = mu_key m \<and> mu_id x < mu_id m \<longrightarrow> mu_id x \<le> i)
         \<and> ((\<exists>x \<in> set (mq_list q). mu_id x = i \<and> mu_key x = mu_key m) \<or> none_before q m)
     | _ \<Rightarrow> none_before q m)"

definition latest_right :: "mutations \<Rightarrow> bool" where
  "latest_right q \<longleftrightarrow> (\<forall>k. case jm_get (mq_latest q) k of
       None \<Rightarrow> \<forall>x \<in> set (mq_list q). mu_key x \<noteq> k
     | Some i \<Rightarrow> (\<exists>x \<in> set (mq_list q). mu_id x = i \<and> mu_key x = k) \<and> (\<forall>x \<in> set (mq_list q). mu_key x = k \<longrightarrow> mu_id x \<le> i))"

definition started_right :: "mutations \<Rightarrow> bool" where
  "started_right q \<longleftrightarrow> (\<forall>k. sorted_wrt (<) (map snd (filter (\<lambda>p. fst p = k) (mq_started q))))
     \<and> (\<forall>(k, j) \<in> set (mq_started q). j < mq_next q
          \<and> (\<forall>x \<in> set (mq_list q). mu_key x = k \<and> mu_phase x \<noteq> Running \<longrightarrow> j < mu_id x))"

definition mutations_inv :: "mutations \<Rightarrow> bool" where
  "mutations_inv q \<longleftrightarrow> sorted_wrt (<) (map mu_id (mq_list q)) \<and> (\<forall>x \<in> set (mq_list q). mu_id x < mq_next q)
     \<and> length (mq_list q) \<le> 128 \<and> (\<forall>x \<in> set (mq_list q). well_placed q x) \<and> latest_right q \<and> started_right q"

lemma pending_unique:
  "mutations_inv q \<Longrightarrow> x \<in> set (mq_list q) \<Longrightarrow> y \<in> set (mq_list q) \<Longrightarrow> mu_id x = mu_id y \<Longrightarrow> x = y"
proof -
  assume a: "mutations_inv q" "x \<in> set (mq_list q)" "y \<in> set (mq_list q)" "mu_id x = mu_id y"
  then have "distinct (map mu_id (mq_list q))"
    by (metis mutations_inv_def strict_sorted_iff)
  with a show "x = y" by (metis distinct_map inj_onD)
qed

lemma may_start_none_before:
  assumes inv: "mutations_inv q" and m: "m \<in> set (mq_list q)" and s: "may_start q m"
  shows "none_before q m" "mu_phase m \<noteq> Running"
proof -
  show "mu_phase m \<noteq> Running" using s by (auto simp: may_start_def)
  have wp: "well_placed q m" using inv m by (simp add: mutations_inv_def)
  show "none_before q m"
  proof (cases "mu_phase m")
    case (Waiting p)
    then show ?thesis using wp s by (cases p) (auto simp: well_placed_def may_start_def)
  qed (use wp in \<open>simp add: well_placed_def\<close>)
qed

lemma latest_rightD:
  "latest_right q \<Longrightarrow> jm_get (mq_latest q) k = None \<Longrightarrow> x \<in> set (mq_list q) \<Longrightarrow> mu_key x \<noteq> k"
  "latest_right q \<Longrightarrow> jm_get (mq_latest q) k = Some i \<Longrightarrow> x \<in> set (mq_list q) \<Longrightarrow> mu_key x = k \<Longrightarrow> mu_id x \<le> i"
  "latest_right q \<Longrightarrow> jm_get (mq_latest q) k = Some i \<Longrightarrow> \<exists>x \<in> set (mq_list q). mu_id x = i \<and> mu_key x = k"
  unfolding latest_right_def by (auto dest!: spec[of _ k])

lemma enqueue_inv:
  assumes inv: "mutations_inv q" and e: "enqueue_mutation key q = Inr q'"
  shows "mutations_inv q'"
proof -
  let ?m = "\<lparr>mu_id = mq_next q, mu_key = key, mu_phase = Waiting (jm_get (mq_latest q) key)\<rparr>"
  have q': "q' = q\<lparr>mq_next := Suc (mq_next q), mq_latest := jm_set key (mq_next q) (mq_latest q), mq_list := mq_list q @ [?m]\<rparr>"
    and few: "length (mq_list q) < 128"
    using e by (auto simp: enqueue_mutation_def split: if_splits)
  have lt: "\<forall>x \<in> set (mq_list q). mu_id x < mq_next q" and sorted: "sorted_wrt (<) (map mu_id (mq_list q))"
    and lr: "latest_right q" and sr: "started_right q" and wp: "\<forall>x \<in> set (mq_list q). well_placed q x"
    using inv by (simp_all add: mutations_inv_def)
  have "well_placed q' x" if "x \<in> set (mq_list q)" for x
  proof -
    have "mu_id x < mq_next q" using lt that by blast
    moreover have "none_before q x \<Longrightarrow> none_before q' x" using lt that by (auto simp: none_before_def q')
    ultimately show ?thesis using wp[rule_format, OF that]
      by (auto simp: well_placed_def q' split: mutation_phase.splits option.splits)
  qed
  moreover have "well_placed q' ?m"
  proof (cases "jm_get (mq_latest q) key")
    case None
    then have "\<forall>x \<in> set (mq_list q). mu_key x \<noteq> key" using latest_rightD(1)[OF lr] by blast
    then show ?thesis using None by (auto simp: well_placed_def none_before_def q')
  next
    case (Some i)
    then have "(\<exists>x \<in> set (mq_list q). mu_id x = i \<and> mu_key x = key) \<and> (\<forall>x \<in> set (mq_list q). mu_key x = key \<longrightarrow> mu_id x \<le> i)"
      using latest_rightD[OF lr] by blast
    then show ?thesis using Some lt by (auto simp: well_placed_def q')
  qed
  moreover have "latest_right q'"
    unfolding latest_right_def
  proof
    fix k
    show "case jm_get (mq_latest q') k of None \<Rightarrow> \<forall>x \<in> set (mq_list q'). mu_key x \<noteq> k
      | Some i \<Rightarrow> (\<exists>x \<in> set (mq_list q'). mu_id x = i \<and> mu_key x = k) \<and> (\<forall>x \<in> set (mq_list q'). mu_key x = k \<longrightarrow> mu_id x \<le> i)"
    proof (cases "k = key")
      case True
      then show ?thesis using lt by (auto simp: q' less_imp_le)
    next
      case False
      then show ?thesis using latest_rightD[OF lr, of k] by (cases "jm_get (mq_latest q) k") (auto simp: q')
    qed
  qed
  moreover have "started_right q'" using sr unfolding started_right_def by (auto simp: q' less_Suc_eq)
  ultimately show ?thesis using lt sorted few by (auto simp: mutations_inv_def q' sorted_wrt_append less_Suc_eq)
qed

lemma start_inv:
  assumes inv: "mutations_inv q" and m: "m \<in> set (mq_list q)" and s: "may_start q m"
  shows "mutations_inv (start_mutation m q)"
proof -
  let ?q = "start_mutation m q"
  define f :: "mutation \<Rightarrow> mutation" where "f = (\<lambda>x. if mu_id x = mu_id m then x\<lparr>mu_phase := Running\<rparr> else x)"
  note nb = may_start_none_before[OF assms]
  have list: "mq_list ?q = map f (mq_list q)" by (simp add: start_mutation_def f_def)
  have keys [simp]: "mu_key (f x) = mu_key x" "mu_id (f x) = mu_id x" "mu_phase (f x) = (if mu_id x = mu_id m then Running else mu_phase x)" for x
    by (simp_all add: f_def)
  have ids: "map mu_id (mq_list ?q) = map mu_id (mq_list q)" unfolding list by simp
  have none: "none_before ?q (f x) = none_before q x" for x by (simp add: none_before_def list)
  have "well_placed ?q (f x)" if x: "x \<in> set (mq_list q)" for x
  proof (cases "mu_id x = mu_id m")
    case True
    then have "x = m" using pending_unique[OF inv x m] by blast
    then show ?thesis using nb(1) none[of m] by (simp add: well_placed_def)
  next
    case False
    have "well_placed q x" using inv x by (simp add: mutations_inv_def)
    then show ?thesis using False none[of x]
      by (auto simp: well_placed_def list split: mutation_phase.splits option.splits)
  qed
  moreover have "latest_right ?q"
  proof -
    have "mq_latest ?q = mq_latest q" by (simp add: start_mutation_def)
    moreover have "latest_right q" using inv by (simp add: mutations_inv_def)
    ultimately show ?thesis by (simp add: latest_right_def list cong: option.case_cong)
  qed
  moreover have "started_right ?q"
  proof -
    have sr: "started_right q" using inv by (simp add: mutations_inv_def)
    have below: "j < mu_id m" if "(mu_key m, j) \<in> set (mq_started q)" for j
      using sr that m nb(2) unfolding started_right_def by fastforce
    have "sorted_wrt (<) (map snd (filter (\<lambda>p. fst p = k) (mq_started ?q)))" for k
      using sr below by (auto simp: started_right_def start_mutation_def sorted_wrt_append)
    moreover have "j < mq_next q \<and> (\<forall>x \<in> set (mq_list ?q). mu_key x = k \<and> mu_phase x \<noteq> Running \<longrightarrow> j < mu_id x)"
      if st: "(k, j) \<in> set (mq_started ?q)" for k j
    proof -
      consider "(k, j) \<in> set (mq_started q)" | "k = mu_key m" "j = mu_id m"
        using st by (auto simp: start_mutation_def)
      then show ?thesis
      proof cases
        case 1
        then have "j < mq_next q" "\<forall>x \<in> set (mq_list q). mu_key x = k \<and> mu_phase x \<noteq> Running \<longrightarrow> j < mu_id x"
          using sr unfolding started_right_def by blast+
        then show ?thesis by (simp add: list)
      next
        case 2
        have "mu_id m < mu_id x" if "x \<in> set (mq_list q)" "mu_key x = mu_key m" "mu_id x \<noteq> mu_id m" for x
          using nb(1) that by (metis le_neq_implies_less none_before_def)
        then show ?thesis using 2 m inv by (auto simp: list mutations_inv_def)
      qed
    qed
    ultimately show ?thesis by (auto simp: started_right_def start_mutation_def)
  qed
  moreover have "mq_next ?q = mq_next q" by (simp add: start_mutation_def)
  moreover have "sorted_wrt (<) (map mu_id (mq_list ?q))" unfolding ids using inv by (simp add: mutations_inv_def)
  ultimately show ?thesis using inv unfolding mutations_inv_def list by simp
qed


lemma settle_inv:
  assumes inv: "mutations_inv q" and m: "m \<in> set (mq_list q)" and r: "mu_phase m = Running"
  shows "mutations_inv (settle_mutation m q)"
proof -
  let ?q = "settle_mutation m q"
  have list: "mq_list ?q = filter (\<lambda>x. mu_id x \<noteq> mu_id m) (mq_list q)" by (simp add: settle_mutation_def)
  have first: "none_before q m"
    using inv m r by (auto simp: mutations_inv_def well_placed_def)
  have less: "mu_id m < mu_id x" if "x \<in> set (mq_list ?q)" "mu_key x = mu_key m" for x
    using first that by (auto simp: list none_before_def order.strict_iff_order)
  have lr: "latest_right q" using inv by (simp add: mutations_inv_def)
  have "well_placed ?q x" if x: "x \<in> set (mq_list ?q)" for x
  proof -
    have wp: "well_placed q x" using inv x by (auto simp: mutations_inv_def list)
    have nb: "none_before q x \<Longrightarrow> none_before ?q x" by (auto simp: none_before_def list)
    show ?thesis
    proof (cases "mu_phase x")
      case (Waiting p)
      show ?thesis
      proof (cases p)
        case (Some i)
        have "i < mu_id x" and bound: "\<forall>y \<in> set (mq_list q). mu_key y = mu_key x \<and> mu_id y < mu_id x \<longrightarrow> mu_id y \<le> i"
          and prev: "(\<exists>y \<in> set (mq_list q). mu_id y = i \<and> mu_key y = mu_key x) \<or> none_before q x"
          using wp Waiting Some by (simp_all add: well_placed_def)
        moreover have "(\<exists>y \<in> set (mq_list ?q). mu_id y = i \<and> mu_key y = mu_key x) \<or> none_before ?q x"
        proof (cases "i = mu_id m \<and> mu_key m = mu_key x")
          case True
          have "mu_id x \<le> mu_id y" if "y \<in> set (mq_list ?q)" "mu_key y = mu_key x" for y
            using less[OF that(1)] bound that True by (fastforce simp: list)
          then show ?thesis by (simp add: none_before_def)
        next
          case False
          then show ?thesis using prev nb pending_unique[OF inv m] by (fastforce simp: list)
        qed
        moreover have "\<forall>y \<in> set (mq_list ?q). mu_key y = mu_key x \<and> mu_id y < mu_id x \<longrightarrow> mu_id y \<le> i"
          using bound by (simp add: list)
        ultimately show ?thesis using Waiting Some by (simp add: well_placed_def)
      qed (use wp nb Waiting in \<open>simp add: well_placed_def\<close>)
    qed (use wp nb in \<open>simp add: well_placed_def\<close>)
  qed
  moreover have "latest_right ?q"
    unfolding latest_right_def
  proof
    fix k
    show "case jm_get (mq_latest ?q) k of None \<Rightarrow> \<forall>x \<in> set (mq_list ?q). mu_key x \<noteq> k
      | Some i \<Rightarrow> (\<exists>x \<in> set (mq_list ?q). mu_id x = i \<and> mu_key x = k) \<and> (\<forall>x \<in> set (mq_list ?q). mu_key x = k \<longrightarrow> mu_id x \<le> i)"
    proof (cases "k = mu_key m \<and> jm_get (mq_latest q) k = Some (mu_id m)")
      case True
      then have "jm_get (mq_latest ?q) k = None" by (auto simp: settle_mutation_def)
      moreover have "mu_key x \<noteq> k" if "x \<in> set (mq_list ?q)" for x
        using less[OF that] latest_rightD(2)[OF lr, of k "mu_id m" x] True that by (auto simp: list)
      ultimately show ?thesis by simp
    next
      case False
      then have same: "jm_get (mq_latest ?q) k = jm_get (mq_latest q) k" by (auto simp: settle_mutation_def)
      show ?thesis
      proof (cases "jm_get (mq_latest q) k")
        case None
        then show ?thesis using latest_rightD(1)[OF lr None] same by (simp add: list)
      next
        case (Some i)
        obtain y where y: "y \<in> set (mq_list q)" "mu_id y = i" "mu_key y = k" using latest_rightD(3)[OF lr Some] by blast
        then have "mu_id y \<noteq> mu_id m" using False Some pending_unique[OF inv y(1) m] by auto
        then show ?thesis using y Some same latest_rightD(2)[OF lr Some] by (auto simp: list)
      qed
    qed
  qed
  moreover have "started_right ?q" using inv
    unfolding mutations_inv_def started_right_def list by (auto simp: settle_mutation_def)
  moreover have "sorted_wrt (<) (map mu_id (mq_list ?q))"
    using inv sorted_wrt_filter[of "\<lambda>x y. mu_id x < mu_id y" "mq_list q"] by (simp add: list mutations_inv_def sorted_wrt_map)
  moreover have "length (mq_list ?q) \<le> 128"
    unfolding list using inv by (intro order.trans[OF length_filter_le]) (simp add: mutations_inv_def)
  ultimately show ?thesis using inv by (auto simp: mutations_inv_def settle_mutation_def)
qed

lemma mutations_reached_inv: "mutations_reached q \<Longrightarrow> mutations_inv q"
proof (induction rule: mutations_reached.induct)
  case idle
  show ?case by (simp add: mutations_inv_def no_mutations_def latest_right_def started_right_def)
next
  case (step q q')
  from step.hyps(2) step.IH show ?case by (cases rule: mutation_step.cases) (auto intro: enqueue_inv start_inv settle_inv)
qed

text \<open>
  C8: the changes of a document run one at a time and in the order in which they came. At most 128
  changes are pending, the table of the latest changes holds exactly the documents with a
  pending one, and while a change is pending one is running or can start.
\<close>

theorem mutations_ordered:
  assumes "mutations_reached q"
  shows "length (mq_list q) \<le> 128
    \<and> (\<forall>x \<in> set (mq_list q). \<forall>y \<in> set (mq_list q). mu_phase x = Running \<and> mu_phase y = Running \<and> mu_key x = mu_key y \<longrightarrow> x = y)
    \<and> (\<forall>k. sorted_wrt (<) (map snd (filter (\<lambda>p. fst p = k) (mq_started q))))
    \<and> (\<forall>k. jm_get (mq_latest q) k \<noteq> None \<longleftrightarrow> (\<exists>x \<in> set (mq_list q). mu_key x = k))
    \<and> (mq_list q \<noteq> [] \<longrightarrow> (\<exists>x \<in> set (mq_list q). mu_phase x = Running \<or> may_start q x))"
proof -
  have inv: "mutations_inv q" by (rule mutations_reached_inv[OF assms])
  have lr: "latest_right q" and wp: "\<forall>x \<in> set (mq_list q). well_placed q x" and sr: "started_right q"
    and sorted: "sorted_wrt (<) (map mu_id (mq_list q))"
    using inv by (simp_all add: mutations_inv_def)
  have "x = y" if "x \<in> set (mq_list q)" "y \<in> set (mq_list q)" "mu_phase x = Running" "mu_phase y = Running" "mu_key x = mu_key y" for x y
  proof -
    have "none_before q x" "none_before q y" using wp that by (auto simp: well_placed_def)
    then have "mu_id x = mu_id y" using that by (auto simp: none_before_def intro: le_antisym)
    then show ?thesis using pending_unique[OF inv that(1,2)] by blast
  qed
  moreover have "jm_get (mq_latest q) k \<noteq> None \<longleftrightarrow> (\<exists>x \<in> set (mq_list q). mu_key x = k)" for k
    using latest_rightD(1,3)[OF lr, of k] by (cases "jm_get (mq_latest q) k") auto
  moreover have "\<exists>x \<in> set (mq_list q). mu_phase x = Running \<or> may_start q x" if ne: "mq_list q \<noteq> []"
  proof -
    obtain m ms where ms: "mq_list q = m # ms" using ne by (cases "mq_list q") auto
    have least: "mu_id m \<le> mu_id x" if "x \<in> set (mq_list q)" for x using sorted that by (auto simp: ms less_imp_le)
    have "well_placed q m" using wp by (simp add: ms)
    then have "mu_phase m = Running \<or> may_start q m"
      using least by (fastforce simp: well_placed_def may_start_def split: mutation_phase.splits option.splits)
    then show ?thesis by (auto simp: ms)
  qed
  ultimately show ?thesis using inv sr by (simp add: mutations_inv_def started_right_def)
qed


definition sample_mutations :: mutations where
  "sample_mutations = \<lparr>mq_next = 2, mq_latest = [(js ''d'', 1)],
     mq_list = [\<lparr>mu_id = 0, mu_key = js ''d'', mu_phase = Running\<rparr>, \<lparr>mu_id = 1, mu_key = js ''d'', mu_phase = Waiting (Some 0)\<rparr>],
     mq_started = [(js ''d'', 0)]\<rparr>"

lemma sample_mutations_reached: "mutations_reached sample_mutations"
proof -
  let ?a = "\<lparr>mq_next = 1, mq_latest = [(js ''d'', 0)], mq_list = [\<lparr>mu_id = 0, mu_key = js ''d'', mu_phase = Waiting None\<rparr>], mq_started = []\<rparr>"
  let ?m = "\<lparr>mu_id = 0, mu_key = js ''d'', mu_phase = Waiting None\<rparr>"
  have 1: "mutation_step no_mutations ?a" by (rule enqueue[where key = "js ''d''"]) code_simp
  have 2: "mutation_step ?a (start_mutation ?m ?a)" by (rule start) (simp, code_simp)
  have 3: "mutation_step (start_mutation ?m ?a) sample_mutations" by (rule enqueue[where key = "js ''d''"]) code_simp
  show ?thesis using mutations_reached.step[OF mutations_reached.step[OF mutations_reached.step[OF idle 1] 2] 3] .
qed

theorem mutations_ordered_witness:
  "length (mq_list sample_mutations) \<le> 128
    \<and> (\<forall>k. sorted_wrt (<) (map snd (filter (\<lambda>p. fst p = k) (mq_started sample_mutations))))
    \<and> (\<exists>x \<in> set (mq_list sample_mutations). mu_phase x = Running \<or> may_start sample_mutations x)"
proof -
  have "mq_list sample_mutations \<noteq> []" by (simp add: sample_mutations_def)
  then show ?thesis using mutations_ordered[OF sample_mutations_reached] by blast
qed

section \<open>Pictures\<close>

text \<open>
  The answer to the request of a picture: its status, the text of its type, the number of its
  length (\<open>None\<close> when there is none or it is not a number) and the reads of its body. A read
  fails with the reason of the signal when the signal has been aborted.
\<close>

datatype image_read = ImageChunk "nat list" | ImageReadFails error

record image_response =
  ir_status :: nat
  ir_type :: "jstring option"
  ir_length :: "rat option"
  ir_body :: "image_read list option"

definition maxImageBytes :: nat where
  "maxImageBytes = 32 * 1024 * 1024"

definition page_not_loaded :: "nat \<Rightarrow> error" where
  "page_not_loaded status = Failed ([1053, 1077, 32, 1091, 1076, 1072, 1083, 1086, 1089, 1100, 32, 1079, 1072, 1075, 1088, 1091,
    1079, 1080, 1090, 1100, 32, 1089, 1090, 1088, 1072, 1085, 1080, 1094, 1091, 58, 32, 72, 84,
    84, 80, 32] @ to_dec status @ js ''.'')"

definition page_instead :: error where
  "page_instead = Failed [1048, 1089, 1090, 1086, 1095, 1085, 1080, 1082, 32, 1074, 1077, 1088, 1085, 1091, 1083, 32,
    1089, 1090, 1088, 1072, 1085, 1080, 1094, 1091, 32, 1074, 1084, 1077, 1089, 1090, 1086, 32,
    1080, 1079, 1086, 1073, 1088, 1072, 1078, 1077, 1085, 1080, 1103, 46]"

definition image_too_large :: error where
  "image_too_large = Failed [1048, 1079, 1086, 1073, 1088, 1072, 1078, 1077, 1085, 1080, 1077, 32, 1087, 1088, 1077, 1074,
    1099, 1096, 1072, 1077, 1090, 32, 1076, 1086, 1087, 1091, 1089, 1090, 1080, 1084, 1099, 1081,
    32, 1088, 1072, 1079, 1084, 1077, 1088, 46]"

definition empty_image :: error where
  "empty_image = Failed [1048, 1089, 1090, 1086, 1095, 1085, 1080, 1082, 32, 1074, 1077, 1088, 1085, 1091, 1083, 32,
    1087, 1091, 1089, 1090, 1086, 1077, 32, 1080, 1079, 1086, 1073, 1088, 1072, 1078, 1077, 1085,
    1080, 1077, 46]"

definition image_types :: "(jstring, jstring) jmap" where
  "image_types = map (\<lambda>(t, e). (js t, js e)) [(''image/jpeg'', ''.jpg''), (''image/png'', ''.png''), (''image/webp'', ''.webp''),
     (''image/gif'', ''.gif''), (''image/bmp'', ''.bmp'')]"

fun read_image :: "nat list \<Rightarrow> image_read list \<Rightarrow> (error, nat list) result" where
  "read_image got [] = Inr got"
| "read_image got (ImageReadFails e # rs) = Inl e"
| "read_image got (ImageChunk c # rs) = (if length (got @ c) > maxImageBytes then Inl image_too_large else read_image (got @ c) rs)"

definition image_bytes :: "image_response \<Rightarrow> (error, jstring \<times> nat list) result" where
  "image_bytes r =
     (if \<not> in_range 200 299 (ir_status r) then Inl (page_not_loaded (ir_status r))
      else let type = (case ir_type r of None \<Rightarrow> [] | Some t \<Rightarrow> hd (split_char 59 t)) in
      case jm_get image_types type of
        None \<Rightarrow> Inl page_instead
      | Some extension \<Rightarrow>
          (case (ir_length r, ir_body r) of
             (_, None) \<Rightarrow> Inl image_too_large
           | (len, Some reads) \<Rightarrow>
               if (case len of None \<Rightarrow> False | Some n \<Rightarrow> n > of_nat maxImageBytes) then Inl image_too_large
               else bind_r (read_image [] reads) (\<lambda>bytes.
                 if bytes = [] then Inl empty_image else Inr (extension, bytes))))"

definition image_file :: "jstring \<Rightarrow> jstring \<Rightarrow> jstring" where
  "image_file dataDir name = join_path [join_path [dataDir, js ''reader'', js ''images''], name]"

definition image_meta :: "runtime \<Rightarrow> jstring \<Rightarrow> jstring \<Rightarrow> jstring" where
  "image_meta rt dataDir url = image_file dataDir (rt_sha256 rt url @ js ''.json'')"

text \<open>\<open>cacheImage\<close>: the saved picture if its file is there and not empty, or the loaded one.\<close>

definition saved_image :: "runtime \<Rightarrow> jstring \<Rightarrow> jstring \<Rightarrow> disk \<Rightarrow> jstring option" where
  "saved_image rt dataDir url dk =
     (case jm_get (dk_metadata dk) (image_meta rt dataDir url) of
        None \<Rightarrow> None
      | Some path \<Rightarrow> (case jm_get (dk_files dk) path of None \<Rightarrow> None | Some bytes \<Rightarrow> if bytes = [] then None else Some path))"

definition store_image :: "runtime \<Rightarrow> jstring \<Rightarrow> jstring \<Rightarrow> jstring \<Rightarrow> nat list \<Rightarrow> disk \<Rightarrow> disk \<times> jstring" where
  "store_image rt dataDir url extension bytes dk =
     (let path = image_file dataDir (rt_sha256 rt url @ extension)
      in (dk\<lparr>dk_files := jm_set path bytes (dk_files dk),
            dk_metadata := jm_set (image_meta rt dataDir url) path (dk_metadata dk)\<rparr>, path))"

definition cacheImage ::
  "runtime \<Rightarrow> jstring \<Rightarrow> jstring \<Rightarrow> (error, image_response) result \<Rightarrow> disk \<Rightarrow> disk \<times> (error, jstring) result" where
  "cacheImage rt dataDir url response dk =
     (case saved_image rt dataDir url dk of
        Some path \<Rightarrow> (dk, Inr path)
      | None \<Rightarrow>
          (case bind_r response image_bytes of
             Inl e \<Rightarrow> (dk, Inl e)
           | Inr (extension, bytes) \<Rightarrow> (case store_image rt dataDir url extension bytes dk of (dk', path) \<Rightarrow> (dk', Inr path))))"

definition image_headers :: "jstring \<Rightarrow> (jstring \<times> jstring) list option" where
  "image_headers sourceId =
     (if sourceId = js ''mangalib'' then Some [(js ''Referer'', js ''https://mangalib.me/''), (js ''Site-Id'', js ''1'')]
      else if sourceId = js ''mangadex'' then Some [(js ''Referer'', js ''https://mangadex.org/'')]
      else if sourceId = js ''nhentai'' then Some [(js ''Referer'', js ''https://nhentai.net/'')]
      else if sourceId = js ''ranobelib'' then Some [(js ''Referer'', js ''https://ranobelib.me/''), (js ''Site-Id'', js ''3'')]
      else None)"


section \<open>The pictures of a page\<close>

text \<open>\<open>/^https?:/\<close>; the addresses of the pictures of a text, in its order, and their replacement.\<close>

definition web_image :: "jstring \<Rightarrow> (jstring, jstring) jmap \<Rightarrow> jstring option" where
  "web_image tag attrs = (if tag \<noteq> js ''img'' then None else case jm_get attrs (js ''src'') of
     None \<Rightarrow> None | Some u \<Rightarrow> if starts_with u (js ''http:'') \<or> starts_with u (js ''https:'') then Some u else None)"

fun web_images :: "node list \<Rightarrow> jstring list" where
  "web_images [] = []"
| "web_images (TextNode t # ns) = web_images ns"
| "web_images (Element tag attrs body # ns) =
     (case web_image tag attrs of None \<Rightarrow> [] | Some u \<Rightarrow> [u]) @ web_images body @ web_images ns"

fun set_sources :: "(nat \<Rightarrow> jstring option) \<Rightarrow> nat \<Rightarrow> node list \<Rightarrow> nat \<times> node list" where
  "set_sources f k [] = (k, [])"
| "set_sources f k (TextNode t # ns) = (case set_sources f k ns of (k', ns') \<Rightarrow> (k', TextNode t # ns'))"
| "set_sources f k (Element tag attrs body # ns) =
     (let img = web_image tag attrs \<noteq> None;
          attrs' = (if img then (case f k of None \<Rightarrow> attrs | Some u \<Rightarrow> jm_set (js ''src'') u attrs) else attrs)
      in case set_sources f (if img then Suc k else k) body of (k1, body') \<Rightarrow>
         (case set_sources f k1 ns of (k2, ns') \<Rightarrow> (k2, Element tag attrs' body' # ns')))"

text \<open>
  \<open>cachePageImages\<close>: the jobs are the pictures of the page and then those of its text, by their
  addresses. At most three loops run them; a failure stops the others.
\<close>

record image_run =
  im_jobs :: "jstring list"
  im_pool :: pool
  im_disk :: disk
  im_paths :: "(nat, jstring) jmap"
  im_progress :: "nat list"
  im_failure :: "error option"

datatype image_event =
    TakeImage
  | ImageLoaded nat "(error, image_response) result"
  | ImagesAborted error

definition image_loops :: "nat \<Rightarrow> nat" where
  "image_loops n = min 3 n"

definition start_images :: "jstring list \<Rightarrow> disk \<Rightarrow> image_run" where
  "start_images jobs dk = \<lparr>im_jobs = jobs, im_pool = new_pool, im_disk = dk, im_paths = [], im_progress = [], im_failure = None\<rparr>"

definition end_image :: "runtime \<Rightarrow> jstring \<Rightarrow> nat \<Rightarrow> (error, image_response) result \<Rightarrow> image_run \<Rightarrow> image_run" where
  "end_image rt dataDir i response r =
     (case cacheImage rt dataDir (im_jobs r ! i) response (im_disk r) of
        (dk, Inr path) \<Rightarrow> r\<lparr>im_pool := finish_job i (im_pool r), im_disk := dk, im_paths := jm_set i path (im_paths r),
          im_progress := im_progress r @ [Suc (length (im_progress r))]\<rparr>
      | (dk, Inl e) \<Rightarrow> r\<lparr>im_pool := stop_pool (finish_job i (im_pool r)), im_disk := dk,
          im_failure := opt_or (im_failure r) (Some e)\<rparr>)"

definition image_step :: "runtime \<Rightarrow> jstring \<Rightarrow> image_event \<Rightarrow> image_run \<Rightarrow> image_run" where
  "image_step rt dataDir ev r =
     (let jobs = length (im_jobs r) in
      case ev of
        TakeImage \<Rightarrow> if can_take jobs (image_loops jobs) (im_pool r) then r\<lparr>im_pool := take_job (im_pool r)\<rparr> else r
      | ImageLoaded i response \<Rightarrow> if i \<in> set (pl_running (im_pool r)) then end_image rt dataDir i response r else r
      | ImagesAborted e \<Rightarrow> r\<lparr>im_pool := stop_pool (im_pool r),
          im_failure := (if pl_next (im_pool r) < jobs then opt_or (im_failure r) (Some e) else im_failure r)\<rparr>)"

definition run_images :: "runtime \<Rightarrow> jstring \<Rightarrow> image_event list \<Rightarrow> jstring list \<Rightarrow> disk \<Rightarrow> image_run" where
  "run_images rt dataDir evs jobs dk = fold (image_step rt dataDir) evs (start_images jobs dk)"

definition images_ended :: "image_run \<Rightarrow> bool" where
  "images_ended r \<longleftrightarrow> pl_running (im_pool r) = []
     \<and> \<not> can_take (length (im_jobs r)) (image_loops (length (im_jobs r))) (im_pool r)"

definition page_tree :: "book_tools \<Rightarrow> reader_page \<Rightarrow> node list option" where
  "page_tree bt page = (case p_html page of None \<Rightarrow> None | Some h \<Rightarrow> if h = [] then None else Some (bt_html bt h))"

definition page_jobs :: "book_tools \<Rightarrow> reader_page \<Rightarrow> jstring list" where
  "page_jobs bt page = map im_url (list_or (p_images page))
     @ (case page_tree bt page of None \<Rightarrow> [] | Some ns \<Rightarrow> web_images ns)"

definition page_images :: "image_run \<Rightarrow> reader_image list \<Rightarrow> reader_image list" where
  "page_images r images = map (\<lambda>(i, im). case jm_get (im_paths r) i of None \<Rightarrow> im | Some p \<Rightarrow> im\<lparr>im_url := p\<rparr>) (enumerate 0 images)"

definition with_images :: "book_tools \<Rightarrow> image_run \<Rightarrow> reader_page \<Rightarrow> reader_page" where
  "with_images bt r page =
     (let n = length (list_or (p_images page));
          page' = page\<lparr>p_images := map_option (page_images r) (p_images page)\<rparr>
      in case page_tree bt page of
           None \<Rightarrow> page'
         | Some ns \<Rightarrow>
             (let tree = snd (set_sources (\<lambda>k. map_option (bt_file_url bt) (jm_get (im_paths r) (n + k))) 0 ns)
              in page'\<lparr>p_html := Some (case body_of tree of None \<Rightarrow> [] | Some body \<Rightarrow> bt_print bt body)\<rparr>))"

text \<open>The outcome of a run, \<open>None\<close> while some loop is busy.\<close>

definition cachePageImages ::
  "runtime \<Rightarrow> book_tools \<Rightarrow> jstring \<Rightarrow> reader_page \<Rightarrow> image_event list \<Rightarrow> disk \<Rightarrow> (disk \<times> (error, reader_page) result) option" where
  "cachePageImages rt bt dataDir page evs dk =
     (let r = run_images rt dataDir evs (page_jobs bt page) dk in
      if \<not> images_ended r then None
      else Some (im_disk r, case im_failure r of Some e \<Rightarrow> Inl e | None \<Rightarrow> Inr (with_images bt r page)))"

interpretation caching: worker_pool n "image_loops n" 3 for n
  by unfold_locales (simp_all add: image_loops_def)


section \<open>Facts on pictures\<close>

lemma read_image_bound: "read_image got rs = Inr b \<Longrightarrow> length got \<le> maxImageBytes \<Longrightarrow> length b \<le> maxImageBytes"
  by (induction got rs rule: read_image.induct) (auto split: if_splits)

lemma image_bytes_bound: "image_bytes r = Inr (extension, b) \<Longrightarrow> b \<noteq> [] \<and> length b \<le> maxImageBytes"
  by (auto simp: image_bytes_def Let_def bind_r_Inr dest!: read_image_bound
      split: if_splits option.splits)

definition pictures_from :: "files \<Rightarrow> files \<Rightarrow> bool" where
  "pictures_from fs fs' \<longleftrightarrow> (\<forall>q. jm_get fs' q = jm_get fs q
     \<or> (\<exists>b. jm_get fs' q = Some b \<and> b \<noteq> [] \<and> length b \<le> maxImageBytes))"

lemma pictures_from_refl [simp]: "pictures_from fs fs"
  by (simp add: pictures_from_def)

lemma pictures_from_trans: "pictures_from a b \<Longrightarrow> pictures_from b c \<Longrightarrow> pictures_from a c"
  unfolding pictures_from_def by metis

lemma pictures_kept: "pictures_from fs fs' \<Longrightarrow> jm_get fs p = Some b \<Longrightarrow> b \<noteq> [] \<Longrightarrow> \<exists>b'. jm_get fs' p = Some b' \<and> b' \<noteq> []"
  unfolding pictures_from_def by metis

lemma cacheImage_files:
  assumes "cacheImage rt dataDir url response dk = (dk', res)"
  shows "pictures_from (dk_files dk) (dk_files dk')"
    and "res = Inr path \<Longrightarrow> \<exists>b. jm_get (dk_files dk') path = Some b \<and> b \<noteq> []"
proof -
  show "pictures_from (dk_files dk) (dk_files dk')"
    using assms image_bytes_bound
    by (auto simp: cacheImage_def store_image_def Let_def bind_r_Inr pictures_from_def
        split: option.splits sum.splits prod.splits)
  show "\<exists>b. jm_get (dk_files dk') path = Some b \<and> b \<noteq> []" if "res = Inr path"
  proof (cases "saved_image rt dataDir url dk")
    case None
    then show ?thesis using assms that image_bytes_bound
      by (auto simp: cacheImage_def store_image_def Let_def bind_r_Inr split: sum.splits prod.splits)
  next
    case (Some p)
    then show ?thesis using assms that
      by (auto simp: cacheImage_def saved_image_def split: option.splits if_splits)
  qed
qed

definition image_inv :: "jstring list \<Rightarrow> files \<Rightarrow> image_run \<Rightarrow> bool" where
  "image_inv jobs fs r \<longleftrightarrow> im_jobs r = jobs \<and> pool_reached (length jobs) (image_loops (length jobs)) (im_pool r)
     \<and> im_progress r = [1..<Suc (length (im_paths r))]
     \<and> set (map fst (im_paths r)) \<subseteq> set (pl_done (im_pool r))
     \<and> (im_failure r = None \<longrightarrow> set (pl_done (im_pool r)) \<subseteq> set (map fst (im_paths r)))
     \<and> (im_failure r = None \<and> pl_stopped (im_pool r) \<longrightarrow> length jobs \<le> pl_next (im_pool r))
     \<and> (\<forall>i p. jm_get (im_paths r) i = Some p \<longrightarrow> (\<exists>b. jm_get (dk_files (im_disk r)) p = Some b \<and> b \<noteq> []))
     \<and> pictures_from fs (dk_files (im_disk r))"

lemma end_image_inv:
  assumes inv: "image_inv jobs fs r" and i: "i \<in> set (pl_running (im_pool r))"
  shows "image_inv jobs fs (end_image rt dataDir i response r)"
proof -
  let ?p = "im_pool r"
  have reached: "pool_reached (length jobs) (image_loops (length jobs)) ?p" using inv by (simp add: image_inv_def)
  have fin: "pool_reached (length jobs) (image_loops (length jobs)) (finish_job i ?p)"
    by (rule pool_reached.step[OF reached finish_step[OF i]])
  have "i \<notin> set (pl_done ?p)" using caching.pool_reached_inv[OF reached] i by (auto simp: pool_inv_def)
  then have fresh: "i \<notin> set (map fst (im_paths r))" using inv by (auto simp: image_inv_def)
  obtain dk res where c: "cacheImage rt dataDir (im_jobs r ! i) response (im_disk r) = (dk, res)" by (metis prod.collapse)
  note files = cacheImage_files[OF c]
  have kept: "\<exists>b. jm_get (dk_files dk) p = Some b \<and> b \<noteq> []" if "jm_get (im_paths r) j = Some p" for j p
    using inv that pictures_kept[OF files(1)] unfolding image_inv_def by blast
  have src: "pictures_from fs (dk_files dk)"
    using inv pictures_from_trans[OF _ files(1)] by (simp add: image_inv_def)
  have "jobs = im_jobs r" "im_progress r = [1..<Suc (length (im_paths r))]" "set (map fst (im_paths r)) \<subseteq> set (pl_done ?p)"
    "im_failure r = None \<longrightarrow> set (pl_done ?p) \<subseteq> set (map fst (im_paths r))"
    "im_failure r = None \<and> pl_stopped ?p \<longrightarrow> length jobs \<le> pl_next ?p"
    using inv by (simp_all add: image_inv_def)
  note parts = this
  show ?thesis
  proof (cases res)
    case (Inl e)
    have "pool_reached (length jobs) (image_loops (length jobs)) (stop_pool (finish_job i ?p))"
      by (rule pool_reached.step[OF fin stop_step])
    then show ?thesis using c Inl parts src kept
      by (auto simp: image_inv_def end_image_def finish_job_def stop_pool_def simp del: upt_Suc)
  next
    case (Inr path)
    have "jm_set i path (im_paths r) = im_paths r @ [(i, path)]" by (rule jm_set_fresh[OF fresh])
    moreover have counted: "[Suc 0..<Suc n] @ [Suc n] = [Suc 0..<Suc (Suc n)]" for n by simp
    moreover have "pl_done (finish_job i ?p) = pl_done ?p @ [i]" "pl_next (finish_job i ?p) = pl_next ?p"
      "pl_stopped (finish_job i ?p) = pl_stopped ?p" by (simp_all add: finish_job_def)
    moreover have "\<exists>b. jm_get (dk_files dk) p = Some b \<and> b \<noteq> []" if "jm_get (jm_set i path (im_paths r)) j = Some p" for j p
      using that kept[of j p] files(2)[OF Inr] by (auto split: if_splits)
    ultimately show ?thesis using c Inr parts src fin counted
      by (auto simp: image_inv_def end_image_def simp del: upt_Suc)
  qed
qed

lemma image_step_inv: "image_inv jobs fs r \<Longrightarrow> image_inv jobs fs (image_step rt dataDir ev r)"
proof (cases ev)
  case TakeImage
  assume inv: "image_inv jobs fs r"
  show ?thesis
  proof (cases "can_take (length jobs) (image_loops (length jobs)) (im_pool r)")
    case True
    have "pool_reached (length jobs) (image_loops (length jobs)) (take_job (im_pool r))"
      using inv True by (auto simp: image_inv_def intro: pool_reached.step take_step)
    moreover have "image_step rt dataDir ev r = r\<lparr>im_pool := take_job (im_pool r)\<rparr>"
      using True inv by (simp add: TakeImage image_step_def image_inv_def Let_def)
    ultimately show ?thesis using inv by (auto simp: image_inv_def take_job_def simp del: upt_Suc)
  next
    case False
    then have "image_step rt dataDir ev r = r" using inv by (simp add: TakeImage image_step_def image_inv_def Let_def)
    then show ?thesis using inv by simp
  qed
next
  case (ImageLoaded i response)
  assume inv: "image_inv jobs fs r"
  then show ?thesis using end_image_inv[OF inv] by (simp add: ImageLoaded image_step_def Let_def)
next
  case (ImagesAborted e)
  assume inv: "image_inv jobs fs r"
  then have "pool_reached (length jobs) (image_loops (length jobs)) (stop_pool (im_pool r))"
    by (auto simp: image_inv_def intro: pool_reached.step stop_step)
  with inv show ?thesis
    by (cases "pl_next (im_pool r) < length jobs"; cases "im_failure r") (auto simp: ImagesAborted image_step_def image_inv_def stop_pool_def Let_def simp del: upt_Suc)
qed

lemma run_images_inv: "image_inv jobs (dk_files dk) (run_images rt dataDir evs jobs dk)"
proof -
  have "image_inv jobs (dk_files dk) r \<Longrightarrow> image_inv jobs (dk_files dk) (fold (image_step rt dataDir) evs r)" for r
    by (induction evs arbitrary: r) (simp_all add: image_step_inv)
  moreover have "image_inv jobs (dk_files dk) (start_images jobs dk)"
    by (simp add: image_inv_def start_images_def pool_reached.start new_pool_def[symmetric]) (simp add: new_pool_def)
  ultimately show ?thesis unfolding run_images_def by blast
qed

text \<open>
  C15: however the loops interleave, at most three pictures load at a time, the progress counts up by
  one, every file of a finished picture is there and not empty, and every new file is within
  32 MiB. When the loops have ended without a failure every picture of the page has its file.
\<close>

theorem images_cached:
  assumes "r = run_images rt dataDir evs jobs dk"
  shows "length (pl_running (im_pool r)) \<le> 3 \<and> im_progress r = [1..<Suc (length (im_paths r))]
    \<and> (\<forall>i p. jm_get (im_paths r) i = Some p \<longrightarrow> (\<exists>b. jm_get (dk_files (im_disk r)) p = Some b \<and> b \<noteq> []))
    \<and> (\<forall>q. jm_get (dk_files (im_disk r)) q = jm_get (dk_files dk) q
        \<or> (\<exists>b. jm_get (dk_files (im_disk r)) q = Some b \<and> b \<noteq> [] \<and> length b \<le> maxImageBytes))
    \<and> (images_ended r \<and> im_failure r = None \<longrightarrow> (\<forall>i < length jobs. jm_get (im_paths r) i \<noteq> None))"
proof -
  have inv: "image_inv jobs (dk_files dk) r" unfolding assms by (rule run_images_inv)
  then have reached: "pool_reached (length jobs) (image_loops (length jobs)) (im_pool r)" by (simp add: image_inv_def)
  have "jm_get (im_paths r) i \<noteq> None" if "images_ended r" "im_failure r = None" "i < length jobs" for i
  proof -
    have jobs: "im_jobs r = jobs" and stopped: "pl_stopped (im_pool r) \<Longrightarrow> length jobs \<le> pl_next (im_pool r)"
      and paths: "set (pl_done (im_pool r)) \<subseteq> set (map fst (im_paths r))"
      using inv that(2) by (simp_all add: image_inv_def)
    have run: "pl_running (im_pool r) = []" using that(1) by (simp add: images_ended_def)
    have "length jobs \<le> pl_next (im_pool r)"
      using that jobs run stopped by (auto simp: images_ended_def can_take_def image_loops_def)
    then have "i \<in> set (pl_done (im_pool r))"
      using caching.pool_reached_inv[OF reached] run that(3) by (simp add: pool_inv_def)
    then show ?thesis using paths by (auto simp: jm_get_None)
  qed
  then show ?thesis
    using inv caching.pool_bounded[OF reached] by (simp add: image_inv_def pictures_from_def del: upt_Suc)
qed


definition empty_disk :: disk where
  "empty_disk = \<lparr>dk_documents = [], dk_pages = [], dk_metadata = [], dk_files = []\<rparr>"

definition sample_loading :: image_run where
  "sample_loading = run_images sample_runtime (js ''/d'')
     [TakeImage, ImageLoaded 0 (Inr \<lparr>ir_status = 200, ir_type = Some (js ''image/png; q=1''), ir_length = None, ir_body = Some [ImageChunk [7], ImageChunk [8]]\<rparr>)]
     [js ''https://a/b''] empty_disk"

lemma sample_loading_ended:
  "images_ended sample_loading" "im_failure sample_loading = None"
  "dk_files (im_disk sample_loading) = [(js ''/d/reader/images/https:/a/b.png'', [7, 8])]"
  by code_simp+

theorem images_cached_witness:
  "length (pl_running (im_pool sample_loading)) \<le> 3 \<and> im_progress sample_loading = [1..<Suc (length (im_paths sample_loading))]
    \<and> (\<exists>p b. jm_get (im_paths sample_loading) 0 = Some p \<and> jm_get (dk_files (im_disk sample_loading)) p = Some b \<and> b \<noteq> [])"
proof -
  note facts = images_cached[OF sample_loading_def]
  have "jm_get (im_paths sample_loading) 0 \<noteq> None" using facts sample_loading_ended(1,2) by (simp del: upt_Suc)
  then obtain p where "jm_get (im_paths sample_loading) 0 = Some p" by blast
  then show ?thesis using facts by blast
qed

section \<open>Requests of the reader\<close>

datatype number_param = Absent | NotNumber | Num rat

datatype reader_request =
    OpenLocal "jstring option"
  | OpenVariant "variant option" "jstring option"
  | SetPosition "jstring option" "jstring option" number_param number_param
  | ReadChapter "jstring option" "jstring option"
  | UnknownRequest

datatype reader_answer = AnswerDocument reader_document | AnswerPosition reader_position | AnswerPage reader_page

datatype reader_event = PageEvent reader_page | ImageProgress nat nat

record reading_provider =
  pv_id :: jstring
  pv_url :: jstring
  pv_inspect :: "(variant \<Rightarrow> (error, work) result) option"

record reader_env =
  re_runtime :: runtime
  re_tools :: book_tools
  re_dataDir :: jstring
  re_providers :: "reading_provider list"
  re_load :: "jstring \<Rightarrow> book_chapter \<Rightarrow> (error, reader_page) result"

type_synonym change = "disk \<Rightarrow> disk \<times> (error, reader_answer) result"

text \<open>A request is answered, changes the document of an identifier, or still loads pictures.\<close>

datatype reader_phase = Answered "(error, reader_answer) result" | Changes jstring change | Loading

text \<open>What the queue runs when its turn has come: nothing for a request that has been aborted.\<close>

definition run_change :: "bool \<Rightarrow> change \<Rightarrow> change" where
  "run_change aborted f dk = (if aborted then (dk, Inl Aborted) else f dk)"

definition choose_file :: error where
  "choose_file = Failed [1042, 1099, 1073, 1077, 1088, 1080, 1090, 1077, 32, 1092, 1072, 1081, 1083, 32, 1082, 1085,
    1080, 1075, 1080, 46]"

definition not_readable :: error where
  "not_readable = Failed [1069, 1090, 1086, 1090, 32, 1080, 1089, 1090, 1086, 1095, 1085, 1080, 1082, 32, 1085, 1077,
    32, 1087, 1086, 1076, 1076, 1077, 1088, 1078, 1080, 1074, 1072, 1077, 1090, 32, 1095, 1090,
    1077, 1085, 1080, 1077, 46]"

definition foreign_address :: error where
  "foreign_address = Failed [1040, 1076, 1088, 1077, 1089, 32, 1087, 1088, 1086, 1080, 1079, 1074, 1077, 1076, 1077, 1085,
    1080, 1103, 32, 1085, 1077, 32, 1087, 1088, 1080, 1085, 1072, 1076, 1083, 1077, 1078, 1080,
    1090, 32, 1074, 1099, 1073, 1088, 1072, 1085, 1085, 1086, 1084, 1091, 32, 1080, 1089, 1090,
    1086, 1095, 1085, 1080, 1082, 1091, 46]"

definition nothing_to_read :: error where
  "nothing_to_read = Failed [1042, 32, 1101, 1090, 1086, 1084, 32, 1087, 1088, 1086, 1080, 1079, 1074, 1077, 1076, 1077,
    1085, 1080, 1080, 32, 1085, 1077, 1090, 32, 1076, 1086, 1089, 1090, 1091, 1087, 1085, 1099,
    1093, 32, 1075, 1083, 1072, 1074, 46]"

definition bad_position :: error where
  "bad_position = Failed [1053, 1077, 1082, 1086, 1088, 1088, 1077, 1082, 1090, 1085, 1072, 1103, 32, 1087, 1086, 1079,
    1080, 1094, 1080, 1103, 32, 1095, 1090, 1077, 1085, 1080, 1103, 46]"

definition unknown_command :: error where
  "unknown_command = Failed [1053, 1077, 1080, 1079, 1074, 1077, 1089, 1090, 1085, 1072, 1103, 32, 1082, 1086, 1084, 1072,
    1085, 1076, 1072, 32, 1095, 1080, 1090, 1072, 1083, 1082, 1080, 46]"

definition invalid_url :: error where
  "invalid_url = Failed (js ''Invalid URL'')"

definition save_document :: "jstring \<Rightarrow> reader_document \<Rightarrow> disk \<Rightarrow> disk" where
  "save_document path doc dk = dk\<lparr>dk_documents := jm_set path doc (dk_documents dk)\<rparr>"

text \<open>The change that saves an opened document with the position of the document before it.\<close>

definition save_opened :: "jstring \<Rightarrow> reader_document \<Rightarrow> change" where
  "save_opened dataDir doc dk =
     (case documentPath dataDir (d_id doc) of
        Inl e \<Rightarrow> (dk, Inl e)
      | Inr path \<Rightarrow>
          (let doc' = doc\<lparr>d_position := Option.bind (jm_get (dk_documents dk) path) d_position\<rparr>
           in (save_document path doc' dk, Inr (AnswerDocument doc'))))"

definition save_prior :: "jstring \<Rightarrow> reader_document \<Rightarrow> jstring option \<Rightarrow> change" where
  "save_prior path prior workId dk =
     (let latest = (case jm_get (dk_documents dk) path of None \<Rightarrow> prior | Some d \<Rightarrow> d);
          doc' = latest\<lparr>d_workId := opt_or workId (d_workId latest)\<rparr>
      in (save_document path doc' dk, Inr (AnswerDocument doc')))"

definition open_local_request :: "reader_env \<Rightarrow> jstring \<Rightarrow> disk \<Rightarrow> disk \<times> reader_phase" where
  "open_local_request env path dk =
     (case openLocalDocument (re_runtime env) (re_tools env) path (re_dataDir env) (dk_files dk) of
        (fs, Inl e) \<Rightarrow> (dk\<lparr>dk_files := fs\<rparr>, Answered (Inl e))
      | (fs, Inr doc) \<Rightarrow> (dk\<lparr>dk_files := fs\<rparr>, Changes (d_id doc) (save_opened (re_dataDir env) doc)))"

definition expected_host :: "runtime \<Rightarrow> variant \<Rightarrow> reading_provider \<Rightarrow> jstring option" where
  "expected_host rt v p = (if v_sourceId v = js ''syosetu'' then Some (js ''ncode.syosetu.com'')
     else map_option u_hostname (rt_url rt (pv_url p)))"

definition own_address :: "runtime \<Rightarrow> variant \<Rightarrow> reading_provider \<Rightarrow> (error, unit) result" where
  "own_address rt v p =
     (case (rt_url rt (v_url v), expected_host rt v p) of
        (Some u, Some host) \<Rightarrow> if u_protocol u \<noteq> js ''https:'' \<or> u_hostname u \<noteq> host then Inl foreign_address else Inr ()
      | _ \<Rightarrow> Inl invalid_url)"

definition opened_document :: "jstring \<Rightarrow> variant \<Rightarrow> jstring option \<Rightarrow> work \<Rightarrow> reader_document" where
  "opened_document i v workId details =
     \<lparr>d_id = i, d_title = w_title details, d_sourceId = v_sourceId v,
      d_workId = opt_or workId (Some (w_id details)), d_chapters = list_or (w_chapters details),
      d_position = None, d_local = None\<rparr>"

definition open_variant_request :: "reader_env \<Rightarrow> bool \<Rightarrow> variant \<Rightarrow> (variant \<Rightarrow> (error, work) result) \<Rightarrow> jstring option \<Rightarrow> disk \<Rightarrow> reader_phase" where
  "open_variant_request env aborted v inspect workId dk =
     (let i = rt_sha256 (re_runtime env) (v_id v) in
      case documentPath (re_dataDir env) i of
        Inl e \<Rightarrow> Answered (Inl e)
      | Inr path \<Rightarrow>
          (case inspect v of
             Inl e \<Rightarrow> (case jm_get (dk_documents dk) path of
                 None \<Rightarrow> Answered (Inl e)
               | Some prior \<Rightarrow> if aborted then Answered (Inl e) else Changes i (save_prior path prior workId))
           | Inr details \<Rightarrow>
               (let doc = opened_document i v workId details in
                if d_chapters doc = [] then Answered (Inl nothing_to_read)
                else Changes i (save_opened (re_dataDir env) doc))))"

definition open_request :: "reader_env \<Rightarrow> bool \<Rightarrow> variant option \<Rightarrow> jstring option \<Rightarrow> disk \<Rightarrow> reader_phase" where
  "open_request env aborted v workId dk =
     (case v of
        None \<Rightarrow> Answered (Inl not_readable)
      | Some v \<Rightarrow>
          (case find (\<lambda>p. pv_id p = v_sourceId v) (re_providers env) of
             None \<Rightarrow> Answered (Inl not_readable)
           | Some p \<Rightarrow>
               (case pv_inspect p of
                  None \<Rightarrow> Answered (Inl not_readable)
                | Some inspect \<Rightarrow>
                    (case own_address (re_runtime env) v p of
                       Inl e \<Rightarrow> Answered (Inl e)
                     | Inr _ \<Rightarrow> open_variant_request env aborted v inspect workId dk))))"


text \<open>\<open>Number.isSafeInteger\<close> and at least zero.\<close>

definition safe_index :: "rat \<Rightarrow> nat option" where
  "safe_index x = (if x = of_int \<lfloor>x\<rfloor> \<and> 0 \<le> x \<and> x \<le> 9007199254740991 then Some (nat \<lfloor>x\<rfloor>) else None)"

definition clamp_offset :: "rat \<Rightarrow> rat" where
  "clamp_offset x = min 1 (max 0 x)"

definition position_of :: "reader_document \<Rightarrow> jstring option \<Rightarrow> number_param \<Rightarrow> number_param \<Rightarrow> (error, reader_position) result" where
  "position_of doc chapterId off pic =
     (let ch = or_empty chapterId in
      if ch \<notin> c_id ` set (d_chapters doc) \<or> (off = Absent \<and> pic = Absent) \<or> off = NotNumber \<or> pic = NotNumber
      then Inl bad_position
      else case (pic, case pic of Num x \<Rightarrow> safe_index x | _ \<Rightarrow> None) of
          (Num x, None) \<Rightarrow> Inl bad_position
        | (_, index) \<Rightarrow> Inr \<lparr>rp_chapterId = ch, rp_offset = (case off of Num x \<Rightarrow> Some (clamp_offset x) | _ \<Rightarrow> None), rp_imageIndex = index\<rparr>)"

definition save_position :: "jstring \<Rightarrow> jstring \<Rightarrow> jstring option \<Rightarrow> number_param \<Rightarrow> number_param \<Rightarrow> change" where
  "save_position dataDir i chapterId off pic dk =
     (case documentFor dataDir dk (Some i) of
        Inl e \<Rightarrow> (dk, Inl e)
      | Inr doc \<Rightarrow>
          (case position_of doc chapterId off pic of
             Inl e \<Rightarrow> (dk, Inl e)
           | Inr pos \<Rightarrow>
               (case documentPath dataDir (d_id doc) of
                  Inl e \<Rightarrow> (dk, Inl e)
                | Inr path \<Rightarrow> (save_document path (doc\<lparr>d_position := Some pos\<rparr>) dk, Inr (AnswerPosition pos)))))"

definition position_request :: "reader_env \<Rightarrow> jstring option \<Rightarrow> jstring option \<Rightarrow> number_param \<Rightarrow> number_param \<Rightarrow> reader_phase" where
  "position_request env documentId chapterId off pic =
     (case safeId documentId of
        Inl e \<Rightarrow> Answered (Inl e)
      | Inr i \<Rightarrow> Changes i (save_position (re_dataDir env) i chapterId off pic))"

text \<open>The page of a chapter that is not on the disk: of a local book, or of its source with its pictures.\<close>

definition save_page :: "jstring \<Rightarrow> reader_page \<Rightarrow> disk \<Rightarrow> disk" where
  "save_page path page dk = dk\<lparr>dk_pages := jm_set path page (dk_pages dk)\<rparr>"

definition load_page ::
  "reader_env \<Rightarrow> reader_document \<Rightarrow> book_chapter \<Rightarrow> image_event list \<Rightarrow> disk \<Rightarrow> disk \<times> reader_event list \<times> (error, reader_page) result option" where
  "load_page env doc ch evs dk =
     (case d_local doc of
        Some lp \<Rightarrow> (dk, [], Some (readLocalChapter (re_runtime env) (re_tools env) (dk_files dk) doc lp (c_id ch)))
      | None \<Rightarrow>
          (case re_load env (d_sourceId doc) ch of
             Inl e \<Rightarrow> (dk, [], Some (Inl e))
           | Inr loaded \<Rightarrow>
               (let page = loaded\<lparr>p_id := c_id ch, p_documentId := d_id doc\<rparr>;
                    shown = (if p_kind page = TextPage then [PageEvent page] else []);
                    jobs = page_jobs (re_tools env) page;
                    run = run_images (re_runtime env) (re_dataDir env) evs jobs dk;
                    progress = map (\<lambda>k. ImageProgress k (length jobs)) (im_progress run)
                in case cachePageImages (re_runtime env) (re_tools env) (re_dataDir env) page evs dk of
                     None \<Rightarrow> (im_disk run, shown @ progress, None)
                   | Some (dk', res) \<Rightarrow> (dk', shown @ progress, Some res))))"

definition chapter_request ::
  "reader_env \<Rightarrow> jstring option \<Rightarrow> jstring option \<Rightarrow> image_event list \<Rightarrow> disk \<Rightarrow> disk \<times> reader_event list \<times> reader_phase" where
  "chapter_request env documentId chapterId evs dk =
     (case documentFor (re_dataDir env) dk documentId of
        Inl e \<Rightarrow> (dk, [], Answered (Inl e))
      | Inr doc \<Rightarrow>
          (case find (\<lambda>ch. Some (c_id ch) = chapterId) (d_chapters doc) of
             None \<Rightarrow> (dk, [], Answered (Inl no_chapter))
           | Some ch \<Rightarrow>
               (case pagePath (re_dataDir env) (d_id doc) (c_id ch) of
                  Inl e \<Rightarrow> (dk, [], Answered (Inl e))
                | Inr path \<Rightarrow>
                    (case jm_get (dk_pages dk) path of
                       Some page \<Rightarrow> (dk, [], Answered (Inr (AnswerPage (page\<lparr>p_cached := True\<rparr>))))
                     | None \<Rightarrow>
                         (case load_page env doc ch evs dk of
                            (dk', shown, None) \<Rightarrow> (dk', shown, Loading)
                          | (dk', shown, Some (Inl e)) \<Rightarrow> (dk', shown, Answered (Inl e))
                          | (dk', shown, Some (Inr page)) \<Rightarrow> (save_page path page dk', shown, Answered (Inr (AnswerPage page))))))))"

definition handleReaderRequest ::
  "reader_env \<Rightarrow> bool \<Rightarrow> image_event list \<Rightarrow> reader_request \<Rightarrow> disk \<Rightarrow> disk \<times> reader_event list \<times> reader_phase" where
  "handleReaderRequest env aborted evs request dk =
     (case request of
        OpenLocal None \<Rightarrow> (dk, [], Answered (Inl choose_file))
      | OpenLocal (Some path) \<Rightarrow> (case open_local_request env path dk of (dk', ph) \<Rightarrow> (dk', [], ph))
      | OpenVariant v workId \<Rightarrow> (dk, [], open_request env aborted v workId dk)
      | SetPosition documentId chapterId off pic \<Rightarrow> (dk, [], position_request env documentId chapterId off pic)
      | ReadChapter documentId chapterId \<Rightarrow> chapter_request env documentId chapterId evs dk
      | UnknownRequest \<Rightarrow> (dk, [], Answered (Inl unknown_command)))"

section \<open>Facts on requests\<close>

definition document_file :: "jstring \<Rightarrow> jstring \<Rightarrow> jstring" where
  "document_file dataDir i = join_path [dataDir, js ''reader'', js ''documents'', i @ js ''.json'']"

definition valid_id :: "jstring \<Rightarrow> bool" where
  "valid_id i \<longleftrightarrow> length i = 64 \<and> list_all is_hex_lower i"

lemma safeId_iff: "safeId v = Inr i \<longleftrightarrow> v = Some i \<and> valid_id i"
  by (auto simp: safeId_def valid_id_def split: option.split)

lemma documentPath_iff: "documentPath dataDir i = Inr path \<longleftrightarrow> valid_id i \<and> path = document_file dataDir i"
  by (auto simp: documentPath_def document_file_def bind_r_Inr safeId_iff simp del: js_simps)

lemma documentFor_iff:
  "documentFor dataDir dk v = Inr doc \<longleftrightarrow>
     (\<exists>i. v = Some i \<and> valid_id i \<and> jm_get (dk_documents dk) (document_file dataDir i) = Some doc)"
  by (auto simp: documentFor_def bind_r_Inr safeId_iff documentPath_iff split: option.splits)

text \<open>The file of a document under an absolute data directory, and what it tells of its identifier.\<close>

lemma join_path_names:
  assumes d: "is_absolute d" and ns: "list_all is_name ns" "ns \<noteq> []"
  shows "join_path (d # ns) = 47 # join [47] (rev (path_stack False d) @ ns)"
proof -
  have "filter (\<lambda>p. p \<noteq> []) (d # ns) = d # ns"
    using d ns(1) by (auto simp: is_absolute_def is_name_def list_all_iff intro!: filter_True)
  then have q: "join_path (d # ns) = normalize_path (d @ 47 # join [47] ns)"
    unfolding join_path_def Let_def using ns(2) by (simp add: join_cons)
  have split: "split_char 47 (join [47] ns) = ns"
    using ns by (intro split_join) (auto simp: is_name_def list_all_iff)
  have stack: "rev (path_stack False (d @ 47 # join [47] ns)) = rev (path_stack False d) @ ns"
    using fold_names[OF ns(1)] by (simp add: path_stack_at split)
  have "last ns \<noteq> [] \<and> 47 \<notin> set (last ns)" using ns by (simp add: list_all_iff is_name_def)
  moreover have "last (d @ 47 # join [47] ns) = last (join [47] ns)" if "join [47] ns \<noteq> []" using that by simp
  moreover have "join [47] ns \<noteq> [] \<and> last (join [47] ns) = last (last ns)" if "last ns \<noteq> []" "ns \<noteq> []"
    using that by (induction ns) (auto simp: join_cons)
  ultimately have "last (d @ 47 # join [47] ns) \<noteq> 47" using ns(2) by (metis last_in_set)
  moreover have "is_absolute (d @ 47 # join [47] ns)" using d by (cases d) (simp_all add: is_absolute_def)
  ultimately show ?thesis unfolding q using stack by (auto simp: normalize_path_def Let_def)
qed

lemma valid_id_name: "valid_id i \<Longrightarrow> is_name (i @ js ''.json'')"
proof -
  assume v: "valid_id i"
  then obtain c r where c: "i = c # r" by (cases i) (auto simp: valid_id_def)
  moreover have "47 \<notin> set i" using v by (auto simp: valid_id_def list_all_iff is_hex_lower_def is_digit_def in_range_def)
  moreover have "is_hex_lower c" using v c by (simp add: valid_id_def)
  ultimately show ?thesis by (auto simp: is_name_def dots_def is_hex_lower_def is_digit_def in_range_def)
qed

lemma document_file_inj:
  assumes "is_absolute dataDir" "valid_id i" "valid_id j" "document_file dataDir i = document_file dataDir j"
  shows "i = j"
proof -
  let ?b = "rev (path_stack False dataDir) @ [js ''reader'', js ''documents'']"
  have names: "list_all is_name (?b @ [k @ js ''.json''])" if "valid_id k" for k
    using path_stack_names[of dataDir] valid_id_name[OF that] by (auto simp: list_all_iff is_name_def dots_def)
  have stored: "document_file dataDir k = 47 # join [47] (?b @ [k @ js ''.json''])" if "valid_id k" for k
    using join_path_names[OF assms(1), of "[js ''reader'', js ''documents'', k @ js ''.json'']"] valid_id_name[OF that]
    by (simp add: document_file_def is_name_def dots_def)
  have split: "split_char 47 (join [47] (?b @ [k @ js ''.json''])) = ?b @ [k @ js ''.json'']" if "valid_id k" for k
    using names[OF that] by (intro split_join) (auto simp: is_name_def list_all_iff)
  show ?thesis using assms(4) split[OF assms(2)] split[OF assms(3)] unfolding stored[OF assms(2)] stored[OF assms(3)]
    by (metis append_same_eq last_snoc list.inject)
qed

text \<open>Every document is stored in the file of its own identifier.\<close>

definition documents_keyed :: "jstring \<Rightarrow> disk \<Rightarrow> bool" where
  "documents_keyed dataDir dk \<longleftrightarrow> (\<forall>i d. valid_id i \<longrightarrow> jm_get (dk_documents dk) (document_file dataDir i) = Some d \<longrightarrow> d_id d = i)"

lemma keyed_save:
  assumes "is_absolute dataDir" "documents_keyed dataDir dk" "valid_id (d_id doc)"
  shows "documents_keyed dataDir (save_document (document_file dataDir (d_id doc)) doc dk)"
  unfolding documents_keyed_def
proof (intro allI impI)
  fix j d
  assume j: "valid_id j" and g: "jm_get (dk_documents (save_document (document_file dataDir (d_id doc)) doc dk)) (document_file dataDir j) = Some d"
  show "d_id d = j"
  proof (cases "j = d_id doc")
    case True
    then show ?thesis using g by (simp add: save_document_def)
  next
    case False
    then have "document_file dataDir j \<noteq> document_file dataDir (d_id doc)"
      using document_file_inj[OF assms(1) j assms(3)] by blast
    then have "jm_get (dk_documents dk) (document_file dataDir j) = Some d" using g by (simp add: save_document_def)
    then show ?thesis using assms(2) j unfolding documents_keyed_def by blast
  qed
qed

lemma keyed_documents: "dk_documents dk' = dk_documents dk \<Longrightarrow> documents_keyed dataDir dk' = documents_keyed dataDir dk"
  by (simp add: documents_keyed_def)

lemma save_opened_keyed:
  "is_absolute dataDir \<Longrightarrow> documents_keyed dataDir dk \<Longrightarrow> documents_keyed dataDir (fst (save_opened dataDir doc dk))"
proof (cases "documentPath dataDir (d_id doc)")
  case (Inr path)
  assume "is_absolute dataDir" "documents_keyed dataDir dk"
  moreover have "valid_id (d_id doc)" "path = document_file dataDir (d_id doc)" using Inr by (simp_all add: documentPath_iff)
  ultimately show ?thesis
    using Inr keyed_save[of dataDir dk "doc\<lparr>d_position := Option.bind (jm_get (dk_documents dk) path) d_position\<rparr>"]
    by (simp add: save_opened_def Let_def)
qed (simp add: save_opened_def)

lemma save_position_keyed:
  "is_absolute dataDir \<Longrightarrow> documents_keyed dataDir dk \<Longrightarrow> documents_keyed dataDir (fst (save_position dataDir i c off pic dk))"
  by (auto simp: save_position_def documentPath_iff split: sum.split intro!: keyed_save[where doc = "_\<lparr>d_position := _\<rparr>", simplified])

lemma save_prior_keyed:
  assumes "is_absolute dataDir" "documents_keyed dataDir dk" "valid_id i" "d_id prior = i"
  shows "documents_keyed dataDir (fst (save_prior (document_file dataDir i) prior w dk))"
proof -
  define latest where "latest = (case jm_get (dk_documents dk) (document_file dataDir i) of None \<Rightarrow> prior | Some d \<Rightarrow> d)"
  have "d_id latest = i" using assms by (auto simp: latest_def documents_keyed_def split: option.split)
  then show ?thesis using keyed_save[OF assms(1,2), of "latest\<lparr>d_workId := opt_or w (d_workId latest)\<rparr>"] assms(3)
    by (simp add: save_prior_def latest_def[symmetric] Let_def)
qed

lemma load_page_documents: "load_page env doc ch evs dk = (dk', shown, res) \<Longrightarrow> dk_documents dk' = dk_documents dk"
proof -
  have c: "dk_documents (fst (cacheImage rt d u resp k)) = dk_documents k" for rt d u resp k
    by (auto simp: cacheImage_def store_image_def Let_def split: option.split sum.split)
  have step: "dk_documents (im_disk (image_step rt d ev r)) = dk_documents (im_disk r)" for rt d ev r
    using c[of rt d _ _ "im_disk r"]
    by (auto simp: image_step_def end_image_def Let_def split: image_event.split sum.split prod.split) (metis fst_conv)+
  have "dk_documents (im_disk (fold (image_step rt d) evs r)) = dk_documents (im_disk r)" for rt d r
    by (induction evs arbitrary: r) (simp_all add: step)
  then have run: "dk_documents (im_disk (run_images rt d evs jobs dk)) = dk_documents dk" for rt d jobs
    by (simp add: run_images_def start_images_def)
  show "load_page env doc ch evs dk = (dk', shown, res) \<Longrightarrow> dk_documents dk' = dk_documents dk"
    by (auto simp: load_page_def cachePageImages_def Let_def run split: option.splits sum.splits if_splits)
qed

lemma open_variant_change:
  assumes "open_variant_request env aborted v inspect workId dk = Changes i f"
  shows "(\<exists>doc. f = save_opened (re_dataDir env) doc \<and> d_id doc = i) \<or> (\<exists>path prior w. f = save_prior path prior w
    \<and> documentPath (re_dataDir env) i = Inr path \<and> jm_get (dk_documents dk) path = Some prior)"
proof (cases "documentPath (re_dataDir env) (rt_sha256 (re_runtime env) (v_id v))")
  case (Inr path)
  show ?thesis
  proof (cases "inspect v")
    case (Inl e)
    then have "i = rt_sha256 (re_runtime env) (v_id v) \<and> (\<exists>prior. jm_get (dk_documents dk) path = Some prior \<and> f = save_prior path prior workId)"
      using assms Inr by (auto simp: open_variant_request_def Let_def split: option.splits if_splits)
    then show ?thesis using Inr by blast
  next
    case (Inr details)
    then show ?thesis using assms \<open>documentPath _ _ = Inr path\<close>
      by (auto simp: open_variant_request_def Let_def opened_document_def split: if_splits)
  qed
qed (use assms in \<open>simp add: open_variant_request_def Let_def\<close>)

lemma open_request_change:
  "open_request env aborted v workId dk = Changes i f \<Longrightarrow>
    (\<exists>doc. f = save_opened (re_dataDir env) doc \<and> d_id doc = i) \<or> (\<exists>path prior w. f = save_prior path prior w
    \<and> documentPath (re_dataDir env) i = Inr path \<and> jm_get (dk_documents dk) path = Some prior)"
proof -
  assume "open_request env aborted v workId dk = Changes i f"
  then obtain v' inspect where "open_variant_request env aborted v' inspect workId dk = Changes i f"
    by (auto simp: open_request_def split: option.splits sum.splits)
  then show ?thesis by (rule open_variant_change)
qed

text \<open>The changes that requests ask for.\<close>

lemma request_change:
  assumes "handleReaderRequest env aborted evs request dk0 = (dk1, shown, Changes i f)"
  obtains (opened) doc where "f = save_opened (re_dataDir env) doc" "d_id doc = i"
    | (prior) path prior w where "f = save_prior path prior w" "documentPath (re_dataDir env) i = Inr path"
        "jm_get (dk_documents dk0) path = Some prior"
    | (pos) c off pic where "f = save_position (re_dataDir env) i c off pic"
proof (cases request)
  case (OpenVariant v w)
  then have "open_request env aborted v w dk0 = Changes i f" using assms by (auto simp: handleReaderRequest_def)
  then show ?thesis using that open_request_change by blast
qed (use assms that in \<open>auto simp: handleReaderRequest_def open_local_request_def chapter_request_def
      position_request_def split: option.splits sum.splits prod.splits\<close>)

text \<open>
  C31: the documents of the reader keep their keys. From a disk on which every document is in the
  file of its own identifier, a request and the change it asks for, run on any later such disk,
  lead to such a disk again.
\<close>

theorem documents_stay_keyed:
  assumes "is_absolute (re_dataDir env)" and "documents_keyed (re_dataDir env) dk0"
    and "handleReaderRequest env aborted evs request dk0 = (dk1, shown, phase)"
  shows "documents_keyed (re_dataDir env) dk1 \<and>
    (\<forall>i f dk. phase = Changes i f \<and> documents_keyed (re_dataDir env) dk
       \<longrightarrow> documents_keyed (re_dataDir env) (fst (run_change stopped f dk)))"
proof -
  have "dk_documents dk1 = dk_documents dk0"
    using assms(3) by (auto simp: handleReaderRequest_def open_local_request_def chapter_request_def save_page_def
        split: reader_request.splits option.splits sum.splits prod.splits dest: load_page_documents)
  moreover have "documents_keyed (re_dataDir env) (fst (f dk))" if ph: "phase = Changes i f" and dk: "documents_keyed (re_dataDir env) dk" for i f dk
  proof -
    show ?thesis
    proof (rule request_change[OF assms(3)[unfolded ph]], goal_cases opened prior pos)
      case opened
      then show ?thesis using save_opened_keyed[OF assms(1) dk] by simp
    next
      case (prior path prior w)
      have i: "valid_id i" "path = document_file (re_dataDir env) i" using prior(2) by (simp_all add: documentPath_iff)
      then have "d_id prior = i" using assms(2) prior(3) unfolding documents_keyed_def by blast
      then show ?thesis using save_prior_keyed[OF assms(1) dk i(1), of prior w] prior(1) i(2) by simp
    next
      case pos
      then show ?thesis using save_position_keyed[OF assms(1) dk] by simp
    qed
  qed
  moreover have "documents_keyed (re_dataDir env) dk1"
    using assms(2) keyed_documents[OF \<open>dk_documents dk1 = dk_documents dk0\<close>] by simp
  ultimately show ?thesis by (simp add: run_change_def)
qed

lemma position_of_parts:
  assumes "position_of doc chapterId off pic = Inr pos"
  shows "rp_chapterId pos \<in> c_id ` set (d_chapters doc)"
    and "rp_offset pos = (case off of Num x \<Rightarrow> Some (clamp_offset x) | _ \<Rightarrow> None)"
proof -
  have "rp_chapterId pos = or_empty chapterId \<and> or_empty chapterId \<in> c_id ` set (d_chapters doc)
      \<and> rp_offset pos = (case off of Num x \<Rightarrow> Some (clamp_offset x) | _ \<Rightarrow> None)"
  proof (cases pic)
    case (Num x)
    then show ?thesis using assms by (cases "safe_index x") (auto simp: position_of_def Let_def split: if_splits)
  qed (use assms in \<open>auto simp: position_of_def Let_def split: if_splits\<close>)
  then show "rp_chapterId pos \<in> c_id ` set (d_chapters doc)"
    "rp_offset pos = (case off of Num x \<Rightarrow> Some (clamp_offset x) | _ \<Rightarrow> None)" by simp_all
qed

text \<open>
  A reading position that is saved belongs to a chapter of the document, lies between the
  beginning and the end, and is the only thing that changes; a refused one changes nothing.
\<close>

theorem position_saved:
  assumes "handleReaderRequest env aborted evs (SetPosition documentId chapterId off pic) dk0 = (dk1, shown, Changes i f)"
    and "run_change stopped f dk = (dk', res)"
    and "documents_keyed (re_dataDir env) dk"
  shows "dk1 = dk0 \<and> documentId = Some i \<and>
    (case res of
       Inr (AnswerPosition pos) \<Rightarrow> (\<exists>doc. jm_get (dk_documents dk) (document_file (re_dataDir env) i) = Some doc
         \<and> rp_chapterId pos \<in> c_id ` set (d_chapters doc)
         \<and> (\<forall>x. rp_offset pos = Some x \<longrightarrow> 0 \<le> x \<and> x \<le> 1)
         \<and> (\<forall>x. off = Num x \<and> 0 \<le> x \<and> x \<le> 1 \<longrightarrow> rp_offset pos = Some x)
         \<and> dk' = save_document (document_file (re_dataDir env) i) (doc\<lparr>d_position := Some pos\<rparr>) dk)
     | Inr _ \<Rightarrow> False
     | Inl e \<Rightarrow> dk' = dk)"
proof -
  have start: "dk1 = dk0" "safeId documentId = Inr i" "f = save_position (re_dataDir env) i chapterId off pic"
    using assms(1) by (auto simp: handleReaderRequest_def position_request_def split: sum.splits)
  show ?thesis
  proof (cases "run_change stopped f dk = (dk, Inl Aborted)")
    case True
    then have "dk' = dk" "res = Inl Aborted" using assms(2) by simp_all
    then show ?thesis using start by (simp add: safeId_iff)
  next
    case False
    then have run: "save_position (re_dataDir env) i chapterId off pic dk = (dk', res)"
      using assms(2) start(3) by (auto simp: run_change_def split: if_splits)
    show ?thesis
    proof (cases "documentFor (re_dataDir env) dk (Some i)")
      case (Inl e)
      then have "dk' = dk" "res = Inl e" using run by (auto simp: save_position_def)
      then show ?thesis using start by (simp add: safeId_iff)
    next
      case (Inr doc)
      then have doc: "jm_get (dk_documents dk) (document_file (re_dataDir env) i) = Some doc" and ok: "valid_id i"
        by (simp_all add: documentFor_iff)
      then have path: "documentPath (re_dataDir env) (d_id doc) = Inr (document_file (re_dataDir env) i)"
        using assms(3) ok by (simp add: documentPath_iff documents_keyed_def)
      show ?thesis
      proof (cases "position_of doc chapterId off pic")
        case (Inl e)
        then have "dk' = dk" "res = Inl e" using run Inr by (auto simp: save_position_def)
        then show ?thesis using start by (simp add: safeId_iff)
      next
        case (Inr pos)
        then have saved: "dk' = save_document (document_file (re_dataDir env) i) (doc\<lparr>d_position := Some pos\<rparr>) dk"
            "res = Inr (AnswerPosition pos)"
          using run \<open>documentFor (re_dataDir env) dk (Some i) = Inr doc\<close> path by (auto simp: save_position_def)
        have bounds: "\<forall>x. rp_offset pos = Some x \<longrightarrow> 0 \<le> x \<and> x \<le> 1"
            "\<forall>x. off = Num x \<and> 0 \<le> x \<and> x \<le> 1 \<longrightarrow> rp_offset pos = Some x"
          using position_of_parts(2)[OF Inr] by (auto simp: clamp_offset_def split: number_param.splits)
        have "\<exists>doc. jm_get (dk_documents dk) (document_file (re_dataDir env) i) = Some doc
            \<and> rp_chapterId pos \<in> c_id ` set (d_chapters doc)
            \<and> (\<forall>x. rp_offset pos = Some x \<longrightarrow> 0 \<le> x \<and> x \<le> 1)
            \<and> (\<forall>x. off = Num x \<and> 0 \<le> x \<and> x \<le> 1 \<longrightarrow> rp_offset pos = Some x)
            \<and> dk' = save_document (document_file (re_dataDir env) i) (doc\<lparr>d_position := Some pos\<rparr>) dk"
          by (rule exI[of _ doc]) (intro conjI doc position_of_parts(1)[OF Inr] bounds saved(1))
        moreover have "documentId = Some i" using start(2) by (simp add: safeId_iff)
        ultimately show ?thesis using start(1) unfolding saved(2) sum.case reader_answer.case by blast
      qed
    qed
  qed
qed


text \<open>
  C28: opening a book keeps the place of its reader. When the change of an opened document runs, the
  document is saved under its identifier with the position that is on the disk at that time,
  also when the source fails and the earlier document is taken.
\<close>

theorem open_keeps_position:
  assumes "handleReaderRequest env aborted evs request dk0 = (dk1, shown, Changes i f)"
    and "documents_keyed (re_dataDir env) dk0" and "documents_keyed (re_dataDir env) dk"
    and "f dk = (dk', Inr (AnswerDocument doc))"
  shows "d_id doc = i \<and> dk' = save_document (document_file (re_dataDir env) i) doc dk
    \<and> (\<forall>old. jm_get (dk_documents dk) (document_file (re_dataDir env) i) = Some old \<longrightarrow> d_position doc = d_position old)"
proof (rule request_change[OF assms(1)], goal_cases opened prior pos)
  case (opened new)
  show ?case
  proof (cases "documentPath (re_dataDir env) (d_id new)")
    case (Inr path)
    moreover have "path = document_file (re_dataDir env) i" using Inr opened(2) by (simp add: documentPath_iff)
    ultimately show ?thesis using assms(4) opened by (auto simp: save_opened_def Let_def)
  qed (use assms(4) opened(1) in \<open>simp add: save_opened_def\<close>)
next
  case (prior path prior w)
  have i: "valid_id i" "path = document_file (re_dataDir env) i" using prior(2) by (simp_all add: documentPath_iff)
  define latest where "latest = (case jm_get (dk_documents dk) path of None \<Rightarrow> prior | Some d \<Rightarrow> d)"
  have doc: "doc = latest\<lparr>d_workId := opt_or w (d_workId latest)\<rparr>" "dk' = save_document path doc dk"
    using assms(4) prior(1) by (auto simp: save_prior_def latest_def[symmetric] Let_def)
  have "d_id latest = i"
    using assms(2,3) prior(3) i unfolding documents_keyed_def latest_def by (auto split: option.split)
  then show ?case using doc i(2) by (auto simp: latest_def)
next
  case (pos c off pic)
  then show ?case using assms(4) by (auto simp: save_position_def split: sum.splits)
qed

text \<open>
  A chapter that has been read is read again from the disk. After any answer with a page, the
  same request, whatever the source and the network do, gives that page marked as cached,
  loads nothing and changes nothing.
\<close>

theorem chapter_read_again:
  assumes "handleReaderRequest env aborted evs (ReadChapter documentId chapterId) dk = (dk', shown, Answered (Inr (AnswerPage page)))"
    and "re_dataDir env' = re_dataDir env"
  shows "handleReaderRequest env' aborted' evs' (ReadChapter documentId chapterId) dk'
    = (dk', [], Answered (Inr (AnswerPage (page\<lparr>p_cached := True\<rparr>))))"
proof -
  have run: "chapter_request env documentId chapterId evs dk = (dk', shown, Answered (Inr (AnswerPage page)))"
    using assms(1) by (simp add: handleReaderRequest_def)
  obtain doc where doc: "documentFor (re_dataDir env) dk documentId = Inr doc"
    using run by (cases "documentFor (re_dataDir env) dk documentId") (auto simp: chapter_request_def)
  obtain ch where ch: "find (\<lambda>ch. Some (c_id ch) = chapterId) (d_chapters doc) = Some ch"
    using run doc by (cases "find (\<lambda>ch. Some (c_id ch) = chapterId) (d_chapters doc)") (auto simp: chapter_request_def)
  obtain path where path: "pagePath (re_dataDir env) (d_id doc) (c_id ch) = Inr path"
    using run doc ch by (cases "pagePath (re_dataDir env) (d_id doc) (c_id ch)") (auto simp: chapter_request_def)
  have "dk_documents dk' = dk_documents dk \<and> (\<exists>stored. jm_get (dk_pages dk') path = Some stored \<and> stored\<lparr>p_cached := True\<rparr> = page\<lparr>p_cached := True\<rparr>)"
  proof (cases "jm_get (dk_pages dk) path")
    case (Some stored)
    then show ?thesis using run doc ch path by (auto simp: chapter_request_def)
  next
    case None
    obtain dk1 sh res where l: "load_page env doc ch evs dk = (dk1, sh, res)" by (metis prod.collapse)
    then have "res = Some (Inr page) \<and> dk' = save_page path page dk1"
      using run doc ch path None by (auto simp: chapter_request_def split: option.splits sum.splits)
    then show ?thesis using load_page_documents[OF l] by (simp add: save_page_def)
  qed
  then obtain stored where same: "dk_documents dk' = dk_documents dk" and stored: "jm_get (dk_pages dk') path = Some stored"
      "stored\<lparr>p_cached := True\<rparr> = page\<lparr>p_cached := True\<rparr>" by blast
  have "documentFor (re_dataDir env) dk' documentId = Inr doc" using doc same by (simp add: documentFor_def)
  then show ?thesis using ch path stored assms(2) by (simp add: handleReaderRequest_def chapter_request_def)
qed


section \<open>A document of a sample source\<close>

definition sample_id :: jstring where
  "sample_id = replicate 64 97"

definition sample_doc :: reader_document where
  "sample_doc = \<lparr>d_id = sample_id, d_title = js ''T'', d_sourceId = js ''s'', d_workId = None,
     d_chapters = [\<lparr>c_id = sample_id, c_title = js ''C'', c_url = js ''https://s.org/1'', c_number = None, c_volume = None\<rparr>],
     d_position = None, d_local = None\<rparr>"

definition sample_disk :: disk where
  "sample_disk = save_document (document_file (js ''/d'') sample_id) sample_doc empty_disk"

definition sample_env :: reader_env where
  "sample_env = \<lparr>re_runtime = sample_runtime\<lparr>rt_sha256 := (\<lambda>_. sample_id)\<rparr>, re_tools = sample_tools, re_dataDir = js ''/d'',
     re_providers = [\<lparr>pv_id = js ''s'', pv_url = js ''https://s.org/'', pv_inspect = Some (\<lambda>_. Inl TimedOut)\<rparr>],
     re_load = (\<lambda>_ ch. Inr ((text_page sample_doc ch)\<lparr>p_html := Some []\<rparr>))\<rparr>"

lemma sample_valid: "valid_id sample_id" "is_absolute (re_dataDir sample_env)" "re_dataDir sample_env = js ''/d''"
  by code_simp+

lemma sample_keyed: "documents_keyed (re_dataDir sample_env) sample_disk"
proof -
  have "documents_keyed (js ''/d'') empty_disk" by (simp add: documents_keyed_def empty_disk_def)
  moreover have "is_absolute (js ''/d'')" "d_id sample_doc = sample_id" by code_simp+
  ultimately show ?thesis using keyed_save[of "js ''/d''" empty_disk sample_doc] sample_valid
    by (simp add: sample_disk_def del: js_simps)
qed

definition sample_change :: change where
  "sample_change = save_position (js ''/d'') sample_id (Some sample_id) (Num 2) Absent"

definition sample_position :: reader_position where
  "sample_position = \<lparr>rp_chapterId = sample_id, rp_offset = Some 1, rp_imageIndex = None\<rparr>"

lemma sample_position_request:
  "handleReaderRequest sample_env False [] (SetPosition (Some sample_id) (Some sample_id) (Num 2) Absent) sample_disk
     = (sample_disk, [], Changes sample_id sample_change)"
  using sample_valid by (simp add: handleReaderRequest_def position_request_def safeId_iff[THEN iffD2] sample_change_def)

lemma sample_position_run:
  "run_change False sample_change sample_disk
     = (save_document (document_file (js ''/d'') sample_id) (sample_doc\<lparr>d_position := Some sample_position\<rparr>) sample_disk,
        Inr (AnswerPosition sample_position))"
  by code_simp

theorem position_saved_witness:
  "Some sample_id = Some sample_id \<and> rp_offset sample_position = Some 1 \<and>
    (\<exists>doc. jm_get (dk_documents sample_disk) (document_file (js ''/d'') sample_id) = Some doc
      \<and> rp_chapterId sample_position \<in> c_id ` set (d_chapters doc)
      \<and> save_document (document_file (js ''/d'') sample_id) (sample_doc\<lparr>d_position := Some sample_position\<rparr>) sample_disk
        = save_document (document_file (js ''/d'') sample_id) (doc\<lparr>d_position := Some sample_position\<rparr>) sample_disk)"
proof -
  have "rp_offset sample_position = Some 1" by (simp add: sample_position_def)
  then show ?thesis using position_saved[OF sample_position_request sample_position_run sample_keyed]
    unfolding sum.case reader_answer.case sample_valid(3) by blast
qed

theorem documents_stay_keyed_witness:
  "documents_keyed (re_dataDir sample_env) sample_disk \<and>
    documents_keyed (re_dataDir sample_env) (fst (run_change False sample_change sample_disk))"
  using documents_stay_keyed[OF sample_valid(2) sample_keyed sample_position_request] sample_keyed by blast

definition sample_book_variant :: variant where
  "sample_book_variant = new_variant (js ''v'') (js ''s'') (js ''S'') (js ''T'') (js ''https://s.org/t'') Book"

lemma sample_open_request:
  "handleReaderRequest sample_env False [] (OpenVariant (Some sample_book_variant) (Some (js ''w''))) sample_disk
     = (sample_disk, [], Changes sample_id (save_prior (document_file (js ''/d'') sample_id) sample_doc (Some (js ''w''))))"
proof -
  let ?p = "\<lparr>pv_id = js ''s'', pv_url = js ''https://s.org/'', pv_inspect = Some (\<lambda>_. Inl TimedOut)\<rparr> :: reading_provider"
  have "find (\<lambda>p. pv_id p = v_sourceId sample_book_variant) (re_providers sample_env) = Some ?p"
    by (simp add: sample_env_def sample_book_variant_def new_variant_def)
  moreover have "own_address (re_runtime sample_env) sample_book_variant ?p = Inr ()" by code_simp
  moreover have "documentPath (js ''/d'') sample_id = Inr (document_file (js ''/d'') sample_id)"
    using sample_valid(1) by (simp add: documentPath_iff)
  moreover have "jm_get (dk_documents sample_disk) (document_file (js ''/d'') sample_id) = Some sample_doc"
    by (simp add: sample_disk_def save_document_def)
  moreover have "rt_sha256 (re_runtime sample_env) (v_id sample_book_variant) = sample_id" by (simp add: sample_env_def)
  ultimately show ?thesis using sample_valid(3)
    by (simp add: handleReaderRequest_def open_request_def open_variant_request_def Let_def del: js_simps)
qed

theorem open_keeps_position_witness:
  "d_id (sample_doc\<lparr>d_workId := Some (js ''w'')\<rparr>) = sample_id
    \<and> d_position (sample_doc\<lparr>d_workId := Some (js ''w'')\<rparr>) = d_position sample_doc"
proof -
  have "save_prior (document_file (js ''/d'') sample_id) sample_doc (Some (js ''w'')) sample_disk
      = (save_document (document_file (js ''/d'') sample_id) (sample_doc\<lparr>d_workId := Some (js ''w'')\<rparr>) sample_disk,
         Inr (AnswerDocument (sample_doc\<lparr>d_workId := Some (js ''w'')\<rparr>)))"
    by code_simp
  from open_keeps_position[OF sample_open_request sample_keyed sample_keyed this]
  show ?thesis by (simp add: sample_disk_def save_document_def sample_valid(3) del: js_simps)
qed

definition read_page :: reader_page where
  "read_page = (text_page sample_doc (hd (d_chapters sample_doc)))\<lparr>p_html := Some []\<rparr>"

definition read_disk :: disk where
  "read_disk = fst (handleReaderRequest sample_env False [] (ReadChapter (Some sample_id) (Some sample_id)) sample_disk)"

theorem chapter_read_again_witness:
  "handleReaderRequest (sample_env\<lparr>re_load := (\<lambda>_ _. Inl TimedOut)\<rparr>) True [] (ReadChapter (Some sample_id) (Some sample_id)) read_disk
    = (read_disk, [], Answered (Inr (AnswerPage (read_page\<lparr>p_cached := True\<rparr>))))"
proof (rule chapter_read_again)
  have "case snd (handleReaderRequest sample_env False [] (ReadChapter (Some sample_id) (Some sample_id)) sample_disk) of
      (shown, Answered (Inr (AnswerPage page))) \<Rightarrow> shown = [PageEvent read_page] \<and> page = read_page | _ \<Rightarrow> False"
    by code_simp
  then have "snd (handleReaderRequest sample_env False [] (ReadChapter (Some sample_id) (Some sample_id)) sample_disk)
      = ([PageEvent read_page], Answered (Inr (AnswerPage read_page)))"
    by (auto split: prod.splits reader_phase.splits sum.splits reader_answer.splits)
  then show "handleReaderRequest sample_env False [] (ReadChapter (Some sample_id) (Some sample_id)) sample_disk
      = (read_disk, [PageEvent read_page], Answered (Inr (AnswerPage read_page)))"
    unfolding read_disk_def by (metis prod.collapse)
qed (simp add: sample_env_def)

end
