(* ===== verification/Galleries.thy ===== *)
theory Galleries
  imports Json Archive
begin

text \<open>
  \<open>providers/reading-nhentai.ts\<close> and \<open>providers/reading-mangadex.ts\<close>: two sources that answer
  with JSON. The network is a map from addresses to answers, the status and the parsed body
  (\<open>None\<close> for a body that is not JSON). Fields that the code passes on unchecked are texts; a
  value of another type is read as absent.
\<close>

record source_env =
  so_runtime :: runtime
  so_fetch :: "jstring \<Rightarrow> (error, nat \<times> json option) result"
  so_encode :: "jstring \<Rightarrow> jstring"
  so_number :: "rat \<Rightarrow> jstring"
  so_date :: "rat \<Rightarrow> jstring option"
  so_parse_number :: "jstring \<Rightarrow> rat option"
  so_before :: "jstring \<Rightarrow> jstring \<Rightarrow> bool"

section \<open>Values that have not been checked\<close>

text \<open>\<open>v.k\<close>, \<open>v?.k\<close>, \<open>String(v)\<close> and the text of a value in \<open>join\<close>.\<close>

definition type_error :: error where
  "type_error = Failed (js ''TypeError'')"

definition member :: "json option \<Rightarrow> string \<Rightarrow> (error, json option) result" where
  "member v k = (case v of None \<Rightarrow> Inl type_error | Some JNull \<Rightarrow> Inl type_error | Some j \<Rightarrow> Inr (field j k))"

definition optional :: "json option \<Rightarrow> string \<Rightarrow> json option" where
  "optional v k = (case v of None \<Rightarrow> None | Some j \<Rightarrow> field j k)"

definition number_text :: "source_env \<Rightarrow> rat \<Rightarrow> jstring" where
  "number_text env x = (if x = of_int \<lfloor>x\<rfloor> \<and> 0 \<le> x \<and> x < 10 ^ 21 then to_dec (nat \<lfloor>x\<rfloor>) else so_number env x)"

fun json_string :: "source_env \<Rightarrow> json \<Rightarrow> jstring" where
  "json_string env JNull = js ''null''"
| "json_string env (JBool b) = (if b then js ''true'' else js ''false'')"
| "json_string env (JNum x) = number_text env x"
| "json_string env (JText t) = t"
| "json_string env (JArr xs) = join [44] (map (\<lambda>x. if x = JNull then [] else json_string env x) xs)"
| "json_string env (JObj m) = js ''[object Object]''"

definition string_of :: "source_env \<Rightarrow> json option \<Rightarrow> jstring" where
  "string_of env v = (case v of None \<Rightarrow> js ''undefined'' | Some j \<Rightarrow> json_string env j)"

definition first_truthy :: "json option \<Rightarrow> json option \<Rightarrow> json option" where
  "first_truthy a b = (if truthy_json a then a else b)"

text \<open>\<open>v ?? []\<close> where the code then calls a method of arrays.\<close>

definition array_or :: "json option \<Rightarrow> (error, json list) result" where
  "array_or v = (case v of None \<Rightarrow> Inr [] | Some JNull \<Rightarrow> Inr [] | Some (JArr xs) \<Rightarrow> Inr xs | Some j \<Rightarrow> Inl type_error)"

text \<open>\<open>v?.[0]\<close>\<close>

definition first_of :: "json option \<Rightarrow> json option" where
  "first_of v = (case v of Some (JArr (x # xs)) \<Rightarrow> Some x | _ \<Rightarrow> None)"

definition all_digits :: "jstring \<Rightarrow> bool" where
  "all_digits s \<longleftrightarrow> s \<noteq> [] \<and> list_all is_digit s"

section \<open>nhentai\<close>

definition nh_site :: jstring where
  "nh_site = js ''https://nhentai.net''"

definition nh_api :: jstring where
  "nh_api = js ''https://nhentai.net/api/v2''"

definition nh_status :: "nat \<Rightarrow> error" where
  "nh_status s = Failed (js ''nhentai returned HTTP '' @ to_dec s @ js ''.'')"

definition not_json :: error where
  "not_json = Failed (js ''SyntaxError'')"

definition nh_json :: "source_env \<Rightarrow> jstring \<Rightarrow> (error, json) result" where
  "nh_json env path = bind_r (so_fetch env (nh_api @ path)) (\<lambda>(status, body).
     if \<not> in_range 200 299 status then Inl (nh_status status)
     else case body of None \<Rightarrow> Inl not_json | Some j \<Rightarrow> Inr j)"

text \<open>\<open>/^i\d*\.nhentai\.net$/\<close> and \<open>/^t\d*\.nhentai\.net$/\<close>\<close>

definition media_host :: "nat \<Rightarrow> jstring \<Rightarrow> bool" where
  "media_host c h \<longleftrightarrow> h \<noteq> [] \<and> hd h = c
     \<and> (let rest = tl h in ends_with rest (js ''.nhentai.net'') \<and> list_all is_digit (take (length rest - 12) rest))"

definition mediaServer :: "source_env \<Rightarrow> nat \<Rightarrow> json option \<Rightarrow> (error, jstring) result" where
  "mediaServer env c v =
     (case json_text v of
        None \<Rightarrow> Inl (Failed (js ''nhentai did not return a media server.''))
      | Some t \<Rightarrow>
          (case rt_url (so_runtime env) t of
             None \<Rightarrow> Inl (Failed (js ''Invalid URL''))
           | Some u \<Rightarrow>
               if u_protocol u \<noteq> js ''https:'' \<or> \<not> media_host c (u_hostname u) \<or> u_port u \<noteq> [] \<or> u_username u \<noteq> []
                 \<or> u_password u \<noteq> [] \<or> u_pathname u \<noteq> js ''/'' \<or> u_search u \<noteq> [] \<or> u_hash u \<noteq> []
               then Inl (Failed (js ''nhentai returned an unsupported media server.''))
               else Inr (js ''https://'' @ u_hostname u)))"

text \<open>\<open>[\w.-]+\<close> without the segments \<open>.\<close> and \<open>..\<close>\<close>

definition is_file_char :: "nat \<Rightarrow> bool" where
  "is_file_char c \<longleftrightarrow> is_word c \<or> c = 46 \<or> c = 45"

definition is_file_name :: "jstring \<Rightarrow> bool" where
  "is_file_name s \<longleftrightarrow> s \<noteq> [] \<and> list_all is_file_char s \<and> s \<noteq> js ''.'' \<and> s \<noteq> js ''..''"

definition imageUrl :: "jstring \<Rightarrow> json option \<Rightarrow> jstring \<Rightarrow> (error, jstring) result" where
  "imageUrl server path mediaId =
     (let base = js ''galleries/'' @ mediaId @ [47] in
      case json_text path of
        None \<Rightarrow> Inl (Failed (js ''nhentai returned an invalid image path.''))
      | Some p \<Rightarrow> if starts_with p base \<and> is_file_name (drop (length base) p) then Inr (server @ [47] @ p)
          else Inl (Failed (js ''nhentai returned an invalid image path.'')))"

definition language_codes :: "(jstring, jstring) jmap" where
  "language_codes = map (\<lambda>(n, c). (js n, js c)) [(''english'', ''en''), (''japanese'', ''ja''), (''chinese'', ''zh''),
     (''russian'', ''ru''), (''korean'', ''ko''), (''spanish'', ''es''), (''portuguese'', ''pt''), (''french'', ''fr''),
     (''german'', ''de''), (''italian'', ''it''), (''vietnamese'', ''vi''), (''thai'', ''th''), (''indonesian'', ''id''),
     (''polish'', ''pl''), (''turkish'', ''tr''), (''ukrainian'', ''uk'')]"

definition gallery_url :: "jstring \<Rightarrow> jstring" where
  "gallery_url i = nh_site @ js ''/g/'' @ i @ [47]"

text \<open>The names of the tags of a kind; a tag that is null raises.\<close>

definition tags_of :: "json list \<Rightarrow> string \<Rightarrow> (error, json option list) result" where
  "tags_of tags kind = bind_r (map_r (\<lambda>t. bind_r (member (Some t) ''type'') (\<lambda>ty. Inr (ty, optional (Some t) ''name''))) tags)
     (\<lambda>ps. Inr (map snd (filter (\<lambda>(ty, _). ty = Some (JText (js kind))) ps)))"

definition join_text :: "source_env \<Rightarrow> json option \<Rightarrow> jstring" where
  "join_text env v = (case v of None \<Rightarrow> [] | Some JNull \<Rightarrow> [] | Some j \<Rightarrow> json_string env j)"

definition invalid_gallery :: error where
  "invalid_gallery = Failed (js ''nhentai returned an invalid gallery.'')"

definition gallery_title :: "json option \<Rightarrow> json option" where
  "gallery_title g = first_truthy (optional (optional g ''title'') ''pretty'') (optional g ''english_title'')"

definition gallery_aliases :: "json option \<Rightarrow> jstring \<Rightarrow> jstring list" where
  "gallery_aliases g title = filter (\<lambda>a. a \<noteq> [] \<and> a \<noteq> title) (List.map_filter json_text
     [optional (optional g ''title'') ''english'', optional (optional g ''title'') ''japanese'',
      optional g ''english_title'', optional g ''japanese_title''])"

definition gallery_cover :: "json option \<Rightarrow> jstring \<Rightarrow> jstring \<Rightarrow> (error, jstring option) result" where
  "gallery_cover g server mediaId =
     (let cover = first_truthy (optional (optional g ''cover'') ''path'') (optional g ''thumbnail'') in
      if truthy_json cover then bind_r (imageUrl server cover mediaId) (\<lambda>u. Inr (Some u)) else Inr None)"

definition gallery_date :: "source_env \<Rightarrow> json option \<Rightarrow> (error, jstring option) result" where
  "gallery_date env g =
     (let v = optional g ''upload_date'' in
      if \<not> truthy_json v then Inr None
      else case Option.bind (json_number v) (\<lambda>x. so_date env (x * 1000)) of
          None \<Rightarrow> Inl (Failed (js ''Invalid time value'')) | Some d \<Rightarrow> Inr (Some d))"

definition some_text :: "jstring \<Rightarrow> jstring option" where
  "some_text t = (if t = [] then None else Some t)"

definition nh_metadata :: "source_env \<Rightarrow> json option \<Rightarrow> jstring \<Rightarrow> (error, work) result" where
  "nh_metadata env g server =
     bind_r (member g ''id'') (\<lambda>gid.
       let i = string_of env gid; mediaId = string_of env (optional g ''media_id'') in
       if \<not> all_digits i \<or> \<not> all_digits mediaId then Inl invalid_gallery
       else case json_text (gallery_title g) of
           None \<Rightarrow> Inl (Failed (js ''nhentai did not return the gallery title.''))
         | Some title \<Rightarrow>
             if trim title = [] then Inl (Failed (js ''nhentai did not return the gallery title.''))
             else bind_r (array_or (optional g ''tags'')) (\<lambda>tags.
               bind_r (tags_of tags ''language'') (\<lambda>languages.
               bind_r (gallery_cover g server mediaId) (\<lambda>cover.
               bind_r (tags_of tags ''artist'') (\<lambda>artists.
               bind_r (gallery_date env g) (\<lambda>published.
                 let w = js ''nhentai:'' @ i in
                 Inr ((new_work w title Manga [(new_variant w (js ''nhentai'') (js ''nhentai'') title (gallery_url i) MangaPages)
                     \<lparr>v_languages := Some (uniq (List.map_filter (\<lambda>n. Option.bind (json_text n) (jm_get language_codes)) languages)),
                      v_needsInspection := Some (\<not> truthy_json (optional g ''tags'')),
                      v_author := some_text (join [44, 32] (map (join_text env) artists)),
                      v_translation := Option.bind (json_text (optional g ''scanlator'')) some_text,
                      v_publishedAt := published\<rparr>])
                   \<lparr>w_url := Some (gallery_url i), w_aliases := Some (uniq (gallery_aliases g title)),
                    w_identifiers := Some [(js ''nhentai'', i)], w_cover := cover\<rparr>)))))))"

text \<open>The gallery of a publication: its number, when the link is the one of that gallery.\<close>

definition foreign_gallery :: error where
  "foreign_gallery = Failed (js ''The nhentai gallery does not match its source link.'')"

definition nh_publication :: "source_env \<Rightarrow> variant \<Rightarrow> (error, jstring) result" where
  "nh_publication env v =
     (let p = js ''nhentai:''; i = drop (length p) (v_id v) in
      case rt_url (so_runtime env) (v_url v) of
        None \<Rightarrow> Inl (Failed (js ''Invalid URL''))
      | Some u \<Rightarrow>
          if \<not> starts_with (v_id v) p \<or> \<not> all_digits i \<or> url_origin u \<noteq> (js ''https:'', js ''nhentai.net'', []) \<or> u_username u \<noteq> []
            \<or> u_password u \<noteq> [] \<or> u_pathname u \<noteq> js ''/g/'' @ i @ [47] \<or> u_search u \<noteq> [] \<or> u_hash u \<noteq> []
          then Inl foreign_gallery else Inr i)"


text \<open>\<open>search\<close>: the works of the answer, each emitted in order before the list is returned.\<close>

definition nh_server :: "source_env \<Rightarrow> nat \<Rightarrow> string \<Rightarrow> json \<Rightarrow> (error, jstring) result" where
  "nh_server env c k cdn = bind_r (member (Some cdn) k) (\<lambda>servers. mediaServer env c (first_of servers))"

definition nh_search :: "source_env \<Rightarrow> jstring \<Rightarrow> (error, work list) result" where
  "nh_search env query =
     bind_r (nh_json env (js ''/search?query='' @ so_encode env query @ js ''&page=1'')) (\<lambda>answer.
     bind_r (nh_json env (js ''/cdn'')) (\<lambda>cdn.
     bind_r (member (Some answer) ''result'') (\<lambda>found.
       case json_array found of
         None \<Rightarrow> Inl (Failed (js ''nhentai did not return search results.''))
       | Some galleries \<Rightarrow>
           bind_r (nh_server env 116 ''thumb_servers'' cdn) (\<lambda>server.
           bind_r (map_r (\<lambda>g. bind_r (member (Some g) ''blacklisted'') (\<lambda>b. Inr (truthy_json b, g))) galleries) (\<lambda>marked.
             map_r (\<lambda>g. nh_metadata env (Some g) server) (map snd (filter (\<lambda>(b, _). \<not> b) marked)))))))"

definition nh_chapter :: "source_env \<Rightarrow> jstring \<Rightarrow> jstring \<Rightarrow> book_chapter" where
  "nh_chapter env i title = (let u = nh_api @ js ''/galleries/'' @ i in
     \<lparr>c_id = rt_sha256 (so_runtime env) u, c_title = title, c_url = u, c_number = Some 1, c_volume = None\<rparr>)"

definition nh_inspect :: "source_env \<Rightarrow> variant \<Rightarrow> (error, work) result" where
  "nh_inspect env v =
     bind_r (nh_publication env v) (\<lambda>i.
     bind_r (nh_json env (js ''/galleries/'' @ i)) (\<lambda>g.
     bind_r (nh_json env (js ''/cdn'')) (\<lambda>cdn.
     bind_r (member (Some g) ''id'') (\<lambda>gid.
       if string_of env gid \<noteq> i then Inl (Failed (js ''nhentai returned a different gallery.''))
       else bind_r (nh_server env 116 ''thumb_servers'' cdn) (\<lambda>server.
         bind_r (nh_metadata env (Some g) server) (\<lambda>w. Inr (w\<lparr>w_chapters := Some [nh_chapter env i (w_title w)]\<rparr>)))))))"

text \<open>The pages of a gallery by their numbers, which must be one to the count of the pages.\<close>

definition page_number :: "json \<Rightarrow> (error, rat option) result" where
  "page_number p = bind_r (member (Some p) ''number'') (\<lambda>n. Inr (json_number n))"

definition ordered_pages :: "json list \<Rightarrow> (error, json list) result" where
  "ordered_pages pages =
     bind_r (map_r page_number pages) (\<lambda>numbers.
       let sorted = sort_key fst (zip (map (\<lambda>n. case n of None \<Rightarrow> 0 | Some x \<Rightarrow> x) numbers) pages) in
       if None \<in> set numbers \<or> map fst sorted \<noteq> map (\<lambda>k. of_nat (Suc k)) [0..<length pages]
       then Inl (Failed (js ''nhentai returned an incomplete page sequence.''))
       else Inr (map snd sorted))"

definition nh_image :: "jstring \<Rightarrow> jstring \<Rightarrow> nat \<times> json \<Rightarrow> (error, reader_image) result" where
  "nh_image server mediaId = (\<lambda>(k, p). bind_r (imageUrl server (field p ''path'') mediaId) (\<lambda>u.
     Inr \<lparr>im_id = to_dec (Suc k), im_url = u, im_width = json_number (field p ''width''), im_height = json_number (field p ''height'')\<rparr>))"

definition gallery_page :: "jstring \<Rightarrow> reader_image list \<Rightarrow> reader_page" where
  "gallery_page title images = \<lparr>p_id = [], p_documentId = [], p_title = title, p_kind = ImagePage, p_html = None,
     p_images = Some images, p_direction = Some Rtl, p_cached = False\<rparr>"

definition no_gallery_pages :: error where
  "no_gallery_pages = Failed (js ''nhentai did not return gallery pages.'')"

definition chapter_gallery :: "url \<Rightarrow> jstring option" where
  "chapter_gallery u =
     (let p = js ''/api/v2/galleries/''; i = drop (length p) (u_pathname u) in
      if starts_with (u_pathname u) p \<and> all_digits i \<and> url_origin u = (js ''https:'', js ''nhentai.net'', [])
        \<and> u_username u = [] \<and> u_password u = [] \<and> u_search u = [] \<and> u_hash u = [] then Some i else None)"

definition loadNhentaiChapter :: "source_env \<Rightarrow> book_chapter \<Rightarrow> (error, reader_page) result" where
  "loadNhentaiChapter env ch =
     (case rt_url (so_runtime env) (c_url ch) of
        None \<Rightarrow> Inl (Failed (js ''Invalid URL''))
      | Some u \<Rightarrow>
          (case chapter_gallery u of
             None \<Rightarrow> Inl (Failed (js ''This gallery does not belong to nhentai.''))
           | Some i \<Rightarrow>
               bind_r (nh_json env (js ''/galleries/'' @ i)) (\<lambda>g.
               bind_r (nh_json env (js ''/cdn'')) (\<lambda>cdn.
               bind_r (member (Some g) ''media_id'') (\<lambda>mid.
                 let mediaId = string_of env mid in
                 case json_array (field g ''pages'') of
                   None \<Rightarrow> Inl no_gallery_pages
                 | Some pages \<Rightarrow>
                     if string_of env (field g ''id'') \<noteq> i \<or> \<not> all_digits mediaId \<or> pages = [] \<or> length pages > 2000
                     then Inl no_gallery_pages
                     else bind_r (nh_server env 105 ''image_servers'' cdn) (\<lambda>server.
                       bind_r (ordered_pages pages) (\<lambda>sorted.
                       bind_r (map_r (nh_image server mediaId) (enumerate 0 sorted)) (\<lambda>images.
                         Inr (gallery_page (c_title ch) images)))))))))"

section \<open>Facts on nhentai\<close>

lemma mediaServer_Inr:
  "mediaServer env c v = Inr s \<Longrightarrow> \<exists>h. s = js ''https://'' @ h \<and> media_host c h"
  by (auto simp: mediaServer_def simp del: js_simps split: option.splits if_splits)

lemma imageUrl_Inr:
  "imageUrl server path mediaId = Inr u \<Longrightarrow>
     \<exists>name. is_file_name name \<and> u = server @ [47] @ js ''galleries/'' @ mediaId @ [47] @ name"
proof -
  assume "imageUrl server path mediaId = Inr u"
  then obtain p where p: "starts_with p (js ''galleries/'' @ mediaId @ [47])" "is_file_name (drop (length (js ''galleries/'' @ mediaId @ [47])) p)"
      "u = server @ [47] @ p"
    by (auto simp: imageUrl_def Let_def simp del: js_simps split: option.splits if_splits)
  have "p = js ''galleries/'' @ mediaId @ [47] @ drop (length (js ''galleries/'' @ mediaId @ [47])) p"
    using starts_withE[OF p(1)] unfolding append_assoc .
  then have "u = server @ [47] @ js ''galleries/'' @ mediaId @ [47] @ drop (length (js ''galleries/'' @ mediaId @ [47])) p"
    using p(3) by (rule subst)
  with p(2) show ?thesis by blast
qed

lemma nh_image_Inr:
  "nh_image server mediaId (k, p) = Inr im \<Longrightarrow> im_id im = to_dec (Suc k) \<and>
     (\<exists>name. is_file_name name \<and> im_url im = server @ [47] @ js ''galleries/'' @ mediaId @ [47] @ name)"
  by (auto simp: nh_image_def bind_r_Inr simp del: js_simps dest: imageUrl_Inr)

text \<open>
  The pages of a gallery that is read are numbered from one without gaps, at most 2000, and each
  picture is a plain file of the gallery's directory on an image host of the site, whatever the
  site answers.
\<close>

theorem nhentai_pages:
  assumes "loadNhentaiChapter env ch = Inr page"
  shows "\<exists>images host mediaId. p_images page = Some images \<and> images \<noteq> [] \<and> length images \<le> 2000
    \<and> map im_id images = map (\<lambda>k. to_dec (Suc k)) [0..<length images]
    \<and> media_host 105 host \<and> all_digits mediaId
    \<and> list_all (\<lambda>im. \<exists>name. is_file_name name \<and>
        im_url im = js ''https://'' @ host @ [47] @ js ''galleries/'' @ mediaId @ [47] @ name) images"
proof -
  obtain u where u: "rt_url (so_runtime env) (c_url ch) = Some u"
    using assms by (cases "rt_url (so_runtime env) (c_url ch)") (simp_all add: loadNhentaiChapter_def)
  obtain i where i: "chapter_gallery u = Some i"
    using assms u by (cases "chapter_gallery u") (simp_all add: loadNhentaiChapter_def)
  obtain g cdn mid where g: "nh_json env (js ''/galleries/'' @ i) = Inr g" "nh_json env (js ''/cdn'') = Inr cdn" "member (Some g) ''media_id'' = Inr mid"
    using assms u i by (auto simp: loadNhentaiChapter_def bind_r_Inr simp del: js_simps)
  define mediaId where "mediaId = string_of env mid"
  obtain pages where pages: "json_array (field g ''pages'') = Some pages"
    using assms u i g by (cases "json_array (field g ''pages'')") (simp_all add: loadNhentaiChapter_def Let_def del: js_simps)
  obtain server sorted images where ok: "all_digits mediaId" "pages \<noteq> []" "length pages \<le> 2000"
      and server: "nh_server env 105 ''image_servers'' cdn = Inr server" and sorted: "ordered_pages pages = Inr sorted"
      and images: "map_r (nh_image server mediaId) (enumerate 0 sorted) = Inr images" and page: "page = gallery_page (c_title ch) images"
    using assms u i g pages by (auto simp: loadNhentaiChapter_def Let_def bind_r_Inr mediaId_def simp del: js_simps split: if_splits)
  obtain host where host: "server = js ''https://'' @ host" "media_host 105 host"
    using server by (auto simp: nh_server_def bind_r_Inr simp del: js_simps dest!: mediaServer_Inr)
  have len: "length sorted = length pages"
    using sorted by (auto simp: ordered_pages_def Let_def bind_r_Inr split: if_splits dest!: map_r_Inr dest: list_all2_lengthD)
  have all: "list_all2 (\<lambda>x y. nh_image server mediaId x = Inr y) (enumerate 0 sorted) images" by (rule map_r_Inr[OF images])
  have count: "length images = length pages" using list_all2_lengthD[OF all] len by (simp add: enumerate_eq_zip)
  have nth: "im_id (images ! k) = to_dec (Suc k) \<and> (\<exists>name. is_file_name name \<and>
      im_url (images ! k) = server @ [47] @ js ''galleries/'' @ mediaId @ [47] @ name)" if "k < length images" for k
  proof -
    have "nh_image server mediaId (enumerate 0 sorted ! k) = Inr (images ! k)"
      using list_all2_nthD2[OF all that] .
    moreover have "enumerate 0 sorted ! k = (k, sorted ! k)" using that count len by (simp add: nth_enumerate_eq)
    ultimately show ?thesis using nh_image_Inr by simp
  qed
  have "map im_id images = map (\<lambda>k. to_dec (Suc k)) [0..<length images]"
    using nth by (intro nth_equalityI) (auto simp: nth_append)
  moreover have "list_all (\<lambda>im. \<exists>name. is_file_name name \<and>
        im_url im = js ''https://'' @ host @ [47] @ js ''galleries/'' @ mediaId @ [47] @ name) images"
    using nth host(1) by (auto simp: list_all_length simp del: js_simps)
  moreover have "images \<noteq> []" "length images \<le> 2000" using ok count by auto
  moreover have "p_images page = Some images" by (simp add: page gallery_page_def)
  ultimately show ?thesis using host(2) ok(1) by blast
qed


section \<open>MangaDex\<close>

definition md_site :: jstring where
  "md_site = js ''https://mangadex.org''"

definition md_api :: jstring where
  "md_api = js ''https://api.mangadex.org''"

definition md_ratings :: jstring where
  "md_ratings = js ''contentRating[]=safe&contentRating[]=suggestive&contentRating[]=erotica&contentRating[]=pornographic''"

text \<open>\<open>[a-f0-9]{8}-(?:[a-f0-9]{4}-){3}[a-f0-9]{12}\<close> and the patterns made of it, all under the flag \<open>i\<close>.\<close>

definition uuid_rx :: rx where
  "uuid_rx = RSeqs [RTimes 8 (RCh is_hex), RLit [45], RTimes 3 (RSeq (RTimes 4 (RCh is_hex)) (RLit [45])), RTimes 12 (RCh is_hex)]"

definition is_letter :: "nat \<Rightarrow> bool" where
  "is_letter c \<longleftrightarrow> is_lower c \<or> is_upper c"

definition language_rx :: rx where
  "language_rx = RSeq (RTimes 2 (RCh is_letter)) (ROpt (RSeq (RLit [45]) (RTimes 2 (RCh is_letter))))"

definition publication_rx :: rx where
  "publication_rx = RSeqs [RBol, RLitI (js ''mangadex:''), RGroup 1 uuid_rx,
     ROpt (RSeqs [RLit [58], RGroup 2 language_rx, RLit [58],
       RGroup 3 (RAlt (RSeq uuid_rx (RStar True (RSeq (RLit [43]) uuid_rx))) (RLitI (js ''none'')))]), REol]"

definition chapter_rx :: rx where
  "chapter_rx = RSeqs [RBol, RLitI (js ''/chapter/''), RGroup 1 uuid_rx, REol]"

definition md_json :: "source_env \<Rightarrow> jstring \<Rightarrow> (error, json) result" where
  "md_json env path = bind_r (so_fetch env (md_api @ path)) (\<lambda>(status, body).
     if \<not> in_range 200 299 status then Inl (Failed (js ''MangaDex returned HTTP '' @ to_dec status @ js ''.''))
     else case body of
         None \<Rightarrow> Inl not_json
       | Some j \<Rightarrow> bind_r (member (Some j) ''result'') (\<lambda>r.
           if r = Some (JText (js ''ok'')) then Inr j
           else Inl (Failed (js ''MangaDex did not return the requested publication.''))))"

text \<open>\<open>v?.[key]\<close> and \<open>Object.values(v ?? {})\<close> for an object of texts.\<close>

definition entry_at :: "json option \<Rightarrow> jstring \<Rightarrow> json option" where
  "entry_at v k = (case v of Some (JObj m) \<Rightarrow> jm_get m k | _ \<Rightarrow> None)"

definition text_values :: "json option \<Rightarrow> jstring list" where
  "text_values v = (case v of Some (JObj m) \<Rightarrow> List.map_filter (\<lambda>p. json_text (Some (snd p))) m | _ \<Rightarrow> [])"

definition truthy_text :: "json option \<Rightarrow> jstring option" where
  "truthy_text v = Option.bind (json_text v) some_text"

definition md_title :: "json option \<Rightarrow> json list \<Rightarrow> jstring \<Rightarrow> jstring option" where
  "md_title title others language =
     (case List.map_filter (\<lambda>n. truthy_text (entry_at n language)) (title # map Some others) of
        t # rest \<Rightarrow> Some t
      | [] \<Rightarrow> (case truthy_text (entry_at title (js ''en'')) of
          Some t \<Rightarrow> Some t
        | None \<Rightarrow> (case text_values title of [] \<Rightarrow> None | t # rest \<Rightarrow> some_text t)))"

definition preferred_first :: "('a \<Rightarrow> bool) \<Rightarrow> 'a list \<Rightarrow> 'a list" where
  "preferred_first P xs = filter P xs @ filter (\<lambda>x. \<not> P x) xs"

definition relation_of :: "json list \<Rightarrow> string \<Rightarrow> json list" where
  "relation_of rs kind = filter (\<lambda>r. field r ''type'' = Some (JText (js kind))) rs"

definition md_metadata :: "source_env \<Rightarrow> json \<Rightarrow> jstring \<Rightarrow> (error, work) result" where
  "md_metadata env manga language =
     bind_r (member (Some manga) ''attributes'') (\<lambda>attributes.
     bind_r (member attributes ''title'') (\<lambda>title.
     bind_r (array_or (optional attributes ''altTitles'')) (\<lambda>others.
       case md_title title others language of
         None \<Rightarrow> Inl (Failed (js ''MangaDex did not return the title.''))
       | Some t \<Rightarrow>
           bind_r (array_or (optional attributes ''availableTranslatedLanguages'')) (\<lambda>available.
           bind_r (array_or (field manga ''relationships'')) (\<lambda>relations.
             let i = string_of env (field manga ''id''); w = js ''mangadex:'' @ i; url = md_site @ js ''/title/'' @ i;
                 cover = (case relation_of relations ''cover_art'' of [] \<Rightarrow> None
                   | r # rest \<Rightarrow> truthy_text (optional (field r ''attributes'') ''fileName''))
             in Inr ((new_work w t Manga [(new_variant w (js ''mangadex'') (js ''MangaDex'') t url MangaPages)
                   \<lparr>v_languages := Some (preferred_first (\<lambda>l. l = language) (List.map_filter (\<lambda>v. json_text (Some v)) available)),
                    v_needsInspection := Some True\<rparr>])
                 \<lparr>w_url := Some url,
                  w_aliases := Some (uniq (filter (\<lambda>n. n \<noteq> t) (concat (map text_values (title # map Some others))))),
                  w_description := (case truthy_text (entry_at (optional attributes ''description'') language) of
                      Some d \<Rightarrow> Some d | None \<Rightarrow> json_text (entry_at (optional attributes ''description'') (js ''en''))),
                  w_year := json_number (optional attributes ''year''),
                  w_identifiers := Some [(js ''mangadex'', i)],
                  w_cover := map_option (\<lambda>c. js ''https://uploads.mangadex.org/covers/'' @ i @ [47] @ so_encode env c @ js ''.256.jpg'') cover\<rparr>))))))"

definition md_publication :: "source_env \<Rightarrow> variant \<Rightarrow> (error, jstring \<times> jstring option) result" where
  "md_publication env v =
     (case rt_url (so_runtime env) (v_url v) of
        None \<Rightarrow> Inl (Failed (js ''Invalid URL''))
      | Some u \<Rightarrow>
          (case rx_exec publication_rx (v_id v) of
             None \<Rightarrow> Inl (Failed (js ''The MangaDex publication does not match its source link.''))
           | Some f \<Rightarrow>
               if url_origin u \<noteq> (js ''https:'', js ''mangadex.org'', []) \<or> u_username u \<noteq> [] \<or> u_password u \<noteq> []
                 \<or> u_pathname u \<noteq> js ''/title/'' @ or_empty (cap f 1) \<or> u_search u \<noteq> [] \<or> u_hash u \<noteq> []
               then Inl (Failed (js ''The MangaDex publication does not match its source link.''))
               else Inr (or_empty (cap f 1), map_option (\<lambda>l. l @ [58] @ or_empty (cap f 3)) (cap f 2))))"

text \<open>The translation of an upload: its language and its groups in the order of their names.\<close>

definition branch_for :: "source_env \<Rightarrow> json \<Rightarrow> (error, jstring \<times> jstring \<times> jstring option) result" where
  "branch_for env entry =
     bind_r (array_or (field entry ''relationships'')) (\<lambda>relations.
       let groups = sort_with (\<lambda>a b. so_before env (string_of env (field a ''id'')) (string_of env (field b ''id'')))
             (relation_of relations ''scanlation_group'');
           language = string_of env (optional (field entry ''attributes'') ''translatedLanguage'');
           ids = join [43] (map (\<lambda>g. string_of env (field g ''id'')) groups);
           names = List.map_filter (\<lambda>g. truthy_text (optional (field g ''attributes'') ''name'')) groups
       in Inr (language @ [58] @ (if ids = [] then js ''none'' else ids), language, some_text (join [44, 32] names)))"

record branch =
  br_variant :: variant
  br_chapters :: "(jstring, json) jmap"

text \<open>\<open>a > b\<close> on strings.\<close>

fun text_less :: "jstring \<Rightarrow> jstring \<Rightarrow> bool" where
  "text_less a [] = False"
| "text_less [] (y # b) = True"
| "text_less (x # a) (y # b) = (x < y \<or> x = y \<and> text_less a b)"

definition published_at :: "json \<Rightarrow> jstring" where
  "published_at entry = or_empty (json_text (optional (field entry ''attributes'') ''publishAt''))"

definition upload_key :: "source_env \<Rightarrow> json \<Rightarrow> jstring" where
  "upload_key env entry =
     (let attributes = field entry ''attributes''; chapter = optional attributes ''chapter'' in
      if chapter = Some JNull then string_of env (field entry ''id'')
      else (case optional attributes ''volume'' of None \<Rightarrow> [] | Some JNull \<Rightarrow> [] | Some v \<Rightarrow> json_string env v)
        @ [58] @ string_of env chapter)"

definition keep_upload :: "source_env \<Rightarrow> json \<Rightarrow> (jstring, json) jmap \<Rightarrow> (jstring, json) jmap" where
  "keep_upload env entry chapters =
     (case jm_get chapters (upload_key env entry) of
        None \<Rightarrow> jm_set (upload_key env entry) entry chapters
      | Some prior \<Rightarrow> if text_less (published_at prior) (published_at entry)
          then jm_set (upload_key env entry) entry chapters else chapters)"

definition new_branch :: "work \<Rightarrow> jstring \<times> jstring \<times> jstring option \<Rightarrow> branch" where
  "new_branch w = (\<lambda>(key, language, translation). \<lparr>br_variant = (hd (w_variants w))
     \<lparr>v_id := w_id w @ [58] @ key, v_languages := Some [language], v_translation := translation, v_needsInspection := Some False\<rparr>,
     br_chapters = []\<rparr>)"

definition skipped_upload :: "json option \<Rightarrow> bool" where
  "skipped_upload attributes \<longleftrightarrow> \<not> truthy_json (optional attributes ''pages'') \<or> truthy_json (optional attributes ''externalUrl'')"

definition add_upload :: "source_env \<Rightarrow> work \<Rightarrow> json \<Rightarrow> (jstring, branch) jmap \<Rightarrow> (error, (jstring, branch) jmap) result" where
  "add_upload env w entry branches =
     bind_r (member (Some entry) ''attributes'') (\<lambda>attributes.
     bind_r (member attributes ''pages'') (\<lambda>pages.
       if skipped_upload attributes then Inr branches
       else bind_r (branch_for env entry) (\<lambda>b.
         let current = (case jm_get branches (fst b) of None \<Rightarrow> new_branch w b | Some c \<Rightarrow> c)
         in Inr (jm_set (fst b) (current\<lparr>br_chapters := keep_upload env entry (br_chapters current)\<rparr>) branches))))"

fun add_uploads :: "source_env \<Rightarrow> work \<Rightarrow> json list \<Rightarrow> (jstring, branch) jmap \<Rightarrow> (error, (jstring, branch) jmap) result" where
  "add_uploads env w [] branches = Inr branches"
| "add_uploads env w (e # es) branches = bind_r (add_upload env w e branches) (add_uploads env w es)"


text \<open>
  The listing of the uploads, page by page. A page moves the offset on by its uploads, and an
  offset above 30,000 is refused, so the loop ends.
\<close>

definition feed_path :: "source_env \<Rightarrow> jstring \<Rightarrow> nat \<Rightarrow> jstring" where
  "feed_path env i offset = js ''/manga/'' @ i @ js ''/feed?limit=500&offset='' @ to_dec offset
     @ js ''&includes[]=scanlation_group&order[volume]=asc&order[chapter]=asc&'' @ md_ratings"

definition too_many_uploads :: error where
  "too_many_uploads = Failed (js ''This MangaDex title has too many chapter uploads.'')"

definition below_total :: "nat \<Rightarrow> rat option \<Rightarrow> bool" where
  "below_total offset t \<longleftrightarrow> (case t of None \<Rightarrow> False | Some x \<Rightarrow> of_nat offset < x)"

definition listed_uploads :: "json \<Rightarrow> json list" where
  "listed_uploads listing = (case json_array (field listing ''data'') of None \<Rightarrow> [] | Some xs \<Rightarrow> xs)"

function feed_loop ::
  "source_env \<Rightarrow> work \<Rightarrow> jstring \<Rightarrow> nat \<Rightarrow> rat option \<Rightarrow> (jstring, branch) jmap \<Rightarrow> (error, (jstring, branch) jmap) result" where
  "feed_loop env w i offset t branches =
     (if \<not> below_total offset t then Inr branches
      else case md_json env (feed_path env i offset) of
          Inl e \<Rightarrow> Inl e
        | Inr listing \<Rightarrow>
            (case listed_uploads listing of
               [] \<Rightarrow> Inr branches
             | entry # entries \<Rightarrow>
                 (case add_uploads env w (entry # entries) branches of
                    Inl e \<Rightarrow> Inl e
                  | Inr branches' \<Rightarrow>
                      if offset + Suc (length entries) > 30000 then Inl too_many_uploads
                      else feed_loop env w i (offset + Suc (length entries)) (json_number (field listing ''total'')) branches')))"
  by pat_completeness auto
termination by (relation "measure (\<lambda>(env, w, i, offset, t, branches). 30001 - offset)") auto

definition numeric_text :: "source_env \<Rightarrow> json option \<Rightarrow> rat option" where
  "numeric_text env v = (case v of Some (JNum x) \<Rightarrow> Some x | Some (JText s) \<Rightarrow> so_parse_number env s | _ \<Rightarrow> None)"

text \<open>The comparisons of two branches and of two uploads, as ``not after''; a volume that is absent comes last.\<close>

definition branch_first :: "source_env \<Rightarrow> jstring \<Rightarrow> branch \<Rightarrow> branch \<Rightarrow> bool" where
  "branch_first env language a b =
     (let la = (v_languages (br_variant a) = Some [language]); lb = (v_languages (br_variant b) = Some [language]) in
      if la \<noteq> lb then la
      else if length (br_chapters a) \<noteq> length (br_chapters b) then length (br_chapters a) > length (br_chapters b)
      else so_before env (v_id (br_variant a)) (v_id (br_variant b)))"

definition volume_of :: "source_env \<Rightarrow> json \<Rightarrow> rat option" where
  "volume_of env entry = numeric_text env (optional (field entry ''attributes'') ''volume'')"

definition chapter_of :: "source_env \<Rightarrow> json \<Rightarrow> rat" where
  "chapter_of env entry = (let c = optional (field entry ''attributes'') ''chapter'' in
     if truthy_json c then (case numeric_text env c of None \<Rightarrow> 0 | Some x \<Rightarrow> x) else 0)"

definition upload_first :: "source_env \<Rightarrow> json \<Rightarrow> json \<Rightarrow> bool" where
  "upload_first env a b =
     (if volume_of env a \<noteq> volume_of env b
      then (case (volume_of env a, volume_of env b) of (None, _) \<Rightarrow> False | (_, None) \<Rightarrow> True | (Some x, Some y) \<Rightarrow> x < y)
      else if chapter_of env a \<noteq> chapter_of env b then chapter_of env a < chapter_of env b
      else so_before env (published_at a) (published_at b))"

definition md_chapter :: "source_env \<Rightarrow> bool \<Rightarrow> nat \<Rightarrow> json \<Rightarrow> book_chapter" where
  "md_chapter env russian k entry =
     (let values = field entry ''attributes''; number = optional values ''chapter''; name = optional values ''title'';
          volume = optional values ''volume'';
          label = (if truthy_json number then (if russian then [1043, 1083, 1072, 1074, 1072] else js ''Chapter'') @ [32] @ string_of env number
            else if truthy_json name then string_of env name else if russian then [1042, 1072, 1085, 1096, 1086, 1090] else js ''One-shot'');
          url = md_api @ js ''/chapter/'' @ string_of env (field entry ''id'')
      in \<lparr>c_id = rt_sha256 (so_runtime env) url,
          c_title = (if truthy_json volume then (if russian then [1058, 1086, 1084] else js ''Volume'') @ [32] @ string_of env volume @ js '', '' else [])
            @ label @ (if truthy_json name \<and> truthy_json number then [32, 8212, 32] @ string_of env name else []),
          c_url = url, c_number = Some (of_nat (Suc k)), c_volume = None\<rparr>)"

definition md_chapters :: "source_env \<Rightarrow> branch \<Rightarrow> book_chapter list" where
  "md_chapters env b = map (\<lambda>(k, e). md_chapter env (v_languages (br_variant b) = Some [js ''ru'']) k e)
     (enumerate 0 (sort_with (upload_first env) (jm_values (br_chapters b))))"

definition first_language :: "variant \<Rightarrow> jstring" where
  "first_language v = (case v_languages v of Some (l # ls) \<Rightarrow> if l = [] then js ''en'' else l | _ \<Rightarrow> js ''en'')"

definition md_inspect :: "source_env \<Rightarrow> variant \<Rightarrow> (error, work) result" where
  "md_inspect env v =
     bind_r (md_publication env v) (\<lambda>(i, selected).
     bind_r (md_json env (js ''/manga/'' @ i @ js ''?includes[]=cover_art'')) (\<lambda>details.
     bind_r (md_metadata env (case field details ''data'' of None \<Rightarrow> JNull | Some d \<Rightarrow> d)
         (case v_languages v of Some (l # ls) \<Rightarrow> l | _ \<Rightarrow> js ''en'')) (\<lambda>w.
     bind_r (feed_loop env w i 0 (Some 1) []) (\<lambda>branches.
       let available = sort_with (branch_first env (first_language v)) (jm_values branches) in
       case (case selected of Some key \<Rightarrow> jm_get branches key
           | None \<Rightarrow> (case available of [] \<Rightarrow> None | b # bs \<Rightarrow> Some b)) of
         None \<Rightarrow> Inl (Failed (js ''The selected MangaDex translation has no available chapters.''))
       | Some chosen \<Rightarrow> Inr (w\<lparr>w_variants := map br_variant available, w_chapters := Some (md_chapters env chosen)\<rparr>)))))"

definition md_search :: "source_env \<Rightarrow> jstring \<Rightarrow> jstring option \<Rightarrow> (error, work list) result" where
  "md_search env query language =
     bind_r (md_json env (js ''/manga?title='' @ so_encode env query @ js ''&limit=50&includes[]=cover_art&'' @ md_ratings)) (\<lambda>answer.
     bind_r (array_or (field answer ''data'')) (\<lambda>entries.
       map_r (\<lambda>e. md_metadata env e (case Option.bind language some_text of None \<Rightarrow> js ''en'' | Some l \<Rightarrow> l)) entries))"

text \<open>\<open>loadMangaDexChapter\<close>: the server names its address, the directory of the chapter and the files.\<close>

definition is_hash :: "jstring \<Rightarrow> bool" where
  "is_hash h \<longleftrightarrow> length h = 32 \<and> list_all is_hex h"

definition image_address :: "runtime \<Rightarrow> url \<Rightarrow> jstring \<Rightarrow> jstring \<Rightarrow> jstring" where
  "image_address rt base hash name =
     (let p = u_pathname base; stem = (if p \<noteq> [] \<and> last p = 47 then butlast p else p)
      in rt_href rt (base\<lparr>u_pathname := stem @ js ''/data/'' @ hash @ [47] @ name\<rparr>))"

definition no_chapter_images :: error where
  "no_chapter_images = Failed (js ''MangaDex did not return valid chapter images.'')"

definition md_images :: "runtime \<Rightarrow> json \<Rightarrow> (error, reader_image list) result" where
  "md_images rt answer =
     (case Option.bind (json_text (field answer ''baseUrl'')) (rt_url rt) of
        None \<Rightarrow> Inl (Failed (js ''Invalid URL''))
      | Some base \<Rightarrow>
          (let chapter = field answer ''chapter''; hash = or_empty (json_text (optional chapter ''hash'')) in
           case json_array (optional chapter ''data'') of
             None \<Rightarrow> Inl no_chapter_images
           | Some files \<Rightarrow>
               if u_protocol base \<noteq> js ''https:'' \<or> u_username base \<noteq> [] \<or> u_password base \<noteq> [] \<or> \<not> is_hash hash
                 \<or> files = [] \<or> length files > 2000
                 \<or> \<not> list_all (\<lambda>f. case json_text (Some f) of None \<Rightarrow> False | Some t \<Rightarrow> is_file_name t) files
               then Inl no_chapter_images
               else Inr (map (\<lambda>(k, f). \<lparr>im_id = to_dec (Suc k), im_url = image_address rt base hash (or_empty (json_text (Some f))),
                   im_width = None, im_height = None\<rparr>) (enumerate 0 files))))"

definition loadMangaDexChapter :: "source_env \<Rightarrow> book_chapter \<Rightarrow> (error, reader_page) result" where
  "loadMangaDexChapter env ch =
     (case rt_url (so_runtime env) (c_url ch) of
        None \<Rightarrow> Inl (Failed (js ''Invalid URL''))
      | Some u \<Rightarrow>
          (case rx_cap chapter_rx 1 (u_pathname u) of
             None \<Rightarrow> Inl (Failed (js ''This chapter does not belong to MangaDex.''))
           | Some i \<Rightarrow>
               if url_origin u \<noteq> (js ''https:'', js ''api.mangadex.org'', []) \<or> u_username u \<noteq> [] \<or> u_password u \<noteq> []
                 \<or> u_search u \<noteq> [] \<or> u_hash u \<noteq> []
               then Inl (Failed (js ''This chapter does not belong to MangaDex.''))
               else bind_r (md_json env (js ''/at-home/server/'' @ i)) (\<lambda>answer.
                 bind_r (md_images (so_runtime env) answer) (\<lambda>images. Inr (gallery_page (c_title ch) images)))))"


section \<open>Facts on MangaDex\<close>

lemma text_less_irrefl: "\<not> text_less a a"
  by (induction a) simp_all

lemma text_less_trans: "text_less a b \<Longrightarrow> text_less b c \<Longrightarrow> text_less a c"
proof (induction a b arbitrary: c rule: text_less.induct)
  case (3 x a y b)
  then show ?case by (cases c) auto
next
  case (2 y b)
  then show ?case by (cases c) simp_all
qed simp

text \<open>The translation an upload is listed under.\<close>

definition belongs :: "source_env \<Rightarrow> json \<Rightarrow> jstring \<Rightarrow> bool" where
  "belongs env e k \<longleftrightarrow> \<not> skipped_upload (field e ''attributes'') \<and> (\<exists>b. branch_for env e = Inr b \<and> fst b = k)"

definition uploads_of :: "(jstring, branch) jmap \<Rightarrow> jstring \<Rightarrow> (jstring, json) jmap" where
  "uploads_of branches k = (case jm_get branches k of None \<Rightarrow> [] | Some b \<Rightarrow> br_chapters b)"

definition newest_in :: "source_env \<Rightarrow> json list \<Rightarrow> (jstring, branch) jmap \<Rightarrow> bool" where
  "newest_in env es branches \<longleftrightarrow> (\<forall>k c. case jm_get (uploads_of branches k) c of
       None \<Rightarrow> \<forall>e \<in> set es. belongs env e k \<longrightarrow> upload_key env e \<noteq> c
     | Some s \<Rightarrow> s \<in> set es \<and> belongs env s k \<and> upload_key env s = c
         \<and> (\<forall>e \<in> set es. belongs env e k \<and> upload_key env e = c \<longrightarrow> \<not> text_less (published_at s) (published_at e)))"

lemma newest_inD:
  "newest_in env es branches \<Longrightarrow> jm_get (uploads_of branches k) c = None \<Longrightarrow> e \<in> set es \<Longrightarrow> belongs env e k \<Longrightarrow> upload_key env e \<noteq> c"
  "newest_in env es branches \<Longrightarrow> jm_get (uploads_of branches k) c = Some s \<Longrightarrow> s \<in> set es \<and> belongs env s k \<and> upload_key env s = c"
  "newest_in env es branches \<Longrightarrow> jm_get (uploads_of branches k) c = Some s \<Longrightarrow> e \<in> set es \<Longrightarrow> belongs env e k \<Longrightarrow> upload_key env e = c
     \<Longrightarrow> \<not> text_less (published_at s) (published_at e)"
  unfolding newest_in_def by (drule spec[of _ k], drule spec[of _ c], simp)+

lemma keep_upload_get:
  "jm_get (keep_upload env e chapters) c =
     (if c = upload_key env e \<and> (case jm_get chapters c of None \<Rightarrow> True | Some p \<Rightarrow> text_less (published_at p) (published_at e))
      then Some e else jm_get chapters c)"
  by (auto simp: keep_upload_def split: option.split)

lemma add_upload_uploads:
  assumes "add_upload env w e branches = Inr branches'"
  shows "uploads_of branches' k = (if belongs env e k then keep_upload env e (uploads_of branches k) else uploads_of branches k)"
proof (cases "skipped_upload (field e ''attributes'')")
  case True
  then have "branches' = branches" using assms by (auto simp: add_upload_def bind_r_Inr member_def split: json.splits)
  then show ?thesis using True by (simp add: belongs_def)
next
  case False
  obtain b where b: "branch_for env e = Inr b"
      "branches' = jm_set (fst b) ((case jm_get branches (fst b) of None \<Rightarrow> new_branch w b | Some c \<Rightarrow> c)
        \<lparr>br_chapters := keep_upload env e (br_chapters (case jm_get branches (fst b) of None \<Rightarrow> new_branch w b | Some c \<Rightarrow> c))\<rparr>) branches"
    using assms False by (auto simp: add_upload_def bind_r_Inr member_def Let_def split: json.splits)
  have "br_chapters (new_branch w b) = []" by (simp add: new_branch_def split: prod.split)
  then have "uploads_of branches' (fst b) = keep_upload env e (uploads_of branches (fst b))"
    by (simp add: b(2) uploads_of_def split: option.split)
  moreover have "uploads_of branches' k = uploads_of branches k" if "k \<noteq> fst b" using that by (simp add: b(2) uploads_of_def)
  moreover have "belongs env e k \<longleftrightarrow> k = fst b" using False b(1) by (auto simp: belongs_def)
  ultimately show ?thesis by auto
qed

lemma newest_in_step:
  assumes "newest_in env es branches" and "add_upload env w e branches = Inr branches'"
  shows "newest_in env (es @ [e]) branches'"
  unfolding newest_in_def
proof (intro allI)
  fix k c
  let ?old = "jm_get (uploads_of branches k) c"
  show "case jm_get (uploads_of branches' k) c of
       None \<Rightarrow> \<forall>x \<in> set (es @ [e]). belongs env x k \<longrightarrow> upload_key env x \<noteq> c
     | Some s \<Rightarrow> s \<in> set (es @ [e]) \<and> belongs env s k \<and> upload_key env s = c
         \<and> (\<forall>x \<in> set (es @ [e]). belongs env x k \<and> upload_key env x = c \<longrightarrow> \<not> text_less (published_at s) (published_at x))"
  proof (cases "belongs env e k \<and> upload_key env e = c")
    case False
    then have "jm_get (uploads_of branches' k) c = ?old"
      using add_upload_uploads[OF assms(2), of k] by (auto simp: keep_upload_get)
    then show ?thesis using newest_inD[OF assms(1), of k c] False by (cases ?old) auto
  next
    case True
    then have new: "jm_get (uploads_of branches' k) c = (case ?old of None \<Rightarrow> Some e
        | Some p \<Rightarrow> if text_less (published_at p) (published_at e) then Some e else Some p)"
      using add_upload_uploads[OF assms(2), of k] by (auto simp: keep_upload_get split: option.split)
    show ?thesis
    proof (cases ?old)
      case None
      then show ?thesis using newest_inD(1)[OF assms(1) None] True new text_less_irrefl by auto
    next
      case (Some p)
      have over: "\<not> text_less (published_at e) (published_at x)"
        if "text_less (published_at p) (published_at e)" "x \<in> set es" "belongs env x k" "upload_key env x = c" for x
        using newest_inD(3)[OF assms(1) Some that(2-4)] text_less_trans[OF that(1)] by blast
      show ?thesis
        using newest_inD(2,3)[OF assms(1) Some] True new Some over text_less_irrefl by auto
    qed
  qed
qed

lemma add_uploads_newest:
  "newest_in env seen branches \<Longrightarrow> add_uploads env w es branches = Inr branches' \<Longrightarrow> newest_in env (seen @ es) branches'"
proof (induction es arbitrary: seen branches)
  case (Cons e es)
  then obtain b where "add_upload env w e branches = Inr b" "add_uploads env w es b = Inr branches'" by (auto simp: bind_r_Inr)
  then show ?case using Cons.IH[OF newest_in_step[OF Cons.prems(1)]] by fastforce
qed simp

lemma add_uploads_append:
  "add_uploads env w (xs @ ys) b = bind_r (add_uploads env w xs b) (add_uploads env w ys)"
proof (induction xs arbitrary: b)
  case (Cons x xs)
  then show ?case by (cases "add_upload env w x b") simp_all
qed simp

text \<open>The uploads that the pages of the listing hold, in their order.\<close>

function listed :: "source_env \<Rightarrow> jstring \<Rightarrow> nat \<Rightarrow> rat option \<Rightarrow> json list" where
  "listed env i offset t =
     (if \<not> below_total offset t then []
      else case md_json env (feed_path env i offset) of
          Inl e \<Rightarrow> []
        | Inr listing \<Rightarrow>
            (case listed_uploads listing of
               [] \<Rightarrow> []
             | entry # entries \<Rightarrow> (entry # entries) @ (if offset + Suc (length entries) > 30000 then []
                 else listed env i (offset + Suc (length entries)) (json_number (field listing ''total'')))))"
  by pat_completeness auto
termination by (relation "measure (\<lambda>(env, i, offset, t). 30001 - offset)") auto

declare feed_loop.simps [simp del] listed.simps [simp del]

lemma feed_loop_listed:
  "feed_loop env w i offset t branches = Inr branches' \<Longrightarrow> add_uploads env w (listed env i offset t) branches = Inr branches'"
proof (induction env w i offset t branches rule: feed_loop.induct)
  case (1 env w i offset t branches)
  show ?case
  proof (cases "below_total offset t")
    case True
    obtain listing where l: "md_json env (feed_path env i offset) = Inr listing"
      using "1.prems" True by (subst (asm) feed_loop.simps) (auto split: sum.splits)
    show ?thesis
    proof (cases "listed_uploads listing")
      case Nil
      then show ?thesis using "1.prems" True l by (simp add: feed_loop.simps[of env w i offset] listed.simps[of env i offset])
    next
      case (Cons entry entries)
      obtain b where b: "add_uploads env w (entry # entries) branches = Inr b"
        using "1.prems" True l Cons by (cases "add_uploads env w (entry # entries) branches") (simp_all add: feed_loop.simps[of env w i offset])
      have few: "\<not> offset + Suc (length entries) > 30000"
        using "1.prems" True l Cons b by (auto simp: feed_loop.simps[of env w i offset])
      have "feed_loop env w i (offset + Suc (length entries)) (json_number (field listing ''total'')) b = Inr branches'"
        using "1.prems" True l Cons b few by (simp add: feed_loop.simps[of env w i offset] del: add_uploads.simps)
      from "1.IH"[OF _ l Cons b few this] True
      have "add_uploads env w (listed env i (offset + Suc (length entries)) (json_number (field listing ''total''))) b = Inr branches'" by simp
      moreover have "listed env i offset t = (entry # entries) @ listed env i (offset + Suc (length entries)) (json_number (field listing ''total''))"
        using True l Cons few by (simp add: listed.simps[of env i offset])
      ultimately show ?thesis using b by (simp only: add_uploads_append bind_r_simps)
    qed
  qed (use "1.prems" in \<open>simp add: feed_loop.simps[of env w i offset] listed.simps[of env i offset]\<close>)
qed

text \<open>
  The translations of a title have the newest uploads. When the listing has been read, every
  upload that is shown is a listed one of its translation and chapter and no listed one of the
  two was published later; and a translation has an upload of every chapter that is listed for
  it.
\<close>

theorem newest_uploads:
  assumes "feed_loop env w i 0 (Some 1) [] = Inr branches"
  shows "case jm_get (uploads_of branches k) c of
       None \<Rightarrow> \<forall>e \<in> set (listed env i 0 (Some 1)). belongs env e k \<longrightarrow> upload_key env e \<noteq> c
     | Some s \<Rightarrow> s \<in> set (listed env i 0 (Some 1)) \<and> belongs env s k \<and> upload_key env s = c
         \<and> (\<forall>e \<in> set (listed env i 0 (Some 1)). belongs env e k \<and> upload_key env e = c
              \<longrightarrow> \<not> text_less (published_at s) (published_at e))"
proof -
  have "newest_in env [] []" by (simp add: newest_in_def uploads_of_def)
  from add_uploads_newest[OF this feed_loop_listed[OF assms]] show ?thesis unfolding newest_in_def append_Nil by blast
qed


text \<open>
  The pictures of a chapter come from the directory of the chapter on the server that the source
  named: an https address without credentials, a hash of 32 digits and plain file names, numbered
  from one and at most 2000.
\<close>

theorem mangadex_images:
  assumes "loadMangaDexChapter env ch = Inr page"
  shows "\<exists>images base hash names. p_images page = Some images \<and> u_protocol base = js ''https:'' \<and> u_username base = [] \<and> u_password base = []
    \<and> is_hash hash \<and> names \<noteq> [] \<and> length names \<le> 2000 \<and> list_all is_file_name names
    \<and> map im_url images = map (image_address (so_runtime env) base hash) names
    \<and> map im_id images = map (\<lambda>k. to_dec (Suc k)) [0..<length names]"
proof -
  obtain u where u: "rt_url (so_runtime env) (c_url ch) = Some u"
    using assms by (cases "rt_url (so_runtime env) (c_url ch)") (simp_all add: loadMangaDexChapter_def)
  obtain answer images where images: "md_images (so_runtime env) answer = Inr images" and page: "page = gallery_page (c_title ch) images"
    using assms u by (auto simp: loadMangaDexChapter_def bind_r_Inr simp del: js_simps split: option.splits if_splits)
  obtain base where base: "Option.bind (json_text (field answer ''baseUrl'')) (rt_url (so_runtime env)) = Some base"
    using images by (cases "Option.bind (json_text (field answer ''baseUrl'')) (rt_url (so_runtime env))") (simp_all add: md_images_def)
  define hash where "hash = or_empty (json_text (optional (field answer ''chapter'') ''hash''))"
  obtain files where files: "json_array (optional (field answer ''chapter'') ''data'') = Some files"
    using images base by (cases "json_array (optional (field answer ''chapter'') ''data'')") (simp_all add: md_images_def Let_def)
  have ok: "u_protocol base = js ''https:''" "u_username base = []" "u_password base = []" "is_hash hash" "files \<noteq> []" "length files \<le> 2000"
      "list_all (\<lambda>f. case json_text (Some f) of None \<Rightarrow> False | Some t \<Rightarrow> is_file_name t) files"
    and im: "images = map (\<lambda>(k, f). \<lparr>im_id = to_dec (Suc k), im_url = image_address (so_runtime env) base hash (or_empty (json_text (Some f))),
        im_width = None, im_height = None\<rparr>) (enumerate 0 files)"
    using images base files by (auto simp: md_images_def Let_def hash_def[symmetric] simp del: js_simps split: if_splits)
  let ?names = "map (\<lambda>f. or_empty (json_text (Some f))) files"
  have "list_all is_file_name ?names"
    using ok(7) by (auto simp: list_all_iff split: option.splits)
  moreover have "map im_url images = map (image_address (so_runtime env) base hash) ?names"
    unfolding im by (intro nth_equalityI) (simp_all add: nth_enumerate_eq split: prod.split)
  moreover have "map im_id images = map (\<lambda>k. to_dec (Suc k)) [0..<length ?names]"
    unfolding im by (intro nth_equalityI) (simp_all add: nth_enumerate_eq split: prod.split)
  moreover have "p_images page = Some images" by (simp add: page gallery_page_def)
  ultimately show ?thesis using ok(1-6) by (intro exI[of _ images] exI[of _ base] exI[of _ hash] exI[of _ ?names]) simp
qed

section \<open>Samples\<close>

definition json_object :: "(string \<times> json) list \<Rightarrow> json" where
  "json_object m = JObj (map (\<lambda>(k, v). (js k, v)) m)"

definition sample_answers :: "(jstring, json) jmap" where
  "sample_answers =
     [(js ''https://nhentai.net/api/v2/galleries/7'', json_object [(''id'', JNum 7), (''media_id'', JText (js ''9'')),
        (''pages'', JArr [json_object [(''number'', JNum 2), (''path'', JText (js ''galleries/9/2.webp''))],
          json_object [(''number'', JNum 1), (''path'', JText (js ''galleries/9/1.webp''))]])]),
      (js ''https://nhentai.net/api/v2/cdn'', json_object [(''image_servers'', JArr [JText (js ''https://i1.nhentai.net'')])]),
      (js ''https://api.mangadex.org/at-home/server/01234567-0123-0123-0123-0123456789ab'',
        json_object [(''result'', JText (js ''ok'')), (''baseUrl'', JText (js ''https://s.org'')),
          (''chapter'', json_object [(''hash'', JText (js ''0123456789abcdef0123456789abcdef'')), (''data'', JArr [JText (js ''1.png'')])])])]"

definition sample_uploads :: "json list" where
  "sample_uploads = [json_object [(''id'', JText (js ''a'')), (''attributes'', json_object [(''pages'', JNum 3), (''chapter'', JText (js ''1'')),
       (''translatedLanguage'', JText (js ''en'')), (''publishAt'', JText (js ''2020''))])],
     json_object [(''id'', JText (js ''b'')), (''attributes'', json_object [(''pages'', JNum 3), (''chapter'', JText (js ''1'')),
       (''translatedLanguage'', JText (js ''en'')), (''publishAt'', JText (js ''2021''))])]]"

definition sample_source :: source_env where
  "sample_source = \<lparr>so_runtime = sample_runtime, so_fetch = (\<lambda>u. Inr (200, case jm_get sample_answers u of Some j \<Rightarrow> Some j
       | None \<Rightarrow> Some (json_object [(''result'', JText (js ''ok'')), (''total'', JNum 2), (''data'', JArr sample_uploads)]))),
     so_encode = (\<lambda>s. s), so_number = (\<lambda>_. []), so_date = (\<lambda>_. None), so_parse_number = (\<lambda>s. Some (of_nat (num_of s))),
     so_before = (\<lambda>a b. \<not> text_less b a)\<rparr>"

definition sample_gallery :: book_chapter where
  "sample_gallery = \<lparr>c_id = [], c_title = js ''G'', c_url = js ''https://nhentai.net/api/v2/galleries/7'', c_number = None, c_volume = None\<rparr>"

definition sample_manga_chapter :: book_chapter where
  "sample_manga_chapter = \<lparr>c_id = [], c_title = js ''M'',
     c_url = js ''https://api.mangadex.org/chapter/01234567-0123-0123-0123-0123456789ab'', c_number = None, c_volume = None\<rparr>"

definition loaded_page :: "(error, reader_page) result \<Rightarrow> reader_page" where
  "loaded_page r = (case r of Inr p \<Rightarrow> p | Inl e \<Rightarrow> gallery_page [] [])"

lemma loaded_page_Inr: "\<not> isl r \<Longrightarrow> r = Inr (loaded_page r)"
  by (cases r) (simp_all add: loaded_page_def)

theorem nhentai_pages_witness:
  "\<exists>images host mediaId. p_images (loaded_page (loadNhentaiChapter sample_source sample_gallery)) = Some images
    \<and> images \<noteq> [] \<and> media_host 105 host \<and> all_digits mediaId \<and> map im_id images = map (\<lambda>k. to_dec (Suc k)) [0..<length images]"
proof -
  have "\<not> isl (loadNhentaiChapter sample_source sample_gallery)" by code_simp
  from nhentai_pages[OF loaded_page_Inr[OF this]] show ?thesis by blast
qed

theorem mangadex_images_witness:
  "\<exists>images (base :: url) hash. p_images (loaded_page (loadMangaDexChapter sample_source sample_manga_chapter)) = Some images
    \<and> u_protocol base = js ''https:'' \<and> is_hash hash"
proof -
  have "\<not> isl (loadMangaDexChapter sample_source sample_manga_chapter)" by code_simp
  from mangadex_images[OF loaded_page_Inr[OF this]] show ?thesis by blast
qed

definition sample_manga_work :: work where
  "sample_manga_work = new_work (js ''mangadex:m'') (js ''M'') Manga [new_variant (js ''mangadex:m'') (js ''mangadex'') (js ''MangaDex'') (js ''M'') [] MangaPages]"

definition sample_branches :: "(jstring, branch) jmap" where
  "sample_branches = (case feed_loop sample_source sample_manga_work (js ''m'') 0 (Some 1) [] of Inr b \<Rightarrow> b | Inl e \<Rightarrow> [])"

theorem newest_uploads_witness:
  "jm_get (uploads_of sample_branches (js ''en:none'')) (js '':1'') = Some (sample_uploads ! 1)
    \<and> sample_uploads ! 1 \<in> set (listed sample_source (js ''m'') 0 (Some 1)) \<and> belongs sample_source (sample_uploads ! 1) (js ''en:none'')"
proof -
  have "\<not> isl (feed_loop sample_source sample_manga_work (js ''m'') 0 (Some 1) [])" by code_simp
  then have run: "feed_loop sample_source sample_manga_work (js ''m'') 0 (Some 1) [] = Inr sample_branches"
    by (auto simp: sample_branches_def split: sum.splits)
  have s: "jm_get (uploads_of sample_branches (js ''en:none'')) (js '':1'') = Some (sample_uploads ! 1)" by code_simp
  from newest_uploads[OF run, of "js ''en:none''" "js '':1''"] s show ?thesis by (simp del: js_simps)
qed

end
