(* ===== verification/Readings.thy ===== *)
theory Readings
  imports Galleries Originals
begin

text \<open>
  \<open>providers/reading.ts\<close>, the chapters of \<open>providers/reading-asian.ts\<close> and \<open>providers/http.ts\<close>:
  the providers of books and comics. The network answers an address and the headers of a request
  with a status and the parsed body (\<open>None\<close> for a body that is not JSON), pages come as bytes
  with a status; decoding, \<open>JSON.parse\<close> and the trees of HTML are parameters.
\<close>

record reading_env =
  rn_source :: source_env
  rn_tools :: book_tools
  rn_scripts :: scripts
  rn_fetch :: "jstring \<Rightarrow> (jstring, jstring) jmap \<Rightarrow> (error, nat \<times> json option) result"
  rn_bytes :: "jstring \<Rightarrow> (error, nat \<times> nat list) result"
  rn_utf8 :: "nat list \<Rightarrow> jstring"
  rn_decode :: "jstring \<Rightarrow> nat list \<Rightarrow> jstring option"
  rn_nfkc :: "jstring \<Rightarrow> jstring"
  rn_gb18030 :: "jstring \<Rightarrow> nat list"
  rn_parse :: "jstring \<Rightarrow> json option"

abbreviation rn_runtime :: "reading_env \<Rightarrow> runtime" where
  "rn_runtime env \<equiv> so_runtime (rn_source env)"

definition source_status :: "nat \<Rightarrow> error" where
  "source_status s = Failed ([1048, 1089, 1090, 1086, 1095, 1085, 1080, 1082, 32, 1074, 1077, 1088, 1085, 1091, 1083, 32,
    72, 84, 84, 80, 32] @ to_dec s @ js ''.'')"

definition get_json :: "reading_env \<Rightarrow> jstring \<Rightarrow> (jstring, jstring) jmap \<Rightarrow> (error, json) result" where
  "get_json env url headers = bind_r (rn_fetch env url headers) (\<lambda>(status, body).
     if \<not> in_range 200 299 status then Inl (source_status status)
     else case body of None \<Rightarrow> Inl not_json | Some j \<Rightarrow> Inr j)"

definition get_html :: "reading_env \<Rightarrow> jstring \<Rightarrow> (error, jstring) result" where
  "get_html env url = bind_r (rn_bytes env url) (\<lambda>(status, bytes).
     if \<not> in_range 200 299 status then Inl (source_status status) else Inr (rn_utf8 env bytes))"

text \<open>\<open>document\<close> of the Asian sources: a page that is not in its encoding is refused.\<close>

definition get_document :: "reading_env \<Rightarrow> jstring \<Rightarrow> jstring \<Rightarrow> (error, jstring) result" where
  "get_document env url encoding = bind_r (rn_bytes env url) (\<lambda>(status, bytes).
     if \<not> in_range 200 299 status then Inl (source_status status)
     else case rn_decode env encoding bytes of None \<Rightarrow> Inl type_error | Some t \<Rightarrow> Inr t)"

section \<open>Works and chapters\<close>

definition reading_language :: "(jstring, jstring) jmap" where
  "reading_language = map (\<lambda>(s, l). (js s, js l)) [(''kakuyomu'', ''ja''), (''syosetu'', ''ja''), (''royalroad'', ''en''),
     (''linovel'', ''zh''), (''ranobehub'', ''ru''), (''ranobelib'', ''ru''), (''mangalib'', ''ru'')]"

definition item ::
  "jstring \<Rightarrow> jstring \<Rightarrow> jstring \<Rightarrow> jstring \<Rightarrow> jstring \<Rightarrow> category \<Rightarrow> jstring option \<Rightarrow> jstring option \<Rightarrow> jstring list \<Rightarrow> work" where
  "item sourceId sourceName title url i category cover description alternates =
     (let w = sourceId @ [58] @ i in
      (new_work w title category [(new_variant w sourceId sourceName title url (if category = Manga then MangaPages else Book))
          \<lparr>v_languages := map_option (\<lambda>l. [l]) (jm_get reading_language sourceId)\<rparr>])
        \<lparr>w_aliases := Some (uniq (filter (\<lambda>t. t \<noteq> [] \<and> t \<noteq> title) alternates)),
         w_url := Some url, w_cover := cover, w_description := description\<rparr>)"

definition slug :: "variant \<Rightarrow> jstring" where
  "slug v = drop (Suc (length (v_sourceId v))) (v_id v)"

definition chapter_at :: "runtime \<Rightarrow> jstring \<Rightarrow> jstring \<Rightarrow> rat option \<Rightarrow> book_chapter" where
  "chapter_at rt title url number = \<lparr>c_id = rt_sha256 rt url, c_title = title, c_url = url, c_number = number, c_volume = None\<rparr>"

definition too_many_chapters :: error where
  "too_many_chapters = Failed [1042, 32, 1087, 1088, 1086, 1080, 1079, 1074, 1077, 1076, 1077, 1085, 1080, 1080, 32, 1089,
    1083, 1080, 1096, 1082, 1086, 1084, 32, 1084, 1085, 1086, 1075, 1086, 32, 1075, 1083, 1072,
    1074, 46]"

section \<open>Addresses\<close>

definition invalid_address :: error where
  "invalid_address = Failed (js ''Invalid URL'')"

text \<open>\<open>new URL(s, base)\<close> and its address; an absent or empty picture stays absent.\<close>

definition url_at :: "reading_env \<Rightarrow> jstring \<Rightarrow> jstring \<Rightarrow> (error, url) result" where
  "url_at env s base = (case resolve_url (rn_runtime env) (Some base) s of None \<Rightarrow> Inl invalid_address | Some u \<Rightarrow> Inr u)"

definition href_at :: "reading_env \<Rightarrow> jstring \<Rightarrow> jstring \<Rightarrow> (error, jstring) result" where
  "href_at env s base = bind_r (url_at env s base) (\<lambda>u. Inr (rt_href (rn_runtime env) u))"

definition cover_at :: "reading_env \<Rightarrow> jstring option \<Rightarrow> jstring \<Rightarrow> (error, jstring option) result" where
  "cover_at env cover base = (if truthy cover then bind_r (href_at env (or_empty cover) base) (\<lambda>u. Inr (Some u)) else Inr None)"

end
