(* ===== verification/Links.thy ===== *)
theory Links
  imports Readings
begin

text \<open>
  \<open>readingPublication\<close> of \<open>providers/reading.ts\<close>: the link of a publication that a user gives
  becomes a variant to inspect. The patterns are written as in \<open>Originals\<close>: a prefix, the
  characters of the number and what may follow.
\<close>

record reading_site =
  ws_id :: jstring
  ws_name :: jstring
  ws_url :: jstring
  ws_category :: category

abbreviation reading_site_of :: "string \<Rightarrow> jstring \<Rightarrow> string \<Rightarrow> category \<Rightarrow> reading_site" where
  "reading_site_of i name url category \<equiv> \<lparr>ws_id = js i, ws_name = name, ws_url = js url, ws_category = category\<rparr>"

definition readingProviders :: "reading_site list" where
  "readingProviders =
     [reading_site_of ''ranobehub'' (js ''RanobeHub'') ''https://ranobehub.org'' Books,
      reading_site_of ''ranobelib'' (js ''RanobeLib'') ''https://ranobelib.me'' Books,
      reading_site_of ''mangalib'' (js ''MangaLib'') ''https://mangalib.me'' Manga,
      reading_site_of ''mangadex'' (js ''MangaDex'') ''https://mangadex.org'' Manga,
      reading_site_of ''nhentai'' (js ''nhentai'') ''https://nhentai.net'' Manga,
      reading_site_of ''kakuyomu'' (js ''Kakuyomu'') ''https://kakuyomu.jp'' Books,
      reading_site_of ''syosetu'' [23567, 35500, 23478, 12395, 12394, 12429, 12358] ''https://syosetu.com'' Books,
      reading_site_of ''royalroad'' (js ''Royal Road'') ''https://www.royalroad.com'' Books,
      reading_site_of ''linovel'' [36731, 20043, 25991, 24211, 32, 47, 32, 76, 105, 110, 111, 118, 101, 108] ''https://www.linovel.net'' Books,
      reading_site_of ''jjwxc'' [26187, 27743, 25991, 23398, 22478] ''https://wap.jjwxc.net'' Books,
      reading_site_of ''naver'' [78, 65, 86, 69, 82, 32, 50937, 49548, 49444] ''https://novel.naver.com'' Books]"

text \<open>\<open>new URL(url).hostname\<close> of these addresses, a scheme and a host.\<close>

definition ws_host :: "reading_site \<Rightarrow> jstring" where
  "ws_host s = drop 8 (ws_url s)"

text \<open>\<open>[a-f\d]{8}-(?:[a-f\d]{4}-){3}[a-f\d]{12}\<close> under the flag \<open>i\<close>\<close>

definition is_title_id :: "jstring \<Rightarrow> bool" where
  "is_title_id s \<longleftrightarrow> length s = 36 \<and> list_all (\<lambda>(i, c). if i \<in> {8, 13, 18, 23} then c = 45 else is_hex c) (enumerate 0 s)"

text \<open>\<open>/^\/title\/(uuid)(?:\/[^/]+)?\/?$/i\<close>\<close>

definition title_number :: "jstring \<Rightarrow> jstring option" where
  "title_number path =
     (let i = take 36 (drop 7 path) in
      if map ascii_lower (take 7 path) = js ''/title/'' \<and> is_title_id i \<and> name_end (drop 43 path) then Some i else None)"

text \<open>\<open>/^\/ru\/(?:(?:manga|book)\/)?(\d+--[\w-]+)\/?$/\<close>\<close>

definition is_slug_char :: "nat \<Rightarrow> bool" where
  "is_slug_char c \<longleftrightarrow> is_word c \<or> c = 45"

definition lib_kind_end :: "jstring \<Rightarrow> jstring" where
  "lib_kind_end s = (if starts_with s (js ''manga/'') then drop 6 s else if starts_with s (js ''book/'') then drop 5 s else s)"

definition lib_number :: "jstring \<Rightarrow> jstring option" where
  "lib_number path =
     (let s = lib_kind_end (drop 4 path); digits = takeWhile is_digit s; after = drop (length digits) s;
          name = takeWhile is_slug_char (drop 2 after)
      in if starts_with path (js ''/ru/'') \<and> digits \<noteq> [] \<and> starts_with after (js ''--'') \<and> name \<noteq> []
           \<and> slash_end (drop (2 + length name) after)
         then Some (digits @ js ''--'' @ name) else None)"

definition publication_number :: "jstring \<Rightarrow> jstring \<Rightarrow> jstring option" where
  "publication_number sourceId path =
     (if sourceId = js ''mangadex'' then title_number path
      else if sourceId = js ''nhentai'' then path_number ''/g/'' is_digit slash_end path
      else if sourceId \<in> {js ''mangalib'', js ''ranobelib''} then lib_number path else None)"

definition publication_path :: "reading_site \<Rightarrow> jstring \<Rightarrow> jstring" where
  "publication_path s i =
     (if ws_id s = js ''mangadex'' then js ''/title/'' @ i
      else if ws_id s = js ''nhentai'' then js ''/g/'' @ i @ js ''/''
      else js ''/ru/'' @ (if ws_category s = Books then js ''book'' else js ''manga'') @ js ''/'' @ i)"

definition publication_variant :: "reading_site \<Rightarrow> jstring \<Rightarrow> variant" where
  "publication_variant s i = (new_variant (ws_id s @ [58] @ i) (ws_id s) (ws_name s) [] (ws_url s @ publication_path s i)
     (if ws_category s = Books then Book else MangaPages))\<lparr>v_needsInspection := Some True\<rparr>"

definition readingPublication :: "url \<Rightarrow> variant option" where
  "readingPublication address =
     (if u_protocol address \<noteq> js ''https:'' \<or> u_username address \<noteq> [] \<or> u_password address \<noteq> [] \<or> u_port address \<noteq> []
        \<or> u_search address \<noteq> [] then None
      else case find (\<lambda>s. u_hostname address = ws_host s) readingProviders of
          None \<Rightarrow> None
        | Some s \<Rightarrow> map_option (publication_variant s) (publication_number (ws_id s) (u_pathname address)))"

section \<open>Canonical addresses\<close>

lemma title_number_build: "is_title_id i \<Longrightarrow> title_number (js ''/title/'' @ i) = Some i"
proof -
  assume u: "is_title_id i"
  then have "length i = 36" by (simp add: is_title_id_def)
  then have "take 36 (drop 7 (js ''/title/'' @ i)) = i" "drop 43 (js ''/title/'' @ i) = []" "take 7 (js ''/title/'' @ i) = js ''/title/''"
    by simp_all
  moreover have "map ascii_lower (js ''/title/'') = js ''/title/''" by code_simp
  ultimately show ?thesis using u by (simp add: title_number_def name_end_def slash_end_def del: js_simps)
qed

lemma lib_number_build:
  assumes "d \<noteq> []" "list_all is_digit d" "n \<noteq> []" "list_all is_slug_char n" "kind = js ''book/'' \<or> kind = js ''manga/''"
  shows "lib_number (js ''/ru/'' @ kind @ d @ js ''--'' @ n) = Some (d @ js ''--'' @ n)"
proof -
  have k: "lib_kind_end (kind @ s) = s" for s
    using assms(5) by (auto simp: lib_kind_end_def starts_with_def)
  have d: "takeWhile is_digit (d @ js ''--'' @ n) = d"
    using assms(2) by (auto simp: list_all_iff takeWhile_append is_digit_def in_range_def)
  have n: "takeWhile is_slug_char n = n"
    using assms(4) by (auto simp: list_all_iff takeWhile_eq_all_conv)
  show ?thesis
    using assms(1,3) k d unfolding lib_number_def Let_def by (simp add: n slash_end_def starts_with_def)
qed

lemma lib_number_Some:
  "lib_number path = Some i \<Longrightarrow> \<exists>d n. i = d @ js ''--'' @ n \<and> d \<noteq> [] \<and> list_all is_digit d \<and> n \<noteq> [] \<and> list_all is_slug_char n"
  by (auto simp: lib_number_def Let_def list_all_iff simp del: js_simps dest: set_takeWhileD split: if_splits)

lemma publication_number_again:
  assumes "publication_number (ws_id s) path = Some i"
  shows "publication_number (ws_id s) (publication_path s i) = Some i"
proof -
  consider (md) "ws_id s = js ''mangadex''" "title_number path = Some i"
    | (nh) "ws_id s = js ''nhentai''" "path_number ''/g/'' is_digit slash_end path = Some i"
    | (lib) "ws_id s = js ''mangalib'' \<or> ws_id s = js ''ranobelib''" "lib_number path = Some i"
    using assms by (auto simp: publication_number_def split: if_splits)
  then show ?thesis
  proof cases
    case md
    then have "is_title_id i" by (auto simp: title_number_def Let_def split: if_splits)
    then show ?thesis using md(1) title_number_build by (simp add: publication_number_def publication_path_def del: js_simps)
  next
    case nh
    from path_number_Some[OF nh(2)] have "path_number ''/g/'' is_digit slash_end (js ''/g/'' @ i @ js ''/'') = Some i"
      by (intro path_number_build) (simp_all add: slash_end_def is_digit_def in_range_def)
    then show ?thesis using nh(1) by (simp add: publication_number_def publication_path_def)
  next
    case lib
    from lib_number_Some[OF lib(2)] obtain d n where i: "i = d @ js ''--'' @ n" "d \<noteq> []" "list_all is_digit d" "n \<noteq> []" "list_all is_slug_char n"
      by blast
    have "lib_number (js ''/ru/'' @ kind @ i) = Some i" if "kind = js ''book/'' \<or> kind = js ''manga/''" for kind
      unfolding i(1) using i(2-5) that by (intro lib_number_build)
    from this[of "js ''book/''"] this[of "js ''manga/''"] show ?thesis
      using lib(1) by (auto simp: publication_number_def publication_path_def)
  qed
qed


text \<open>The pattern of \<open>Galleries\<close> reads exactly such a number.\<close>

lemma rx_match_times:
  "length s = n \<Longrightarrow> list_all p s \<Longrightarrow> rx_match (RTimes n (RCh p)) (pre, s @ rest, cs) = [(rev s @ pre, rest, cs)]"
proof (induction n arbitrary: s pre)
  case (Suc n)
  then obtain c t where s: "s = c # t" "p c" "length t = n" "list_all p t" by (cases s) auto
  show ?case using Suc.IH[OF s(3,4), of "c # pre"] s(1,2) by (cases n) simp_all
qed simp

lemma uuid_parts:
  assumes "is_title_id i"
  shows "\<exists>a b c d e. i = a @ 45 # b @ 45 # c @ 45 # d @ 45 # e \<and> length a = 8 \<and> length b = 4 \<and> length c = 4 \<and> length d = 4
    \<and> length e = 12 \<and> list_all is_hex a \<and> list_all is_hex b \<and> list_all is_hex c \<and> list_all is_hex d \<and> list_all is_hex e"
proof -
  have len: "length i = 36" using assms by (simp add: is_title_id_def)
  have at: "if k \<in> {8, 13, 18, 23} then i ! k = 45 else is_hex (i ! k)" if "k < 36" for k
    using assms that len by (auto simp: is_title_id_def list_all_length nth_enumerate_eq)
  have hex: "list_all is_hex (take m (drop k i))" if "\<And>j. k \<le> j \<Longrightarrow> j < k + m \<Longrightarrow> j \<notin> {8, 13, 18, 23}" "k + m \<le> 36" for k m
  proof -
    have "is_hex (i ! (k + j))" if "j < m" for j
      using at[of "k + j"] \<open>\<And>j. k \<le> j \<Longrightarrow> j < k + m \<Longrightarrow> j \<notin> {8, 13, 18, 23}\<close>[of "k + j"] \<open>k + m \<le> 36\<close> that by auto
    then show ?thesis using len that by (auto simp: list_all_length)
  qed
  have split: "drop k i = take m (drop k i) @ 45 # drop (Suc (k + m)) i" if "k + m \<in> {8, 13, 18, 23}" for k m
  proof -
    have "drop k i = take m (drop k i) @ drop (k + m) i" using append_take_drop_id[of m "drop k i"] by (simp add: add.commute)
    moreover have "drop (k + m) i = 45 # drop (Suc (k + m)) i"
      using that len at[of "k + m"] Cons_nth_drop_Suc[of "k + m" i] by auto
    ultimately show ?thesis by simp
  qed
  have "i = take 8 i @ 45 # take 4 (drop 9 i) @ 45 # take 4 (drop 14 i) @ 45 # take 4 (drop 19 i) @ 45 # take 12 (drop 24 i)"
    using split[of 0 8] split[of 9 4] split[of 14 4] split[of 19 4] len by simp
  moreover have "list_all is_hex (take 8 i)" "list_all is_hex (take 4 (drop 9 i))" "list_all is_hex (take 4 (drop 14 i))"
    "list_all is_hex (take 4 (drop 19 i))" "list_all is_hex (take 12 (drop 24 i))"
    using hex[of 0 8] hex[of 9 4] hex[of 14 4] hex[of 19 4] hex[of 24 12] by auto
  ultimately show ?thesis using len by (intro exI conjI) (assumption | simp)+
qed

lemma uuid_match:
  assumes "is_title_id i"
  shows "rx_match uuid_rx (pre, i @ rest, cs) = [(rev i @ pre, rest, cs)]"
proof -
  obtain a b c d e where i: "i = a @ 45 # b @ 45 # c @ 45 # d @ 45 # e"
      and len: "length a = 8" "length b = 4" "length c = 4" "length d = 4" "length e = 12"
      and hex: "list_all is_hex a" "list_all is_hex b" "list_all is_hex c" "list_all is_hex d" "list_all is_hex e"
    using uuid_parts[OF assms] by blast
  have three: "RTimes 3 r = RSeq r (RSeq r (RSeq r REmpty))" for r by (simp add: numeral_3_eq_3)
  have "i @ rest = a @ ([45] @ b @ [45] @ c @ [45] @ d @ [45] @ e @ rest)" by (simp add: i)
  then show ?thesis
    by (simp add: uuid_rx_def three i rx_match_times[OF len(1) hex(1)] rx_match_times[OF len(2) hex(2)]
      rx_match_times[OF len(3) hex(3)] rx_match_times[OF len(4) hex(4)] rx_match_times[OF len(5) hex(5)])
qed

lemma mangadex_id:
  assumes "is_title_id i"
  shows "\<exists>f. rx_exec publication_rx (js ''mangadex:'' @ i) = Some f \<and> cap f 1 = Some i \<and> cap f 2 = None"
proof -
  have g: "rx_match (RGroup 1 uuid_rx) (pre, i, cs) = [(rev i @ pre, [], (1, i) # cs)]" for pre cs
    using uuid_match[OF assms, of pre "[]" cs] by (simp add: rest_of_def)
  have lit: "rx_match (RLitI (js ''mangadex:'')) ([], js ''mangadex:'' @ i, []) = [(rev (js ''mangadex:''), i, [])]"
    by simp
  have nocolon: "rx_match (RSeqs [RLit [58], RGroup 2 language_rx, RLit [58], r]) (pre, [], cs) = []" for r pre cs
    by simp
  have "rx_match publication_rx ([], js ''mangadex:'' @ i, []) = [(rev i @ rev (js ''mangadex:''), [], [(1, i)])]"
    unfolding publication_rx_def RSeqs.simps
    using lit g[of "rev (js ''mangadex:'')" "[]"] nocolon by (simp add: ROpt_def rest_of_def del: js_simps RLitI.simps rx_match.simps(7))
  then show ?thesis by (simp add: rx_exec_def cap_def)
qed

definition plain_url :: "jstring \<Rightarrow> jstring \<Rightarrow> url" where
  "plain_url host path = \<lparr>u_protocol = js ''https:'', u_username = [], u_password = [], u_hostname = host, u_port = [],
     u_pathname = path, u_search = [], u_hash = []\<rparr>"

lemma readingPublication_Some:
  assumes "readingPublication address = Some v"
  shows "\<exists>s i. find (\<lambda>s. u_hostname address = ws_host s) readingProviders = Some s \<and> v = publication_variant s i
    \<and> publication_number (ws_id s) (u_pathname address) = Some i"
  using assms by (auto simp: readingPublication_def split: if_splits option.splits)

lemma publication_host:
  assumes "find (\<lambda>s. h = ws_host s) readingProviders = Some s"
  shows "h = ws_host s" "ws_id s = js ''mangadex'' \<Longrightarrow> ws_host s = js ''mangadex.org''"
    "ws_id s = js ''nhentai'' \<Longrightarrow> ws_host s = js ''nhentai.net''" "s \<in> set readingProviders"
proof -
  show h: "h = ws_host s" and s: "s \<in> set readingProviders" using assms by (auto simp: find_Some_iff)
  show "ws_host s = js ''mangadex.org''" if "ws_id s = js ''mangadex''"
    using s that by (auto simp: readingProviders_def ws_host_def)
  show "ws_host s = js ''nhentai.net''" if "ws_id s = js ''nhentai''"
    using s that by (auto simp: readingProviders_def ws_host_def)
qed

text \<open>
  C35: the link of a publication opens it: the address of the variant that a link gives is recognised
  as the same variant, and for MangaDex and nhentai the inspection of the variant accepts it
  and asks for the number in the link. The hypothesis is that the URL parser reads the canonical
  address, a scheme, a host and a path without marks, as these parts.
\<close>

theorem publication_opens:
  assumes "readingPublication address = Some v"
    and "\<And>path. v_url v = js ''https://'' @ u_hostname address @ path
      \<Longrightarrow> rt_url (so_runtime env) (v_url v) = Some (plain_url (u_hostname address) path)"
  shows "\<exists>u. rt_url (so_runtime env) (v_url v) = Some u \<and> readingPublication u = Some v
    \<and> (v_sourceId v = js ''mangadex'' \<longrightarrow> md_publication env v = Inr (slug v, None))
    \<and> (v_sourceId v = js ''nhentai'' \<longrightarrow> nh_publication env v = Inr (slug v))"
proof -
  obtain s i where found: "find (\<lambda>s. u_hostname address = ws_host s) readingProviders = Some s" and v: "v = publication_variant s i"
      and number: "publication_number (ws_id s) (u_pathname address) = Some i"
    using readingPublication_Some[OF assms(1)] by blast
  note host = publication_host[OF found]
  have "ws_url s = js ''https://'' @ ws_host s" using host(4) by (auto simp: readingProviders_def ws_host_def)
  then have url: "v_url v = js ''https://'' @ u_hostname address @ publication_path s i"
    by (simp add: v publication_variant_def new_variant_def host(1))
  let ?u = "plain_url (u_hostname address) (publication_path s i)"
  have parsed: "rt_url (so_runtime env) (v_url v) = Some ?u" using assms(2)[OF url] .
  have again: "readingPublication ?u = Some v"
    using found publication_number_again[OF number] by (simp add: readingPublication_def plain_url_def v)
  have slug: "slug v = i" by (simp add: slug_def v publication_variant_def new_variant_def)
  have md: "md_publication env v = Inr (i, None)" if m: "ws_id s = js ''mangadex''"
  proof -
    have "is_title_id i" using number m by (auto simp: publication_number_def title_number_def Let_def split: if_splits)
    from mangadex_id[OF this] obtain f where f: "rx_exec publication_rx (v_id v) = Some f" "cap f 1 = Some i" "cap f 2 = None"
      by (auto simp: v publication_variant_def new_variant_def m)
    have "u_hostname address = js ''mangadex.org''" using host(1) host(2)[OF m] by simp
    then show ?thesis
      using parsed f m by (simp add: md_publication_def plain_url_def url_origin_def publication_path_def del: js_simps)
  qed
  have nh: "nh_publication env v = Inr i" if n: "ws_id s = js ''nhentai''"
  proof -
    have digits: "all_digits i" using number n by (auto simp: publication_number_def all_digits_def dest!: path_number_Some)
    have "u_hostname address = js ''nhentai.net''" using host(1) host(3)[OF n] by simp
    then show ?thesis
      using parsed n digits
      by (simp add: nh_publication_def plain_url_def url_origin_def publication_path_def v publication_variant_def new_variant_def Let_def
          starts_with_def)
  qed
  have "v_sourceId v = ws_id s" by (simp add: v publication_variant_def new_variant_def)
  then show ?thesis using parsed again md nh slug by auto
qed

definition sample_gallery_link :: url where
  "sample_gallery_link = plain_url (js ''nhentai.net'') (js ''/g/177'')"

definition linked_variant :: variant where
  "linked_variant = publication_variant (readingProviders ! 4) (js ''177'')"

theorem publication_opens_witness:
  "\<exists>u. rt_url sample_runtime (v_url linked_variant) = Some u \<and> readingPublication u = Some linked_variant
    \<and> nh_publication sample_source linked_variant = Inr (js ''177'')"
proof -
  have found: "readingPublication sample_gallery_link = Some linked_variant" by code_simp
  have url: "v_url linked_variant = js ''https://'' @ u_hostname sample_gallery_link @ js ''/g/177/''" by code_simp
  have parsed: "rt_url (so_runtime sample_source) (v_url linked_variant) = Some (plain_url (u_hostname sample_gallery_link) path)"
    if "v_url linked_variant = js ''https://'' @ u_hostname sample_gallery_link @ path" for path
  proof -
    have "path = js ''/g/177/''" using that unfolding url by (simp del: js_simps)
    moreover have "rt_url (so_runtime sample_source) (v_url linked_variant) = Some (plain_url (u_hostname sample_gallery_link) (js ''/g/177/''))"
      by code_simp
    ultimately show ?thesis by simp
  qed
  have "v_sourceId linked_variant = js ''nhentai''" "slug linked_variant = js ''177''" by code_simp+
  moreover have "so_runtime sample_source = sample_runtime" by (simp add: sample_source_def)
  ultimately show ?thesis using publication_opens[OF found parsed] by (simp del: js_simps) blast
qed

end
