(* ===== verification/Chapters.thy ===== *)
theory Chapters
  imports Readings
begin

text \<open>
  The chapters of the reading providers: \<open>loadReadingChapter\<close> and \<open>richTextHtml\<close> of
  \<open>providers/reading.ts\<close>, \<open>loadAsianReadingChapter\<close> of \<open>providers/reading-asian.ts\<close>. Pages are
  trees of elements; the selectors of the code are predicates on tags and attributes.
\<close>

section \<open>Selectors\<close>

text \<open>The elements that match, those below a matching element, and the children of one, in document order.\<close>

type_synonym selector = "jstring \<Rightarrow> (jstring, jstring) jmap \<Rightarrow> bool"

fun select :: "selector \<Rightarrow> node list \<Rightarrow> node list" where
  "select P [] = []"
| "select P (TextNode t # ns) = select P ns"
| "select P (Element tag attrs body # ns) =
     (if P tag attrs then [Element tag attrs body] else []) @ select P body @ select P ns"

fun select_below :: "selector \<Rightarrow> selector \<Rightarrow> node list \<Rightarrow> node list" where
  "select_below P Q [] = []"
| "select_below P Q (TextNode t # ns) = select_below P Q ns"
| "select_below P Q (Element tag attrs body # ns) =
     (if P tag attrs then select Q body else select_below P Q body) @ select_below P Q ns"

fun select_children :: "selector \<Rightarrow> selector \<Rightarrow> bool \<Rightarrow> node list \<Rightarrow> node list" where
  "select_children P Q inn [] = []"
| "select_children P Q inn (TextNode t # ns) = select_children P Q inn ns"
| "select_children P Q inn (Element tag attrs body # ns) =
     (if inn \<and> Q tag attrs then [Element tag attrs body] else [])
       @ select_children P Q (P tag attrs) body @ select_children P Q inn ns"

text \<open>The class names of an element, separated by white space.\<close>

fun space_words :: "jstring \<Rightarrow> jstring list" where
  "space_words [] = [[]]"
| "space_words (c # s) = (if is_space c then [] # space_words s
     else case space_words s of [] \<Rightarrow> [[c]] | w # ws \<Rightarrow> (c # w) # ws)"

definition class_names :: "(jstring, jstring) jmap \<Rightarrow> jstring list" where
  "class_names attrs = filter (\<lambda>w. w \<noteq> []) (space_words (or_empty (jm_get attrs (js ''class''))))"

definition has_class :: "jstring \<Rightarrow> selector" where
  "has_class name tag attrs \<longleftrightarrow> name \<in> set (class_names attrs)"

definition is_tag :: "jstring \<Rightarrow> selector" where
  "is_tag name tag attrs \<longleftrightarrow> tag = name"

text \<open>\<open>$(selector).html()\<close>: the printed content of the first element, if there is one.\<close>

definition first_html :: "book_tools \<Rightarrow> node list \<Rightarrow> jstring option" where
  "first_html bt found = (case found of [] \<Rightarrow> None | n # ns \<Rightarrow> Some (bt_print bt (node_body n)))"

section \<open>richTextHtml\<close>

text \<open>\<open>===\<close> on values of JSON: two arrays or objects are never the same.\<close>

definition same_value :: "json option \<Rightarrow> json option \<Rightarrow> bool" where
  "same_value a b \<longleftrightarrow> (case a of Some (JArr xs) \<Rightarrow> False | Some (JObj m) \<Rightarrow> False | _ \<Rightarrow> a = b)"

definition rich_tags :: "(jstring, jstring) jmap" where
  "rich_tags = map (\<lambda>(n, t). (js n, js t)) [(''paragraph'', ''p''), (''heading'', ''h2''), (''hardBreak'', ''br''),
     (''horizontalRule'', ''hr''), (''blockquote'', ''blockquote''), (''bulletList'', ''ul''), (''orderedList'', ''ol''),
     (''listItem'', ''li'')]"

definition rich_tag :: "json \<Rightarrow> jstring" where
  "rich_tag n = (case Option.bind (json_text (field n ''type'')) (jm_get rich_tags) of None \<Rightarrow> js ''span'' | Some t \<Rightarrow> t)"

text \<open>The first attachment with the name or the identifier of an image; looking at a null attachment raises.\<close>

fun attachment :: "json list \<Rightarrow> json option \<Rightarrow> (error, json option) result" where
  "attachment [] wanted = Inr None"
| "attachment (a # as) wanted =
     (if a = JNull \<or> wanted = Some JNull \<or> wanted = None then Inl type_error
      else if same_value (field a ''name'') (optional wanted ''image'') \<or> same_value (field a ''id'') (optional wanted ''image'')
      then Inr (Some a) else attachment as wanted)"

definition rich_image :: "source_env \<Rightarrow> (error, json list) result \<Rightarrow> json \<Rightarrow> (error, node list) result" where
  "rich_image env attachments picture =
     bind_r attachments (\<lambda>as. bind_r (attachment as (Some picture)) (\<lambda>found.
       Inr (if truthy_json (optional found ''url'')
         then [Element (js ''img'') [(js ''src'', string_of env (optional found ''url''))] []] else [])))"

text \<open>The nodes of a text or of images; \<open>None\<close> for a node with content.\<close>

definition rich_leaf :: "source_env \<Rightarrow> (error, json list) result \<Rightarrow> json \<Rightarrow> (error, node list) result option" where
  "rich_leaf env attachments n =
     (if n = JNull then Some (Inl type_error)
      else if field n ''type'' = Some (JText (js ''text''))
      then Some (Inr [Element (js ''span'') [] [TextNode (case field n ''text'' of None \<Rightarrow> [] | Some JNull \<Rightarrow> [] | Some j \<Rightarrow> json_string env j)]])
      else if field n ''type'' = Some (JText (js ''image''))
      then Some (bind_r (array_or (optional (field n ''attrs'') ''images'')) (\<lambda>images.
        bind_r (map_r (rich_image env attachments) images) (\<lambda>nss. Inr (concat nss))))
      else None)"

lemma size_field: "field n k = Some j \<Longrightarrow> size j < size n"
proof -
  assume "field n k = Some j"
  then obtain m where m: "n = JObj m" "jm_get m (js k) = Some j" using field_Some by blast
  from m(2) have "(js k, j) \<in> set m" by (rule jm_get_in_set)
  then have "size j < Suc (size_list (size_prod (\<lambda>_. 0) size) m)"
    by (induction m) auto
  then show ?thesis using m(1) by simp
qed

lemma size_content: "array_or (field n k) = Inr xs \<Longrightarrow> size_list size xs \<le> size n"
proof (cases "field n k")
  case None
  assume "array_or (field n k) = Inr xs"
  then show ?thesis using None by (cases n) (simp_all add: array_or_def)
next
  case (Some j)
  assume "array_or (field n k) = Inr xs"
  then show ?thesis using Some size_field[OF Some] by (cases j) (auto simp: array_or_def)
qed

function rich_nodes :: "source_env \<Rightarrow> (error, json list) result \<Rightarrow> json list \<Rightarrow> (error, node list) result" where
  "rich_nodes env attachments [] = Inr []"
| "rich_nodes env attachments (n # ns) =
     (case rich_leaf env attachments n of
        Some r \<Rightarrow> (case r of Inl e \<Rightarrow> Inl e | Inr found \<Rightarrow>
          (case rich_nodes env attachments ns of Inl e \<Rightarrow> Inl e | Inr others \<Rightarrow> Inr (found @ others)))
      | None \<Rightarrow>
          (case array_or (field n ''content'') of
             Inl e \<Rightarrow> Inl e
           | Inr content \<Rightarrow>
               (case rich_nodes env attachments content of
                  Inl e \<Rightarrow> Inl e
                | Inr body \<Rightarrow>
                    (case rich_nodes env attachments ns of
                       Inl e \<Rightarrow> Inl e | Inr others \<Rightarrow> Inr (Element (rich_tag n) [] body # others)))))"
  by pat_completeness auto
termination
  by (relation "measure (\<lambda>(env, attachments, ns). size_list size ns)") (auto dest!: size_content)

definition richTextHtml :: "source_env \<Rightarrow> book_tools \<Rightarrow> json option \<Rightarrow> (error, json list) result \<Rightarrow> (error, jstring) result" where
  "richTextHtml env bt v attachments =
     bind_r (member v ''content'') (\<lambda>c. bind_r (array_or c) (\<lambda>nodes.
       bind_r (rich_nodes env attachments nodes) (\<lambda>ns. Inr (bt_print bt ns))))"

section \<open>Pages of chapters\<close>

definition foreign_chapter :: error where
  "foreign_chapter = Failed [1040, 1076, 1088, 1077, 1089, 32, 1075, 1083, 1072, 1074, 1099, 32, 1085, 1077, 32, 1087,
    1088, 1080, 1085, 1072, 1076, 1083, 1077, 1078, 1080, 1090, 32, 1074, 1099, 1073, 1088, 1072,
    1085, 1085, 1086, 1084, 1091, 32, 1080, 1089, 1090, 1086, 1095, 1085, 1080, 1082, 1091, 46]"

definition no_pages :: error where
  "no_pages = Failed [1042, 32, 1101, 1090, 1086, 1081, 32, 1075, 1083, 1072, 1074, 1077, 32, 1085, 1077, 1090, 32,
    1076, 1086, 1089, 1090, 1091, 1087, 1085, 1099, 1093, 32, 1089, 1090, 1088, 1072, 1085, 1080,
    1094, 46]"

definition no_text :: error where
  "no_text = Failed [1048, 1089, 1090, 1086, 1095, 1085, 1080, 1082, 32, 1085, 1077, 32, 1074, 1077, 1088, 1085,
    1091, 1083, 32, 1090, 1077, 1082, 1089, 1090, 32, 1075, 1083, 1072, 1074, 1099, 46]"

definition paid_chapter :: error where
  "paid_chapter = Failed [1069, 1090, 1072, 32, 1075, 1083, 1072, 1074, 1072, 32, 1087, 1083, 1072, 1090, 1085, 1072,
    1103, 46, 32, 1054, 1090, 1082, 1088, 1086, 1081, 1090, 1077, 32, 1077, 1105, 32, 1085, 1072,
    32, 1089, 1072, 1081, 1090, 1077, 32, 76, 105, 110, 111, 118, 101, 108, 46]"

definition no_public_text :: error where
  "no_public_text = Failed [1048, 1089, 1090, 1086, 1095, 1085, 1080, 1082, 32, 1085, 1077, 32, 1074, 1077, 1088, 1085,
    1091, 1083, 32, 1087, 1091, 1073, 1083, 1080, 1095, 1085, 1099, 1081, 32, 1090, 1077, 1082,
    1089, 1090, 32, 1075, 1083, 1072, 1074, 1099, 46, 32, 1054, 1090, 1082, 1088, 1086, 1081,
    1090, 1077, 32, 1077, 1105, 32, 1085, 1072, 32, 1089, 1072, 1081, 1090, 1077, 46]"

definition novel_page :: "jstring \<Rightarrow> jstring \<Rightarrow> reader_page" where
  "novel_page title html = \<lparr>p_id = [], p_documentId = [], p_title = title, p_kind = TextPage, p_html = Some html,
     p_images = None, p_direction = Some Ltr, p_cached = False\<rparr>"

definition chapter_html :: "reading_env \<Rightarrow> jstring \<Rightarrow> jstring \<Rightarrow> jstring" where
  "chapter_html env content base = sanitizeChapter (rn_runtime env) (rn_tools env) content (Some base) False"

definition chapter_hosts :: "(jstring, jstring) jmap" where
  "chapter_hosts = map (\<lambda>(s, h). (js s, js h)) [(''ranobehub'', ''ranobehub.org''), (''kakuyomu'', ''kakuyomu.jp''),
     (''syosetu'', ''ncode.syosetu.com''), (''ranobelib'', ''api.cdnlibs.org''), (''mangalib'', ''api.cdnlibs.org''),
     (''royalroad'', ''www.royalroad.com''), (''linovel'', ''www.linovel.net'')]"

text \<open>MangaLib: the server for downloads among the site's constants, and the addresses of the pages on it.\<close>

definition lib_headers :: "jstring \<Rightarrow> jstring \<Rightarrow> (jstring, jstring) jmap" where
  "lib_headers number site = [(js ''Accept'', js ''application/json''), (js ''Site-Id'', number), (js ''Referer'', site), (js ''Origin'', site)]"

fun download_server :: "json list \<Rightarrow> (error, json option) result" where
  "download_server [] = Inr None"
| "download_server (s # ss) =
     (if s = JNull then Inl type_error
      else if field s ''id'' \<noteq> Some (JText (js ''download'')) then download_server ss
      else case json_array (field s ''site_ids'') of
          None \<Rightarrow> Inl type_error
        | Some ids \<Rightarrow> if JNum 1 \<in> set ids then Inr (Some s) else download_server ss)"

definition image_servers :: "json \<Rightarrow> (error, json list) result" where
  "image_servers constants = bind_r (member (Some constants) ''data'') (\<lambda>d. bind_r (member d ''imageServers'') (\<lambda>s.
     case json_array s of None \<Rightarrow> Inl type_error | Some xs \<Rightarrow> Inr xs))"

definition web_address_rx :: rx where
  "web_address_rx = RSeqs [RBol, RLit (js ''http''), ROpt (RLit (js ''s'')), RLit (js '':'')]"

definition manga_image :: "source_env \<Rightarrow> json \<Rightarrow> json \<Rightarrow> (error, reader_image) result" where
  "manga_image env server entry =
     (if entry = JNull then Inl type_error
      else case json_text (field entry ''url'') of
          None \<Rightarrow> Inl type_error
        | Some u \<Rightarrow> Inr \<lparr>im_id = string_of env (field entry ''id''),
            im_url = (if rx_test web_address_rx u then u
              else string_of env (field server ''url'') @ [47] @ dropWhile (\<lambda>c. c = 47) u),
            im_width = json_number (field entry ''width''), im_height = json_number (field entry ''height'')\<rparr>)"

definition manga_page :: "source_env \<Rightarrow> jstring \<Rightarrow> json \<Rightarrow> json \<Rightarrow> (error, reader_page) result" where
  "manga_page env title answer constants =
     bind_r (image_servers constants) (\<lambda>servers. bind_r (download_server servers) (\<lambda>server.
       case server of
         None \<Rightarrow> Inl no_pages
       | Some s \<Rightarrow> bind_r (member (Some answer) ''data'') (\<lambda>d. bind_r (member d ''pages'') (\<lambda>pages.
           case json_array pages of
             None \<Rightarrow> Inl no_pages
           | Some entries \<Rightarrow> if entries = [] then Inl no_pages
               else bind_r (map_r (manga_image env s) entries) (\<lambda>images. Inr (gallery_page title images))))))"

definition lib_page :: "reading_env \<Rightarrow> jstring \<Rightarrow> jstring \<Rightarrow> json \<Rightarrow> (error, reader_page) result" where
  "lib_page env title site answer =
     bind_r (member (Some answer) ''data'') (\<lambda>d. bind_r (member d ''content'') (\<lambda>v.
     bind_r (case json_text v of Some t \<Rightarrow> Inr t
       | None \<Rightarrow> richTextHtml (rn_source env) (rn_tools env) v (array_or (optional d ''attachments''))) (\<lambda>content.
       Inr (novel_page title (chapter_html env content site)))))"

definition hub_chapter_page :: "reading_env \<Rightarrow> json \<Rightarrow> (error, reader_page) result" where
  "hub_chapter_page env answer =
     bind_r (member (Some answer) ''chapter'') (\<lambda>c. bind_r (member c ''title'') (\<lambda>title.
       case json_text (optional c ''html'') of
         None \<Rightarrow> Inl type_error
       | Some content \<Rightarrow> Inr (novel_page (or_empty (json_text title)) (chapter_html env content (js ''https://ranobehub.org'')))))"

text \<open>
  Royal Road hides its decoys by classes of the page's style sheets:
  \<open>/\.([A-Za-z_][\w-]*)\s*\{[^}]*display\s*:\s*none\s*[;}]/g\<close>. The elements of these
  classes are removed before the text is taken.
\<close>

definition name_start :: "nat \<Rightarrow> bool" where
  "name_start c \<longleftrightarrow> is_lower c \<or> is_upper c \<or> c = 95"

definition hidden_class_rx :: rx where
  "hidden_class_rx = RSeqs [RLit (js ''.''), RGroup 1 (RSeq (RCh name_start) (RStar True (RCh (\<lambda>c. is_word c \<or> c = 45)))),
     RSpaces, RLit (js ''{''), RStar True (RCh (\<lambda>c. c \<noteq> 125)), RLit (js ''display''), RSpaces, RLit (js '':''), RSpaces,
     RLit (js ''none''), RSpaces, RCh (\<lambda>c. c = 59 \<or> c = 125)]"

text \<open>\<open>matchAll\<close>: the matches one after the other; the text's length bounds them.\<close>

fun rx_all_from :: "nat \<Rightarrow> rx \<Rightarrow> jstring \<Rightarrow> jstring \<Rightarrow> rx_found list" where
  "rx_all_from 0 r pre s = []"
| "rx_all_from (Suc n) r pre s =
     (case rx_from r pre s of
        None \<Rightarrow> []
      | Some f \<Rightarrow>
          (let pre' = rev (f_text f) @ rev (take (f_index f - length pre) s) @ pre
           in f # (if f_text f = []
               then (case f_after f of [] \<Rightarrow> [] | c # rest \<Rightarrow> rx_all_from n r (c # pre') rest)
               else rx_all_from n r pre' (f_after f))))"

definition rx_all :: "rx \<Rightarrow> jstring \<Rightarrow> rx_found list" where
  "rx_all r s = rx_all_from (Suc (length s)) r [] s"

definition hidden_classes :: "node list \<Rightarrow> jstring list" where
  "hidden_classes doc = map (\<lambda>f. or_empty (cap f 1))
     (rx_all hidden_class_rx (join [10] (map (\<lambda>n. text_of [n]) (select (is_tag (js ''style'')) doc))))"

definition without_classes :: "jstring list \<Rightarrow> node list \<Rightarrow> node list" where
  "without_classes names doc = fold (\<lambda>c. prune (has_class c)) names doc"

text \<open>The content of a page by its source.\<close>

definition royal_content :: selector where
  "royal_content tag attrs \<longleftrightarrow> has_class (js ''chapter-content'') tag attrs \<or> has_class (js ''author-note-portlet'') tag attrs"

definition syosetu_text :: selector where
  "syosetu_text tag attrs \<longleftrightarrow> has_class (js ''p-novel__text'') tag attrs
     \<and> \<not> includes_str (or_empty (jm_get attrs (js ''class''))) (js ''p-novel__text--'')"

definition page_content :: "book_tools \<Rightarrow> jstring \<Rightarrow> node list \<Rightarrow> jstring option" where
  "page_content bt sourceId doc =
     (if sourceId = js ''kakuyomu'' then first_html bt (select (has_class (js ''widget-episodeBody'')) doc)
      else if sourceId = js ''royalroad''
      then Some (join (js ''<hr/>'') (map (\<lambda>n. bt_print bt (node_body n)) (select royal_content (without_classes (hidden_classes doc) doc))))
      else if sourceId = js ''linovel'' then first_html bt (select (has_class (js ''article-text'')) doc)
      else first_html bt (select_below (has_class (js ''p-novel__body'')) syosetu_text doc))"

definition novel_chapter :: "reading_env \<Rightarrow> jstring \<Rightarrow> jstring \<Rightarrow> jstring \<Rightarrow> (error, reader_page) result" where
  "novel_chapter env sourceId title href =
     bind_r (get_html env href) (\<lambda>text.
       let doc = bt_html (rn_tools env) text in
       if sourceId = js ''linovel'' \<and> select (has_class (js ''fufei-app-download-hint'')) doc \<noteq> [] then Inl paid_chapter
       else case page_content (rn_tools env) sourceId doc of
           None \<Rightarrow> Inl no_text
         | Some content \<Rightarrow> if trim content = [] then Inl no_text else Inr (novel_page title (chapter_html env content href)))"

section \<open>Chapters of jjwxc and Naver\<close>

definition book2_chapter_rx :: rx where
  "book2_chapter_rx = RSeqs [RBol, RLit (js ''/book2/''), RPlus RDigit, RLit [47], RPlus RDigit, REol]"

definition asian_supported :: "runtime \<Rightarrow> jstring \<Rightarrow> url \<Rightarrow> bool" where
  "asian_supported rt sourceId u \<longleftrightarrow>
     (if sourceId = js ''jjwxc''
      then u_hostname u = js ''wap.jjwxc.net'' \<and> rx_test book2_chapter_rx (u_pathname u) \<and> u_search u = []
      else sourceId = js ''naver'' \<and> u_hostname u = js ''novel.naver.com''
        \<and> u_pathname u \<in> {js ''/challenge/detail'', js ''/best/detail''}
        \<and> single_number rt ''novelId'' u \<noteq> None \<and> single_number rt ''volumeNo'' u \<noteq> None)"

definition loadAsianReadingChapter :: "reading_env \<Rightarrow> jstring \<Rightarrow> book_chapter \<Rightarrow> (error, reader_page) result" where
  "loadAsianReadingChapter env sourceId selected =
     (case rt_url (rn_runtime env) (c_url selected) of
        None \<Rightarrow> Inl (Failed (js ''Invalid URL''))
      | Some u \<Rightarrow>
          if \<not> asian_supported (rn_runtime env) sourceId u \<or> u_protocol u \<noteq> js ''https:'' \<or> u_username u \<noteq> []
            \<or> u_password u \<noteq> [] \<or> u_port u \<noteq> []
          then Inl foreign_chapter
          else bind_r (get_document env (rt_href (rn_runtime env) u) (if sourceId = js ''jjwxc'' then js ''gb18030'' else js ''utf-8'')) (\<lambda>text.
            let doc = bt_html (rn_tools env) text;
                found = (if sourceId = js ''jjwxc'' then select_children (has_class (js ''content_ul'')) (is_tag (js ''li'')) False doc
                  else select (has_class (js ''detail_view_content'')) doc)
            in case first_html (rn_tools env) found of
                None \<Rightarrow> Inl no_public_text
              | Some content \<Rightarrow> if trim content = [] then Inl no_public_text
                  else Inr (novel_page (c_title selected) (chapter_html env content (rt_href (rn_runtime env) u)))))"

section \<open>loadReadingChapter\<close>

definition own_chapter :: "jstring \<Rightarrow> url \<Rightarrow> bool" where
  "own_chapter sourceId u \<longleftrightarrow> u_protocol u = js ''https:'' \<and> jm_get chapter_hosts sourceId = Some (u_hostname u)"

definition lib_constants :: jstring where
  "lib_constants = js ''https://api.cdnlibs.org/api/constants?fields[]=imageServers''"

definition lib_chapter :: "reading_env \<Rightarrow> jstring \<Rightarrow> jstring \<Rightarrow> jstring \<Rightarrow> (error, reader_page) result" where
  "lib_chapter env sourceId title href =
     (let manga = (sourceId = js ''mangalib''); site = (if manga then js ''https://mangalib.me'' else js ''https://ranobelib.me'');
          headers = lib_headers (if manga then js ''1'' else js ''3'') site
      in bind_r (get_json env href headers) (\<lambda>answer.
        if manga then bind_r (get_json env lib_constants headers) (manga_page (rn_source env) title answer)
        else lib_page env title site answer))"

definition loadReadingChapter :: "reading_env \<Rightarrow> jstring \<Rightarrow> book_chapter \<Rightarrow> (error, reader_page) result" where
  "loadReadingChapter env sourceId selected =
     (if sourceId = js ''mangadex'' then loadMangaDexChapter (rn_source env) selected
      else if sourceId = js ''nhentai'' then loadNhentaiChapter (rn_source env) selected
      else if sourceId \<in> {js ''jjwxc'', js ''naver''} then loadAsianReadingChapter env sourceId selected
      else case rt_url (rn_runtime env) (c_url selected) of
          None \<Rightarrow> Inl (Failed (js ''Invalid URL''))
        | Some u \<Rightarrow>
            let href = rt_href (rn_runtime env) u in
            if \<not> own_chapter sourceId u then Inl foreign_chapter
            else if sourceId \<in> {js ''mangalib'', js ''ranobelib''} then lib_chapter env sourceId (c_title selected) href
            else if sourceId = js ''ranobehub'' then bind_r (get_json env href []) (hub_chapter_page env)
            else novel_chapter env sourceId (c_title selected) href)"

section \<open>Selections keep what holds of all elements\<close>

lemma all_elements_append [simp]: "all_elements P (xs @ ys) \<longleftrightarrow> all_elements P xs \<and> all_elements P ys"
  by (induction P xs rule: all_elements.induct) auto

lemma select_keeps: "all_elements P ns \<Longrightarrow> all_elements P (select Q ns)"
  by (induction Q ns rule: select.induct) auto

lemma elements_keeps: "all_elements P ns \<Longrightarrow> all_elements P (elements tags ns)"
  by (induction tags ns rule: elements.induct) auto

lemma body_keeps: "body_of ns = Some body \<Longrightarrow> all_elements P ns \<Longrightarrow> all_elements P body"
  using elements_keeps[of P ns "[js ''body'']"]
  by (auto simp: body_of_def node_body_def simp del: js_simps split: list.splits node.splits)

lemma without_classes_keeps: "all_elements P ns \<Longrightarrow> all_elements P (without_classes names ns)"
  by (induction names arbitrary: ns) (simp_all add: without_classes_def prune_keeps)

lemma without_classes_clean: "c \<in> set names \<Longrightarrow> all_elements (\<lambda>t a. \<not> has_class c t a) (without_classes names ns)"
proof (induction names arbitrary: ns)
  case (Cons d names)
  then show ?case
    using without_classes_keeps[OF prune_clean[of "has_class d" ns], of names] by (auto simp: without_classes_def)
qed simp

lemma all_elements_ball: "(\<And>c. c \<in> set cs \<Longrightarrow> all_elements (P c) ns) \<Longrightarrow> all_elements (\<lambda>t a. \<forall>c \<in> set cs. P c t a) ns"
  by (induction "\<lambda>t a. \<forall>c \<in> set cs. P c t a" ns rule: all_elements.induct) auto

section \<open>What a chapter may show\<close>

text \<open>The markup of a page: the print of a tree without active content whose links leave the device's files alone.\<close>

definition safe_element :: "runtime \<Rightarrow> selector" where
  "safe_element rt tag attrs \<longleftrightarrow> tag \<notin> set forbidden_tags \<and> \<not> jm_has attrs (js ''hidden'')
     \<and> attributes_safe attrs \<and> link_safe rt False tag attrs"

definition safe_markup :: "reading_env \<Rightarrow> jstring \<Rightarrow> bool" where
  "safe_markup env h \<longleftrightarrow> h = [] \<or> (\<exists>ns. h = bt_print (rn_tools env) ns \<and> all_elements (safe_element (rn_runtime env)) ns)"

lemma chapter_html_safe: "safe_markup env (chapter_html env content base)"
proof (cases "body_of (sanitize_nodes (rn_runtime env) (Some base) False (bt_html (rn_tools env) content))")
  case None
  then show ?thesis by (simp add: chapter_html_def sanitizeChapter_def safe_markup_def)
next
  case (Some ns)
  have "all_elements (safe_element (rn_runtime env)) (sanitize_nodes (rn_runtime env) (Some base) False (bt_html (rn_tools env) content))"
    using sanitized_elements by (rule all_elements_mono[rotated]) (simp add: safe_element_def)
  from body_keeps[OF Some this] show ?thesis
    using Some by (auto simp: chapter_html_def sanitizeChapter_def safe_markup_def)
qed

definition safe_page :: "reading_env \<Rightarrow> reader_page \<Rightarrow> bool" where
  "safe_page env p \<longleftrightarrow> (case p_html p of None \<Rightarrow> True | Some h \<Rightarrow> safe_markup env h)"

lemma novel_page_safe: "safe_page env (novel_page title (chapter_html env content base))"
  by (simp add: safe_page_def novel_page_def chapter_html_safe)

lemma gallery_page_safe: "safe_page env (gallery_page title images)"
  by (simp add: safe_page_def gallery_page_def)

lemma loadMangaDexChapter_page: "loadMangaDexChapter s ch = Inr p \<Longrightarrow> \<exists>images. p = gallery_page (c_title ch) images"
  by (auto simp: loadMangaDexChapter_def bind_r_Inr simp del: js_simps split: option.splits if_splits)

lemma loadNhentaiChapter_page: "loadNhentaiChapter s ch = Inr p \<Longrightarrow> \<exists>images. p = gallery_page (c_title ch) images"
  by (auto simp: loadNhentaiChapter_def bind_r_Inr Let_def simp del: js_simps split: option.splits if_splits)

lemma manga_page_page: "manga_page s title answer constants = Inr p \<Longrightarrow> \<exists>images. p = gallery_page title images"
  by (auto simp: manga_page_def bind_r_Inr simp del: js_simps split: option.splits if_splits)

lemma lib_chapter_page:
  "lib_chapter env sourceId title href = Inr p \<Longrightarrow> (\<exists>images. p = gallery_page title images) \<or> (\<exists>c b. p = novel_page title (chapter_html env c b))"
  by (auto simp: lib_chapter_def lib_page_def Let_def bind_r_Inr simp del: js_simps dest: manga_page_page split: if_splits)

lemma hub_chapter_page_page: "hub_chapter_page env answer = Inr p \<Longrightarrow> \<exists>t c b. p = novel_page t (chapter_html env c b)"
  by (auto simp: hub_chapter_page_def bind_r_Inr simp del: js_simps split: option.splits)

lemma novel_chapter_page: "novel_chapter env sourceId title href = Inr p \<Longrightarrow> \<exists>c. p = novel_page title (chapter_html env c href)"
  by (auto simp: novel_chapter_def Let_def bind_r_Inr simp del: js_simps split: option.splits if_splits)

lemma asian_page: "loadAsianReadingChapter env sourceId ch = Inr p \<Longrightarrow> \<exists>t c b. p = novel_page t (chapter_html env c b)"
  by (auto simp: loadAsianReadingChapter_def Let_def bind_r_Inr simp del: js_simps split: option.splits if_splits)

text \<open>
  Whatever a source answers, the page of a chapter holds pictures or markup without active
  content: no script, form, frame or media element, no event handler or style, and only links
  to the web.
\<close>

theorem chapter_markup_safe:
  assumes "loadReadingChapter env sourceId ch = Inr p"
  shows "safe_page env p"
proof -
  consider images title where "p = gallery_page title images" | title c b where "p = novel_page title (chapter_html env c b)"
    using assms loadMangaDexChapter_page loadNhentaiChapter_page asian_page lib_chapter_page hub_chapter_page_page novel_chapter_page
    by (auto simp: loadReadingChapter_def Let_def bind_r_Inr simp del: js_simps split: if_splits option.splits) metis+
  then show ?thesis by cases (simp_all add: novel_page_safe gallery_page_safe)
qed

text \<open>
  Royal Road: no element of a class that the page's style sheets hide is in the text that is shown.
\<close>

theorem royal_decoys_removed:
  assumes "loadReadingChapter env (js ''royalroad'') ch = Inr p"
  shows "\<exists>href text ns. get_html env href = Inr text
    \<and> p_html p = Some (chapter_html env (join (js ''<hr/>'') (map (\<lambda>n. bt_print (rn_tools env) (node_body n)) ns)) href)
    \<and> all_elements (\<lambda>t a. \<forall>c \<in> set (hidden_classes (bt_html (rn_tools env) text)). \<not> has_class c t a) ns"
proof -
  obtain u where u: "rt_url (rn_runtime env) (c_url ch) = Some u"
      and p: "novel_chapter env (js ''royalroad'') (c_title ch) (rt_href (rn_runtime env) u) = Inr p"
    using assms by (auto simp: loadReadingChapter_def Let_def split: option.splits if_splits)
  let ?href = "rt_href (rn_runtime env) u"
  obtain page where page: "get_html env ?href = Inr page" using p by (auto simp: novel_chapter_def bind_r_Inr)
  let ?doc = "bt_html (rn_tools env) page"
  let ?ns = "select royal_content (without_classes (hidden_classes ?doc) ?doc)"
  have "p_html p = Some (chapter_html env (join (js ''<hr/>'') (map (\<lambda>n. bt_print (rn_tools env) (node_body n)) ?ns)) ?href)"
    using p page by (auto simp: novel_chapter_def Let_def page_content_def novel_page_def split: if_splits)
  moreover have "all_elements (\<lambda>t a. \<forall>c \<in> set (hidden_classes ?doc). \<not> has_class c t a) ?ns"
    by (intro all_elements_ball select_keeps without_classes_clean)
  ultimately show ?thesis using page by blast
qed

section \<open>Where a chapter comes from\<close>

text \<open>The hosts of the chapters of each source, and the requests that loading a chapter may make.\<close>

definition source_hosts :: "(jstring \<times> jstring) list" where
  "source_hosts = map (\<lambda>(s, h). (js s, js h)) [(''ranobehub'', ''ranobehub.org''), (''kakuyomu'', ''kakuyomu.jp''),
     (''syosetu'', ''ncode.syosetu.com''), (''ranobelib'', ''api.cdnlibs.org''), (''mangalib'', ''api.cdnlibs.org''),
     (''royalroad'', ''www.royalroad.com''), (''linovel'', ''www.linovel.net''), (''jjwxc'', ''wap.jjwxc.net''),
     (''naver'', ''novel.naver.com'')]"

definition source_request :: "runtime \<Rightarrow> jstring \<Rightarrow> jstring \<Rightarrow> bool" where
  "source_request rt sourceId a \<longleftrightarrow>
     sourceId = js ''nhentai'' \<and> starts_with a (js ''https://nhentai.net/api/v2/'')
   \<or> sourceId = js ''mangadex'' \<and> starts_with a (js ''https://api.mangadex.org/at-home/server/'')
   \<or> sourceId = js ''mangalib'' \<and> a = js ''https://api.cdnlibs.org/api/constants?fields[]=imageServers''
   \<or> (\<exists>u. a = rt_href rt u \<and> u_protocol u = js ''https:'' \<and> (sourceId, u_hostname u) \<in> set source_hosts)"

lemma own_chapter_host: "own_chapter sourceId u \<Longrightarrow> u_protocol u = js ''https:'' \<and> (sourceId, u_hostname u) \<in> set source_hosts"
  by (auto simp: own_chapter_def chapter_hosts_def source_hosts_def simp del: js_simps split: if_splits)

lemma asian_host: "asian_supported rt sourceId u \<Longrightarrow> (sourceId, u_hostname u) \<in> set source_hosts"
  by (auto simp: asian_supported_def source_hosts_def simp del: js_simps split: if_splits)

text \<open>A provider's own arithmetic does not see the network.\<close>

lemma json_string_network [simp]: "json_string (s\<lparr>so_fetch := g\<rparr>) = json_string s"
proof
  show "json_string (s\<lparr>so_fetch := g\<rparr>) j = json_string s j" for j
    by (induction s j rule: json_string.induct) (auto simp: number_text_def intro!: arg_cong[where f = "join [44]"])
qed

lemma string_of_network [simp]: "string_of (s\<lparr>so_fetch := g\<rparr>) = string_of s"
  by (intro ext) (simp add: string_of_def split: option.splits)

lemma mediaServer_network [simp]: "mediaServer (s\<lparr>so_fetch := g\<rparr>) = mediaServer s"
  by (intro ext) (simp add: mediaServer_def cong: option.case_cong if_cong)

lemma nh_server_network [simp]: "nh_server (s\<lparr>so_fetch := g\<rparr>) = nh_server s"
  by (intro ext) (simp add: nh_server_def)

lemma nh_json_network: "g (nh_api @ path) = so_fetch s (nh_api @ path) \<Longrightarrow> nh_json (s\<lparr>so_fetch := g\<rparr>) path = nh_json s path"
  by (simp add: nh_json_def)

lemma md_json_network: "g (md_api @ path) = so_fetch s (md_api @ path) \<Longrightarrow> md_json (s\<lparr>so_fetch := g\<rparr>) path = md_json s path"
  by (simp add: md_json_def)

lemma nh_request: "source_request rt (js ''nhentai'') (nh_api @ 47 # path)"
proof -
  have "nh_api @ 47 # path = js ''https://nhentai.net/api/v2/'' @ path" by (simp add: nh_api_def)
  then have "starts_with (nh_api @ 47 # path) (js ''https://nhentai.net/api/v2/'')" by (simp only: starts_with_append)
  then show ?thesis unfolding source_request_def by blast
qed

lemma md_request: "source_request rt (js ''mangadex'') (md_api @ js ''/at-home/server/'' @ i)"
proof -
  have "md_api @ js ''/at-home/server/'' @ i = js ''https://api.mangadex.org/at-home/server/'' @ i" by (simp add: md_api_def)
  then have "starts_with (md_api @ js ''/at-home/server/'' @ i) (js ''https://api.mangadex.org/at-home/server/'')"
    by (simp only: starts_with_append)
  then show ?thesis unfolding source_request_def by blast
qed

lemma loadNhentaiChapter_network:
  assumes "\<And>path. g (nh_api @ 47 # path) = so_fetch s (nh_api @ 47 # path)"
  shows "loadNhentaiChapter (s\<lparr>so_fetch := g\<rparr>) ch = loadNhentaiChapter s ch"
proof -
  have "nh_json (s\<lparr>so_fetch := g\<rparr>) (js ''/galleries/'' @ i) = nh_json s (js ''/galleries/'' @ i)"
    "nh_json (s\<lparr>so_fetch := g\<rparr>) (js ''/cdn'') = nh_json s (js ''/cdn'')" for i
    by (rule nh_json_network, use assms in simp)+
  then show ?thesis
    by (simp add: loadNhentaiChapter_def del: js_simps cong: option.case_cong if_cong)
qed

lemma loadMangaDexChapter_network:
  assumes "\<And>i. g (md_api @ js ''/at-home/server/'' @ i) = so_fetch s (md_api @ js ''/at-home/server/'' @ i)"
  shows "loadMangaDexChapter (s\<lparr>so_fetch := g\<rparr>) ch = loadMangaDexChapter s ch"
  using md_json_network[of g "js ''/at-home/server/'' @ _", OF assms]
  by (simp add: loadMangaDexChapter_def del: js_simps cong: option.case_cong if_cong)

text \<open>The environment with another network.\<close>

definition with_network :: "reading_env \<Rightarrow> (jstring \<Rightarrow> (error, nat \<times> json option) result)
    \<Rightarrow> (jstring \<Rightarrow> (jstring, jstring) jmap \<Rightarrow> (error, nat \<times> json option) result)
    \<Rightarrow> (jstring \<Rightarrow> (error, nat \<times> nat list) result) \<Rightarrow> reading_env" where
  "with_network env g f b = env\<lparr>rn_source := (rn_source env)\<lparr>so_fetch := g\<rparr>, rn_fetch := f, rn_bytes := b\<rparr>"

lemma with_network_simps [simp]:
  "rn_source (with_network env g f b) = (rn_source env)\<lparr>so_fetch := g\<rparr>" "rn_tools (with_network env g f b) = rn_tools env"
  "rn_decode (with_network env g f b) = rn_decode env" "rn_utf8 (with_network env g f b) = rn_utf8 env"
  "rn_fetch (with_network env g f b) = f" "rn_bytes (with_network env g f b) = b"
  by (simp_all add: with_network_def)

lemma chapter_html_network [simp]: "chapter_html (with_network env g f b) = chapter_html env"
  by (intro ext) (simp add: chapter_html_def)

lemma get_json_network: "f a h = rn_fetch env a h \<Longrightarrow> get_json (with_network env g f b) a h = get_json env a h"
  by (simp add: get_json_def)

lemma get_html_network: "b a = rn_bytes env a \<Longrightarrow> get_html (with_network env g f b) a = get_html env a"
  by (simp add: get_html_def cong: if_cong)

lemma get_document_network: "b a = rn_bytes env a \<Longrightarrow> get_document (with_network env g f b) a e = get_document env a e"
  by (simp add: get_document_def cong: if_cong)

lemma rich_image_network [simp]: "rich_image (s\<lparr>so_fetch := g\<rparr>) = rich_image s"
  by (intro ext) (simp add: rich_image_def cong: if_cong)

lemma rich_leaf_network [simp]: "rich_leaf (s\<lparr>so_fetch := g\<rparr>) = rich_leaf s"
  by (intro ext) (simp add: rich_leaf_def cong: if_cong option.case_cong json.case_cong)

lemma rich_nodes_network [simp]: "rich_nodes (s\<lparr>so_fetch := g\<rparr>) attachments ns = rich_nodes s attachments ns"
  by (induction s attachments ns rule: rich_nodes.induct) (simp_all split: option.splits sum.splits)

lemma richTextHtml_network [simp]: "richTextHtml (s\<lparr>so_fetch := g\<rparr>) = richTextHtml s"
  by (intro ext) (simp add: richTextHtml_def)

lemma manga_image_network [simp]: "manga_image (s\<lparr>so_fetch := g\<rparr>) = manga_image s"
  by (intro ext) (simp add: manga_image_def cong: if_cong option.case_cong)

lemma lib_page_network [simp]: "lib_page (with_network env g f b) = lib_page env"
  by (intro ext) (simp add: lib_page_def cong: option.case_cong)

lemma manga_page_network [simp]: "manga_page (s\<lparr>so_fetch := g\<rparr>) = manga_page s"
  by (intro ext) (simp add: manga_page_def cong: option.case_cong if_cong)

lemma hub_chapter_page_network [simp]: "hub_chapter_page (with_network env g f b) = hub_chapter_page env"
  by (intro ext) (simp add: hub_chapter_page_def cong: option.case_cong)

text \<open>The requests of a chapter at a checked address are requests of its source.\<close>

lemma source_request_own:
  assumes "u_protocol u = js ''https:''" "(sourceId, u_hostname u) \<in> set source_hosts"
  shows "source_request rt sourceId (rt_href rt u)"
  using assms unfolding source_request_def by blast

lemma source_request_constants: "source_request rt (js ''mangalib'') lib_constants"
  unfolding source_request_def lib_constants_def by blast

lemma loadAsianReadingChapter_confined:
  assumes "\<And>a. source_request (rn_runtime env) sourceId a \<Longrightarrow> b a = rn_bytes env a"
  shows "loadAsianReadingChapter (with_network env g f b) sourceId ch = loadAsianReadingChapter env sourceId ch"
proof (cases "rt_url (rn_runtime env) (c_url ch)")
  case (Some u)
  show ?thesis
  proof (cases "asian_supported (rn_runtime env) sourceId u \<and> u_protocol u = js ''https:''")
    case True
    then have "get_document (with_network env g f b) (rt_href (rn_runtime env) u) e = get_document env (rt_href (rn_runtime env) u) e" for e
      using source_request_own[OF _ asian_host] assms by (intro get_document_network) blast
    with True Some show ?thesis
      by (simp add: loadAsianReadingChapter_def Let_def del: js_simps cong: option.case_cong if_cong)
  next
    case False
    then have "\<not> asian_supported (rn_runtime env) sourceId u \<or> u_protocol u \<noteq> js ''https:''" by blast
    with Some show ?thesis by (auto simp: loadAsianReadingChapter_def simp del: js_simps)
  qed
qed (simp add: loadAsianReadingChapter_def)

lemma own_chapter_requests:
  assumes "\<And>a headers. source_request (rn_runtime env) sourceId a \<Longrightarrow> f a headers = rn_fetch env a headers"
    and "\<And>a. source_request (rn_runtime env) sourceId a \<Longrightarrow> b a = rn_bytes env a" and "own_chapter sourceId u"
  shows "get_json (with_network env g f b) (rt_href (rn_runtime env) u) h = get_json env (rt_href (rn_runtime env) u) h"
    and "get_html (with_network env g f b) (rt_href (rn_runtime env) u) = get_html env (rt_href (rn_runtime env) u)"
  using source_request_own own_chapter_host[OF assms(3)] assms(1,2) by (auto intro!: get_json_network get_html_network)

lemma lib_chapter_confined:
  assumes "\<And>a headers. source_request (rn_runtime env) sourceId a \<Longrightarrow> f a headers = rn_fetch env a headers"
    and "\<And>a. source_request (rn_runtime env) sourceId a \<Longrightarrow> b a = rn_bytes env a" and "own_chapter sourceId u"
  shows "lib_chapter (with_network env g f b) sourceId t (rt_href (rn_runtime env) u)
    = lib_chapter env sourceId t (rt_href (rn_runtime env) u)"
proof -
  have "get_json (with_network env g f b) lib_constants h = get_json env lib_constants h" if "sourceId = js ''mangalib''" for h
    using source_request_constants assms(1) that by (intro get_json_network) blast
  with own_chapter_requests(1)[OF assms] show ?thesis by (simp add: lib_chapter_def Let_def del: js_simps cong: if_cong)
qed

lemma novel_chapter_confined:
  assumes "\<And>a headers. source_request (rn_runtime env) sourceId a \<Longrightarrow> f a headers = rn_fetch env a headers"
    and "\<And>a. source_request (rn_runtime env) sourceId a \<Longrightarrow> b a = rn_bytes env a" and "own_chapter sourceId u"
  shows "novel_chapter (with_network env g f b) sourceId t (rt_href (rn_runtime env) u)
    = novel_chapter env sourceId t (rt_href (rn_runtime env) u)"
  using own_chapter_requests(2)[OF assms] by (simp add: novel_chapter_def Let_def del: js_simps cong: if_cong option.case_cong)

text \<open>
  C18: loading a chapter asks only the hosts of its source: two networks that agree on the requests
  of the source give the same page, wherever the chapter's address points.
\<close>

theorem chapter_confined:
  assumes "\<And>a. source_request (rn_runtime env) sourceId a \<Longrightarrow> g a = so_fetch (rn_source env) a"
    and "\<And>a headers. source_request (rn_runtime env) sourceId a \<Longrightarrow> f a headers = rn_fetch env a headers"
    and "\<And>a. source_request (rn_runtime env) sourceId a \<Longrightarrow> b a = rn_bytes env a"
  shows "loadReadingChapter (with_network env g f b) sourceId ch = loadReadingChapter env sourceId ch"
proof -
  have md: "loadMangaDexChapter ((rn_source env)\<lparr>so_fetch := g\<rparr>) ch = loadMangaDexChapter (rn_source env) ch"
    if "sourceId = js ''mangadex''"
    using assms(1) md_request that by (intro loadMangaDexChapter_network) blast
  have nh: "loadNhentaiChapter ((rn_source env)\<lparr>so_fetch := g\<rparr>) ch = loadNhentaiChapter (rn_source env) ch"
    if "sourceId = js ''nhentai''"
    using assms(1) nh_request that by (intro loadNhentaiChapter_network) blast
  note others = md nh loadAsianReadingChapter_confined[OF assms(3)]
  show ?thesis
  proof (cases "rt_url (rn_runtime env) (c_url ch)")
    case None
    then show ?thesis using others by (simp add: loadReadingChapter_def del: js_simps cong: if_cong)
  next
    case (Some u)
    show ?thesis
    proof (cases "own_chapter sourceId u")
      case True
      note own = own_chapter_requests[OF assms(2,3) True] lib_chapter_confined[OF assms(2,3) True]
        novel_chapter_confined[OF assms(2,3) True]
      show ?thesis using Some True others own by (simp add: loadReadingChapter_def Let_def del: js_simps cong: if_cong)
    next
      case False
      then show ?thesis using Some others by (simp add: loadReadingChapter_def Let_def del: js_simps cong: if_cong)
    qed
  qed
qed

section \<open>Samples\<close>

text \<open>A page of Royal Road with a hidden decoy; the printer writes the text of a tree.\<close>

definition sample_royal :: "node list" where
  "sample_royal = [Element (js ''body'') [] [
     Element (js ''style'') [] [TextNode (js ''.x1 { display: none; }'')],
     Element (js ''div'') [(js ''class'', js ''chapter-content'')] [
       Element (js ''p'') [(js ''class'', js ''x1'')] [TextNode (js ''decoy'')],
       Element (js ''p'') [] [TextNode (js ''story'')]]]]"

definition sample_reading :: reading_env where
  "sample_reading = \<lparr>rn_source = sample_source,
     rn_tools = sample_tools\<lparr>bt_html := (\<lambda>t. if t = js ''page'' then sample_royal else [Element (js ''body'') [] [TextNode t]]), bt_print := text_of\<rparr>,
     rn_scripts = \<lparr>sc_kana = (\<lambda>_. False), sc_han = (\<lambda>_. False), sc_hangul = (\<lambda>_. False)\<rparr>,
     rn_fetch = (\<lambda>u h. Inr (200, Some (json_object [(''total'', JNum 2), (''items'', JArr [json_object [(''id'', JNum 7), (''title'', JText (js ''A''))],
        json_object [(''id'', JNum 8), (''title'', JText (js ''B''))]])]))),
     rn_bytes = (\<lambda>u. Inr (200, js ''page'')), rn_utf8 = (\<lambda>b. b), rn_decode = (\<lambda>e b. Some b), rn_nfkc = (\<lambda>s. s), rn_gb18030 = (\<lambda>s. s), rn_parse = (\<lambda>s. None)\<rparr>"

definition royal_chapter :: book_chapter where
  "royal_chapter = \<lparr>c_id = [], c_title = js ''One'', c_url = js ''https://www.royalroad.com/fiction/1'', c_number = None, c_volume = None\<rparr>"

lemma royal_loaded: "loadReadingChapter sample_reading (js ''royalroad'') royal_chapter = Inr (novel_page (js ''One'') (js ''story''))"
  by code_simp

theorem chapter_markup_safe_witness:
  "loadReadingChapter sample_reading (js ''royalroad'') royal_chapter = Inr (novel_page (js ''One'') (js ''story''))
    \<and> safe_page sample_reading (novel_page (js ''One'') (js ''story''))"
  using chapter_markup_safe[OF royal_loaded] royal_loaded by simp

theorem royal_decoys_removed_witness:
  "\<exists>href text ns. get_html sample_reading href = Inr text
    \<and> Some (js ''story'') = Some (chapter_html sample_reading (join (js ''<hr/>'') (map (\<lambda>n. bt_print (rn_tools sample_reading) (node_body n)) ns)) href)
    \<and> hidden_classes sample_royal = [js ''x1'']"
proof -
  have "hidden_classes sample_royal = [js ''x1'']" by code_simp
  moreover have "p_html (novel_page (js ''One'') (js ''story'')) = Some (js ''story'')" by (simp add: novel_page_def)
  ultimately show ?thesis using royal_decoys_removed[OF royal_loaded] by (simp del: js_simps) blast
qed

theorem chapter_confined_witness:
  "loadReadingChapter (with_network sample_reading
      (\<lambda>a. if source_request sample_runtime (js ''royalroad'') a then so_fetch sample_source a else Inl Aborted)
      (\<lambda>a h. if source_request sample_runtime (js ''royalroad'') a then rn_fetch sample_reading a h else Inl Aborted)
      (\<lambda>a. if source_request sample_runtime (js ''royalroad'') a then rn_bytes sample_reading a else Inl Aborted))
    (js ''royalroad'') royal_chapter = Inr (novel_page (js ''One'') (js ''story''))"
proof -
  have "rn_runtime sample_reading = sample_runtime" "rn_source sample_reading = sample_source"
    by (simp_all add: sample_reading_def sample_source_def)
  then show ?thesis unfolding royal_loaded[symmetric] by (intro chapter_confined) (simp_all del: js_simps)
qed

end
