(* ===== verification/Aggregators.thy ===== *)
theory Aggregators
  imports Chapters
begin

text \<open>
  The catalogs of translations in \<open>providers/reading.ts\<close>: RanobeHub with its list of chapters
  in pages, and \<open>libGroup\<close>, the two sites RanobeLib and MangaLib, whose publications are the
  branches of a book's translation.
\<close>

section \<open>RanobeHub\<close>

text \<open>
  The list of chapters comes in pages of 250. The site names the total with every page, and may
  raise it every time: the loop ends when a page's total is reached.
\<close>

definition hub_page :: "jstring \<Rightarrow> nat \<Rightarrow> jstring" where
  "hub_page book offset = js ''https://ranobehub.org/api/books/'' @ book @ js ''/chapters?limit=250&offset='' @ to_dec offset"

definition hub_chapter :: "reading_env \<Rightarrow> nat \<Rightarrow> json \<Rightarrow> book_chapter" where
  "hub_chapter env k entry =
     (chapter_at (rn_runtime env) (string_of (rn_source env) (field entry ''title''))
        (js ''https://ranobehub.org/api/chapters/'' @ string_of (rn_source env) (field entry ''id'')) (Some (of_nat k)))
       \<lparr>c_volume := (case json_number (field entry ''volume'') of None \<Rightarrow> None | Some x \<Rightarrow> if x > 0 then Some x else None)\<rparr>"

definition add_hub_chapters :: "reading_env \<Rightarrow> json list \<Rightarrow> book_chapter list \<Rightarrow> book_chapter list" where
  "add_hub_chapters env entries chapters = fold (\<lambda>e cs. cs @ [hub_chapter env (Suc (length cs)) e]) entries chapters"

partial_function (option) hub_loop ::
  "reading_env \<Rightarrow> jstring \<Rightarrow> nat \<Rightarrow> rat option \<Rightarrow> book_chapter list \<Rightarrow> (error, book_chapter list) result option" where
  [code]: "hub_loop env book offset t chapters =
     (if \<not> below_total offset t then Some (Inr chapters)
      else case get_json env (hub_page book offset) [] of
          Inl e \<Rightarrow> Some (Inl e)
        | Inr answer \<Rightarrow>
            (case array_or (field answer ''items'') of
               Inl e \<Rightarrow> Some (Inl e)
             | Inr entries \<Rightarrow>
                 (let chapters' = add_hub_chapters env entries chapters in
                  if length chapters' > 30000 then Some (Inl too_many_chapters)
                  else hub_loop env book (offset + 250) (json_number (field answer ''total'')) chapters')))"

definition hub_name :: jstring where
  "hub_name = js ''RanobeHub''"

definition hub_site :: jstring where
  "hub_site = js ''https://ranobehub.org''"

definition hub_found :: "reading_env \<Rightarrow> json \<Rightarrow> (error, work) result" where
  "hub_found env book =
     (if book = JNull then Inl type_error
      else let i = string_of (rn_source env) (field book ''id'') @ js ''-'' @ string_of (rn_source env) (field book ''slug'');
               title = first_truthy (field book ''title'') (field book ''originalTitle'')
        in bind_r (cover_at env (json_text (field book ''posterUrl'')) hub_site) (\<lambda>cover.
          Inr (item (js ''ranobehub'') hub_name (or_empty (json_text title)) (hub_site @ js ''/ranobe/'' @ i) i Books cover
            (json_text (field book ''description'')) (List.map_filter json_text [field book ''originalTitle'']))))"

definition hub_search :: "reading_env \<Rightarrow> jstring \<Rightarrow> (error, work list) result" where
  "hub_search env query =
     bind_r (get_json env (hub_site @ js ''/api/search?q='' @ so_encode (rn_source env) query @ js ''&rh_client=modern'') []) (\<lambda>answer.
     bind_r (member (Some answer) ''books'') (\<lambda>b. bind_r (array_or b) (map_r (hub_found env))))"

definition hub_inspect :: "reading_env \<Rightarrow> variant \<Rightarrow> (error, work) result option" where
  "hub_inspect env v =
     map_option (\<lambda>r. bind_r r (\<lambda>chapters.
         Inr ((item (js ''ranobehub'') hub_name (v_title v) (v_url v) (slug v) Books None None [])\<lparr>w_chapters := Some chapters\<rparr>)))
       (hub_loop env (hd (split_char 45 (slug v))) 0 (Some 1) [])"

text \<open>
  The numbers of the chapters count from one, and where no page names a total above a bound the
  inspection of a book ends.
\<close>

lemma add_hub_chapters_numbers:
  "map c_number (add_hub_chapters env entries chapters)
     = map c_number chapters @ map (\<lambda>k. Some (of_nat (Suc k))) [length chapters..<length chapters + length entries]"
proof (induction entries arbitrary: chapters)
  case (Cons e es)
  have "length (add_hub_chapters env [e] chapters) = Suc (length chapters)" by (simp add: add_hub_chapters_def)
  moreover have "add_hub_chapters env (e # es) chapters = add_hub_chapters env es (add_hub_chapters env [e] chapters)"
    by (simp add: add_hub_chapters_def)
  moreover have "map c_number (add_hub_chapters env [e] chapters) = map c_number chapters @ [Some (of_nat (Suc (length chapters)))]"
    by (simp add: add_hub_chapters_def hub_chapter_def chapter_at_def)
  moreover have "[length chapters..<length chapters + length (e # es)]
      = length chapters # [Suc (length chapters)..<length chapters + length (e # es)]" by (rule upt_conv_Cons) simp
  ultimately show ?case using Cons.IH[of "add_hub_chapters env [e] chapters"] by simp
qed (simp add: add_hub_chapters_def)

lemma add_hub_chapters_length: "length (add_hub_chapters env entries chapters) = length chapters + length entries"
  using arg_cong[OF add_hub_chapters_numbers[of env entries chapters], of length] by simp

lemma hub_loop_ends:
  assumes "\<And>offset answer x. get_json env (hub_page book offset) [] = Inr answer
      \<Longrightarrow> json_number (field answer ''total'') = Some x \<Longrightarrow> x \<le> of_nat bound"
  shows "(\<And>x. t = Some x \<Longrightarrow> x \<le> of_nat bound) \<Longrightarrow> map c_number chapters = map (\<lambda>k. Some (of_nat (Suc k))) [0..<length chapters]
    \<Longrightarrow> \<exists>r. hub_loop env book offset t chapters = Some r
      \<and> (\<forall>cs. r = Inr cs \<longrightarrow> map c_number cs = map (\<lambda>k. Some (of_nat (Suc k))) [0..<length cs])"
proof (induction "bound - offset" arbitrary: offset t chapters rule: less_induct)
  case less
  show ?case
  proof (cases "below_total offset t")
    case False
    then show ?thesis using less.prems(2) by (subst hub_loop.simps) simp
  next
    case True
    then obtain x where "t = Some x" "of_nat offset < x" by (cases t) (simp_all add: below_total_def)
    then have "(of_nat offset :: rat) < of_nat bound" using less.prems(1) by (metis less_le_trans)
    then have small: "offset < bound" by simp
    show ?thesis
    proof (cases "get_json env (hub_page book offset) []")
      case (Inl e)
      then show ?thesis using True by (subst hub_loop.simps) simp
    next
      case answer: (Inr answer)
      show ?thesis
      proof (cases "array_or (field answer ''items'')")
        case (Inl e)
        then show ?thesis using True answer by (subst hub_loop.simps) simp
      next
        case (Inr entries)
        let ?cs = "add_hub_chapters env entries chapters"
        have numbers: "map c_number ?cs = map (\<lambda>k. Some (of_nat (Suc k))) [0..<length ?cs]"
          unfolding add_hub_chapters_numbers add_hub_chapters_length less.prems(2) map_append[symmetric]
          by (simp add: upt_add_eq_append[of 0 "length chapters" "length entries", symmetric])
        show ?thesis
        proof (cases "length ?cs > 30000")
          case True
          then show ?thesis using \<open>below_total offset t\<close> answer Inr by (subst hub_loop.simps) (simp add: Let_def)
        next
          case False
          have "\<exists>r. hub_loop env book (offset + 250) (json_number (field answer ''total'')) ?cs = Some r
              \<and> (\<forall>cs. r = Inr cs \<longrightarrow> map c_number cs = map (\<lambda>k. Some (of_nat (Suc k))) [0..<length cs])"
            using small assms[OF answer] numbers by (intro less.hyps) auto
          then show ?thesis using True answer Inr False by (subst hub_loop.simps) (simp add: Let_def)
        qed
      qed
    qed
  qed
qed

text \<open>
  The inspection of a RanobeHub book ends when the site's totals are bounded, and its chapters
  are then numbered from one without gaps.
\<close>

theorem hub_inspection_ends:
  assumes "\<And>offset answer x. get_json env (hub_page (hd (split_char 45 (slug v))) offset) [] = Inr answer
      \<Longrightarrow> json_number (field answer ''total'') = Some x \<Longrightarrow> x \<le> of_nat bound" and "1 \<le> bound"
  shows "\<exists>r. hub_inspect env v = Some r \<and> (\<forall>w. r = Inr w \<longrightarrow> (\<exists>cs. w_chapters w = Some cs
    \<and> map c_number cs = map (\<lambda>k. Some (of_nat (Suc k))) [0..<length cs]))"
proof -
  have "\<exists>r. hub_loop env (hd (split_char 45 (slug v))) 0 (Some 1) [] = Some r
      \<and> (\<forall>cs. r = Inr cs \<longrightarrow> map c_number cs = map (\<lambda>k. Some (of_nat (Suc k))) [0..<length cs])"
    using assms by (intro hub_loop_ends[where bound = bound]) auto
  then show ?thesis by (auto simp: hub_inspect_def bind_r_Inr)
qed

text \<open>
  Without such a bound the inspection may never end: the pages need not hold any chapter, so the
  limit of 30,000 chapters does not stop a site that names a greater total with every page.
\<close>

definition growing_site :: "reading_env \<Rightarrow> reading_env" where
  "growing_site env = env\<lparr>rn_fetch := (\<lambda>url h. Inr (200, Some (json_object [(''total'', JNum (of_nat (10 ^ length url))), (''items'', JArr [])])))\<rparr>"

lemma to_dec_bound: "n < 10 ^ length (to_dec n)"
proof (induction n rule: to_dec.induct)
  case (1 n)
  then show ?case
  proof (cases "n < 10")
    case False
    then have "n div 10 < 10 ^ length (to_dec (n div 10))" using 1 by simp
    then have "n < 10 * 10 ^ length (to_dec (n div 10))" by (simp add: div_less_iff_less_mult mult.commute)
    then show ?thesis using False by (subst to_dec.simps) simp
  qed (subst to_dec.simps, simp)
qed

lemma hub_page_above: "offset + 250 < 10 ^ length (hub_page book offset)"
proof -
  have "offset + 250 < 10 ^ 3 * 10 ^ length (to_dec offset)"
  proof -
    have "1 \<le> (10 :: nat) ^ length (to_dec offset)" by simp
    then show ?thesis using to_dec_bound[of offset] by simp
  qed
  also have "\<dots> = 10 ^ (3 + length (to_dec offset))" by (simp add: power_add)
  also have "\<dots> \<le> 10 ^ length (hub_page book offset)" by (intro power_increasing) (simp_all add: hub_page_def)
  finally show ?thesis .
qed

lemma hub_loop_stays:
  assumes "hub_loop (growing_site env) book offset t chapters = Some r" and "length chapters \<le> 30000"
  shows "\<not> below_total offset t"
proof -
  let ?P = "\<lambda>e book offset t (chapters :: book_chapter list) r. e = growing_site env \<longrightarrow> length chapters \<le> 30000 \<longrightarrow> \<not> below_total offset t"
  have "?P (growing_site env) book offset t chapters r"
  proof (rule hub_loop.raw_induct[where P = ?P, OF _ assms(1)], intro impI notI)
    fix loop e book offset t chapters y
    let ?t = "Some (of_nat (10 ^ length (hub_page book offset)) :: rat)"
    assume IH: "\<And>e book offset t chapters r. loop e book offset t chapters = Some r \<Longrightarrow> ?P e book offset t chapters r"
      and body: "(if \<not> below_total offset t then Some (Inr chapters)
         else case get_json e (hub_page book offset) [] of Inl e \<Rightarrow> Some (Inl e)
           | Inr answer \<Rightarrow> (case array_or (field answer ''items'') of Inl e \<Rightarrow> Some (Inl e)
             | Inr entries \<Rightarrow> let chapters' = add_hub_chapters e entries chapters in
                 if length chapters' > 30000 then Some (Inl too_many_chapters)
                 else loop e book (offset + 250) (json_number (field answer ''total'')) chapters')) = Some y"
      and e: "e = growing_site env" and few: "length chapters \<le> 30000" and below: "below_total offset t"
    have "get_json e (hub_page book offset) [] = Inr (json_object [(''total'', JNum (of_nat (10 ^ length (hub_page book offset)))), (''items'', JArr [])])"
      by (simp add: e get_json_def growing_site_def in_range_def)
    then have "loop e book (offset + 250) ?t chapters = Some y"
      using body few below by (simp add: array_or_def field_def json_object_def json_number_def add_hub_chapters_def Let_def)
    then have "\<not> below_total (offset + 250) ?t" using IH few e by blast
    moreover have "rat_of_nat (offset + 250) < of_nat (10 ^ length (hub_page book offset))"
      unfolding of_nat_less_iff by (rule hub_page_above)
    ultimately show False by (simp add: below_total_def del: of_nat_add of_nat_power)
  qed
  then show ?thesis using assms(2) by blast
qed

theorem hub_inspection_may_not_end: "hub_inspect (growing_site env) v = None"
proof -
  have "below_total 0 (Some 1)" by (simp add: below_total_def)
  then have "hub_loop (growing_site env) (hd (split_char 45 (slug v))) 0 (Some 1) [] = None"
    using hub_loop_stays[of env _ 0 "Some 1" "[]"] by (cases "hub_loop (growing_site env) (hd (split_char 45 (slug v))) 0 (Some 1) []") auto
  then show ?thesis by (simp add: hub_inspect_def)
qed

definition sample_hub_variant :: variant where
  "sample_hub_variant = new_variant (js ''ranobehub:5-a'') (js ''ranobehub'') hub_name (js ''T'') (js ''https://ranobehub.org/ranobe/5-a'') Book"

theorem hub_inspection_ends_witness:
  "\<exists>r. hub_inspect sample_reading sample_hub_variant = Some r \<and> \<not> isl r"
proof -
  have bounded: "x \<le> of_nat 2"
    if "get_json sample_reading (hub_page (hd (split_char 45 (slug sample_hub_variant))) offset) [] = Inr answer"
      "json_number (field answer ''total'') = Some x" for offset answer x
    using that by (auto simp: get_json_def sample_reading_def in_range_def json_object_def field_def json_number_def)
  obtain r where r: "hub_inspect sample_reading sample_hub_variant = Some r"
    using hub_inspection_ends[where env = sample_reading and v = sample_hub_variant and bound = 2] bounded by auto
  have "\<not> isl (the (hub_inspect sample_reading sample_hub_variant))" by code_simp
  with r show ?thesis by simp
qed

section \<open>RanobeLib and MangaLib\<close>

record lib_site =
  lb_id :: jstring
  lb_name :: jstring
  lb_number :: jstring
  lb_url :: jstring
  lb_category :: category

definition ranobeLib :: lib_site where
  "ranobeLib = \<lparr>lb_id = js ''ranobelib'', lb_name = js ''RanobeLib'', lb_number = js ''3'', lb_url = js ''https://ranobelib.me'', lb_category = Books\<rparr>"

definition mangaLib :: lib_site where
  "mangaLib = \<lparr>lb_id = js ''mangalib'', lb_name = js ''MangaLib'', lb_number = js ''1'', lb_url = js ''https://mangalib.me'', lb_category = Manga\<rparr>"

definition lib_json :: "reading_env \<Rightarrow> lib_site \<Rightarrow> jstring \<Rightarrow> (error, json) result" where
  "lib_json env s path = get_json env (js ''https://api.cdnlibs.org/api/manga'' @ path) (lib_headers (lb_number s) (lb_url s))"

text \<open>\<open>/\s+\((?:Novel|\<dots>)\)$/iu\<close>, the catalog's suffix for the type of a book.\<close>

definition type_suffix_rx :: rx where
  "type_suffix_rx = RSeqs [RPlus RSpace, RLit (js ''(''), RAlt (RLitI (js ''Novel'')) (RLitI [1053, 1086, 1074, 1077, 1083, 1083, 1072]), RLit (js '')''), REol]"

definition without_suffix :: "jstring \<Rightarrow> jstring" where
  "without_suffix t = rx_replace1 type_suffix_rx (\<lambda>_. []) t"

definition book_title :: "json option \<Rightarrow> json option" where
  "book_title book = first_truthy (first_truthy (optional book ''rus_name'') (optional book ''eng_name'')) (optional book ''name'')"

definition name_texts :: "json option \<Rightarrow> jstring list" where
  "name_texts book = List.map_filter json_text [optional book ''name'', optional book ''eng_name'', optional book ''rus_name'']"

definition lib_links :: "json list \<Rightarrow> (error, jstring option list) result" where
  "lib_links links = map_r (\<lambda>l. bind_r (member (Some l) ''source_link'') (\<lambda>x. Inr (json_text x))) links"

definition lib_description :: "reading_env \<Rightarrow> json option \<Rightarrow> (error, jstring option) result" where
  "lib_description env summary =
     (case json_text summary of
        Some t \<Rightarrow> Inr (Some t)
      | None \<Rightarrow> if \<not> truthy_json summary then Inr None
          else bind_r (richTextHtml (rn_source env) (rn_tools env) summary (Inr [])) (\<lambda>h. Inr (Some (text_of (bt_html (rn_tools env) h)))))"

definition lib_author :: "reading_env \<Rightarrow> json option \<Rightarrow> (error, jstring option) result" where
  "lib_author env authors =
     (if authors = None \<or> authors = Some JNull then Inr None
      else case json_array authors of
          None \<Rightarrow> Inl type_error
        | Some xs \<Rightarrow> bind_r (map_r (\<lambda>a. member (Some a) ''name'') xs) (\<lambda>names.
            Inr (some_text (join [44, 32] (map (join_text (rn_source env)) (filter truthy_json names))))))"

definition lib_metadata :: "reading_env \<Rightarrow> lib_site \<Rightarrow> json option \<Rightarrow> jstring \<Rightarrow> jstring \<Rightarrow> (error, work) result" where
  "lib_metadata env s book url i =
     bind_r (member book ''rus_name'') (\<lambda>_.
       case json_text (book_title book) of
         None \<Rightarrow> Inl type_error
       | Some title \<Rightarrow>
           bind_r (array_or (optional book ''otherNames'')) (\<lambda>others.
           bind_r (array_or (optional book ''externalLinks'')) (\<lambda>links.
           bind_r (lib_links links) (\<lambda>addresses.
             let titles = name_texts book @ [without_suffix title] @ List.map_filter (\<lambda>t. json_text (Some t)) others;
                 original = originalReferences (rn_runtime env) (rn_scripts env) addresses titles title in
             bind_r (lib_description env (optional book ''summary'')) (\<lambda>description.
             bind_r (lib_author env (optional book ''authors'')) (\<lambda>author.
               let w = item (lb_id s) (lb_name s) title url i (lb_category s) (json_text (optional (optional book ''cover'') ''default'')) description titles
               in Inr (w\<lparr>w_variants := (hd (w_variants w))\<lparr>v_author := author\<rparr> # fst original, w_identifiers := Some (snd original)\<rparr>)))))))"

text \<open>
  \<open>search\<close>: the works are emitted as they come; the metadata of the one work whose title is the
  query is then loaded, emitted and put in its place. A failure of this second request is
  reported, unless the search has been aborted.
\<close>

record lib_found =
  lf_emitted :: "work list"
  lf_reported :: "error list"
  lf_works :: "work list"

definition lib_item :: "reading_env \<Rightarrow> lib_site \<Rightarrow> json \<Rightarrow> (error, work) result" where
  "lib_item env s book =
     (if book = JNull then Inl type_error
      else let slug_url = field book ''slug_url'';
               i = (if truthy_json slug_url then string_of (rn_source env) slug_url
                 else string_of (rn_source env) (field book ''id'') @ js ''--'' @ string_of (rn_source env) (field book ''slug''))
        in Inr (item (lb_id s) (lb_name s) (or_empty (json_text (book_title (Some book))))
          (lb_url s @ js ''/ru/'' @ (if lb_category s = Books then js ''book'' else js ''manga'') @ js ''/'' @ i) i (lb_category s)
          (json_text (optional (field book ''cover'') ''default'')) None (name_texts (Some book))))"

definition search_title :: "reading_env \<Rightarrow> jstring \<Rightarrow> jstring" where
  "search_title env t = rx_replace (RPlus RSpace) (\<lambda>_. [32]) (rt_lower (rn_runtime env) (without_suffix (trim (rn_nfkc env t))))"

definition has_title :: "reading_env \<Rightarrow> jstring \<Rightarrow> work \<Rightarrow> bool" where
  "has_title env query w \<longleftrightarrow> list_ex (\<lambda>t. search_title env t = search_title env query) (w_title w # list_or (w_aliases w))"

definition lib_details :: "reading_env \<Rightarrow> lib_site \<Rightarrow> work \<Rightarrow> (error, work) result" where
  "lib_details env s w =
     (let i = slug (hd (w_variants w)) in
      bind_r (lib_json env s ([47] @ i @ js ''?fields[]=otherNames&fields[]=externalLinks&fields[]=authors'')) (\<lambda>details.
      bind_r (member (Some details) ''data'') (\<lambda>book. lib_metadata env s book (or_empty (w_url w)) i)))"

definition lib_search :: "reading_env \<Rightarrow> lib_site \<Rightarrow> bool \<Rightarrow> jstring \<Rightarrow> (error, lib_found) result" where
  "lib_search env s aborted query =
     bind_r (lib_json env s (js ''?site_id%5B0%5D='' @ lb_number s @ js ''&q='' @ so_encode (rn_source env) query)) (\<lambda>answer.
     bind_r (member (Some answer) ''data'') (\<lambda>d. bind_r (array_or d) (\<lambda>books. bind_r (map_r (lib_item env s) books) (\<lambda>works.
       case filter (has_title env query) works of
         [w] \<Rightarrow> (case lib_details env s w of
             Inr enriched \<Rightarrow> Inr \<lparr>lf_emitted = works @ [enriched], lf_reported = [],
               lf_works = map (\<lambda>x. if has_title env query x then enriched else x) works\<rparr>
           | Inl e \<Rightarrow> if aborted then Inl Aborted else Inr \<lparr>lf_emitted = works, lf_reported = [e], lf_works = works\<rparr>)
       | _ \<Rightarrow> Inr \<lparr>lf_emitted = works, lf_reported = [], lf_works = works\<rparr>))))"

text \<open>
  \<open>inspect\<close>. The number of a publication ends with its branch, \<open>/^(.*):branch:(\d+)$/\<close>. The
  branches are keyed by their identifiers in the order of the listing, with the names of their teams.
\<close>

definition is_line_end :: "nat \<Rightarrow> bool" where
  "is_line_end c \<longleftrightarrow> c \<in> {10, 13, 8232, 8233}"

definition requested_branch :: "jstring \<Rightarrow> jstring \<times> json option" where
  "requested_branch s =
     (let digits = rev (takeWhile is_digit (rev s)); stem = take (length s - length digits) s; i = take (length stem - 8) stem in
      if digits \<noteq> [] \<and> ends_with stem (js '':branch:'') \<and> list_all (\<lambda>c. \<not> is_line_end c) i
      then (i, Some (JNum (of_nat (num_of digits)))) else (s, None))"

definition zero_or :: "json option \<Rightarrow> json" where
  "zero_or v = (case v of None \<Rightarrow> JNum 0 | Some JNull \<Rightarrow> JNum 0 | Some j \<Rightarrow> j)"

definition branches_of :: "json \<Rightarrow> (error, json list) result" where
  "branches_of entry = bind_r (member (Some entry) ''branches'') array_or"

fun add_teams :: "json list \<Rightarrow> json list \<Rightarrow> (error, json list) result" where
  "add_teams [] names = Inr names"
| "add_teams (t # ts) names = bind_r (member (Some t) ''name'') (\<lambda>n.
     add_teams ts (case n of Some name \<Rightarrow> if truthy_json n \<and> name \<notin> set names then names @ [name] else names | None \<Rightarrow> names))"

fun add_branches :: "json list \<Rightarrow> (json, json list) jmap \<Rightarrow> (error, (json, json list) jmap) result" where
  "add_branches [] branches = Inr branches"
| "add_branches (b # bs) branches = bind_r (member (Some b) ''branch_id'') (\<lambda>i.
     bind_r (array_or (field b ''teams'')) (\<lambda>teams. bind_r (add_teams teams (list_or (jm_get branches (zero_or i)))) (\<lambda>names.
       add_branches bs (jm_set (zero_or i) names branches))))"

fun listed_branches :: "json list \<Rightarrow> (json, json list) jmap \<Rightarrow> (error, (json, json list) jmap) result" where
  "listed_branches [] branches = Inr branches"
| "listed_branches (e # es) branches = bind_r (branches_of e) (\<lambda>bs. bind_r (add_branches bs branches) (listed_branches es))"

definition lost_branch :: error where
  "lost_branch = Failed [1048, 1089, 1090, 1086, 1095, 1085, 1080, 1082, 32, 1085, 1077, 32, 1074, 1077, 1088, 1085,
    1091, 1083, 32, 1074, 1099, 1073, 1088, 1072, 1085, 1085, 1091, 1102, 32, 1074, 1077, 1090,
    1082, 1091, 32, 1087, 1077, 1088, 1077, 1074, 1086, 1076, 1072, 46]"

definition branch_gone :: error where
  "branch_gone = Failed [1042, 1099, 1073, 1088, 1072, 1085, 1085, 1072, 1103, 32, 1074, 1077, 1090, 1082, 1072, 32,
    1087, 1077, 1088, 1077, 1074, 1086, 1076, 1072, 32, 1073, 1086, 1083, 1100, 1096, 1077, 32,
    1085, 1077, 1076, 1086, 1089, 1090, 1091, 1087, 1085, 1072, 46]"

definition chapter_query :: "reading_env \<Rightarrow> jstring \<Rightarrow> jstring \<Rightarrow> json \<Rightarrow> jstring" where
  "chapter_query env i branch entry = [47] @ i @ js ''/chapter?branch_id='' @ branch
     @ js ''&number='' @ so_encode (rn_source env) (string_of (rn_source env) (field entry ''number''))
     @ js ''&volume='' @ so_encode (rn_source env) (string_of (rn_source env) (field entry ''volume''))"

definition default_branch :: "reading_env \<Rightarrow> lib_site \<Rightarrow> jstring \<Rightarrow> json list \<Rightarrow> (json, json list) jmap \<Rightarrow> (error, json option) result" where
  "default_branch env s i entries branches =
     (case branches of
        [] \<Rightarrow> Inr None
      | [b] \<Rightarrow> Inr (Some (fst b))
      | _ \<Rightarrow> (case find (\<lambda>e. case json_array (field e ''branches'') of None \<Rightarrow> False | Some bs \<Rightarrow> bs \<noteq> []) entries of
            None \<Rightarrow> Inl type_error
          | Some first \<Rightarrow> bind_r (lib_json env s (chapter_query env i (js ''0'') first)) (\<lambda>preferred.
              bind_r (member (Some preferred) ''data'') (\<lambda>d. bind_r (member d ''branch_id'') (\<lambda>b.
                if jm_has branches (zero_or b) then Inr (Some (zero_or b)) else Inl lost_branch)))))"

fun in_branch :: "json list \<Rightarrow> json option \<Rightarrow> (error, bool) result" where
  "in_branch [] selected = Inr False"
| "in_branch (b # bs) selected = bind_r (member (Some b) ''branch_id'') (\<lambda>i.
     if same_value (Some (zero_or i)) selected then Inr True else in_branch bs selected)"

definition lib_chapter_of :: "reading_env \<Rightarrow> jstring \<Rightarrow> jstring \<Rightarrow> json \<Rightarrow> book_chapter" where
  "lib_chapter_of env i branch entry =
     (let name = field entry ''name'' in
      chapter_at (rn_runtime env)
        ([1058, 1086, 1084, 32] @ string_of (rn_source env) (field entry ''volume'') @ [44, 32, 1075, 1083, 1072, 1074, 1072, 32] @ string_of (rn_source env) (field entry ''number'')
          @ (if truthy_json name then [32, 8212, 32] @ string_of (rn_source env) name else []))
        (js ''https://api.cdnlibs.org/api/manga'' @ chapter_query env i branch entry) (json_number (field entry ''index'')))"

fun lib_chapters :: "reading_env \<Rightarrow> jstring \<Rightarrow> json option \<Rightarrow> json list \<Rightarrow> (error, book_chapter list) result" where
  "lib_chapters env i selected [] = Inr []"
| "lib_chapters env i selected (e # es) = bind_r (branches_of e) (\<lambda>bs. bind_r (in_branch bs selected) (\<lambda>own.
     bind_r (lib_chapters env i selected es) (\<lambda>cs.
       Inr (if own then lib_chapter_of env i (string_of (rn_source env) selected) e # cs else cs))))"

definition translation_of :: "reading_env \<Rightarrow> bool \<Rightarrow> variant \<Rightarrow> json \<times> json list \<Rightarrow> variant" where
  "translation_of env several base = (\<lambda>(b, teams).
     let names = join [44, 32] (map (join_text (rn_source env)) (map Some teams)); branch = json_string (rn_source env) b in
     base\<lparr>v_id := (if b = JNum 0 then v_id base else v_id base @ js '':branch:'' @ branch),
          v_translation := (if names \<noteq> [] then Some names else if several then Some ([1055, 1077, 1088, 1077, 1074, 1086, 1076, 32] @ branch) else None)\<rparr>)"

definition lib_inspect :: "reading_env \<Rightarrow> lib_site \<Rightarrow> variant \<Rightarrow> (error, work) result" where
  "lib_inspect env s v =
     (let (i, requested) = requested_branch (slug v) in
      bind_r (lib_json env s ([47] @ i @ js ''?fields[]=summary&fields[]=otherNames&fields[]=externalLinks&fields[]=authors'')) (\<lambda>details.
      bind_r (lib_json env s ([47] @ i @ js ''/chapters'')) (\<lambda>listing.
      bind_r (member (Some details) ''data'') (\<lambda>book.
      bind_r (member (Some listing) ''data'') (\<lambda>d. bind_r (array_or d) (\<lambda>entries.
      bind_r (listed_branches entries []) (\<lambda>branches.
      bind_r (default_branch env s i entries branches) (\<lambda>usual.
        if (case requested of None \<Rightarrow> False | Some b \<Rightarrow> \<not> jm_has branches b) then Inl branch_gone
        else bind_r (lib_chapters env i (opt_or requested usual) entries) (\<lambda>chapters.
          bind_r (lib_metadata env s book (v_url v) i) (\<lambda>w.
            Inr (w\<lparr>w_variants := map (translation_of env (length branches > 1) (hd (w_variants w)))
                  (preferred_first (\<lambda>p. Some (fst p) = usual) branches) @ tl (w_variants w),
                w_chapters := Some chapters\<rparr>)))))))))))"

section \<open>The translation that is chosen\<close>

lemma requested_branch_of:
  assumes "list_all (\<lambda>c. \<not> is_line_end c) i"
  shows "requested_branch (i @ js '':branch:'' @ to_dec n) = (i, Some (JNum (of_nat n)))"
proof -
  have d: "list_all is_digit (to_dec n)" "to_dec n \<noteq> []" by (simp_all add: to_dec_digits)
  have "takeWhile is_digit (rev (to_dec n) @ rev (js '':branch:'') @ rev i) = rev (to_dec n)"
    using d by (auto simp: list_all_iff takeWhile_append is_digit_def in_range_def)
  then have "rev (takeWhile is_digit (rev (i @ js '':branch:'' @ to_dec n))) = to_dec n" by simp
  then show ?thesis
    using assms d by (simp add: requested_branch_def Let_def ends_with_def starts_with_def num_of_to_dec)
qed

lemma add_original_sites:
  "list_all (\<lambda>x. v_sourceId x \<in> site_id ` set original_sites) (fst st) \<Longrightarrow>
    list_all (\<lambda>x. v_sourceId x \<in> site_id ` set original_sites) (fst (add_original rt sc titles title link st))"
proof -
  assume st: "list_all (\<lambda>x. v_sourceId x \<in> site_id ` set original_sites) (fst st)"
  have "v_sourceId x \<in> site_id ` set original_sites" if "readingOriginal rt link = Some x" for x
    using that by (auto simp: readingOriginal_def original_variant_def new_variant_def find_Some_iff image_iff split: option.splits if_splits)
  then show ?thesis using st by (auto simp: add_original_def Let_def split: option.splits)
qed

lemma originals_sites: "list_all (\<lambda>x. v_sourceId x \<in> site_id ` set original_sites) (fst (originalReferences rt sc links titles title))"
proof -
  have "list_all (\<lambda>x. v_sourceId x \<in> site_id ` set original_sites) (fst st) \<Longrightarrow>
      list_all (\<lambda>x. v_sourceId x \<in> site_id ` set original_sites) (fst (fold (add_original rt sc titles title) links st))" for st
    by (induction links arbitrary: st) (simp_all add: add_original_sites)
  then show ?thesis by (simp add: originalReferences_def)
qed

lemma lib_metadata_variants:
  assumes "lib_metadata env s book url i = Inr w"
  shows "\<exists>base others. w_variants w = base # others \<and> v_id base = lb_id s @ [58] @ i \<and> v_sourceId base = lb_id s
    \<and> list_all (\<lambda>x. v_sourceId x \<in> site_id ` set original_sites) others"
  using assms originals_sites
  by (auto simp: lib_metadata_def bind_r_Inr Let_def item_def new_work_def new_variant_def simp del: js_simps split: option.splits)

lemma lib_chapters_urls:
  "lib_chapters env i selected entries = Inr cs \<Longrightarrow>
    list_all (\<lambda>c. starts_with (c_url c) (js ''https://api.cdnlibs.org/api/manga/'' @ i @ js ''/chapter?branch_id='' @ string_of (rn_source env) selected @ js ''&number='')) cs"
proof (induction entries arbitrary: cs)
  case (Cons e es)
  have "starts_with (c_url (lib_chapter_of env i b e)) (js ''https://api.cdnlibs.org/api/manga/'' @ i @ js ''/chapter?branch_id='' @ b @ js ''&number='')" for b
  proof -
    have "\<exists>r. c_url (lib_chapter_of env i b e) = (js ''https://api.cdnlibs.org/api/manga/'' @ i @ js ''/chapter?branch_id='' @ b @ js ''&number='') @ r"
      by (simp add: lib_chapter_of_def chapter_at_def chapter_query_def Let_def)
    then show ?thesis by (metis starts_with_append)
  qed
  then show ?case using Cons by (auto simp: bind_r_Inr simp del: js_simps)
qed simp

lemma lib_inspect_Inr:
  assumes "lib_inspect env s v = Inr w" "requested_branch (slug v) = (i, requested)"
  shows "\<exists>base others branches several usual. w_variants w = map (translation_of env several base) branches @ others
      \<and> v_id base = lb_id s @ [58] @ i \<and> v_sourceId base = lb_id s
      \<and> list_all (\<lambda>x. v_sourceId x \<in> site_id ` set original_sites) others
      \<and> list_all (\<lambda>c. starts_with (c_url c) (js ''https://api.cdnlibs.org/api/manga/'' @ i @ js ''/chapter?branch_id=''
          @ string_of (rn_source env) (opt_or requested usual) @ js ''&number='')) (list_or (w_chapters w))"
proof -
  obtain book branches usual entries chapters w' where m: "lib_metadata env s book (v_url v) i = Inr w'"
      and c: "lib_chapters env i (opt_or requested usual) entries = Inr chapters"
      and w: "w = w'\<lparr>w_variants := map (translation_of env (length branches > 1) (hd (w_variants w')))
                  (preferred_first (\<lambda>p. Some (fst p) = usual) branches) @ tl (w_variants w'), w_chapters := Some chapters\<rparr>"
    using assms by (auto simp: lib_inspect_def bind_r_Inr simp del: js_simps split: if_splits)
  obtain base others where b: "w_variants w' = base # others" "v_id base = lb_id s @ [58] @ i" "v_sourceId base = lb_id s"
      "list_all (\<lambda>x. v_sourceId x \<in> site_id ` set original_sites) others"
    using lib_metadata_variants[OF m] by blast
  have "w_variants w = map (translation_of env (length branches > 1) base) (preferred_first (\<lambda>p. Some (fst p) = usual) branches) @ others"
    by (simp add: w b(1))
  moreover have "w_chapters w = Some chapters" by (simp add: w)
  ultimately show ?thesis using b(2-4) lib_chapters_urls[OF c] by (simp only: list_or_simps) blast
qed


text \<open>A book with two branches of its translation, of which the site prefers the second.\<close>

definition sample_lib :: reading_env where
  "sample_lib = sample_reading\<lparr>rn_fetch := (\<lambda>u h. Inr (200, Some (json_object [(''data'',
     if ends_with u (js ''/1--a/chapters'') then JArr [json_object [(''volume'', JNum 1), (''number'', JNum 2), (''index'', JNum 1), (''branches'', JArr
         [json_object [(''branch_id'', JNum 5), (''teams'', JArr [json_object [(''name'', JText (js ''T''))]])], json_object [(''branch_id'', JNum 7)]])]]
     else json_object [(''rus_name'', JText (js ''A'')), (''branch_id'', JNum 7)])])))\<rparr>"

definition sample_lib_variant :: variant where
  "sample_lib_variant = new_variant (js ''mangalib:1--a'') (js ''mangalib'') (js ''MangaLib'') (js ''A'') (js ''https://mangalib.me/ru/manga/1--a'') MangaPages"

definition work_or :: "(error, work) result \<Rightarrow> work" where
  "work_or r = (case r of Inl e \<Rightarrow> new_work [] [] Books [] | Inr w \<Rightarrow> w)"

abbreviation lib_work :: work where
  "lib_work \<equiv> work_or (lib_inspect sample_lib mangaLib sample_lib_variant)"


end
