(* ===== verification/Novels.thy ===== *)
theory Novels
  imports Chapters
begin

text \<open>
  The sites of original novels: Kakuyomu, Syosetu, Royal Road and Linovel of
  \<open>providers/reading.ts\<close>, jjwxc and Naver of \<open>providers/reading-asian.ts\<close>. A selector is a
  predicate on an element and the list of its ancestors, nearest first.
\<close>

section \<open>Selections with ancestors\<close>

type_synonym path_selector = "(jstring \<times> (jstring, jstring) jmap) list \<Rightarrow> selector"

fun select_where :: "path_selector \<Rightarrow> (jstring \<times> (jstring, jstring) jmap) list \<Rightarrow> node list \<Rightarrow> node list" where
  "select_where P up [] = []"
| "select_where P up (TextNode t # ns) = select_where P up ns"
| "select_where P up (Element tag attrs body # ns) =
     (if P up tag attrs then [Element tag attrs body] else []) @ select_where P ((tag, attrs) # up) body @ select_where P up ns"

text \<open>The matching elements, each with the children of its parent.\<close>

fun select_siblings :: "selector \<Rightarrow> node list \<Rightarrow> node list \<Rightarrow> (node list \<times> node) list" where
  "select_siblings P all [] = []"
| "select_siblings P all (TextNode t # ns) = select_siblings P all ns"
| "select_siblings P all (Element tag attrs body # ns) =
     (if P tag attrs then [(all, Element tag attrs body)] else []) @ select_siblings P body body @ select_siblings P all ns"

text \<open>The selector \<open>A \<dots> B E\<close>: the nearest ancestors are tried first.\<close>

fun has_chain :: "selector list \<Rightarrow> (jstring \<times> (jstring, jstring) jmap) list \<Rightarrow> bool" where
  "has_chain [] up = True"
| "has_chain (Q # Qs) up = (case dropWhile (\<lambda>(t, a). \<not> Q t a) up of [] \<Rightarrow> False | _ # higher \<Rightarrow> has_chain Qs higher)"

definition below :: "selector list \<Rightarrow> selector \<Rightarrow> path_selector" where
  "below Qs P up tag attrs \<longleftrightarrow> P tag attrs \<and> has_chain (rev Qs) up"

definition has_id :: "string \<Rightarrow> selector" where
  "has_id i tag attrs \<longleftrightarrow> jm_get attrs (js ''id'') = Some (js i)"

definition attr_starts :: "string \<Rightarrow> string \<Rightarrow> selector" where
  "attr_starts a p tag attrs \<longleftrightarrow> (case jm_get attrs (js a) of None \<Rightarrow> False | Some v \<Rightarrow> starts_with v (js p))"

definition attr_contains :: "string \<Rightarrow> string \<Rightarrow> selector" where
  "attr_contains a p tag attrs \<longleftrightarrow> (case jm_get attrs (js a) of None \<Rightarrow> False | Some v \<Rightarrow> includes_str v (js p))"

definition both :: "selector \<Rightarrow> selector \<Rightarrow> selector" where
  "both P Q tag attrs \<longleftrightarrow> P tag attrs \<and> Q tag attrs"

abbreviation cls :: "string \<Rightarrow> selector" where
  "cls c \<equiv> has_class (js c)"

abbreviation tg :: "string \<Rightarrow> selector" where
  "tg t \<equiv> is_tag (js t)"

text \<open>\<open>.text().trim()\<close> of all found and of the first found, \<open>.attr()\<close> of the first.\<close>

definition all_text :: "node list \<Rightarrow> jstring" where
  "all_text found = trim (text_of found)"

definition head_text :: "node list \<Rightarrow> jstring" where
  "head_text found = all_text (take 1 found)"

definition head_attr :: "string \<Rightarrow> node list \<Rightarrow> jstring option" where
  "head_attr a found = (case found of [] \<Rightarrow> None | n # ns \<Rightarrow> node_attr n (js a))"

definition href_of :: "node \<Rightarrow> jstring" where
  "href_of n = (case node_attr n (js ''href'') of None \<Rightarrow> js ''undefined'' | Some h \<Rightarrow> h)"

definition page_at :: "reading_env \<Rightarrow> jstring \<Rightarrow> (error, node list) result" where
  "page_at env url = bind_r (get_html env url) (\<lambda>t. Inr (bt_html (rn_tools env) t))"

definition listed_work :: "work \<Rightarrow> book_chapter list \<Rightarrow> work" where
  "listed_work w chapters = w\<lparr>w_chapters := Some chapters\<rparr>"

section \<open>Kakuyomu\<close>

definition object_values :: "json option \<Rightarrow> json list" where
  "object_values v = (case v of Some (JObj m) \<Rightarrow> map snd m | Some (JArr xs) \<Rightarrow> xs | _ \<Rightarrow> [])"

definition kakuyomuState :: "reading_env \<Rightarrow> jstring \<Rightarrow> (error, json list) result" where
  "kakuyomuState env document =
     (let t = text_of (select (both (tg ''script'') (has_id ''__NEXT_DATA__'')) (bt_html (rn_tools env) document)) in
      case rn_parse env (if t = [] then js ''{}'' else t) of
        None \<Rightarrow> Inl not_json
      | Some d \<Rightarrow> bind_r (member (Some d) ''props'') (\<lambda>p.
          Inr (object_values (optional (optional p ''pageProps'') ''__APOLLO_STATE__''))))"

definition typed :: "string \<Rightarrow> json \<Rightarrow> bool" where
  "typed name e \<longleftrightarrow> field e ''__typename'' = Some (JText (js name))"

definition kakuyomu_item :: "reading_env \<Rightarrow> json \<Rightarrow> jstring \<Rightarrow> work" where
  "kakuyomu_item env w url = item (js ''kakuyomu'') (js ''Kakuyomu'') (or_empty (json_text (field w ''title''))) url
     (string_of (rn_source env) (field w ''id'')) Books (json_text (field w ''adminCoverImageUrl'')) (json_text (field w ''introduction'')) []"

definition kakuyomu_search :: "reading_env \<Rightarrow> jstring \<Rightarrow> (error, work list) result" where
  "kakuyomu_search env query =
     bind_r (get_html env (js ''https://kakuyomu.jp/search?q='' @ so_encode (rn_source env) query)) (\<lambda>page.
     bind_r (kakuyomuState env page) (\<lambda>state.
       Inr (map (\<lambda>w. kakuyomu_item env w (js ''https://kakuyomu.jp/works/'' @ string_of (rn_source env) (field w ''id'')))
         (filter (typed ''Work'') state))))"

definition no_work :: error where
  "no_work = Failed [75, 97, 107, 117, 121, 111, 109, 117, 32, 1085, 1077, 32, 1074, 1077, 1088, 1085, 1091, 1083,
    32, 1089, 1074, 1077, 1076, 1077, 1085, 1080, 1103, 32, 1086, 32, 1087, 1088, 1086, 1080,
    1079, 1074, 1077, 1076, 1077, 1085, 1080, 1080, 46]"

definition kakuyomu_inspect :: "reading_env \<Rightarrow> variant \<Rightarrow> (error, work) result" where
  "kakuyomu_inspect env v =
     bind_r (get_html env (v_url v)) (\<lambda>page. bind_r (kakuyomuState env page) (\<lambda>state.
       case find (\<lambda>e. typed ''Work'' e \<and> field e ''id'' = Some (JText (slug v))) state of
         None \<Rightarrow> Inl no_work
       | Some w \<Rightarrow> Inr (listed_work (kakuyomu_item env w (v_url v))
           (map (\<lambda>(k, e). chapter_at (rn_runtime env) (or_empty (json_text (field e ''title'')))
               (v_url v @ js ''/episodes/'' @ string_of (rn_source env) (field e ''id'')) (Some (of_nat (Suc k))))
             (enumerate 0 (filter (typed ''Episode'') state))))))"

section \<open>Syosetu\<close>

definition syosetu_name :: jstring where
  "syosetu_name = [23567, 35500, 23478, 12395, 12394, 12429, 12358]"

definition syosetu_title :: path_selector where
  "syosetu_title up tag attrs \<longleftrightarrow> below [cls ''searchkekka_box'', cls ''novel_h''] (tg ''a'') up tag attrs
     \<or> below [cls ''p-search-novel__title''] (tg ''a'') up tag attrs"

definition syosetu_found :: "reading_env \<Rightarrow> node \<Rightarrow> (error, work) result" where
  "syosetu_found env anchor =
     (let url = href_of anchor in
      case rt_url (rn_runtime env) url of
        None \<Rightarrow> Inl invalid_address
      | Some u \<Rightarrow> Inr (item (js ''syosetu'') syosetu_name (all_text [anchor]) url
          (case split_char 47 (u_pathname u) of a # i # rest \<Rightarrow> i | _ \<Rightarrow> js ''undefined'') Books None None []))"

definition syosetu_search :: "reading_env \<Rightarrow> jstring \<Rightarrow> (error, work list) result" where
  "syosetu_search env query =
     bind_r (page_at env (js ''https://yomou.syosetu.com/search.php?word='' @ so_encode (rn_source env) query)) (\<lambda>doc.
       map_r (syosetu_found env) (filter (\<lambda>n. case node_attr n (js ''href'') of None \<Rightarrow> False
         | Some h \<Rightarrow> starts_with h (js ''https://ncode.syosetu.com/'')) (select_where syosetu_title [] doc)))"

text \<open>A link of a list of chapters, numbered by its place in what has been read so far.\<close>

fun add_links :: "reading_env \<Rightarrow> jstring \<Rightarrow> node list \<Rightarrow> book_chapter list \<Rightarrow> (error, book_chapter list) result" where
  "add_links env base [] chapters = Inr chapters"
| "add_links env base (n # ns) chapters = bind_r (href_at env (href_of n) base) (\<lambda>u.
     add_links env base ns (chapters @ [chapter_at (rn_runtime env) (all_text [n]) u (Some (of_nat (Suc (length chapters))))]))"

fun syosetu_pages :: "reading_env \<Rightarrow> jstring \<Rightarrow> node list \<Rightarrow> nat list \<Rightarrow> book_chapter list \<Rightarrow> (error, book_chapter list) result" where
  "syosetu_pages env url first [] chapters = Inr chapters"
| "syosetu_pages env url first (p # ps) chapters =
     bind_r (if p = 1 then Inr first else page_at env (url @ js ''?p='' @ to_dec p)) (\<lambda>doc.
     bind_r (add_links env url (select_where (below [cls ''p-eplist__sublist''] (tg ''a'')) [] doc) chapters)
       (syosetu_pages env url first ps))"

text \<open>\<open>Number(text) || 1\<close>\<close>

definition number_or_one :: "reading_env \<Rightarrow> jstring option \<Rightarrow> rat" where
  "number_or_one env t = (case Option.bind t (so_parse_number (rn_source env)) of None \<Rightarrow> 1 | Some x \<Rightarrow> if x = 0 then 1 else x)"

definition url_param :: "runtime \<Rightarrow> string \<Rightarrow> url \<Rightarrow> jstring option" where
  "url_param rt name u = map_of (url_params rt u) (js name)"

definition syosetu_count :: "reading_env \<Rightarrow> url \<Rightarrow> nat" where
  "syosetu_count env last_page = nat \<lfloor>min 300 (number_or_one env (url_param (rn_runtime env) ''p'' last_page))\<rfloor>"

definition syosetu_inspect :: "reading_env \<Rightarrow> variant \<Rightarrow> (error, work) result" where
  "syosetu_inspect env v =
     bind_r (page_at env (v_url v)) (\<lambda>first.
       let heading = head_text (select (cls ''p-novel__title'') first); title = (if heading = [] then v_title v else heading);
           link = head_attr ''href'' (select (cls ''c-pager__item--last'') first)
       in bind_r (url_at env (if truthy link then or_empty link else v_url v) (v_url v)) (\<lambda>last_page.
         bind_r (syosetu_pages env (v_url v) first [1..<Suc (syosetu_count env last_page)] []) (\<lambda>chapters.
           Inr (listed_work (item (js ''syosetu'') syosetu_name title (v_url v) (slug v) Books None None [])
             (if chapters = [] \<and> select (cls ''p-novel__text'') first \<noteq> []
              then [chapter_at (rn_runtime env) title (v_url v) (Some 1)] else chapters)))))"

section \<open>Royal Road and Linovel\<close>

definition royal_site :: jstring where
  "royal_site = js ''https://www.royalroad.com''"

text \<open>An entry of a search: its link, cover and description; entries without a number are left out.\<close>

definition royal_found :: "reading_env \<Rightarrow> node \<Rightarrow> (error, work list) result" where
  "royal_found env entry =
     (let anchors = select_where (below [both (tg ''h2'') (cls ''fiction-title'')] (tg ''a'')) [] (node_body entry) in
      case head_attr ''href'' anchors of
        None \<Rightarrow> Inr []
      | Some path \<Rightarrow>
          (case path_number ''/fiction/'' is_digit (\<lambda>_. True) path of
             None \<Rightarrow> Inr []
           | Some i \<Rightarrow>
               bind_r (href_at env path royal_site) (\<lambda>url.
               bind_r (cover_at env (head_attr ''src'' (select_where (below [tg ''figure''] (tg ''img'')) [] (node_body entry))) royal_site) (\<lambda>cover.
                 Inr [item (js ''royalroad'') (js ''Royal Road'') (all_text anchors) url i Books cover
                   (Some (all_text (select (cls ''fiction-description'') (node_body entry)))) []]))))"

definition royal_search :: "reading_env \<Rightarrow> jstring \<Rightarrow> (error, work list) result" where
  "royal_search env query =
     bind_r (page_at env (royal_site @ js ''/fictions/search?page=1&title='' @ so_encode (rn_source env) query @ js ''&globalFilters=true'')) (\<lambda>doc.
     bind_r (map_r (royal_found env) (select (cls ''fiction-list-item'') doc)) (\<lambda>wss. Inr (concat wss)))"

text \<open>\<open>/window\.chapters\s*=\s*(\[[\s\S]*?\]);/\<close>\<close>

definition chapters_rx :: rx where
  "chapters_rx = RSeqs [RLit (js ''window.chapters''), RSpaces, RLit (js ''=''), RSpaces,
     RGroup 1 (RSeqs [RLit (js ''[''), RStar False (RCh (\<lambda>_. True)), RLit (js '']'')]), RLit (js '';'')]"

definition no_chapter_list :: error where
  "no_chapter_list = Failed [82, 111, 121, 97, 108, 32, 82, 111, 97, 100, 32, 1085, 1077, 32, 1074, 1077, 1088, 1085, 1091,
    1083, 32, 1089, 1087, 1080, 1089, 1086, 1082, 32, 1075, 1083, 1072, 1074, 46]"

definition royal_entries :: "reading_env \<Rightarrow> jstring \<Rightarrow> (error, json list) result" where
  "royal_entries env page =
     (case rx_cap chapters_rx 1 page of
        None \<Rightarrow> Inl no_chapter_list
      | Some listing \<Rightarrow>
          (case rn_parse env listing of
             None \<Rightarrow> Inl not_json
           | Some j \<Rightarrow>
               (case json_array (Some j) of
                  None \<Rightarrow> Inl type_error
                | Some entries \<Rightarrow> if JNull \<in> set entries then Inl type_error else Inr entries)))"

definition order_of :: "json \<Rightarrow> rat" where
  "order_of e = num_or_zero (json_number (field e ''order''))"

definition open_entry :: "json \<Rightarrow> bool" where
  "open_entry e \<longleftrightarrow> truthy_json (field e ''isUnlocked'') \<and> truthy_json (field e ''visible'')"

definition royal_chapter_of :: "reading_env \<Rightarrow> jstring \<Rightarrow> json \<Rightarrow> (error, book_chapter) result" where
  "royal_chapter_of env base e =
     bind_r (href_at env (string_of (rn_source env) (field e ''url'')) base) (\<lambda>u.
       Inr (chapter_at (rn_runtime env) (or_empty (json_text (field e ''title''))) u (map_option (\<lambda>x. x + 1) (json_number (field e ''order'')))))"

definition royal_inspect :: "reading_env \<Rightarrow> variant \<Rightarrow> (error, work) result" where
  "royal_inspect env v =
     bind_r (get_html env (v_url v)) (\<lambda>page.
     bind_r (royal_entries env page) (\<lambda>entries.
     bind_r (map_r (royal_chapter_of env (v_url v)) (sort_key order_of (filter open_entry entries))) (\<lambda>chapters.
       let doc = bt_html (rn_tools env) page in
       bind_r (cover_at env (head_attr ''src'' (select (both (tg ''img'') (cls ''thumbnail'')) doc)) (v_url v)) (\<lambda>cover.
         Inr (listed_work (item (js ''royalroad'') (js ''Royal Road'') (head_text (select (tg ''h1'') doc)) (v_url v) (slug v) Books cover
           (Some (head_text (select (cls ''description'') doc))) []) chapters)))))"

definition linovel_site :: jstring where
  "linovel_site = js ''https://www.linovel.net''"

definition linovel_name :: jstring where
  "linovel_name = [36731, 20043, 25991, 24211, 32, 47, 32, 76, 105, 110, 111, 118, 101, 108]"

definition linovel_rx :: rx where
  "linovel_rx = RSeqs [RLit (js ''/book/''), RGroup 1 (RPlus RDigit), RLit (js ''.html'')]"

definition linovel_found :: "reading_env \<Rightarrow> node \<Rightarrow> (error, work list) result" where
  "linovel_found env entry =
     (case node_attr entry (js ''href'') of
        None \<Rightarrow> Inr []
      | Some path \<Rightarrow>
          (case rx_cap linovel_rx 1 path of
             None \<Rightarrow> Inr []
           | Some i \<Rightarrow>
               bind_r (href_at env path linovel_site) (\<lambda>url.
               bind_r (cover_at env (head_attr ''src'' (select (tg ''img'') (node_body entry))) linovel_site) (\<lambda>cover.
                 Inr [item (js ''linovel'') linovel_name (all_text (select (cls ''book-name'') (node_body entry))) url i Books cover None []]))))"

definition linovel_search :: "reading_env \<Rightarrow> jstring \<Rightarrow> (error, work list) result" where
  "linovel_search env query =
     bind_r (page_at env (linovel_site @ js ''/search/?kw='' @ so_encode (rn_source env) query)) (\<lambda>doc.
     bind_r (map_r (linovel_found env) (select_where (below [cls ''rank-book-list''] (both (tg ''a'') (cls ''search-book''))) [] doc)) (\<lambda>wss.
       Inr (concat wss)))"

definition linovel_inspect :: "reading_env \<Rightarrow> variant \<Rightarrow> (error, work) result" where
  "linovel_inspect env v =
     bind_r (page_at env (v_url v)) (\<lambda>doc.
     bind_r (add_links env (v_url v) (select_where (below [both (tg ''div'') (cls ''chapter'')] (tg ''a'')) [] doc) []) (\<lambda>chapters.
     bind_r (cover_at env (head_attr ''src'' (select_where (below [cls ''book-cover''] (tg ''img'')) [] doc)) (v_url v)) (\<lambda>cover.
       Inr (listed_work (item (js ''linovel'') linovel_name (head_text (select (cls ''book-title'') doc)) (v_url v) (slug v) Books cover
         (Some (head_text (select (cls ''about-text'') doc))) []) chapters))))"

section \<open>The Asian sources\<close>

definition unknown_address :: error where
  "unknown_address = Failed [1048, 1089, 1090, 1086, 1095, 1085, 1080, 1082, 32, 1074, 1077, 1088, 1085, 1091, 1083, 32,
    1085, 1077, 1080, 1079, 1074, 1077, 1089, 1090, 1085, 1099, 1081, 32, 1072, 1076, 1088, 1077,
    1089, 32, 1087, 1088, 1086, 1080, 1079, 1074, 1077, 1076, 1077, 1085, 1080, 1103, 46]"

definition foreign_work :: error where
  "foreign_work = Failed [1040, 1076, 1088, 1077, 1089, 32, 1087, 1088, 1086, 1080, 1079, 1074, 1077, 1076, 1077, 1085,
    1080, 1103, 32, 1085, 1077, 32, 1087, 1088, 1080, 1085, 1072, 1076, 1083, 1077, 1078, 1080,
    1090, 32, 1074, 1099, 1073, 1088, 1072, 1085, 1085, 1086, 1084, 1091, 32, 1080, 1089, 1090,
    1086, 1095, 1085, 1080, 1082, 1091, 46]"

definition asian_publication :: "reading_env \<Rightarrow> jstring \<Rightarrow> jstring \<Rightarrow> jstring option \<Rightarrow> jstring option \<Rightarrow> jstring option \<Rightarrow> (error, work) result" where
  "asian_publication env url title author cover description =
     (case readingOriginal (rn_runtime env) (Some url) of
        None \<Rightarrow> Inl unknown_address
      | Some v \<Rightarrow> Inr ((new_work (v_id v) title Books [v\<lparr>v_title := title, v_author := author\<rparr>])
          \<lparr>w_url := Some (v_url v), w_cover := cover, w_description := description,
           w_identifiers := Some [(v_sourceId v, slug v)]\<rparr>))"

definition selectedPublication :: "runtime \<Rightarrow> variant \<Rightarrow> (error, variant) result" where
  "selectedPublication rt v =
     (case readingOriginal rt (Some (v_url v)) of
        None \<Rightarrow> Inl foreign_work
      | Some original \<Rightarrow> if v_id original \<noteq> v_id v \<or> v_sourceId original \<noteq> v_sourceId v then Inl foreign_work else Inr original)"

definition document_at :: "reading_env \<Rightarrow> jstring \<Rightarrow> jstring \<Rightarrow> (error, node list) result" where
  "document_at env url encoding = bind_r (get_document env url encoding) (\<lambda>t. Inr (bt_html (rn_tools env) t))"

text \<open>jjwxc: the query is sent in the encoding of the page, byte for byte.\<close>

definition percent_byte :: "nat \<Rightarrow> jstring" where
  "percent_byte b = [37, hex_digit (b div 16), hex_digit (b mod 16)]"

definition jjwxc_site :: jstring where
  "jjwxc_site = js ''https://wap.jjwxc.net''"

definition jjwxc_found :: "reading_env \<Rightarrow> node list \<times> node \<Rightarrow> (error, work) result" where
  "jjwxc_found env = (\<lambda>(siblings, anchor).
     bind_r (href_at env (href_of anchor) jjwxc_site) (\<lambda>url.
       asian_publication env url (all_text [anchor]) (Some (all_text (select (both (tg ''a'') (attr_starts ''href'' ''/wapauthor/'')) siblings))) None None))"

definition jjwxc_search :: "reading_env \<Rightarrow> jstring \<Rightarrow> (error, work list) result" where
  "jjwxc_search env query =
     bind_r (document_at env (jjwxc_site @ js ''/search?version=1&kw='' @ concat (map percent_byte (rn_gb18030 env query)) @ js ''&t=1'') (js ''gb18030'')) (\<lambda>doc.
       map_r (jjwxc_found env) (select_siblings (both (both (tg ''a'') (cls ''track'')) (attr_starts ''href'' ''/book2/'')) doc doc))"

text \<open>\<open>/^\/book2\/(\d+)\/(\d+)$/\<close>\<close>

definition book2_numbers :: "jstring \<Rightarrow> (jstring \<times> jstring) option" where
  "book2_numbers path =
     (let rest = drop 7 path; a = takeWhile is_digit rest; b = drop (Suc (length a)) rest in
      if starts_with path (js ''/book2/'') \<and> a \<noteq> [] \<and> take 1 (drop (length a) rest) = [47] \<and> b \<noteq> [] \<and> list_all is_digit b
      then Some (a, b) else None)"

fun jjwxc_links :: "reading_env \<Rightarrow> jstring \<Rightarrow> jstring \<Rightarrow> node list \<Rightarrow> (error, book_chapter list) result" where
  "jjwxc_links env base i [] = Inr []"
| "jjwxc_links env base i (n # ns) =
     (case book2_numbers (href_of n) of
        None \<Rightarrow> jjwxc_links env base i ns
      | Some (a, b) \<Rightarrow>
          if a \<noteq> i then jjwxc_links env base i ns
          else bind_r (href_at env (href_of n) base) (\<lambda>u. bind_r (jjwxc_links env base i ns) (\<lambda>cs.
            Inr (chapter_at (rn_runtime env) (all_text [n]) u (Some (of_nat (num_of b))) # cs))))"

definition jjwxc_nothing :: error where
  "jjwxc_nothing = Failed [26187, 27743, 25991, 23398, 22478, 32, 1085, 1077, 32, 1074, 1077, 1088, 1085, 1091, 1083, 32,
    1089, 1074, 1077, 1076, 1077, 1085, 1080, 1103, 32, 1086, 32, 1087, 1088, 1086, 1080, 1079,
    1074, 1077, 1076, 1077, 1085, 1080, 1080, 46]"

definition chapter_order :: "book_chapter \<Rightarrow> rat" where
  "chapter_order c = num_or_zero (c_number c)"

definition paid_note :: "nat \<Rightarrow> jstring \<Rightarrow> author_note list option" where
  "paid_note n url = (if n = 0 then None
     else Some [\<lparr>n_text = [1055, 1086, 1082, 1072, 1079, 1072, 1085, 1099, 32, 1073, 1077, 1089, 1087, 1083, 1072, 1090,
    1085, 1099, 1077, 32, 1075, 1083, 1072, 1074, 1099, 46, 32, 1055, 1083, 1072, 1090, 1085,
    1099, 1093, 32, 1075, 1083, 1072, 1074, 32, 1085, 1072, 32, 1089, 1072, 1081, 1090, 1077, 58,
    32] @ to_dec n @ js ''.'', n_url = url, n_author = None\<rparr>])"

definition jjwxc_inspect :: "reading_env \<Rightarrow> variant \<Rightarrow> (error, work) result" where
  "jjwxc_inspect env v =
     bind_r (selectedPublication (rn_runtime env) v) (\<lambda>original.
     bind_r (document_at env (v_url original @ js ''?more=0&whole=1'') (js ''gb18030'')) (\<lambda>doc.
       let title = head_attr ''data-novelname'' (select (\<lambda>t a. jm_has a (js ''data-novelname'')) doc) in
       if \<not> truthy title then Inl jjwxc_nothing
       else let links = select_where (below [has_id ''chapter_list_box''] (tg ''a'')) [] doc;
                paid = length (select_where (below [has_id ''chapter_list_box''] (both (tg ''a'') (attr_starts ''href'' ''/vip/''))) [] doc);
                intro = all_text (select (has_id ''novelintro_whole'') doc)
         in bind_r (jjwxc_links env (v_url original) (drop 6 (v_id original)) links) (\<lambda>chapters.
           if length chapters > 30000 then Inl too_many_chapters
           else bind_r (asian_publication env (v_url original) (or_empty title)
               (Some (head_text (select_where (below [cls ''authorname-content''] (tg ''a'')) [] doc))) None
               (Some (if intro = [] then all_text (select (has_id ''novelintro'') doc) else intro))) (\<lambda>w.
             Inr ((listed_work w (sort_key chapter_order chapters))\<lparr>w_notes := paid_note paid (v_url original)\<rparr>)))))"

text \<open>
  Naver: the pages of a list of chapters are read as long as their links name further pages; more
  than 3000 are refused, so the reading ends. Chapters are keyed by their addresses.
\<close>

definition naver_site :: jstring where
  "naver_site = js ''https://novel.naver.com''"

definition naver_list :: "jstring \<Rightarrow> bool" where
  "naver_list path \<longleftrightarrow> starts_with path (js ''/challenge/list?'') \<or> starts_with path (js ''/best/list?'')"

definition naver_found :: "reading_env \<Rightarrow> node \<Rightarrow> (error, work list) result" where
  "naver_found env anchor =
     (let path = or_empty (node_attr anchor (js ''href'')); cover = head_attr ''src'' (select (tg ''img'') (node_body anchor)) in
      if \<not> naver_list path then Inr []
      else bind_r (href_at env path naver_site) (\<lambda>url. bind_r (cover_at env cover naver_site) (\<lambda>c.
        bind_r (asian_publication env url (all_text (select (cls ''title'') (node_body anchor)))
            (Some (all_text (select (cls ''author'') (node_body anchor)))) c None) (\<lambda>w. Inr [w]))))"

definition naver_search :: "reading_env \<Rightarrow> jstring \<Rightarrow> (error, work list) result" where
  "naver_search env query =
     bind_r (document_at env (naver_site @ js ''/search?keyword='' @ so_encode (rn_source env) query @ js ''&section=all&target=novel&page=1'') (js ''utf-8'')) (\<lambda>doc.
     bind_r (map_r (naver_found env) (select_where (below [cls ''cont_sub'', cls ''default_list''] (both (tg ''a'') (cls ''link''))) [] doc)) (\<lambda>wss.
       Inr (concat wss)))"

fun last_page :: "reading_env \<Rightarrow> jstring \<Rightarrow> node list \<Rightarrow> rat \<Rightarrow> (error, rat) result" where
  "last_page env base [] pages = Inr pages"
| "last_page env base (n # ns) pages = bind_r (url_at env (href_of n) base) (\<lambda>u.
     last_page env base ns (max pages (number_or_one env (url_param (rn_runtime env) ''page'' u))))"

text \<open>\<open>s.replace("/list", "/detail")\<close>: the first occurrence.\<close>

definition detail_path :: "jstring \<Rightarrow> jstring" where
  "detail_path s = (case index_of s (js ''/list'') of None \<Rightarrow> s | Some k \<Rightarrow> take k s @ js ''/detail'' @ drop (k + 5) s)"

definition volume_number :: "reading_env \<Rightarrow> url \<Rightarrow> rat option" where
  "volume_number env u =
     (case Option.bind (url_param (rn_runtime env) ''volumeNo'' u) (so_parse_number (rn_source env)) of
        None \<Rightarrow> None | Some x \<Rightarrow> if x = of_int \<lfloor>x\<rfloor> \<and> 1 \<le> x then Some x else None)"

definition own_volume :: "reading_env \<Rightarrow> jstring \<Rightarrow> jstring \<Rightarrow> url \<Rightarrow> bool" where
  "own_volume env path i u \<longleftrightarrow> u_pathname u = path \<and> url_param (rn_runtime env) ''novelId'' u = Some i"

fun naver_links :: "reading_env \<Rightarrow> jstring \<Rightarrow> jstring \<Rightarrow> jstring \<Rightarrow> node list \<Rightarrow> (jstring, book_chapter) jmap \<Rightarrow> (error, (jstring, book_chapter) jmap) result" where
  "naver_links env base path i [] chapters = Inr chapters"
| "naver_links env base path i (n # ns) chapters = bind_r (url_at env (href_of n) base) (\<lambda>u.
     if \<not> own_volume env path i u then naver_links env base path i ns chapters
     else case volume_number env u of
         None \<Rightarrow> naver_links env base path i ns chapters
       | Some x \<Rightarrow> naver_links env base path i ns (jm_set (rt_href (rn_runtime env) u)
           (chapter_at (rn_runtime env) (all_text (select (cls ''subj'') (node_body n))) (rt_href (rn_runtime env) u) (Some x)) chapters))"

definition too_many_pages :: error where
  "too_many_pages = Failed [1042, 32, 1087, 1088, 1086, 1080, 1079, 1074, 1077, 1076, 1077, 1085, 1080, 1080, 32, 1089,
    1083, 1080, 1096, 1082, 1086, 1084, 32, 1084, 1085, 1086, 1075, 1086, 32, 1089, 1090, 1088,
    1072, 1085, 1080, 1094, 32, 1089, 1087, 1080, 1089, 1082, 1072, 32, 1075, 1083, 1072, 1074, 46]"

definition naver_page :: "reading_env \<Rightarrow> jstring \<Rightarrow> jstring \<Rightarrow> jstring \<Rightarrow> node list \<Rightarrow> rat \<Rightarrow> (jstring, book_chapter) jmap
    \<Rightarrow> (error, rat \<times> (jstring, book_chapter) jmap) result" where
  "naver_page env base path i doc pages chapters =
     bind_r (last_page env base (select_where (below [cls ''default_paging''] (tg ''a'')) [] doc) pages) (\<lambda>pages'.
       if pages' > 3000 then Inl too_many_pages
       else bind_r (naver_links env base path i (select_where (below [cls ''league_num''] (both (tg ''a'') (cls ''list_item''))) [] doc) chapters)
         (\<lambda>chapters'. Inr (pages', chapters')))"

text \<open>A page is read only when it is not beyond the last known page, which is at most 3000.\<close>

lemma last_page_grows: "last_page env base ns pages = Inr pages' \<Longrightarrow> pages \<le> pages'"
  by (induction ns arbitrary: pages) (auto simp: bind_r_Inr dest: order_trans[OF max.cobounded1])

lemma naver_page_bounds: "naver_page env base path i doc pages chapters = Inr (pages', chapters') \<Longrightarrow> pages \<le> pages' \<and> pages' \<le> 3000"
  by (auto simp: naver_page_def bind_r_Inr dest: last_page_grows split: if_splits)

function naver_pages :: "reading_env \<Rightarrow> jstring \<Rightarrow> jstring \<Rightarrow> jstring \<Rightarrow> node list \<Rightarrow> nat \<Rightarrow> rat \<Rightarrow> (jstring, book_chapter) jmap
    \<Rightarrow> (error, (jstring, book_chapter) jmap) result" where
  "naver_pages env base path i first page pages chapters =
     (if of_nat page > pages then Inr chapters
      else case (if page = 1 then Inr first else document_at env (base @ js ''&page='' @ to_dec page) (js ''utf-8'')) of
          Inl e \<Rightarrow> Inl e
        | Inr doc \<Rightarrow>
            (case naver_page env base path i doc pages chapters of
               Inl e \<Rightarrow> Inl e
             | Inr (pages', chapters') \<Rightarrow> naver_pages env base path i first (Suc page) pages' chapters'))"
  by pat_completeness auto

termination
proof (relation "measure (\<lambda>(env, base, path, i, first, page, pages, chapters). 3001 - page)", simp, clarsimp)
  fix env base path i first page pages chapters doc pages' chapters'
  assume "\<not> pages < rat_of_nat page" and "naver_page env base path i doc pages chapters = Inr (pages', chapters')"
  then have "rat_of_nat page \<le> 3000" using naver_page_bounds by (metis not_less order.trans)
  then have "page \<le> 3000" by (metis of_nat_le_iff of_nat_numeral)
  then show "3000 - page < 3001 - page" by simp
qed

definition naver_nothing :: error where
  "naver_nothing = Failed [78, 65, 86, 69, 82, 32, 1085, 1077, 32, 1074, 1077, 1088, 1085, 1091, 1083, 32, 1089, 1074,
    1077, 1076, 1077, 1085, 1080, 1103, 32, 1086, 32, 1087, 1088, 1086, 1080, 1079, 1074, 1077,
    1076, 1077, 1085, 1080, 1080, 46]"

definition naver_inspect :: "reading_env \<Rightarrow> variant \<Rightarrow> (error, work) result" where
  "naver_inspect env v =
     bind_r (selectedPublication (rn_runtime env) v) (\<lambda>original.
     bind_r (document_at env (v_url original) (js ''utf-8'')) (\<lambda>first.
       let title = all_text (select_where (below [cls ''section_area_info''] (both (tg ''h2'') (cls ''title''))) [] first) in
       if title = [] then Inl naver_nothing
       else case rt_url (rn_runtime env) (v_url original) of
           None \<Rightarrow> Inl invalid_address
         | Some u \<Rightarrow>
             bind_r (naver_pages env (v_url original) (detail_path (u_pathname u)) (drop 6 (v_id original)) first 1 1 []) (\<lambda>chapters.
             bind_r (cover_at env (head_attr ''src'' (select_where (below [cls ''section_area_info'', cls ''thumbnail''] (tg ''img'')) [] first)) (v_url original)) (\<lambda>cover.
             bind_r (asian_publication env (v_url original) title
                 (Some (head_text (select_where (below [cls ''section_area_info''] (both (tg ''a'') (attr_contains ''href'' ''target=author''))) [] first)))
                 cover (Some (all_text (select (has_id ''summaryText'') first)))) (\<lambda>w.
               Inr (listed_work w (sort_key chapter_order (jm_values chapters))))))))"

section \<open>The chapters of a Naver novel\<close>

definition naver_chapter :: "runtime \<Rightarrow> jstring \<Rightarrow> jstring \<Rightarrow> jstring \<Rightarrow> book_chapter \<Rightarrow> bool" where
  "naver_chapter rt path i a c \<longleftrightarrow> c_url c = a \<and> c_id c = rt_sha256 rt a
     \<and> (\<exists>u. a = rt_href rt u \<and> u_pathname u = path \<and> url_param rt ''novelId'' u = Some i)
     \<and> (\<exists>n. c_number c = Some (of_nat n) \<and> 1 \<le> n)"

definition naver_chapters :: "runtime \<Rightarrow> jstring \<Rightarrow> jstring \<Rightarrow> (jstring, book_chapter) jmap \<Rightarrow> bool" where
  "naver_chapters rt path i m \<longleftrightarrow> jm_inv m \<and> list_all (\<lambda>(a, c). naver_chapter rt path i a c) m"

lemma naver_chapters_set:
  "naver_chapters rt path i m \<Longrightarrow> naver_chapter rt path i a c \<Longrightarrow> naver_chapters rt path i (jm_set a c m)"
  by (auto simp: naver_chapters_def list_all_iff jm_set_pairs)

lemma naver_links_own:
  "naver_links env base path i ns m = Inr m' \<Longrightarrow> naver_chapters (rn_runtime env) path i m \<Longrightarrow> naver_chapters (rn_runtime env) path i m'"
proof (induction ns arbitrary: m)
  case (Cons n ns)
  obtain u where u: "url_at env (href_of n) base = Inr u" using Cons.prems(1) by (auto simp: bind_r_Inr)
  show ?case
  proof (cases "own_volume env path i u \<and> volume_number env u \<noteq> None")
    case True
    then obtain x where x: "volume_number env u = Some x" by auto
    then have "x = of_int \<lfloor>x\<rfloor>" "1 \<le> x" by (auto simp: volume_number_def split: option.splits if_splits)
    then have "\<exists>n. Some x = Some (rat_of_nat n) \<and> 1 \<le> n"
      by (intro exI[of _ "nat \<lfloor>x\<rfloor>"]) (simp add: le_nat_iff le_floor_iff of_nat_nat)
    then have c: "naver_chapter (rn_runtime env) path i (rt_href (rn_runtime env) u)
        (chapter_at (rn_runtime env) (all_text (select (cls ''subj'') (node_body n))) (rt_href (rn_runtime env) u) (Some x))"
      using True by (auto simp: naver_chapter_def chapter_at_def own_volume_def)
    show ?thesis
      using Cons.IH[OF _ naver_chapters_set[OF Cons.prems(2) c]] Cons.prems(1) u x True by simp
  next
    case False
    then show ?thesis using Cons.IH[OF _ Cons.prems(2)] Cons.prems(1) u by (auto split: option.splits if_splits)
  qed
qed simp

lemma naver_pages_own:
  "naver_pages env base path i first page pages m = Inr m' \<Longrightarrow> naver_chapters (rn_runtime env) path i m \<Longrightarrow> naver_chapters (rn_runtime env) path i m'"
proof (induction env base path i first page pages m rule: naver_pages.induct)
  case (1 env base path i first page pages m)
  show ?case
  proof (cases "of_nat page > pages")
    case True
    then show ?thesis using 1(2,3) by (subst (asm) naver_pages.simps) simp
  next
    case False
    obtain doc where doc: "(if page = 1 then Inr first else document_at env (base @ js ''&page='' @ to_dec page) (js ''utf-8'')) = Inr doc"
      using 1(2) False by (subst (asm) naver_pages.simps) (auto split: sum.splits)
    obtain pages' n where n: "naver_page env base path i doc pages m = Inr (pages', n)"
      using 1(2) False doc by (subst (asm) naver_pages.simps) (auto split: sum.splits)
    have rest: "naver_pages env base path i first (Suc page) pages' n = Inr m'"
      using 1(2) False doc n by (subst (asm) naver_pages.simps) simp
    have "naver_chapters (rn_runtime env) path i n" using n 1(3) by (auto simp: naver_page_def bind_r_Inr dest: naver_links_own split: if_splits)
    then show ?thesis using 1(1)[OF False doc n refl rest] by simp
  qed
qed

text \<open>
  The chapters of an inspected Naver novel are in the order of their numbers, no address occurs
  twice, and every one is a volume of this novel, whatever the pages link to.
\<close>

theorem naver_chapters_own:
  assumes "naver_inspect env v = Inr w"
  shows "\<exists>original base chapters. readingOriginal (rn_runtime env) (Some (v_url v)) = Some original
    \<and> rt_url (rn_runtime env) (v_url original) = Some base \<and> w_chapters w = Some chapters
    \<and> sorted (map chapter_order chapters) \<and> distinct (map c_url chapters)
    \<and> list_all (\<lambda>c. naver_chapter (rn_runtime env) (detail_path (u_pathname base)) (drop 6 (v_id v)) (c_url c) c) chapters"
proof -
  obtain original where original: "selectedPublication (rn_runtime env) v = Inr original"
    using assms by (auto simp: naver_inspect_def bind_r_Inr)
  then have known: "readingOriginal (rn_runtime env) (Some (v_url v)) = Some original" and id: "v_id original = v_id v"
    by (auto simp: selectedPublication_def split: option.splits if_splits)
  obtain base first m where base: "rt_url (rn_runtime env) (v_url original) = Some base"
      and m: "naver_pages env (v_url original) (detail_path (u_pathname base)) (drop 6 (v_id original)) first 1 1 [] = Inr m"
      and w: "w_chapters w = Some (sort_key chapter_order (jm_values m))"
    using assms original by (auto simp: naver_inspect_def bind_r_Inr Let_def listed_work_def split: option.splits if_splits)
  have own: "naver_chapters (rn_runtime env) (detail_path (u_pathname base)) (drop 6 (v_id v)) m"
    using naver_pages_own[OF m] id by (simp add: naver_chapters_def)
  have keys: "map c_url (jm_values m) = map fst m"
    using own by (auto simp: jm_values_def naver_chapters_def naver_chapter_def list_all_iff)
  have "mset (map c_url (sort_key chapter_order (jm_values m))) = mset (map c_url (jm_values m))" by simp
  then have "distinct (map c_url (sort_key chapter_order (jm_values m)))"
    using own keys by (metis mset_eq_imp_distinct_iff naver_chapters_def jm_inv_def)
  moreover have "list_all (\<lambda>c. naver_chapter (rn_runtime env) (detail_path (u_pathname base)) (drop 6 (v_id v)) (c_url c) c) (sort_key chapter_order (jm_values m))"
    using own by (auto simp: list_all_iff jm_values_def naver_chapters_def naver_chapter_def)
  ultimately show ?thesis using known base w by (intro exI conjI) simp_all
qed

text \<open>A novel with one volume, listed twice, and a foreign link.\<close>

definition sample_novel :: "node list" where
  "sample_novel = [Element (js ''body'') [] [
     Element (js ''div'') [(js ''class'', js ''section_area_info'')] [Element (js ''h2'') [(js ''class'', js ''title'')] [TextNode (js ''N'')]],
     Element (js ''ul'') [(js ''class'', js ''league_num'')] (map (\<lambda>h. Element (js ''a'') [(js ''class'', js ''list_item''), (js ''href'', js h)]
         [Element (js ''p'') [(js ''class'', js ''subj'')] [TextNode (js ''V'')]])
       [''https://novel.naver.com/best/detail?novelId=42&volumeNo=2'', ''https://novel.naver.com/best/detail?novelId=42&volumeNo=1'',
        ''https://novel.naver.com/best/detail?novelId=42&volumeNo=2'', ''https://novel.naver.com/best/detail?novelId=43&volumeNo=3''])]]"

definition sample_naver :: reading_env where
  "sample_naver = sample_reading\<lparr>rn_tools := sample_tools\<lparr>bt_html := (\<lambda>_. sample_novel)\<rparr>\<rparr>"

definition sample_naver_variant :: variant where
  "sample_naver_variant = original_variant Naver (js ''42'', js ''https://novel.naver.com/best/list?novelId=42'')"

definition naver_work :: work where
  "naver_work = (case naver_inspect sample_naver sample_naver_variant of Inr w \<Rightarrow> w | Inl e \<Rightarrow> new_work [] [] Books [])"

theorem naver_chapters_own_witness:
  "\<exists>chapters. w_chapters naver_work = Some chapters \<and> map c_number chapters = [Some 1, Some 2]
    \<and> sorted (map chapter_order chapters) \<and> distinct (map c_url chapters)"
proof -
  have "\<not> isl (naver_inspect sample_naver sample_naver_variant)" by code_simp
  then have run: "naver_inspect sample_naver sample_naver_variant = Inr naver_work"
    by (auto simp: naver_work_def split: sum.splits)
  have "map_option (map c_number) (w_chapters naver_work) = Some [Some 1, Some 2]" by code_simp
  then show ?thesis using naver_chapters_own[OF run] by auto
qed

end
