(* ===== verification/Web.thy ===== *)
theory Web
  imports Novels Catalog
begin

text \<open>
  \<open>providers/http.ts\<close>: the requests of the sources of games and videos. A page that asks for a
  check in the browser is an error with the code \<open>browser_check_required\<close>, which the catalog
  answers with a check. Also here: the places of a page, for selections that look at the
  ancestors and siblings of an element.
\<close>

section \<open>Requests\<close>

record web_request =
  wq_url :: jstring
  wq_method :: jstring
  wq_headers :: "(jstring, jstring) jmap"
  wq_body :: "jstring option"

text \<open>The answer's address is empty when the runtime does not name it; header names are in lower case.\<close>

record web_response =
  wr_url :: jstring
  wr_status :: nat
  wr_headers :: "(jstring, jstring) jmap"
  wr_bytes :: "nat list"

record web_env =
  wb_source :: source_env
  wb_tools :: book_tools
  wb_request :: "web_request \<Rightarrow> (error, web_response) result"
  wb_utf8 :: "nat list \<Rightarrow> jstring"
  wb_decode :: "jstring \<Rightarrow> nat list \<Rightarrow> jstring option"
  wb_parse :: "jstring \<Rightarrow> json option"
  wb_print :: "json \<Rightarrow> jstring"
  wb_base64 :: "jstring \<Rightarrow> nat list"
  wb_atob :: "jstring \<Rightarrow> jstring option"
  wb_decrypt :: "nat list \<Rightarrow> json \<Rightarrow> jstring \<Rightarrow> (error, jstring) result"
  wb_upper :: "jstring \<Rightarrow> jstring"
  wb_decode_uri :: "jstring \<Rightarrow> jstring option"
  wb_fragment :: "node list \<Rightarrow> node list"
  wb_numeral :: "nat \<Rightarrow> bool"
  wb_settings :: "(jstring, jstring) jmap"
  wb_aborted :: bool

abbreviation wb_runtime :: "web_env \<Rightarrow> runtime" where
  "wb_runtime env \<equiv> so_runtime (wb_source env)"

definition plain_get :: "jstring \<Rightarrow> web_request" where
  "plain_get url = \<lparr>wq_url = url, wq_method = js ''GET'', wq_headers = [], wq_body = None\<rparr>"

definition setting_of :: "web_env \<Rightarrow> string \<Rightarrow> jstring option" where
  "setting_of env name = jm_get (wb_settings env) (js name)"

definition http_check :: "nat \<Rightarrow> jstring" where
  "http_check s = [1048, 1089, 1090, 1086, 1095, 1085, 1080, 1082, 32, 1090, 1088, 1077, 1073, 1091, 1077, 1090,
    32, 1074, 1093, 1086, 1076, 1072, 32, 1080, 1083, 1080, 32, 1087, 1088, 1086, 1074, 1077,
    1088, 1082, 1080, 32, 1074, 32, 1073, 1088, 1072, 1091, 1079, 1077, 1088, 1077, 32, 40, 72,
    84, 84, 80, 32] @ to_dec s @ js '').''"

definition page_check :: jstring where
  "page_check = [1054, 1090, 1082, 1088, 1086, 1081, 1090, 1077, 32, 1080, 1089, 1090, 1086, 1095, 1085, 1080,
    1082, 32, 1074, 32, 1073, 1088, 1072, 1091, 1079, 1077, 1088, 1077, 44, 32, 1087, 1088, 1086,
    1081, 1076, 1080, 1090, 1077, 32, 1087, 1088, 1086, 1074, 1077, 1088, 1082, 1091, 32, 1080,
    32, 1087, 1086, 1074, 1090, 1086, 1088, 1080, 1090, 1077, 32, 1076, 1077, 1081, 1089, 1090,
    1074, 1080, 1077, 46]"

definition unexpected_data :: error where
  "unexpected_data = Failed [1048, 1089, 1090, 1086, 1095, 1085, 1080, 1082, 32, 1085, 1077, 32, 1087, 1088, 1077, 1076,
    1086, 1089, 1090, 1072, 1074, 1080, 1083, 32, 1086, 1078, 1080, 1076, 1072, 1077, 1084, 1099,
    1077, 32, 1076, 1072, 1085, 1085, 1099, 1077, 46]"

definition response_address :: "web_request \<Rightarrow> web_response \<Rightarrow> jstring" where
  "response_address q r = (if wr_url r = [] then wq_url q else wr_url r)"

definition sourceResponse :: "web_env \<Rightarrow> web_request \<Rightarrow> (error, web_response) result" where
  "sourceResponse env q = bind_r (wb_request env q) (\<lambda>r.
     if in_range 200 299 (wr_status r) then Inr r
     else if wr_status r \<in> {401, 403, 420}
     then Inl (Content browser_check_required (http_check (wr_status r)) (Some (response_address q r)))
     else Inl (source_status (wr_status r)))"

section \<open>Checks\<close>

definition attr_is :: "string \<Rightarrow> string \<Rightarrow> selector" where
  "attr_is a v tag attrs \<longleftrightarrow> jm_get attrs (js a) = Some (js v)"

definition present :: "selector \<Rightarrow> node list \<Rightarrow> bool" where
  "present P doc \<longleftrightarrow> select P doc \<noteq> []"

definition anubis_page :: "node list \<Rightarrow> bool" where
  "anubis_page doc \<longleftrightarrow> present (both (both (tg ''script'') (has_id ''anubis_challenge'')) (attr_is ''type'' ''application/json'')) doc
     \<and> present (both (both (tg ''script'') (has_id ''anubis-main'')) (attr_contains ''src'' ''/.within.website/x/cmd/anubis/'')) doc"

definition cloudflare_page :: "(jstring, jstring) jmap \<Rightarrow> node list \<Rightarrow> bool" where
  "cloudflare_page headers doc \<longleftrightarrow> jm_get headers (js ''cf-mitigated'') = Some (js ''challenge'')
     \<or> present (\<lambda>t a. has_id ''challenge-form'' t a \<or> has_id ''cf-challenge-running'' t a) doc
       \<and> present (both (tg ''script'') (attr_contains ''src'' ''/cdn-cgi/challenge-platform/'')) doc"

definition ddos_guard_page :: "node list \<Rightarrow> bool" where
  "ddos_guard_page doc \<longleftrightarrow> present (both (tg ''script'') (attr_contains ''src'' ''check.ddos-guard.net/check.js'')) doc"

definition captcha_page :: "node list \<Rightarrow> bool" where
  "captcha_page doc \<longleftrightarrow> present (both (tg ''form'') (\<lambda>t a. has_id ''captcha-form'' t a \<or> attr_contains ''action'' ''/captcha'' t a)) doc"

definition htmlDocument :: "web_env \<Rightarrow> jstring \<Rightarrow> jstring \<Rightarrow> (jstring, jstring) jmap \<Rightarrow> (error, node list) result" where
  "htmlDocument env text url headers =
     (let doc = bt_html (wb_tools env) text in
      if anubis_page doc \<or> cloudflare_page headers doc \<or> ddos_guard_page doc \<or> captcha_page doc
      then Inl (Content browser_check_required page_check (Some url)) else Inr doc)"

definition web_json :: "web_env \<Rightarrow> web_request \<Rightarrow> (error, json) result" where
  "web_json env q = bind_r (sourceResponse env q) (\<lambda>r.
     let text = wb_utf8 env (wr_bytes r) in
     case wb_parse env text of
       Some j \<Rightarrow> Inr j
     | None \<Rightarrow> bind_r (htmlDocument env text (response_address q r) (wr_headers r)) (\<lambda>_. Inl unexpected_data))"

definition charset_rx :: rx where
  "charset_rx = RSeqs [RLitI (js ''charset=''), RGroup 1 (RPlus (RCh (\<lambda>c. c \<noteq> 59 \<and> \<not> is_space c)))]"

definition charset_of :: "(jstring, jstring) jmap \<Rightarrow> jstring" where
  "charset_of headers = (case Option.bind (jm_get headers (js ''content-type'')) (rx_cap charset_rx 1) of
     None \<Rightarrow> js ''utf-8'' | Some c \<Rightarrow> c)"

definition range_error :: error where
  "range_error = Failed (js ''RangeError'')"

definition web_html :: "web_env \<Rightarrow> web_request \<Rightarrow> (error, node list) result" where
  "web_html env q = bind_r (sourceResponse env q) (\<lambda>r.
     case wb_decode env (charset_of (wr_headers r)) (wr_bytes r) of
       None \<Rightarrow> Inl range_error
     | Some text \<Rightarrow> htmlDocument env text (response_address q r) (wr_headers r))"

text \<open>
  A source's page is used only after the challenge marks have been looked for, and a challenge
  always reaches the catalog as an error that names an address to check.
\<close>

lemma web_html_Inr:
  "web_html env q = Inr doc \<Longrightarrow> \<not> anubis_page doc \<and> \<not> ddos_guard_page doc \<and> \<not> captcha_page doc"
  by (auto simp: web_html_def bind_r_Inr htmlDocument_def Let_def split: option.splits if_splits)

lemma sourceResponse_check:
  "sourceResponse env q = Inl (Content c m u) \<Longrightarrow> wb_request env q = Inl (Content c m u) \<or> (c = browser_check_required \<and> u \<noteq> None)"
  by (auto simp: sourceResponse_def bind_r_Inl source_status_def split: if_splits)

text \<open>\<open>filter\<close> with a callback that may raise.\<close>

fun filter_r :: "('a \<Rightarrow> ('e, bool) result) \<Rightarrow> 'a list \<Rightarrow> ('e, 'a list) result" where
  "filter_r f [] = Inr []"
| "filter_r f (x # xs) = bind_r (f x) (\<lambda>b. bind_r (filter_r f xs) (\<lambda>ys. Inr (if b then x # ys else ys)))"

lemma filter_r_Inr: "filter_r f xs = Inr ys \<Longrightarrow> y \<in> set ys \<Longrightarrow> y \<in> set xs \<and> f y = Inr True"
  by (induction xs arbitrary: ys) (auto simp: bind_r_Inr split: if_splits)

text \<open>A value that is used as an array, and \<open>a || b\<close> on texts.\<close>

definition array_of :: "json option \<Rightarrow> (error, json list) result" where
  "array_of v = (case json_array v of None \<Rightarrow> Inl type_error | Some xs \<Rightarrow> Inr xs)"

definition or_text :: "jstring \<Rightarrow> jstring \<Rightarrow> jstring" where
  "or_text a b = (if a = [] then b else a)"

section \<open>Places in a page\<close>

text \<open>
  A place is an element with the nodes before it, the nearest first, followed by its ancestors in
  the same form. All places of a page come in document order.
\<close>

type_synonym page_place = "(node \<times> node list) list"

fun places_in :: "page_place \<Rightarrow> node list \<Rightarrow> node list \<Rightarrow> page_place list" where
  "places_in up left [] = []"
| "places_in up left (TextNode t # ns) = places_in up (TextNode t # left) ns"
| "places_in up left (Element tag attrs body # ns) =
     ((Element tag attrs body, left) # up) # places_in ((Element tag attrs body, left) # up) [] body
       @ places_in up (Element tag attrs body # left) ns"

definition places :: "node list \<Rightarrow> page_place list" where
  "places doc = places_in [] [] doc"

definition node_is :: "selector \<Rightarrow> node \<Rightarrow> bool" where
  "node_is P n = (case n of TextNode t \<Rightarrow> False | Element tag attrs body \<Rightarrow> P tag attrs)"

definition here :: "page_place \<Rightarrow> node" where
  "here p = (case p of [] \<Rightarrow> TextNode [] | (n, left) # up \<Rightarrow> n)"

definition place_is :: "selector \<Rightarrow> page_place \<Rightarrow> bool" where
  "place_is P p \<longleftrightarrow> node_is P (here p)"

definition inside_of :: "selector \<Rightarrow> page_place \<Rightarrow> bool" where
  "inside_of P p \<longleftrightarrow> list_ex (\<lambda>(n, left). node_is P n) (tl p)"

text \<open>\<open>closest\<close>, the farthest of \<open>parents\<close>, \<open>prev\<close> and the first of \<open>prevAll\<close>.\<close>

definition closest :: "selector \<Rightarrow> page_place \<Rightarrow> page_place option" where
  "closest P p = (case dropWhile (\<lambda>(n, left). \<not> node_is P n) p of [] \<Rightarrow> None | q \<Rightarrow> Some q)"

definition outermost :: "selector \<Rightarrow> page_place \<Rightarrow> page_place option" where
  "outermost P p = (case filter (\<lambda>q. place_is P q) (rev (map (\<lambda>k. drop k p) [1..<length p])) of [] \<Rightarrow> None | q # qs \<Rightarrow> Some q)"

definition elements_before :: "page_place \<Rightarrow> node list" where
  "elements_before p = (case p of [] \<Rightarrow> [] | (n, left) # up \<Rightarrow> filter (\<lambda>m. case m of TextNode t \<Rightarrow> False | Element tag attrs body \<Rightarrow> True) left)"

definition before_is :: "selector \<Rightarrow> page_place \<Rightarrow> node list" where
  "before_is P p = (case elements_before p of [] \<Rightarrow> [] | n # ns \<Rightarrow> if node_is P n then [n] else [])"

definition nearest_before :: "selector \<Rightarrow> page_place \<Rightarrow> node list" where
  "nearest_before P p = take 1 (filter (node_is P) (elements_before p))"

definition place_attr :: "string \<Rightarrow> page_place \<Rightarrow> jstring option" where
  "place_attr a p = node_attr (here p) (js a)"

definition place_text :: "page_place \<Rightarrow> jstring" where
  "place_text p = text_of [here p]"

definition found_in :: "selector \<Rightarrow> page_place \<Rightarrow> node list" where
  "found_in P p = select P (node_body (here p))"

text \<open>The path of a place for a selector with ancestors.\<close>

definition ancestors :: "page_place \<Rightarrow> (jstring \<times> (jstring, jstring) jmap) list" where
  "ancestors p = List.map_filter (\<lambda>(n, left). case n of TextNode t \<Rightarrow> None | Element tag attrs body \<Rightarrow> Some (tag, attrs)) (tl p)"

definition at_path :: "path_selector \<Rightarrow> page_place \<Rightarrow> bool" where
  "at_path S p = (case here p of TextNode t \<Rightarrow> False | Element tag attrs body \<Rightarrow> S (ancestors p) tag attrs)"

definition places_under :: "page_place \<Rightarrow> node list \<Rightarrow> page_place list" where
  "places_under b doc = filter (\<lambda>p. list_ex (\<lambda>k. drop k p = b) [1..<length p]) (places doc)"

lemma places_in_here: "p \<in> set (places_in up left ns) \<Longrightarrow> p \<noteq> []"
  by (induction up left ns rule: places_in.induct) auto

text \<open>The places of a page that match are the elements that \<open>select\<close> finds, in the same order.\<close>

lemma places_select: "map here (filter (place_is P) (places_in up left ns)) = select P ns"
  by (induction up left ns rule: places_in.induct) (simp_all add: place_is_def here_def node_is_def)

section \<open>A sample\<close>

text \<open>A network whose pages are named by their addresses, with bytes and texts that stand for themselves.\<close>

definition sample_web :: "(jstring, node list) jmap \<Rightarrow> (jstring, json) jmap \<Rightarrow> web_env" where
  "sample_web docs answers =
     \<lparr>wb_source = Galleries.sample_source, wb_tools = sample_tools\<lparr>bt_html := (\<lambda>t. list_or (jm_get docs t))\<rparr>,
      wb_request = (\<lambda>q. Inr \<lparr>wr_url = [], wr_status = 200, wr_headers = [], wr_bytes = wq_url q\<rparr>),
      wb_utf8 = (\<lambda>b. b), wb_decode = (\<lambda>c b. Some b), wb_parse = jm_get answers,
      wb_print = (\<lambda>j. case j of JArr (JText u # rest) \<Rightarrow> u | _ \<Rightarrow> []), wb_base64 = (\<lambda>t. t), wb_atob = Some,
      wb_decrypt = (\<lambda>k p t. Inr t), wb_upper = (\<lambda>t. t), wb_decode_uri = Some, wb_fragment = (\<lambda>ns. ns), wb_numeral = (\<lambda>_. False),
      wb_settings = [], wb_aborted = False\<rparr>"

definition sample_link :: "string \<Rightarrow> string \<Rightarrow> node" where
  "sample_link href label = Element (js ''a'') [(js ''href'', js href)] [TextNode (js label)]"

end
