(* ===== verification/GameText.thy ===== *)
theory GameText
  imports Web
begin

text \<open>
  The texts of \<open>providers/games/catalog.ts\<close> and \<open>games/fitgirl.ts\<close>: names, versions, authors
  and sizes of releases, the kinds of their files, literals inside scripts and the keys of
  public mirrors.
\<close>

section \<open>Links\<close>

definition web_protocols :: "jstring list" where
  "web_protocols = map js [''http:'', ''https:'', ''magnet:'']"

definition urlAt :: "runtime \<Rightarrow> jstring option \<Rightarrow> jstring \<Rightarrow> jstring option" where
  "urlAt rt v base =
     (if \<not> truthy v then None
      else case resolve_url rt (Some base) (or_empty v) of
          None \<Rightarrow> None
        | Some u \<Rightarrow> if u_protocol u \<in> set web_protocols then Some (rt_href rt u) else None)"

definition short_key :: "runtime \<Rightarrow> jstring \<Rightarrow> jstring" where
  "short_key rt v = take 20 (rt_sha256 rt v)"

section \<open>Texts\<close>

definition cleanText :: "jstring \<Rightarrow> jstring" where
  "cleanText t = trim (rx_replace (RSeqs [RLit [10], RSpaces, RLit [10], RSpaces, RLit [10]]) (\<lambda>_. [10, 10])
     (rx_replace (RPlus (RCh (\<lambda>c. c = 9 \<or> c = 32))) (\<lambda>_. [32]) (rx_replace (RLit [160]) (\<lambda>_. [32]) t)))"

definition build_rx :: rx where
  "build_rx = RSeqs [RAlt (RLitI (js ''Build'')) (RLitI [1073, 1080, 1083, 1076]), RSpaces, RPlus RDigit]"

definition joint :: "nat \<Rightarrow> bool" where
  "joint c \<longleftrightarrow> c = 46 \<or> c = 45 \<or> c = 95"

definition release_version_rx :: rx where
  "release_version_rx = RSeqs [
     RAlts [RSeqs [RWordB, RLitI (js ''v''), RSpaces],
       RSeqs [ROpt (RSeq (RLitI (js ''Game'')) (RPlus RSpace)), RLitI (js ''Version''), RSpaces, ROpt (RLit (js '':'')), RSpaces],
       RSeqs [RLitI [1074, 1077, 1088, 1089, 1080], RAlt (RLitI [1103]) (RLitI [1080]), RSpaces, ROpt (RLit (js '':'')), RSpaces]],
     RGroup 1 (RAlt build_rx
       (RSeqs [RPlus RDigit, RStar True (RSeq (RCh joint) (RPlus RDigit)),
          ROpt (RSeqs [ROpt (RCh joint), RCh is_letter, RStar True RDigit, RLook False (RCh is_letter)]),
          ROpt (RSeq RSpaces build_rx)]))]"

definition stage_rx :: rx where
  "stage_rx = RSeqs [RWordB, RAlts [RLitI (js ''stable''), RLitI (js ''beta''), RLitI (js ''alpha'')], RCh joint, RPlus RDigit,
     RStar True (RSeq (RCh joint) (RPlus RDigit)), ROpt (RSeq (RCh joint) (RCh is_letter)), RWordB]"

definition whole_match :: "rx \<Rightarrow> jstring \<Rightarrow> jstring option" where
  "whole_match r t = map_option f_text (rx_exec r t)"

definition version_of :: "jstring \<Rightarrow> jstring option" where
  "version_of t = opt_or (opt_or (rx_cap release_version_rx 1 t) (whole_match stage_rx t)) (whole_match (RSeqs [RWordB, build_rx, RWordB]) t)"

definition author_rx :: "web_env \<Rightarrow> rx" where
  "author_rx env = RSeqs [
     RAlts [RSeqs [RLitI (js ''RePack''), RPlus RSpace, RAlt (RLitI [1086, 1090]) (RLitI (js ''by''))],
       RSeqs [RLitI [1088, 1077, 1087, 1072, 1082], RPlus RSpace, RLitI [1086, 1090]],
       RSeqs [RLitI (js ''Steam''), RCh (\<lambda>c. c = 45 \<or> c = 32), RLitI (js ''Rip''), RPlus RSpace, RLitI [1086, 1090]],
       RSeq RWordB (RLitI (js ''by''))],
     RPlus RSpace, RGroup 1 (RPlus (RCp (\<lambda>c. rt_letter (wb_runtime env) c \<or> wb_numeral env c \<or> c = 46 \<or> c = 95 \<or> c = 45)))]"

definition known_author_rx :: rx where
  "known_author_rx = RSeqs [RWordB, RGroup 1 (RAlts (map (\<lambda>n. RLitI (js n))
     [''FitGirl'', ''Pioneer'', ''SELEZEN'', ''Online-Fix'', ''DODI'', ''Wanterlude''])), RWordB]"

definition author_of :: "web_env \<Rightarrow> jstring \<Rightarrow> jstring option" where
  "author_of env t = map_option (rx_replace1 (RSeqs [RLit (js ''.''), RAlts (map (\<lambda>n. RLitI (js n)) [''torrent'', ''zip'', ''rar'', ''7z'']), REol]) (\<lambda>_. []))
     (opt_or (rx_cap (author_rx env) 1 t) (rx_cap known_author_rx 1 t))"

text \<open>A size with its unit, in bytes rounded to the nearest.\<close>

definition size_units :: "(jstring \<times> nat) list" where
  "size_units = [([1058, 1041], 4), ([1043, 1041], 3), ([1052, 1041], 2), ([1050, 1041], 1), (js ''TB'', 4), (js ''GB'', 3), (js ''MB'', 2), (js ''KB'', 1)]"

definition size_rx :: "web_env \<Rightarrow> rx" where
  "size_rx env = RSeqs [RAlt RBol (RCh (\<lambda>c. is_space c \<or> c = 91 \<or> c = 40)),
     RGroup 1 (RSeq (RPlus RDigit) (ROpt (RSeq (RCh (\<lambda>c. c = 46 \<or> c = 44)) (RPlus RDigit)))), RSpaces,
     RGroup 2 (RAlts (map (\<lambda>(u, p). RLitI u) size_units)),
     RLook True (RAlt REol (RCp (\<lambda>c. \<not> rt_letter (wb_runtime env) c \<and> \<not> wb_numeral env c)))]"

definition unit_power :: "jstring \<Rightarrow> nat" where
  "unit_power u = (case find (\<lambda>(n, p). map fold_case n = map fold_case u) size_units of None \<Rightarrow> 1 | Some (n, p) \<Rightarrow> p)"

definition bytes_of :: "web_env \<Rightarrow> jstring \<Rightarrow> rat option" where
  "bytes_of env t =
     (case rx_exec (size_rx env) t of
        None \<Rightarrow> None
      | Some f \<Rightarrow> map_option (\<lambda>x. of_int \<lfloor>x * 1024 ^ unit_power (or_empty (cap f 2)) + 1 / 2\<rfloor>)
          (so_parse_number (wb_source env) (map (\<lambda>c. if c = 44 then 46 else c) (or_empty (cap f 1)))))"

text \<open>The marks of a release that are no part of the game's title.\<close>

definition rest_of_line :: rx where
  "rest_of_line = RSeq (RStar True RDot) REol"

definition is_dash :: "nat \<Rightarrow> bool" where
  "is_dash c \<longleftrightarrow> c = 8211 \<or> c = 8212"

definition editions_rx :: rx where
  "editions_rx = RSeqs [ROpt (RSeq (RLitI (js ''Digital'')) (RPlus RSpace)),
     RAlts [RLitI (js ''Deluxe''), RLitI (js ''Ultimate''), RLitI (js ''Gold''), RLitI (js ''Complete''),
       RSeqs [RLitI (js ''Collector''), ROpt RDot, RLitI (js ''s'')], RLitI (js ''Premium''), RLitI (js ''Soundtrack'')],
     RPlus RSpace, RLitI (js ''Edition''), RWordB]"

definition title_marks :: "rx list" where
  "title_marks = [
     RSeqs [RSpaces, RLit (js ''(''), ROpt (RSeq (RLitI (js ''Update'')) (RPlus RSpace)), RLitI (js ''v''), RDigit, rest_of_line],
     RSeqs [RSpaces, RLitI (js ''[DODI Repack]''), RSpaces, REol],
     RSeqs [RSpaces, RLit (js ''+''), RSpaces, RLitI (js ''Online ''), RAlt (RLitI (js ''Multiplayer'')) (RLitI (js ''Co-op'')), RSpaces, REol],
     RSeqs [RPlus RSpace, ROpt (RSeq (RLitI [1080, 1075, 1088, 1072, 1090, 1100]) (RPlus RSpace)), RLitI [1087, 1086], RPlus RSpace, RLitI [1089, 1077, 1090, 1080],
       ROpt (RSeqs [RPlus RSpace, RLitI [1080], RPlus RSpace, RLitI [1080, 1085, 1090, 1077, 1088, 1085, 1077, 1090, 1091]]), ROpt (RSeq (RPlus RSpace) (RLitI [1086, 1085, 1083, 1072, 1081, 1085])),
       ROpt (RSeqs [RSpaces, RLit (js ''/''), RSpaces, RLitI [1051, 1040, 1053]]), RSpaces, REol],
     RSeqs [RSpaces, RCh is_dash, RSpaces, RAlts [RSeqs [RStar True (RCh (\<lambda>c. \<not> is_dash c)), RWordB, RLitI (js ''Edition''), RWordB],
       RSeq (RLitI (js ''v'')) RDigit, RSeqs [RLitI (js ''Build''), RSpaces, RDigit]], rest_of_line],
     RSeqs [RLit (js '':''), RSpaces, editions_rx, rest_of_line]]"

definition titleOf :: "jstring \<Rightarrow> jstring" where
  "titleOf t = fold (\<lambda>r s. rx_replace1 r (\<lambda>_. []) s) title_marks (cleanText t)"

text \<open>The kind of a file by its label.\<close>

definition fix_name_rx :: rx where
  "fix_name_rx = RSeqs [RLitI (js ''Online''), RCh (\<lambda>c. c = 45 \<or> c = 32), RLitI (js ''Fix'')]"

definition mentions :: "jstring list \<Rightarrow> jstring \<Rightarrow> bool" where
  "mentions names t \<longleftrightarrow> rx_test (RAlts (map RLitI names)) t"

definition whole_word :: "string \<Rightarrow> rx" where
  "whole_word w = RSeqs [RWordB, RLitI (js w), RWordB]"

definition kind_of :: "jstring \<Rightarrow> publication_kind option" where
  "kind_of text =
     (if rx_test (RSeqs [fix_name_rx, RLit (js '' ''), RAlt (RLitI (js ''Hosters'')) (RLitI (js ''Drive''))]) text then None
      else let t = rx_replace (RSeqs [RWordB, fix_name_rx, RWordB]) (\<lambda>_. []) text in
        if (rx_test (RAlts [RSeqs [RWordB, RAlt (RLitI (js ''fix'')) (RLitI (js ''crack'')), RWordB], RLitI [1092, 1080, 1082, 1089]]) t)
          \<and> \<not> rx_test (RSeqs [RLit (js ''+''), RSpaces, ROpt (RAlt (RLitI (js ''LAN'')) (RLitI (js ''Steam''))), RSpaces, RLitI (js ''Fix'')]) t
        then Some Fix
        else if mentions [js ''patch'', js ''update'', [1087, 1072, 1090, 1095], [1086, 1073, 1085, 1086, 1074, 1083, 1077, 1085, 1080, 1077]] t then Some Patch
        else if mentions [js ''optional'', js ''selective'', js ''bonus'', js ''goodie'', js ''soundtrack'', [1073, 1086, 1085, 1091, 1089], [1076, 1086, 1087, 1086, 1083, 1085, 1080, 1090, 1077, 1083], [1089, 1072, 1091, 1085, 1076, 1090, 1088, 1077, 1082]] t
          \<or> rx_test (whole_word ''mods'') t \<or> rx_test (RSeqs [RWordB, RLitI [1084, 1086, 1076, 1099], RWordB]) t then Some OptionalPart
        else if rx_test (RAlts [RSeqs [RLitI (js ''.part''), RPlus RDigit, RLit (js ''.'')], RSeqs [RLitI [1095, 1072, 1089, 1090, 1100], RSpaces, RPlus RDigit],
          RSeqs [RLitI (js ''part''), RSpaces, RPlus RDigit]]) t then Some ArchivePart
        else Some Full)"

definition getfile_rx :: rx where
  "getfile_rx = RSeqs [RLit (js ''/getfile-''), RGroup 1 (RPlus RDigit)]"

definition directTorrent :: "jstring \<Rightarrow> jstring \<Rightarrow> bool" where
  "directTorrent url label \<longleftrightarrow> starts_with url (js ''magnet:'')
     \<or> rx_test (RAlt (RSeq (RLitI (js ''.torrent'')) (RAlt (RCh (\<lambda>c. c = 63 \<or> c = 35)) REol))
         (RSeqs [RCh (\<lambda>c. c = 63 \<or> c = 38), RLitI (js ''do=download''), RAlt (RLit (js ''&'')) REol])) url
     \<or> rx_test getfile_rx url \<and> rx_test (RSeq (RLitI (js ''.torrent'')) RWordB) label"

text \<open>A link through the site's own counter: its target is given in base64.\<close>

definition unwrapLink :: "web_env \<Rightarrow> jstring \<Rightarrow> (error, jstring) result" where
  "unwrapLink env v =
     (case rt_url (wb_runtime env) v of
        None \<Rightarrow> Inl invalid_address
      | Some u \<Rightarrow> Inr (if u_pathname u = js ''/engine/go.php''
          then (case url_param (wb_runtime env) ''url'' u of
              None \<Rightarrow> v
            | Some w \<Rightarrow> (case urlAt (wb_runtime env) (Some (wb_utf8 env (wb_base64 env w))) v of None \<Rightarrow> v | Some x \<Rightarrow> x))
          else v))"

section \<open>Literals of scripts\<close>

text \<open>
  \<open>jsonAssignment\<close> looks for \<open>const name =\<close> and takes the literal that follows: an array or an
  object up to the bracket that closes it. The scan counts brackets outside strings.
\<close>

definition opens :: "nat \<Rightarrow> bool" where
  "opens c \<longleftrightarrow> c = 91 \<or> c = 123"

definition closes :: "nat \<Rightarrow> bool" where
  "closes c \<longleftrightarrow> c = 93 \<or> c = 125"

text \<open>The literal up to its last bracket: depth, inside a string, after a backslash.\<close>

fun literal_scan :: "nat \<Rightarrow> bool \<Rightarrow> bool \<Rightarrow> jstring \<Rightarrow> jstring option" where
  "literal_scan depth quoted escaped [] = None"
| "literal_scan depth quoted escaped (c # s) =
     (if quoted then map_option (\<lambda>t. c # t) (literal_scan depth (escaped \<or> c \<noteq> 34) (\<not> escaped \<and> c = 92) s)
      else if c = 34 then map_option (\<lambda>t. c # t) (literal_scan depth True escaped s)
      else if opens c then map_option (\<lambda>t. c # t) (literal_scan (Suc depth) False escaped s)
      else if closes c then (if depth = 1 then Some [c] else map_option (\<lambda>t. c # t) (literal_scan (depth - 1) False escaped s))
      else map_option (\<lambda>t. c # t) (literal_scan depth False escaped s))"

definition json_literal :: "jstring \<Rightarrow> jstring option" where
  "json_literal s = (case s of [] \<Rightarrow> None | c # t \<Rightarrow> if opens c then literal_scan 0 False False s else None)"

definition assignment_rx :: "string \<Rightarrow> rx" where
  "assignment_rx name = RSeqs [RWordB, RAlts [RLit (js ''const''), RLit (js ''let''), RLit (js ''var'')], RPlus RSpace, RLit (js name),
     RSpaces, RLit (js ''=''), RSpaces]"

definition jsonAssignment :: "web_env \<Rightarrow> jstring \<Rightarrow> string \<Rightarrow> json option" where
  "jsonAssignment env script name =
     (case rx_exec (assignment_rx name) script of
        None \<Rightarrow> None
      | Some f \<Rightarrow> Option.bind (json_literal (f_after f)) (wb_parse env))"

text \<open>
  A JSON text as a serializer writes it: the texts of numbers are given, strings have every quote
  and backslash escaped.
\<close>

definition string_char :: "nat \<Rightarrow> jstring" where
  "string_char c = (if c = 34 then [92, 34] else if c = 92 then [92, 92] else if c = 10 then [92, 110] else [c])"

definition string_literal :: "jstring \<Rightarrow> jstring" where
  "string_literal t = [34] @ concat (map string_char t) @ [34]"

fun json_written :: "(rat \<Rightarrow> jstring) \<Rightarrow> json \<Rightarrow> jstring" where
  "json_written num JNull = js ''null''"
| "json_written num (JBool b) = (if b then js ''true'' else js ''false'')"
| "json_written num (JNum x) = num x"
| "json_written num (JText t) = string_literal t"
| "json_written num (JArr xs) = [91] @ join [44] (map (json_written num) xs) @ [93]"
| "json_written num (JObj m) = [123] @ join [44] (map (\<lambda>(k, v). string_literal k @ [58] @ json_written num v) m) @ [125]"

definition plain_text :: "jstring \<Rightarrow> bool" where
  "plain_text t \<longleftrightarrow> list_all (\<lambda>c. c \<noteq> 34 \<and> \<not> opens c \<and> \<not> closes c) t"

text \<open>A text that the scan passes through at any depth.\<close>

definition passes :: "jstring \<Rightarrow> bool" where
  "passes t \<longleftrightarrow> (\<forall>d s. 0 < d \<longrightarrow> literal_scan d False False (t @ s) = map_option (\<lambda>u. t @ u) (literal_scan d False False s))"

lemma option_map_ident: "map_option (\<lambda>u. u) x = x"
  by (cases x) simp_all

lemma passes_Nil: "passes []"
  by (simp add: passes_def option_map_ident)

lemma passes_append: "passes a \<Longrightarrow> passes b \<Longrightarrow> passes (a @ b)"
  by (simp add: passes_def option.map_comp comp_def)

lemma passes_plain: "plain_text t \<Longrightarrow> passes t"
proof (induction t)
  case (Cons c t)
  then have "passes t" "c \<noteq> 34" "\<not> opens c" "\<not> closes c" by (simp_all add: plain_text_def)
  then show ?case by (simp add: passes_def option.map_comp comp_def)
qed (rule passes_Nil)

lemma scan_string:
  "literal_scan d True False (concat (map string_char t) @ 34 # s) = map_option (\<lambda>u. concat (map string_char t) @ 34 # u) (literal_scan d False False s)"
  by (induction t) (simp_all add: string_char_def option.map_comp comp_def)

lemma passes_string: "passes (string_literal t)"
  by (simp add: passes_def string_literal_def scan_string option.map_comp comp_def)

lemma passes_join: "(\<And>x. x \<in> set xs \<Longrightarrow> passes x) \<Longrightarrow> passes (join [44] xs)"
proof (induction "[44 :: nat]" xs rule: join.induct)
  case (3 x y xs)
  have "passes [44]" by (rule passes_plain) (simp add: plain_text_def opens_def closes_def)
  then show ?case using 3 by (simp add: passes_append del: append_Cons)
qed (simp_all add: passes_Nil)

text \<open>Inside a bracket the content passes and the closing bracket ends the literal or its level.\<close>

lemma scan_bracket:
  assumes "opens a" "closes b" "passes t"
  shows "literal_scan d False False ([a] @ t @ [b] @ s)
    = (if d = 0 then Some ([a] @ t @ [b]) else map_option (\<lambda>u. [a] @ t @ [b] @ u) (literal_scan d False False s))"
  using assms by (auto simp: passes_def opens_def closes_def option.map_comp comp_def)

lemma passes_bracket: "opens a \<Longrightarrow> closes b \<Longrightarrow> passes t \<Longrightarrow> passes ([a] @ t @ [b])"
  using scan_bracket[of a b t] unfolding passes_def append_assoc by simp

lemma brackets: "opens 91" "closes 93" "opens 123" "closes 125"
  by (simp_all add: opens_def closes_def)

lemma written_passes: "(\<And>x. plain_text (num x)) \<Longrightarrow> passes (json_written num j)"
proof (induction num j rule: json_written.induct)
  case (5 num xs)
  then have "passes (join [44] (map (json_written num) xs))" by (intro passes_join) auto
  then show ?case using passes_bracket[OF brackets(1,2)] by simp
next
  case (6 num m)
  have "passes (string_literal k @ [58] @ json_written num v)" if "(k, v) \<in> set m" for k v
  proof -
    have "passes [58]" by (rule passes_plain) (simp add: plain_text_def opens_def closes_def)
    then show ?thesis using 6 that by (intro passes_append passes_string) auto
  qed
  then have "passes (join [44] (map (\<lambda>(k, v). string_literal k @ [58] @ json_written num v) m))" by (intro passes_join) auto
  then show ?case using passes_bracket[OF brackets(3,4)] by simp
qed (auto simp: passes_string intro!: passes_plain simp: plain_text_def opens_def closes_def)

text \<open>
  The literal of an assignment is cut out exactly: whatever follows an array or an object in a
  script, and whatever its strings hold, the scan ends at the bracket that closes it.
\<close>

theorem literal_exact:
  assumes "j = JArr xs \<or> j = JObj m" and "\<And>x. plain_text (num x)"
  shows "json_literal (json_written num j @ script) = Some (json_written num j)"
proof -
  have arr: "passes (join [44] (map (json_written num) ys))" for ys by (intro passes_join) (auto intro: written_passes assms(2))
  have obj: "passes (join [44] (map (\<lambda>(k, v). string_literal k @ [58] @ json_written num v) ms))" for ms
  proof -
    have "passes [58]" by (rule passes_plain) (simp add: plain_text_def opens_def closes_def)
    then show ?thesis by (intro passes_join) (auto simp del: append_Cons intro!: passes_append passes_string written_passes assms(2))
  qed
  from assms(1) show ?thesis
  proof
    assume j: "j = JArr xs"
    show ?thesis using scan_bracket[OF brackets(1,2) arr[of xs], of 0 script] by (simp add: j json_literal_def opens_def del: literal_scan.simps)
  next
    assume j: "j = JObj m"
    show ?thesis using scan_bracket[OF brackets(3,4) obj[of m], of 0 script] by (simp add: j json_literal_def opens_def del: literal_scan.simps)
  qed
qed

theorem literal_exact_witness:
  "json_literal (json_written (\<lambda>_. js ''1'') (JArr [JText (js ''a]'') , JNum 1, JArr []]) @ js ''; b = []'')
    = Some (json_written (\<lambda>_. js ''1'') (JArr [JText (js ''a]''), JNum 1, JArr []]))"
  by (rule literal_exact) (simp_all add: plain_text_def opens_def closes_def)

end
