(* ===== verification/GamePages.thy ===== *)
theory GamePages
  imports GameText
begin

text \<open>
  The pages of games before their releases are read: keys and lists of FitGirl's public mirrors
  (\<open>games/fitgirl.ts\<close>), and in \<open>games/catalog.ts\<close> the requests of pages, the blocks of ByRut that
  are loaded on demand and the directories of Online-Fix.
\<close>

section \<open>Keys of public mirrors\<close>

definition base58_alphabet :: jstring where
  "base58_alphabet = js ''123456789ABCDEFGHJKLMNPQRSTUVWXYZabcdefghijkmnopqrstuvwxyz''"

definition key_length_error :: error where
  "key_length_error = Failed [1053, 1077, 1074, 1077, 1088, 1085, 1072, 1103, 32, 1076, 1083, 1080, 1085, 1072, 32, 1082,
    1083, 1102, 1095, 1072, 32, 1087, 1091, 1073, 1083, 1080, 1095, 1085, 1086, 1075, 1086, 32,
    1079, 1077, 1088, 1082, 1072, 1083, 1072, 32, 70, 105, 116, 71, 105, 114, 108, 46]"

definition key_error :: error where
  "key_error = Failed [1053, 1077, 1074, 1077, 1088, 1085, 1099, 1081, 32, 1082, 1083, 1102, 1095, 32, 1087, 1091,
    1073, 1083, 1080, 1095, 1085, 1086, 1075, 1086, 32, 1079, 1077, 1088, 1082, 1072, 1083, 1072,
    32, 70, 105, 116, 71, 105, 114, 108, 46]"

fun base58_number :: "jstring \<Rightarrow> nat \<Rightarrow> (error, nat) result" where
  "base58_number [] n = Inr n"
| "base58_number (c # s) n = (case index_of base58_alphabet [c] of None \<Rightarrow> Inl key_error | Some d \<Rightarrow> base58_number s (n * 58 + d))"

text \<open>The bytes of a number, the highest first and none for zero: \<open>toString(16)\<close> in pairs of digits.\<close>

fun number_bytes :: "nat \<Rightarrow> nat list" where
  "number_bytes n = (if n = 0 then [] else number_bytes (n div 256) @ [n mod 256])"

definition base58 :: "jstring \<Rightarrow> (error, nat list) result" where
  "base58 v =
     (if v = [] \<or> length v > 44 then Inl key_length_error
      else bind_r (base58_number v 0) (\<lambda>n.
        let decoded = replicate (length (takeWhile (\<lambda>c. c = 49) v)) 0 @ number_bytes n in
        if length decoded \<noteq> 32 then Inl key_length_error else Inr decoded))"

text \<open>The text of a key: a one for every leading zero byte, then the digits of the number.\<close>

fun base58_digits :: "nat \<Rightarrow> jstring" where
  "base58_digits n = (if n = 0 then [] else base58_digits (n div 58) @ [base58_alphabet ! (n mod 58)])"

definition base58_text :: "nat list \<Rightarrow> jstring" where
  "base58_text bs = map (\<lambda>_. 49) (takeWhile (\<lambda>b. b = 0) bs) @ base58_digits (bytes_value bs)"

declare number_bytes.simps [simp del] base58_digits.simps [simp del]

lemma base58_digit_index: "d < 58 \<Longrightarrow> index_of base58_alphabet [base58_alphabet ! d] = Some d"
proof -
  have "list_all (\<lambda>d. index_of base58_alphabet [base58_alphabet ! d] = Some d) [0..<58]" by code_simp
  then show "d < 58 \<Longrightarrow> index_of base58_alphabet [base58_alphabet ! d] = Some d" by (simp add: list_all_iff)
qed

lemma base58_digit_one: "d < 58 \<Longrightarrow> base58_alphabet ! d = 49 \<longleftrightarrow> d = 0"
proof -
  have "list_all (\<lambda>d. (base58_alphabet ! d = 49) = (d = 0)) [0..<58]" by code_simp
  then show "d < 58 \<Longrightarrow> base58_alphabet ! d = 49 \<longleftrightarrow> d = 0" by (simp add: list_all_iff)
qed

lemma base58_number_append: "base58_number (s @ t) n = bind_r (base58_number s n) (base58_number t)"
  by (induction s arbitrary: n) (auto split: option.splits)

lemma base58_number_digits: "base58_number (base58_digits n) 0 = Inr n"
proof (induction n rule: base58_digits.induct)
  case (1 n)
  show ?case
  proof (cases "n = 0")
    case True
    then show ?thesis by (simp add: base58_digits.simps)
  next
    case False
    then show ?thesis using 1 base58_digit_index[of "n mod 58"] by (subst base58_digits.simps) (simp add: base58_number_append)
  qed
qed

lemma base58_number_ones: "base58_number (replicate k 49 @ s) 0 = base58_number s 0"
proof -
  have "index_of base58_alphabet [49] = Some 0" by code_simp
  then show ?thesis by (induction k) simp_all
qed

lemma base58_digits_hd: "0 < n \<Longrightarrow> base58_digits n \<noteq> [] \<and> hd (base58_digits n) \<noteq> 49"
proof (induction n rule: base58_digits.induct)
  case (1 n)
  then show ?case
  proof (cases "n div 58 = 0")
    case True
    then show ?thesis using 1(2) base58_digit_one[of "n mod 58"] by (simp add: base58_digits.simps[of n] base58_digits.simps[of 0])
  next
    case False
    then have "base58_digits (n div 58) \<noteq> [] \<and> hd (base58_digits (n div 58)) \<noteq> 49" using 1 by simp
    then show ?thesis using 1(2) by (simp add: base58_digits.simps[of n])
  qed
qed

lemma base58_digits_length: "n < 58 ^ k \<Longrightarrow> length (base58_digits n) \<le> k"
proof (induction k arbitrary: n)
  case (Suc k)
  show ?case
  proof (cases "n = 0")
    case False
    have "n div 58 < 58 ^ k" using Suc.prems by (simp add: div_less_iff_less_mult mult.commute)
    then show ?thesis using Suc.IH False by (simp add: base58_digits.simps[of n])
  qed (simp add: base58_digits.simps)
qed (simp add: base58_digits.simps)

lemma bytes_value_snoc: "bytes_value (bs @ [b]) = 256 * bytes_value bs + b"
  by (simp add: bytes_value_def)

lemma bytes_value_zeros: "bytes_value (replicate k 0 @ bs) = bytes_value bs"
  by (induction k) (simp_all add: bytes_value_def)

lemma bytes_value_bound: "list_all (\<lambda>b. b < 256) bs \<Longrightarrow> bytes_value bs < 256 ^ length bs"
proof (induction bs rule: rev_induct)
  case (snoc b bs)
  then have "bytes_value bs + 1 \<le> 256 ^ length bs" "b < 256" by (simp_all add: list_all_iff)
  then show ?case by (simp add: bytes_value_snoc)
qed (simp add: bytes_value_def)

lemma number_bytes_value: "list_all (\<lambda>b. b < 256) bs \<Longrightarrow> bs = [] \<or> hd bs \<noteq> 0 \<Longrightarrow> number_bytes (bytes_value bs) = bs \<and> (bs \<noteq> [] \<longrightarrow> 0 < bytes_value bs)"
proof (induction bs rule: rev_induct)
  case Nil
  then show ?case by (simp add: bytes_value_def number_bytes.simps)
next
  case (snoc b bs)
  show ?case
  proof (cases "bs = []")
    case True
    then show ?thesis using snoc.prems by (simp add: bytes_value_def number_bytes.simps[of b] number_bytes.simps[of 0])
  next
    case False
    then have "number_bytes (bytes_value bs) = bs" "0 < bytes_value bs" "b < 256" using snoc by (auto simp: list_all_iff)
    then show ?thesis by (simp add: bytes_value_snoc number_bytes.simps[of "256 * bytes_value bs + b"])
  qed
qed

text \<open>
  C38: every key of 32 bytes can be written in a link and is read back from its text, leading zero
  bytes included.
\<close>

theorem base58_roundtrip:
  assumes "length bs = 32" "list_all (\<lambda>b. b < 256) bs"
  shows "base58 (base58_text bs) = Inr bs"
proof -
  define z where "z = length (takeWhile (\<lambda>b. b = 0) bs)"
  define r where "r = dropWhile (\<lambda>b. b = 0) bs"
  have zeros: "takeWhile (\<lambda>b. b = 0) bs = replicate z 0" unfolding z_def by (induction bs) auto
  have bs: "bs = replicate z 0 @ r" using zeros unfolding r_def by (metis takeWhile_dropWhile_id)
  have len: "length r = 32 - z" "z \<le> 32" using assms(1) bs by auto
  have r: "list_all (\<lambda>b. b < 256) r" using assms(2) bs by (metis list_all_append)
  have hd: "r = [] \<or> hd r \<noteq> 0" unfolding r_def by (induction bs) auto
  have v: "bytes_value bs = bytes_value r" using bs bytes_value_zeros by metis
  have written: "base58_text bs = replicate z 49 @ base58_digits (bytes_value r)"
    by (simp add: base58_text_def zeros v map_replicate_const)
  have "list_all (\<lambda>z. (256 :: nat) ^ (32 - z) \<le> 58 ^ (44 - z)) [0..<33]" by code_simp
  then have "(256 :: nat) ^ (32 - z) \<le> 58 ^ (44 - z)" using len(2) by (simp add: list_all_iff)
  then have "bytes_value r < 58 ^ (44 - z)" using bytes_value_bound[OF r] len(1) by simp
  from base58_digits_length[OF this] have short: "length (base58_text bs) \<le> 44" using len(2) by (simp add: written)
  have ones: "takeWhile (\<lambda>c. c = 49) (base58_text bs) = replicate z 49"
  proof (cases "bytes_value r = 0")
    case True
    then show ?thesis by (simp add: written base58_digits.simps)
  next
    case False
    then have "base58_digits (bytes_value r) \<noteq> []" "hd (base58_digits (bytes_value r)) \<noteq> 49" using base58_digits_hd by auto
    then show ?thesis by (cases "base58_digits (bytes_value r)") (simp_all add: written takeWhile_append)
  qed
  have "base58_text bs \<noteq> []"
  proof
    assume "base58_text bs = []"
    then have "z = 0" "bytes_value r = 0" using written base58_digits_hd[of "bytes_value r"] by auto
    then show False using number_bytes_value[OF r hd] len(1) by auto
  qed
  moreover have "base58_number (base58_text bs) 0 = Inr (bytes_value r)"
    by (simp add: written base58_number_ones base58_number_digits)
  moreover have "number_bytes (bytes_value r) = r" using number_bytes_value[OF r hd] by simp
  ultimately show ?thesis using short ones assms(1) bs by (simp add: base58_def)
qed

theorem base58_roundtrip_witness: "base58 (base58_text (0 # [100..<131])) = Inr (0 # [100..<131])"
  by (rule base58_roundtrip) (simp_all add: list_all_iff)

section \<open>Public mirrors\<close>

definition mirror_unavailable :: error where
  "mirror_unavailable = Failed [1055, 1091, 1073, 1083, 1080, 1095, 1085, 1086, 1077, 32, 1079, 1077, 1088, 1082, 1072, 1083,
    1086, 32, 70, 105, 116, 71, 105, 114, 108, 32, 1074, 1088, 1077, 1084, 1077, 1085, 1085, 1086,
    32, 1085, 1077, 1076, 1086, 1089, 1090, 1091, 1087, 1085, 1086, 46]"

definition mirror_changed :: error where
  "mirror_changed = Failed [1060, 1086, 1088, 1084, 1072, 1090, 32, 1087, 1091, 1073, 1083, 1080, 1095, 1085, 1086, 1075,
    1086, 32, 1079, 1077, 1088, 1082, 1072, 1083, 1072, 32, 70, 105, 116, 71, 105, 114, 108, 32,
    1080, 1079, 1084, 1077, 1085, 1080, 1083, 1089, 1103, 46]"

definition mirror_unsupported :: error where
  "mirror_unsupported = Failed [1055, 1072, 1088, 1072, 1084, 1077, 1090, 1088, 1099, 32, 1087, 1091, 1073, 1083, 1080, 1095,
    1085, 1086, 1075, 1086, 32, 1079, 1077, 1088, 1082, 1072, 1083, 1072, 32, 70, 105, 116, 71,
    105, 114, 108, 32, 1085, 1077, 32, 1087, 1086, 1076, 1076, 1077, 1088, 1078, 1080, 1074, 1072,
    1102, 1090, 1089, 1103, 46]"

text \<open>The parameters that are accepted: AES-GCM with 256 bits, zlib, a bounded number of rounds and text.\<close>

definition nth_value :: "json list \<Rightarrow> nat \<Rightarrow> json option" where
  "nth_value xs k = (if k < length xs then Some (xs ! k) else None)"

definition mirror_supported :: "json list \<Rightarrow> jstring \<Rightarrow> bool" where
  "mirror_supported p ct \<longleftrightarrow> nth_value p 5 = Some (JText (js ''aes'')) \<and> nth_value p 6 = Some (JText (js ''gcm''))
     \<and> nth_value p 7 = Some (JText (js ''zlib'')) \<and> nth_value p 3 = Some (JNum 256) \<and> nth_value p 4 = Some (JNum 128)
     \<and> (case json_number (nth_value p 2) of None \<Rightarrow> False | Some x \<Rightarrow> x = of_int \<lfloor>x\<rfloor> \<and> 1 \<le> x \<and> x \<le> 2000000)
     \<and> length ct \<le> 2 * 1024 * 1024"

definition until_hash :: "jstring \<Rightarrow> jstring" where
  "until_hash s = takeWhile (\<lambda>c. c \<noteq> 35) s"

definition mirrorText :: "web_env \<Rightarrow> url \<Rightarrow> (error, jstring) result" where
  "mirrorText env u =
     bind_r (wb_request env ((plain_get (until_hash (rt_href (wb_runtime env) u)))
         \<lparr>wq_headers := [(js ''Accept'', js ''application/json''), (js ''X-Requested-With'', js ''JSONHttpRequest'')]\<rparr>)) (\<lambda>r.
       if \<not> in_range 200 299 (wr_status r) then Inl mirror_unavailable
       else case wb_parse env (wb_utf8 env (wr_bytes r)) of
           None \<Rightarrow> Inl not_json
         | Some paste \<Rightarrow>
             bind_r (member (Some paste) ''status'') (\<lambda>status.
               case (json_array (field paste ''adata''), json_text (field paste ''ct'')) of
                 (Some (JArr p # adata), Some ct) \<Rightarrow>
                   if status \<noteq> Some (JNum 0) \<or> field paste ''v'' \<noteq> Some (JNum 2) then Inl mirror_changed
                   else if \<not> mirror_supported p ct then Inl mirror_unsupported
                   else bind_r (base58 (u_hash u)) (\<lambda>secret.
                     bind_r (wb_decrypt env secret (JArr (JArr p # adata)) ct) (\<lambda>clear.
                       case wb_parse env clear of
                         None \<Rightarrow> Inl not_json
                       | Some d \<Rightarrow> bind_r (member (Some d) ''paste'') (\<lambda>t. Inr (or_empty (json_text t)))))
               | _ \<Rightarrow> Inl mirror_changed))"

definition mirror_link_rx :: rx where
  "mirror_link_rx = RSeqs [RLit (js ''http''), ROpt (RLit (js ''s'')), RLit (js ''://''),
     RPlus (RCh (\<lambda>c. \<not> is_space c \<and> c \<notin> {60, 62, 34, 93, 41}))]"

definition mirror_links :: "jstring \<Rightarrow> jstring list" where
  "mirror_links t = uniq (map f_text (rx_all mirror_link_rx t))"

definition mirror_name :: "url \<Rightarrow> jstring" where
  "mirror_name u = (if u_hostname u = js ''fuckingfast.co'' \<and> u_hash u \<noteq> [] then u_hash u else last (split_char 47 (u_pathname u)))"

definition link_element :: "jstring \<Rightarrow> (jstring, jstring) jmap \<Rightarrow> jstring \<Rightarrow> node" where
  "link_element href attrs label = Element (js ''a'') ((js ''href'', href) # attrs) [TextNode label]"

definition mirror_entry :: "web_env \<Rightarrow> jstring \<Rightarrow> jstring \<Rightarrow> (error, node) result" where
  "mirror_entry env label link =
     (case rt_url (wb_runtime env) link of
        None \<Rightarrow> Inl invalid_address
      | Some u \<Rightarrow> (case wb_decode_uri env (mirror_name u) of
          None \<Rightarrow> Inl malformed_uri
        | Some name \<Rightarrow> Inr (Element (js ''li'') [] [link_element (rt_href (wb_runtime env) u) [(js ''data-publisher-mirror'', js ''true'')]
            (join [44, 32] (filter (\<lambda>t. t \<noteq> []) [label, u_hostname u, name]))])))"

text \<open>The list that replaces a link to a public mirror; links elsewhere and mirrors without links stay.\<close>

definition mirror_list :: "web_env \<Rightarrow> node \<Rightarrow> (error, node option) result" where
  "mirror_list env anchor =
     (case rt_url (wb_runtime env) (href_of anchor) of
        None \<Rightarrow> Inl invalid_address
      | Some u \<Rightarrow>
          if u_hostname u \<noteq> js ''paste.fitgirl-repacks.site'' \<or> u_hash u = [] then Inr None
          else bind_r (mirrorText env u) (\<lambda>t.
            if mirror_links t = [] then Inr None
            else bind_r (map_r (mirror_entry env (text_of [anchor])) (mirror_links t)) (\<lambda>entries.
              Inr (Some (Element (js ''ul'') [] entries)))))"

definition mirror_anchor :: selector where
  "mirror_anchor = both (tg ''a'') (attr_contains ''href'' ''paste.fitgirl-repacks.site/'')"

text \<open>The page with the lists appended to the nearest \<open>li\<close>, and the lists that look for one further up.\<close>

fun expand_mirrors :: "web_env \<Rightarrow> bool \<Rightarrow> node list \<Rightarrow> (error, node list \<times> node list) result" where
  "expand_mirrors env inn [] = Inr ([], [])"
| "expand_mirrors env inn (TextNode t # ns) = bind_r (expand_mirrors env inn ns) (\<lambda>(rest, lists). Inr (TextNode t # rest, lists))"
| "expand_mirrors env inn (Element tag attrs body # ns) =
     bind_r (if inn \<and> mirror_anchor tag attrs then mirror_list env (Element tag attrs body) else Inr None) (\<lambda>found.
       case found of
         Some u \<Rightarrow> bind_r (expand_mirrors env inn ns) (\<lambda>(rest, lists). Inr (rest, u # lists))
       | None \<Rightarrow>
           bind_r (expand_mirrors env (inn \<or> has_class (js ''entry-content'') tag attrs) body) (\<lambda>(body', own).
           bind_r (expand_mirrors env inn ns) (\<lambda>(rest, lists).
             if tag = js ''li'' then Inr (Element tag attrs (body' @ own) # rest, lists)
             else Inr (Element tag attrs body' # rest, own @ lists))))"

definition expandFitgirlMirrors :: "web_env \<Rightarrow> node list \<Rightarrow> (error, node list) result" where
  "expandFitgirlMirrors env doc = bind_r (expand_mirrors env False doc) (\<lambda>(doc', lists). Inr doc')"

section \<open>Pages with the settings of a source\<close>

text \<open>\<open>page\<close>: the account's cookie goes with requests to the configured site only.\<close>

definition page_request :: "web_env \<Rightarrow> web_request \<Rightarrow> (error, web_request) result" where
  "page_request env q =
     (if \<not> truthy (setting_of env ''baseUrl'') then Inr q
      else case (rt_url (wb_runtime env) (or_empty (setting_of env ''baseUrl'')), rt_url (wb_runtime env) (wq_url q)) of
          (Some b, Some u) \<Rightarrow> Inr (if url_origin b = url_origin u \<and> truthy (setting_of env ''cookie'')
            then q\<lparr>wq_headers := (js ''Cookie'', or_empty (setting_of env ''cookie'')) # wq_headers q\<rparr> else q)
        | _ \<Rightarrow> Inl invalid_address)"

definition game_page :: "web_env \<Rightarrow> web_request \<Rightarrow> (error, node list) result" where
  "game_page env q = bind_r (page_request env q) (web_html env)"

lemma page_request_cookie:
  assumes "page_request env q = Inr q'" "wq_headers q' \<noteq> wq_headers q"
  shows "\<exists>b u. rt_url (wb_runtime env) (or_empty (setting_of env ''baseUrl'')) = Some b
    \<and> rt_url (wb_runtime env) (wq_url q') = Some u \<and> url_origin u = url_origin b"
  using assms by (auto simp: page_request_def split: option.splits if_splits)

section \<open>Blocks of ByRut\<close>

type_synonym game_session = "(jstring \<Rightarrow> (web_env \<Rightarrow> (error, node list) result) \<Rightarrow> (error, node list) result) option"

definition block_request :: "jstring \<Rightarrow> jstring \<Rightarrow> runtime \<Rightarrow> jstring \<Rightarrow> jstring \<Rightarrow> web_request" where
  "block_request url page_url rt block i = \<lparr>wq_url = url, wq_method = js ''POST'',
     wq_headers = [(js ''Content-Type'', js ''application/x-www-form-urlencoded''), (js ''X-Requested-With'', js ''XMLHttpRequest''),
       (js ''Referer'', page_url)],
     wq_body = Some (rt_form_text rt [(js ''block'', block), (js ''id'', i)])\<rparr>"

definition block_content :: "web_env \<Rightarrow> game_session \<Rightarrow> jstring \<Rightarrow> jstring \<Rightarrow> jstring \<Rightarrow> (error, node list) result" where
  "block_content env session page_url i block =
     (case resolve_url (wb_runtime env) (Some page_url) (js ''/engine/ajax/controller.php?mod=ajaxsp'') of
        None \<Rightarrow> Inl invalid_address
      | Some u \<Rightarrow>
          (let url = rt_href (wb_runtime env) u; ask = (\<lambda>e. game_page e (block_request url page_url (wb_runtime env) block i)) in
           bind_r (case session of None \<Rightarrow> ask env | Some f \<Rightarrow> f url ask) (\<lambda>doc. Inr (wb_fragment env doc))))"

fun set_content :: "node list \<Rightarrow> node list \<Rightarrow> node list" where
  "set_content content [] = []"
| "set_content content (TextNode t # ns) = TextNode t # set_content content ns"
| "set_content content (Element tag attrs body # ns) =
     Element tag attrs (if has_class (js ''ajax-content'') tag attrs then content else set_content content body) # set_content content ns"

fun expand_blocks :: "(jstring \<Rightarrow> (error, node list) result) \<Rightarrow> bool \<Rightarrow> node list \<Rightarrow> node list \<times> error list" where
  "expand_blocks f inn [] = ([], [])"
| "expand_blocks f inn (TextNode t # ns) = (let (rest, es) = expand_blocks f inn ns in (TextNode t # rest, es))"
| "expand_blocks f inn (Element tag attrs body # ns) =
     (let (body', es) = expand_blocks f (inn \<or> has_id ''other_repacks'' tag attrs) body; (rest, es') = expand_blocks f inn ns in
      if inn \<and> jm_has attrs (js ''data-ajax'')
      then (case f (or_empty (jm_get attrs (js ''data-ajax''))) of
          Inl e \<Rightarrow> (Element tag attrs body' # rest, e # es @ es')
        | Inr content \<Rightarrow> (Element tag attrs (set_content content body') # rest, es @ es'))
      else (Element tag attrs body' # rest, es @ es'))"

text \<open>The page with its blocks and the failures that are reported; an aborted inspection ends with the first failure.\<close>

definition expandByrut :: "web_env \<Rightarrow> game_session \<Rightarrow> jstring \<Rightarrow> node list \<Rightarrow> (error, node list \<times> error list) result" where
  "expandByrut env session page_url doc =
     (let i = head_attr ''data-news-id'' (select (\<lambda>t a. tg ''article'' t a \<and> jm_has a (js ''data-news-id'')) doc) in
      if \<not> truthy i then Inr (doc, [])
      else let (doc', es) = expand_blocks (block_content env session page_url (or_empty i)) False doc in
        if wb_aborted env \<and> es \<noteq> [] then Inl Aborted else Inr (doc', es))"

section \<open>Directories of Online-Fix\<close>

definition directory_too_large :: error where
  "directory_too_large = Failed [1050, 1072, 1090, 1072, 1083, 1086, 1075, 32, 1092, 1072, 1081, 1083, 1086, 1074, 32, 1089,
    1083, 1080, 1096, 1082, 1086, 1084, 32, 1074, 1077, 1083, 1080, 1082, 46, 32, 1054, 1090,
    1082, 1088, 1086, 1081, 1090, 1077, 32, 1074, 1099, 1073, 1088, 1072, 1085, 1085, 1091, 1102,
    32, 1087, 1091, 1073, 1083, 1080, 1082, 1072, 1094, 1080, 1102, 46]"

definition file_name_rx :: rx where
  "file_name_rx = RSeqs [RLit (js ''.''), RAlts (map (\<lambda>n. RLitI (js n)) [''torrent'', ''zip'', ''rar'', ''7z'']), REol]"

definition fix_directory_rx :: rx where
  "fix_directory_rx = RAlt (RLitI (js ''Fix%20Repair'')) (RLitI (js ''/fix/''))"

datatype listed_file = Directory jstring | GameFile jstring jstring

definition listed_entry :: "web_env \<Rightarrow> jstring \<Rightarrow> jstring \<Rightarrow> node \<Rightarrow> listed_file option" where
  "listed_entry env directory current n =
     (let name = all_text [n] in
      case urlAt (wb_runtime env) (node_attr n (js ''href'')) current of
        None \<Rightarrow> None
      | Some url \<Rightarrow>
          if \<not> starts_with url directory \<or> url = current then None
          else if ends_with url [47] then Some (Directory url)
          else if \<not> rx_test file_name_rx name then None
          else Some (GameFile url ((if rx_test fix_directory_rx current then [1060, 1080, 1082, 1089, 58, 32] else []) @ name)))"

definition listed_entries :: "web_env \<Rightarrow> jstring \<Rightarrow> jstring \<Rightarrow> node list \<Rightarrow> listed_file list" where
  "listed_entries env directory current listing =
     List.map_filter (listed_entry env directory current) (select (\<lambda>t a. tg ''a'' t a \<and> jm_has a (js ''href'')) listing)"

definition sub_directories :: "listed_file list \<Rightarrow> jstring list" where
  "sub_directories fs = List.map_filter (\<lambda>f. case f of Directory u \<Rightarrow> Some u | GameFile u n \<Rightarrow> None) fs"

definition game_files :: "listed_file list \<Rightarrow> (jstring \<times> jstring) list" where
  "game_files fs = List.map_filter (\<lambda>f. case f of Directory u \<Rightarrow> None | GameFile u n \<Rightarrow> Some (u, n)) fs"

text \<open>
  The walk over the directories below a first one: a directory is read once, and a forty-first
  is refused. The second result lists the directories in the order of their visits.
\<close>

function walk :: "web_env \<Rightarrow> jstring \<Rightarrow> jstring \<Rightarrow> jstring list \<Rightarrow> jstring list \<Rightarrow> (jstring \<times> jstring) list
    \<Rightarrow> (error, (jstring \<times> jstring) list) result \<times> jstring list" where
  "walk env page_url directory [] visited files = (Inr files, visited)"
| "walk env page_url directory (current # pending) visited files =
     (if current \<in> set visited then walk env page_url directory pending visited files
      else if Suc (length visited) > 40 then (Inl directory_too_large, visited)
      else case game_page env ((plain_get current)\<lparr>wq_headers := [(js ''Referer'', page_url)]\<rparr>) of
          Inl e \<Rightarrow> (Inl e, visited @ [current])
        | Inr listing \<Rightarrow>
            (let entries = listed_entries env directory current listing in
             walk env page_url directory (pending @ sub_directories entries) (visited @ [current]) (files @ game_files entries)))"
  by pat_completeness auto
termination
  by (relation "measures [\<lambda>(env, page_url, directory, pending, visited, files). 41 - length visited,
    \<lambda>(env, page_url, directory, pending, visited, files). length pending]") auto

definition walk_inv :: "jstring \<Rightarrow> jstring list \<Rightarrow> jstring list \<Rightarrow> (jstring \<times> jstring) list \<Rightarrow> bool" where
  "walk_inv directory pending visited files \<longleftrightarrow> distinct visited \<and> length visited \<le> 40
     \<and> list_all (\<lambda>u. starts_with u directory) (pending @ visited) \<and> list_all (\<lambda>(u, n). starts_with u directory) files"

lemma listed_entries_below:
  "list_all (\<lambda>u. starts_with u directory) (sub_directories (listed_entries env directory current listing))"
  "list_all (\<lambda>(u, n). starts_with u directory) (game_files (listed_entries env directory current listing))"
proof -
  have all: "list_all (\<lambda>f. case f of Directory u \<Rightarrow> starts_with u directory | GameFile u n \<Rightarrow> starts_with u directory) (listed_entries env directory current listing)"
    by (auto simp: list_all_iff listed_entries_def map_filter_def listed_entry_def Let_def split: option.splits if_splits)
  show "list_all (\<lambda>u. starts_with u directory) (sub_directories (listed_entries env directory current listing))"
    using all by (auto simp: list_all_iff sub_directories_def map_filter_def split: listed_file.splits)
  show "list_all (\<lambda>(u, n). starts_with u directory) (game_files (listed_entries env directory current listing))"
    using all by (auto simp: list_all_iff game_files_def map_filter_def split: listed_file.splits)
qed

lemma walk_keeps:
  "walk_inv directory pending visited files \<Longrightarrow> walk env page_url directory pending visited files = (r, visited')
    \<Longrightarrow> \<exists>files'. walk_inv directory [] visited' files' \<and> (\<forall>fs. r = Inr fs \<longrightarrow> fs = files')"
proof (induction env page_url directory pending visited files rule: walk.induct)
  case (1 env page_url directory visited files)
  then show ?case by auto
next
  case (2 env page_url directory current pending visited files)
  have idle: "walk_inv directory [] visited files" using 2(3) by (simp add: walk_inv_def)
  show ?case
  proof (cases "current \<in> set visited")
    case True
    have "walk_inv directory pending visited files" using 2(3) by (simp add: walk_inv_def)
    then show ?thesis using 2(1)[OF True] 2(4) True by simp
  next
    case new: False
    show ?thesis
    proof (cases "Suc (length visited) > 40")
      case True
      then show ?thesis using 2(4) new idle by auto
    next
      case few: False
      show ?thesis
      proof (cases "game_page env ((plain_get current)\<lparr>wq_headers := [(js ''Referer'', page_url)]\<rparr>)")
        case (Inl e)
        have "walk_inv directory [] (visited @ [current]) files" using 2(3) new few by (simp add: walk_inv_def)
        then show ?thesis using 2(4) new few Inl by auto
      next
        case (Inr listing)
        let ?entries = "listed_entries env directory current listing"
        have "walk_inv directory (pending @ sub_directories ?entries) (visited @ [current]) (files @ game_files ?entries)"
          using 2(3) new few listed_entries_below[of directory env current listing] by (simp add: walk_inv_def)
        then show ?thesis using 2(2)[OF new few Inr refl] 2(4) new few Inr by (simp add: Let_def)
      qed
    qed
  qed
qed

text \<open>
  C36: the walk over a publisher's directories ends, reads at most forty directories and none twice,
  and neither a directory it reads nor a file it offers lies outside the directory of the
  publication's link, whatever the listings link to.
\<close>

theorem walk_confined:
  assumes "walk env page_url directory [directory] [] [] = (r, visited)"
  shows "distinct visited \<and> length visited \<le> 40 \<and> list_all (\<lambda>u. starts_with u directory) visited
    \<and> (case r of Inl e \<Rightarrow> True | Inr files \<Rightarrow> list_all (\<lambda>(u, n). starts_with u directory) files)"
proof -
  have "walk_inv directory [directory] [] []" by (simp add: walk_inv_def starts_with_def)
  from walk_keeps[OF this assms] show ?thesis by (auto simp: walk_inv_def split: sum.splits)
qed

text \<open>A directory with a file, a directory below it and links to other places.\<close>

definition sample_directories :: "(jstring, node list) jmap" where
  "sample_directories = [
     (js ''https://u.org/d/'', [sample_link ''https://u.org/'' ''..'', sample_link ''https://u.org/d/fix/'' ''fix'',
        sample_link ''https://u.org/d/a.zip'' ''a.zip'', sample_link ''https://v.org/b.zip'' ''b.zip'']),
     (js ''https://u.org/d/fix/'', [sample_link ''https://u.org/d/'' ''..'', sample_link ''https://u.org/d/fix/c.rar'' ''c.rar''])]"

theorem walk_confined_witness:
  "\<exists>files. walk (sample_web sample_directories []) (js ''https://p.org/'') (js ''https://u.org/d/'') [js ''https://u.org/d/''] [] []
      = (Inr files, [js ''https://u.org/d/'', js ''https://u.org/d/fix/''])
    \<and> map fst files = [js ''https://u.org/d/a.zip'', js ''https://u.org/d/fix/c.rar'']
    \<and> list_all (\<lambda>(u, n). starts_with u (js ''https://u.org/d/'')) files"
proof -
  have run: "walk (sample_web sample_directories []) (js ''https://p.org/'') (js ''https://u.org/d/'') [js ''https://u.org/d/''] [] []
      = (Inr [(js ''https://u.org/d/a.zip'', js ''a.zip''), (js ''https://u.org/d/fix/c.rar'', [1060, 1080, 1082, 1089, 58, 32] @ js ''c.rar'')],
         [js ''https://u.org/d/'', js ''https://u.org/d/fix/''])"
    by code_simp
  have "list_all (\<lambda>(u, n). starts_with u (js ''https://u.org/d/'')) [(js ''https://u.org/d/a.zip'', js ''a.zip''), (js ''https://u.org/d/fix/c.rar'', [1060, 1080, 1082, 1089, 58, 32] @ js ''c.rar'')]"
    using walk_confined[OF run] by simp
  with run show ?thesis
    by (intro exI[of _ "[(js ''https://u.org/d/a.zip'', js ''a.zip''), (js ''https://u.org/d/fix/c.rar'', [1060, 1080, 1082, 1089, 58, 32] @ js ''c.rar'')]"])
      (simp del: js_simps walk.simps)
qed

text \<open>The page of Online-Fix with the files after the parent of each link that has some, the last file first.\<close>

definition upload_link :: selector where
  "upload_link = both (tg ''a'') (attr_contains ''href'' ''uploads.online-fix.me:2053/'')"

definition link_files :: "web_env \<Rightarrow> jstring \<Rightarrow> jstring option \<Rightarrow> (error, (jstring \<times> jstring) list) result" where
  "link_files env page_url href =
     (case urlAt (wb_runtime env) href page_url of
        None \<Rightarrow> Inr []
      | Some directory \<Rightarrow> if \<not> ends_with directory [47] then Inr [] else fst (walk env page_url directory [directory] [] []))"

definition child_links :: "node list \<Rightarrow> jstring option list" where
  "child_links body = map (\<lambda>n. node_attr n (js ''href'')) (filter (node_is upload_link) body)"

definition file_entry :: "jstring \<times> jstring \<Rightarrow> node" where
  "file_entry = (\<lambda>(url, label). Element (js ''p'') [] [link_element url [] label])"

fun insert_files :: "(jstring option \<Rightarrow> (jstring \<times> jstring) list) \<Rightarrow> bool \<Rightarrow> node list \<Rightarrow> node list" where
  "insert_files f inn [] = []"
| "insert_files f inn (TextNode t # ns) = TextNode t # insert_files f inn ns"
| "insert_files f inn (Element tag attrs body # ns) =
     (let below_story = inn \<or> has_class (js ''full-story'') tag attrs in
      (if inn \<and> upload_link tag attrs \<and> f (jm_get attrs (js ''href'')) \<noteq> [] then [] else [Element tag attrs (insert_files f below_story body)])
      @ (if below_story then rev (map file_entry (concat (map f (child_links body)))) else [])
      @ insert_files f inn ns)"

definition expandOnlinefix :: "web_env \<Rightarrow> jstring \<Rightarrow> node list \<Rightarrow> (error, node list) result" where
  "expandOnlinefix env page_url doc =
     (let hrefs = map (\<lambda>n. node_attr n (js ''href'')) (select_where (below [cls ''full-story''] upload_link) [] doc) in
      bind_r (map_r (\<lambda>h. bind_r (link_files env page_url h) (\<lambda>fs. Inr (h, fs))) hrefs) (\<lambda>found.
        Inr (insert_files (\<lambda>h. list_or (jm_get found h)) False doc)))"

end
