(* ===== verification/GameSearch.thy ===== *)
theory GameSearch
  imports GamePages
begin

text \<open>
  The five catalogs of games of \<open>providers/games/index.ts\<close> and their search in
  \<open>games/catalog.ts\<close>.
\<close>

section \<open>Catalogs\<close>

record game_catalog =
  gc_id :: jstring
  gc_name :: jstring
  gc_url :: jstring
  gc_titles :: "page_place \<Rightarrow> bool"
  gc_content :: selector
  gc_wordpress :: bool
  gc_acronyms :: bool

definition gamingProviders :: "game_catalog list" where
  "gamingProviders = [
     \<lparr>gc_id = js ''freetp'', gc_name = js ''FreeTP'', gc_url = js ''https://freetp.org'',
      gc_titles = at_path (below [has_id ''dle-content'', cls ''heading''] (tg ''a'')),
      gc_content = cls ''fullstory'', gc_wordpress = False, gc_acronyms = False\<rparr>,
     \<lparr>gc_id = js ''byrut'', gc_name = js ''ByRut'', gc_url = js ''https://byrutgame.org'',
      gc_titles = (\<lambda>p. at_path (below [has_id ''dle-content''] (tg ''a'')) p \<and> found_in (cls ''search_res_title'') p \<noteq> []),
      gc_content = both (tg ''article'') (cls ''main_content''), gc_wordpress = False, gc_acronyms = True\<rparr>,
     \<lparr>gc_id = js ''igruha'', gc_name = js ''Torrent-Igruha'', gc_url = js ''https://torrent-igruha.org'',
      gc_titles = (\<lambda>p. at_path (below [has_id ''dle-content'', tg ''h2''] (tg ''a'')) p \<or> at_path (below [has_id ''dle-content'', cls ''short-title''] (tg ''a'')) p
         \<or> at_path (below [has_id ''dle-content'', cls ''shortstory'', tg ''h3''] (tg ''a'')) p),
      gc_content = (\<lambda>t a. cls ''fullstory'' t a \<or> cls ''full-story'' t a \<or> cls ''full-news'' t a), gc_wordpress = False, gc_acronyms = False\<rparr>,
     \<lparr>gc_id = js ''onlinefix'', gc_name = js ''Online-Fix'', gc_url = js ''https://online-fix.me'',
      gc_titles = at_path (below [has_id ''dle-content''] (both (tg ''h2'') (cls ''title''))),
      gc_content = cls ''full-story'', gc_wordpress = False, gc_acronyms = True\<rparr>,
     \<lparr>gc_id = js ''fitgirl'', gc_name = js ''FitGirl'', gc_url = js ''https://fitgirl-repacks.site'',
      gc_titles = at_path (below [cls ''entry-title''] (tg ''a'')),
      gc_content = cls ''entry-content'', gc_wordpress = True, gc_acronyms = False\<rparr>]"

section \<open>Search\<close>

definition acronym_rx :: rx where
  "acronym_rx = RSeqs [RWordB, RAtLeast 2 (RSeq (RCh is_letter) (RLit (js ''.''))), ROpt (RCh is_letter), ROpt (RLit (js ''.''))]"

definition game_query :: "game_catalog \<Rightarrow> jstring \<Rightarrow> jstring" where
  "game_query gc q = (if gc_acronyms gc then rx_replace acronym_rx (\<lambda>f. filter (\<lambda>c. c \<noteq> 46) (f_text f)) q else q)"

definition search_address :: "web_env \<Rightarrow> game_catalog \<Rightarrow> jstring \<Rightarrow> jstring \<Rightarrow> (error, jstring) result" where
  "search_address env gc base q =
     (case resolve_url (wb_runtime env) (Some base) (if gc_wordpress gc then js ''/'' else js ''/index.php'') of
        None \<Rightarrow> Inl invalid_address
      | Some u \<Rightarrow> Inr (rt_href (wb_runtime env) (url_with_params (wb_runtime env)
          (if gc_wordpress gc then [(js ''s'', game_query gc q)]
           else [(js ''do'', js ''search''), (js ''subaction'', js ''search''), (js ''story'', game_query gc q)]) u)))"

definition cooldown_rx :: rx where
  "cooldown_rx = RSeqs [RLitI [1042, 1099, 32, 1089, 1084, 1086, 1078, 1077, 1090, 1077, 32, 1074, 1086, 1089, 1087, 1086,
    1083, 1100, 1079, 1086, 1074, 1072, 1090, 1100, 1089, 1103, 32, 1087, 1086, 1080, 1089, 1082,
    1086, 1084, 32, 1095, 1077, 1088, 1077, 1079, 32], RGroup 1 (RPlus RDigit), RLitI [32, 1089, 1077, 1082, 1091, 1085, 1076]]"

definition search_limited :: error where
  "search_limited = Failed [1048, 1089, 1090, 1086, 1095, 1085, 1080, 1082, 32, 1074, 1088, 1077, 1084, 1077, 1085, 1085,
    1086, 32, 1086, 1075, 1088, 1072, 1085, 1080, 1095, 1080, 1083, 32, 1087, 1086, 1080, 1089,
    1082, 46, 32, 1055, 1086, 1074, 1090, 1086, 1088, 1080, 1090, 1077, 32, 1077, 1075, 1086, 32,
    1095, 1091, 1090, 1100, 32, 1087, 1086, 1079, 1078, 1077, 46]"

text \<open>The page of a search; after a short pause that the site asks for, the network is the later one.\<close>

definition search_page :: "web_env \<Rightarrow> web_env \<Rightarrow> jstring \<Rightarrow> (error, node list) result" where
  "search_page env later url =
     bind_r (game_page env (plain_get url)) (\<lambda>doc.
     bind_r (case rx_cap cooldown_rx 1 (text_of doc) of
         None \<Rightarrow> Inr doc
       | Some seconds \<Rightarrow> if num_of seconds \<le> 60
           then (if wb_aborted later then Inl Aborted else game_page later (plain_get url)) else Inr doc) (\<lambda>doc'.
       if rx_test cooldown_rx (text_of doc') then Inl search_limited else Inr doc'))"

definition cooperative_mention :: "jstring list \<Rightarrow> jstring \<Rightarrow> bool" where
  "cooperative_mention more_names t \<longleftrightarrow> mentions ([js ''multiplayer'', js ''co-op''] @ more_names) t"

definition only_true :: "bool \<Rightarrow> bool option" where
  "only_true b = (if b then Some True else None)"

definition item_link :: "page_place \<Rightarrow> jstring option" where
  "item_link p = (if place_is (tg ''a'') p then place_attr ''href'' p
     else case found_in (tg ''a'') p of
         n # ns \<Rightarrow> node_attr n (js ''href'')
       | [] \<Rightarrow> (case closest (tg ''a'') p of None \<Rightarrow> None | Some q \<Rightarrow> place_attr ''href'' q))"

definition item_cover :: "page_place \<Rightarrow> jstring option" where
  "item_cover p = opt_or (head_attr ''src'' (found_in (tg ''img'') p))
     (case closest (\<lambda>t a. tg ''article'' t a \<or> cls ''shortstory'' t a \<or> cls ''base'' t a) p of
        None \<Rightarrow> None | Some q \<Rightarrow> head_attr ''src'' (found_in (tg ''img'') q))"

definition found_game :: "web_env \<Rightarrow> game_catalog \<Rightarrow> jstring \<Rightarrow> page_place \<Rightarrow> (jstring, work) jmap \<Rightarrow> (jstring, work) jmap" where
  "found_game env gc base p works =
     (let url = urlAt (wb_runtime env) (item_link p) base; raw = cleanText (place_text p);
          title = cleanText (or_text (text_of (found_in (cls ''search_res_title'') p)) (place_text p)) in
      case url of
        None \<Rightarrow> works
      | Some u \<Rightarrow> if title = [] \<or> jm_has works u then works
          else let i = gc_id gc @ [58] @ short_key (wb_runtime env) u in
            jm_set u ((new_work i (titleOf title) Games [(new_variant i (gc_id gc) (gc_name gc) title u Torrent)
                \<lparr>v_version := version_of raw, v_needsInspection := Some True, v_cooperative := only_true (cooperative_mention [[1087, 1086, 32, 1089, 1077, 1090, 1080]] raw)\<rparr>])
              \<lparr>w_url := Some u, w_cover := urlAt (wb_runtime env) (item_cover p) base\<rparr>) works)"

definition game_search :: "web_env \<Rightarrow> web_env \<Rightarrow> game_catalog \<Rightarrow> category \<Rightarrow> jstring \<Rightarrow> (error, work list) result" where
  "game_search env later gc category q =
     (if category \<notin> {AnyCategory, Games} then Inr []
      else let base = or_text (or_empty (setting_of env ''baseUrl'')) (gc_url gc) in
        bind_r (search_address env gc base q) (\<lambda>url. bind_r (search_page env later url) (\<lambda>doc.
          Inr (jm_values (fold (found_game env gc base) (filter (gc_titles gc) (places doc)) [])))))"

end
