(* ===== verification/GameLinks.thy ===== *)
theory GameLinks
  imports GameSearch Media
begin

text \<open>
  The release that a link of a game's publication leads to, \<open>providers/games/catalog.ts\<close>.
\<close>

section \<open>Releases\<close>

record release_page =
  rp_source :: game_catalog
  rp_url :: jstring
  rp_title :: jstring
  rp_version :: "jstring option"
  rp_cooperative :: bool
  rp_author :: "jstring option"

definition kind_name :: "publication_kind \<Rightarrow> jstring" where
  "kind_name k = (case k of Full \<Rightarrow> js ''full'' | Patch \<Rightarrow> js ''patch'' | Fix \<Rightarrow> js ''fix'' | OptionalPart \<Rightarrow> js ''optional''
     | ArchivePart \<Rightarrow> js ''archivePart'' | Upload \<Rightarrow> js ''upload'')"

definition text_value :: "jstring option \<Rightarrow> json" where
  "text_value t = (case t of None \<Rightarrow> JNull | Some s \<Rightarrow> JText s)"

record file_options =
  fo_kind :: "publication_kind option"
  fo_transport :: "transport option"
  fo_size :: "rat option"

definition torrent_label_rx :: rx where
  "torrent_label_rx = RAlt (RLitI (js ''.torrent file only'')) (RSeq RBol (RAlts [RLitI (js ''1337x''), RLitI (js ''RuTor''), RLitI (js ''Tapochek'')]))"

definition btih_rx :: rx where
  "btih_rx = RSeq (RLitI (js ''xt=urn:btih:'')) (RGroup 1 (RPlus (RCh (\<lambda>c. is_letter c \<or> is_digit c))))"

definition release_variant :: "web_env \<Rightarrow> release_page \<Rightarrow> jstring \<Rightarrow> jstring \<Rightarrow> jstring \<Rightarrow> file_options \<Rightarrow> variant" where
  "release_variant env rp url label section_text fo =
     (let gc = rp_source rp; rt = wb_runtime env;
          version = opt_or (opt_or (version_of label) (version_of section_text)) (rp_version rp);
          edition = whole_match (RSeq RWordB editions_rx) (join [10] [label, section_text, rp_title rp]);
          kind = opt_or (fo_kind fo) (kind_of label);
          cooperative = only_true (rp_cooperative rp \<or> cooperative_mention [[1074, 1086, 1079, 1084, 1086, 1078, 1085, 1086, 1089, 1090, 1100, 32, 1089, 1077, 1090, 1077,
    1074, 1086, 1081, 32, 1080, 1075, 1088, 1099], [1080, 1075, 1088, 1072, 32, 1087, 1086, 32, 1089, 1077, 1090, 1080]] section_text);
          i = gc_id gc @ [58] @ short_key rt (rp_url rp) @ js '':link:'' @ short_key rt (wb_print env (JArr [JText url, text_value version,
            text_value edition, text_value (map_option kind_name kind), (case cooperative of None \<Rightarrow> JNull | Some b \<Rightarrow> JBool b)]));
          torrent = (directTorrent url label \<or> rx_test torrent_label_rx label);
          v = (new_variant i (gc_id gc) (gc_name gc) (or_text (cleanText label) (rp_title rp)) (rp_url rp)
              (case fo_transport fo of Some t \<Rightarrow> t | None \<Rightarrow> if torrent then Torrent else File))
            \<lparr>v_publicationKind := kind, v_version := version, v_edition := edition,
             v_author := opt_or (opt_or (author_of env label) (author_of env section_text)) (rp_author rp),
             v_cooperative := cooperative, v_size := fo_size fo,
             v_notes := Some (if section_text = [] then [] else [\<lparr>n_text = cleanText section_text, n_url = rp_url rp, n_author = Some (gc_name gc)\<rparr>])\<rparr>
      in if starts_with url (js ''magnet:'')
         then v\<lparr>v_magnet := Some url, v_infoHash := map_option (map ascii_lower) (rx_cap btih_rx 1 url)\<rparr>
         else v\<lparr>v_downloadUrl := Some url\<rparr>)"

definition add_release :: "variant \<Rightarrow> (jstring, variant) jmap \<Rightarrow> (jstring, variant) jmap" where
  "add_release v variants = (if jm_has variants (v_id v) then variants else jm_set (v_id v) v variants)"

text \<open>The links of a publication that are files of the game.\<close>

definition downloadHosts :: "jstring list" where
  "downloadHosts = map js [''1fichier.com'', ''gofile.io'', ''pixeldrain.com'', ''buzzheavier.com'', ''files.fm'', ''qiwi.gg'',
     ''workupload.com'', ''datanodes.to'', ''fuckingfast.co'', ''megaup.net'', ''multiup.io'', ''multiup.org'',
     ''drive.google.com'', ''disk.yandex.ru'', ''disk.yandex.com'', ''mega.nz'', ''vikingf1le.us'',
     ''fileditchstuff.me'', ''online-fix.me'', ''freetp.org'']"

definition on_host :: "jstring \<Rightarrow> bool" where
  "on_host hostname \<longleftrightarrow> list_ex (\<lambda>h. hostname = h \<or> ends_with hostname ([46] @ h)) downloadHosts"

definition download_rx :: rx where
  "download_rx = RAlts [RLitI (js ''download''), RLitI [1089, 1082, 1072, 1095, 1072, 1090, 1100], RLitI (js ''torrent''), RLitI (js ''.zip''), RLitI (js ''.rar''),
     RSeqs [RLit (js ''/''), RAlts [RLitI (js ''u''), RLitI (js ''f''), RLitI (js ''d'')], RLit (js ''/'')]]"

definition mirrors_heading_rx :: rx where
  "mirrors_heading_rx = RSeqs [RLitI (js ''Download Mirrors (''), RAlt (RLitI (js ''Direct Links'')) (RLitI (js ''Torrent'')), RLit (js '')'')]"

definition mirror_label_rx :: rx where
  "mirror_label_rx = RAlt (RSeq RBol (RAlts [RLitI (js ''Filehoster:''), RLitI (js ''1337x''), RLitI (js ''RuTor''), RLitI (js ''Tapochek'')]))
     (RLitI (js ''.torrent file only''))"

definition other_page :: "jstring \<Rightarrow> bool" where
  "other_page url \<longleftrightarrow> includes_str url (js ''/user/'') \<or> includes_str url (js ''/guides/'') \<or> includes_str url (js ''/programs/'')
     \<or> includes_str url (js ''/files/progs/'')"

definition mirror_heading :: "release_page \<Rightarrow> page_place \<Rightarrow> jstring" where
  "mirror_heading rp p = (if gc_id (rp_source rp) \<noteq> js ''fitgirl'' then []
     else case outermost (tg ''ul'') p of None \<Rightarrow> [] | Some q \<Rightarrow> text_of (nearest_before (tg ''h3'') q))"

definition publisher_mirror :: "release_page \<Rightarrow> page_place \<Rightarrow> jstring \<Rightarrow> bool" where
  "publisher_mirror rp p label \<longleftrightarrow> place_attr ''data-publisher-mirror'' p = Some (js ''true'')
     \<or> gc_id (rp_source rp) = js ''fitgirl'' \<and> rx_test mirrors_heading_rx (mirror_heading rp p) \<and> rx_test mirror_label_rx label"

definition is_game_file :: "release_page \<Rightarrow> page_place \<Rightarrow> jstring \<Rightarrow> jstring \<Rightarrow> jstring \<Rightarrow> bool" where
  "is_game_file rp p url hostname label \<longleftrightarrow>
     (directTorrent url label \<or> rx_test getfile_rx url \<or> on_host hostname \<and> rx_test download_rx (label @ [32] @ url) \<or> publisher_mirror rp p label)
     \<and> \<not> other_page url"

definition text_in :: "string \<Rightarrow> page_place option \<Rightarrow> jstring" where
  "text_in c q = (case q of None \<Rightarrow> [] | Some p \<Rightarrow> text_of (found_in (cls c) p))"

definition release_block :: "page_place \<Rightarrow> page_place option" where
  "release_block p = closest (cls ''ajax-block'') p"

definition release_container :: "page_place \<Rightarrow> page_place option" where
  "release_container p = (case release_block p of
     Some q \<Rightarrow> Some q
   | None \<Rightarrow> closest (\<lambda>t a. cls ''main-release-block'' t a \<or> tg ''li'' t a \<or> cls ''quote'' t a \<or> tg ''p'' t a \<or> cls ''download-block'' t a) p)"

definition section_of :: "release_page \<Rightarrow> page_place \<Rightarrow> jstring" where
  "section_of rp p = cleanText (join [10] [text_in ''showtitle'' (release_block p), text_in ''show_ver'' (release_block p), mirror_heading rp p,
     (case release_container p of None \<Rightarrow> []
      | Some q \<Rightarrow> text_of (before_is (\<lambda>t a. tg ''strong'' t a \<or> tg ''p'' t a \<or> tg ''h3'' t a \<or> tg ''h4'' t a) q)),
     (case release_container p of None \<Rightarrow> [] | Some q \<Rightarrow> place_text q)])"

text \<open>The attributes by which a page may name the kind and the transport of a link.\<close>

definition named_kind :: "jstring option \<Rightarrow> publication_kind option" where
  "named_kind t = find (\<lambda>k. t = Some (kind_name k)) [Full, Patch, Fix, OptionalPart, ArchivePart, Upload]"

definition transport_name :: "transport \<Rightarrow> jstring" where
  "transport_name t = (case t of Torrent \<Rightarrow> js ''torrent'' | Video \<Rightarrow> js ''video'' | Book \<Rightarrow> js ''book'' | MangaPages \<Rightarrow> js ''manga'' | File \<Rightarrow> js ''file'')"

definition named_transport :: "jstring option \<Rightarrow> transport option" where
  "named_transport s = find (\<lambda>t. s = Some (transport_name t)) [Torrent, Video, Book, MangaPages, File]"

definition shown :: "jstring list \<Rightarrow> jstring" where
  "shown parts = join [44, 32] (filter (\<lambda>t. t \<noteq> []) parts)"

definition is_magnet_link :: "jstring \<Rightarrow> bool" where
  "is_magnet_link u \<longleftrightarrow> starts_with u (js ''magnet:'')"

definition host_of_link :: "web_env \<Rightarrow> jstring \<Rightarrow> (error, jstring) result" where
  "host_of_link env url = (if is_magnet_link url then Inr []
     else case rt_url (wb_runtime env) url of None \<Rightarrow> Inl invalid_address | Some u \<Rightarrow> Inr (u_hostname u))"

definition add_link :: "web_env \<Rightarrow> release_page \<Rightarrow> page_place \<Rightarrow> (jstring, variant) jmap \<Rightarrow> (error, (jstring, variant) jmap) result" where
  "add_link env rp p variants =
     (case urlAt (wb_runtime env) (place_attr ''href'' p) (rp_url rp) of
        None \<Rightarrow> Inr variants
      | Some raw \<Rightarrow>
          bind_r (if is_magnet_link raw then Inr raw else unwrapLink env raw) (\<lambda>url.
            let label = cleanText (or_text (place_text p) (or_empty (place_attr ''download'' p))) in
            bind_r (host_of_link env url) (\<lambda>hostname.
              if \<not> is_game_file rp p url hostname label then Inr variants
              else Inr (add_release (release_variant env rp url (shown [text_in ''showtitle'' (release_block p), label]) (section_of rp p)
                \<lparr>fo_kind = named_kind (place_attr ''data-publication-kind'' p), fo_transport = named_transport (place_attr ''data-release-transport'' p),
                 fo_size = bytes_of env (section_of rp p)\<rparr>) variants))))"

end
