(* ===== verification/Games.thy ===== *)
theory Games
  imports GameLinks
begin

text \<open>
  The releases of a game's publication from its links and scripts, the inspection and the
  resolution of a release to its link, \<open>providers/games/catalog.ts\<close>.
\<close>

section \<open>Releases of scripts\<close>

text \<open>Releases that a script lists: the links of every grp by host, and the files of the grps.\<close>

definition object_entries :: "json option \<Rightarrow> (error, (jstring \<times> json) list) result" where
  "object_entries v = (case v of
     None \<Rightarrow> Inl type_error
   | Some JNull \<Rightarrow> Inl type_error
   | Some (JObj m) \<Rightarrow> Inr m
   | Some (JArr xs) \<Rightarrow> Inr (map (\<lambda>(k, x). (to_dec k, x)) (enumerate 0 xs))
   | Some j \<Rightarrow> Inr [])"

definition file_note :: "web_env \<Rightarrow> json \<Rightarrow> jstring" where
  "file_note env file = string_of (wb_source env) (field file ''name'')
     @ (if truthy_json (field file ''size'') then js '' ('' @ string_of (wb_source env) (field file ''size'') @ js '')'' else [])"

definition group_kind :: "jstring \<Rightarrow> publication_kind" where
  "group_kind grp = (if grp = js ''patch'' then Patch else if grp = js ''goodie'' then OptionalPart else Full)"

definition add_listed :: "web_env \<Rightarrow> release_page \<Rightarrow> page_place option \<Rightarrow> jstring \<Rightarrow> json list \<Rightarrow> jstring \<Rightarrow> json \<Rightarrow> (jstring, variant) jmap \<Rightarrow> (jstring, variant) jmap" where
  "add_listed env rp block grp files host address variants =
     (case urlAt (wb_runtime env) (json_text (Some address)) (rp_url rp) of
        None \<Rightarrow> variants
      | Some url \<Rightarrow> add_release (release_variant env rp url (shown [text_in ''showtitle'' block, grp, host])
          (join [10] (text_in ''show_ver'' block # map (file_note env) files))
          \<lparr>fo_kind = Some (group_kind grp), fo_transport = None,
           fo_size = (case files of [f] \<Rightarrow> bytes_of env (or_empty (json_text (field f ''size''))) | _ \<Rightarrow> None)\<rparr>) variants)"

fun add_mirrors :: "web_env \<Rightarrow> release_page \<Rightarrow> page_place option \<Rightarrow> jstring \<Rightarrow> json list \<Rightarrow> (jstring \<times> json) list \<Rightarrow> (jstring, variant) jmap
    \<Rightarrow> (error, (jstring, variant) jmap) result" where
  "add_mirrors env rp block grp files [] variants = Inr variants"
| "add_mirrors env rp block grp files ((host, urls) # mirrors) variants = bind_r (array_of (Some urls)) (\<lambda>us.
     add_mirrors env rp block grp files mirrors (fold (add_listed env rp block grp files host) us variants))"

fun add_groups :: "web_env \<Rightarrow> release_page \<Rightarrow> page_place option \<Rightarrow> json list \<Rightarrow> (jstring \<times> json) list \<Rightarrow> (jstring, variant) jmap
    \<Rightarrow> (error, (jstring, variant) jmap) result" where
  "add_groups env rp block files [] variants = Inr variants"
| "add_groups env rp block files ((grp, mirrors) # grps) variants =
     (if JNull \<in> set files then Inl type_error
      else bind_r (object_entries (Some mirrors)) (\<lambda>ms.
        bind_r (add_mirrors env rp block grp (filter (\<lambda>f. field f ''type'' = Some (JText grp)) files) ms variants)
          (add_groups env rp block files grps)))"

definition add_script :: "web_env \<Rightarrow> release_page \<Rightarrow> page_place \<Rightarrow> (jstring, variant) jmap \<Rightarrow> (error, (jstring, variant) jmap) result" where
  "add_script env rp p variants =
     (let script = place_text p in
      case jsonAssignment env script ''linksData'' of
        None \<Rightarrow> Inr variants
      | Some links \<Rightarrow>
          bind_r (case jsonAssignment env script ''filesData'' of None \<Rightarrow> Inr [] | Some f \<Rightarrow> array_of (Some f)) (\<lambda>files.
          bind_r (object_entries (Some links)) (\<lambda>grps. add_groups env rp (release_block p) files grps variants)))"

fun add_all :: "('p \<Rightarrow> 'm \<Rightarrow> (error, 'm) result) \<Rightarrow> 'p list \<Rightarrow> 'm \<Rightarrow> (error, 'm) result" where
  "add_all f [] m = Inr m"
| "add_all f (p # ps) m = bind_r (f p m) (add_all f ps)"

text \<open>The releases of the first content of a page.\<close>

definition content_of :: "game_catalog \<Rightarrow> node list \<Rightarrow> page_place option" where
  "content_of gc doc = (case filter (place_is (gc_content gc)) (places doc) of [] \<Rightarrow> None | p # ps \<Rightarrow> Some p)"

definition first_of_text :: "node list \<Rightarrow> jstring" where
  "first_of_text found = text_of (take 1 found)"

definition overall_version :: "game_catalog \<Rightarrow> node list \<Rightarrow> page_place \<Rightarrow> jstring option" where
  "overall_version gc doc b = version_of (if gc_id gc = js ''byrut''
     then first_of_text (select_where (below [cls ''main-release-block''] (cls ''info-basictor__item--version'')) [] (node_body (here b)))
     else first_of_text (select (\<lambda>t a. cls ''subhnamever'' t a \<or> cls ''subver_info'' t a \<or> (tg ''h1'' t a \<and> cls ''entry-title'' t a)) doc))"

definition primary_author :: "game_catalog \<Rightarrow> page_place \<Rightarrow> jstring option" where
  "primary_author gc b = (if gc_id gc = js ''fitgirl'' then Some (js ''FitGirl'') else if gc_id gc = js ''onlinefix'' then Some (js ''Online-Fix'')
     else some_text (head_text (found_in (both (tg ''a'') (attr_contains ''href'' ''/user/'')) b)))"

definition releaseVariants :: "web_env \<Rightarrow> game_catalog \<Rightarrow> jstring \<Rightarrow> jstring \<Rightarrow> page_place \<Rightarrow> node list \<Rightarrow> (error, variant list) result" where
  "releaseVariants env gc url title b doc =
     (let rp = \<lparr>rp_source = gc, rp_url = url, rp_title = title, rp_version = overall_version gc doc b,
                rp_cooperative = cooperative_mention [[1087, 1086, 32, 1089, 1077, 1090, 1080], [1089, 1086, 1074, 1084, 1077, 1089, 1090, 1085, 1086, 1077, 32, 1087, 1088, 1086, 1093, 1086,
    1078, 1076, 1077, 1085, 1080, 1077], [1082, 1086, 1086, 1087, 1077, 1088, 1072, 1090, 1080, 1074]] title, rp_author = primary_author gc b\<rparr>;
          inner = places_under b doc
      in bind_r (add_all (add_link env rp) (filter (place_is (\<lambda>t a. tg ''a'' t a \<and> jm_has a (js ''href''))) inner) []) (\<lambda>linked.
         bind_r (add_all (add_script env rp) (filter (place_is (tg ''script'')) inner) linked) (\<lambda>variants. Inr (jm_values variants))))"

section \<open>Inspection\<close>

definition page_changed :: error where
  "page_changed = Failed [1057, 1090, 1088, 1091, 1082, 1090, 1091, 1088, 1072, 32, 1089, 1090, 1088, 1072, 1085, 1080,
    1094, 1099, 32, 1080, 1089, 1090, 1086, 1095, 1085, 1080, 1082, 1072, 32, 1080, 1079, 1084,
    1077, 1085, 1080, 1083, 1072, 1089, 1100, 46, 32, 1054, 1090, 1082, 1088, 1086, 1081, 1090,
    1077, 32, 1080, 1089, 1093, 1086, 1076, 1085, 1091, 1102, 32, 1087, 1091, 1073, 1083, 1080,
    1082, 1072, 1094, 1080, 1102, 46]"

definition no_releases :: error where
  "no_releases = Failed [1053, 1077, 32, 1091, 1076, 1072, 1083, 1086, 1089, 1100, 32, 1085, 1072, 1081, 1090, 1080,
    32, 1089, 1089, 1099, 1083, 1082, 1080, 32, 1085, 1072, 32, 1074, 1077, 1088, 1089, 1080,
    1080, 32, 1080, 1075, 1088, 1099, 46, 32, 1054, 1090, 1082, 1088, 1086, 1081, 1090, 1077, 32,
    1087, 1091, 1073, 1083, 1080, 1082, 1072, 1094, 1080, 1102, 32, 1080, 1089, 1090, 1086, 1095,
    1085, 1080, 1082, 1072, 32, 1080, 32, 1087, 1086, 1074, 1090, 1086, 1088, 1080, 1090, 1077,
    32, 1087, 1086, 1087, 1099, 1090, 1082, 1091, 46]"

definition expanded_page :: "web_env \<Rightarrow> game_session \<Rightarrow> game_catalog \<Rightarrow> jstring \<Rightarrow> node list \<Rightarrow> (error, node list \<times> error list) result" where
  "expanded_page env session gc url doc =
     bind_r (if gc_id gc = js ''byrut'' then expandByrut env session url doc else Inr (doc, [])) (\<lambda>(doc, es).
     bind_r (if gc_id gc = js ''onlinefix'' then expandOnlinefix env url doc else Inr doc) (\<lambda>doc.
     bind_r (if gc_id gc = js ''fitgirl'' then expandFitgirlMirrors env doc else Inr doc) (\<lambda>doc. Inr (doc, es))))"

definition game_title :: "node list \<Rightarrow> page_place \<Rightarrow> jstring" where
  "game_title doc b = cleanText (or_text (or_text (first_of_text (select (both (tg ''h1'') (cls ''entry-title'')) doc))
     (first_of_text (found_in (tg ''h1'') b))) (text_of (take 1 (rev (select (tg ''h1'') doc)))))"

definition description_noise :: selector where
  "description_noise t a \<longleftrightarrow> t \<in> {js ''script'', js ''style'', js ''noindex''} \<or> cls ''comments'' t a \<or> attr_starts ''id'' ''comment-id-'' t a
     \<or> cls ''navigation'' t a"

fun broken_lines :: "node list \<Rightarrow> node list" where
  "broken_lines [] = []"
| "broken_lines (TextNode t # ns) = TextNode t # broken_lines ns"
| "broken_lines (Element tag attrs body # ns) =
     (if tag = js ''br'' then TextNode [10] else Element tag attrs (broken_lines body)) # broken_lines ns"

definition game_description :: "game_catalog \<Rightarrow> page_place \<Rightarrow> jstring" where
  "game_description gc b =
     (if gc_id gc = js ''onlinefix''
      then cleanText (text_of (broken_lines (prune description_noise (concat (map node_body (take 1 (found_in (attr_is ''itemprop'' ''articleBody'') b)))))))
      else cleanText (text_of (prune description_noise (node_body (here b)))))"

definition user_comment :: jstring where
  "user_comment = [1050, 1086, 1084, 1084, 1077, 1085, 1090, 1072, 1088, 1080, 1081, 32, 1087, 1086, 1083, 1100,
    1079, 1086, 1074, 1072, 1090, 1077, 1083, 1103]"

definition comment_note :: "jstring \<Rightarrow> page_place \<Rightarrow> author_note option" where
  "comment_note url p =
     (let container = closest (\<lambda>t a. attr_starts ''id'' ''comment-id-'' t a \<or> cls ''comment-body'' t a) p; t = cleanText (place_text p);
          names = (case container of None \<Rightarrow> [] | Some q \<Rightarrow> filter (\<lambda>r. list_ex (\<lambda>k. drop k r = q) [1..<length r]) (places_in (tl q) (snd (hd q)) [here q]));
          name = (case filter (\<lambda>r. place_is (cls ''comm-author'') r \<or> at_path (below [cls ''avatarbox''] (tg ''b'')) r \<or> place_is (both (cls ''group'') (cls ''author'')) r
              \<or> at_path (below [cls ''comment-author''] (cls ''fn'')) r) names of [] \<Rightarrow> [] | r # rs \<Rightarrow> trim (place_text r));
          i = opt_or (case container of None \<Rightarrow> None | Some q \<Rightarrow> place_attr ''id'' q) (place_attr ''id'' p)
      in if t = [] then None
         else Some \<lparr>n_text = t, n_url = until_hash url @ (if truthy i then [35] @ or_empty i else js ''#comments''),
           n_author = Some (or_text name user_comment)\<rparr>)"

definition page_comments :: "jstring \<Rightarrow> node list \<Rightarrow> author_note list" where
  "page_comments url doc = List.map_filter (comment_note url)
     (filter (\<lambda>p. place_is (attr_starts ''id'' ''comm-id-'') p \<or> at_path (below [cls ''comment-body''] (cls ''comment-content'')) p) (places doc))"

definition link_note :: "web_env \<Rightarrow> game_catalog \<Rightarrow> jstring \<Rightarrow> node \<Rightarrow> author_note option" where
  "link_note env gc base n =
     (let t = cleanText (text_of [n]) in
      case urlAt (wb_runtime env) (node_attr n (js ''href'')) base of
        None \<Rightarrow> None
      | Some u \<Rightarrow> if t = [] then None else Some \<lparr>n_text = t, n_url = u, n_author = Some (gc_name gc)\<rparr>)"

definition author_links :: selector where
  "author_links t a \<longleftrightarrow> tg ''a'' t a \<and> (attr_contains ''href'' ''fitgirl-repacks.site'' t a \<or> attr_contains ''href'' ''online-fix.me/games/'' t a
     \<or> attr_contains ''href'' ''/user/'' t a)"

definition steam_id :: "node list \<Rightarrow> jstring option" where
  "steam_id doc = head_attr ''data-appid'' (select (\<lambda>t a. tg ''article'' t a \<and> jm_has a (js ''data-appid'')) doc)"

definition game_inspect :: "web_env \<Rightarrow> game_session \<Rightarrow> game_catalog \<Rightarrow> variant \<Rightarrow> (error, work \<times> error list) result" where
  "game_inspect env session gc v =
     bind_r (game_page env (plain_get (v_url v))) (\<lambda>page.
     bind_r (expanded_page env session gc (v_url v) page) (\<lambda>(doc, es).
       case content_of gc doc of
         None \<Rightarrow> Inl page_changed
       | Some b \<Rightarrow>
           (let title = game_title doc b in
            bind_r (releaseVariants env gc (v_url v) title b doc) (\<lambda>variants.
              if variants = [] then Inl no_releases
              else Inr ((new_work (gc_id gc @ [58] @ short_key (wb_runtime env) (v_url v)) (titleOf title) Games variants)
                  \<lparr>w_url := Some (v_url v),
                   w_cover := urlAt (wb_runtime env) (opt_or (head_attr ''content'' (select (both (tg ''meta'') (attr_is ''property'' ''og:image'')) doc))
                       (head_attr ''src'' (found_in (tg ''img'') b))) (v_url v),
                   w_description := Some (game_description gc b),
                   w_notes := Some (page_comments (v_url v) doc @ List.map_filter (link_note env gc (v_url v)) (select author_links (node_body (here b)))),
                   w_identifiers := (if truthy (steam_id doc) then Some [(js ''steam'', or_empty (steam_id doc))] else None)\<rparr>, es)))))"

section \<open>Resolution\<close>

definition choose_release :: error where
  "choose_release = Failed [1042, 1099, 1073, 1077, 1088, 1080, 1090, 1077, 32, 1089, 1073, 1086, 1088, 1082, 1091, 32,
    1080, 1083, 1080, 32, 1086, 1090, 1076, 1077, 1083, 1100, 1085, 1099, 1081, 32, 1092, 1072,
    1081, 1083, 32, 1074, 32, 1074, 1072, 1088, 1080, 1072, 1085, 1090, 1072, 1093, 32, 1080,
    1075, 1088, 1099, 46]"

definition link_changed :: error where
  "link_changed = Failed [1042, 1099, 1073, 1088, 1072, 1085, 1085, 1072, 1103, 32, 1089, 1089, 1099, 1083, 1082, 1072,
    32, 1080, 1079, 1084, 1077, 1085, 1080, 1083, 1072, 1089, 1100, 46, 32, 1054, 1073, 1085,
    1086, 1074, 1080, 1090, 1077, 32, 1074, 1072, 1088, 1080, 1072, 1085, 1090, 1099, 32, 1080,
    1075, 1088, 1099, 46]"

definition resolved_link :: "variant \<Rightarrow> resolver \<Rightarrow> jstring \<Rightarrow> jstring \<Rightarrow> resolved" where
  "resolved_link current how url referer = (empty_resolved (v_transport current))
     \<lparr>rs_resolver := Some how, rs_url := Some url, rs_headers := Some [(js ''Referer'', referer)], rs_title := Some (v_title current)\<rparr>"

definition archive_rx :: rx where
  "archive_rx = RSeqs [RLit (js ''.''), RAlts (map (\<lambda>n. RLitI (js n)) [''zip'', ''rar'', ''7z'', ''exe'', ''bin'']), RAlt (RCh (\<lambda>c. c = 63 \<or> c = 35)) REol]"

definition archive_types :: "jstring list" where
  "archive_types = map (\<lambda>t. js (''application/'' @ t)) [''octet-stream'', ''zip'', ''x-7z-compressed'', ''x-rar-compressed'', ''vnd.rar'',
     ''x-msdownload'', ''force-download'']"

definition media_type :: "(jstring, jstring) jmap \<Rightarrow> jstring" where
  "media_type headers = trim (takeWhile (\<lambda>c. c \<noteq> 59) (or_empty (jm_get headers (js ''content-type''))))"

text \<open>A file is downloaded directly when a request for its head names the type of an archive.\<close>

definition archive_file :: "web_env \<Rightarrow> jstring \<Rightarrow> jstring \<Rightarrow> (error, bool) result" where
  "archive_file env url referer =
     (if \<not> rx_test archive_rx url then Inr False
      else bind_r (wb_request env \<lparr>wq_url = url, wq_method = js ''HEAD'', wq_headers = [(js ''Referer'', referer)], wq_body = None\<rparr>) (\<lambda>r.
        Inr (in_range 200 299 (wr_status r) \<and> map ascii_lower (media_type (wr_headers r)) \<in> set archive_types)))"

text \<open>A link to a waiting page: the page is opened first, then the file is taken by its number.\<close>

definition waiting_link :: "web_env \<Rightarrow> variant \<Rightarrow> jstring \<Rightarrow> jstring \<Rightarrow> (error, resolved) result" where
  "waiting_link env current url referer =
     bind_r (game_page env ((plain_get url)\<lparr>wq_headers := [(js ''Referer'', referer)]\<rparr>)) (\<lambda>_.
       case rt_url (wb_runtime env) url of
         None \<Rightarrow> Inl invalid_address
       | Some u \<Rightarrow> (case rx_cap (RSeqs [RLit (js ''getfile-''), RGroup 1 (RPlus RDigit)]) 1 (u_pathname u) of
           None \<Rightarrow> Inl type_error
         | Some i \<Rightarrow> (case rt_url_at (wb_runtime env) (js ''/engine/download.php?id='' @ i @ js ''&area='') u of
             None \<Rightarrow> Inl invalid_address
           | Some file \<Rightarrow> Inr (resolved_link current Direct (rt_href (wb_runtime env) file) url))))"

definition game_resolve :: "web_env \<Rightarrow> game_session \<Rightarrow> game_catalog \<Rightarrow> variant \<Rightarrow> (error, resolved) result" where
  "game_resolve env session gc v =
     (if \<not> includes_str (v_id v) (js '':link:'') then Inl choose_release
      else bind_r (game_inspect env session gc v) (\<lambda>(details, es).
        case find (\<lambda>c. v_id c = v_id v) (w_variants details) of
          None \<Rightarrow> Inl link_changed
        | Some current \<Rightarrow>
            (case opt_or (v_magnet current) (v_downloadUrl current) of
               None \<Rightarrow> Inl link_changed
             | Some url \<Rightarrow>
                 if url = [] then Inl link_changed
                 else bind_r (assertExactVariant v current) (\<lambda>_.
                   if truthy (v_magnet current) then Inr ((empty_resolved Torrent)\<lparr>rs_url := Some url, rs_title := Some (v_title current)\<rparr>)
                   else if rx_test getfile_rx url then waiting_link env current url (v_url v)
                   else if directTorrent url (v_title current) then Inr (resolved_link current Direct url (v_url v))
                   else bind_r (archive_file env url (v_url v)) (\<lambda>direct.
                     Inr (resolved_link current (if direct then Direct else Browser) url (v_url v)))))))"

section \<open>The releases of a publication\<close>

text \<open>A link of a page: the address of a web page, a file or a magnet.\<close>

definition page_link :: "runtime \<Rightarrow> jstring \<Rightarrow> bool" where
  "page_link rt a \<longleftrightarrow> (\<exists>u. a = rt_href rt u \<and> u_protocol u \<in> set web_protocols)"

lemma urlAt_Some: "urlAt rt v base = Some a \<Longrightarrow> page_link rt a"
  by (auto simp: urlAt_def page_link_def split: if_splits option.splits)

lemma unwrapLink_Inr: "unwrapLink env a = Inr b \<Longrightarrow> page_link (wb_runtime env) a \<Longrightarrow> page_link (wb_runtime env) b"
  by (auto simp: unwrapLink_def dest: urlAt_Some split: option.splits if_splits)

definition own_release :: "web_env \<Rightarrow> game_catalog \<Rightarrow> jstring \<Rightarrow> variant \<Rightarrow> bool" where
  "own_release env gc url v \<longleftrightarrow> v_sourceId v = gc_id gc \<and> v_url v = url
     \<and> starts_with (v_id v) (gc_id gc @ [58] @ short_key (wb_runtime env) url @ js '':link:'')
     \<and> (\<exists>a. page_link (wb_runtime env) a \<and> (if starts_with a (js ''magnet:'') then v_magnet v = Some a \<and> v_downloadUrl v = None
          else v_downloadUrl v = Some a \<and> v_magnet v = None))"

definition releases_inv :: "web_env \<Rightarrow> game_catalog \<Rightarrow> jstring \<Rightarrow> (jstring, variant) jmap \<Rightarrow> bool" where
  "releases_inv env gc url m \<longleftrightarrow> jm_inv m \<and> list_all (\<lambda>(i, v). i = v_id v \<and> own_release env gc url v) m"

lemma release_variant_own:
  assumes "page_link (wb_runtime env) a"
  shows "own_release env (rp_source rp) (rp_url rp) (release_variant env rp a label section_text fo)"
proof -
  let ?v = "release_variant env rp a label section_text fo"
  have fields: "v_sourceId ?v = gc_id (rp_source rp)" "v_url ?v = rp_url rp"
    by (simp_all add: release_variant_def Let_def new_variant_def)
  have "\<exists>k. v_id ?v = (gc_id (rp_source rp) @ [58] @ short_key (wb_runtime env) (rp_url rp) @ js '':link:'') @ k"
    unfolding release_variant_def Let_def by (simp add: new_variant_def)
  then have "starts_with (v_id ?v) (gc_id (rp_source rp) @ [58] @ short_key (wb_runtime env) (rp_url rp) @ js '':link:'')"
    by (metis starts_with_append)
  moreover have "if starts_with a (js ''magnet:'') then v_magnet ?v = Some a \<and> v_downloadUrl ?v = None
      else v_downloadUrl ?v = Some a \<and> v_magnet ?v = None"
    by (simp add: release_variant_def Let_def new_variant_def del: js_simps)
  ultimately show ?thesis using fields assms unfolding own_release_def by blast
qed

lemma add_release_inv: "releases_inv env gc url m \<Longrightarrow> own_release env gc url v \<Longrightarrow> releases_inv env gc url (add_release v m)"
  by (auto simp: releases_inv_def add_release_def list_all_iff jm_set_pairs)

lemma add_all_inv:
  assumes step: "\<And>p m m'. f p m = Inr m' \<Longrightarrow> I m \<Longrightarrow> I m'"
  shows "add_all f ps m = Inr m' \<Longrightarrow> I m \<Longrightarrow> I m'"
  by (induction ps arbitrary: m) (auto simp: bind_r_Inr dest: step)

lemma add_link_inv:
  assumes "add_link env rp p m = Inr m'" "releases_inv env (rp_source rp) (rp_url rp) m"
  shows "releases_inv env (rp_source rp) (rp_url rp) m'"
proof (cases "urlAt (wb_runtime env) (place_attr ''href'' p) (rp_url rp)")
  case None
  then show ?thesis using assms by (simp add: add_link_def)
next
  case (Some raw)
  obtain a where a: "(if is_magnet_link raw then Inr raw else unwrapLink env raw) = Inr a"
    using assms(1) Some by (auto simp: add_link_def bind_r_Inr)
  have "page_link (wb_runtime env) a" using a urlAt_Some[OF Some] by (auto dest: unwrapLink_Inr split: if_splits)
  then show ?thesis
    using assms Some a by (auto simp: add_link_def bind_r_Inr Let_def intro!: add_release_inv release_variant_own split: if_splits)
qed

lemma add_listed_inv: "releases_inv env (rp_source rp) (rp_url rp) m \<Longrightarrow> releases_inv env (rp_source rp) (rp_url rp) (add_listed env rp block grp files host x m)"
  by (auto simp: add_listed_def intro!: add_release_inv release_variant_own dest: urlAt_Some split: option.splits)

lemma add_mirrors_inv:
  "add_mirrors env rp block grp files mirrors m = Inr m' \<Longrightarrow> releases_inv env (rp_source rp) (rp_url rp) m
    \<Longrightarrow> releases_inv env (rp_source rp) (rp_url rp) m'"
proof (induction env rp block grp files mirrors m rule: add_mirrors.induct)
  case (2 env rp block grp files host urls mirrors m)
  obtain us where us: "array_of (Some urls) = Inr us" using 2(2) by (auto simp: bind_r_Inr)
  have "releases_inv env (rp_source rp) (rp_url rp) (fold (add_listed env rp block grp files host) us m)"
    using 2(3) by (induction us arbitrary: m) (simp_all add: add_listed_inv)
  then show ?case using 2(1)[of us] 2(2) us by simp
qed simp

lemma add_groups_inv:
  "add_groups env rp block files grps m = Inr m' \<Longrightarrow> releases_inv env (rp_source rp) (rp_url rp) m
    \<Longrightarrow> releases_inv env (rp_source rp) (rp_url rp) m'"
proof (induction env rp block files grps m rule: add_groups.induct)
  case (2 env rp block files grp mirrors grps m)
  then show ?case by (auto simp: bind_r_Inr dest: add_mirrors_inv split: if_splits)
qed simp

lemma add_script_inv:
  "add_script env rp p m = Inr m' \<Longrightarrow> releases_inv env (rp_source rp) (rp_url rp) m \<Longrightarrow> releases_inv env (rp_source rp) (rp_url rp) m'"
  by (auto simp: add_script_def bind_r_Inr Let_def dest: add_groups_inv split: option.splits)

lemma releaseVariants_own:
  assumes "releaseVariants env gc url title b doc = Inr vs"
  shows "distinct (map v_id vs) \<and> list_all (own_release env gc url) vs"
proof -
  let ?rp = "\<lparr>rp_source = gc, rp_url = url, rp_title = title, rp_version = overall_version gc doc b,
                rp_cooperative = cooperative_mention [[1087, 1086, 32, 1089, 1077, 1090, 1080], [1089, 1086, 1074, 1084, 1077, 1089, 1090, 1085, 1086, 1077, 32, 1087, 1088, 1086, 1093, 1086,
    1078, 1076, 1077, 1085, 1080, 1077], [1082, 1086, 1086, 1087, 1077, 1088, 1072, 1090, 1080, 1074]] title, rp_author = primary_author gc b\<rparr>"
  let ?I = "releases_inv env gc url"
  obtain links m scripts m' where m: "add_all (add_link env ?rp) links [] = Inr m" and m': "add_all (add_script env ?rp) scripts m = Inr m'"
      and vs: "vs = jm_values m'"
    using assms by (auto simp: releaseVariants_def Let_def bind_r_Inr)
  have "?I m" using add_all_inv[of "add_link env ?rp" ?I, OF _ m] add_link_inv[of env ?rp] by (simp add: releases_inv_def)
  then have inv: "?I m'" using add_all_inv[of "add_script env ?rp" ?I, OF _ m'] add_script_inv[of env ?rp] by simp
  then have ids: "map v_id vs = map fst m'" by (auto simp: vs jm_values_def releases_inv_def list_all_iff)
  have "distinct (map v_id vs)" unfolding ids using inv by (simp add: releases_inv_def jm_inv_def)
  then show ?thesis using inv by (auto simp: vs jm_values_def releases_inv_def list_all_iff)
qed

text \<open>
  The releases that the inspection of a game lists have distinct identifiers of this source and
  publication, and each leads to exactly one thing: a magnet, or the address of a web page.
  The hypothesis is that the address of a URL begins with its protocol.
\<close>

theorem game_releases:
  assumes "game_inspect env session gc v = Inr (w, es)" and "\<And>u. starts_with (rt_href (wb_runtime env) u) (u_protocol u)"
  shows "w_variants w \<noteq> [] \<and> distinct (map v_id (w_variants w)) \<and> list_all (\<lambda>r. v_sourceId r = gc_id gc \<and> v_url r = v_url v
      \<and> starts_with (v_id r) (gc_id gc @ [58] @ short_key (wb_runtime env) (v_url v) @ js '':link:'')
      \<and> ((\<exists>a. v_magnet r = Some a \<and> starts_with a (js ''magnet:'') \<and> v_downloadUrl r = None)
        \<or> (\<exists>u. v_downloadUrl r = Some (rt_href (wb_runtime env) u) \<and> u_protocol u \<in> {js ''http:'', js ''https:''} \<and> v_magnet r = None))) (w_variants w)"
proof -
  obtain title b doc where vs: "releaseVariants env gc (v_url v) title b doc = Inr (w_variants w)" and ne: "w_variants w \<noteq> []"
    using assms(1) by (auto simp: game_inspect_def bind_r_Inr Let_def new_work_def split: option.splits if_splits)
  have link: "(\<exists>a. v_magnet r = Some a \<and> starts_with a (js ''magnet:'') \<and> v_downloadUrl r = None)
      \<or> (\<exists>u. v_downloadUrl r = Some (rt_href (wb_runtime env) u) \<and> u_protocol u \<in> {js ''http:'', js ''https:''} \<and> v_magnet r = None)"
    if r: "own_release env gc (v_url v) r" for r
  proof -
    obtain u where u: "u_protocol u \<in> set web_protocols"
        "if starts_with (rt_href (wb_runtime env) u) (js ''magnet:'') then v_magnet r = Some (rt_href (wb_runtime env) u) \<and> v_downloadUrl r = None
          else v_downloadUrl r = Some (rt_href (wb_runtime env) u) \<and> v_magnet r = None"
      using r unfolding own_release_def page_link_def by blast
    have "u_protocol u \<in> {js ''http:'', js ''https:''}" if "\<not> starts_with (rt_href (wb_runtime env) u) (js ''magnet:'')"
      using u(1) assms(2)[of u] that by (auto simp: web_protocols_def simp del: js_simps)
    with u(2) show ?thesis by (cases "starts_with (rt_href (wb_runtime env) u) (js ''magnet:'')") auto
  qed
  then show ?thesis using releaseVariants_own[OF vs] ne by (auto simp: list_all_iff own_release_def)
qed


text \<open>A publication with one file.\<close>

definition sample_game_page :: "node list" where
  "sample_game_page = [Element (js ''h1'') [] [TextNode (js ''G'')], Element (js ''div'') [(js ''class'', js ''fullstory'')]
     [sample_link ''https://freetp.org/g.torrent'' ''G v1.2'']]"

definition sample_games :: web_env where
  "sample_games = sample_web [(js ''https://freetp.org/g'', sample_game_page)] []"

definition sample_game_link :: variant where
  "sample_game_link = (case game_inspect sample_games None (hd gamingProviders)
       (new_variant (js ''freetp:g'') (js ''freetp'') (js ''FreeTP'') (js ''G'') (js ''https://freetp.org/g'') Torrent) of
     Inr (w, es) \<Rightarrow> hd (w_variants w) | Inl e \<Rightarrow> new_variant [] [] [] [] [] File)"

definition sample_opened_game :: resolved where
  "sample_opened_game = (case game_resolve sample_games None (hd gamingProviders) sample_game_link of Inr r \<Rightarrow> r | Inl e \<Rightarrow> empty_resolved File)"


end
