(* ===== verification/Videos.thy ===== *)
theory Videos
  imports Web Media
begin

text \<open>
  What the sources of videos share, \<open>providers/video/common.ts\<close>: addresses, variants and
  publications, and the JavaScript operations on answers that they all use.
\<close>

section \<open>Videos\<close>

record video_source =
  vs_id :: jstring
  vs_name :: jstring
  vs_url :: jstring

definition absoluteUrl :: "runtime \<Rightarrow> jstring option \<Rightarrow> jstring \<Rightarrow> jstring option" where
  "absoluteUrl rt v base =
     (if \<not> truthy v then None
      else case resolve_url rt (Some base) (or_empty v) of
          None \<Rightarrow> None
        | Some u \<Rightarrow> if u_protocol u = js ''http:'' \<or> u_protocol u = js ''https:'' then Some (rt_href rt u) else None)"

definition is_web_address :: "jstring \<Rightarrow> bool" where
  "is_web_address s \<longleftrightarrow> starts_with s (js ''http://'') \<or> starts_with s (js ''https://'')"

definition videoVariant :: "video_source \<Rightarrow> jstring \<Rightarrow> jstring \<Rightarrow> jstring \<Rightarrow> variant" where
  "videoVariant source i title url =
     (new_variant (vs_id source @ [58] @ i) (vs_id source) (vs_name source) title url Video)\<lparr>v_adStatus := Some AdUnknown\<rparr>"

definition video_publication :: "video_source \<Rightarrow> jstring \<Rightarrow> jstring \<Rightarrow> jstring \<Rightarrow> work" where
  "video_publication source i title url =
     (new_work (vs_id source @ [58] @ i) title Movies [videoVariant source i title url])\<lparr>w_url := Some url\<rparr>"

text \<open>The part of an identifier between colons, \<open>find\<close> with a callback that may raise, and values compared with \<open>===\<close>.\<close>

definition id_part :: "variant \<Rightarrow> nat \<Rightarrow> jstring option" where
  "id_part v n = (let parts = split_char 58 (v_id v) in if n < length parts then Some (parts ! n) else None)"

fun find_r :: "('a \<Rightarrow> ('e, bool) result) \<Rightarrow> 'a list \<Rightarrow> ('e, 'a option) result" where
  "find_r f [] = Inr None"
| "find_r f (x # xs) = bind_r (f x) (\<lambda>b. if b then Inr (Some x) else find_r f xs)"

lemma find_r_Inr: "find_r f xs = Inr (Some x) \<Longrightarrow> x \<in> set xs \<and> f x = Inr True"
  by (induction xs) (auto simp: bind_r_Inr split: if_splits)

definition strictly_equal :: "json option \<Rightarrow> json option \<Rightarrow> bool" where
  "strictly_equal a b \<longleftrightarrow> a = b \<and> (case a of Some (JArr xs) \<Rightarrow> False | Some (JObj m) \<Rightarrow> False | _ \<Rightarrow> True)"

definition texts_of :: "json option \<Rightarrow> jstring list option" where
  "texts_of v = map_option (List.map_filter (\<lambda>x. json_text (Some x))) (json_array v)"

text \<open>A text on which the code calls a method of strings.\<close>

definition text_r :: "json option \<Rightarrow> (error, jstring) result" where
  "text_r v = (case json_text v of None \<Rightarrow> Inl type_error | Some t \<Rightarrow> Inr t)"

text \<open>A request with headers, and a member of an answer under a name that the answer itself gives.\<close>

definition with_headers :: "(jstring \<times> jstring) list \<Rightarrow> jstring \<Rightarrow> web_request" where
  "with_headers hs url = (plain_get url)\<lparr>wq_headers := hs\<rparr>"

definition link_of :: "json option \<Rightarrow> jstring \<Rightarrow> json option" where
  "link_of links k = (case links of Some (JObj m) \<Rightarrow> jm_get m k | _ \<Rightarrow> None)"

text \<open>Identifiers of other catalogs, where the answer has them.\<close>

definition known_ids :: "web_env \<Rightarrow> (string \<times> json option) list \<Rightarrow> (jstring, jstring) jmap" where
  "known_ids env xs = map (\<lambda>(k, v). (js k, string_of (wb_source env) v)) (filter (\<lambda>(k, v). truthy_json v) xs)"

definition string_key :: "web_env \<Rightarrow> json option \<Rightarrow> jstring option \<Rightarrow> bool" where
  "string_key env v part \<longleftrightarrow> part = Some (string_of (wb_source env) v)"

definition found_or_inspect :: "variant \<Rightarrow> variant list \<Rightarrow> variant list" where
  "found_or_inspect catalog variants = (if variants = [] then [catalog\<lparr>v_needsInspection := Some True\<rparr>] else variants)"

end
