(* ===== verification/Players.thy ===== *)
theory Players
  imports Videos
begin

text \<open>
  The players of videos: \<open>providers/video/cvh.ts\<close> and \<open>kodik.ts\<close>. A player confirms the episode
  and the voice that were chosen before its stream is used.
\<close>

section \<open>What was chosen\<close>

record chosen_video =
  ch_title :: jstring
  ch_number :: "rat option"
  ch_episode :: jstring
  ch_translation :: jstring
  ch_publication :: jstring

definition voice_name :: "runtime \<Rightarrow> jstring \<Rightarrow> jstring" where
  "voice_name rt t = rt_lower rt (trim (rx_replace (RPlus RSpace) (\<lambda>_. [32]) (rt_nfc rt t)))"

definition same_voice :: "runtime \<Rightarrow> jstring \<Rightarrow> jstring \<Rightarrow> bool" where
  "same_voice rt a b \<longleftrightarrow> voice_name rt a = voice_name rt b"

definition player_headers :: "runtime \<Rightarrow> url \<Rightarrow> (jstring \<times> jstring) list" where
  "player_headers rt p = [(js ''Referer'', rt_href rt p), (js ''User-Agent'', defaultUserAgent)]"

definition player_selection :: "jstring \<Rightarrow> jstring \<Rightarrow> selection" where
  "player_selection episode player = \<lparr>sel_episode = Some episode, sel_season = None, sel_translationId = None, sel_player = Some player,
     sel_captureId = None\<rparr>"

text \<open>The first of the named streams that is a text and not empty, with its label.\<close>

definition first_stream :: "(string \<times> string option) list \<Rightarrow> json option \<Rightarrow> (jstring \<times> jstring option) option" where
  "first_stream names streams =
     (case List.map_filter (\<lambda>(q, label). case json_text (optional streams q) of
         None \<Rightarrow> None | Some t \<Rightarrow> if t = [] then None else Some (t, map_option js label)) names of
        [] \<Rightarrow> None | s # ss \<Rightarrow> Some s)"

section \<open>CVH\<close>

definition cvh_address_changed :: error where
  "cvh_address_changed = Failed [1048, 1089, 1090, 1086, 1095, 1085, 1080, 1082, 32, 1080, 1079, 1084, 1077, 1085, 1080, 1083,
    32, 1072, 1076, 1088, 1077, 1089, 32, 1074, 1099, 1073, 1088, 1072, 1085, 1085, 1086, 1081,
    32, 1089, 1077, 1088, 1080, 1080, 32, 67, 86, 72, 46, 32, 1054, 1073, 1085, 1086, 1074, 1080,
    1090, 1077, 32, 1074, 1072, 1088, 1080, 1072, 1085, 1090, 1099, 32, 1090, 1072, 1081, 1090,
    1083, 1072, 46]"

definition cvh_unconfirmed :: error where
  "cvh_unconfirmed = Failed [67, 86, 72, 32, 1085, 1077, 32, 1087, 1086, 1076, 1090, 1074, 1077, 1088, 1076, 1080, 1083,
    32, 1074, 1099, 1073, 1088, 1072, 1085, 1085, 1091, 1102, 32, 1089, 1077, 1088, 1080, 1102,
    32, 1080, 32, 1086, 1079, 1074, 1091, 1095, 1082, 1091, 46, 32, 1054, 1073, 1085, 1086, 1074,
    1080, 1090, 1077, 32, 1074, 1072, 1088, 1080, 1072, 1085, 1090, 1099, 32, 1090, 1072, 1081,
    1090, 1083, 1072, 46]"

definition cvh_other_video :: error where
  "cvh_other_video = Failed [67, 86, 72, 32, 1074, 1077, 1088, 1085, 1091, 1083, 32, 1076, 1088, 1091, 1075, 1086, 1077,
    32, 1074, 1080, 1076, 1077, 1086, 32, 1074, 1099, 1073, 1088, 1072, 1085, 1085, 1086, 1081,
    32, 1089, 1077, 1088, 1080, 1080, 46]"

definition cvh_no_video :: error where
  "cvh_no_video = Failed [67, 86, 72, 32, 1085, 1077, 32, 1087, 1088, 1077, 1076, 1086, 1089, 1090, 1072, 1074, 1080,
    1083, 32, 1074, 1080, 1076, 1077, 1086, 32, 1074, 1099, 1073, 1088, 1072, 1085, 1085, 1086,
    1081, 32, 1089, 1077, 1088, 1080, 1080, 32, 1080, 32, 1086, 1079, 1074, 1091, 1095, 1082,
    1080, 46]"

definition cvh_bad_address :: error where
  "cvh_bad_address = Failed [67, 86, 72, 32, 1074, 1077, 1088, 1085, 1091, 1083, 32, 1085, 1077, 1087, 1086, 1076, 1076,
    1077, 1088, 1078, 1080, 1074, 1072, 1077, 1084, 1099, 1081, 32, 1072, 1076, 1088, 1077, 1089,
    32, 1074, 1080, 1076, 1077, 1086, 46]"

definition voice_code :: "jstring \<Rightarrow> bool" where
  "voice_code s \<longleftrightarrow> s \<noteq> [] \<and> list_all (\<lambda>c. is_letter c \<or> is_digit c \<or> c = 95 \<or> c = 45) s"

definition cvh_player :: "runtime \<Rightarrow> jstring \<Rightarrow> chosen_video \<Rightarrow> (error, url \<times> jstring \<times> jstring) result" where
  "cvh_player rt playerUrl ch =
     (case rt_url rt playerUrl of
        None \<Rightarrow> Inl invalid_address
      | Some p \<Rightarrow>
          (case (url_param rt ''anime_id'' p, url_param rt ''episode'' p, url_param rt ''dubbing_code'' p) of
             (Some titleId, Some episode, Some voice) \<Rightarrow>
               if url_origin p \<noteq> (js ''https:'', js ''ru.yummyani.me'', []) \<or> u_pathname p \<noteq> js ''/iframeCVH.html''
                 \<or> u_username p \<noteq> [] \<or> u_password p \<noteq> [] \<or> \<not> all_digits titleId \<or> Some (of_nat (num_of titleId)) \<noteq> ch_number ch
                 \<or> episode \<noteq> ch_episode ch \<or> \<not> all_digits episode \<or> \<not> voice_code voice
               then Inl cvh_address_changed else Inr (p, titleId, voice)
           | _ \<Rightarrow> Inl cvh_address_changed))"

definition cvh_api :: jstring where
  "cvh_api = js ''https://plapi.cdnvideohub.com/api/v1/player/sv''"

definition cvh_episode :: "web_env \<Rightarrow> json \<Rightarrow> chosen_video \<Rightarrow> json \<Rightarrow> (error, bool) result" where
  "cvh_episode env playlist ch entry =
     (if field playlist ''isSerial'' = Some (JBool True)
      then bind_r (member (Some entry) ''episode'') (\<lambda>e. Inr (string_of (wb_source env) e = ch_episode ch))
      else if field playlist ''isSerial'' = Some (JBool False) \<and> ch_episode ch = js ''1''
      then bind_r (member (Some entry) ''episode'') (\<lambda>e. Inr (e = None))
      else Inr False)"

definition cvh_voice :: "json \<Rightarrow> jstring \<Rightarrow> jstring" where
  "cvh_voice entry studio =
     (case json_text (field entry ''voiceType'') of
        None \<Rightarrow> []
      | Some t \<Rightarrow> if t \<in> {[1044, 1091, 1073, 1083, 1103, 1078], [1057, 1091, 1073, 1090, 1080, 1090, 1088, 1099]} then t @ [32] else []) @ studio"

definition cvh_choice :: "web_env \<Rightarrow> json \<Rightarrow> chosen_video \<Rightarrow> json \<Rightarrow> (error, bool) result" where
  "cvh_choice env playlist ch entry =
     bind_r (cvh_episode env playlist ch entry) (\<lambda>matches.
       Inr (matches \<and> (case json_text (field entry ''voiceStudio'') of
          None \<Rightarrow> False
        | Some studio \<Rightarrow> same_voice (wb_runtime env) (cvh_voice entry studio) (ch_translation ch))))"

definition cvh_streams :: "(string \<times> string option) list" where
  "cvh_streams = [(''mpeg4kUrl'', Some ''4K''), (''mpeg2kUrl'', Some ''2K''), (''mpegQhdUrl'', Some ''1440p''), (''mpegFullHdUrl'', Some ''1080p''),
     (''mpegHighUrl'', None), (''mpegMediumUrl'', None), (''mpegLowUrl'', None), (''mpegLowestUrl'', None), (''mpegTinyUrl'', None)]"

definition cvh_choices :: "web_env \<Rightarrow> url \<Rightarrow> jstring \<Rightarrow> jstring \<Rightarrow> chosen_video \<Rightarrow> (error, json list) result" where
  "cvh_choices env p titleId voice ch =
     bind_r (web_json env (with_headers (player_headers (wb_runtime env) p) (cvh_api @ js ''/playlist?'' @ rt_form_text (wb_runtime env)
       [(js ''pub'', js ''745''), (js ''aggr'', js ''mali''), (js ''id'', titleId), (js ''vstu'', voice), (js ''ep'', ch_episode ch)]))) (\<lambda>playlist.
     bind_r (member (Some playlist) ''items'') (\<lambda>listed. bind_r (array_or listed) (filter_r (cvh_choice env playlist ch))))"

definition cvh_stream :: "web_env \<Rightarrow> network \<Rightarrow> url \<Rightarrow> json \<Rightarrow> chosen_video \<Rightarrow> (error, resolved) result" where
  "cvh_stream env net p choice ch =
     (let i = string_of (wb_source env) (field choice ''vkId''); hs = player_headers (wb_runtime env) p in
      if \<not> all_digits i then Inl cvh_unconfirmed
      else bind_r (web_json env (with_headers hs (cvh_api @ js ''/video/'' @ i))) (\<lambda>video.
        bind_r (member (Some video) ''unitedVideoId'') (\<lambda>u.
          if field choice ''vkId'' \<noteq> Some (JText (string_of (wb_source env) u)) then Inl cvh_other_video
          else case first_stream cvh_streams (field video ''sources'') of
              None \<Rightarrow> Inl cvh_no_video
            | Some (address, label) \<Rightarrow>
                bind_r (publicUrl (wb_runtime env) net address) (\<lambda>media.
                  if u_protocol media \<noteq> js ''https:'' then Inl cvh_bad_address
                  else Inr ((empty_resolved Video)\<lparr>rs_resolver := Some Direct, rs_url := Some (rt_href (wb_runtime env) media), rs_headers := Some hs,
                    rs_title := Some (ch_title ch), rs_translation := Some (ch_translation ch), rs_quality := label,
                    rs_selection := Some (player_selection (ch_episode ch) (js ''CVH''))\<rparr>)))))"

definition resolveCvh :: "web_env \<Rightarrow> network \<Rightarrow> jstring \<Rightarrow> chosen_video \<Rightarrow> (error, resolved) result" where
  "resolveCvh env net playerUrl ch =
     bind_r (cvh_player (wb_runtime env) playerUrl ch) (\<lambda>(p, titleId, voice).
     bind_r (cvh_choices env p titleId voice ch) (\<lambda>choices.
       case choices of [choice] \<Rightarrow> cvh_stream env net p choice ch | _ \<Rightarrow> Inl cvh_unconfirmed))"

section \<open>Kodik\<close>

definition kodik_data_changed :: error where
  "kodik_data_changed = Failed [75, 111, 100, 105, 107, 32, 1080, 1079, 1084, 1077, 1085, 1080, 1083, 32, 1076, 1072, 1085,
    1085, 1099, 1077, 32, 1074, 1099, 1073, 1088, 1072, 1085, 1085, 1086, 1075, 1086, 32, 1087,
    1083, 1077, 1077, 1088, 1072, 46, 32, 1054, 1090, 1082, 1088, 1086, 1081, 1090, 1077, 32,
    1080, 1089, 1090, 1086, 1095, 1085, 1080, 1082, 32, 1080, 32, 1087, 1086, 1074, 1090, 1086,
    1088, 1080, 1090, 1077, 32, 1074, 1099, 1073, 1086, 1088, 46]"

definition kodik_address_changed :: error where
  "kodik_address_changed = Failed [1048, 1089, 1090, 1086, 1095, 1085, 1080, 1082, 32, 1080, 1079, 1084, 1077, 1085, 1080, 1083,
    32, 1072, 1076, 1088, 1077, 1089, 32, 1074, 1099, 1073, 1088, 1072, 1085, 1085, 1086, 1081,
    32, 1089, 1077, 1088, 1080, 1080, 32, 75, 111, 100, 105, 107, 46, 32, 1054, 1073, 1085, 1086,
    1074, 1080, 1090, 1077, 32, 1074, 1072, 1088, 1080, 1072, 1085, 1090, 1099, 32, 1090, 1072,
    1081, 1090, 1083, 1072, 46]"

definition kodik_episode_changed :: error where
  "kodik_episode_changed = Failed [1048, 1089, 1090, 1086, 1095, 1085, 1080, 1082, 32, 1080, 1079, 1084, 1077, 1085, 1080, 1083,
    32, 1074, 1099, 1073, 1088, 1072, 1085, 1085, 1091, 1102, 32, 1089, 1077, 1088, 1080, 1102,
    32, 75, 111, 100, 105, 107, 46, 32, 1054, 1073, 1085, 1086, 1074, 1080, 1090, 1077, 32, 1074,
    1072, 1088, 1080, 1072, 1085, 1090, 1099, 32, 1090, 1072, 1081, 1090, 1083, 1072, 46]"

definition kodik_other_voice :: error where
  "kodik_other_voice = Failed [75, 111, 100, 105, 107, 32, 1074, 1077, 1088, 1085, 1091, 1083, 32, 1076, 1088, 1091, 1075,
    1091, 1102, 32, 1086, 1079, 1074, 1091, 1095, 1082, 1091, 46, 32, 1054, 1073, 1085, 1086,
    1074, 1080, 1090, 1077, 32, 1074, 1072, 1088, 1080, 1072, 1085, 1090, 1099, 32, 1090, 1072,
    1081, 1090, 1083, 1072, 46]"

definition kodik_no_video :: error where
  "kodik_no_video = Failed [75, 111, 100, 105, 107, 32, 1085, 1077, 32, 1087, 1088, 1077, 1076, 1086, 1089, 1090, 1072,
    1074, 1080, 1083, 32, 1074, 1099, 1073, 1088, 1072, 1085, 1085, 1086, 1077, 32, 1074, 1080,
    1076, 1077, 1086, 46]"

definition kodik_unconfirmed :: error where
  "kodik_unconfirmed = Failed [75, 111, 100, 105, 107, 32, 1085, 1077, 32, 1087, 1086, 1076, 1090, 1074, 1077, 1088, 1076,
    1080, 1083, 32, 1074, 1099, 1073, 1088, 1072, 1085, 1085, 1091, 1102, 32, 1089, 1077, 1088,
    1080, 1102, 32, 1080, 32, 1086, 1079, 1074, 1091, 1095, 1082, 1091, 46, 32, 1054, 1073, 1085,
    1086, 1074, 1080, 1090, 1077, 32, 1074, 1072, 1088, 1080, 1072, 1085, 1090, 1099, 32, 1090,
    1072, 1081, 1090, 1083, 1072, 46]"

definition kodik_other_video :: error where
  "kodik_other_video = Failed [75, 111, 100, 105, 107, 32, 1074, 1077, 1088, 1085, 1091, 1083, 32, 1076, 1088, 1091, 1075,
    1086, 1077, 32, 1074, 1080, 1076, 1077, 1086, 46]"

definition kodik_ambiguous :: error where
  "kodik_ambiguous = Failed [75, 111, 100, 105, 107, 32, 1085, 1077, 32, 1087, 1088, 1077, 1076, 1086, 1089, 1090, 1072,
    1074, 1080, 1083, 32, 1086, 1076, 1085, 1086, 1079, 1085, 1072, 1095, 1085, 1099, 1081, 32,
    1087, 1086, 1090, 1086, 1082, 32, 1084, 1072, 1082, 1089, 1080, 1084, 1072, 1083, 1100, 1085,
    1086, 1075, 1086, 32, 1082, 1072, 1095, 1077, 1089, 1090, 1074, 1072, 32, 1074, 1099, 1073,
    1088, 1072, 1085, 1085, 1086, 1081, 32, 1089, 1077, 1088, 1080, 1080, 46]"

definition kodik_bad_address :: error where
  "kodik_bad_address = Failed [75, 111, 100, 105, 107, 32, 1080, 1079, 1084, 1077, 1085, 1080, 1083, 32, 1092, 1086, 1088,
    1084, 1072, 1090, 32, 1072, 1076, 1088, 1077, 1089, 1072, 32, 1074, 1099, 1073, 1088, 1072,
    1085, 1085, 1086, 1075, 1086, 32, 1074, 1080, 1076, 1077, 1086, 46]"

definition kodik_no_playlist :: "nat \<Rightarrow> error" where
  "kodik_no_playlist s = Failed ([75, 111, 100, 105, 107, 32, 1085, 1077, 32, 1087, 1088, 1077, 1076, 1086, 1089, 1090, 1072,
    1074, 1080, 1083, 32, 1087, 1083, 1077, 1081, 1083, 1080, 1089, 1090, 32, 1074, 1099, 1073,
    1088, 1072, 1085, 1085, 1086, 1075, 1086, 32, 1074, 1080, 1076, 1077, 1086, 32, 40, 72, 84,
    84, 80, 32] @ to_dec s @ js '').'')"

text \<open>\<open>playerString\<close>: a string literal that a script assigns to a variable at the start of a line.\<close>

definition literal_rx :: rx where
  "literal_rx = RSeqs [RLit [34], RStar True (RAlt (RCh (\<lambda>c. c \<noteq> 34 \<and> c \<noteq> 92)) (RSeq (RLit [92]) RDot)), RLit [34]]"

definition playerString :: "web_env \<Rightarrow> jstring \<Rightarrow> string \<Rightarrow> (error, jstring) result" where
  "playerString env script name =
     (case rx_cap (RSeqs [RAlt RBol (RLit [10]), RSpaces, RLit (js ''var ''), RLit (js name), RLit (js '' = ''), RGroup 1 literal_rx, RLit (js '';'')]) 1 script of
        None \<Rightarrow> Inl kodik_data_changed
      | Some literal \<Rightarrow> (case json_text (wb_parse env literal) of None \<Rightarrow> Inl not_json | Some t \<Rightarrow> Inr t))"

text \<open>The route of a player names a kind, a number and a digest.\<close>

definition route_rx :: rx where
  "route_rx = RSeqs [RBol, RLit (js ''/''), RGroup 1 (RAlts (map (\<lambda>k. RLit (js k)) [''season'', ''serial'', ''seria'', ''video''])), RLit (js ''/''),
     RGroup 2 (RPlus RDigit), RLit (js ''/''), RGroup 3 (RTimes 32 (RCh is_hex_lower)), RLit (js ''/720p''), REol]"

record kodik_route =
  kr_player :: url
  kr_kind :: jstring
  kr_id :: jstring
  kr_hash :: jstring

definition is_playlist :: "kodik_route \<Rightarrow> bool" where
  "is_playlist r \<longleftrightarrow> kr_kind r = js ''season'' \<or> kr_kind r = js ''serial''"

definition drop_param :: "runtime \<Rightarrow> string \<Rightarrow> url \<Rightarrow> url" where
  "drop_param rt k u = url_with_params rt (filter (\<lambda>p. fst p \<noteq> js k) (url_params rt u)) u"

definition kodik_player :: "runtime \<Rightarrow> jstring \<Rightarrow> chosen_video \<Rightarrow> (error, kodik_route) result" where
  "kodik_player rt playerUrl ch =
     (case rt_url rt playerUrl of
        None \<Rightarrow> Inl invalid_address
      | Some p \<Rightarrow>
          (case rx_exec route_rx (u_pathname p) of
             None \<Rightarrow> Inl kodik_address_changed
           | Some f \<Rightarrow>
               (let route = \<lparr>kr_player = drop_param rt ''only_season'' (drop_param rt ''only_episode'' p),
                      kr_kind = or_empty (cap f 1), kr_id = or_empty (cap f 2), kr_hash = or_empty (cap f 3)\<rparr>;
                    episode = url_param rt ''episode'' p in
                if url_origin p \<noteq> (js ''https:'', js ''kodikplayer.com'', []) \<or> u_username p \<noteq> [] \<or> u_password p \<noteq> []
                  \<or> \<not> all_digits (ch_episode ch) then Inl kodik_address_changed
                else if (is_playlist route \<or> episode \<noteq> None) \<and> episode \<noteq> Some (ch_episode ch)
                  \<or> kr_kind route = js ''video'' \<and> ch_episode ch \<noteq> js ''1'' then Inl kodik_episode_changed
                else Inr route)))"

text \<open>The scripts of the page, the voice they name and the video they play.\<close>

definition kodik_script :: "node list \<Rightarrow> jstring" where
  "kodik_script doc = join [10] (map (\<lambda>n. text_of [n]) (select (\<lambda>t a. tg ''script'' t a \<and> \<not> jm_has a (js ''src'')) doc))"

definition kodik_voice :: "jstring \<Rightarrow> jstring" where
  "kodik_voice t = rx_replace1 (RSeqs [RBol, RGroup 1 (RStar True RDot), RLitI (js ''.Subtitles''), REol]) (\<lambda>f. [1057, 1091, 1073, 1090, 1080, 1090, 1088, 1099, 32] @ or_empty (cap f 1)) t"

definition video_info_rx :: rx where
  "video_info_rx = RSeqs [RWordB, RLit (js ''vInfo.''), RGroup 1 (RAlts [RLit (js ''type''), RLit (js ''hash''), RLit (js ''id'')]), RSpaces, RLit (js ''=''), RSpaces,
     RLit [39], RGroup 2 (RPlus (RCh (\<lambda>c. is_lower c \<or> is_digit c))), RLit [39], RLit (js '';'')]"

record kodik_video =
  kv_type :: jstring
  kv_id :: jstring
  kv_hash :: jstring

definition kodik_info :: "jstring \<Rightarrow> string \<Rightarrow> jstring" where
  "kodik_info script name = or_empty (jm_get (jm_of (map (\<lambda>f. (or_empty (cap f 1), or_empty (cap f 2))) (rx_all video_info_rx script))) (js name))"

definition hex32 :: "jstring \<Rightarrow> bool" where
  "hex32 s \<longleftrightarrow> length s = 32 \<and> list_all is_hex_lower s"

definition kodik_shown :: "jstring \<Rightarrow> kodik_route \<Rightarrow> (error, kodik_video) result" where
  "kodik_shown script route =
     (let v = \<lparr>kv_type = kodik_info script ''type'', kv_id = kodik_info script ''id'', kv_hash = kodik_info script ''hash''\<rparr> in
      if kv_type v \<noteq> (if kr_kind route = js ''video'' then js ''video'' else js ''seria'') \<or> \<not> all_digits (kv_id v) \<or> \<not> hex32 (kv_hash v)
      then Inl kodik_no_video else Inr v)"

definition episode_options :: "node list \<Rightarrow> jstring \<Rightarrow> node list" where
  "episode_options doc episode = filter (\<lambda>n. node_attr n (js ''value'') = Some episode)
     (select_where (below [cls ''serial-series-box'', tg ''select''] (tg ''option'')) [] doc)"

definition option_confirms :: "kodik_video \<Rightarrow> node \<Rightarrow> bool" where
  "option_confirms v n \<longleftrightarrow> node_attr n (js ''selected'') \<noteq> None \<and> node_attr n (js ''data-other-translation'') = Some (js ''false'')
     \<and> node_attr n (js ''data-id'') = Some (kv_id v) \<and> node_attr n (js ''data-hash'') = Some (kv_hash v)"

definition kodik_confirm :: "node list \<Rightarrow> kodik_route \<Rightarrow> jstring \<Rightarrow> kodik_video \<Rightarrow> (error, unit) result" where
  "kodik_confirm doc route episode v =
     (if is_playlist route
      then (case episode_options doc episode of [n] \<Rightarrow> if option_confirms v n then Inr () else Inl kodik_unconfirmed | _ \<Rightarrow> Inl kodik_unconfirmed)
      else if kv_id v \<noteq> kr_id route \<or> kv_hash v \<noteq> kr_hash route then Inl kodik_other_video else Inr ())"

text \<open>The form for the streams of the video, and its best stream.\<close>

definition kodik_form :: "web_env \<Rightarrow> jstring \<Rightarrow> kodik_video \<Rightarrow> (error, (jstring \<times> jstring) list) result" where
  "kodik_form env script v =
     bind_r (map_r (\<lambda>name. bind_r (playerString env script name) (\<lambda>t. Inr (js (if name = ''domain'' then ''d'' else name), t)))
       [''domain'', ''d_sign'', ''pd'', ''pd_sign'', ''ref'', ''ref_sign'']) (\<lambda>ps.
     Inr (ps @ [(js ''type'', kv_type v), (js ''id'', kv_id v), (js ''hash'', kv_hash v), (js ''info'', js ''{}''), (js ''cdn_is_working'', js ''false'')]))"

definition kodik_sources :: "web_env \<Rightarrow> url \<Rightarrow> jstring \<Rightarrow> kodik_video \<Rightarrow> (error, json) result" where
  "kodik_sources env p script v =
     bind_r (kodik_form env script v) (\<lambda>form. web_json env \<lparr>wq_url = js ''https://kodikplayer.com/ftor'', wq_method = js ''POST'',
       wq_headers = player_headers (wb_runtime env) p @ [(js ''X-Requested-With'', js ''XMLHttpRequest'')], wq_body = Some (rt_form_text (wb_runtime env) form)\<rparr>)"

definition quality_keys :: "json option \<Rightarrow> jstring list" where
  "quality_keys links = (case links of Some (JObj m) \<Rightarrow>
     sort_desc (\<lambda>k. int (num_of k)) (filter (\<lambda>k. all_digits k \<and> (length k = 3 \<or> length k = 4)) (jm_keys m)) | _ \<Rightarrow> [])"

definition kodik_encoded :: "web_env \<Rightarrow> json \<Rightarrow> (error, jstring) result" where
  "kodik_encoded env sources =
     bind_r (member (Some sources) ''links'') (\<lambda>links.
       case json_array (link_of links (case quality_keys links of [] \<Rightarrow> [] | k # ks \<Rightarrow> k)) of
         Some [choice] \<Rightarrow> bind_r (member (Some choice) ''src'') (\<lambda>src.
           case json_text src of
             None \<Rightarrow> Inl kodik_ambiguous
           | Some t \<Rightarrow> if rx_test (RLitI (js ''mpegurl'')) (string_of (wb_source env) (field choice ''type'')) then Inr t else Inl kodik_ambiguous)
       | _ \<Rightarrow> Inl kodik_ambiguous)"

text \<open>The player's spelling of an address: letters moved by eighteen places in their alphabet, then base64.\<close>

definition kodik_letter :: "nat \<Rightarrow> nat" where
  "kodik_letter c = (if is_letter c then (let s = c + 18 in if s \<le> (if c \<le> 90 then 90 else 122) then s else s - 26) else c)"

definition bad_base64 :: error where
  "bad_base64 = Failed (js ''InvalidCharacterError'')"

definition kodik_address :: "web_env \<Rightarrow> jstring \<Rightarrow> (error, jstring) result" where
  "kodik_address env encoded =
     (if includes_str encoded (js ''//'') then Inr encoded
      else case wb_atob env (map kodik_letter encoded) of None \<Rightarrow> Inl bad_base64 | Some a \<Rightarrow> Inr a)"

definition manifest_rx :: rx where
  "manifest_rx = RSeqs [RBolM, RLit (js ''#EXT''), RAlt (RLit (js ''INF:'')) (RLit (js ''-X-STREAM-INF:''))]"

definition kodik_media :: "web_env \<Rightarrow> network \<Rightarrow> url \<Rightarrow> jstring \<Rightarrow> (error, url) result" where
  "kodik_media env net p address =
     (case rt_url_at (wb_runtime env) address p of
        None \<Rightarrow> Inl invalid_address
      | Some advertised \<Rightarrow>
          if u_protocol advertised \<noteq> js ''https:'' then Inl kodik_bad_address
          else bind_r (wb_request env (with_headers (player_headers (wb_runtime env) p) (rt_href (wb_runtime env) advertised))) (\<lambda>r.
            let manifest = wb_utf8 env (wr_bytes r) in
            if \<not> in_range 200 299 (wr_status r) \<or> \<not> starts_with manifest (js ''#EXTM3U'') \<or> \<not> rx_test manifest_rx manifest
            then Inl (kodik_no_playlist (wr_status r))
            else bind_r (publicUrl (wb_runtime env) net (wr_url r)) (\<lambda>media.
              if u_protocol media \<noteq> js ''https:'' then Inl kodik_bad_address else Inr media)))"

definition kodik_page :: "web_env \<Rightarrow> kodik_route \<Rightarrow> chosen_video \<Rightarrow> (error, node list) result" where
  "kodik_page env route ch = web_html env (with_headers [(js ''Referer'', ch_publication ch), (js ''User-Agent'', defaultUserAgent)]
     (rt_href (wb_runtime env) (kr_player route)))"

definition resolveKodik :: "web_env \<Rightarrow> network \<Rightarrow> jstring \<Rightarrow> chosen_video \<Rightarrow> (error, resolved) result" where
  "resolveKodik env net playerUrl ch =
     bind_r (kodik_player (wb_runtime env) playerUrl ch) (\<lambda>route.
     bind_r (kodik_page env route ch) (\<lambda>doc.
     let script = kodik_script doc; p = kr_player route in
     bind_r (playerString env script ''translationTitle'') (\<lambda>t.
       if \<not> same_voice (wb_runtime env) (kodik_voice t) (ch_translation ch) then Inl kodik_other_voice
       else bind_r (kodik_shown script route) (\<lambda>v.
            bind_r (kodik_confirm doc route (ch_episode ch) v) (\<lambda>_.
            bind_r (kodik_sources env p script v) (\<lambda>sources.
            bind_r (kodik_encoded env sources) (\<lambda>encoded.
            bind_r (kodik_address env encoded) (\<lambda>address.
            bind_r (kodik_media env net p address) (\<lambda>media.
              Inr ((empty_resolved Video)\<lparr>rs_resolver := Some Direct, rs_url := Some (rt_href (wb_runtime env) media),
                rs_headers := Some (player_headers (wb_runtime env) p), rs_title := Some (ch_title ch), rs_translation := Some (ch_translation ch),
                rs_selection := Some (player_selection (ch_episode ch) (js ''Kodik''))\<rparr>))))))))))"

section \<open>What the players confirm\<close>

text \<open>The shift of letters can be undone, so no two addresses have the same spelling.\<close>

definition kodik_unletter :: "nat \<Rightarrow> nat" where
  "kodik_unletter c = (if is_letter c then (let s = c + 8 in if s \<le> (if c \<le> 90 then 90 else 122) then s else s - 26) else c)"

lemma kodik_letter_back: "kodik_unletter (kodik_letter c) = c"
  by (auto simp: kodik_unletter_def kodik_letter_def is_letter_def is_lower_def is_upper_def in_range_def Let_def)

lemma kodik_letter_inj: "inj kodik_letter"
  by (rule inj_on_inverseI[of _ kodik_unletter]) (rule kodik_letter_back)

definition player_stream :: "runtime \<Rightarrow> network \<Rightarrow> resolved \<Rightarrow> bool" where
  "player_stream rt net r \<longleftrightarrow> rs_kind r = Video \<and> rs_resolver r = Some Direct \<and> rs_audioUrl r = None \<and> rs_subtitles r = None
     \<and> (\<exists>media s. rs_url r = Some (rt_href rt media) \<and> u_protocol media = js ''https:'' \<and> publicUrl rt net s = Inr media)
     \<and> fst ` set (list_or (rs_headers r)) \<subseteq> {js ''Referer'', js ''User-Agent''}"

lemma cvh_stream_Inr:
  assumes "cvh_stream env net p choice ch = Inr r"
  shows "player_stream (wb_runtime env) net r \<and> rs_title r = Some (ch_title ch) \<and> rs_translation r = Some (ch_translation ch)
    \<and> rs_selection r = Some (player_selection (ch_episode ch) (js ''CVH''))"
proof -
  obtain address media label where "publicUrl (wb_runtime env) net address = Inr media" "u_protocol media = js ''https:''"
      "r = (empty_resolved Video)\<lparr>rs_resolver := Some Direct, rs_url := Some (rt_href (wb_runtime env) media),
        rs_headers := Some (player_headers (wb_runtime env) p), rs_title := Some (ch_title ch), rs_translation := Some (ch_translation ch), rs_quality := label,
        rs_selection := Some (player_selection (ch_episode ch) (js ''CVH''))\<rparr>"
    using assms by (auto simp: cvh_stream_def Let_def bind_r_Inr simp del: js_simps split: if_splits option.splits)
  then show ?thesis unfolding player_stream_def by (simp add: empty_resolved_def player_headers_def del: js_simps) blast
qed

lemma resolveCvh_Inr:
  assumes "resolveCvh env net url ch = Inr r"
  obtains p titleId voice choice where "cvh_player (wb_runtime env) url ch = Inr (p, titleId, voice)"
    "cvh_choices env p titleId voice ch = Inr [choice]" "cvh_stream env net p choice ch = Inr r"
proof -
  obtain p titleId voice choices where *: "cvh_player (wb_runtime env) url ch = Inr (p, titleId, voice)" "cvh_choices env p titleId voice ch = Inr choices"
    and r: "(case choices of [choice] \<Rightarrow> cvh_stream env net p choice ch | _ \<Rightarrow> Inl cvh_unconfirmed) = Inr r"
    using assms by (auto simp: resolveCvh_def bind_r_Inr simp del: js_simps)
  obtain choice where "choices = [choice]" "cvh_stream env net p choice ch = Inr r" using r by (auto split: list.splits)
  then show ?thesis using that * by blast
qed

lemma kodik_media_Inr: "kodik_media env net p address = Inr media \<Longrightarrow> u_protocol media = js ''https:'' \<and> (\<exists>s. publicUrl (wb_runtime env) net s = Inr media)"
  by (auto simp: kodik_media_def bind_r_Inr Let_def simp del: js_simps split: option.splits if_splits)

lemma resolveKodik_Inr:
  assumes "resolveKodik env net url ch = Inr r"
  obtains route doc t v media where "kodik_player (wb_runtime env) url ch = Inr route" "kodik_page env route ch = Inr doc"
    "playerString env (kodik_script doc) ''translationTitle'' = Inr t" "same_voice (wb_runtime env) (kodik_voice t) (ch_translation ch)"
    "kodik_shown (kodik_script doc) route = Inr v" "kodik_confirm doc route (ch_episode ch) v = Inr ()"
    "u_protocol media = js ''https:''" "\<exists>s. publicUrl (wb_runtime env) net s = Inr media"
    "r = (empty_resolved Video)\<lparr>rs_resolver := Some Direct, rs_url := Some (rt_href (wb_runtime env) media),
       rs_headers := Some (player_headers (wb_runtime env) (kr_player route)), rs_title := Some (ch_title ch), rs_translation := Some (ch_translation ch),
       rs_selection := Some (player_selection (ch_episode ch) (js ''Kodik''))\<rparr>"
proof -
  obtain route doc t v sources encoded address media where
    *: "kodik_player (wb_runtime env) url ch = Inr route" "kodik_page env route ch = Inr doc"
      "playerString env (kodik_script doc) ''translationTitle'' = Inr t" "same_voice (wb_runtime env) (kodik_voice t) (ch_translation ch)"
      "kodik_shown (kodik_script doc) route = Inr v" "kodik_confirm doc route (ch_episode ch) v = Inr ()"
      "kodik_media env net (kr_player route) address = Inr media"
      "r = (empty_resolved Video)\<lparr>rs_resolver := Some Direct, rs_url := Some (rt_href (wb_runtime env) media),
         rs_headers := Some (player_headers (wb_runtime env) (kr_player route)), rs_title := Some (ch_title ch), rs_translation := Some (ch_translation ch),
         rs_selection := Some (player_selection (ch_episode ch) (js ''Kodik''))\<rparr>"
    using assms by (auto simp: resolveKodik_def bind_r_Inr Let_def simp del: js_simps split: if_splits)
  show ?thesis using that[OF *(1-6)] kodik_media_Inr[OF *(7)] *(8) by blast
qed

lemma resolveKodik_stream: "resolveKodik env net url ch = Inr r \<Longrightarrow> player_stream (wb_runtime env) net r"
  by (erule resolveKodik_Inr) (auto simp: player_stream_def empty_resolved_def player_headers_def simp del: js_simps)

lemma kodik_translation: "resolveKodik env net url ch = Inr r \<Longrightarrow> rs_translation r = Some (ch_translation ch)"
  by (erule resolveKodik_Inr) simp

lemma kodik_player_episode:
  assumes "kodik_player rt url ch = Inr route"
  shows "\<exists>p. rt_url rt url = Some p \<and> url_origin p = (js ''https:'', js ''kodikplayer.com'', []) \<and> all_digits (ch_episode ch)
    \<and> (is_playlist route \<longrightarrow> url_param rt ''episode'' p = Some (ch_episode ch)) \<and> (kr_kind route = js ''video'' \<longrightarrow> ch_episode ch = js ''1'')"
  using assms by (auto simp: kodik_player_def Let_def simp del: js_simps split: option.splits if_splits)


text \<open>A stream of CVH belongs to the only listed video of the chosen episode whose voice is the chosen one.\<close>

lemma cvh_exact:
  assumes "resolveCvh env net url ch = Inr r"
  shows "\<exists>p titleId voice choice. cvh_player (wb_runtime env) url ch = Inr (p, titleId, voice) \<and> cvh_choices env p titleId voice ch = Inr [choice]
    \<and> ch_number ch = Some (of_nat (num_of titleId)) \<and> url_param (wb_runtime env) ''episode'' p = Some (ch_episode ch)
    \<and> (\<exists>studio. json_text (field choice ''voiceStudio'') = Some studio \<and> same_voice (wb_runtime env) (cvh_voice choice studio) (ch_translation ch))"
proof -
  obtain p titleId voice choice where *: "cvh_player (wb_runtime env) url ch = Inr (p, titleId, voice)"
    "cvh_choices env p titleId voice ch = Inr [choice]" using assms by (rule resolveCvh_Inr)
  have "ch_number ch = Some (of_nat (num_of titleId)) \<and> url_param (wb_runtime env) ''episode'' p = Some (ch_episode ch)"
    using *(1) by (auto simp: cvh_player_def simp del: js_simps split: option.splits if_splits)
  moreover obtain playlist where "cvh_choice env playlist ch choice = Inr True"
    using *(2) filter_r_Inr[of _ _ "[choice]" choice] by (auto simp: cvh_choices_def bind_r_Inr simp del: js_simps)
  then have "\<exists>studio. json_text (field choice ''voiceStudio'') = Some studio \<and> same_voice (wb_runtime env) (cvh_voice choice studio) (ch_translation ch)"
    by (auto simp: cvh_choice_def bind_r_Inr split: option.splits)
  ultimately show ?thesis using * by blast
qed

section \<open>A sample player\<close>

definition sample_text :: "string \<Rightarrow> jstring" where
  "sample_text name = [10] @ js (''var '' @ name @ '' = '') @ [34] @ js ''T'' @ [34] @ js '';''"

definition sample_video_info :: "string \<Rightarrow> jstring \<Rightarrow> jstring" where
  "sample_video_info name v = [10] @ js (''vInfo.'' @ name @ '' = '') @ [39] @ v @ [39] @ js '';''"

definition sample_hash :: jstring where
  "sample_hash = js ''0123456789abcdef0123456789abcdef''"

definition sample_kodik_page :: "node list" where
  "sample_kodik_page = [Element (js ''script'') [] [TextNode (concat (map sample_text
      [''translationTitle'', ''domain'', ''d_sign'', ''pd'', ''pd_sign'', ''ref'', ''ref_sign''])
    @ sample_video_info ''type'' (js ''seria'') @ sample_video_info ''hash'' sample_hash @ sample_video_info ''id'' (js ''12''))]]"

definition sample_kodik_url :: jstring where
  "sample_kodik_url = js ''https://kodikplayer.com/seria/12/'' @ sample_hash @ js ''/720p''"

definition sample_stream_url :: jstring where
  "sample_stream_url = js ''https://c.org/a.m3u8''"

definition sample_sources :: json where
  "sample_sources = json_object [(''links'', json_object [(''720'', JArr [json_object
     [(''src'', JText sample_stream_url), (''type'', JText (js ''application/x-mpegURL''))]])])]"

definition sample_kodik :: web_env where
  "sample_kodik = (sample_web [(sample_kodik_url, sample_kodik_page)]
      [([34] @ js ''T'' @ [34], JText (js ''T'')),
       (js ''https://kodikplayer.com/ftor'', sample_sources)])
     \<lparr>wb_request := (\<lambda>q. Inr \<lparr>wr_url = wq_url q, wr_status = 200, wr_headers = [], wr_bytes = wq_url q\<rparr>),
      wb_utf8 := (\<lambda>b. if b = sample_stream_url then js ''#EXTM3U'' @ [10] @ js ''#EXTINF:1'' else b)\<rparr>"

definition sample_chosen :: chosen_video where
  "sample_chosen = \<lparr>ch_title = js ''A'', ch_number = Some 5, ch_episode = js ''1'', ch_translation = js ''T'', ch_publication = js ''https://yani.tv/a''\<rparr>"

definition sample_route :: kodik_route where
  "sample_route = \<lparr>kr_player = \<lparr>u_protocol = js ''https:'', u_username = [], u_password = [], u_hostname = js ''kodikplayer.com'', u_port = [],
     u_pathname = js ''/seria/12/'' @ sample_hash @ js ''/720p'', u_search = [], u_hash = []\<rparr>, kr_kind = js ''seria'', kr_id = js ''12'', kr_hash = sample_hash\<rparr>"

definition sample_kodik_video :: kodik_video where
  "sample_kodik_video = \<lparr>kv_type = js ''seria'', kv_id = js ''12'', kv_hash = sample_hash\<rparr>"

definition sample_media :: url where
  "sample_media = \<lparr>u_protocol = js ''https:'', u_username = [], u_password = [], u_hostname = js ''c.org'', u_port = [],
     u_pathname = js ''/a.m3u8'', u_search = [], u_hash = []\<rparr>"

definition sample_played :: resolved where
  "sample_played = (empty_resolved Video)\<lparr>rs_resolver := Some Direct, rs_url := Some (rt_href sample_runtime sample_media),
     rs_headers := Some (player_headers sample_runtime (kr_player sample_route)), rs_title := Some (ch_title sample_chosen),
     rs_translation := Some (ch_translation sample_chosen), rs_selection := Some (player_selection (ch_episode sample_chosen) (js ''Kodik''))\<rparr>"

lemma sample_kodik_runtime: "wb_runtime sample_kodik = sample_runtime"
  by (simp add: sample_kodik_def sample_web_def Galleries.sample_source_def)

lemma sample_route_run: "kodik_player sample_runtime sample_kodik_url sample_chosen = Inr sample_route"
  by code_simp

lemma sample_page_run: "kodik_page sample_kodik sample_route sample_chosen = Inr sample_kodik_page"
  by code_simp

lemma sample_voice_run: "playerString sample_kodik (kodik_script sample_kodik_page) ''translationTitle'' = Inr (js ''T'')"
  by code_simp

lemma sample_same_voice: "same_voice sample_runtime (kodik_voice (js ''T'')) (ch_translation sample_chosen)"
  by code_simp

lemma sample_shown_run: "kodik_shown (kodik_script sample_kodik_page) sample_route = Inr sample_kodik_video"
  by code_simp

lemma sample_confirm_run: "kodik_confirm sample_kodik_page sample_route (ch_episode sample_chosen) sample_kodik_video = Inr ()"
  by code_simp

lemma sample_sources_run: "kodik_sources sample_kodik (kr_player sample_route) (kodik_script sample_kodik_page) sample_kodik_video = Inr sample_sources"
  by code_simp

lemma sample_encoded_run: "kodik_encoded sample_kodik sample_sources = Inr sample_stream_url"
  by code_simp

lemma sample_address_run: "kodik_address sample_kodik sample_stream_url = Inr sample_stream_url"
  by code_simp

lemma sample_media_run: "kodik_media sample_kodik sample_network (kr_player sample_route) sample_stream_url = Inr sample_media"
  by code_simp

lemma sample_played_run: "resolveKodik sample_kodik sample_network sample_kodik_url sample_chosen = Inr sample_played"
  by (simp add: resolveKodik_def sample_kodik_runtime sample_route_run sample_page_run sample_voice_run sample_same_voice sample_shown_run
      sample_confirm_run sample_sources_run sample_encoded_run sample_address_run sample_media_run sample_played_def Let_def del: js_simps)


end
