(* ===== verification/Yani.thy ===== *)
theory Yani
  imports Players
begin

text \<open>
  YummyAnime, \<open>providers/video/yani.ts\<close>: requests with a session that is renewed, titles and
  their episodes, the check of qualities and the resolution of an episode by its player.
\<close>

section \<open>Requests\<close>

text \<open>
  The environment adds the clock, \<open>saveSettings\<close> where the context has it, and the outcome of a
  renewal of the same session that is under way.
\<close>

record yani_env =
  ye_web :: web_env
  ye_now :: nat
  ye_save :: "((jstring, jstring) jmap \<Rightarrow> (error, unit) result) option"
  ye_running :: "(error, (jstring, jstring) jmap) result option"

definition yani_site :: jstring where
  "yani_site = js ''https://yani.tv''"

definition yani_api_url :: jstring where
  "yani_api_url = js ''https://api.yani.tv''"

definition yani_source :: video_source where
  "yani_source = \<lparr>vs_id = js ''yani'', vs_name = js ''YummyAnime'', vs_url = yani_site\<rparr>"

definition yani_headers :: "web_env \<Rightarrow> (jstring, jstring) jmap" where
  "yani_headers env = [(js ''Accept'', js ''application/json'')]
     @ (if truthy (setting_of env ''applicationToken'') then [(js ''X-Application'', or_empty (setting_of env ''applicationToken''))] else [])
     @ (if truthy (setting_of env ''accountToken'') then [(js ''Authorization'', js ''Yummy '' @ or_empty (setting_of env ''accountToken''))] else [])"

definition refresh_time :: nat where
  "refresh_time = 2 * 24 * 60 * 60 * 1000"

definition needs_refresh :: "yani_env \<Rightarrow> bool" where
  "needs_refresh ye \<longleftrightarrow> truthy (setting_of (ye_web ye) ''accountToken'') \<and> ye_save ye \<noteq> None
     \<and> (case Option.bind (setting_of (ye_web ye) ''accountTokenRefreshedAt'') (so_parse_number (wb_source (ye_web ye))) of
          None \<Rightarrow> True | Some t \<Rightarrow> of_nat (ye_now ye) - t > of_nat refresh_time)"

definition session_lost :: error where
  "session_lost = Failed [89, 117, 109, 109, 121, 65, 110, 105, 109, 101, 32, 1085, 1077, 32, 1086, 1073, 1085, 1086,
    1074, 1080, 1083, 32, 1089, 1077, 1089, 1089, 1080, 1102, 46, 32, 1055, 1086, 1076, 1082,
    1083, 1102, 1095, 1080, 1090, 1077, 32, 1072, 1082, 1082, 1072, 1091, 1085, 1090, 32, 1079,
    1072, 1085, 1086, 1074, 1086, 46]"

definition renew_session :: "yani_env \<Rightarrow> (error, (jstring, jstring) jmap) result" where
  "renew_session ye =
     bind_r (web_json (ye_web ye) (with_headers (yani_headers (ye_web ye)) (yani_api_url @ js ''/profile/token''))) (\<lambda>j.
     bind_r (member (Some j) ''response'') (\<lambda>r.
       case json_text (optional r ''token'') of
         None \<Rightarrow> Inl session_lost
       | Some t \<Rightarrow>
           if t = [] then Inl session_lost
           else let changes = [(js ''accountToken'', t), (js ''accountTokenRefreshedAt'', to_dec (ye_now ye))] in
             bind_r (case ye_save ye of None \<Rightarrow> Inl type_error | Some save \<Rightarrow> save changes) (\<lambda>_. Inr changes)))"

definition with_changes :: "(jstring, jstring) jmap \<Rightarrow> yani_env \<Rightarrow> yani_env" where
  "with_changes changes ye = ye\<lparr>ye_web := (ye_web ye)\<lparr>wb_settings := fold (\<lambda>(k, v). jm_set k v) changes (wb_settings (ye_web ye))\<rparr>\<rparr>"

definition renewed :: "yani_env \<Rightarrow> (error, yani_env) result" where
  "renewed ye =
     (if \<not> needs_refresh ye then Inr ye
      else bind_r (case ye_running ye of Some r \<Rightarrow> r | None \<Rightarrow> renew_session ye) (\<lambda>changes. Inr (with_changes changes ye)))"

text \<open>\<open>api\<close>: the environment afterwards keeps the renewed settings, also when the request itself fails.\<close>

definition yani_api :: "yani_env \<Rightarrow> jstring \<Rightarrow> yani_env \<times> (error, json) result" where
  "yani_api ye path =
     (case renewed ye of
        Inl e \<Rightarrow> (ye, Inl e)
      | Inr ye' \<Rightarrow> (ye', web_json (ye_web ye') (with_headers (yani_headers (ye_web ye')) (yani_api_url @ path))))"

section \<open>Titles\<close>

definition spoken_rx :: rx where
  "spoken_rx = RSeqs [RBol, RLitI [1086, 1079, 1074, 1091, 1095, 1082, 1072], RSpaces]"

definition player_name_rx :: rx where
  "player_name_rx = RSeqs [RBol, RLitI [1087, 1083, 1077, 1077, 1088], RSpaces]"

definition without :: "rx \<Rightarrow> jstring \<Rightarrow> jstring" where
  "without r t = rx_replace1 r (\<lambda>_. []) t"

definition subtitled :: "jstring \<Rightarrow> bool" where
  "subtitled dubbing \<longleftrightarrow> rx_test (RLitI [1089, 1091, 1073, 1090, 1080, 1090, 1088, 1099]) dubbing"

definition video_date :: "web_env \<Rightarrow> json option \<Rightarrow> (error, jstring option) result" where
  "video_date env v =
     (if \<not> truthy_json v then Inr None
      else case Option.bind (json_number v) (\<lambda>x. so_date (wb_source env) (x * 1000)) of None \<Rightarrow> Inl range_error | Some t \<Rightarrow> Inr (Some t))"

text \<open>The names of the voice and of the player of an episode.\<close>

definition video_voice :: "json option \<Rightarrow> (error, jstring) result" where
  "video_voice v = bind_r (member v ''data'') (\<lambda>d. bind_r (member d ''dubbing'') text_r)"

definition video_player :: "json option \<Rightarrow> (error, jstring) result" where
  "video_player v = bind_r (member v ''data'') (\<lambda>d. bind_r (member d ''player'') (\<lambda>p. bind_r (text_r p) (\<lambda>t. Inr (without player_name_rx t))))"

definition anime_episode :: "web_env \<Rightarrow> jstring \<Rightarrow> variant \<Rightarrow> json \<Rightarrow> (error, variant) result" where
  "anime_episode env i catalog v =
     bind_r (member (Some v) ''video_id'') (\<lambda>number.
     bind_r (video_voice (Some v)) (\<lambda>dubbing.
     bind_r (video_player (Some v)) (\<lambda>player.
     bind_r (video_date env (field v ''date'')) (\<lambda>published.
       Inr (catalog\<lparr>v_id := js ''yani:'' @ i @ js '':video:'' @ string_of (wb_source env) number, v_episode := json_text (field v ''number''),
         v_translation := Some (without spoken_rx dubbing), v_player := Some player, v_publishedAt := published,
         v_languages := Some (if subtitled dubbing then [js ''ja'', js ''ru''] else [js ''ru'']),
         v_translationType := Some (if subtitled dubbing then Subtitles else Dub), v_duration := json_number (field v ''duration'')\<rparr>)))))"

definition animeWork :: "web_env \<Rightarrow> json option \<Rightarrow> (error, work) result" where
  "animeWork env anime =
     bind_r (member anime ''anime_url'') (\<lambda>address.
       let url = yani_site @ js ''/catalog/item/'' @ string_of (wb_source env) address; title = or_empty (json_text (optional anime ''title''));
           i = string_of (wb_source env) (optional anime ''anime_id''); catalog = videoVariant yani_source i title url; ids = optional anime ''remote_ids'' in
       bind_r (array_or (optional anime ''videos'')) (\<lambda>videos.
       bind_r (map_r (anime_episode env i catalog) videos) (\<lambda>variants.
         Inr ((new_work (js ''yani:'' @ i) title Anime (found_or_inspect catalog variants))
           \<lparr>w_url := Some url, w_year := json_number (optional anime ''year''), w_description := json_text (optional anime ''description''),
            w_aliases := texts_of (optional anime ''other_titles''),
            w_identifiers := Some (known_ids env [(''mal'', optional ids ''myanimelist_id''), (''shikimori'', optional ids ''shikimori_id''),
              (''kinopoisk'', optional ids ''kp_id'')]),
            w_cover := absoluteUrl (wb_runtime env) (json_text (optional (optional anime ''poster'') ''big'')) yani_site\<rparr>))))"

definition title_slug_rx :: rx where
  "title_slug_rx = RSeq (RPlus (RCh (\<lambda>c. is_lower c \<or> is_digit c))) (RStar True (RSeq (RLit (js ''-'')) (RPlus (RCh (\<lambda>c. is_lower c \<or> is_digit c)))))"

definition yaniPublication :: "url \<Rightarrow> variant option" where
  "yaniPublication u =
     (case rx_cap (RSeqs [RBol, RLit (js ''/catalog/item/''), RGroup 1 title_slug_rx, ROpt (RLit (js ''/'')), REol]) 1 (u_pathname u) of
        None \<Rightarrow> None
      | Some i \<Rightarrow>
          if u_protocol u \<noteq> js ''https:'' \<or> u_hostname u \<notin> set (map js [''yani.tv'', ''ru.yummyani.me'', ''yummyani.me''])
            \<or> u_username u \<noteq> [] \<or> u_password u \<noteq> [] \<or> u_port u \<noteq> [] then None
          else Some ((videoVariant yani_source i (js ''YummyAnime'') (yani_site @ js ''/catalog/item/'' @ i))\<lparr>v_needsInspection := Some True\<rparr>))"

definition title_unknown :: error where
  "title_unknown = Failed [1053, 1077, 32, 1091, 1076, 1072, 1083, 1086, 1089, 1100, 32, 1086, 1087, 1088, 1077, 1076,
    1077, 1083, 1080, 1090, 1100, 32, 1090, 1072, 1081, 1090, 1083, 32, 89, 117, 109, 109, 121,
    65, 110, 105, 109, 101, 46]"

definition animeDetails :: "yani_env \<Rightarrow> variant \<Rightarrow> yani_env \<times> (error, json option) result" where
  "animeDetails ye v =
     (case id_part v 1 of
        None \<Rightarrow> (ye, Inl title_unknown)
      | Some i \<Rightarrow>
          if \<not> rx_test (RSeqs [RBol, title_slug_rx, REol]) i then (ye, Inl title_unknown)
          else let (ye', r) = yani_api ye (js ''/anime/'' @ i @ js ''?need_videos=true'') in (ye', bind_r r (\<lambda>j. member (Some j) ''response'')))"

section \<open>Aksor\<close>

definition aksor_address_changed :: error where
  "aksor_address_changed = Failed [1048, 1089, 1090, 1086, 1095, 1085, 1080, 1082, 32, 1080, 1079, 1084, 1077, 1085, 1080, 1083,
    32, 1072, 1076, 1088, 1077, 1089, 32, 1074, 1099, 1073, 1088, 1072, 1085, 1085, 1086, 1075,
    1086, 32, 1087, 1083, 1077, 1077, 1088, 1072, 32, 65, 107, 115, 111, 114, 46]"

definition aksor_other_video :: error where
  "aksor_other_video = Failed [65, 107, 115, 111, 114, 32, 1074, 1077, 1088, 1085, 1091, 1083, 32, 1076, 1088, 1091, 1075,
    1086, 1081, 32, 1090, 1072, 1081, 1090, 1083, 44, 32, 1089, 1077, 1088, 1080, 1102, 32, 1080,
    1083, 1080, 32, 1086, 1079, 1074, 1091, 1095, 1082, 1091, 46, 32, 1054, 1073, 1085, 1086,
    1074, 1080, 1090, 1077, 32, 1074, 1072, 1088, 1080, 1072, 1085, 1090, 1099, 32, 1090, 1072,
    1081, 1090, 1083, 1072, 46]"

definition aksor_no_video :: error where
  "aksor_no_video = Failed [65, 107, 115, 111, 114, 32, 1085, 1077, 32, 1087, 1088, 1077, 1076, 1086, 1089, 1090, 1072,
    1074, 1080, 1083, 32, 1074, 1080, 1076, 1077, 1086, 32, 1074, 1099, 1073, 1088, 1072, 1085,
    1085, 1086, 1081, 32, 1089, 1077, 1088, 1080, 1080, 32, 1080, 32, 1086, 1079, 1074, 1091,
    1095, 1082, 1080, 46]"

definition aksor_bad_address :: error where
  "aksor_bad_address = Failed [65, 107, 115, 111, 114, 32, 1080, 1079, 1084, 1077, 1085, 1080, 1083, 32, 1092, 1086, 1088,
    1084, 1072, 1090, 32, 1072, 1076, 1088, 1077, 1089, 1072, 32, 1074, 1099, 1073, 1088, 1072,
    1085, 1085, 1086, 1075, 1086, 32, 1074, 1080, 1076, 1077, 1086, 46]"

definition aksor_player :: "runtime \<Rightarrow> jstring \<Rightarrow> (error, url \<times> jstring) result" where
  "aksor_player rt playerUrl =
     (case rt_url rt playerUrl of
        None \<Rightarrow> Inl invalid_address
      | Some p \<Rightarrow>
          (case rx_cap (RSeqs [RBol, RLit (js ''/video/''), RGroup 1 (RTimes 32 (RCh is_hex_lower)), REol]) 1 (u_pathname p) of
             None \<Rightarrow> Inl aksor_address_changed
           | Some hash \<Rightarrow>
               if url_origin p \<noteq> (js ''https:'', js ''player.aksor.tv'', []) \<or> hash = [] \<or> u_username p \<noteq> [] \<or> u_password p \<noteq> []
               then Inl aksor_address_changed else Inr (p, hash)))"

definition subtitle_voice :: "jstring \<Rightarrow> bool" where
  "subtitle_voice dubbing \<longleftrightarrow> rx_test (RSeqs [RBol, RLitI [1089, 1091, 1073, 1090, 1080, 1090, 1088, 1099], RAlt RSpace REol]) dubbing"

definition aksor_studio :: "jstring \<Rightarrow> jstring" where
  "aksor_studio dubbing = or_text (without (RSeqs [RBol, RAlt (RLitI [1086, 1079, 1074, 1091, 1095, 1082, 1072]) (RLitI [1089, 1091, 1073, 1090, 1080, 1090, 1088, 1099]), RSpaces]) dubbing)
     (if subtitle_voice dubbing then js ''subtitles'' else [])"

definition aksor_same :: "web_env \<Rightarrow> json \<Rightarrow> jstring \<Rightarrow> json option \<Rightarrow> json option \<Rightarrow> jstring \<Rightarrow> bool" where
  "aksor_same env video hash number episode dubbing \<longleftrightarrow>
     field video ''id'' = Some (JText hash) \<and> strictly_equal (field video ''anime_id'') number \<and> strictly_equal (field video ''episode'') episode
     \<and> field video ''is_subtitle'' = Some (JBool (subtitle_voice dubbing))
     \<and> (case json_text (field video ''studio_name'') of None \<Rightarrow> False | Some s \<Rightarrow> same_voice (wb_runtime env) s (aksor_studio dubbing))"

definition aksor_streams :: "(string \<times> string option) list" where
  "aksor_streams = [(''q4k'', Some ''4K''), (''q2k'', Some ''2K''), (''q1080'', Some ''1080p''), (''q720'', Some ''720p''), (''q480'', Some ''480p''),
     (''q360'', Some ''360p'')]"

definition resolveAksor :: "web_env \<Rightarrow> network \<Rightarrow> json option \<Rightarrow> json option \<Rightarrow> jstring \<Rightarrow> (error, resolved) result" where
  "resolveAksor env net anime chosen playerUrl =
     bind_r (aksor_player (wb_runtime env) playerUrl) (\<lambda>(p, hash).
     bind_r (web_json env (with_headers [(js ''Accept'', js ''application/json''), (js ''Referer'', rt_href (wb_runtime env) p)]
       (js ''https://player.aksor.tv/api/video/'' @ hash))) (\<lambda>video.
     bind_r (video_voice chosen) (\<lambda>dubbing.
     bind_r (member (Some video) ''id'') (\<lambda>_.
       if \<not> aksor_same env video hash (optional anime ''anime_id'') (optional chosen ''number'') dubbing then Inl aksor_other_video
       else case first_stream aksor_streams (field video ''qualities'') of
           None \<Rightarrow> Inl aksor_no_video
         | Some (address, label) \<Rightarrow>
             bind_r (publicUrl (wb_runtime env) net address) (\<lambda>media.
               if u_protocol media \<noteq> js ''https:'' \<or> \<not> ends_with (u_pathname media) (js ''.mpd'') then Inl aksor_bad_address
               else Inr ((empty_resolved Video)\<lparr>rs_resolver := Some Direct, rs_url := Some (rt_href (wb_runtime env) media),
                 rs_headers := Some [(js ''Referer'', rt_href (wb_runtime env) p)], rs_title := json_text (optional anime ''title''),
                 rs_translation := Some (without spoken_rx dubbing), rs_quality := label,
                 rs_selection := Some (player_selection (or_empty (json_text (optional chosen ''number''))) (js ''Aksor''))\<rparr>))))))"

section \<open>Search\<close>

definition set_field :: "json \<Rightarrow> string \<Rightarrow> json option \<Rightarrow> json" where
  "set_field j k v = (case j of
     JObj m \<Rightarrow> JObj (case v of None \<Rightarrow> jm_delete (js k) m | Some x \<Rightarrow> jm_set (js k) x m)
   | _ \<Rightarrow> j)"

text \<open>
  The alternate titles of one release. A failure of its request is reported and the release stays
  as it was; after an abort it ends the search.
\<close>

definition with_titles :: "yani_env \<Rightarrow> json \<Rightarrow> yani_env \<times> (error, json) result" where
  "with_titles ye anime =
     (let (ye', r) = yani_api ye (js ''/anime/'' @ string_of (wb_source (ye_web ye)) (field anime ''anime_id'') @ js ''?need_videos=false'') in
      (ye', bind_r r (\<lambda>j. bind_r (member (Some j) ''response'') (\<lambda>m. bind_r (member m ''other_titles'') (\<lambda>titles.
        let anime' = set_field anime ''other_titles'' titles in bind_r (animeWork (ye_web ye') (Some anime')) (\<lambda>_. Inr anime'))))))"

fun titled :: "yani_env \<Rightarrow> json list \<Rightarrow> (error, json list \<times> error list) result" where
  "titled ye [] = Inr ([], [])"
| "titled ye (anime # rest) =
     (case with_titles ye anime of
        (ye', Inr anime') \<Rightarrow> bind_r (titled ye' rest) (\<lambda>(found, es). Inr (anime' # found, es))
      | (ye', Inl e) \<Rightarrow>
          if wb_aborted (ye_web ye') then Inl Aborted
          else bind_r (titled ye' rest) (\<lambda>(found, es). Inr (anime # found, e # es)))"

definition yani_search :: "yani_env \<Rightarrow> category \<Rightarrow> jstring \<Rightarrow> (error, work list \<times> error list) result" where
  "yani_search ye category query =
     (if category \<notin> {AnyCategory, Anime} then Inr ([], [])
      else let (ye', r) = yani_api ye (js ''/anime?q='' @ so_encode (wb_source (ye_web ye)) query @ js ''&limit=40'') in
        bind_r r (\<lambda>j. bind_r (member (Some j) ''response'') (\<lambda>found. bind_r (array_of found) (\<lambda>animes.
        bind_r (map_r (\<lambda>a. animeWork (ye_web ye') (Some a)) (take 40 animes)) (\<lambda>_.
        bind_r (titled ye' (take 40 animes)) (\<lambda>(releases, es).
        bind_r (map_r (\<lambda>a. animeWork (ye_web ye') (Some a)) releases) (\<lambda>works. Inr (works, es))))))))"

section \<open>Inspection\<close>

text \<open>The first episode of every voice in the players whose quality is checked, with its place in the list.\<close>

definition earlier_episode :: "web_env \<Rightarrow> variant \<Rightarrow> variant \<Rightarrow> bool" where
  "earlier_episode env a b =
     (case (Option.bind (v_episode a) (so_parse_number (wb_source env)), Option.bind (v_episode b) (so_parse_number (wb_source env))) of
        (Some x, Some y) \<Rightarrow> x < y | _ \<Rightarrow> False)"

definition add_first :: "web_env \<Rightarrow> variant \<Rightarrow> nat \<times> variant \<Rightarrow> (jstring option \<times> jstring option, nat \<times> variant) jmap
    \<Rightarrow> (jstring option \<times> jstring option, nat \<times> variant) jmap" where
  "add_first env requested p m =
     (let v = snd p; key = (v_translation v, v_player v) in
      if v_player v \<notin> {Some (js ''CVH''), Some (js ''Aksor'')} \<or> truthy (v_episode requested) \<and> v_id v \<noteq> v_id requested then m
      else case jm_get m key of
          Some q \<Rightarrow> if earlier_episode env v (snd q) then jm_set key p m else m
        | None \<Rightarrow> jm_set key p m)"

definition first_episodes :: "web_env \<Rightarrow> variant \<Rightarrow> variant list \<Rightarrow> (nat \<times> variant) list" where
  "first_episodes env requested variants = jm_values (fold (add_first env requested) (enumerate 0 variants) [])"

definition named_video :: "web_env \<Rightarrow> json option \<Rightarrow> variant \<Rightarrow> (error, json option) result" where
  "named_video env anime v =
     bind_r (array_or (optional anime ''videos'')) (\<lambda>videos.
       find_r (\<lambda>x. bind_r (member (Some x) ''video_id'') (\<lambda>i. Inr (string_key env i (id_part v 3)))) videos)"

definition cvh_chosen :: "json option \<Rightarrow> json option \<Rightarrow> jstring \<Rightarrow> jstring \<Rightarrow> chosen_video" where
  "cvh_chosen anime video voice page_url = \<lparr>ch_title = or_empty (json_text (optional anime ''title'')),
     ch_number = json_number (optional (optional anime ''remote_ids'') ''myanimelist_id''),
     ch_episode = or_empty (json_text (optional video ''number'')), ch_translation = voice, ch_publication = page_url\<rparr>"

definition shown_quality :: "web_env \<Rightarrow> network \<Rightarrow> json option \<Rightarrow> variant \<Rightarrow> (error, jstring option) result" where
  "shown_quality env net anime v =
     bind_r (named_video env anime v) (\<lambda>video.
     bind_r (member video ''iframe_url'') (\<lambda>address.
       case absoluteUrl (wb_runtime env) (json_text address) yani_site of
         None \<Rightarrow> Inr None
       | Some url \<Rightarrow> bind_r (if v_player v = Some (js ''Aksor'') then resolveAksor env net anime video url
           else resolveCvh env net url (cvh_chosen anime video (or_empty (v_translation v)) (v_url v))) (\<lambda>r. Inr (rs_quality r))))"

definition with_quality :: "nat \<Rightarrow> jstring option \<Rightarrow> variant list \<Rightarrow> variant list" where
  "with_quality k q variants = (if truthy q then variants[k := (variants ! k)\<lparr>v_quality := q\<rparr>] else variants)"

text \<open>
  The checks in waves of four. \<open>late k\<close> tells whether the eight seconds for them are over when
  check \<open>k\<close> is about to start; a failure after that is not reported.
\<close>

fun check_qualities :: "web_env \<Rightarrow> network \<Rightarrow> json option \<Rightarrow> (nat \<Rightarrow> bool) \<Rightarrow> nat \<Rightarrow> (nat \<times> variant) list \<Rightarrow> variant list
    \<Rightarrow> (error, variant list \<times> error list) result" where
  "check_qualities env net anime late k [] variants = Inr (variants, [])"
| "check_qualities env net anime late k ((i, v) # firsts) variants =
     (if k mod 4 = 0 \<and> late k then Inr (variants, [])
      else case shown_quality env net anime v of
          Inr q \<Rightarrow> check_qualities env net anime late (Suc k) firsts (with_quality i q variants)
        | Inl e \<Rightarrow>
            if wb_aborted env then Inl Aborted
            else bind_r (check_qualities env net anime late (Suc k) firsts variants) (\<lambda>(vs, es).
              Inr (vs, if late (Suc k) then es else e # es)))"

definition yani_inspect :: "yani_env \<Rightarrow> network \<Rightarrow> (nat \<Rightarrow> bool) \<Rightarrow> variant \<Rightarrow> (error, work \<times> error list) result" where
  "yani_inspect ye net late v =
     (let (ye', r) = animeDetails ye v; env = ye_web ye' in
      bind_r r (\<lambda>anime. bind_r (animeWork env anime) (\<lambda>w.
        bind_r (check_qualities env net anime late 0 (first_episodes env v (w_variants w)) (w_variants w)) (\<lambda>(variants, es).
          Inr (w\<lparr>w_variants := variants\<rparr>, es)))))"

section \<open>Resolution\<close>

definition choose_episode :: error where
  "choose_episode = Failed [1042, 1099, 1073, 1077, 1088, 1080, 1090, 1077, 32, 1089, 1077, 1088, 1080, 1102, 44, 32,
    1086, 1079, 1074, 1091, 1095, 1082, 1091, 32, 1080, 32, 1087, 1083, 1077, 1077, 1088, 32,
    1074, 32, 1074, 1072, 1088, 1080, 1072, 1085, 1090, 1072, 1093, 32, 1090, 1072, 1081, 1090,
    1083, 1072, 46]"

definition episode_changed :: error where
  "episode_changed = Failed [1048, 1089, 1090, 1086, 1095, 1085, 1080, 1082, 32, 1080, 1079, 1084, 1077, 1085, 1080, 1083,
    32, 1074, 1099, 1073, 1088, 1072, 1085, 1085, 1091, 1102, 32, 1089, 1077, 1088, 1080, 1102,
    44, 32, 1086, 1079, 1074, 1091, 1095, 1082, 1091, 32, 1080, 1083, 1080, 32, 1087, 1083, 1077,
    1077, 1088, 46, 32, 1054, 1073, 1085, 1086, 1074, 1080, 1090, 1077, 32, 1074, 1072, 1088,
    1080, 1072, 1085, 1090, 1099, 32, 1090, 1072, 1081, 1090, 1083, 1072, 46]"

definition no_player :: error where
  "no_player = Failed [1048, 1089, 1090, 1086, 1095, 1085, 1080, 1082, 32, 1085, 1077, 32, 1087, 1088, 1077, 1076,
    1086, 1089, 1090, 1072, 1074, 1080, 1083, 32, 1072, 1076, 1088, 1077, 1089, 32, 1074, 1099,
    1073, 1088, 1072, 1085, 1085, 1086, 1075, 1086, 32, 1087, 1083, 1077, 1077, 1088, 1072, 46]"

definition vk_changed :: error where
  "vk_changed = Failed [1048, 1089, 1090, 1086, 1095, 1085, 1080, 1082, 32, 1080, 1079, 1084, 1077, 1085, 1080, 1083,
    32, 1089, 1089, 1099, 1083, 1082, 1091, 32, 1074, 1099, 1073, 1088, 1072, 1085, 1085, 1086,
    1075, 1086, 32, 1074, 1080, 1076, 1077, 1086, 32, 86, 75, 46, 32, 1054, 1073, 1085, 1086,
    1074, 1080, 1090, 1077, 32, 1074, 1072, 1088, 1080, 1072, 1085, 1090, 1099, 32, 1090, 1072,
    1081, 1090, 1083, 1072, 46]"

definition vk_number_rx :: rx where
  "vk_number_rx = RSeqs [RBol, ROpt (RLit (js ''video'')), RGroup 1 (RSeqs [ROpt (RLit (js ''-'')), RPlus RDigit, RLit (js ''_''), RPlus RDigit]), REol]"

definition vk_embedded :: "web_env \<Rightarrow> url \<Rightarrow> jstring option" where
  "vk_embedded env p =
     (case filter (\<lambda>q. fst q = js ''id'') (url_params (wb_runtime env) p) of
        [q] \<Rightarrow> if u_username p \<noteq> [] \<or> u_password p \<noteq> [] then None else rx_cap vk_number_rx 1 (snd q)
      | _ \<Rightarrow> None)"

definition same_episode :: "variant \<Rightarrow> json option \<Rightarrow> jstring \<Rightarrow> jstring \<Rightarrow> bool" where
  "same_episode v video dubbing player \<longleftrightarrow> map_option JText (v_episode v) = optional video ''number''
     \<and> v_translation v = Some (without spoken_rx dubbing) \<and> v_player v = Some player"

definition play_episode :: "web_env \<Rightarrow> network \<Rightarrow> json option \<Rightarrow> json option \<Rightarrow> variant \<Rightarrow> jstring \<Rightarrow> (error, resolved) result" where
  "play_episode env net anime video v url =
     (let title = json_text (optional anime ''title''); number = json_text (optional video ''number'');
          ch = cvh_chosen anime video (or_empty (v_translation v)) (v_url v) in
      case rt_url (wb_runtime env) url of
        None \<Rightarrow> Inl invalid_address
      | Some p \<Rightarrow>
          if url_origin p = (js ''https:'', js ''ru.yummyani.me'', []) \<and> u_pathname p = js ''/iframeVK.html''
          then (case vk_embedded env p of
              None \<Rightarrow> Inl vk_changed
            | Some i \<Rightarrow> Inr ((empty_resolved Video)\<lparr>rs_resolver := Some YtDlp, rs_url := Some (js ''https://vkvideo.ru/video'' @ i), rs_title := title,
                rs_translation := v_translation v,
                rs_selection := Some \<lparr>sel_episode = number, sel_season = None, sel_translationId = None, sel_player = v_player v, sel_captureId = None\<rparr>\<rparr>))
          else if v_player v = Some (js ''Aksor'') then resolveAksor env net anime video url
          else if v_player v = Some (js ''Kodik'') then resolveKodik env net url ch
          else if v_player v = Some (js ''CVH'') then resolveCvh env net url ch
          else bind_r (video_voice video) (\<lambda>dubbing.
            Inr ((empty_resolved Video)\<lparr>rs_resolver := Some Browser, rs_url := Some url, rs_headers := Some [(js ''Referer'', v_url v)], rs_title := title,
              rs_translation := Some (without spoken_rx dubbing)\<rparr>)))"

definition yani_resolve :: "yani_env \<Rightarrow> network \<Rightarrow> variant \<Rightarrow> (error, resolved) result" where
  "yani_resolve ye net v =
     (let (ye', r) = animeDetails ye v; env = ye_web ye' in
      bind_r r (\<lambda>anime. bind_r (member anime ''videos'') (\<lambda>_. bind_r (named_video env anime v) (\<lambda>video.
        if video = None then Inl choose_episode
        else bind_r (video_voice video) (\<lambda>dubbing. bind_r (video_player video) (\<lambda>player.
          if \<not> same_episode v video dubbing player then Inl episode_changed
          else case absoluteUrl (wb_runtime env) (json_text (optional video ''iframe_url'')) yani_site of
              None \<Rightarrow> Inl no_player
            | Some url \<Rightarrow> play_episode env net anime video v url))))))"

section \<open>What is played\<close>

lemma resolveAksor_Inr:
  assumes "resolveAksor env net anime chosen url = Inr r"
  obtains p hash video dubbing address media label where "aksor_player (wb_runtime env) url = Inr (p, hash)" "video_voice chosen = Inr dubbing"
    "aksor_same env video hash (optional anime ''anime_id'') (optional chosen ''number'') dubbing"
    "publicUrl (wb_runtime env) net address = Inr media" "u_protocol media = js ''https:''"
    "r = (empty_resolved Video)\<lparr>rs_resolver := Some Direct, rs_url := Some (rt_href (wb_runtime env) media),
       rs_headers := Some [(js ''Referer'', rt_href (wb_runtime env) p)], rs_title := json_text (optional anime ''title''),
       rs_translation := Some (without spoken_rx dubbing), rs_quality := label,
       rs_selection := Some (player_selection (or_empty (json_text (optional chosen ''number''))) (js ''Aksor''))\<rparr>"
  using assms by (auto simp: resolveAksor_def bind_r_Inr simp del: js_simps split: if_splits option.splits)

lemma resolveAksor_stream: "resolveAksor env net anime chosen url = Inr r \<Longrightarrow> player_stream (wb_runtime env) net r"
  by (erule resolveAksor_Inr) (auto simp: player_stream_def empty_resolved_def simp del: js_simps)

text \<open>
  Whatever the player of a video answers, the stream that is played has a public \<open>https\<close>
  address that was checked, comes without further tracks, and is requested with the player's
  address and the browser's name only: no session of the user goes to it.
\<close>

theorem player_stream_safe:
  assumes "resolveKodik env net url ch = Inr r \<or> resolveCvh env net url ch = Inr r \<or> resolveAksor env net anime video url = Inr r"
  shows "rs_kind r = Video \<and> rs_resolver r = Some Direct \<and> rs_audioUrl r = None \<and> rs_subtitles r = None
    \<and> (\<exists>media s. rs_url r = Some (rt_href (wb_runtime env) media) \<and> u_protocol media = js ''https:'' \<and> publicUrl (wb_runtime env) net s = Inr media)
    \<and> fst ` set (list_or (rs_headers r)) \<subseteq> {js ''Referer'', js ''User-Agent''}"
proof -
  have "player_stream (wb_runtime env) net r"
    using assms resolveKodik_stream resolveAksor_stream resolveCvh_Inr cvh_stream_Inr by metis
  then show ?thesis by (simp only: player_stream_def)
qed

theorem player_stream_safe_witness:
  "rs_url sample_played = Some sample_stream_url
    \<and> fst ` set (list_or (rs_headers sample_played)) \<subseteq> {js ''Referer'', js ''User-Agent''}"
proof -
  have "rs_url sample_played = Some sample_stream_url" by code_simp
  then show ?thesis using player_stream_safe[OF disjI1[OF sample_played_run]] by blast
qed

section \<open>The chosen episode\<close>

lemma named_video_Inr:
  assumes "named_video env anime v = Inr (Some x)"
  shows "\<exists>videos. optional anime ''videos'' = Some (JArr videos) \<and> x \<in> set videos \<and> id_part v 3 = Some (string_of (wb_source env) (field x ''video_id''))"
proof -
  obtain videos where videos: "array_or (optional anime ''videos'') = Inr videos"
    and f: "find_r (\<lambda>x. bind_r (member (Some x) ''video_id'') (\<lambda>i. Inr (string_key env i (id_part v 3)))) videos = Inr (Some x)"
    using assms by (auto simp: named_video_def bind_r_Inr)
  have "x \<in> set videos" "bind_r (member (Some x) ''video_id'') (\<lambda>i. Inr (string_key env i (id_part v 3))) = Inr True"
    using find_r_Inr[OF f] by auto
  moreover have "optional anime ''videos'' = Some (JArr videos)"
    using videos \<open>x \<in> set videos\<close> by (auto simp: array_or_def split: option.splits json.splits)
  ultimately show ?thesis by (auto simp: bind_r_Inr string_key_def member_def split: json.splits)
qed

lemma play_episode_translation:
  assumes "play_episode env net anime video v url = Inr r" "video_voice video = Inr dubbing" "v_translation v = Some (without spoken_rx dubbing)"
  shows "rs_translation r = v_translation v"
proof -
  obtain p where p: "rt_url (wb_runtime env) url = Some p" using assms(1) by (auto simp: play_episode_def Let_def split: option.splits)
  let ?ch = "cvh_chosen anime video (or_empty (v_translation v)) (v_url v)"
  have ch: "Some (ch_translation ?ch) = v_translation v" using assms(3) by (simp add: cvh_chosen_def)
  have kodik: "resolveKodik env net url ?ch = Inr r \<Longrightarrow> rs_translation r = v_translation v" using kodik_translation ch by metis
  have cvh: "resolveCvh env net url ?ch = Inr r \<Longrightarrow> rs_translation r = v_translation v"
    using resolveCvh_Inr cvh_stream_Inr ch by metis
  have aksor: "resolveAksor env net anime video url = Inr r \<Longrightarrow> rs_translation r = v_translation v"
    by (erule resolveAksor_Inr) (use assms(2,3) in \<open>auto simp: empty_resolved_def\<close>)
  show ?thesis
    using assms p kodik cvh aksor
    by (auto simp: play_episode_def Let_def bind_r_Inr empty_resolved_def simp del: js_simps split: if_splits option.splits)
qed

text \<open>
  What plays is the episode that was chosen: the title lists it now under the chosen number, with
  the chosen voice and the chosen player.
\<close>

theorem yani_resolve_exact:
  assumes "yani_resolve ye net v = Inr r"
  shows "\<exists>ye' anime videos video dubbing. animeDetails ye v = (ye', Inr anime) \<and> optional anime ''videos'' = Some (JArr videos) \<and> video \<in> set videos
    \<and> id_part v 3 = Some (string_of (wb_source (ye_web ye')) (field video ''video_id''))
    \<and> field video ''number'' = map_option JText (v_episode v) \<and> video_voice (Some video) = Inr dubbing
    \<and> v_translation v = Some (without spoken_rx dubbing) \<and> video_player (Some video) = Inr (or_empty (v_player v)) \<and> v_player v \<noteq> None
    \<and> rs_translation r = v_translation v"
proof -
  obtain ye' a where details: "animeDetails ye v = (ye', a)" by (cases "animeDetails ye v")
  let ?env = "ye_web ye'"
  obtain anime where a: "a = Inr anime" and rest: "bind_r (named_video ?env anime v) (\<lambda>video.
      if video = None then Inl choose_episode
      else bind_r (video_voice video) (\<lambda>dubbing. bind_r (video_player video) (\<lambda>player.
        if \<not> same_episode v video dubbing player then Inl episode_changed
        else case absoluteUrl (wb_runtime ?env) (json_text (optional video ''iframe_url'')) yani_site of
            None \<Rightarrow> Inl no_player
          | Some url \<Rightarrow> play_episode ?env net anime video v url))) = Inr r"
    using assms details by (auto simp: yani_resolve_def Let_def bind_r_Inr)
  obtain video where video: "named_video ?env anime v = Inr (Some video)" using rest by (auto simp: bind_r_Inr split: if_splits)
  obtain dubbing player url where *: "video_voice (Some video) = Inr dubbing" "video_player (Some video) = Inr player"
      "same_episode v (Some video) dubbing player" "play_episode ?env net anime (Some video) v url = Inr r"
    using rest video by (auto simp: bind_r_Inr split: if_splits option.splits)
  have "rs_translation r = v_translation v" using play_episode_translation[OF *(4) *(1)] *(3) by (simp add: same_episode_def)
  then show ?thesis using named_video_Inr[OF video] details a * by (fastforce simp: same_episode_def optional_def)
qed

section \<open>Checked qualities\<close>

definition no_quality :: "variant \<Rightarrow> variant" where
  "no_quality v = v\<lparr>v_quality := None\<rparr>"

definition only_checked :: "web_env \<Rightarrow> network \<Rightarrow> json option \<Rightarrow> variant list \<Rightarrow> variant list \<Rightarrow> bool" where
  "only_checked env net anime base vs \<longleftrightarrow> length vs = length base \<and> (\<forall>k < length base. no_quality (vs ! k) = no_quality (base ! k)
     \<and> (v_quality (vs ! k) \<noteq> v_quality (base ! k) \<longrightarrow> shown_quality env net anime (base ! k) = Inr (v_quality (vs ! k))))"

lemma no_quality_set: "no_quality (v\<lparr>v_quality := q\<rparr>) = no_quality v"
  by (simp add: no_quality_def)

lemma with_quality_checked:
  assumes inv: "only_checked env net anime base vs" and i: "i < length base" and q: "shown_quality env net anime (base ! i) = Inr q"
  shows "only_checked env net anime base (with_quality i q vs)"
proof (cases "truthy q")
  case True
  then have vs: "with_quality i q vs = vs[i := (vs ! i)\<lparr>v_quality := q\<rparr>]" by (simp add: with_quality_def)
  have len: "length vs = length base" using inv by (simp only: only_checked_def)
  have "no_quality (vs[i := (vs ! i)\<lparr>v_quality := q\<rparr>] ! k) = no_quality (base ! k)
      \<and> (v_quality (vs[i := (vs ! i)\<lparr>v_quality := q\<rparr>] ! k) \<noteq> v_quality (base ! k)
        \<longrightarrow> shown_quality env net anime (base ! k) = Inr (v_quality (vs[i := (vs ! i)\<lparr>v_quality := q\<rparr>] ! k)))"
    if k: "k < length base" for k
  proof (cases "k = i")
    case True
    have "no_quality (vs ! i) = no_quality (base ! i)" using inv i unfolding only_checked_def by blast
    then show ?thesis using True i len q by (simp add: no_quality_set)
  next
    case False
    then show ?thesis using inv k unfolding only_checked_def by simp
  qed
  then show ?thesis unfolding vs only_checked_def by (simp add: len)
next
  case False
  then show ?thesis using inv by (simp add: with_quality_def)
qed

lemma check_qualities_checked:
  "list_all (\<lambda>(i, v). i < length base \<and> base ! i = v) firsts \<Longrightarrow> only_checked env net anime base vs
    \<Longrightarrow> check_qualities env net anime late k firsts vs = Inr (vs', es) \<Longrightarrow> only_checked env net anime base vs'"
proof (induction firsts arbitrary: k vs vs' es)
  case (Cons p firsts)
  obtain i v where p: "p = (i, v)" by (cases p)
  have i: "i < length base" "base ! i = v" and rest: "list_all (\<lambda>(i, v). i < length base \<and> base ! i = v) firsts"
    using Cons.prems(1) by (simp_all add: p)
  show ?case
  proof (cases "k mod 4 = 0 \<and> late k")
    case True
    then show ?thesis using Cons.prems(2,3) by (simp add: p)
  next
    case go: False
    show ?thesis
    proof (cases "shown_quality env net anime v")
      case (Inl e)
      then obtain fs where "check_qualities env net anime late (Suc k) firsts vs = Inr (vs', fs)"
        using Cons.prems(3) go by (auto simp: p bind_r_Inr split: if_splits)
      then show ?thesis using Cons.IH[OF rest Cons.prems(2)] by blast
    next
      case (Inr q)
      then have "check_qualities env net anime late (Suc k) firsts (with_quality i q vs) = Inr (vs', es)" using Cons.prems(3) go by (simp add: p)
      then show ?thesis using Cons.IH[OF rest with_quality_checked[OF Cons.prems(2) i(1)]] Inr i(2) by blast
    qed
  qed
qed simp

lemma add_first_values: "set (map snd (add_first env v p m)) \<subseteq> insert p (set (map snd m))"
proof -
  have set: "set (map snd (jm_set k p m)) \<subseteq> insert p (set (map snd m))" for k using jm_set_member[of _ k p m] by fastforce
  have "add_first env v p m \<in> {m, jm_set (v_translation (snd p), v_player (snd p)) p m}" by (simp add: add_first_def Let_def split: option.split)
  then consider "add_first env v p m = m" | "add_first env v p m = jm_set (v_translation (snd p), v_player (snd p)) p m" by blast
  then show ?thesis by cases (simp_all only: set subset_insertI)
qed

lemma first_episodes_listed: "list_all (\<lambda>(i, u). i < length vs \<and> vs ! i = u) (first_episodes env v vs)"
proof -
  have "set (map snd (fold (add_first env v) ps m)) \<subseteq> set ps \<union> set (map snd m)" for ps m
  proof (induction ps arbitrary: m)
    case (Cons p ps)
    then show ?case using add_first_values[of env v p m] Cons.IH[of "add_first env v p m"] by auto
  qed simp
  from this[of "enumerate 0 vs" "[]"] show ?thesis
    by (auto simp: first_episodes_def jm_values_def list_all_iff in_set_enumerate_eq)
qed

text \<open>
  The check of qualities keeps every episode of the title as it was listed: only qualities change,
  and each of them is one that the player of exactly this episode has shown.
\<close>

theorem inspected_qualities:
  assumes "yani_inspect ye net late v = Inr (w, es)"
  shows "\<exists>ye' anime listed. animeDetails ye v = (ye', Inr anime) \<and> animeWork (ye_web ye') anime = Inr listed
    \<and> w\<lparr>w_variants := []\<rparr> = listed\<lparr>w_variants := []\<rparr> \<and> length (w_variants w) = length (w_variants listed)
    \<and> (\<forall>k < length (w_variants w). (w_variants w ! k)\<lparr>v_quality := None\<rparr> = (w_variants listed ! k)\<lparr>v_quality := None\<rparr>
      \<and> (v_quality (w_variants w ! k) \<noteq> v_quality (w_variants listed ! k)
        \<longrightarrow> shown_quality (ye_web ye') net anime (w_variants listed ! k) = Inr (v_quality (w_variants w ! k))))"
proof -
  obtain ye' a where details: "animeDetails ye v = (ye', a)" by (cases "animeDetails ye v")
  obtain anime listed vs where *: "a = Inr anime" "animeWork (ye_web ye') anime = Inr listed" "w = listed\<lparr>w_variants := vs\<rparr>"
      "check_qualities (ye_web ye') net anime late 0 (first_episodes (ye_web ye') v (w_variants listed)) (w_variants listed) = Inr (vs, es)"
    using assms details by (auto simp: yani_inspect_def Let_def bind_r_Inr)
  have "only_checked (ye_web ye') net anime (w_variants listed) vs"
    using check_qualities_checked[OF first_episodes_listed _ *(4)] by (simp add: only_checked_def)
  then show ?thesis using * details by (auto simp: only_checked_def no_quality_def)
qed

section \<open>Samples\<close>

definition sample_anime :: json where
  "sample_anime = json_object [(''anime_id'', JNum 3), (''anime_url'', JText (js ''a'')), (''title'', JText (js ''A'')), (''videos'', JArr [json_object
     [(''video_id'', JNum 7), (''number'', JText (js ''1'')), (''iframe_url'', JText (js ''https://p.org/v'')),
      (''data'', json_object [(''player'', JText ([1055, 1083, 1077, 1077, 1088, 32] @ js ''X'')), (''dubbing'', JText ([1054, 1079, 1074, 1091, 1095, 1082, 1072, 32] @ js ''T''))])]])]"

definition sample_yani :: yani_env where
  "sample_yani = \<lparr>ye_web = sample_web [] [(js ''https://api.yani.tv/anime/a?need_videos=true'', json_object [(''response'', sample_anime)])],
     ye_now = 0, ye_save = None, ye_running = None\<rparr>"

definition sample_episode :: variant where
  "sample_episode = (videoVariant yani_source (js ''a:video:7'') (js ''A'') (js ''https://yani.tv/catalog/item/a''))
     \<lparr>v_episode := Some (js ''1''), v_translation := Some (js ''T''), v_player := Some (js ''X'')\<rparr>"

definition sample_opened_episode :: resolved where
  "sample_opened_episode = (case yani_resolve sample_yani sample_network sample_episode of Inr r \<Rightarrow> r | Inl e \<Rightarrow> empty_resolved File)"

theorem yani_resolve_exact_witness:
  "rs_url sample_opened_episode = Some (js ''https://p.org/v'') \<and> rs_translation sample_opened_episode = v_translation sample_episode
    \<and> (\<exists>ye' anime videos video. animeDetails sample_yani sample_episode = (ye', Inr anime) \<and> optional anime ''videos'' = Some (JArr videos)
      \<and> video \<in> set videos \<and> field video ''number'' = Some (JText (js ''1'')))"
proof -
  have "\<not> isl (yani_resolve sample_yani sample_network sample_episode)" by code_simp
  then have run: "yani_resolve sample_yani sample_network sample_episode = Inr sample_opened_episode"
    by (auto simp: sample_opened_episode_def split: sum.splits)
  have "rs_url sample_opened_episode = Some (js ''https://p.org/v'')" by code_simp
  then show ?thesis using yani_resolve_exact[OF run] by (auto simp: sample_episode_def simp del: js_simps)
qed

definition sample_inspected :: "work \<times> error list" where
  "sample_inspected = (case yani_inspect sample_yani sample_network (\<lambda>k. False) sample_episode of Inr p \<Rightarrow> p | Inl e \<Rightarrow> (new_work [] [] Anime [], []))"

theorem inspected_qualities_witness:
  "map v_id (w_variants (fst sample_inspected)) = [js ''yani:3:video:7'']
    \<and> (\<exists>ye' anime listed. animeDetails sample_yani sample_episode = (ye', Inr anime) \<and> animeWork (ye_web ye') anime = Inr listed
      \<and> length (w_variants (fst sample_inspected)) = length (w_variants listed))"
proof -
  have "\<not> isl (yani_inspect sample_yani sample_network (\<lambda>k. False) sample_episode)" by code_simp
  then have run: "yani_inspect sample_yani sample_network (\<lambda>k. False) sample_episode = Inr (fst sample_inspected, snd sample_inspected)"
    by (auto simp: sample_inspected_def split: sum.splits)
  have "map v_id (w_variants (fst sample_inspected)) = [js ''yani:3:video:7'']" by code_simp
  then show ?thesis using inspected_qualities[OF run] by blast
qed

end
