(* ===== verification/AniLiberty.thy ===== *)
theory AniLiberty
  imports Videos
begin

text \<open>
  AniLiberty, \<open>providers/video/aniliberty.ts\<close>: releases with their streams, Rutube videos and
  torrents, and the resolution of each.
\<close>

section \<open>Releases\<close>

definition ani_site :: jstring where
  "ani_site = js ''https://anilibria.top''"

definition ani_api :: jstring where
  "ani_api = js ''https://anilibria.top/api/v1''"

definition ani_source :: video_source where
  "ani_source = \<lparr>vs_id = js ''aniliberty'', vs_name = js ''AniLiberty'', vs_url = ani_site\<rparr>"

definition ad_note :: jstring where
  "ad_note = [1048, 1089, 1090, 1086, 1095, 1085, 1080, 1082, 32, 1087, 1086, 1084, 1077, 1090, 1080, 1083,
    32, 1087, 1086, 1090, 1086, 1082, 32, 1082, 1072, 1082, 32, 1089, 1086, 1076, 1077, 1088,
    1078, 1072, 1097, 1080, 1081, 32, 1074, 1080, 1076, 1077, 1086, 1088, 1077, 1082, 1083, 1072,
    1084, 1091, 46]"

definition russian_voice :: "variant \<Rightarrow> variant" where
  "russian_voice v = v\<lparr>v_translation := Some (js ''AniLiberty''), v_languages := Some [js ''ru'']\<rparr>"

definition with_ads :: "runtime \<Rightarrow> jstring \<Rightarrow> url \<Rightarrow> variant \<Rightarrow> variant" where
  "with_ads rt url stream v =
     (if url_param rt ''isWithVideoAds'' stream = Some (js ''1'') \<or> url_param rt ''isWithVideoAdsAlways'' stream = Some (js ''1'')
      then v\<lparr>v_adStatus := Some AdReported, v_notes := Some [\<lparr>n_text = ad_note, n_url = url, n_author = None\<rparr>]\<rparr> else v)"

text \<open>The streams of an episode by quality, then its Rutube video.\<close>

definition episode_stream :: "web_env \<Rightarrow> jstring \<Rightarrow> jstring \<Rightarrow> jstring \<Rightarrow> json \<Rightarrow> string \<Rightarrow> (error, variant list) result" where
  "episode_stream env i title url episode quality =
     (let stream = field episode (''hls_'' @ quality) in
      if \<not> truthy_json stream then Inr []
      else case resolve_url (wb_runtime env) (Some ani_site) (string_of (wb_source env) stream) of
          None \<Rightarrow> Inl invalid_address
        | Some u \<Rightarrow> Inr [with_ads (wb_runtime env) url u (russian_voice
            ((videoVariant ani_source (i @ js '':episode:'' @ string_of (wb_source env) (field episode ''id'') @ [58] @ js quality) title url)
              \<lparr>v_episode := Some (string_of (wb_source env) (field episode ''ordinal'')), v_quality := Some (js (quality @ ''p''))\<rparr>))])"

definition episode_rutube :: "web_env \<Rightarrow> jstring \<Rightarrow> jstring \<Rightarrow> jstring \<Rightarrow> json \<Rightarrow> variant list" where
  "episode_rutube env i title url episode =
     (if \<not> truthy_json (field episode ''rutube_id'') then []
      else [russian_voice ((videoVariant ani_source (i @ js '':rutube:'' @ string_of (wb_source env) (field episode ''id'')) title url)
          \<lparr>v_episode := Some (string_of (wb_source env) (field episode ''ordinal'')), v_player := Some (js ''Rutube'')\<rparr>)])"

definition episode_variants :: "web_env \<Rightarrow> jstring \<Rightarrow> jstring \<Rightarrow> jstring \<Rightarrow> json \<Rightarrow> (error, variant list) result" where
  "episode_variants env i title url episode =
     bind_r (member (Some episode) ''id'') (\<lambda>_.
     bind_r (map_r (episode_stream env i title url episode) [''1080'', ''720'', ''480'']) (\<lambda>streams.
       Inr (concat streams @ episode_rutube env i title url episode)))"

definition torrent_variant :: "web_env \<Rightarrow> jstring \<Rightarrow> variant \<Rightarrow> json \<Rightarrow> (error, variant) result" where
  "torrent_variant env i catalog t =
     bind_r (member (Some t) ''id'') (\<lambda>number.
       Inr (russian_voice (catalog\<lparr>v_id := js ''aniliberty:'' @ i @ js '':torrent:'' @ string_of (wb_source env) number,
         v_title := or_empty (json_text (field t ''label'')), v_transport := Torrent, v_magnet := json_text (field t ''magnet''),
         v_infoHash := json_text (field t ''hash''), v_size := json_number (field t ''size''), v_seeders := json_number (field t ''seeders''),
         v_quality := json_text (optional (field t ''quality'') ''value''), v_episode := json_text (field t ''description'')\<rparr>)))"

definition release_title :: "json option \<Rightarrow> (error, jstring) result" where
  "release_title release = bind_r (member release ''name'') (\<lambda>names. bind_r (member names ''main'') (\<lambda>t. Inr (or_empty (json_text t))))"

definition releaseWork :: "web_env \<Rightarrow> json option \<Rightarrow> (error, work) result" where
  "releaseWork env release =
     bind_r (member release ''alias'') (\<lambda>alias.
     bind_r (release_title release) (\<lambda>title.
       let url = ani_site @ js ''/anime/releases/release/'' @ string_of (wb_source env) alias; i = string_of (wb_source env) (optional release ''id'');
           catalog = videoVariant ani_source i title url; names = optional release ''name'' in
       bind_r (array_or (optional release ''episodes'')) (\<lambda>episodes.
       bind_r (map_r (episode_variants env i title url) episodes) (\<lambda>streams.
       bind_r (array_or (optional release ''torrents'')) (\<lambda>torrents.
       bind_r (map_r (torrent_variant env i catalog) torrents) (\<lambda>listed.
         Inr ((new_work (js ''aniliberty:'' @ i) title Anime (found_or_inspect catalog (concat streams @ listed)))
           \<lparr>w_url := Some url, w_year := json_number (optional release ''year''), w_description := json_text (optional release ''description''),
            w_aliases := Some (filter (\<lambda>t. t \<noteq> []) (List.map_filter json_text [optional names ''english'', optional names ''alternative''])),
            w_identifiers := Some (known_ids env [(''mal'', optional (optional release ''mal'') ''id''), (''shikimori'', optional (optional release ''shikimori'') ''id'')]),
            w_cover := absoluteUrl (wb_runtime env) (json_text (optional (optional release ''poster'') ''src'')) ani_site\<rparr>)))))))"

section \<open>Operations\<close>

definition release_unknown :: error where
  "release_unknown = Failed [1053, 1077, 32, 1091, 1076, 1072, 1083, 1086, 1089, 1100, 32, 1086, 1087, 1088, 1077, 1076,
    1077, 1083, 1080, 1090, 1100, 32, 1088, 1077, 1083, 1080, 1079, 32, 65, 110, 105, 76, 105, 98,
    101, 114, 116, 121, 46]"

definition ani_details :: "web_env \<Rightarrow> variant \<Rightarrow> (error, json) result" where
  "ani_details env v =
     (case id_part v 1 of
        None \<Rightarrow> Inl release_unknown
      | Some i \<Rightarrow> if \<not> all_digits i then Inl release_unknown else web_json env (plain_get (ani_api @ js ''/anime/releases/'' @ i)))"

definition ani_search :: "web_env \<Rightarrow> category \<Rightarrow> jstring \<Rightarrow> (error, work list) result" where
  "ani_search env category query =
     (if category \<notin> {AnyCategory, Anime} then Inr []
      else bind_r (web_json env (plain_get (ani_api @ js ''/app/search/releases?query='' @ so_encode (wb_source env) query))) (\<lambda>j.
        bind_r (array_of (Some j)) (map_r (\<lambda>r. releaseWork env (Some r)))))"

definition ani_inspect :: "web_env \<Rightarrow> variant \<Rightarrow> (error, work) result" where
  "ani_inspect env v = bind_r (ani_details env v) (\<lambda>j. releaseWork env (Some j))"

definition torrent_gone :: error where
  "torrent_gone = Failed [1056, 1072, 1079, 1076, 1072, 1095, 1072, 32, 1073, 1086, 1083, 1100, 1096, 1077, 32, 1085,
    1077, 32, 1076, 1086, 1089, 1090, 1091, 1087, 1085, 1072, 32, 1074, 32, 1088, 1077, 1083,
    1080, 1079, 1077, 46]"

definition choose_release_episode :: error where
  "choose_release_episode = Failed [1042, 1099, 1073, 1077, 1088, 1080, 1090, 1077, 32, 1089, 1077, 1088, 1080, 1102, 32, 1080,
    32, 1082, 1072, 1095, 1077, 1089, 1090, 1074, 1086, 32, 1074, 32, 1074, 1072, 1088, 1080,
    1072, 1085, 1090, 1072, 1093, 32, 1088, 1077, 1083, 1080, 1079, 1072, 46]"

definition quality_gone :: error where
  "quality_gone = Failed [1042, 1099, 1073, 1088, 1072, 1085, 1085, 1086, 1077, 32, 1082, 1072, 1095, 1077, 1089, 1090,
    1074, 1086, 32, 1073, 1086, 1083, 1100, 1096, 1077, 32, 1085, 1077, 32, 1076, 1086, 1089,
    1090, 1091, 1087, 1085, 1086, 46, 32, 1054, 1073, 1085, 1086, 1074, 1080, 1090, 1077, 32,
    1074, 1072, 1088, 1080, 1072, 1085, 1090, 1099, 32, 1089, 1077, 1088, 1080, 1080, 46]"

text \<open>A stream is played in the voice of AniLiberty.\<close>

definition ani_video :: "resolver \<Rightarrow> jstring \<Rightarrow> jstring \<Rightarrow> resolved" where
  "ani_video how url title = (empty_resolved Video)\<lparr>rs_resolver := Some how, rs_url := Some url, rs_title := Some title,
     rs_translation := Some (js ''AniLiberty'')\<rparr>"

definition listed_torrent :: "web_env \<Rightarrow> json option \<Rightarrow> jstring option \<Rightarrow> (error, json option) result" where
  "listed_torrent env release part = bind_r (member release ''torrents'') (\<lambda>torrents. bind_r (array_or torrents)
     (find_r (\<lambda>t. bind_r (member (Some t) ''id'') (\<lambda>i. Inr (string_key env i part)))))"

definition listed_episode :: "json option \<Rightarrow> jstring option \<Rightarrow> (error, json option) result" where
  "listed_episode release part = bind_r (member release ''episodes'') (\<lambda>episodes. bind_r (array_or episodes)
     (find_r (\<lambda>e. bind_r (member (Some e) ''id'') (\<lambda>i. Inr (i = map_option JText part)))))"

definition ani_resolve :: "web_env \<Rightarrow> variant \<Rightarrow> (error, resolved) result" where
  "ani_resolve env v = bind_r (ani_details env v) (\<lambda>j.
     let release = Some j in
     if id_part v 2 = Some (js ''torrent'')
     then bind_r (listed_torrent env release (id_part v 3)) (\<lambda>found.
       case found of
         None \<Rightarrow> Inl torrent_gone
       | Some t \<Rightarrow> bind_r (release_title release) (\<lambda>title.
           Inr ((empty_resolved Torrent)\<lparr>rs_url := json_text (field t ''magnet''), rs_title := Some title\<rparr>)))
     else bind_r (listed_episode release (id_part v 3)) (\<lambda>found.
       case found of
         None \<Rightarrow> Inl choose_release_episode
       | Some e \<Rightarrow>
           if id_part v 2 = Some (js ''rutube'') \<and> truthy_json (field e ''rutube_id'')
           then bind_r (release_title release) (\<lambda>title.
             Inr (ani_video YtDlp (js ''https://rutube.ru/video/'' @ string_of (wb_source env) (field e ''rutube_id'') @ js ''/'') title))
           else (case json_text (link_of (Some e) (js ''hls_'' @ (case id_part v 4 of None \<Rightarrow> js ''undefined'' | Some q \<Rightarrow> q))) of
               None \<Rightarrow> Inl quality_gone
             | Some stream \<Rightarrow>
                 if \<not> is_web_address stream then Inl quality_gone
                 else bind_r (release_title release) (\<lambda>title. Inr (ani_video Direct stream title)))))"

end
