(* ===== verification/KinoPub.thy ===== *)
theory KinoPub
  imports Videos
begin

text \<open>
  KinoPub, \<open>providers/video/kinopub.ts\<close>: films and seasons with their files and audio tracks. The
  identifier of a variant names the season, the number, the quality, the codec and the track.
\<close>

section \<open>Items\<close>

definition kino_source :: video_source where
  "kino_source = \<lparr>vs_id = js ''kinopub'', vs_name = js ''KinoPub'', vs_url = js ''https://kino.pub''\<rparr>"

definition no_account :: error where
  "no_account = Failed [1055, 1086, 1076, 1082, 1083, 1102, 1095, 1080, 1090, 1077, 32, 1072, 1082, 1082, 1072, 1091,
    1085, 1090, 32, 75, 105, 110, 111, 80, 117, 98, 32, 1074, 32, 1085, 1072, 1089, 1090, 1088,
    1086, 1081, 1082, 1072, 1093, 32, 1080, 1089, 1090, 1086, 1095, 1085, 1080, 1082, 1072, 46]"

definition kino_api :: "web_env \<Rightarrow> jstring \<Rightarrow> (error, json) result" where
  "kino_api env path =
     (if \<not> truthy (setting_of env ''accessToken'') then Inl no_account
      else let base = or_text (or_empty (setting_of env ''apiUrl'')) (js ''https://api.service-kp.com/v1/'') in
        case resolve_url (wb_runtime env) (Some (if ends_with base (js ''/'') then base else base @ js ''/'')) path of
          None \<Rightarrow> Inl invalid_address
        | Some u \<Rightarrow> web_json env (with_headers [(js ''Authorization'', js ''Bearer '' @ or_empty (setting_of env ''accessToken'')),
            (js ''Accept'', js ''application/json'')] (rt_href (wb_runtime env) u)))"

text \<open>A video with its season and its number, where the answer names none its place.\<close>

record kino_video =
  kn_video :: json
  kn_season :: "json option"
  kn_number :: json

definition number_or :: "json option \<Rightarrow> nat \<Rightarrow> json" where
  "number_or v k = (case v of None \<Rightarrow> JNum (of_nat k) | Some JNull \<Rightarrow> JNum (of_nat k) | Some j \<Rightarrow> j)"

definition numbered_videos :: "json option \<Rightarrow> json list \<Rightarrow> (error, kino_video list) result" where
  "numbered_videos season videos = map_r (\<lambda>(k, video). bind_r (member (Some video) ''number'') (\<lambda>n.
     Inr \<lparr>kn_video = video, kn_season = season, kn_number = number_or n (Suc k)\<rparr>)) (enumerate 0 videos)"

definition season_videos :: "json \<Rightarrow> (error, kino_video list) result" where
  "season_videos season = bind_r (member (Some season) ''episodes'') (\<lambda>episodes. bind_r (array_of episodes) (numbered_videos (field season ''number'')))"

definition kino_videos :: "json option \<Rightarrow> (error, kino_video list) result" where
  "kino_videos item_json =
     (case optional item_json ''seasons'' of
        Some s \<Rightarrow> if s = JNull then bind_r (array_or (optional item_json ''videos'')) (numbered_videos (Some (JNum 0)))
          else bind_r (array_of (Some s)) (\<lambda>seasons. bind_r (map_r season_videos seasons) (\<lambda>vs. Inr (concat vs)))
      | None \<Rightarrow> bind_r (array_or (optional item_json ''videos'')) (numbered_videos (Some (JNum 0))))"

definition audio_title :: "json \<Rightarrow> json option" where
  "audio_title a = first_truthy (optional (field a ''author'') ''title'') (optional (field a ''type'') ''title'')"

definition safe_integer :: "json option \<Rightarrow> bool" where
  "safe_integer v \<longleftrightarrow> (case json_number v of None \<Rightarrow> False | Some x \<Rightarrow> x = of_int \<lfloor>x\<rfloor> \<and> - (2 ^ 53) < x \<and> x < 2 ^ 53)"

definition usable_audio :: "json \<Rightarrow> (error, bool) result" where
  "usable_audio a = bind_r (member (Some a) ''id'') (\<lambda>i.
     Inr (safe_integer i \<and> (case json_number i of None \<Rightarrow> False | Some x \<Rightarrow> 0 < x) \<and> truthy_json (audio_title a)))"

definition kino_audios :: "json \<Rightarrow> (error, json list) result" where
  "kino_audios video = bind_r (array_or (field video ''audios'')) (filter_r usable_audio)"

text \<open>\<open>v?.toUpperCase()\<close> of a text\<close>

definition upper_r :: "web_env \<Rightarrow> json option \<Rightarrow> (error, jstring option) result" where
  "upper_r env v = (case v of None \<Rightarrow> Inr None | Some JNull \<Rightarrow> Inr None | Some (JText t) \<Rightarrow> Inr (Some (wb_upper env t)) | Some j \<Rightarrow> Inl type_error)"

definition audio_name :: "web_env \<Rightarrow> json \<Rightarrow> (error, jstring) result" where
  "audio_name env a =
     bind_r (upper_r env (field a ''lang'')) (\<lambda>lang. bind_r (upper_r env (field a ''codec'')) (\<lambda>codec.
       Inr (join [44, 32] (filter (\<lambda>t. t \<noteq> []) (map or_empty [json_text (optional (field a ''author'') ''title''),
         json_text (optional (field a ''type'') ''title''), lang, codec,
         (if truthy_json (field a ''channels'') then Some (string_of (wb_source env) (field a ''channels'') @ js '' ch'') else None)])))))"

definition codec_of :: "web_env \<Rightarrow> json \<Rightarrow> jstring" where
  "codec_of env file = (case field file ''codec'' of None \<Rightarrow> [] | Some JNull \<Rightarrow> [] | Some j \<Rightarrow> json_string (wb_source env) j)"

definition kino_id :: "web_env \<Rightarrow> jstring \<Rightarrow> kino_video \<Rightarrow> json \<Rightarrow> json option \<Rightarrow> jstring" where
  "kino_id env i kn file audio =
     join [58] ([js ''kinopub'', i, string_of (wb_source env) (kn_season kn), json_string (wb_source env) (kn_number kn),
       so_encode (wb_source env) (string_of (wb_source env) (field file ''quality'')), so_encode (wb_source env) (codec_of env file)]
     @ (case audio of None \<Rightarrow> [] | Some a \<Rightarrow> [js ''audio'', string_of (wb_source env) (field a ''id'')]))"

definition kino_variant :: "web_env \<Rightarrow> jstring \<Rightarrow> variant \<Rightarrow> bool \<Rightarrow> kino_video \<Rightarrow> json \<Rightarrow> json option \<Rightarrow> (error, variant) result" where
  "kino_variant env i catalog several kn file audio =
     bind_r (upper_r env (field file ''codec'')) (\<lambda>player.
     bind_r (case audio of None \<Rightarrow> Inr None | Some a \<Rightarrow> bind_r (audio_name env a) (\<lambda>t. Inr (Some t))) (\<lambda>voice.
       let number = json_string (wb_source env) (kn_number kn) in
       Inr (catalog\<lparr>v_id := kino_id env i kn file audio,
         v_episode := (if truthy_json (kn_season kn) then Some (js ''S'' @ string_of (wb_source env) (kn_season kn) @ js ''E'' @ number)
           else if several then Some number else None),
         v_quality := json_text (field file ''quality''), v_player := player,
         v_languages := Some (case audio of None \<Rightarrow> [] | Some a \<Rightarrow> (case json_text (field a ''lang'') of Some l \<Rightarrow> if l = [] then [] else [l] | None \<Rightarrow> [])),
         v_translation := voice\<rparr>)))"

definition video_files :: "web_env \<Rightarrow> jstring \<Rightarrow> variant \<Rightarrow> bool \<Rightarrow> kino_video \<Rightarrow> (error, variant list) result" where
  "video_files env i catalog several kn =
     bind_r (kino_audios (kn_video kn)) (\<lambda>audios.
     bind_r (array_or (field (kn_video kn) ''files'')) (\<lambda>files.
     bind_r (map_r (\<lambda>file. bind_r (member (Some file) ''quality'') (\<lambda>_.
       map_r (kino_variant env i catalog several kn file) (if audios = [] then [None] else map Some audios))) files) (\<lambda>vs. Inr (concat vs))))"

definition itemWork :: "web_env \<Rightarrow> json option \<Rightarrow> (error, work) result" where
  "itemWork env item_json =
     bind_r (member item_json ''id'') (\<lambda>number.
       let i = string_of (wb_source env) number; url = js ''https://kino.pub/item/view/'' @ i; title = or_empty (json_text (optional item_json ''title''));
           catalog = (videoVariant kino_source i title url)\<lparr>v_adStatus := Some (if optional item_json ''advert'' = Some (JBool True) then AdReported else AdUnknown)\<rparr> in
       bind_r (kino_videos item_json) (\<lambda>videos.
       bind_r (map_r (video_files env i catalog (1 < length videos)) videos) (\<lambda>vs.
         Inr ((new_work (js ''kinopub:'' @ i) title (if includes_str (string_of (wb_source env) (optional item_json ''type'')) (js ''serial'') then Tv else Movies)
             (found_or_inspect catalog (concat vs)))
           \<lparr>w_url := Some url, w_year := json_number (optional item_json ''year''), w_description := json_text (optional item_json ''plot''),
            w_cover := json_text (optional (optional item_json ''posters'') ''big'')\<rparr>))))"

section \<open>Operations\<close>

definition kino_type :: "category \<Rightarrow> jstring" where
  "kino_type c = (if c = Tv then js ''&type=serial'' else if c = Movies then js ''&type=movie'' else [])"

definition kino_search :: "web_env \<Rightarrow> category \<Rightarrow> jstring \<Rightarrow> (error, work list) result" where
  "kino_search env category query =
     (if category \<notin> {AnyCategory, Movies, Tv, Anime} then Inr []
      else bind_r (kino_api env (js ''items/search?q='' @ so_encode (wb_source env) query @ js ''&perpage=40'' @ kino_type category)) (\<lambda>j.
        bind_r (member (Some j) ''items'') (\<lambda>found. bind_r (array_of found) (map_r (\<lambda>x. itemWork env (Some x))))))"

definition film_unknown :: error where
  "film_unknown = Failed [1053, 1077, 32, 1091, 1076, 1072, 1083, 1086, 1089, 1100, 32, 1086, 1087, 1088, 1077, 1076,
    1077, 1083, 1080, 1090, 1100, 32, 1092, 1080, 1083, 1100, 1084, 32, 75, 105, 110, 111, 80,
    117, 98, 46]"

definition kino_inspect :: "web_env \<Rightarrow> variant \<Rightarrow> (error, work) result" where
  "kino_inspect env v =
     (case id_part v 1 of
        None \<Rightarrow> Inl film_unknown
      | Some i \<Rightarrow> if \<not> all_digits i then Inl film_unknown
          else bind_r (kino_api env (js ''items/'' @ i)) (\<lambda>j. bind_r (member (Some j) ''item'') (itemWork env)))"

definition kino_unchosen :: error where
  "kino_unchosen = Failed [1042, 1099, 1073, 1077, 1088, 1080, 1090, 1077, 32, 1089, 1077, 1088, 1080, 1102, 44, 32,
    1086, 1079, 1074, 1091, 1095, 1082, 1091, 32, 1080, 32, 1082, 1072, 1095, 1077, 1089, 1090,
    1074, 1086, 32, 1074, 32, 1074, 1072, 1088, 1080, 1072, 1085, 1090, 1072, 1093, 32, 75, 105,
    110, 111, 80, 117, 98, 46]"

definition audio_gone :: error where
  "audio_gone = Failed [1042, 1099, 1073, 1088, 1072, 1085, 1085, 1072, 1103, 32, 1086, 1079, 1074, 1091, 1095, 1082,
    1072, 32, 75, 105, 110, 111, 80, 117, 98, 32, 1073, 1086, 1083, 1100, 1096, 1077, 32, 1085,
    1077, 32, 1076, 1086, 1089, 1090, 1091, 1087, 1085, 1072, 46, 32, 1042, 1099, 1073, 1077,
    1088, 1080, 1090, 1077, 32, 1076, 1088, 1091, 1075, 1091, 1102, 32, 1086, 1079, 1074, 1091,
    1095, 1082, 1091, 46]"

definition stream_gone :: error where
  "stream_gone = Failed [1042, 1099, 1073, 1088, 1072, 1085, 1085, 1099, 1081, 32, 1087, 1086, 1090, 1086, 1082, 32,
    75, 105, 110, 111, 80, 117, 98, 32, 1073, 1086, 1083, 1100, 1096, 1077, 32, 1085, 1077, 32,
    1076, 1086, 1089, 1090, 1091, 1087, 1077, 1085, 46]"

definition number_part :: "web_env \<Rightarrow> variant \<Rightarrow> nat \<Rightarrow> rat option" where
  "number_part env v k = Option.bind (id_part v k) (so_parse_number (wb_source env))"

text \<open>\<open>===\<close> with a number that may be \<open>NaN\<close>\<close>

definition equals_number :: "json option \<Rightarrow> rat option \<Rightarrow> bool" where
  "equals_number j x \<longleftrightarrow> x \<noteq> None \<and> json_number j = x"

definition nth_video :: "web_env \<Rightarrow> variant \<Rightarrow> json list \<Rightarrow> (error, json option) result" where
  "nth_video env v videos = bind_r (find_r (\<lambda>(k, video). bind_r (member (Some video) ''number'') (\<lambda>n.
     Inr (equals_number (Some (number_or n (Suc k))) (number_part env v 3)))) (enumerate 0 videos)) (\<lambda>found. Inr (map_option snd found))"

definition chosen_kino :: "web_env \<Rightarrow> json option \<Rightarrow> variant \<Rightarrow> (error, json option) result" where
  "chosen_kino env item_json v =
     (if truthy_num (number_part env v 2)
      then bind_r (member item_json ''seasons'') (\<lambda>seasons. bind_r (array_or seasons) (\<lambda>seasons.
        bind_r (find_r (\<lambda>s. bind_r (member (Some s) ''number'') (\<lambda>n. Inr (equals_number n (number_part env v 2)))) seasons) (\<lambda>season.
          case season of
            None \<Rightarrow> Inr None
          | Some s \<Rightarrow> bind_r (array_of (field s ''episodes'')) (nth_video env v))))
      else bind_r (member item_json ''videos'') (\<lambda>videos. bind_r (array_or videos) (nth_video env v)))"

definition decoded_part :: "web_env \<Rightarrow> variant \<Rightarrow> nat \<Rightarrow> (error, jstring) result" where
  "decoded_part env v k = (case wb_decode_uri env (or_empty (id_part v k)) of None \<Rightarrow> Inl malformed_uri | Some t \<Rightarrow> Inr t)"

definition chosen_file :: "web_env \<Rightarrow> json option \<Rightarrow> variant \<Rightarrow> (error, json option) result" where
  "chosen_file env video v = bind_r (array_or (optional video ''files'')) (find_r (\<lambda>file.
     bind_r (member (Some file) ''quality'') (\<lambda>q. bind_r (decoded_part env v 4) (\<lambda>quality.
       if q \<noteq> Some (JText quality) then Inr False
       else bind_r (decoded_part env v 5) (\<lambda>codec.
         Inr (case field file ''codec'' of None \<Rightarrow> codec = [] | Some JNull \<Rightarrow> codec = [] | Some j \<Rightarrow> j = JText codec))))))"

definition chosen_audio :: "web_env \<Rightarrow> json option \<Rightarrow> variant \<Rightarrow> (error, json option) result" where
  "chosen_audio env video v =
     (if id_part v 6 \<noteq> Some (js ''audio'') then Inr None
      else bind_r (array_or (optional video ''audios'')) (find_r (\<lambda>a. bind_r (member (Some a) ''id'') (\<lambda>i. Inr (string_key env i (id_part v 7))))))"

definition file_stream :: "json option \<Rightarrow> json option" where
  "file_stream file =
     (let u = optional file ''url'';
          pick = (\<lambda>a b. case a of None \<Rightarrow> b | Some JNull \<Rightarrow> b | Some j \<Rightarrow> a)
      in pick (optional u ''hls4'') (pick (optional u ''hls'') (optional u ''http'')))"

definition track_of :: "json \<Rightarrow> audio_track" where
  "track_of a = \<lparr>at_title = or_empty (json_text (audio_title a)), at_type = json_text (optional (field a ''type'') ''title''),
     at_language = json_text (field a ''lang''), at_codec = json_text (field a ''codec''), at_channels = json_number (field a ''channels'')\<rparr>"

definition kino_subtitles :: "json option \<Rightarrow> (error, (jstring \<times> jstring \<times> jstring option) list option) result" where
  "kino_subtitles video =
     (case optional video ''subtitles'' of
        None \<Rightarrow> Inr None
      | Some JNull \<Rightarrow> Inr None
      | Some j \<Rightarrow> bind_r (array_of (Some j)) (\<lambda>ss. bind_r (map_r (\<lambda>s. bind_r (member (Some s) ''lang'') (\<lambda>l.
          Inr (or_empty (json_text l), or_empty (json_text (field s ''url'')), json_text l))) ss) (\<lambda>found. Inr (Some found))))"

definition kino_resolve :: "web_env \<Rightarrow> variant \<Rightarrow> (error, resolved) result" where
  "kino_resolve env v =
     (if \<not> truthy (id_part v 4) \<or> id_part v 5 = None then Inl kino_unchosen
      else bind_r (kino_api env (js ''items/'' @ or_empty (id_part v 1))) (\<lambda>j. bind_r (member (Some j) ''item'') (\<lambda>item_json.
        bind_r (chosen_kino env item_json v) (\<lambda>video. bind_r (chosen_file env video v) (\<lambda>file. bind_r (chosen_audio env video v) (\<lambda>audio.
          if truthy (id_part v 6) \<and> (case audio of None \<Rightarrow> True | Some a \<Rightarrow> \<not> truthy_json (audio_title a)) then Inl audio_gone
          else case json_text (file_stream file) of
              None \<Rightarrow> Inl stream_gone
            | Some url \<Rightarrow>
                if \<not> is_web_address url then Inl stream_gone
                else bind_r (kino_subtitles video) (\<lambda>subtitles.
                  Inr ((empty_resolved Video)\<lparr>rs_resolver := Some Direct, rs_url := Some url, rs_title := json_text (optional item_json ''title''),
                    rs_translation := v_translation v, rs_audioTrack := map_option track_of audio, rs_subtitles := subtitles\<rparr>))))))))"

section \<open>A listed file is the one that plays\<close>

text \<open>
  \<open>encodeURIComponent\<close> escapes the colon and \<open>decodeURIComponent\<close> reads back what it wrote; the
  text of a number has no colon and is read back.
\<close>

definition text_reads_back :: "web_env \<Rightarrow> jstring \<Rightarrow> bool" where
  "text_reads_back env t \<longleftrightarrow> 58 \<notin> set (so_encode (wb_source env) t) \<and> wb_decode_uri env (so_encode (wb_source env) t) = Some t"

definition number_reads_back :: "web_env \<Rightarrow> rat \<Rightarrow> bool" where
  "number_reads_back env x \<longleftrightarrow> 58 \<notin> set (json_string (wb_source env) (JNum x))
     \<and> so_parse_number (wb_source env) (json_string (wb_source env) (JNum x)) = Some x"

lemma kino_id_parts:
  assumes "58 \<notin> set i" "kn_season kn = Some (JNum s)" "kn_number kn = JNum n" "number_reads_back env s" "number_reads_back env n"
    and "field file ''quality'' = Some (JText q)" "text_reads_back env q" "text_reads_back env (codec_of env file)"
    and "\<And>a. audio = Some a \<Longrightarrow> \<exists>x. field a ''id'' = Some (JNum x) \<and> number_reads_back env x"
  shows "split_char 58 (kino_id env i kn file audio) = [js ''kinopub'', i, json_string (wb_source env) (JNum s), json_string (wb_source env) (JNum n),
      so_encode (wb_source env) q, so_encode (wb_source env) (codec_of env file)]
    @ (case audio of None \<Rightarrow> [] | Some a \<Rightarrow> [js ''audio'', string_of (wb_source env) (field a ''id'')])"
proof -
  have words: "58 \<notin> set (js ''kinopub'')" "58 \<notin> set (js ''audio'')" by code_simp+
  have "58 \<notin> set (string_of (wb_source env) (field a ''id''))" if "audio = Some a" for a
    using assms(9)[OF that] by (auto simp: number_reads_back_def string_of_def)
  then show ?thesis
    unfolding kino_id_def
    using assms words by (subst split_join) (auto simp: number_reads_back_def text_reads_back_def string_of_def simp del: js_simps json_string.simps(3) split: option.splits)
qed

lemma find_r_place:
  "find_r f (enumerate m xs) = Inr (Some (k, x)) \<Longrightarrow> m \<le> k \<and> k < m + length xs \<and> x = xs ! (k - m) \<and> f (k, x) = Inr True"
  by (drule find_r_Inr) (auto simp: in_set_enumerate_eq)

lemma nth_video_Inr:
  assumes "nth_video env v videos = Inr (Some x)" "number_part env v 3 = Some n"
  shows "\<exists>k < length videos. x = videos ! k \<and> number_or (field x ''number'') (Suc k) = JNum n"
proof -
  obtain k where "find_r (\<lambda>(k, video). bind_r (member (Some video) ''number'') (\<lambda>n.
     Inr (equals_number (Some (number_or n (Suc k))) (number_part env v 3)))) (enumerate 0 videos) = Inr (Some (k, x))"
    using assms(1) by (auto simp: nth_video_def bind_r_Inr)
  from find_r_place[OF this] show ?thesis
    using assms(2) by (intro exI[of _ k]) (auto simp: bind_r_Inr member_def equals_number_def json_number_def split: json.splits)
qed

lemma array_or_member: "array_or j = Inr xs \<Longrightarrow> x \<in> set xs \<Longrightarrow> j = Some (JArr xs)"
  by (auto simp: array_or_def split: option.splits json.splits)

lemma array_of_Inr: "array_of j = Inr xs \<longleftrightarrow> j = Some (JArr xs)"
  by (auto simp: array_of_def json_array_def split: option.splits json.splits)

lemma chosen_kino_Inr:
  assumes "chosen_kino env item_json v = Inr (Some x)" "number_part env v 2 = Some s" "number_part env v 3 = Some n"
  shows "\<exists>videos k. k < length videos \<and> x = videos ! k \<and> number_or (field x ''number'') (Suc k) = JNum n
    \<and> (if s = 0 then optional item_json ''videos'' = Some (JArr videos)
       else \<exists>season seasons. optional item_json ''seasons'' = Some (JArr seasons) \<and> season \<in> set seasons \<and> field season ''number'' = Some (JNum s)
         \<and> field season ''episodes'' = Some (JArr videos))"
proof -
  have opt: "member j k = Inr y \<Longrightarrow> optional j k = y" for j k y by (auto simp: member_def optional_def split: option.splits json.splits)
  show ?thesis
  proof (cases "s = 0")
    case True
    then obtain videos where videos: "array_or (optional item_json ''videos'') = Inr videos" "nth_video env v videos = Inr (Some x)"
      using assms by (auto simp: chosen_kino_def bind_r_Inr dest: opt)
    obtain k where "k < length videos" "x = videos ! k" "number_or (field x ''number'') (Suc k) = JNum n"
      using nth_video_Inr[OF videos(2) assms(3)] by blast
    then show ?thesis using True array_or_member[OF videos(1), of x] by (intro exI[of _ videos] exI[of _ k]) simp
  next
    case False
    then obtain y seasons season videos where m: "member item_json ''seasons'' = Inr y" and seasons: "array_or y = Inr seasons"
      "find_r (\<lambda>s. bind_r (member (Some s) ''number'') (\<lambda>n. Inr (equals_number n (number_part env v 2)))) seasons = Inr (Some season)"
      "field season ''episodes'' = Some (JArr videos)" "nth_video env v videos = Inr (Some x)"
      using assms by (auto simp: chosen_kino_def bind_r_Inr array_of_Inr split: option.splits)
    have y: "optional item_json ''seasons'' = y" using opt[OF m] .
    obtain k where k: "k < length videos" "x = videos ! k" "number_or (field x ''number'') (Suc k) = JNum n"
      using nth_video_Inr[OF seasons(4) assms(3)] by blast
    have "season \<in> set seasons" "field season ''number'' = Some (JNum s)"
      using find_r_Inr[OF seasons(2)] assms(2) by (auto simp: bind_r_Inr member_def equals_number_def json_number_def split: json.splits option.splits)
    then show ?thesis using False seasons k y array_or_member[OF seasons(1), of season]
      by (intro exI[of _ videos] exI[of _ k]) auto
  qed
qed

lemma chosen_file_Inr:
  assumes "chosen_file env video v = Inr (Some f)" "decoded_part env v 4 = Inr q" "decoded_part env v 5 = Inr c"
  shows "\<exists>x files. video = Some x \<and> field x ''files'' = Some (JArr files) \<and> f \<in> set files \<and> field f ''quality'' = Some (JText q) \<and> codec_of env f = c"
proof -
  obtain files where files: "array_or (optional video ''files'') = Inr files"
    and f: "find_r (\<lambda>file. bind_r (member (Some file) ''quality'') (\<lambda>q. bind_r (decoded_part env v 4) (\<lambda>quality.
       if q \<noteq> Some (JText quality) then Inr False
       else bind_r (decoded_part env v 5) (\<lambda>codec.
         Inr (case field file ''codec'' of None \<Rightarrow> codec = [] | Some JNull \<Rightarrow> codec = [] | Some j \<Rightarrow> j = JText codec))))) files = Inr (Some f)"
    using assms(1) by (auto simp: chosen_file_def bind_r_Inr)
  note found = find_r_Inr[OF f]
  have "optional video ''files'' = Some (JArr files)" using array_or_member[OF files] found by blast
  moreover have "field f ''quality'' = Some (JText q)" "codec_of env f = c"
    using found assms(2,3)
    by (auto simp: bind_r_Inr member_def codec_of_def split: json.splits if_splits option.splits)
  ultimately show ?thesis using found by (cases video) (auto simp: optional_def)
qed


text \<open>An episode with one file and one track.\<close>

definition sample_file :: json where
  "sample_file = json_object [(''quality'', JText (js ''720p'')), (''codec'', JText (js ''h264'')), (''url'', json_object [(''http'', JText (js ''https://m.org/f''))])]"

definition sample_track :: json where
  "sample_track = json_object [(''id'', JNum 5), (''author'', json_object [(''title'', JText (js ''A''))])]"

definition sample_video :: json where
  "sample_video = json_object [(''number'', JNum 2), (''files'', JArr [sample_file]), (''audios'', JArr [sample_track])]"

definition sample_kino :: web_env where
  "sample_kino = (sample_web [] [(js ''https://api.service-kp.com/v1/items/7'', json_object [(''item'', json_object
      [(''id'', JNum 7), (''title'', JText (js ''K'')), (''seasons'', JArr [json_object [(''number'', JNum 1), (''episodes'', JArr [sample_video])]])])])])
     \<lparr>wb_source := Galleries.sample_source\<lparr>so_runtime := sample_runtime\<lparr>rt_url_at := (\<lambda>s b. sample_url (rt_href sample_runtime b @ s))\<rparr>\<rparr>,
      wb_settings := [(js ''accessToken'', js ''t'')]\<rparr>"

definition sample_kino_video :: kino_video where
  "sample_kino_video = \<lparr>kn_video = sample_video, kn_season = Some (JNum 1), kn_number = JNum 2\<rparr>"

definition sample_kino_variant :: variant where
  "sample_kino_variant = (case kino_variant sample_kino (js ''7'') (videoVariant kino_source (js ''7'') (js ''K'') []) True sample_kino_video sample_file (Some sample_track) of
     Inr v \<Rightarrow> v | Inl e \<Rightarrow> new_variant [] [] [] [] [] File)"

definition sample_kino_played :: resolved where
  "sample_kino_played = (case kino_resolve sample_kino sample_kino_variant of Inr r \<Rightarrow> r | Inl e \<Rightarrow> empty_resolved File)"


end
