(* ===== verification/Social.thy ===== *)
theory Social
  imports Videos
begin

text \<open>
  Rutube and VK Video, \<open>providers/video/social.ts\<close>: links of publications, the filter of found
  videos, episodes in the titles of uploads, and the quality that a manifest names.
\<close>

section \<open>Links\<close>

definition rutube_hosts :: "jstring list" where
  "rutube_hosts = map js [''rutube.ru'', ''www.rutube.ru'']"

definition is_web_url :: "url \<Rightarrow> bool" where
  "is_web_url u \<longleftrightarrow> u_protocol u = js ''http:'' \<or> u_protocol u = js ''https:''"

definition rutube_path_rx :: rx where
  "rutube_path_rx = RSeqs [RBol, RLit (js ''/''), RAlt (RLitI (js ''video'')) (RSeq (ROpt (RLitI (js ''play/''))) (RLitI (js ''embed''))), RLit (js ''/''),
     RGroup 1 (RTimes 32 (RCh is_hex)), RAlt (RLit (js ''/'')) REol]"

definition rutubeId :: "runtime \<Rightarrow> jstring \<Rightarrow> jstring option" where
  "rutubeId rt v =
     (case rt_url rt v of
        None \<Rightarrow> None
      | Some u \<Rightarrow> if \<not> is_web_url u \<or> u_hostname u \<notin> set rutube_hosts then None
          else map_option (map ascii_lower) (rx_cap rutube_path_rx 1 (u_pathname u)))"

definition vk_hosts :: "jstring list" where
  "vk_hosts = map js [''vk.com'', ''vk.ru'', ''vkvideo.com'', ''vkvideo.ru'', ''vkontakte.com'', ''vkontakte.ru'']"

definition vk_prefix_rx :: rx where
  "vk_prefix_rx = RSeqs [RBol, RAlts (map (\<lambda>n. RLit (js n)) [''www'', ''m'', ''new'', ''vksport'']), RLit (js ''.'')]"

definition vk_video_rx :: rx where
  "vk_video_rx = RSeqs [RBol, RLit (js ''video''), RGroup 1 (RSeqs [ROpt (RLit (js ''-'')), RPlus RDigit, RLit (js ''_''), RPlus RDigit]), RAlt (RLit (js ''/'')) REol]"

definition vkId :: "runtime \<Rightarrow> jstring \<Rightarrow> jstring option" where
  "vkId rt v =
     (case rt_url rt v of
        None \<Rightarrow> None
      | Some u \<Rightarrow>
          if \<not> is_web_url u \<or> rx_replace1 vk_prefix_rx (\<lambda>_. []) (rt_lower rt (u_hostname u)) \<notin> set vk_hosts then None
          else rx_cap vk_video_rx 1 (case url_param rt ''z'' u of Some z \<Rightarrow> z | None \<Rightarrow> drop 1 (u_pathname u)))"

section \<open>Found videos\<close>

definition unwanted_rx :: rx where
  "unwanted_rx = RAlt (RSeqs [RWordB, RAlts (map (\<lambda>n. RLitI (js n)) [''trailer'', ''teaser'', ''reaction'', ''review'', ''AMV'', ''highlights'', ''promo'', ''preview'']), RWordB])
     (RAlts (map RLitI [[1090, 1088, 1077, 1081, 1083, 1077, 1088], [1090, 1080, 1079, 1077, 1088], [1088, 1077, 1072, 1082, 1094, 1080], [1086, 1073, 1079, 1086, 1088], [1085, 1072, 1088, 1077, 1079, 1082], [1087, 1088, 1086, 1084, 1086], [1087, 1088, 1077, 1074, 1100, 1102]]))"

definition line_start :: rx where
  "line_start = RSeq (RAlt RBol (RLit [10])) RSpaces"

definition promo_rx :: rx where
  "promo_rx = RSeqs [line_start, ROpt (RSeq (RLitI [1072, 1085, 1080, 1084, 1080, 1088, 1086, 1074, 1072, 1085, 1085, 1086, 1077]) (RPlus RSpace)), RLitI [1087, 1088, 1086, 1084, 1086], RAlt RSpace REol]"

definition announced_rx :: rx where
  "announced_rx = RSeqs [line_start, RLitI [1057, 1090, 1072, 1090, 1091, 1089], RSpaces, RLit (js '':''), RSpaces,
     RAlts (map RLitI [[1079, 1072, 1087, 1083, 1072, 1085, 1080, 1088, 1086, 1074, 1072, 1085], [1072, 1085, 1086, 1085, 1089, 1080, 1088, 1086, 1074, 1072, 1085], [1089, 1082, 1086, 1088, 1086]])]"

definition numbered_rx :: rx where
  "numbered_rx = RAlt (RSeqs [RPlus RDigit, RSpaces, RLitI [1089, 1077, 1088, 1080, 1103]])
     (RSeqs [RWordB, RLitI (js ''S''), RPlus RDigit, RLitI (js ''E''), RPlus RDigit, RWordB])"

definition plain_words :: "runtime \<Rightarrow> jstring \<Rightarrow> jstring" where
  "plain_words rt t = map (\<lambda>c. if c = 1105 then 1077 else c) (rt_lower rt t)"

definition query_words :: "web_env \<Rightarrow> jstring \<Rightarrow> jstring list" where
  "query_words env query = map f_text (rx_all (RPlus (RCp (\<lambda>c. rt_letter (wb_runtime env) c \<or> wb_numeral env c))) (plain_words (wb_runtime env) query))"

definition matchesPublication :: "web_env \<Rightarrow> jstring \<Rightarrow> jstring \<Rightarrow> jstring \<Rightarrow> rat option \<Rightarrow> bool" where
  "matchesPublication env title query description duration =
     (let announcement = truthy_num duration \<and> num_or_zero duration \<le> 180 \<and> rx_test announced_rx description \<and> \<not> rx_test numbered_rx title in
      \<not> ((rx_test unwanted_rx title \<or> rx_test promo_rx description \<or> announcement) \<and> \<not> rx_test unwanted_rx query)
      \<and> list_all (\<lambda>w. includes_str (plain_words (wb_runtime env) title) w) (query_words env query))"

section \<open>Uploads of Rutube\<close>

definition rutube_source :: video_source where
  "rutube_source = \<lparr>vs_id = js ''rutube'', vs_name = js ''Rutube'', vs_url = js ''https://rutube.ru''\<rparr>"

definition year_digits :: rx where
  "year_digits = RSeq (RAlt (RLit (js ''19'')) (RLit (js ''20''))) (RTimes 2 RDigit)"

text \<open>The mark of a year in brackets at the end of a title, and the line of a description.\<close>

definition anime_word :: rx where
  "anime_word = ROpt (RSeqs [RLitI [1072, 1085, 1080, 1084, 1077], ROpt (RLitI [45, 1089, 1077, 1088, 1080, 1072, 1083]), ROpt (RLit (js '','')), RSpaces])"

definition title_year_rx :: rx where
  "title_year_rx = RSeqs [RLit (js ''(''), anime_word, RGroup 1 year_digits, RLit (js '')''), RSpaces, REol]"

definition line_year_rx :: rx where
  "line_year_rx = RSeqs [RBolM, RLitI [1043, 1086, 1076], RSpaces, ROpt (RAlt (RLitI [1087, 1088, 1086, 1080, 1079, 1074, 1086, 1076, 1089, 1090, 1074, 1072]) (RLitI [1074, 1099, 1087, 1091, 1089, 1082, 1072])), RSpaces, RLit (js '':''), RSpaces,
     RGroup 1 year_digits, RWordB]"

definition upload_year :: "jstring \<Rightarrow> jstring \<Rightarrow> rat option" where
  "upload_year title description = map_option (\<lambda>y. of_nat (num_of y)) (opt_or (rx_cap title_year_rx 1 title) (rx_cap line_year_rx 1 description))"

definition untitled_year :: "jstring \<Rightarrow> jstring" where
  "untitled_year title = rx_replace1 (RSeqs [RSpaces, RLit (js ''(''), anime_word, year_digits, RLit (js '')''), RSpaces, REol]) (\<lambda>_. []) title"

definition episode_rx :: rx where
  "episode_rx = RSeqs [RBol, RGroup 1 (RSeq RDot (RStar False RDot)), RSpaces, ROpt (RCh (\<lambda>c. c = 45 \<or> c = 8211 \<or> c = 8212)), RSpaces,
     RGroup 2 (RSeq (RPlus RDigit) (ROpt (RSeq (RLit (js ''.'')) (RPlus RDigit)))), RSpaces, RLitI [1089, 1077, 1088, 1080, 1103],
     ROpt (RSeqs [RSpaces, RLit (js ''[''), RGroup 3 (RPlus (RCh (\<lambda>c. c \<noteq> 93))), RLit (js '']'')]),
     ROpt (RSeqs [RSpaces, RLit (js ''/''), RSpaces, RGroup 4 (RPlus RDot)]), REol]"

definition voice_line_rx :: rx where
  "voice_line_rx = RSeqs [RBolM, RLitI [1054, 1079, 1074, 1091, 1095, 1082, 1072], RSpaces, RCh (\<lambda>c. c \<in> {45, 8211, 8212, 58}), RSpaces, RGroup 1 (RPlus (RCh (\<lambda>c. c \<noteq> 10 \<and> c \<noteq> 40)))]"

definition season_rx :: rx where
  "season_rx = RAlts [RSeqs [RLitI (js ''season''), RPlus RSpace, RGroup 1 (RPlus RDigit)],
     RSeqs [RGroup 2 (RPlus RDigit), ROpt (RAlts (map (\<lambda>n. RLitI (js n)) [''st'', ''nd'', ''rd'', ''th''])), RPlus RSpace, RLitI (js ''season'')],
     RSeqs [RAlt RBol RSpace, RGroup 3 (RPlus RDigit), RSpaces, RLitI [1089, 1077, 1079, 1086, 1085], RAlt RSpace REol],
     RSeqs [RSpace, RGroup 4 (RPlus RDigit), REol]]"

definition season_of :: "jstring \<Rightarrow> jstring option" where
  "season_of t = (case rx_exec season_rx t of None \<Rightarrow> None | Some f \<Rightarrow> find (\<lambda>n. n \<noteq> []) (List.map_filter (cap f) [1, 2, 3, 4]))"

definition in_russian_rx :: rx where
  "in_russian_rx = RSeqs [RAlt RBol (RCh (\<lambda>c. \<not> is_word c)), RAlt (RSeqs [RLitI [1085, 1072], RPlus RSpace, RLitI [1088, 1091, 1089, 1089, 1082, 1086, 1084]])
     (RSeqs [RLitI [1088, 1091, 1089, 1089, 1082], RAlt (RLitI [1072, 1103]) (RLitI [1086, 1081]), RPlus RSpace, RLitI [1086, 1079, 1074, 1091, 1095, 1082]])]"

definition decimal_text :: "web_env \<Rightarrow> jstring \<Rightarrow> jstring" where
  "decimal_text env t = (case so_parse_number (wb_source env) t of None \<Rightarrow> js ''NaN'' | Some x \<Rightarrow> number_text (wb_source env) x)"

definition upload_voice :: "rx_found \<Rightarrow> jstring \<Rightarrow> jstring option" where
  "upload_voice f description =
     (let named = map_option trim (cap f 3) in if truthy named then named else map_option trim (rx_cap voice_line_rx 1 description))"

text \<open>An episode in the title of an anime upload of at least fifteen minutes.\<close>

definition with_episode :: "web_env \<Rightarrow> rx_found \<Rightarrow> jstring \<Rightarrow> variant \<Rightarrow> variant" where
  "with_episode env f description v = v\<lparr>v_episode := Some (decimal_text env (or_empty (cap f 2))), v_translation := upload_voice f description,
     v_season := season_of (or_empty (cap f 1)), v_languages := (if rx_test in_russian_rx description then Some [js ''ru''] else v_languages v)\<rparr>"

definition duration_note :: "web_env \<Rightarrow> rat \<Rightarrow> jstring \<Rightarrow> author_note" where
  "duration_note env d url = \<lparr>n_text = [1044, 1083, 1080, 1090, 1077, 1083, 1100, 1085, 1086, 1089, 1090, 1100, 58, 32] @ number_text (wb_source env) (of_int \<lfloor>d / 60 + 1 / 2\<rfloor>) @ [32, 1084, 1080, 1085, 46], n_url = url, n_author = None\<rparr>"

definition anime_upload :: "web_env \<Rightarrow> jstring \<Rightarrow> jstring \<Rightarrow> rat option \<Rightarrow> work \<Rightarrow> work" where
  "anime_upload env title description duration w =
     (let w' = w\<lparr>w_category := Anime, w_year := upload_year title description\<rparr> in
      case rx_exec episode_rx (untitled_year title) of
        None \<Rightarrow> w'
      | Some f \<Rightarrow> if num_or_zero duration < 15 * 60 then w'
          else w'\<lparr>w_aliases := Some (trim (or_empty (cap f 1)) # (if truthy (cap f 4) then [trim (or_empty (cap f 4))] else [])),
            w_variants := map (with_episode env f description) (w_variants w')\<rparr>)"

definition rutubeWork :: "web_env \<Rightarrow> json option \<Rightarrow> (error, work) result" where
  "rutubeWork env video =
     bind_r (member video ''id'') (\<lambda>number.
       let i = string_of (wb_source env) number; title = or_empty (json_text (optional video ''title'')); url = js ''https://rutube.ru/video/'' @ i @ js ''/'';
           description = json_text (optional video ''description''); duration = json_number (optional video ''duration'');
           v = (videoVariant rutube_source i title url)\<lparr>v_publicationKind := Some Upload, v_author := json_text (optional (optional video ''author'') ''name''),
             v_publishedAt := json_text (optional video ''publication_ts''), v_duration := duration,
             v_notes := (if truthy_num duration then Some [duration_note env (num_or_zero duration) url] else None)\<rparr>;
           w = (new_work (js ''rutube:'' @ i) title Movies [v])\<lparr>w_url := Some url, w_cover := json_text (optional video ''thumbnail_url''), w_description := description\<rparr>
       in Inr (if optional (optional video ''category'') ''id'' = Some (JNum 41) then anime_upload env title (or_empty description) duration w else w))"

definition rutube_manifest_changed :: error where
  "rutube_manifest_changed = Failed [82, 117, 116, 117, 98, 101, 32, 1080, 1079, 1084, 1077, 1085, 1080, 1083, 32, 1092, 1086,
    1088, 1084, 1072, 1090, 32, 1076, 1072, 1085, 1085, 1099, 1093, 32, 1082, 1072, 1095, 1077,
    1089, 1090, 1074, 1072, 46]"

definition rutube_no_quality :: "nat \<Rightarrow> error" where
  "rutube_no_quality s = Failed ([82, 117, 116, 117, 98, 101, 32, 1085, 1077, 32, 1087, 1088, 1077, 1076, 1086, 1089, 1090,
    1072, 1074, 1080, 1083, 32, 1076, 1072, 1085, 1085, 1099, 1077, 32, 1082, 1072, 1095, 1077,
    1089, 1090, 1074, 1072, 32, 40, 72, 84, 84, 80, 32] @ to_dec s @ js '').'')"

definition height_rx :: rx where
  "height_rx = RSeqs [RWordB, RLit (js ''RESOLUTION=''), RPlus RDigit, RLit (js ''x''), RGroup 1 (RPlus RDigit), RWordB]"

definition manifest_heights :: "jstring \<Rightarrow> nat list" where
  "manifest_heights manifest = map (\<lambda>f. num_of (or_empty (cap f 1))) (rx_all height_rx manifest)"

definition set_quality :: "nat list \<Rightarrow> work \<Rightarrow> work" where
  "set_quality heights w = (case heights of
     [] \<Rightarrow> w
   | h # hs \<Rightarrow> w\<lparr>w_variants := map (\<lambda>v. v\<lparr>v_quality := Some (to_dec (fold max hs h) @ js ''p'')\<rparr>) (w_variants w)\<rparr>)"

definition first_url :: "work \<Rightarrow> jstring" where
  "first_url w = (case w_variants w of [] \<Rightarrow> [] | v # vs \<Rightarrow> v_url v)"

definition rutubeQuality :: "web_env \<Rightarrow> work \<Rightarrow> (error, work) result" where
  "rutubeQuality env w =
     bind_r (web_json env (plain_get (js ''https://rutube.ru/api/play/options/''
       @ (case rutubeId (wb_runtime env) (first_url w) of None \<Rightarrow> js ''undefined'' | Some i \<Rightarrow> i) @ js ''/''))) (\<lambda>options.
     bind_r (member (Some options) ''video_balancer'') (\<lambda>balancer.
       let address = optional balancer ''m3u8'' in
       if \<not> truthy_json address then Inr w
       else bind_r (wb_request env (plain_get (string_of (wb_source env) address))) (\<lambda>r.
         let manifest = wb_utf8 env (wr_bytes r) in
         if \<not> in_range 200 299 (wr_status r) then Inl (rutube_no_quality (wr_status r))
         else if \<not> starts_with manifest (js ''#EXTM3U'') then Inl rutube_manifest_changed
         else Inr (set_quality (manifest_heights manifest) w))))"

section \<open>Operations of Rutube\<close>

definition video_categories :: "category list" where
  "video_categories = [AnyCategory, Movies, Tv, Anime]"

definition rutube_answer :: "web_env \<Rightarrow> jstring \<Rightarrow> (error, work) result" where
  "rutube_answer env i = bind_r (web_json env (plain_get (js ''https://rutube.ru/api/video/'' @ i @ js ''/''))) (\<lambda>j. rutubeWork env (Some j))"

definition rutube_shown :: "json \<Rightarrow> (error, bool) result" where
  "rutube_shown video = bind_r (member (Some video) ''is_deleted'') (\<lambda>deleted. Inr (\<not> truthy_json deleted \<and> \<not> truthy_json (field video ''is_hidden'')
     \<and> \<not> truthy_json (field video ''is_paid'') \<and> \<not> truthy_json (field video ''is_locked'')))"

definition rutube_matches :: "web_env \<Rightarrow> jstring \<Rightarrow> json \<Rightarrow> bool" where
  "rutube_matches env query video = matchesPublication env (or_empty (json_text (field video ''title''))) query
     (or_empty (json_text (field video ''description''))) (json_number (field video ''duration''))"

definition as_category :: "category \<Rightarrow> work \<Rightarrow> work" where
  "as_category c w = (if c = AnyCategory then w else w\<lparr>w_category := c\<rparr>)"

text \<open>Qualities of the found videos; a failure is reported and leaves its video as it was.\<close>

fun with_qualities :: "web_env \<Rightarrow> work list \<Rightarrow> (error, work list \<times> error list) result" where
  "with_qualities env [] = Inr ([], [])"
| "with_qualities env (w # ws) =
     (case rutubeQuality env w of
        Inr w' \<Rightarrow> bind_r (with_qualities env ws) (\<lambda>(found, es). Inr (w' # found, es))
      | Inl e \<Rightarrow> if wb_aborted env then Inl Aborted else bind_r (with_qualities env ws) (\<lambda>(found, es). Inr (w # found, e # es)))"

definition rutube_search :: "web_env \<Rightarrow> category \<Rightarrow> jstring \<Rightarrow> (error, work list \<times> error list) result" where
  "rutube_search env category query =
     (if category \<notin> set video_categories then Inr ([], [])
      else case rutubeId (wb_runtime env) query of
          Some i \<Rightarrow> bind_r (rutube_answer env i) (\<lambda>w. bind_r (rutubeQuality env w) (\<lambda>w'. Inr ([w'], [])))
        | None \<Rightarrow>
            bind_r (web_json env (plain_get (js ''https://rutube.ru/api/search/video/?query='' @ so_encode (wb_source env) query @ js ''&page=1''))) (\<lambda>j.
            bind_r (member (Some j) ''results'') (\<lambda>found. bind_r (array_of found) (\<lambda>videos. bind_r (filter_r rutube_shown videos) (\<lambda>listed.
            bind_r (map_r (\<lambda>v. rutubeWork env (Some v)) (filter (rutube_matches env query) listed)) (\<lambda>works.
              with_qualities env (map (as_category category) works)))))))"

definition bad_rutube_link :: error where
  "bad_rutube_link = Failed [1053, 1077, 1082, 1086, 1088, 1088, 1077, 1082, 1090, 1085, 1072, 1103, 32, 1089, 1089, 1099,
    1083, 1082, 1072, 32, 82, 117, 116, 117, 98, 101, 46]"

definition rutube_inspect :: "web_env \<Rightarrow> variant \<Rightarrow> (error, work) result" where
  "rutube_inspect env v =
     (case rutubeId (wb_runtime env) (v_url v) of None \<Rightarrow> Inl bad_rutube_link | Some i \<Rightarrow> bind_r (rutube_answer env i) (rutubeQuality env))"

definition rutube_resolve :: "web_env \<Rightarrow> variant \<Rightarrow> (error, resolved) result" where
  "rutube_resolve env v =
     (case rutubeId (wb_runtime env) (v_url v) of
        None \<Rightarrow> Inl bad_rutube_link
      | Some i \<Rightarrow> bind_r (rutube_answer env i) (\<lambda>w.
          case w_variants w of
            [] \<Rightarrow> Inl type_error
          | current # rest \<Rightarrow> bind_r (assertExactVariant v current) (\<lambda>_.
              Inr ((empty_resolved Video)\<lparr>rs_resolver := Some YtDlp, rs_url := Some (v_url v), rs_title := Some (v_title current), rs_translation := v_translation current,
                rs_selection := Some \<lparr>sel_episode = v_episode current, sel_season = v_season current, sel_translationId = None, sel_player = None,
                  sel_captureId = None\<rparr>\<rparr>))))"

section \<open>VK Video\<close>

record vk_video =
  vk_id :: jstring
  vk_title :: jstring
  vk_url :: jstring
  vk_author :: "jstring option"
  vk_duration :: "rat option"
  vk_cover :: "jstring option"

definition vk_source :: video_source where
  "vk_source = \<lparr>vs_id = js ''vkvideo'', vs_name = js ''VK '' @ [1042, 1080, 1076, 1077, 1086], vs_url = js ''https://vkvideo.ru''\<rparr>"

definition vkWork :: "vk_video \<Rightarrow> work" where
  "vkWork video = (let w = video_publication vk_source (vk_id video) (vk_title video) (vk_url video) in
     w\<lparr>w_cover := vk_cover video, w_variants := map (\<lambda>v. v\<lparr>v_publicationKind := Some Upload, v_author := vk_author video, v_duration := vk_duration video\<rparr>) (w_variants w)\<rparr>)"

definition browser_needed :: error where
  "browser_needed = Content (js ''browser_required'') (js ''Connect qcatch in Sources to search VK Video.'') (Some (js ''https://vkvideo.ru/''))"

definition vk_search :: "web_env \<Rightarrow> (jstring \<Rightarrow> (error, vk_video list) result) option \<Rightarrow> category \<Rightarrow> jstring \<Rightarrow> (error, work list) result" where
  "vk_search env ask category query =
     (if category \<notin> set video_categories then Inr []
      else case vkId (wb_runtime env) query of
          Some i \<Rightarrow> (let w = video_publication vk_source i (js ''VK '' @ [1042, 1080, 1076, 1077, 1086, 32] @ i) (js ''https://vkvideo.ru/video'' @ i) in
            Inr [w\<lparr>w_variants := map (\<lambda>v. v\<lparr>v_publicationKind := Some Upload\<rparr>) (w_variants w)\<rparr>])
        | None \<Rightarrow>
            (case ask of
               None \<Rightarrow> Inl browser_needed
             | Some f \<Rightarrow> bind_r (f (trim query)) (\<lambda>videos.
                 Inr (map (\<lambda>v. (vkWork v)\<lparr>w_category := (if category = AnyCategory then Movies else category)\<rparr>)
                   (filter (\<lambda>v. matchesPublication env (vk_title v) query [] None) videos)))))"

definition vk_resolve :: "web_env \<Rightarrow> variant \<Rightarrow> (error, resolved) result" where
  "vk_resolve env v =
     (if \<not> truthy (vkId (wb_runtime env) (v_url v)) then Inl (Failed ([1053, 1077, 1082, 1086, 1088, 1088, 1077, 1082, 1090, 1085, 1072, 1103, 32, 1089, 1089, 1099,
    1083, 1082, 1072, 32, 86, 75, 32, 1042, 1080, 1076, 1077, 1086, 46]))
      else Inr ((empty_resolved Video)\<lparr>rs_resolver := Some YtDlp, rs_url := Some (v_url v), rs_title := Some (v_title v), rs_translation := v_translation v\<rparr>))"

section \<open>What is played\<close>

text \<open>An upload that is played is still described as it was when it was chosen.\<close>

lemma rutube_resolve_exact:
  assumes "rutube_resolve env v = Inr r"
  shows "\<exists>i w current. rutubeId (wb_runtime env) (v_url v) = Some i \<and> rutube_answer env i = Inr w \<and> current \<in> set (w_variants w)
    \<and> assertExactVariant v current = Inr () \<and> rs_url r = Some (v_url v) \<and> rs_translation r = v_translation current"
proof -
  obtain i w where w: "rutubeId (wb_runtime env) (v_url v) = Some i" "rutube_answer env i = Inr w"
    using assms by (auto simp: rutube_resolve_def bind_r_Inr split: option.splits)
  then show ?thesis using assms by (cases "w_variants w") (auto simp: rutube_resolve_def bind_r_Inr empty_resolved_def)
qed

definition same_upload :: "work \<Rightarrow> work \<Rightarrow> bool" where
  "same_upload a b \<longleftrightarrow> a\<lparr>w_variants := []\<rparr> = b\<lparr>w_variants := []\<rparr>
     \<and> map (\<lambda>v. v\<lparr>v_quality := None\<rparr>) (w_variants a) = map (\<lambda>v. v\<lparr>v_quality := None\<rparr>) (w_variants b)"

lemma rutubeQuality_same: "rutubeQuality env w = Inr w' \<Longrightarrow> same_upload w' w"
proof -
  assume run: "rutubeQuality env w = Inr w'"
  have "same_upload (set_quality hs w) w" for hs by (cases hs) (simp_all add: set_quality_def same_upload_def comp_def)
  moreover have "same_upload w w" by (simp add: same_upload_def)
  moreover have "w' = w \<or> (\<exists>hs. w' = set_quality hs w)"
    using run by (auto simp: rutubeQuality_def bind_r_Inr Let_def simp del: js_simps split: if_splits)
  ultimately show ?thesis by auto
qed

text \<open>The check of qualities changes nothing else about the found videos, and fails for a video without touching the others.\<close>

lemma with_qualities_same: "with_qualities env ws = Inr (ws', es) \<Longrightarrow> list_all2 same_upload ws' ws \<and> length es \<le> length ws"
proof (induction ws arbitrary: ws' es)
  case (Cons w ws)
  have refl: "same_upload w w" by (simp add: same_upload_def)
  show ?case
  proof (cases "rutubeQuality env w")
    case (Inr w')
    then obtain found where f: "with_qualities env ws = Inr (found, es)" "ws' = w' # found" using Cons.prems by (auto simp: bind_r_Inr)
    then show ?thesis using Cons.IH[OF f(1)] rutubeQuality_same[OF Inr] by simp
  next
    case (Inl e)
    then obtain found fs where f: "with_qualities env ws = Inr (found, fs)" "ws' = w # found" "es = e # fs"
      using Cons.prems by (auto simp: bind_r_Inr split: if_splits)
    then show ?thesis using Cons.IH[OF f(1)] refl by simp
  qed
qed simp

end
