(* ===== verification/Rezka.thy ===== *)
theory Rezka
  imports Videos
begin

text \<open>
  HDRezka, \<open>providers/video/hdrezka.ts\<close>: search, translations and episodes of a publication, and
  the streams behind the site's spelling of addresses.
\<close>

section \<open>Requests\<close>

definition rezka_site :: jstring where
  "rezka_site = js ''https://hdrezka.ag''"

definition rezka_source :: video_source where
  "rezka_source = \<lparr>vs_id = js ''hdrezka'', vs_name = js ''HDRezka'', vs_url = rezka_site\<rparr>"

text \<open>The cookie of the account goes with the pages of the configured site only.\<close>

definition sessionHeaders :: "web_env \<Rightarrow> jstring \<Rightarrow> (error, (jstring, jstring) jmap) result" where
  "sessionHeaders env referer =
     (case (rt_url (wb_runtime env) (or_text (or_empty (setting_of env ''baseUrl'')) rezka_site), rt_url (wb_runtime env) referer) of
        (Some b, Some u) \<Rightarrow> Inr ((js ''Referer'', referer)
          # (if url_origin b = url_origin u \<and> truthy (setting_of env ''cookie'') then [(js ''Cookie'', or_empty (setting_of env ''cookie''))] else []))
      | _ \<Rightarrow> Inl invalid_address)"

definition rezka_page :: "web_env \<Rightarrow> jstring \<Rightarrow> jstring \<Rightarrow> (error, node list) result" where
  "rezka_page env url referer = bind_r (sessionHeaders env referer) (\<lambda>hs. web_html env (with_headers hs url))"

definition cdn :: "web_env \<Rightarrow> jstring \<Rightarrow> (jstring \<times> jstring) list \<Rightarrow> (error, json) result" where
  "cdn env page_url parameters =
     (case resolve_url (wb_runtime env) (Some page_url) (js ''/ajax/get_cdn_series/'') of
        None \<Rightarrow> Inl invalid_address
      | Some u \<Rightarrow> bind_r (sessionHeaders env page_url) (\<lambda>hs. web_json env \<lparr>wq_url = rt_href (wb_runtime env) u, wq_method = js ''POST'',
          wq_headers = hs @ [(js ''Content-Type'', js ''application/x-www-form-urlencoded''), (js ''X-Requested-With'', js ''XMLHttpRequest'')],
          wq_body = Some (rt_form_text (wb_runtime env) parameters)\<rparr>))"

section \<open>Playlists\<close>

text \<open>The site's spelling of a playlist: base64 with five salts put in.\<close>

definition salts :: "jstring list" where
  "salts = map js [''IyMjI14hISMjIUBA'', ''QEBAQEAhIyMhXl5e'', ''JCQhIUAkJEBeIUAjJCRA'', ''JCQjISFAIyFAIyM='', ''Xl5eIUAjIyEhIyM='']"

definition salt_mark :: jstring where
  "salt_mark = js ''//_//''"

definition unsalted :: "jstring \<Rightarrow> jstring" where
  "unsalted t = fold (\<lambda>s. replace_all (salt_mark @ s) []) salts t"

definition player_changed :: error where
  "player_changed = Failed [1060, 1086, 1088, 1084, 1072, 1090, 32, 1087, 1083, 1077, 1077, 1088, 1072, 32, 1080, 1079,
    1084, 1077, 1085, 1080, 1083, 1089, 1103, 46, 32, 1054, 1090, 1082, 1088, 1086, 1081, 1090,
    1077, 32, 1074, 1099, 1073, 1088, 1072, 1085, 1085, 1091, 1102, 32, 1074, 1077, 1088, 1089,
    1080, 1102, 32, 1074, 32, 1073, 1088, 1072, 1091, 1079, 1077, 1088, 1077, 46]"

definition decodePlaylist :: "web_env \<Rightarrow> jstring \<Rightarrow> (error, jstring) result" where
  "decodePlaylist env t =
     (if starts_with t (js ''['') \<or> is_web_address t then Inr t
      else let encoded = unsalted (if starts_with t (js ''#h'') then drop 2 t else t) in
        if includes_str encoded salt_mark then Inl player_changed else Inr (wb_utf8 env (wb_base64 env encoded)))"

definition entries_rx :: rx where
  "entries_rx = RSeqs [RLit (js ''[''), RGroup 1 (RPlus (RCh (\<lambda>c. c \<noteq> 93))), RLit (js '']''), RGroup 2 (RPlus (RCh (\<lambda>c. c \<noteq> 91)))]"

definition or_rx :: rx where
  "or_rx = RSeqs [RPlus RSpace, RLit (js ''or''), RPlus RSpace]"

definition entry_url :: "jstring \<Rightarrow> jstring" where
  "entry_url t = (let s = trim t in if s \<noteq> [] \<and> last s = 44 then butlast s else s)"

definition playlist_entries :: "web_env \<Rightarrow> rx_found \<Rightarrow> (jstring \<times> jstring) list" where
  "playlist_entries env f = map (\<lambda>u. (trim (text_of (bt_html (wb_tools env) (or_empty (cap f 1)))), entry_url u)) (rx_split or_rx (or_empty (cap f 2)))"

definition playlistEntries :: "web_env \<Rightarrow> jstring \<Rightarrow> (error, (jstring \<times> jstring) list) result" where
  "playlistEntries env t = bind_r (decodePlaylist env t) (\<lambda>s.
     Inr (filter (\<lambda>(title, url). is_web_address url) (concat (map (playlist_entries env) (rx_all entries_rx s)))))"

section \<open>Search\<close>

definition item_place :: "path_selector \<Rightarrow> page_place \<Rightarrow> node list \<Rightarrow> page_place list" where
  "item_place S p doc = filter (at_path S) (places_under p doc)"

definition link_cls :: selector where
  "link_cls = cls ''b-content__inline_item-link''"

definition page_number_rx :: rx where
  "page_number_rx = RSeqs [RLit (js ''/''), RGroup 1 (RPlus RDigit), RLit (js ''-'')]"

definition year_in :: "jstring \<Rightarrow> rat option" where
  "year_in t = map_option (\<lambda>y. of_nat (num_of y)) (rx_cap (RSeqs [RWordB, RGroup 1 (RSeq (RAlt (RLit (js ''19'')) (RLit (js ''20''))) (RTimes 2 RDigit)), RWordB]) 1 t)"

definition page_category :: "jstring \<Rightarrow> category" where
  "page_category page_url = (if includes_str page_url (js ''/animation/'') then Anime else if includes_str page_url (js ''/series/'') then Tv else Movies)"

definition rezka_item :: "web_env \<Rightarrow> jstring \<Rightarrow> category \<Rightarrow> node list \<Rightarrow> page_place \<Rightarrow> work option" where
  "rezka_item env base category doc p =
     (let link = take 1 (item_place (below [link_cls] (tg ''a'')) p doc);
          page_url = absoluteUrl (wb_runtime env) (case link of [] \<Rightarrow> None | q # qs \<Rightarrow> place_attr ''href'' q) base;
          title = trim (concat (map place_text link));
          i = opt_or (place_attr ''data-id'' p) (Option.bind page_url (rx_cap page_number_rx 1))
      in case page_url of
          None \<Rightarrow> None
        | Some url \<Rightarrow>
            if title = [] \<or> \<not> truthy i \<or> category \<noteq> AnyCategory \<and> category \<noteq> page_category url then None
            else Some ((new_work (js ''hdrezka:'' @ or_empty i) title (page_category url)
                [(videoVariant rezka_source (or_empty i) title url)\<lparr>v_needsInspection := Some True\<rparr>])
              \<lparr>w_url := Some url, w_cover := absoluteUrl (wb_runtime env) (head_attr ''src'' (found_in (tg ''img'') p)) base,
               w_year := year_in (concat (map place_text (item_place (below [link_cls] (tg ''div'')) p doc)))\<rparr>))"

definition rezka_search :: "web_env \<Rightarrow> category \<Rightarrow> jstring \<Rightarrow> (error, work list) result" where
  "rezka_search env category query =
     (if category \<notin> {AnyCategory, Movies, Tv, Anime} then Inr []
      else let base = or_text (or_empty (setting_of env ''baseUrl'')) rezka_site in
        case resolve_url (wb_runtime env) (Some base) (js ''/search/'') of
          None \<Rightarrow> Inl invalid_address
        | Some u \<Rightarrow> bind_r (rezka_page env (rt_href (wb_runtime env) (url_with_params (wb_runtime env)
              [(js ''do'', js ''search''), (js ''subaction'', js ''search''), (js ''q'', query)] u)) base) (\<lambda>doc.
            Inr (List.map_filter (rezka_item env base category doc) (filter (place_is (cls ''b-content__inline_item'')) (places doc)))))"

section \<open>Inspection\<close>

definition page_unavailable :: "jstring \<Rightarrow> error" where
  "page_unavailable url = Content (js ''source_page_unavailable'') [1053, 1077, 32, 1091, 1076, 1072, 1083, 1086, 1089, 1100, 32, 1087, 1088, 1086, 1095, 1080,
    1090, 1072, 1090, 1100, 32, 1089, 1090, 1088, 1072, 1085, 1080, 1094, 1091, 32, 1074, 1099,
    1073, 1088, 1072, 1085, 1085, 1086, 1081, 32, 1074, 1077, 1088, 1089, 1080, 1080, 46] (Some url)"

definition versions_unavailable :: "jstring \<Rightarrow> error" where
  "versions_unavailable url = Content (js ''source_versions_unavailable'') [1048, 1089, 1090, 1086, 1095, 1085, 1080, 1082, 32, 1085, 1077, 32, 1087, 1088, 1077, 1076,
    1086, 1089, 1090, 1072, 1074, 1080, 1083, 32, 1087, 1077, 1088, 1077, 1074, 1086, 1076, 1099,
    32, 1074, 1099, 1073, 1088, 1072, 1085, 1085, 1086, 1081, 32, 1074, 1077, 1088, 1089, 1080,
    1080, 46] (Some url)"

definition initialization_rx :: rx where
  "initialization_rx = RSeqs [RLit (js ''initCDN''), RGroup 1 (RAlt (RLit (js ''Series'')) (RLit (js ''Movies''))), RLit (js ''Events(''), RPlus RDigit,
     RLit (js '',''), RSpaces, RGroup 2 (RPlus RDigit)]"

record translator =
  tr_id :: jstring
  tr_name :: jstring
  tr_ads :: bool
  tr_cam :: bool

definition with_attrs :: "string list \<Rightarrow> selector" where
  "with_attrs as tag attrs \<longleftrightarrow> list_all (\<lambda>a. jm_has attrs (js a)) as"

definition listed_translators :: "node list \<Rightarrow> translator list" where
  "listed_translators doc = map (\<lambda>n. \<lparr>tr_id = or_empty (node_attr n (js ''data-translator_id'')), tr_name = all_text [n],
      tr_ads = (node_attr n (js ''data-ads'') = Some (js ''1'')), tr_cam = (node_attr n (js ''data-camrip'') = Some (js ''1''))\<rparr>)
     (select_where (below [has_id ''translators-list''] (with_attrs [''data-translator_id''])) [] doc)"

definition source_translation :: jstring where
  "source_translation = [1055, 1077, 1088, 1077, 1074, 1086, 1076, 32, 1080, 1089, 1090, 1086, 1095, 1085, 1080, 1082,
    1072]"

text \<open>The name of the only translation: the last cell of the first row about it in the table of facts.\<close>

definition cells :: "node \<Rightarrow> node list" where
  "cells row = select (tg ''td'') (node_body row)"

definition named_translation :: "node list \<Rightarrow> jstring" where
  "named_translation doc =
     (case find (\<lambda>row. rx_test (RLitI [1087, 1077, 1088, 1077, 1074, 1086, 1076]) (text_of (take 1 (cells row)))) (select_where (below [cls ''b-post__info''] (tg ''tr'')) [] doc) of
        None \<Rightarrow> source_translation
      | Some row \<Rightarrow> trim (text_of (take 1 (rev (cells row)))))"

definition translators_of :: "web_env \<Rightarrow> node list \<Rightarrow> translator list" where
  "translators_of env doc =
     (if listed_translators doc \<noteq> [] then listed_translators doc
      else case rx_cap initialization_rx 2 (bt_print (wb_tools env) doc) of
          None \<Rightarrow> []
        | Some i \<Rightarrow> [\<lparr>tr_id = i, tr_name = named_translation doc, tr_ads = False, tr_cam = False\<rparr>])"

definition is_series :: "web_env \<Rightarrow> node list \<Rightarrow> bool" where
  "is_series env doc \<longleftrightarrow> rx_cap initialization_rx 1 (bt_print (wb_tools env) doc) = Some (js ''Series'')
     \<or> select (with_attrs [''data-episode_id'', ''data-season_id'']) doc \<noteq> []"

definition translated_variant :: "jstring \<Rightarrow> jstring \<Rightarrow> jstring \<Rightarrow> translator \<Rightarrow> variant" where
  "translated_variant i title url t = (videoVariant rezka_source (i @ js '':translation:'' @ tr_id t) title url)
     \<lparr>v_translation := Some (tr_name t), v_adStatus := Some (if tr_ads t then AdReported else AdUnknown),
      v_quality := (if tr_cam t then Some (js ''CAM'') else None)\<rparr>"

definition no_episodes_note :: jstring where
  "no_episodes_note = [1048, 1089, 1090, 1086, 1095, 1085, 1080, 1082, 32, 1085, 1077, 32, 1087, 1088, 1077, 1076,
    1086, 1089, 1090, 1072, 1074, 1080, 1083, 32, 1089, 1087, 1080, 1089, 1086, 1082, 32, 1089,
    1077, 1088, 1080, 1081, 32, 1076, 1083, 1103, 32, 1101, 1090, 1086, 1075, 1086, 32, 1087,
    1077, 1088, 1077, 1074, 1086, 1076, 1072, 46]"

definition episode_variant :: "variant \<Rightarrow> node \<Rightarrow> variant" where
  "episode_variant v n =
     (let season = or_empty (node_attr n (js ''data-season_id'')); number = or_empty (node_attr n (js ''data-episode_id'')) in
      v\<lparr>v_id := v_id v @ [58] @ season @ [58] @ number, v_episode := Some (js ''S'' @ season @ js ''E'' @ number)\<rparr>)"

definition translation_variants :: "web_env \<Rightarrow> jstring \<Rightarrow> jstring \<Rightarrow> jstring \<Rightarrow> bool \<Rightarrow> translator \<Rightarrow> (error, variant list) result" where
  "translation_variants env i title url series t =
     (let v = translated_variant i title url t in
      if \<not> series then Inr [v]
      else bind_r (cdn env url [(js ''action'', js ''get_episodes''), (js ''id'', i), (js ''translator_id'', tr_id t)]) (\<lambda>answer.
        bind_r (member (Some answer) ''success'') (\<lambda>success.
          if \<not> truthy_json success \<or> \<not> truthy_json (field answer ''episodes'')
          then Inr [v\<lparr>v_id := v_id v @ js '':series'', v_notes := Some [\<lparr>n_text = no_episodes_note, n_url = url, n_author = None\<rparr>]\<rparr>]
          else Inr (map (episode_variant v) (select (with_attrs [''data-episode_id'', ''data-season_id''])
            (bt_html (wb_tools env) (string_of (wb_source env) (field answer ''episodes''))))))))"

definition rezka_inspect :: "web_env \<Rightarrow> variant \<Rightarrow> (error, work) result" where
  "rezka_inspect env v =
     bind_r (rezka_page env (v_url v) (v_url v)) (\<lambda>doc.
       let i = (case id_part v 1 of None \<Rightarrow> js ''undefined'' | Some t \<Rightarrow> t);
           title = all_text (select_where (below [cls ''b-post__title''] (tg ''h1'')) [] doc); ts = translators_of env doc in
       if title = [] then Inl (page_unavailable (v_url v))
       else if ts = [] then Inl (versions_unavailable (v_url v))
       else bind_r (map_r (translation_variants env i title (v_url v) (is_series env doc)) ts) (\<lambda>vs.
         Inr ((new_work (js ''hdrezka:'' @ i) title
             (if includes_str (v_url v) (js ''/series/'') then Tv else if includes_str (v_url v) (js ''/animation/'') then Anime else Movies) (concat vs))
           \<lparr>w_url := Some (v_url v),
            w_cover := absoluteUrl (wb_runtime env) (head_attr ''content'' (select (both (tg ''meta'') (attr_is ''property'' ''og:image'')) doc)) (v_url v),
            w_description := Some (all_text (select (cls ''b-post__description_text'') doc))\<rparr>)))"

section \<open>Resolution\<close>

definition choose_translation :: error where
  "choose_translation = Failed [1042, 1099, 1073, 1077, 1088, 1080, 1090, 1077, 32, 1087, 1077, 1088, 1077, 1074, 1086, 1076,
    32, 1074, 32, 1074, 1072, 1088, 1080, 1072, 1085, 1090, 1072, 1093, 32, 1092, 1080, 1083,
    1100, 1084, 1072, 46]"

definition no_episodes :: error where
  "no_episodes = Failed [1048, 1089, 1090, 1086, 1095, 1085, 1080, 1082, 32, 1085, 1077, 32, 1087, 1088, 1077, 1076,
    1086, 1089, 1090, 1072, 1074, 1080, 1083, 32, 1089, 1087, 1080, 1089, 1086, 1082, 32, 1089,
    1077, 1088, 1080, 1081, 46, 32, 1055, 1086, 1076, 1082, 1083, 1102, 1095, 1080, 1090, 1077,
    32, 1089, 1077, 1089, 1089, 1080, 1102, 32, 1080, 1089, 1090, 1086, 1095, 1085, 1080, 1082,
    1072, 32, 1080, 32, 1086, 1073, 1085, 1086, 1074, 1080, 1090, 1077, 32, 1074, 1072, 1088,
    1080, 1072, 1085, 1090, 1099, 46]"

definition no_direct_stream :: error where
  "no_direct_stream = Failed [1042, 1099, 1073, 1088, 1072, 1085, 1085, 1099, 1081, 32, 1087, 1083, 1077, 1077, 1088, 32,
    1085, 1077, 32, 1087, 1088, 1077, 1076, 1086, 1089, 1090, 1072, 1074, 1080, 1083, 32, 1087,
    1088, 1103, 1084, 1086, 1081, 32, 1087, 1086, 1090, 1086, 1082, 46]"

definition stream_height :: "jstring \<Rightarrow> int" where
  "stream_height title = (case rx_exec (RPlus RDigit) title of None \<Rightarrow> 0 | Some f \<Rightarrow> int (num_of (f_text f)))"

definition best_streams :: "(jstring \<times> jstring) list \<Rightarrow> (jstring \<times> jstring) list" where
  "best_streams offered = sort_desc (\<lambda>(title, url). stream_height title) offered"

definition stream_form :: "variant \<Rightarrow> (jstring \<times> jstring) list" where
  "stream_form v =
     [(js ''id'', or_empty (id_part v 1)), (js ''translator_id'', or_empty (id_part v 3)),
      (js ''action'', if truthy (id_part v 5) then js ''get_stream'' else js ''get_movie'')]
     @ (if truthy (id_part v 5) \<and> truthy (id_part v 4) then [(js ''season'', or_empty (id_part v 4)), (js ''episode'', or_empty (id_part v 5))] else [])"

definition in_browser :: "variant \<Rightarrow> resolved" where
  "in_browser v = (empty_resolved Video)\<lparr>rs_resolver := Some Browser, rs_url := Some (v_url v), rs_title := Some (v_title v), rs_translation := v_translation v,
     rs_selection := Some \<lparr>sel_episode = id_part v 5, sel_season = id_part v 4, sel_translationId = id_part v 3, sel_player = None, sel_captureId = None\<rparr>\<rparr>"

definition offered_subtitles :: "web_env \<Rightarrow> json \<Rightarrow> (error, (jstring \<times> jstring \<times> jstring option) list option) result" where
  "offered_subtitles env answer =
     (if \<not> truthy_json (field answer ''subtitle'') then Inr None
      else bind_r (playlistEntries env (string_of (wb_source env) (field answer ''subtitle''))) (\<lambda>subs. Inr (Some (map (\<lambda>(t, u). (t, u, None)) subs))))"

definition play_best :: "web_env \<Rightarrow> variant \<Rightarrow> json \<Rightarrow> (jstring \<times> jstring) list \<Rightarrow> (error, resolved) result" where
  "play_best env v answer offered =
     (case best_streams offered of
        [] \<Rightarrow> Inl no_direct_stream
      | (title, url) # rest \<Rightarrow> bind_r (offered_subtitles env answer) (\<lambda>subtitles.
          Inr ((empty_resolved Video)\<lparr>rs_resolver := Some Direct, rs_url := Some url, rs_title := Some (v_title v), rs_translation := v_translation v,
            rs_headers := Some [(js ''Referer'', v_url v)], rs_subtitles := subtitles\<rparr>)))"

definition offered_stream :: "web_env \<Rightarrow> variant \<Rightarrow> json \<Rightarrow> (error, resolved) result" where
  "offered_stream env v answer = bind_r (member (Some answer) ''success'') (\<lambda>success.
     if \<not> truthy_json success \<or> \<not> truthy_json (field answer ''url'') then Inr (in_browser v)
     else bind_r (playlistEntries env (string_of (wb_source env) (field answer ''url''))) (play_best env v answer))"

definition rezka_resolve :: "web_env \<Rightarrow> variant \<Rightarrow> (error, resolved) result" where
  "rezka_resolve env v =
     (if \<not> truthy (id_part v 1) \<or> \<not> truthy (id_part v 3) then Inl choose_translation
      else if id_part v 4 = Some (js ''series'') then Inl no_episodes
      else bind_r (cdn env (v_url v) (stream_form v)) (offered_stream env v))"

section \<open>What is played\<close>

lemma sessionHeaders_cookie:
  assumes "sessionHeaders env referer = Inr hs" "(js ''Cookie'', c) \<in> set hs"
  shows "setting_of env ''cookie'' = Some c \<and> (\<exists>b u. rt_url (wb_runtime env) (or_text (or_empty (setting_of env ''baseUrl'')) rezka_site) = Some b
    \<and> rt_url (wb_runtime env) referer = Some u \<and> url_origin u = url_origin b)"
proof -
  have "js ''Cookie'' \<noteq> js ''Referer''" by code_simp
  then show ?thesis using assms by (cases "setting_of env ''cookie''") (auto simp: sessionHeaders_def simp del: js_simps split: option.splits if_splits)
qed

lemma playlistEntries_web: "playlistEntries env t = Inr es \<Longrightarrow> list_all (\<lambda>(title, url). is_web_address url) es"
  by (auto simp: playlistEntries_def bind_r_Inr list_all_iff)

lemma best_streams_first:
  assumes "best_streams es = (title, url) # rest"
  shows "(title, url) \<in> set es \<and> (\<forall>(t, u) \<in> set es. stream_height t \<le> stream_height title)"
proof -
  have "sorted_wrt (\<ge>) (map (\<lambda>(t, u). stream_height t) (best_streams es))" unfolding best_streams_def by (rule sorted_sort_desc)
  moreover have s: "set (best_streams es) = set es" by (simp add: best_streams_def)
  ultimately show ?thesis using assms by (auto simp flip: s)
qed

text \<open>
  A stream that is played directly is one of the web addresses that the site offers for the chosen
  translation, season and episode, and none of them has a greater quality.
\<close>

theorem rezka_best:
  assumes "rezka_resolve env v = Inr r" "rs_resolver r = Some Direct"
  shows "\<exists>answer offered title url. cdn env (v_url v) (stream_form v) = Inr answer
    \<and> playlistEntries env (string_of (wb_source env) (field answer ''url'')) = Inr offered \<and> (title, url) \<in> set offered \<and> rs_url r = Some url
    \<and> is_web_address url \<and> (\<forall>(t, u) \<in> set offered. stream_height t \<le> stream_height title)
    \<and> rs_translation r = v_translation v \<and> rs_headers r = Some [(js ''Referer'', v_url v)]"
proof -
  obtain answer where a: "cdn env (v_url v) (stream_form v) = Inr answer" and o: "offered_stream env v answer = Inr r"
    using assms(1) by (auto simp: rezka_resolve_def bind_r_Inr split: if_splits)
  have "r \<noteq> in_browser v" using assms(2) by (auto simp: in_browser_def)
  then obtain offered where l: "playlistEntries env (string_of (wb_source env) (field answer ''url'')) = Inr offered"
    and r: "play_best env v answer offered = Inr r"
    using o by (auto simp: offered_stream_def bind_r_Inr split: if_splits)
  obtain title url tail where best: "best_streams offered = (title, url) # tail" using r by (cases "best_streams offered") (auto simp: play_best_def)
  have "rs_url r = Some url \<and> rs_translation r = v_translation v \<and> rs_headers r = Some [(js ''Referer'', v_url v)]"
    using r by (auto simp: play_best_def best bind_r_Inr simp del: js_simps)
  moreover have "is_web_address url"
    using playlistEntries_web[OF l] best_streams_first[OF best] by (auto simp: list_all_iff)
  ultimately show ?thesis using a l best_streams_first[OF best] by blast
qed

text \<open>A film with two streams.\<close>

definition sample_film :: variant where
  "sample_film = videoVariant rezka_source (js ''7:translation:5'') (js ''F'') (js ''https://hdrezka.ag/f'')"

definition sample_playlist :: jstring where
  "sample_playlist = js ''[360p]https://v.org/a,[1080p]https://v.org/b or https://w.org/b''"

definition sample_rezka :: web_env where
  "sample_rezka = (sample_web [(js ''360p'', [TextNode (js ''360p'')]), (js ''1080p'', [TextNode (js ''1080p'')])]
      [(js ''https://hdrezka.ag/ajax/get_cdn_series/'', json_object [(''success'', JBool True), (''url'', JText sample_playlist)])])
     \<lparr>wb_source := Galleries.sample_source\<lparr>so_runtime := sample_runtime\<lparr>rt_url_at := (\<lambda>s b. sample_url (js ''https://hdrezka.ag'' @ s))\<rparr>\<rparr>\<rparr>"

definition sample_film_played :: resolved where
  "sample_film_played = (case rezka_resolve sample_rezka sample_film of Inr r \<Rightarrow> r | Inl e \<Rightarrow> empty_resolved File)"

theorem rezka_best_witness:
  "rs_url sample_film_played = Some (js ''https://v.org/b'')
    \<and> (\<exists>offered title url. (title, url) \<in> set offered \<and> rs_url sample_film_played = Some url
      \<and> (\<forall>(t, u) \<in> set offered. stream_height t \<le> stream_height title))"
proof -
  have "\<not> isl (rezka_resolve sample_rezka sample_film)" by code_simp
  then have run: "rezka_resolve sample_rezka sample_film = Inr sample_film_played" by (auto simp: sample_film_played_def split: sum.splits)
  have "rs_resolver sample_film_played = Some Direct" by code_simp
  from rezka_best[OF run this] have "\<exists>offered title url. (title, url) \<in> set offered \<and> rs_url sample_film_played = Some url
      \<and> (\<forall>(t, u) \<in> set offered. stream_height t \<le> stream_height title)" by blast
  moreover have "rs_url sample_film_played = Some (js ''https://v.org/b'')" by code_simp
  ultimately show ?thesis by blast
qed

end
