(* ===== verification/Spec2Isabelle.thy ===== *)
theory Spec2Isabelle
  imports Results Store Sharing Settings Net Requests Proxy WebView Products Media Searching Originals Bridge Service Reader Galleries Links Aggregators Novels Games Yani AniLiberty KinoPub Social Rezka
begin

text \<open>
  Verification of the content helper of qbutt, the TypeScript program under
  \<open>src/components/content\<close>. Paths below are relative to that directory.

  The program. The desktop client starts the helper as a child process and sends it one JSON
  request per line. The helper searches sources of books, comics, games and videos, merges what
  they find into works with ranked variants, inspects and opens a variant, keeps a library, a
  reader of books and the credentials of the sources, and lends its network access to the media
  player through a local proxy. Sources that ask for a check in a browser are served by a web view
  helper or by the browser of the client, over the same line protocol.

  The parts and their theories, in the order in which they build on each other.

  Shared vocabulary. \<open>Prelude\<close> has JavaScript's insertion-ordered maps (the interface \<open>js_map\<close>,
  interpreted by association lists), results with errors as values, stable sorting and the
  collections of facts that the proofs use. \<open>JsText\<close> has strings as lists of UTF-16 code units,
  \<open>Regex\<close> the backtracking matcher of regular expressions, \<open>Json\<close> unchecked JSON values.
  \<open>Contracts\<close> is \<open>contracts.ts\<close> and \<open>errors.ts\<close>: the records of works, variants, sources and
  resolved content, and the record \<open>runtime\<close> of what the JavaScript runtime supplies (Unicode
  tables, URL parsing, SHA-256). \<open>SampleRuntime\<close> is a concrete runtime for the witnesses, with a
  proof that it satisfies the laws of URLs that some properties assume.

  Results. \<open>SearchQuery\<close> is \<open>search-query.ts\<close>. \<open>results.ts\<close> is cut into \<open>Variants\<close> (merging, facets,
  scores, \<open>rankVariants\<close>), \<open>Matching\<close> (torrent hashes on 32 bit words, seasons, \<open>sameWork\<close>, the
  association with catalogs) and \<open>Results\<close>, the class \<open>SearchResults\<close>: its fields are the record
  fields, its methods \<open>add\<close>, \<open>addQuery\<close> and \<open>publish\<close> the definitions \<open>add_work\<close>, \<open>addQuery\<close> and
  \<open>publish\<close>. The lemmas show an invariant of every rebuild and that the emitted events are a log
  from which a listener recovers the works.

  References, library and sharing. \<open>References\<close> is \<open>references.ts\<close>: public forms of links, persistent
  forms of works, \<open>assertExactVariant\<close>. \<open>Store\<close> is \<open>store.ts\<close>, whose SQLite tables are maps from row
  keys to values. \<open>Sharing\<close> is \<open>sharing.ts\<close> with base64url written out. \<open>Settings\<close> is \<open>settings.ts\<close>.
  The lemmas give round trips, the well-formed library and what an update leaves alone.

  Network. \<open>Net\<close> is \<open>net.ts\<close>: private addresses, one request, \<open>sourceFetch\<close> with its redirects.
  \<open>Proxy\<close> is \<open>networkproxy.ts\<close>, \<open>WebView\<close> is \<open>webview.ts\<close>, \<open>Products\<close> is \<open>products.ts\<close> and
  \<open>media-runtime.ts\<close>, \<open>Media\<close> is \<open>media.ts\<close>. The lemmas confine credentials and cookies to their
  origin and requests to public addresses, and bound sizes and counts.

  Catalog. \<open>catalog.ts\<close> is cut into \<open>Sessions\<close> (cookies and clearances of a source, headers of
  downloads), \<open>Catalog\<close> (an operation in a session with one browser check and one retry, health, the
  cache of inspections) and \<open>Searching\<close> (choice and schedule of sources, the search). The search and
  the reader's picture loader take their jobs with loops that share a counter; \<open>Pool\<close> states that
  as the interface \<open>worker_pool\<close>, which both interpret.

  Helper process. \<open>Framing\<close> and \<open>Service\<close> are \<open>main.ts\<close>: chunks of input, pending requests, the
  output queue, cancellation and shutdown as a step relation whose reachable states are
  \<open>helper_run\<close>. \<open>Framing\<close> states the receiver of lines as the interface \<open>line_service\<close>, which
  \<open>Service\<close> interprets on the helper. \<open>Requests\<close> has the dispatch and validation of every method.
  \<open>Bridge\<close> is \<open>browser/index.ts\<close> and \<open>browser/protocol.ts\<close>. Interleavings are the orders of steps;
  the invariants are proved by rule induction over all of them.

  Reader. \<open>Html\<close> is \<open>reader/html.ts\<close>, \<open>Archive\<close> is \<open>reader/archive.ts\<close> and \<open>reader/types.ts\<close>, \<open>Reader\<close>
  is \<open>reader/service.ts\<close>: documents as a map from paths, the queue of their changes, the cache of
  pictures. The lemmas confine every file to its directory, keep the order of changes, and keep
  the position of a reader.

  Sources of reading. \<open>Galleries\<close> is \<open>providers/reading-nhentai.ts\<close> and \<open>reading-mangadex.ts\<close>;
  \<open>Originals\<close> is \<open>reading-originals.ts\<close>; \<open>Readings\<close>, \<open>Chapters\<close>, \<open>Links\<close>, \<open>Aggregators\<close> and \<open>Novels\<close> are
  \<open>reading.ts\<close> and \<open>reading-asian.ts\<close>: requests, chapters, links of publications, catalogs of
  translations and sites of original novels.

  Sources of games. \<open>Web\<close> is \<open>providers/http.ts\<close> with the places of a page. \<open>GameText\<close> (names,
  versions, literals in scripts), \<open>GamePages\<close> (public mirrors, directories), \<open>GameSearch\<close> (the five
  catalogs), \<open>GameLinks\<close> (the release behind a link) and \<open>Games\<close> (inspection and resolution) are
  \<open>providers/games/catalog.ts\<close>, \<open>fitgirl.ts\<close> and \<open>index.ts\<close>.

  Sources of videos. \<open>Videos\<close> is \<open>providers/video/common.ts\<close> with the operations on answers that the
  sources share; \<open>Players\<close> is \<open>cvh.ts\<close> and \<open>kodik.ts\<close>; \<open>Yani\<close>, \<open>AniLiberty\<close>, \<open>KinoPub\<close>, \<open>Social\<close> and
  \<open>Rezka\<close> are \<open>yani.ts\<close>, \<open>aniliberty.ts\<close>, \<open>kinopub.ts\<close>, \<open>social.ts\<close> and \<open>hdrezka.ts\<close>. The lemmas say that
  what plays is what was chosen, and where a stream may lie.

  Parameters. Code that is not part of the repository is an argument of the definitions that use
  it: the runtime, DNS, sockets and the answers of the network, cheerio's parser and printer (pages
  are trees of elements), the archive library, JSON text, base64 and encodings of texts where the
  code calls a library for them, cookie jars, cryptography, yt-dlp, the browser, the clock. A
  property that relies on documented behaviour of such code names it as a hypothesis and has a
  witness with concrete functions.

  Conventions. Numbers of JavaScript that the code computes with are exact rationals. A field of an
  unchecked answer that has another type than the code expects is read as absent where the code
  passes it on, and raises where the code calls a method of it. Case folding of patterns covers
  ASCII and Cyrillic. Objects keep their keys in the order of insertion. Paths are POSIX paths.
  The requests of one wave (\<open>Promise.all\<close>) are taken in the order of the array. Cyrillic
  literals are lists of code units. The network is a function of the request: within one operation
  the same request has the same answer.

  Bounds and termination. The matcher of \<open>Regex\<close> iterates a pattern at most as often as characters
  are left, since an iteration that takes none is dropped, and replacing and splitting take as many
  rounds as the text has characters (one more where an empty match at the end counts), since
  every round moves on. The loops over pages end by measures: 30001 minus the offset for MangaDex
  (\<open>feed_loop\<close>), 3001 minus the page for Naver (\<open>naver_pages\<close>), 41 minus the directories read for the
  walk of Online-Fix (\<open>walk\<close>), the length of the input for \<open>drain\<close>. Two loops are partial functions:
  \<open>schedule_loop\<close>, which \<open>schedule_round_robin\<close> shows to end, and \<open>hub_loop\<close> over the pages of a
  RanobeHub book, which ends when the site's total stays bounded (\<open>hub_inspection_ends\<close>) and need
  not end otherwise (\<open>hub_inspection_may_not_end\<close>). A search makes at most four passes, a redirected
  fetch at most six requests.

  Not modelled. The text of JSON files and the SQL of the library; the child process around
  Windows DPAPI (\<open>secrets.ts\<close>, a parameter with its documented inverse); progress events of sources;
  the tables that only list providers. Outside this directory: the C++ client and its Rust
  helpers, the web interface inherited from qBittorrent, and the build scripts.
\<close>

end
